(* ===== verification/Js_Core.thy ===== *)
theory Js_Core
  imports Complex_Main
begin

text \<open>
  Prelude of the development: the part of JavaScript's value model the repository's TypeScript
  relies on, and the automation the components share.
  \<^item> Results. A function that may \<open>throw\<close> returns \<open>'e + 'a\<close>: \<open>Inl\<close> the error, \<open>Inr\<close> the value;
    \<open>bind_res\<close> runs the rest of the function only on \<open>Inr\<close>. A validator that collects errors
    in an array returns a list built from \<open>err_if\<close>.
  \<^item> Strings are \<open>char list\<close>: a \<open>char\<close> stands for a UTF-16 code unit below 256. On that range
    \<open>to_lower\<close> (\<open>toLowerCase\<close>) and \<open>js_trim\<close> (\<open>trim\<close>) are exact.
  \<^item> A JavaScript \<open>number\<close> is a \<open>jsnum\<close>: NaN, the infinities, or a rational (every finite double
    is one; -0 is identified with 0, and the rounding of sums beyond 2^53 is not modelled).
    A \<open>bigint\<close> is an \<open>int\<close>.
  \<^item> \<open>Number.parseInt\<close>, \<open>BigInt(string)\<close>, \<open>toString(radix)\<close> and \<open>padStart\<close>, with their round trips.
\<close>

named_theorems js_defs \<open>definitions of the string and number helpers, for evaluation\<close>
named_theorems res_simps \<open>rules that take apart a successful run\<close>

section \<open>Results and collected errors\<close>

definition bind_res :: "'e + 'a \<Rightarrow> ('a \<Rightarrow> 'e + 'b) \<Rightarrow> 'e + 'b" where
  "bind_res m f = (case m of Inl e \<Rightarrow> Inl e | Inr a \<Rightarrow> f a)"

lemma bind_res_simps [simp]:
  "bind_res (Inl e) f = Inl e"
  "bind_res (Inr a) f = f a"
  by (simp_all add: bind_res_def)

lemma bind_res_Inr_iff [res_simps]: "bind_res m f = Inr b \<longleftrightarrow> (\<exists>a. m = Inr a \<and> f a = Inr b)"
  by (cases m) auto

lemma bind_res_Inl_iff [res_simps]:
  "bind_res m f = Inl e \<longleftrightarrow> m = Inl e \<or> (\<exists>a. m = Inr a \<and> f a = Inl e)"
  by (cases m) auto

lemma if_Inl_eq_Inr [res_simps]: "(if c then Inl e else r) = Inr a \<longleftrightarrow> \<not> c \<and> r = Inr a"
  by auto

text \<open>Elimination rules that take a successful chain of binds and guards apart, one step at a time.\<close>

lemma bind_resE: "bind_res m f = Inr b \<Longrightarrow> (\<And>a. m = Inr a \<Longrightarrow> f a = Inr b \<Longrightarrow> P) \<Longrightarrow> P"
  by (cases m) auto

lemma guardE: "(if c then Inl e else r) = Inr a \<Longrightarrow> (\<not> c \<Longrightarrow> r = Inr a \<Longrightarrow> P) \<Longrightarrow> P"
  by (cases c) auto

lemma resultE: "(Inr a :: 'e + 'a) = Inr b \<Longrightarrow> (b = a \<Longrightarrow> P) \<Longrightarrow> P"
  by auto

lemmas res_elims = bind_resE guardE resultE

lemma bind_res_assoc: "bind_res (bind_res m f) g = bind_res m (\<lambda>x. bind_res (f x) g)"
  by (cases m) auto

lemma bind_res_cong [fundef_cong]:
  "m = m' \<Longrightarrow> (\<And>a. m' = Inr a \<Longrightarrow> f a = g a) \<Longrightarrow> bind_res m f = bind_res m' g"
  by (cases m') auto

primrec map_res :: "('a \<Rightarrow> 'e + 'b) \<Rightarrow> 'a list \<Rightarrow> 'e + 'b list" where
  "map_res f [] = Inr []"
| "map_res f (x # xs) = bind_res (f x) (\<lambda>y. bind_res (map_res f xs) (\<lambda>ys. Inr (y # ys)))"

lemma map_res_Inr_iff:
  "map_res f xs = Inr ys \<longleftrightarrow> list_all2 (\<lambda>x y. f x = Inr y) xs ys"
  by (induction xs arbitrary: ys) (auto simp: res_simps list_all2_Cons1)

lemma map_res_length: "map_res f xs = Inr ys \<Longrightarrow> length ys = length xs"
  by (simp add: map_res_Inr_iff list_all2_lengthD)

definition err_if :: "bool \<Rightarrow> 'e \<Rightarrow> 'e list" where
  "err_if c e = (if c then [e] else [])"

lemma err_if_Nil [simp]: "err_if c e = [] \<longleftrightarrow> \<not> c"
  by (simp add: err_if_def)

lemma Nil_err_if [simp]: "[] = err_if c e \<longleftrightarrow> \<not> c"
  by (auto simp: err_if_def)

lemma err_if_simps [simp]: "err_if True e = [e]" "err_if False e = []"
  by (simp_all add: err_if_def)

lemma in_set_err_if [simp]: "x \<in> set (err_if c e) \<longleftrightarrow> c \<and> x = e"
  by (auto simp: err_if_def)

text \<open>\<open>[...new Set(xs)]\<close>: the distinct elements in the order of their first occurrence.\<close>

definition js_unique :: "'a list \<Rightarrow> 'a list" where
  "js_unique xs = rev (remdups (rev xs))"

lemma set_js_unique [simp]: "set (js_unique xs) = set xs"
  by (simp add: js_unique_def)

lemma distinct_js_unique [simp]: "distinct (js_unique xs)"
  by (simp add: js_unique_def)

section \<open>Code units and strings\<close>

definition code :: "char \<Rightarrow> nat" where
  "code c = of_char c"

definition is_upper :: "char \<Rightarrow> bool" where
  "is_upper c \<longleftrightarrow> (65 \<le> code c \<and> code c \<le> 90) \<or> (192 \<le> code c \<and> code c \<le> 222 \<and> code c \<noteq> 215)"

definition lower_char :: "char \<Rightarrow> char" where
  "lower_char c = (if is_upper c then char_of (code c + 32) else c)"

definition to_lower :: "string \<Rightarrow> string" where
  "to_lower s = map lower_char s"

definition is_space :: "char \<Rightarrow> bool" where
  "is_space c \<longleftrightarrow> (9 \<le> code c \<and> code c \<le> 13) \<or> code c = 32 \<or> code c = 160"

definition js_trim :: "string \<Rightarrow> string" where
  "js_trim s = rev (dropWhile is_space (rev (dropWhile is_space s)))"

definition is_digit :: "char \<Rightarrow> bool" where
  "is_digit c \<longleftrightarrow> 48 \<le> code c \<and> code c \<le> 57"

definition is_hex_char :: "char \<Rightarrow> bool" where
  "is_hex_char c \<longleftrightarrow> is_digit c \<or> (65 \<le> code c \<and> code c \<le> 70) \<or> (97 \<le> code c \<and> code c \<le> 102)"

definition starts_with :: "string \<Rightarrow> string \<Rightarrow> bool" where
  "starts_with p s \<longleftrightarrow> take (length p) s = p"

fun js_includes :: "string \<Rightarrow> string \<Rightarrow> bool" where
  "js_includes p [] = (p = [])"
| "js_includes p (c # s) = (starts_with p (c # s) \<or> js_includes p s)"

lemmas [js_defs] = code_def is_upper_def lower_char_def char_of_def to_lower_def is_space_def js_trim_def is_digit_def
  is_hex_char_def starts_with_def

lemma code_less_256: "code c < 256"
  by (simp add: code_def)

lemma code_lower_char: "code (lower_char c) = (if is_upper c then code c + 32 else code c)"
  by (auto simp: lower_char_def is_upper_def code_def of_char_mod_256)

lemma lower_char_idem [simp]: "lower_char (lower_char c) = lower_char c"
proof -
  have "\<not> is_upper (lower_char c)"
    unfolding is_upper_def code_lower_char by (auto simp: is_upper_def)
  then show ?thesis
    by (subst lower_char_def) simp
qed

lemma is_hex_char_lower [simp]: "is_hex_char (lower_char c) = is_hex_char c"
  unfolding is_hex_char_def is_digit_def code_lower_char by (auto simp: is_upper_def)

lemma to_lower_idem [simp]: "to_lower (to_lower s) = to_lower s"
  by (simp add: to_lower_def)

lemma length_to_lower [simp]: "length (to_lower s) = length s"
  by (simp add: to_lower_def)

lemma to_lower_append [simp]: "to_lower (s @ t) = to_lower s @ to_lower t"
  by (simp add: to_lower_def)

lemma to_lower_Nil [simp]: "to_lower [] = []" "to_lower s = [] \<longleftrightarrow> s = []"
  by (simp_all add: to_lower_def)

lemma to_lower_Cons [simp]: "to_lower (c # s) = lower_char c # to_lower s"
  by (simp add: to_lower_def)

lemma list_all_hex_lower [simp]: "list_all is_hex_char (to_lower s) = list_all is_hex_char s"
  by (induction s) (simp_all add: to_lower_def)

section \<open>Positional notation\<close>

definition digit_char :: "nat \<Rightarrow> char" where
  "digit_char n = ''0123456789abcdef'' ! n"

definition digit_val :: "char \<Rightarrow> nat" where
  "digit_val c = (if is_digit c then code c - 48
     else if 97 \<le> code c then code c - 87 else code c - 55)"

text \<open>\<open>value.toString(b)\<close> for a nonnegative value and a radix between 2 and 16.\<close>

function radix_string :: "nat \<Rightarrow> nat \<Rightarrow> string" where
  "radix_string b n =
     (if b < 2 \<or> n < b then [digit_char (n mod 16)]
      else radix_string b (n div b) @ [digit_char (n mod b)])"
  by pat_completeness auto
termination
  by (relation "measure snd") auto

declare radix_string.simps [simp del]

definition radix_val :: "nat \<Rightarrow> string \<Rightarrow> nat" where
  "radix_val b s = foldl (\<lambda>acc c. acc * b + digit_val c) 0 s"

definition dec_string :: "int \<Rightarrow> string" where
  "dec_string i = (if i < 0 then ''-'' @ radix_string 10 (nat (- i)) else radix_string 10 (nat i))"

definition hex_string :: "int \<Rightarrow> string" where
  "hex_string i = (if i < 0 then ''-'' @ radix_string 16 (nat (- i)) else radix_string 16 (nat i))"

definition pad_start :: "nat \<Rightarrow> char \<Rightarrow> string \<Rightarrow> string" where
  "pad_start n c s = replicate (n - length s) c @ s"

lemmas [js_defs] = digit_char_def digit_val_def radix_val_def dec_string_def hex_string_def
  pad_start_def

lemma nat_less_16_cases:
  "(d::nat) < 16 \<Longrightarrow> d = 0 \<or> d = 1 \<or> d = 2 \<or> d = 3 \<or> d = 4 \<or> d = 5 \<or> d = 6 \<or> d = 7 \<or>
     d = 8 \<or> d = 9 \<or> d = 10 \<or> d = 11 \<or> d = 12 \<or> d = 13 \<or> d = 14 \<or> d = 15"
  by presburger

lemma digit_val_char [simp]: "d < 16 \<Longrightarrow> digit_val (digit_char d) = d"
  by (drule nat_less_16_cases) (auto simp: digit_char_def digit_val_def is_digit_def code_def)

lemma is_hex_digit_char [simp]: "d < 16 \<Longrightarrow> is_hex_char (digit_char d)"
  by (drule nat_less_16_cases)
    (auto simp: digit_char_def is_hex_char_def is_digit_def code_def)

lemma is_digit_digit_char [simp]: "d < 10 \<Longrightarrow> is_digit (digit_char d)"
  using nat_less_16_cases [of d] by (auto simp: digit_char_def is_digit_def code_def)

lemma lower_digit_char [simp]: "d < 16 \<Longrightarrow> lower_char (digit_char d) = digit_char d"
  by (drule nat_less_16_cases) (auto simp: digit_char_def lower_char_def is_upper_def code_def)

lemma radix_val_snoc [simp]: "radix_val b (s @ [c]) = radix_val b s * b + digit_val c"
  by (simp add: radix_val_def)

lemma radix_val_Nil [simp]: "radix_val b [] = 0"
  by (simp add: radix_val_def)

lemma radix_val_radix_string [simp]:
  assumes "2 \<le> b" "b \<le> 16"
  shows "radix_val b (radix_string b n) = n"
proof (induction n rule: less_induct)
  case (less n)
  show ?case
  proof (cases "n < b")
    case True
    with assms show ?thesis
      by (subst radix_string.simps) (simp add: radix_val_def)
  next
    case False
    with assms have "n div b < n" by (simp add: div_less_dividend)
    with False assms less show ?thesis
      by (subst radix_string.simps) (simp add: less_le_trans [OF mod_less_divisor])
  qed
qed

lemma radix_string_nonempty [simp]: "radix_string b n \<noteq> []" "[] \<noteq> radix_string b n"
  by (subst radix_string.simps, simp)+

lemma radix_string_all:
  assumes "2 \<le> b" "b \<le> 16" "\<And>d. d < b \<Longrightarrow> P (digit_char d)"
  shows "list_all P (radix_string b n)"
proof (induction n rule: less_induct)
  case (less n)
  show ?case
  proof (cases "n < b")
    case True
    with assms show ?thesis by (subst radix_string.simps) auto
  next
    case False
    with assms have "n div b < n" by (simp add: div_less_dividend)
    with False assms less show ?thesis
      by (subst radix_string.simps) auto
  qed
qed

lemma radix_string_16_hex [simp]: "list_all is_hex_char (radix_string 16 n)"
  by (rule radix_string_all) auto

lemma radix_string_10_digits [simp]: "list_all is_digit (radix_string 10 n)"
  by (rule radix_string_all) auto

lemma radix_string_lower [simp]:
  assumes "2 \<le> b" "b \<le> 16"
  shows "to_lower (radix_string b n) = radix_string b n"
proof -
  have "list_all (\<lambda>c. lower_char c = c) (radix_string b n)"
    using assms by (intro radix_string_all) auto
  then show ?thesis
    by (simp add: to_lower_def list_all_iff map_idI)
qed

lemma radix_string_length:
  assumes "2 \<le> b" "n < b ^ k" "0 < k"
  shows "length (radix_string b n) \<le> k"
  using assms(2,3)
proof (induction k arbitrary: n)
  case 0
  then show ?case by simp
next
  case (Suc k)
  show ?case
  proof (cases "n < b")
    case True
    then show ?thesis by (subst radix_string.simps) simp
  next
    case False
    have "n div b < b ^ k"
      using Suc.prems assms(1) by (simp add: less_mult_imp_div_less mult.commute)
    moreover have "0 < k"
      using False Suc.prems(1) by (cases k) auto
    ultimately have "length (radix_string b (n div b)) \<le> k"
      by (rule Suc.IH)
    with False assms(1) show ?thesis by (subst radix_string.simps) simp
  qed
qed

lemma radix_val_zeros [simp]: "radix_val b (replicate k (CHR ''0'') @ s) = radix_val b s"
proof -
  have "foldl (\<lambda>acc c. acc * b + digit_val c) 0 (replicate k (CHR ''0'')) = 0"
    by (induction k) (simp_all add: digit_val_def is_digit_def code_def)
  then show ?thesis
    by (simp add: radix_val_def)
qed

lemma radix_val_pad_start [simp]: "radix_val b (pad_start n (CHR ''0'') s) = radix_val b s"
  by (simp add: pad_start_def)

lemma digit_val_lower [simp]: "is_hex_char c \<Longrightarrow> digit_val (lower_char c) = digit_val c"
  unfolding digit_val_def is_digit_def code_lower_char
  by (auto simp: is_upper_def is_hex_char_def is_digit_def)

lemma digit_val_less_16: "is_hex_char c \<Longrightarrow> digit_val c < 16"
  by (auto simp: digit_val_def is_hex_char_def is_digit_def)

lemma radix_val_lower [simp]: "list_all is_hex_char s \<Longrightarrow> radix_val 16 (to_lower s) = radix_val 16 s"
proof (induction s rule: rev_induct)
  case Nil
  then show ?case by simp
next
  case (snoc c s)
  then show ?case by simp
qed

lemma radix_val_bound: "list_all is_hex_char s \<Longrightarrow> radix_val 16 s < 16 ^ length s"
proof (induction s rule: rev_induct)
  case Nil
  then show ?case by simp
next
  case (snoc c s)
  then have "digit_val c < 16" "radix_val 16 s < 16 ^ length s"
    using digit_val_less_16 by auto
  then show ?case by simp
qed

section \<open>Parsing numbers\<close>

text \<open>
  \<open>BigInt(string)\<close>: white space is trimmed, the empty string is 0, a decimal literal may carry a
  sign, a literal with the prefix 0x, 0o or 0b may not; anything else throws (here \<open>None\<close>).
\<close>

definition is_radix_digit :: "nat \<Rightarrow> char \<Rightarrow> bool" where
  "is_radix_digit b c \<longleftrightarrow> is_hex_char c \<and> digit_val c < b"

definition radix_literal :: "nat \<Rightarrow> string \<Rightarrow> int option" where
  "radix_literal b s =
     (if s \<noteq> [] \<and> list_all (is_radix_digit b) s then Some (int (radix_val b s)) else None)"

definition bigint_literal :: "string \<Rightarrow> int option" where
  "bigint_literal s =
     (if starts_with ''-'' s then map_option uminus (radix_literal 10 (drop 1 s))
      else if starts_with ''+'' s then radix_literal 10 (drop 1 s)
      else if starts_with ''0x'' s \<or> starts_with ''0X'' s then radix_literal 16 (drop 2 s)
      else if starts_with ''0o'' s \<or> starts_with ''0O'' s then radix_literal 8 (drop 2 s)
      else if starts_with ''0b'' s \<or> starts_with ''0B'' s then radix_literal 2 (drop 2 s)
      else radix_literal 10 s)"

definition js_bigint :: "string \<Rightarrow> int option" where
  "js_bigint s = (let t = js_trim s in if t = [] then Some 0 else bigint_literal t)"

text \<open>\<open>Number.parseInt(raw, 10)\<close>: the longest digit prefix after white space and a sign; \<open>None\<close> is NaN.\<close>

definition parse_digits :: "string \<Rightarrow> int option" where
  "parse_digits s =
     (let d = takeWhile is_digit s in if d = [] then None else Some (int (radix_val 10 d)))"

definition parse_signed :: "string \<Rightarrow> int option" where
  "parse_signed s =
     (if starts_with ''-'' s then map_option uminus (parse_digits (drop 1 s))
      else if starts_with ''+'' s then parse_digits (drop 1 s)
      else parse_digits s)"

definition js_parse_int :: "string \<Rightarrow> int option" where
  "js_parse_int s = parse_signed (dropWhile is_space s)"

lemmas [js_defs] = is_radix_digit_def radix_literal_def bigint_literal_def js_bigint_def
  parse_digits_def parse_signed_def
  js_parse_int_def

lemma is_digit_not_space: "is_digit c \<Longrightarrow> \<not> is_space c"
  by (auto simp: is_digit_def is_space_def)

lemma is_hex_char_not_space: "is_hex_char c \<Longrightarrow> \<not> is_space c"
  by (auto simp: is_hex_char_def is_digit_def is_space_def)

lemma parse_signed_digit: "is_digit c \<Longrightarrow> parse_signed (c # s) = parse_digits (c # s)"
  by (auto simp: parse_signed_def starts_with_def is_digit_def code_def)

lemma js_parse_int_dec_string [simp]:
  assumes "0 \<le> i"
  shows "js_parse_int (dec_string i) = Some i"
proof -
  let ?s = "radix_string 10 (nat i)"
  have all: "list_all is_digit ?s" by simp
  obtain c t where ct: "?s = c # t"
    by (cases ?s) simp_all
  with all have c: "is_digit c" by simp
  have "js_parse_int ?s = parse_digits ?s"
    using c ct is_digit_not_space by (simp add: js_parse_int_def parse_signed_digit)
  moreover have "takeWhile is_digit ?s = ?s"
    using all by (simp add: list_all_iff takeWhile_eq_all_conv)
  ultimately show ?thesis
    using assms by (simp add: dec_string_def parse_digits_def)
qed

section \<open>Numbers\<close>

datatype jsnum = NaN | NegInfinity | PosInfinity | Num rat

abbreviation jsint :: "int \<Rightarrow> jsnum" where
  "jsint i \<equiv> Num (of_int i)"

definition MAX_SAFE_INTEGER :: int where
  "MAX_SAFE_INTEGER = 9007199254740991"

fun num_int :: "jsnum \<Rightarrow> int" where
  "num_int (Num r) = \<lfloor>r\<rfloor>"
| "num_int _ = 0"

fun is_integer :: "jsnum \<Rightarrow> bool" where
  "is_integer (Num r) = (of_int \<lfloor>r\<rfloor> = r)"
| "is_integer _ = False"

definition is_safe_integer :: "jsnum \<Rightarrow> bool" where
  "is_safe_integer n \<longleftrightarrow> is_integer n \<and> \<bar>num_int n\<bar> \<le> MAX_SAFE_INTEGER"

fun num_less :: "jsnum \<Rightarrow> jsnum \<Rightarrow> bool" where
  "num_less NaN _ = False"
| "num_less _ NaN = False"
| "num_less (Num a) (Num b) = (a < b)"
| "num_less NegInfinity b = (b \<noteq> NegInfinity)"
| "num_less _ NegInfinity = False"
| "num_less PosInfinity _ = False"
| "num_less (Num _) PosInfinity = True"

definition num_eq :: "jsnum \<Rightarrow> jsnum \<Rightarrow> bool" where
  "num_eq a b \<longleftrightarrow> a \<noteq> NaN \<and> a = b"

definition num_le :: "jsnum \<Rightarrow> jsnum \<Rightarrow> bool" where
  "num_le a b \<longleftrightarrow> num_less a b \<or> num_eq a b"

fun num_add :: "jsnum \<Rightarrow> jsnum \<Rightarrow> jsnum" where
  "num_add (Num a) (Num b) = Num (a + b)"
| "num_add NaN _ = NaN"
| "num_add _ NaN = NaN"
| "num_add PosInfinity NegInfinity = NaN"
| "num_add NegInfinity PosInfinity = NaN"
| "num_add PosInfinity _ = PosInfinity"
| "num_add _ PosInfinity = PosInfinity"
| "num_add NegInfinity _ = NegInfinity"
| "num_add _ NegInfinity = NegInfinity"

lemmas [js_defs] = MAX_SAFE_INTEGER_def is_safe_integer_def num_eq_def num_le_def

lemma num_int_jsint [simp]: "num_int (jsint i) = i"
  by simp

lemma is_integer_iff: "is_integer n \<longleftrightarrow> n = jsint (num_int n)"
  by (cases n) auto

lemma is_safe_integer_jsint [simp]:
  "is_safe_integer (jsint i) \<longleftrightarrow> \<bar>i\<bar> \<le> MAX_SAFE_INTEGER"
  by (simp add: is_safe_integer_def)

lemma is_safe_integerE:
  assumes "is_safe_integer n"
  obtains i where "n = jsint i" "\<bar>i\<bar> \<le> MAX_SAFE_INTEGER" "num_int n = i"
  using assms is_integer_iff unfolding is_safe_integer_def by metis

lemma num_cmp_jsint [simp]:
  "num_less (jsint a) (jsint b) \<longleftrightarrow> a < b"
  "num_le (jsint a) (jsint b) \<longleftrightarrow> a \<le> b"
  "num_eq (jsint a) (jsint b) \<longleftrightarrow> a = b"
  "num_add (jsint a) (jsint b) = jsint (a + b)"
  by (auto simp: num_le_def num_eq_def)

end
