(* ===== verification/Broadcaster.thy ===== *)
theory Broadcaster
  imports Js_Core
begin

text \<open>
  The relay's broadcast policy, \<^verbatim>\<open>services/relay/src/broadcaster.ts\<close>: the checks of a transaction
  against the operator's policy, the extra rules for MegaETH mainnet, and the decision to retry
  after a "nonce too low" answer. Each error message is a constructor; errors are collected in the
  order the code pushes them. An optional flag is an \<open>option\<close> where the code tells \<open>undefined\<close> apart.
\<close>

definition MEGAETH_TESTNET_CHAIN_ID :: int where "MEGAETH_TESTNET_CHAIN_ID = 6343"
definition MEGAETH_MAINNET_CHAIN_ID :: int where "MEGAETH_MAINNET_CHAIN_ID = 4326"
definition WITHDRAW_SELECTOR :: string where "WITHDRAW_SELECTOR = ''0x9b0c797c''"
definition WITHDRAW_BOUNDED_SELECTOR :: string where "WITHDRAW_BOUNDED_SELECTOR = ''0xc7787d0f''"
definition STAGE_C_WITHDRAW_UNBOUNDED_SELECTOR :: string where
  "STAGE_C_WITHDRAW_UNBOUNDED_SELECTOR = ''0x7c61e6b1''"
definition STAGE_C_WITHDRAW_BOUNDED_SELECTOR :: string where
  "STAGE_C_WITHDRAW_BOUNDED_SELECTOR = ''0x678d8506''"
definition MEGAETH_MAINNET_APPROVED_WITHDRAWAL_RELAYER_POOL :: string where
  "MEGAETH_MAINNET_APPROVED_WITHDRAWAL_RELAYER_POOL = ''0x08bA57aA9Bc13Ccaf0dda0Fb7Cd7A2570b0FE4d8''"
definition TESTNET_WITHDRAWAL_RELAYER_SELECTORS :: "string list" where
  "TESTNET_WITHDRAWAL_RELAYER_SELECTORS = [WITHDRAW_BOUNDED_SELECTOR, STAGE_C_WITHDRAW_BOUNDED_SELECTOR]"
definition MAINNET_WITHDRAWAL_RELAYER_SELECTORS :: "string list" where
  "MAINNET_WITHDRAWAL_RELAYER_SELECTORS = [STAGE_C_WITHDRAW_BOUNDED_SELECTOR]"
definition MAINNET_FORBIDDEN_WITHDRAWAL_RELAYER_SELECTORS :: "string list" where
  "MAINNET_FORBIDDEN_WITHDRAWAL_RELAYER_SELECTORS =
     [WITHDRAW_BOUNDED_SELECTOR, STAGE_C_WITHDRAW_UNBOUNDED_SELECTOR]"

datatype broadcast_error =
    DeadlineWindowAboveCap
  | ChainBlocked
  | ValueNegative
  | GasLimitNotPositive
  | DeadlineNotSafeInteger
  | CurrentTimeInvalid
  | ChainNotAllowlisted
  | ContractNotAllowlisted
  | SelectorNotAllowlisted
  | MainnetPolicyContract string
  | MainnetContractNotApproved
  | MainnetPolicySelector string
  | MainnetSelectorNotApproved
  | ValueAboveMaximum
  | GasAboveMaximum
  | DeadlineExpired
  | DeadlineTooFar

record broadcast_request =
  bq_chainId :: jsnum
  bq_to :: string
  bq_data :: string
  bq_valueWei :: int
  bq_gasLimit :: int
  bq_deadlineEpochSeconds :: jsnum

record broadcast_policy =
  bp_allowedChainIds :: "jsnum list"
  bp_blockedChainIds :: "jsnum list"
  bp_allowMegaEthMainnet :: "bool option"
  bp_allowedContracts :: "string list"
  bp_allowedFunctionSelectors :: "string list"
  bp_maxValueWei :: int
  bp_maxGasLimit :: int
  bp_maxDeadlineSecondsFromNow :: jsnum

record relay_policy_decision =
  rp_allowed :: bool
  rp_errors :: "broadcast_error list"

definition FUNCTION_SELECTOR_LENGTH :: nat where "FUNCTION_SELECTOR_LENGTH = 10"
definition MAX_RELAY_DEADLINE_SECONDS_FROM_NOW :: int where "MAX_RELAY_DEADLINE_SECONDS_FROM_NOW = 300"

definition getFunctionSelector :: "string \<Rightarrow> string option" where
  "getFunctionSelector data =
     (if \<not> starts_with ''0x'' data \<or> length data < FUNCTION_SELECTOR_LENGTH then None
      else Some (to_lower (take FUNCTION_SELECTOR_LENGTH data)))"

definition selector_in :: "string option \<Rightarrow> string list \<Rightarrow> bool" where
  "selector_in selector xs = (case selector of None \<Rightarrow> False | Some t \<Rightarrow> t \<in> set (map to_lower xs))"

definition validateMainnetProductionSelectorPolicy ::
  "broadcast_request \<Rightarrow> broadcast_policy \<Rightarrow> string option \<Rightarrow> broadcast_error list" where
  "validateMainnetProductionSelectorPolicy request policy selector =
     (if bq_chainId request \<noteq> jsint MEGAETH_MAINNET_CHAIN_ID \<or> bp_allowMegaEthMainnet policy \<noteq> Some True then []
      else
        let approvedSelectors = map to_lower MAINNET_WITHDRAWAL_RELAYER_SELECTORS;
            configuredSelectors = js_unique (map to_lower (bp_allowedFunctionSelectors policy));
            approvedPool = to_lower MEGAETH_MAINNET_APPROVED_WITHDRAWAL_RELAYER_POOL;
            configuredContracts = js_unique (map to_lower (bp_allowedContracts policy)) in
        map MainnetPolicyContract (filter (\<lambda>c. c \<noteq> approvedPool) configuredContracts) @
        err_if (to_lower (bq_to request) \<noteq> approvedPool) MainnetContractNotApproved @
        map MainnetPolicySelector (filter (\<lambda>c. c \<notin> set approvedSelectors) configuredSelectors) @
        err_if (\<not> selector_in selector MAINNET_WITHDRAWAL_RELAYER_SELECTORS) MainnetSelectorNotApproved)"

definition validateRelayBroadcastRequest ::
  "broadcast_request \<Rightarrow> broadcast_policy \<Rightarrow> jsnum \<Rightarrow> relay_policy_decision" where
  "validateRelayBroadcastRequest request policy nowEpochSeconds =
     (let chain = bq_chainId request;
          deadline = bq_deadlineEpochSeconds request;
          defaultBlockedChainIds =
            (if bp_allowMegaEthMainnet policy = Some True then [] else [jsint MEGAETH_MAINNET_CHAIN_ID]);
          selector = getFunctionSelector (bq_data request);
          errors =
            err_if (num_less (jsint MAX_RELAY_DEADLINE_SECONDS_FROM_NOW) (bp_maxDeadlineSecondsFromNow policy))
              DeadlineWindowAboveCap @
            err_if (chain \<in> set (defaultBlockedChainIds @ bp_blockedChainIds policy)) ChainBlocked @
            err_if (bq_valueWei request < 0) ValueNegative @
            err_if (bq_gasLimit request \<le> 0) GasLimitNotPositive @
            err_if (\<not> is_safe_integer deadline) DeadlineNotSafeInteger @
            err_if (\<not> is_safe_integer nowEpochSeconds \<or> num_less nowEpochSeconds (jsint 0)) CurrentTimeInvalid @
            err_if (chain \<notin> set (bp_allowedChainIds policy)) ChainNotAllowlisted @
            err_if (to_lower (bq_to request) \<notin> set (map to_lower (bp_allowedContracts policy)))
              ContractNotAllowlisted @
            err_if (\<not> selector_in selector (bp_allowedFunctionSelectors policy)) SelectorNotAllowlisted @
            validateMainnetProductionSelectorPolicy request policy selector @
            err_if (bq_valueWei request > bp_maxValueWei policy) ValueAboveMaximum @
            err_if (bq_gasLimit request > bp_maxGasLimit policy) GasAboveMaximum @
            err_if (is_safe_integer deadline \<and> num_le deadline nowEpochSeconds) DeadlineExpired @
            err_if (is_safe_integer deadline \<and> is_safe_integer nowEpochSeconds \<and>
                num_less (num_add nowEpochSeconds (bp_maxDeadlineSecondsFromNow policy)) deadline)
              DeadlineTooFar
      in \<lparr>rp_allowed = (errors = []), rp_errors = errors\<rparr>)"

datatype retry_reason = ExecutionNotChecked | MayHaveExecuted | DidNotExecute

definition decideNonceTooLowRetry :: "bool \<Rightarrow> bool option \<Rightarrow> bool \<times> retry_reason" where
  "decideNonceTooLowRetry originalExecutionChecked originalTransactionExecuted =
     (if \<not> originalExecutionChecked then (False, ExecutionNotChecked)
      else if originalTransactionExecuted \<noteq> Some False then (False, MayHaveExecuted)
      else (True, DidNotExecute))"

section \<open>Properties\<close>

lemma allowed_iff: "rp_allowed (validateRelayBroadcastRequest request policy now) \<longleftrightarrow>
    rp_errors (validateRelayBroadcastRequest request policy now) = []"
  by (simp add: validateRelayBroadcastRequest_def Let_def)

lemma selector_in_iff: "selector_in (getFunctionSelector data) xs \<longleftrightarrow>
    starts_with ''0x'' data \<and> 10 \<le> length data \<and> (\<exists>x \<in> set xs. to_lower (take 10 data) = to_lower x)"
  by (auto simp: selector_in_def getFunctionSelector_def FUNCTION_SELECTOR_LENGTH_def split: option.splits)

lemma mainnet_errors_Nil:
  "validateMainnetProductionSelectorPolicy request policy selector = [] \<longleftrightarrow>
     (bq_chainId request = jsint MEGAETH_MAINNET_CHAIN_ID \<and> bp_allowMegaEthMainnet policy = Some True \<longrightarrow>
        (\<forall>c \<in> set (bp_allowedContracts policy). to_lower c = to_lower MEGAETH_MAINNET_APPROVED_WITHDRAWAL_RELAYER_POOL) \<and>
        to_lower (bq_to request) = to_lower MEGAETH_MAINNET_APPROVED_WITHDRAWAL_RELAYER_POOL \<and>
        (\<forall>c \<in> set (bp_allowedFunctionSelectors policy). to_lower c = to_lower STAGE_C_WITHDRAW_BOUNDED_SELECTOR) \<and>
        selector_in selector MAINNET_WITHDRAWAL_RELAYER_SELECTORS)"
  by (auto simp: validateMainnetProductionSelectorPolicy_def Let_def filter_empty_conv MAINNET_WITHDRAWAL_RELAYER_SELECTORS_def)

text \<open>
  A broadcast is allowed exactly when every rule of the policy holds: the chain is
  allowlisted and not blocked, target contract and function selector are allowlisted (in any case
  of the digits), value and gas are within their bounds, the policy's window is at most 300
  seconds and the deadline, a safe integer, lies after the current time and within the window.
\<close>

theorem broadcast_allowed_iff:
  assumes "is_safe_integer (bp_maxDeadlineSecondsFromNow policy)"
  shows "rp_allowed (validateRelayBroadcastRequest request policy now) \<longleftrightarrow>
    (\<exists>t d w. now = jsint t \<and> bq_deadlineEpochSeconds request = jsint d \<and> bp_maxDeadlineSecondsFromNow policy = jsint w \<and>
       0 \<le> t \<and> t \<le> MAX_SAFE_INTEGER \<and> \<bar>d\<bar> \<le> MAX_SAFE_INTEGER \<and> w \<le> 300 \<and> t < d \<and> d \<le> t + w) \<and>
    bq_chainId request \<in> set (bp_allowedChainIds policy) \<and> bq_chainId request \<notin> set (bp_blockedChainIds policy) \<and>
    (bq_chainId request = jsint MEGAETH_MAINNET_CHAIN_ID \<longrightarrow> bp_allowMegaEthMainnet policy = Some True) \<and>
    0 \<le> bq_valueWei request \<and> bq_valueWei request \<le> bp_maxValueWei policy \<and>
    0 < bq_gasLimit request \<and> bq_gasLimit request \<le> bp_maxGasLimit policy \<and>
    to_lower (bq_to request) \<in> to_lower ` set (bp_allowedContracts policy) \<and>
    selector_in (getFunctionSelector (bq_data request)) (bp_allowedFunctionSelectors policy) \<and>
    validateMainnetProductionSelectorPolicy request policy (getFunctionSelector (bq_data request)) = []"
proof -
  obtain w where w: "bp_maxDeadlineSecondsFromNow policy = jsint w"
    using assms by (rule is_safe_integerE)
  let ?d = "bq_deadlineEpochSeconds request"
  have times: "\<not> num_less (jsint 300) (jsint w) \<and> is_safe_integer ?d \<and> is_safe_integer now \<and>
      \<not> num_less now (jsint 0) \<and> \<not> num_le ?d now \<and> \<not> num_less (num_add now (jsint w)) ?d \<longleftrightarrow>
    (\<exists>t d. now = jsint t \<and> ?d = jsint d \<and> 0 \<le> t \<and> t \<le> MAX_SAFE_INTEGER \<and> \<bar>d\<bar> \<le> MAX_SAFE_INTEGER \<and>
       w \<le> 300 \<and> t < d \<and> d \<le> t + w)" (is "?L \<longleftrightarrow> ?R")
  proof
    assume L: ?L
    then obtain t d where td: "now = jsint t" "\<bar>t\<bar> \<le> MAX_SAFE_INTEGER" "?d = jsint d" "\<bar>d\<bar> \<le> MAX_SAFE_INTEGER"
      by (metis is_safe_integerE)
    have "\<not> 300 < w" "\<not> t < 0" "\<not> d \<le> t" "\<not> t + w < d"
      using L unfolding td(1,3) num_cmp_jsint by blast+
    with td have "now = jsint t \<and> ?d = jsint d \<and> 0 \<le> t \<and> t \<le> MAX_SAFE_INTEGER \<and>
        \<bar>d\<bar> \<le> MAX_SAFE_INTEGER \<and> w \<le> 300 \<and> t < d \<and> d \<le> t + w"
      by auto
    then show ?R by blast
  next
    assume ?R
    then obtain t d where td: "now = jsint t" "?d = jsint d" "0 \<le> t" "t \<le> MAX_SAFE_INTEGER"
      "\<bar>d\<bar> \<le> MAX_SAFE_INTEGER" "w \<le> 300" "t < d" "d \<le> t + w"
      by blast
    then show ?L
      unfolding td(1,2) num_cmp_jsint is_safe_integer_jsint by linarith
  qed
  have ex: "(\<exists>t d v. now = jsint t \<and> ?d = jsint d \<and> jsint w = jsint v \<and> 0 \<le> t \<and> t \<le> MAX_SAFE_INTEGER \<and>
      \<bar>d\<bar> \<le> MAX_SAFE_INTEGER \<and> v \<le> 300 \<and> t < d \<and> d \<le> t + v) \<longleftrightarrow>
    (\<exists>t d. now = jsint t \<and> ?d = jsint d \<and> 0 \<le> t \<and> t \<le> MAX_SAFE_INTEGER \<and> \<bar>d\<bar> \<le> MAX_SAFE_INTEGER \<and>
       w \<le> 300 \<and> t < d \<and> d \<le> t + w)"
    by simp
  show ?thesis
    unfolding allowed_iff w ex times [symmetric]
    unfolding validateRelayBroadcastRequest_def Let_def MAX_RELAY_DEADLINE_SECONDS_FROM_NOW_def w
    by (auto simp del: num_cmp_jsint simp: image_iff split: if_splits)
qed

definition sample_policy :: "int \<Rightarrow> broadcast_policy" where
  "sample_policy chain = \<lparr>bp_allowedChainIds = [jsint chain], bp_blockedChainIds = [],
     bp_allowMegaEthMainnet = Some True, bp_allowedContracts = [MEGAETH_MAINNET_APPROVED_WITHDRAWAL_RELAYER_POOL],
     bp_allowedFunctionSelectors = MAINNET_WITHDRAWAL_RELAYER_SELECTORS, bp_maxValueWei = 0,
     bp_maxGasLimit = 20000000, bp_maxDeadlineSecondsFromNow = jsint 300\<rparr>"

definition sample_broadcast :: "int \<Rightarrow> broadcast_request" where
  "sample_broadcast chain = \<lparr>bq_chainId = jsint chain, bq_to = MEGAETH_MAINNET_APPROVED_WITHDRAWAL_RELAYER_POOL,
     bq_data = ''0x678d850600'', bq_valueWei = 0, bq_gasLimit = 100000, bq_deadlineEpochSeconds = jsint 1100\<rparr>"

lemma sample_broadcast_allowed:
  "rp_allowed (validateRelayBroadcastRequest (sample_broadcast 4326) (sample_policy 4326) (jsint 1000))"
  by code_simp

lemma broadcast_allowed_iff_witness:
  "bq_gasLimit (sample_broadcast 4326) \<le> bp_maxGasLimit (sample_policy 4326)"
proof -
  have "is_safe_integer (bp_maxDeadlineSecondsFromNow (sample_policy 4326))"
    by code_simp
  from broadcast_allowed_iff [OF this, of "sample_broadcast 4326" "jsint 1000"] sample_broadcast_allowed
  show ?thesis by blast
qed

text \<open>
  On MegaETH mainnet only the production path can be broadcast: an allowed mainnet request
  goes to the approved pool with the Stage C bounded withdrawal selector, under a policy that
  names no other contract and no other selector; the forbidden selectors are never allowed.
\<close>

theorem mainnet_broadcast_is_production:
  assumes "rp_allowed (validateRelayBroadcastRequest request policy now)"
    "bq_chainId request = jsint MEGAETH_MAINNET_CHAIN_ID"
  shows "to_lower (bq_to request) = to_lower MEGAETH_MAINNET_APPROVED_WITHDRAWAL_RELAYER_POOL \<and>
    getFunctionSelector (bq_data request) = Some STAGE_C_WITHDRAW_BOUNDED_SELECTOR \<and>
    (\<forall>sel \<in> set MAINNET_FORBIDDEN_WITHDRAWAL_RELAYER_SELECTORS. getFunctionSelector (bq_data request) \<noteq> Some sel) \<and>
    (\<forall>c \<in> set (bp_allowedContracts policy). to_lower c = to_lower MEGAETH_MAINNET_APPROVED_WITHDRAWAL_RELAYER_POOL) \<and>
    (\<forall>c \<in> set (bp_allowedFunctionSelectors policy). to_lower c = STAGE_C_WITHDRAW_BOUNDED_SELECTOR)"
proof -
  have sel: "to_lower STAGE_C_WITHDRAW_BOUNDED_SELECTOR = STAGE_C_WITHDRAW_BOUNDED_SELECTOR"
    by code_simp
  have "validateMainnetProductionSelectorPolicy request policy (getFunctionSelector (bq_data request)) = []"
    "jsint MEGAETH_MAINNET_CHAIN_ID \<noteq> bq_chainId request \<or> bp_allowMegaEthMainnet policy = Some True"
    using assms(1) unfolding allowed_iff validateRelayBroadcastRequest_def Let_def by (auto split: if_splits)
  with assms(2) have m: "to_lower (bq_to request) = to_lower MEGAETH_MAINNET_APPROVED_WITHDRAWAL_RELAYER_POOL"
    "\<forall>c \<in> set (bp_allowedContracts policy). to_lower c = to_lower MEGAETH_MAINNET_APPROVED_WITHDRAWAL_RELAYER_POOL"
    "\<forall>c \<in> set (bp_allowedFunctionSelectors policy). to_lower c = STAGE_C_WITHDRAW_BOUNDED_SELECTOR"
    "selector_in (getFunctionSelector (bq_data request)) MAINNET_WITHDRAWAL_RELAYER_SELECTORS"
    unfolding mainnet_errors_Nil sel by auto
  from m(4) have "getFunctionSelector (bq_data request) = Some STAGE_C_WITHDRAW_BOUNDED_SELECTOR"
    by (auto simp: selector_in_def MAINNET_WITHDRAWAL_RELAYER_SELECTORS_def sel split: option.splits)
  with m show ?thesis
    by (simp add: MAINNET_FORBIDDEN_WITHDRAWAL_RELAYER_SELECTORS_def STAGE_C_WITHDRAW_BOUNDED_SELECTOR_def
        WITHDRAW_BOUNDED_SELECTOR_def STAGE_C_WITHDRAW_UNBOUNDED_SELECTOR_def)
qed

lemma mainnet_broadcast_is_production_witness:
  "getFunctionSelector (bq_data (sample_broadcast 4326)) = Some STAGE_C_WITHDRAW_BOUNDED_SELECTOR"
  using mainnet_broadcast_is_production [OF sample_broadcast_allowed]
  by (simp add: sample_broadcast_def MEGAETH_MAINNET_CHAIN_ID_def)

end
