(* ===== verification/Denominations.thy ===== *)
theory Denominations
  imports Js_Core "HOL-Library.Multiset"
begin

text \<open>
  The fixed denominations of the pool, \<^verbatim>\<open>packages/core/src/denominations.ts\<close>: normalisation of a
  policy, the greedy split of a deposit into notes, the menu of public exits of a note and the
  check of one exit. A thrown error is a \<open>denom_error\<close>.
\<close>

datatype denom_error =
    PolicyNeedsDenomination
  | DenominationMustBePositive
  | AmountMustBePositive
  | ExceedsMaxNoteCount jsnum
  | UnsupportedDust int
  | ExitNoteUnsupported
  | ExitAmountUnsupported
  | ExitExceedsNote
  | ExitChangeUnsupported

record split_policy =
  denominationsWei :: "int list"
  maxNoteCount :: "jsnum option"
  allowFullExit :: "bool option"

record fixed_split =
  requestedAmountWei :: int
  notesWei :: "int list"
  noteCount :: nat
  uniqueDenominationsWei :: "int list"

record public_exit =
  noteAmountWei :: int
  grossAmountWei :: int

definition MAINNET_CANDIDATE_FIXED_DENOMINATIONS_WEI :: "int list" where
  "MAINNET_CANDIDATE_FIXED_DENOMINATIONS_WEI =
    [5000000000000000, 10000000000000000, 20000000000000000, 30000000000000000,
     50000000000000000, 100000000000000000, 200000000000000000, 300000000000000000,
     500000000000000000, 1000000000000000000]"

definition MAINNET_CANDIDATE_FIXED_DENOMINATION_POLICY :: split_policy where
  "MAINNET_CANDIDATE_FIXED_DENOMINATION_POLICY =
    \<lparr>denominationsWei = MAINNET_CANDIDATE_FIXED_DENOMINATIONS_WEI,
     maxNoteCount = Some (jsint 32), allowFullExit = None\<rparr>"

text \<open>The loop of \<open>normalizeDenominations\<close>; the set \<open>seen\<close> holds the elements of \<open>normalized\<close>.\<close>

fun normalize_loop :: "int list \<Rightarrow> int list \<Rightarrow> denom_error + int list" where
  "normalize_loop normalized [] = Inr normalized"
| "normalize_loop normalized (d # ds) =
     (if d \<le> 0 then Inl DenominationMustBePositive
      else if d \<notin> set normalized then normalize_loop (normalized @ [d]) ds
      else normalize_loop normalized ds)"

text \<open>\<open>sort\<close> with the descending comparator; the elements are distinct, so stability does not matter.\<close>

definition sort_desc :: "int list \<Rightarrow> int list" where
  "sort_desc xs = rev (sort xs)"

definition normalizeDenominations :: "int list \<Rightarrow> denom_error + int list" where
  "normalizeDenominations ds =
     (if ds = [] then Inl PolicyNeedsDenomination
      else bind_res (normalize_loop [] ds) (\<lambda>n. Inr (sort_desc n)))"

definition exceeds_max :: "split_policy \<Rightarrow> nat \<Rightarrow> bool" where
  "exceeds_max policy n =
     (case maxNoteCount policy of None \<Rightarrow> False | Some m \<Rightarrow> num_less m (jsint (int n)))"

text \<open>
  The inner \<open>while\<close> loop: one denomination, taken as often as it fits. The guard \<open>0 < d\<close> holds
  for every normalised denomination; it is what makes the loop end.
\<close>

function take_denomination ::
  "split_policy \<Rightarrow> int \<Rightarrow> int list \<Rightarrow> int \<Rightarrow> denom_error + int list \<times> int" where
  "take_denomination policy d acc remaining =
     (if 0 < d \<and> d \<le> remaining
      then (if exceeds_max policy (Suc (length acc))
            then Inl (ExceedsMaxNoteCount (the (maxNoteCount policy)))
            else take_denomination policy d (acc @ [d]) (remaining - d))
      else Inr (acc, remaining))"
  by pat_completeness auto
termination
  by (relation "measure (\<lambda>(policy, d, acc, remaining). nat remaining)") auto

declare take_denomination.simps [simp del]

fun split_loop ::
  "split_policy \<Rightarrow> int list \<Rightarrow> int list \<Rightarrow> int \<Rightarrow> denom_error + int list \<times> int" where
  "split_loop policy [] acc remaining = Inr (acc, remaining)"
| "split_loop policy (d # ds) acc remaining =
     bind_res (take_denomination policy d acc remaining)
       (\<lambda>(acc', remaining'). split_loop policy ds acc' remaining')"

definition splitIntoFixedDenominations :: "int \<Rightarrow> split_policy \<Rightarrow> denom_error + fixed_split" where
  "splitIntoFixedDenominations amountWei policy =
     (if amountWei \<le> 0 then Inl AmountMustBePositive
      else bind_res (normalizeDenominations (denominationsWei policy)) (\<lambda>denominations.
        bind_res (split_loop policy denominations [] amountWei) (\<lambda>(acc, remaining).
          if remaining \<noteq> 0 then Inl (UnsupportedDust remaining)
          else Inr \<lparr>requestedAmountWei = amountWei, notesWei = acc, noteCount = length acc,
                    uniqueDenominationsWei = js_unique acc\<rparr>)))"

definition isSupportedFixedDenomination :: "int \<Rightarrow> split_policy \<Rightarrow> denom_error + bool" where
  "isSupportedFixedDenomination amountWei policy =
     bind_res (normalizeDenominations (denominationsWei policy)) (\<lambda>ds. Inr (amountWei \<in> set ds))"

text \<open>The loop that adds the exits with private change to the set \<open>exits\<close>.\<close>

fun exit_loop :: "split_policy \<Rightarrow> int \<Rightarrow> int list \<Rightarrow> int list \<Rightarrow> denom_error + int list" where
  "exit_loop policy note exits [] = Inr exits"
| "exit_loop policy note exits (changeAmount # rest) =
     (let exitAmount = note - changeAmount in
      if changeAmount < note
      then bind_res (isSupportedFixedDenomination exitAmount policy) (\<lambda>ok.
             exit_loop policy note (if ok then List.insert exitAmount exits else exits) rest)
      else exit_loop policy note exits rest)"

definition spendablePublicExitAmountsForNote :: "int \<Rightarrow> split_policy \<Rightarrow> denom_error + int list" where
  "spendablePublicExitAmountsForNote note policy =
     bind_res (isSupportedFixedDenomination note policy) (\<lambda>ok.
       if \<not> ok then Inr []
       else bind_res (normalizeDenominations (denominationsWei policy)) (\<lambda>ds.
              bind_res (exit_loop policy note
                          (if allowFullExit policy \<noteq> Some False then [note] else []) ds)
                (\<lambda>exits. Inr (sort_desc exits))))"

definition assertFixedDenominationPublicExit :: "public_exit \<Rightarrow> split_policy \<Rightarrow> denom_error + public_exit" where
  "assertFixedDenominationPublicExit ex policy =
     bind_res (isSupportedFixedDenomination (noteAmountWei ex) policy) (\<lambda>noteOk.
     if \<not> noteOk then Inl ExitNoteUnsupported else
     bind_res (isSupportedFixedDenomination (grossAmountWei ex) policy) (\<lambda>grossOk.
     if \<not> grossOk then Inl ExitAmountUnsupported else
     if grossAmountWei ex > noteAmountWei ex then Inl ExitExceedsNote else
     let changeAmountWei = noteAmountWei ex - grossAmountWei ex in
     if changeAmountWei \<noteq> 0
     then bind_res (isSupportedFixedDenomination changeAmountWei policy) (\<lambda>changeOk.
            if \<not> changeOk then Inl ExitChangeUnsupported else Inr ex)
     else Inr ex))"

section \<open>Normalisation\<close>

lemma set_sort_desc [simp]: "set (sort_desc xs) = set xs"
  by (simp add: sort_desc_def)

lemma distinct_sort_desc [simp]: "distinct (sort_desc xs) = distinct xs"
  by (simp add: sort_desc_def)

lemma sorted_sort_desc [simp]: "sorted_wrt (\<ge>) (sort_desc xs)"
  by (simp add: sort_desc_def sorted_wrt_rev)

lemma normalize_loop_Inr:
  "normalize_loop acc ds = Inr n \<Longrightarrow> distinct acc \<Longrightarrow>
     distinct n \<and> set n = set acc \<union> set ds \<and> (\<forall>d \<in> set ds. 0 < d)"
proof (induction ds arbitrary: acc)
  case Nil
  then show ?case by simp
next
  case (Cons d ds)
  then have d: "0 < d"
    by (simp split: if_splits)
  show ?case
  proof (cases "d \<in> set acc")
    case True
    with Cons.prems d have "normalize_loop acc ds = Inr n" by simp
    with Cons True d show ?thesis by auto
  next
    case False
    with Cons.prems d have "normalize_loop (acc @ [d]) ds = Inr n" by simp
    from Cons.IH [OF this] Cons.prems(2) False d show ?thesis by auto
  qed
qed

lemma normalize_loop_total: "\<forall>d \<in> set ds. 0 < d \<Longrightarrow> \<exists>n. normalize_loop acc ds = Inr n"
  by (induction acc ds rule: normalize_loop.induct) (auto simp: not_le)

lemma normalizeDenominations_Inr:
  assumes "normalizeDenominations ds = Inr n"
  shows "ds \<noteq> []" "distinct n" "set n = set ds" "\<forall>d \<in> set n. 0 < d" "sorted_wrt (\<ge>) n"
  using assms normalize_loop_Inr [of "[]" ds]
  by (auto simp: normalizeDenominations_def res_simps)

lemma normalizeDenominations_total:
  "ds \<noteq> [] \<Longrightarrow> \<forall>d \<in> set ds. 0 < d \<Longrightarrow> \<exists>n. normalizeDenominations ds = Inr n"
  using normalize_loop_total [of ds "[]"] by (auto simp: normalizeDenominations_def)

lemma isSupported_Inr:
  "isSupportedFixedDenomination a policy = Inr b \<longleftrightarrow>
     (\<exists>ds. normalizeDenominations (denominationsWei policy) = Inr ds \<and>
        b = (a \<in> set (denominationsWei policy)))"
  using normalizeDenominations_Inr(3)
  by (auto simp: isSupportedFixedDenomination_def res_simps)

lemma mainnet_normalized:
  "normalizeDenominations MAINNET_CANDIDATE_FIXED_DENOMINATIONS_WEI =
     Inr (rev MAINNET_CANDIDATE_FIXED_DENOMINATIONS_WEI)"
  by code_simp

section \<open>The greedy split\<close>

text \<open>Taking one denomination is division with remainder, with the bound on the number of notes.\<close>

lemma num_less_jsint_mono: "num_less m (jsint (int a)) \<Longrightarrow> a \<le> b \<Longrightarrow> num_less m (jsint (int b))"
  by (cases m) auto

lemma exceeds_max_mono: "exceeds_max policy a \<Longrightarrow> a \<le> b \<Longrightarrow> exceeds_max policy b"
  using num_less_jsint_mono by (auto simp: exceeds_max_def split: option.splits)

lemma take_denomination_steps:
  assumes "0 \<le> r" "r < d"
  shows "take_denomination policy d acc (int k * d + r) =
    (if 0 < k \<and> exceeds_max policy (length acc + k)
     then Inl (ExceedsMaxNoteCount (the (maxNoteCount policy)))
     else Inr (acc @ replicate k d, r))"
proof (induction k arbitrary: acc)
  case 0
  with assms show ?case
    by (simp add: take_denomination.simps [of policy d acc r])
next
  case (Suc k)
  let ?rem = "int (Suc k) * d + r"
  have eq: "?rem - d = int k * d + r"
    by (simp add: algebra_simps)
  have pos: "0 < d"
    using assms by simp
  then have ge: "d \<le> ?rem"
    using eq assms by (smt (verit) mult_nonneg_nonneg of_nat_0_le_iff)
  have unfold: "take_denomination policy d acc ?rem =
      (if exceeds_max policy (Suc (length acc))
       then Inl (ExceedsMaxNoteCount (the (maxNoteCount policy)))
       else take_denomination policy d (acc @ [d]) (int k * d + r))"
    using take_denomination.simps [of policy d acc ?rem] unfolding eq by (simp only: pos ge if_True simp_thms)
  show ?case
  proof (cases "exceeds_max policy (Suc (length acc))")
    case True
    moreover from True have "exceeds_max policy (length acc + Suc k)"
      by (rule exceeds_max_mono) simp
    ultimately show ?thesis
      by (simp only: unfold) simp
  next
    case False
    then show ?thesis
      by (simp only: unfold Suc.IH) (cases k, simp_all)
  qed
qed

lemma take_denomination_cases:
  assumes "0 < d" "0 \<le> remaining"
  shows "take_denomination policy d acc remaining =
    (if 0 < nat (remaining div d) \<and> exceeds_max policy (length acc + nat (remaining div d))
     then Inl (ExceedsMaxNoteCount (the (maxNoteCount policy)))
     else Inr (acc @ replicate (nat (remaining div d)) d, remaining mod d))"
proof -
  have "remaining = int (nat (remaining div d)) * d + remaining mod d"
    using assms by (simp add: pos_imp_zdiv_nonneg_iff)
  then show ?thesis
    using take_denomination_steps [of "remaining mod d" d policy acc "nat (remaining div d)"] assms
    by simp
qed

lemma take_denomination_Inr:
  assumes "take_denomination policy d acc remaining = Inr (acc', r)" "0 < d" "0 \<le> remaining"
  shows "acc' = acc @ replicate (nat (remaining div d)) d" "r = remaining mod d"
    "acc' \<noteq> acc \<longrightarrow> \<not> exceeds_max policy (length acc')"
  using assms by (auto simp: take_denomination_cases split: if_splits)

text \<open>What the greedy loop has done when it ends without an error.\<close>

lemma split_loop_Inr:
  assumes "split_loop policy ds acc remaining = Inr (acc', r)" "\<forall>d \<in> set ds. 0 < d"
    "0 \<le> remaining" "sorted_wrt (\<ge>) ds"
  shows "\<exists>ns. acc' = acc @ ns \<and> sum_list ns + r = remaining \<and> set ns \<subseteq> set ds \<and> 0 \<le> r \<and>
    (\<forall>d \<in> set ds. r < d) \<and> sorted_wrt (\<ge>) ns \<and>
    (ns \<noteq> [] \<longrightarrow> \<not> exceeds_max policy (length acc'))"
  using assms
proof (induction ds arbitrary: acc remaining)
  case Nil
  then show ?case by simp
next
  case (Cons d ds)
  define k where "k = nat (remaining div d)"
  have d: "0 < d" "0 \<le> remaining mod d" "remaining mod d < d"
    using Cons.prems by simp_all
  obtain acc1 r1 where take: "take_denomination policy d acc remaining = Inr (acc1, r1)"
    and loop: "split_loop policy ds acc1 r1 = Inr (acc', r)"
    using Cons.prems(1) by (auto simp: res_simps)
  note t = take_denomination_Inr [OF take d(1) Cons.prems(3), folded k_def]
  obtain ns where ns: "acc' = acc1 @ ns" "sum_list ns + r = r1" "set ns \<subseteq> set ds" "0 \<le> r"
      "\<forall>d \<in> set ds. r < d" "sorted_wrt (\<ge>) ns"
      "ns \<noteq> [] \<longrightarrow> \<not> exceeds_max policy (length acc')"
    using Cons.IH [OF loop] Cons.prems t(2) d by auto
  have "int k * d + remaining mod d = remaining"
    using Cons.prems(3) d by (simp add: k_def pos_imp_zdiv_nonneg_iff)
  then have sum: "sum_list (replicate k d @ ns) + r = remaining"
    using ns(2) t(2) by (simp add: sum_list_replicate)
  have "0 \<le> sum_list ns"
    using ns(3) Cons.prems(2) by (intro sum_list_nonneg) (auto simp: less_imp_le subset_iff)
  then have below: "r < d"
    using ns(2) t(2) d by simp
  have "sorted_wrt (\<ge>) (replicate k d)"
    by (simp add: sorted_wrt_iff_nth_less)
  then have sorted: "sorted_wrt (\<ge>) (replicate k d @ ns)"
    using ns(3,6) Cons.prems(4) by (auto simp: sorted_wrt_append)
  have "replicate k d @ ns \<noteq> [] \<longrightarrow> \<not> exceeds_max policy (length acc')"
    using ns(1,7) t(1,3) by (cases "ns = []") auto
  with ns sum below sorted t(1) show ?case
    by (intro exI [of _ "replicate k d @ ns"]) auto
qed

lemma int_div_less: "0 < d \<Longrightarrow> r < n * d \<Longrightarrow> r div d < (n::int)"
proof -
  assume d: "0 < d" "r < n * d"
  then have "r div d * d \<le> r"
    by (simp add: minus_mod_eq_div_mult [symmetric])
  then have "r div d * d < n * d"
    using d(2) by (rule le_less_trans)
  then show "r div d < n"
    using d(1) by simp
qed

text \<open>
  No run can fail on the bound when each denomination is at most twice the next one: then every
  denomination after the first is taken at most once.
\<close>

lemma take_at_most_once:
  assumes "0 < d" "0 \<le> r" "r < 2 * d" "\<not> exceeds_max policy (Suc (length acc))"
  shows "\<exists>acc' r'. take_denomination policy d acc r = Inr (acc', r') \<and>
    length acc' \<le> Suc (length acc) \<and> 0 \<le> r' \<and> r' < d"
proof -
  define k where "k = nat (r div d)"
  have "r div d < 2"
    using assms by (simp add: int_div_less)
  then have k: "k \<le> 1"
    by (simp add: k_def)
  have "\<not> (0 < k \<and> exceeds_max policy (length acc + k))"
    using k assms(4) by (cases k) auto
  then show ?thesis
    using assms k by (simp add: take_denomination_cases k_def)
qed

fun halving :: "int list \<Rightarrow> bool" where
  "halving (a # b # xs) = (a \<le> 2 * b \<and> halving (b # xs))"
| "halving _ = True"

lemma split_loop_at_most_once:
  assumes "halving ds" "\<forall>d \<in> set ds. 0 < d" "0 \<le> r" "ds \<noteq> [] \<longrightarrow> r < 2 * hd ds"
    "\<not> exceeds_max policy (length acc + length ds)"
  shows "\<exists>acc' r'. split_loop policy ds acc r = Inr (acc', r')"
  using assms
proof (induction ds arbitrary: acc r)
  case Nil
  then show ?case by simp
next
  case (Cons d ds)
  have "\<not> exceeds_max policy (Suc (length acc))"
    using Cons.prems(5) exceeds_max_mono [of policy "Suc (length acc)" "length acc + length (d # ds)"]
    by auto
  then obtain acc1 r1 where take: "take_denomination policy d acc r = Inr (acc1, r1)"
      "length acc1 \<le> Suc (length acc)" "0 \<le> r1" "r1 < d"
    using take_at_most_once [of d r policy acc] Cons.prems by auto
  have "ds \<noteq> [] \<longrightarrow> d \<le> 2 * hd ds" "halving ds"
    using Cons.prems(1) by (cases ds; simp)+
  moreover have "\<not> exceeds_max policy (length acc1 + length ds)"
    using Cons.prems(5) take(2)
      exceeds_max_mono [of policy "length acc1 + length ds" "length acc + length (d # ds)"] by auto
  ultimately show ?case
    using Cons.IH [of r1 acc1] Cons.prems(2) take by auto
qed

lemma split_loop_at_most_once_after:
  assumes "halving ds" "\<forall>d \<in> set (d # ds). 0 < d" "0 \<le> r" "ds \<noteq> [] \<longrightarrow> d \<le> 2 * hd ds"
    "\<not> exceeds_max policy (nat (r div d) + length ds)"
  shows "\<exists>acc' r'. split_loop policy (d # ds) [] r = Inr (acc', r')"
proof -
  have "\<not> exceeds_max policy (nat (r div d))"
    using assms(5) exceeds_max_mono by (metis le_add1)
  then have take: "take_denomination policy d [] r = Inr (replicate (nat (r div d)) d, r mod d)"
    using assms by (simp add: take_denomination_cases)
  moreover have "r mod d < d" "0 \<le> r mod d"
    using assms by simp_all
  ultimately show ?thesis
    using assms split_loop_at_most_once [of ds "r mod d" policy "replicate (nat (r div d)) d"]
    by fastforce
qed

section \<open>The split of the mainnet policy\<close>

lemma mainnet_dvd: "\<forall>d \<in> set MAINNET_CANDIDATE_FIXED_DENOMINATIONS_WEI. 5000000000000000 dvd d"
  by (simp add: MAINNET_CANDIDATE_FIXED_DENOMINATIONS_WEI_def)

lemma mainnet_denominations [simp]:
  "denominationsWei MAINNET_CANDIDATE_FIXED_DENOMINATION_POLICY =
     MAINNET_CANDIDATE_FIXED_DENOMINATIONS_WEI"
  by (simp add: MAINNET_CANDIDATE_FIXED_DENOMINATION_POLICY_def)

lemma mainnet_exceeds_max:
  "exceeds_max MAINNET_CANDIDATE_FIXED_DENOMINATION_POLICY n \<longleftrightarrow> 32 < n"
  using num_cmp_jsint(1) [of 32 "int n"]
  by (simp add: exceeds_max_def MAINNET_CANDIDATE_FIXED_DENOMINATION_POLICY_def)

lemma sum_list_dvd: "\<forall>x \<in> set xs. (c::int) dvd x \<Longrightarrow> c dvd sum_list xs"
  by (induction xs) auto

lemma mainnet_loop_total:
  assumes "0 \<le> r" "r < 23000000000000000000"
  shows "\<exists>acc' r'. split_loop MAINNET_CANDIDATE_FIXED_DENOMINATION_POLICY
    (rev MAINNET_CANDIDATE_FIXED_DENOMINATIONS_WEI) [] r = Inr (acc', r')"
proof -
  have "r div 1000000000000000000 < 23"
    using assms by (intro int_div_less) simp_all
  then show ?thesis
    unfolding MAINNET_CANDIDATE_FIXED_DENOMINATIONS_WEI_def rev.simps append.simps
    using assms by (intro split_loop_at_most_once_after) (auto simp: mainnet_exceeds_max)
qed

lemma splitIntoFixed_Inr_iff:
  "splitIntoFixedDenominations a policy = Inr s \<longleftrightarrow> 0 < a \<and>
     (\<exists>ds acc. normalizeDenominations (denominationsWei policy) = Inr ds \<and>
        split_loop policy ds [] a = Inr (acc, 0) \<and>
        s = \<lparr>requestedAmountWei = a, notesWei = acc, noteCount = length acc,
             uniqueDenominationsWei = js_unique acc\<rparr>)"
  by (auto simp: splitIntoFixedDenominations_def res_simps)

lemma exit_loop_Inr:
  "exit_loop policy note exits cs = Inr es \<Longrightarrow>
     set es = set exits \<union> {note - c | c. c \<in> set cs \<and> c < note \<and> note - c \<in> set (denominationsWei policy)}"
proof (induction cs arbitrary: exits)
  case Nil
  then show ?case by simp
next
  case (Cons c cs)
  show ?case
  proof (cases "c < note \<and> note - c \<in> set (denominationsWei policy)")
    case True
    then have "exit_loop policy note (List.insert (note - c) exits) cs = Inr es"
      using Cons.prems by (auto simp: Let_def res_simps isSupported_Inr)
    from Cons.IH [OF this] True show ?thesis by auto
  next
    case False
    then have "exit_loop policy note exits cs = Inr es"
      using Cons.prems by (auto simp: Let_def res_simps isSupported_Inr split: if_splits)
    from Cons.IH [OF this] False show ?thesis by auto
  qed
qed

lemma isSupported_eq:
  "normalizeDenominations (denominationsWei policy) = Inr ds \<Longrightarrow>
     isSupportedFixedDenomination a policy = Inr (a \<in> set (denominationsWei policy))"
  by (simp add: isSupported_Inr)

lemma assert_exit_iff:
  assumes "normalizeDenominations (denominationsWei policy) = Inr ds"
  shows "assertFixedDenominationPublicExit ex policy = Inr ex \<longleftrightarrow>
    noteAmountWei ex \<in> set (denominationsWei policy) \<and> grossAmountWei ex \<in> set (denominationsWei policy) \<and>
    grossAmountWei ex \<le> noteAmountWei ex \<and>
    (noteAmountWei ex - grossAmountWei ex = 0 \<or>
     noteAmountWei ex - grossAmountWei ex \<in> set (denominationsWei policy))"
  unfolding assertFixedDenominationPublicExit_def isSupported_eq [OF assms] bind_res_simps Let_def
  by (simp add: not_le)

section \<open>Properties\<close>

text \<open>
  A split that is returned pays out exactly the requested amount: the notes sum to it, each is
  a denomination of the policy, they are in descending order, their number is reported and stays
  within the policy's bound, and the reported denominations are exactly those used, once each.
\<close>

theorem split_sound:
  assumes "splitIntoFixedDenominations amountWei policy = Inr s"
  shows "sum_list (notesWei s) = amountWei \<and> set (notesWei s) \<subseteq> set (denominationsWei policy) \<and>
    sorted_wrt (\<ge>) (notesWei s) \<and> noteCount s = length (notesWei s) \<and>
    \<not> exceeds_max policy (noteCount s) \<and>
    distinct (uniqueDenominationsWei s) \<and> set (uniqueDenominationsWei s) = set (notesWei s)"
proof -
  obtain ds acc where a: "0 < amountWei"
    and n: "normalizeDenominations (denominationsWei policy) = Inr ds"
    and l: "split_loop policy ds [] amountWei = Inr (acc, 0)"
    and s: "s = \<lparr>requestedAmountWei = amountWei, notesWei = acc, noteCount = length acc,
             uniqueDenominationsWei = js_unique acc\<rparr>"
    using assms by (auto simp: splitIntoFixed_Inr_iff)
  note nd = normalizeDenominations_Inr [OF n]
  from split_loop_Inr [OF l] nd a have "sum_list acc = amountWei" "set acc \<subseteq> set ds"
    "sorted_wrt (\<ge>) acc" "acc \<noteq> [] \<longrightarrow> \<not> exceeds_max policy (length acc)"
    by auto
  with a nd(3) s show ?thesis by (cases acc) auto
qed

lemma split_sound_witness:
  "\<exists>s. splitIntoFixedDenominations 7
       \<lparr>denominationsWei = [1, 5, 1], maxNoteCount = Some (jsint 3), allowFullExit = None\<rparr> = Inr s \<and>
     sum_list (notesWei s) = 7 \<and> noteCount s = 3"
proof -
  let ?s = "\<lparr>requestedAmountWei = 7, notesWei = [5, 1, 1], noteCount = 3, uniqueDenominationsWei = [5, 1]\<rparr>"
  have run: "splitIntoFixedDenominations 7
      \<lparr>denominationsWei = [1, 5, 1], maxNoteCount = Some (jsint 3), allowFullExit = None\<rparr> = Inr ?s"
    by code_simp
  from split_sound [OF run] run show ?thesis by auto
qed

text \<open>
  The mainnet policy splits every amount it can be asked for: below 23 ether a positive
  amount is split without an error exactly when it is a multiple of 0.005 ether, the smallest
  denomination; any other amount is refused, never rounded.
\<close>

theorem mainnet_split_complete:
  assumes "amountWei < 23000000000000000000"
  shows "(\<exists>s. splitIntoFixedDenominations amountWei MAINNET_CANDIDATE_FIXED_DENOMINATION_POLICY = Inr s)
    \<longleftrightarrow> 0 < amountWei \<and> 5000000000000000 dvd amountWei"
    (is "?ok \<longleftrightarrow> ?amount")
proof
  assume ?ok
  then obtain s where run: "splitIntoFixedDenominations amountWei MAINNET_CANDIDATE_FIXED_DENOMINATION_POLICY = Inr s"
    by blast
  then obtain acc where acc: "0 < amountWei" "split_loop MAINNET_CANDIDATE_FIXED_DENOMINATION_POLICY
      (rev MAINNET_CANDIDATE_FIXED_DENOMINATIONS_WEI) [] amountWei = Inr (acc, 0)"
    by (auto simp: splitIntoFixed_Inr_iff mainnet_normalized)
  from split_loop_Inr [OF acc(2)] acc(1) normalizeDenominations_Inr [OF mainnet_normalized]
  have "sum_list acc = amountWei" "set acc \<subseteq> set MAINNET_CANDIDATE_FIXED_DENOMINATIONS_WEI"
    by auto
  with sum_list_dvd [of acc] mainnet_dvd acc(1) show ?amount by blast
next
  assume a: ?amount
  then obtain acc r where l: "split_loop MAINNET_CANDIDATE_FIXED_DENOMINATION_POLICY
      (rev MAINNET_CANDIDATE_FIXED_DENOMINATIONS_WEI) [] amountWei = Inr (acc, r)"
    using mainnet_loop_total assms by fastforce
  have "sum_list acc + r = amountWei" "set acc \<subseteq> set MAINNET_CANDIDATE_FIXED_DENOMINATIONS_WEI"
    "0 \<le> r" "r < 5000000000000000"
    using split_loop_Inr [OF l] a normalizeDenominations_Inr [OF mainnet_normalized]
    by (auto simp: MAINNET_CANDIDATE_FIXED_DENOMINATIONS_WEI_def)
  moreover from this(2) have "5000000000000000 dvd sum_list acc"
    using mainnet_dvd by (intro sum_list_dvd) blast
  ultimately have "r = 0"
    using a by (metis dvd_add_right_iff zdvd_not_zless order_le_less)
  then show ?ok
    using a l by (auto simp: splitIntoFixed_Inr_iff mainnet_normalized)
qed

lemma mainnet_split_complete_witness:
  "\<not> (\<exists>s. splitIntoFixedDenominations 5000000000000001 MAINNET_CANDIDATE_FIXED_DENOMINATION_POLICY = Inr s)"
  by (subst mainnet_split_complete) simp_all

text \<open>
  The menu of public exits offered for a note is exactly what the check accepts: for a policy
  of positive denominations, an amount is in the menu if and only if the check of that exit
  passes, except that a policy with \<open>allowFullExit = false\<close> keeps the full exit off the menu while the
  check still accepts it.
\<close>

theorem exit_menu_exact:
  assumes "spendablePublicExitAmountsForNote note policy = Inr exits"
  shows "gross \<in> set exits \<longleftrightarrow>
    assertFixedDenominationPublicExit \<lparr>noteAmountWei = note, grossAmountWei = gross\<rparr> policy =
      Inr \<lparr>noteAmountWei = note, grossAmountWei = gross\<rparr> \<and>
    (gross = note \<longrightarrow> allowFullExit policy \<noteq> Some False)"
proof -
  obtain ds where n: "normalizeDenominations (denominationsWei policy) = Inr ds"
    using assms by (auto simp: spendablePublicExitAmountsForNote_def res_simps isSupported_Inr)
  let ?D = "set (denominationsWei policy)"
  have D: "set ds = ?D" "\<forall>d \<in> ?D. 0 < d"
    using normalizeDenominations_Inr [OF n] by auto
  have sup: "isSupportedFixedDenomination a policy = Inr (a \<in> ?D)" for a
    using n by (simp add: isSupported_Inr)
  show ?thesis
  proof (cases "note \<in> ?D")
    case True
    then obtain es where "exit_loop policy note
        (if allowFullExit policy \<noteq> Some False then [note] else []) ds = Inr es" "exits = sort_desc es"
      using assms n sup by (auto simp: spendablePublicExitAmountsForNote_def res_simps)
    from exit_loop_Inr [OF this(1)] this(2) D(1) have
      "set exits = (if allowFullExit policy \<noteq> Some False then {note} else {}) \<union>
         {note - c | c. c \<in> ?D \<and> c < note \<and> note - c \<in> ?D}"
      by (simp split: if_splits)
    moreover have "(\<exists>c. gross = note - c \<and> c \<in> ?D \<and> c < note \<and> note - c \<in> ?D) \<longleftrightarrow>
        gross \<in> ?D \<and> note - gross \<in> ?D" (is "?L = ?R")
    proof
      assume ?R
      moreover from this D(2) have "note - gross < note" by auto
      ultimately show ?L by (intro exI [of _ "note - gross"]) simp
    qed auto
    moreover have "gross \<noteq> note \<and> gross \<in> ?D \<and> note - gross \<in> ?D \<longleftrightarrow>
        gross \<noteq> note \<and> gross \<in> ?D \<and> gross \<le> note \<and> (note - gross = 0 \<or> note - gross \<in> ?D)"
      using D(2) by auto
    moreover have "note - note \<notin> ?D"
      using D(2) by auto
    ultimately show ?thesis
      using True by (cases "gross = note") (simp_all add: assert_exit_iff [OF n])
  next
    case False
    then show ?thesis
      using assms sup by (auto simp: spendablePublicExitAmountsForNote_def
          assertFixedDenominationPublicExit_def)
  qed
qed

lemma exit_menu_exact_witness:
  "\<exists>exits. spendablePublicExitAmountsForNote 10000000000000000
     MAINNET_CANDIDATE_FIXED_DENOMINATION_POLICY = Inr exits \<and> 5000000000000000 \<in> set exits"
proof -
  have "spendablePublicExitAmountsForNote 10000000000000000 MAINNET_CANDIDATE_FIXED_DENOMINATION_POLICY =
      Inr [10000000000000000, 5000000000000000]"
    by code_simp
  from this exit_menu_exact [OF this, of 5000000000000000] show ?thesis by auto
qed

end
