(* ===== verification/Fees.thy ===== *)
theory Fees
  imports Js_Core
begin

text \<open>
  Withdrawal fees, private notes and the public accounting of the pool:
  \<^verbatim>\<open>packages/core/src/fees.ts\<close>, \<^verbatim>\<open>packages/core/src/notes.ts\<close> and the constants of
  \<^verbatim>\<open>packages/core/src/config.ts\<close>. \<open>Date.parse\<close> is the parameter \<open>is_timestamp\<close> of
  \<open>resolveWithdrawalFeeState\<close> (whether it parses the text). A fee given as a \<open>bigint\<close> goes through
  \<open>Number(value)\<close>; the conversion is exact on the safe integers and leaves every other value
  outside them, which is all the code observes of it.
\<close>

definition WITHDRAWAL_FEE_BPS :: int where "WITHDRAWAL_FEE_BPS = 33"
definition BPS_DENOMINATOR :: int where "BPS_DENOMINATOR = 10000"
definition MIN_WITHDRAWAL_AMOUNT :: int where "MIN_WITHDRAWAL_AMOUNT = 1"

lemmas fee_constants = WITHDRAWAL_FEE_BPS_def BPS_DENOMINATOR_def MIN_WITHDRAWAL_AMOUNT_def

datatype fee_error =
    WithdrawalBelowMinimum
  | MustBeNonnegativeSafeInteger string
  | FeeBpsAboveMax
  | FeeAboveUserMaximum
  | NetBelowUserMinimum
  | ActiveFeeAboveMax
  | PendingFeeAboveMax
  | ActivationTimeNotTimestamp

datatype bps_value = BpsNumber jsnum | BpsBigint int

record withdrawal_fee_result =
  gross :: int
  fee :: int
  net :: int

datatype withdrawal_fee_source = RuntimeStaticV11 | OnChainFeeBps

record withdrawal_fee_state_input =
  activeFeeBps_in :: jsnum
  maxFeeBps_in :: jsnum
  pendingFeeBps_in :: "jsnum option"
  pendingFeeActivationTime_in :: "string option"
  source_in :: withdrawal_fee_source

record withdrawal_fee_state =
  activeFeeBps :: jsnum
  maxFeeBps :: jsnum
  pendingFeeBps :: "jsnum option"
  pendingFeeActivationTime :: "string option"
  pendingFeeActive :: bool
  fee_source :: withdrawal_fee_source

record withdrawal_fee_bounds =
  bound_maxFeeBps :: "jsnum option"
  bound_maxFeeWei :: "int option"
  bound_minNetAmountWei :: "int option"

record sweep_check =
  accruedProtocolFees :: int
  feeSweptAccounting :: int
  requestedSweep :: int

fun bps_number :: "bps_value \<Rightarrow> jsnum" where
  "bps_number (BpsNumber n) = n"
| "bps_number (BpsBigint i) = jsint i"

definition normalizeFeeBps :: "bps_value \<Rightarrow> string \<Rightarrow> fee_error + jsnum" where
  "normalizeFeeBps v label =
     (let parsed = bps_number v in
      if \<not> is_safe_integer parsed \<or> num_less parsed (jsint 0)
      then Inl (MustBeNonnegativeSafeInteger label) else Inr parsed)"

text \<open>An optional value: \<open>undefined\<close> stays \<open>undefined\<close>, anything else is normalised.\<close>

definition normalize_optional_bps :: "jsnum option \<Rightarrow> string \<Rightarrow> fee_error + jsnum option" where
  "normalize_optional_bps v label =
     (case v of None \<Rightarrow> Inr None
      | Some n \<Rightarrow> bind_res (normalizeFeeBps (BpsNumber n) label) (\<lambda>m. Inr (Some m)))"

definition above :: "jsnum \<Rightarrow> jsnum option \<Rightarrow> bool" where
  "above n m = (case m of None \<Rightarrow> False | Some k \<Rightarrow> num_less k n)"

definition calculateWithdrawalFee ::
  "int \<Rightarrow> bps_value \<Rightarrow> withdrawal_fee_bounds \<Rightarrow> fee_error + withdrawal_fee_result" where
  "calculateWithdrawalFee grossWithdrawalAmount feeBps bounds =
     (if grossWithdrawalAmount < MIN_WITHDRAWAL_AMOUNT then Inl WithdrawalBelowMinimum
      else bind_res (normalizeFeeBps feeBps ''withdrawal fee bps'') (\<lambda>normalizedFeeBps.
        bind_res (normalize_optional_bps (bound_maxFeeBps bounds) ''max fee bps'') (\<lambda>maxBps.
        if above normalizedFeeBps maxBps then Inl FeeBpsAboveMax else
        let fee' = (grossWithdrawalAmount * num_int normalizedFeeBps) div BPS_DENOMINATOR;
            net' = grossWithdrawalAmount - fee' in
        if (case bound_maxFeeWei bounds of None \<Rightarrow> False | Some m \<Rightarrow> fee' > m)
        then Inl FeeAboveUserMaximum else
        if (case bound_minNetAmountWei bounds of None \<Rightarrow> False | Some m \<Rightarrow> net' < m)
        then Inl NetBelowUserMinimum else
        Inr \<lparr>gross = grossWithdrawalAmount, fee = fee', net = net'\<rparr>)))"

definition no_bounds :: withdrawal_fee_bounds where
  "no_bounds = \<lparr>bound_maxFeeBps = None, bound_maxFeeWei = None, bound_minNetAmountWei = None\<rparr>"

definition resolveWithdrawalFeeState ::
  "(string \<Rightarrow> bool) \<Rightarrow> withdrawal_fee_state_input \<Rightarrow> fee_error + withdrawal_fee_state" where
  "resolveWithdrawalFeeState is_timestamp input =
     bind_res (normalizeFeeBps (BpsNumber (activeFeeBps_in input)) ''active withdrawal fee bps'') (\<lambda>active.
     bind_res (normalizeFeeBps (BpsNumber (maxFeeBps_in input)) ''max withdrawal fee bps'') (\<lambda>maxBps.
     if num_less maxBps active then Inl ActiveFeeAboveMax else
     bind_res (normalize_optional_bps (pendingFeeBps_in input) ''pending withdrawal fee bps'') (\<lambda>pending.
     if (case pending of None \<Rightarrow> False | Some p \<Rightarrow> num_less maxBps p) then Inl PendingFeeAboveMax else
     if (case pendingFeeActivationTime_in input of None \<Rightarrow> False | Some t \<Rightarrow> \<not> is_timestamp t)
     then Inl ActivationTimeNotTimestamp else
     Inr \<lparr>activeFeeBps = active, maxFeeBps = maxBps, pendingFeeBps = pending,
          pendingFeeActivationTime = pendingFeeActivationTime_in input,
          pendingFeeActive = False, fee_source = source_in input\<rparr>)))"

definition canSweepFees :: "sweep_check \<Rightarrow> bool" where
  "canSweepFees check =
     (if accruedProtocolFees check < 0 \<or> feeSweptAccounting check < 0 \<or> requestedSweep check < 0 then False
      else if feeSweptAccounting check > accruedProtocolFees check then False
      else requestedSweep check \<le> accruedProtocolFees check - feeSweptAccounting check)"

record shielded_note =
  note_commitment :: string
  note_nullifier :: string
  ownerViewingKeyId :: string
  note_amount :: int
  note_spent :: bool

record pool_accounting =
  pool_deposited :: int
  pool_withdrawnNet :: int
  pool_accruedProtocolFees :: int
  pool_feeSweptAccounting :: int

definition derivePrivateBalance :: "shielded_note list \<Rightarrow> string \<Rightarrow> int" where
  "derivePrivateBalance ns viewingKeyId =
     foldl (\<lambda>balance note. if ownerViewingKeyId note \<noteq> viewingKeyId \<or> note_spent note then balance
                           else balance + note_amount note) 0 ns"

definition markSpent :: "shielded_note list \<Rightarrow> string \<Rightarrow> shielded_note list" where
  "markSpent ns nullifier =
     map (\<lambda>note. if note_nullifier note = nullifier then note\<lparr>note_spent := True\<rparr> else note) ns"

definition assertPoolSolvent :: "pool_accounting \<Rightarrow> int \<Rightarrow> bool" where
  "assertPoolSolvent accounting unspentPrivateNotes =
     (if pool_feeSweptAccounting accounting > pool_accruedProtocolFees accounting then False
      else let unsweptFees = pool_accruedProtocolFees accounting - pool_feeSweptAccounting accounting in
        pool_deposited accounting \<ge> pool_withdrawnNet accounting + unspentPrivateNotes + unsweptFees)"

section \<open>Fees\<close>

lemma normalizeFeeBps_Inr:
  "normalizeFeeBps v l = Inr n \<longleftrightarrow>
     n = bps_number v \<and> is_safe_integer n \<and> 0 \<le> num_int n"
  using num_cmp_jsint(1) [of _ 0]
  by (auto simp: normalizeFeeBps_def Let_def is_safe_integer_def is_integer_iff)
    (metis is_integer_iff num_cmp_jsint(1) not_less of_int_0 is_safe_integer_def)+

lemma normalize_optional_Inr:
  "normalize_optional_bps v l = Inr m \<longleftrightarrow>
     m = v \<and> (\<forall>n. v = Some n \<longrightarrow> is_safe_integer n \<and> 0 \<le> num_int n)"
  by (auto simp: normalize_optional_bps_def normalizeFeeBps_Inr res_simps split: option.splits)

lemma calculate_Inr:
  assumes "calculateWithdrawalFee g v b = Inr r"
  obtains bps where "bps_number v = jsint bps" "0 \<le> bps" "1 \<le> g"
    "r = \<lparr>gross = g, fee = g * bps div 10000, net = g - g * bps div 10000\<rparr>"
    "\<And>m. bound_maxFeeBps b = Some m \<Longrightarrow> bps \<le> num_int m"
    "\<And>m. bound_maxFeeWei b = Some m \<Longrightarrow> fee r \<le> m"
    "\<And>m. bound_minNetAmountWei b = Some m \<Longrightarrow> m \<le> net r"
proof -
  obtain n mb where n: "normalizeFeeBps v ''withdrawal fee bps'' = Inr n"
    and mb: "normalize_optional_bps (bound_maxFeeBps b) ''max fee bps'' = Inr mb"
    and rest: "\<not> above n mb" "1 \<le> g"
      "\<not> (case bound_maxFeeWei b of None \<Rightarrow> False | Some m \<Rightarrow> g * num_int n div 10000 > m)"
      "\<not> (case bound_minNetAmountWei b of None \<Rightarrow> False | Some m \<Rightarrow> g - g * num_int n div 10000 < m)"
      "r = \<lparr>gross = g, fee = g * num_int n div 10000, net = g - g * num_int n div 10000\<rparr>"
    using assms unfolding calculateWithdrawalFee_def fee_constants Let_def res_simps by (auto simp: not_less)
  have int: "n = jsint (num_int n)" "0 \<le> num_int n" "n = bps_number v"
    using n by (auto simp: normalizeFeeBps_Inr is_safe_integer_def is_integer_iff)
  have max: "num_int n \<le> num_int m" if m: "bound_maxFeeBps b = Some m" for m
  proof -
    have "m = jsint (num_int m)" "mb = Some m"
      using mb m by (auto simp: normalize_optional_Inr is_safe_integer_def is_integer_iff)
    with rest(1) int(1) show ?thesis
      unfolding above_def by (metis num_cmp_jsint(1) not_less option.simps(5))
  qed
  show thesis
    using int max rest by (intro that [of "num_int n"]) (auto split: option.splits)
qed

section \<open>Notes and accounting\<close>

lemma foldl_balance:
  "foldl (\<lambda>balance note. if P note then balance else balance + f note) (b::int) ns =
     b + sum_list (map f (filter (\<lambda>note. \<not> P note) ns))"
  by (induction ns arbitrary: b) auto

lemma derivePrivateBalance_sum:
  "derivePrivateBalance ns k =
     sum_list (map note_amount (filter (\<lambda>n. ownerViewingKeyId n = k \<and> \<not> note_spent n) ns))"
  unfolding derivePrivateBalance_def foldl_balance by simp

lemma markSpent_Nil [simp]: "markSpent [] nf = []"
  by (simp add: markSpent_def)

lemma markSpent_Cons [simp]:
  "markSpent (n # ns) nf =
     (if note_nullifier n = nf then n\<lparr>note_spent := True\<rparr> else n) # markSpent ns nf"
  by (simp add: markSpent_def)

lemma markSpent_absent: "nf \<notin> note_nullifier ` set ns \<Longrightarrow> markSpent ns nf = ns"
  by (induction ns) auto

lemma derivePrivateBalance_Cons [simp]:
  "derivePrivateBalance (n # ns) k =
     (if ownerViewingKeyId n = k \<and> \<not> note_spent n then note_amount n else 0) + derivePrivateBalance ns k"
  by (simp add: derivePrivateBalance_sum)

lemma balance_after_spend:
  assumes "distinct (map note_nullifier ns)" "n \<in> set ns" "\<not> note_spent n"
  shows "derivePrivateBalance (markSpent ns (note_nullifier n)) k =
    derivePrivateBalance ns k - (if ownerViewingKeyId n = k then note_amount n else 0)"
  using assms
proof (induction ns)
  case Nil
  then show ?case by simp
next
  case (Cons m ns)
  then show ?case
  proof (cases "m = n")
    case True
    then have "markSpent ns (note_nullifier n) = ns"
      using Cons.prems by (intro markSpent_absent) auto
    then show ?thesis
      using True Cons.prems by simp
  next
    case False
    then have "note_nullifier m \<noteq> note_nullifier n"
      using Cons.prems by (auto simp: image_iff)
    then show ?thesis
      using False Cons by simp
  qed
qed

section \<open>Properties\<close>

text \<open>
  C35: A fee calculation that returns splits the gross amount into fee and net amount without
  loss, and the user's bounds hold: with a fee of at most 10000 basis points the fee is the gross
  amount's share rounded down, between 0 and the gross amount, so the net amount is not negative.
\<close>

theorem fee_conserves_amount:
  assumes "calculateWithdrawalFee g v b = Inr r"
  shows "gross r = g \<and> fee r + net r = g \<and> 0 \<le> fee r \<and>
    (num_le (bps_number v) (jsint 10000) \<longrightarrow> fee r \<le> g \<and> 0 \<le> net r \<and>
       10000 * fee r \<le> g * num_int (bps_number v) \<and> g * num_int (bps_number v) < 10000 * (fee r + 1)) \<and>
    (\<forall>m. bound_maxFeeWei b = Some m \<longrightarrow> fee r \<le> m) \<and>
    (\<forall>m. bound_minNetAmountWei b = Some m \<longrightarrow> m \<le> net r)"
proof -
  obtain bps where bps: "bps_number v = jsint bps" "0 \<le> bps" "1 \<le> g"
    "r = \<lparr>gross = g, fee = g * bps div 10000, net = g - g * bps div 10000\<rparr>"
    "\<And>m. bound_maxFeeWei b = Some m \<Longrightarrow> fee r \<le> m"
    "\<And>m. bound_minNetAmountWei b = Some m \<Longrightarrow> m \<le> net r"
    using calculate_Inr [OF assms] by metis
  define q where "q = g * bps div 10000"
  have q: "10000 * q \<le> g * bps" "g * bps < 10000 * (q + 1)"
    using div_mult_mod_eq [of "g * bps" 10000] pos_mod_bound [of 10000 "g * bps"]
      pos_mod_sign [of 10000 "g * bps"] unfolding q_def by simp_all
  have "0 \<le> g * bps"
    using bps by simp
  have "g * bps \<le> g * 10000" if "bps \<le> 10000"
    using that bps by simp
  then have small: "bps \<le> 10000 \<Longrightarrow> q \<le> g"
    using q by linarith
  have nonneg: "0 \<le> q"
    using \<open>0 \<le> g * bps\<close> by (simp add: q_def pos_imp_zdiv_nonneg_iff)
  have le: "num_le (bps_number v) (jsint 10000) \<longleftrightarrow> bps \<le> 10000" "num_int (bps_number v) = bps"
    using num_cmp_jsint(2) [of bps 10000] by (simp_all add: bps(1))
  have r: "gross r = g" "fee r = q" "net r = g - q"
    using bps(4) by (simp_all add: q_def)
  show ?thesis
    using q small nonneg bps(5,6) unfolding r le by auto
qed

lemma fee_conserves_amount_witness:
  "\<exists>r. calculateWithdrawalFee 1000000 (BpsBigint WITHDRAWAL_FEE_BPS) no_bounds = Inr r \<and>
     fee r + net r = 1000000 \<and> fee r = 3300"
proof -
  have run: "calculateWithdrawalFee 1000000 (BpsBigint WITHDRAWAL_FEE_BPS) no_bounds =
      Inr \<lparr>gross = 1000000, fee = 3300, net = 996700\<rparr>"
    by code_simp
  from fee_conserves_amount [OF run] run show ?thesis by simp
qed

end
