(* ===== verification/Hex.thy ===== *)
theory Hex
  imports Js_Core
begin

text \<open>
  Hex strings: the predicates of \<^verbatim>\<open>packages/sdk/src/types.ts\<close> (the same regular expressions are
  repeated in \<^verbatim>\<open>packages/core/src/proofs.ts\<close>, \<^verbatim>\<open>services/relay\<close> and \<^verbatim>\<open>services/indexer\<close>), the
  32-byte encoding \<open>toBytes32\<close> and its inverse \<open>BigInt\<close>. The round trips state that a bytes32 hex
  string and the number it stands for determine each other up to the case of the digits.
\<close>

definition hex_of_length :: "nat \<Rightarrow> string \<Rightarrow> bool" where
  "hex_of_length n s \<longleftrightarrow> starts_with ''0x'' s \<and> length s = n + 2 \<and> list_all is_hex_char (drop 2 s)"

definition isHexString :: "string \<Rightarrow> bool" where
  "isHexString s \<longleftrightarrow> starts_with ''0x'' s \<and> even (length s) \<and> list_all is_hex_char (drop 2 s)"

definition isHexBytes32 :: "string \<Rightarrow> bool" where
  "isHexBytes32 s \<longleftrightarrow> hex_of_length 64 s"

definition isEvmAddress :: "string \<Rightarrow> bool" where
  "isEvmAddress s \<longleftrightarrow> hex_of_length 40 s"

datatype hex_error = ExpectedEvenLengthHex

definition normalizeHex :: "string \<Rightarrow> hex_error + string" where
  "normalizeHex s =
     (if \<not> isHexString s then Inl ExpectedEvenLengthHex
      else Inr (''0x'' @ to_lower (drop 2 s)))"

definition ZERO_BYTES32 :: string where
  "ZERO_BYTES32 = ''0x'' @ replicate 64 (CHR ''0'')"

definition toBytes32 :: "int \<Rightarrow> string" where
  "toBytes32 v = ''0x'' @ pad_start 64 (CHR ''0'') (hex_string v)"

definition hex_value :: "string \<Rightarrow> int" where
  "hex_value s = int (radix_val 16 (drop 2 s))"

definition hexByteLength :: "string \<Rightarrow> nat" where
  "hexByteLength s = (length s - 2) div 2"

lemmas [js_defs] = hex_of_length_def isHexString_def isHexBytes32_def isEvmAddress_def
  ZERO_BYTES32_def toBytes32_def hex_value_def hexByteLength_def

lemma starts_with_0x_iff: "starts_with ''0x'' s \<longleftrightarrow> (\<exists>t. s = ''0x'' @ t)"
  unfolding starts_with_def by (metis append_take_drop_id append_eq_conv_conj)

lemma starts_with_0x [simp]: "starts_with ''0x'' (CHR ''0'' # CHR ''x'' # t)"
  by (simp add: starts_with_def)

lemma hex_of_lengthE:
  assumes "hex_of_length n s"
  obtains t where "s = ''0x'' @ t" "length t = n" "list_all is_hex_char t"
  using assms by (auto simp: hex_of_length_def starts_with_0x_iff)

lemma isHexStringE:
  assumes "isHexString s"
  obtains t where "s = ''0x'' @ t" "even (length t)" "list_all is_hex_char t"
  using assms by (auto simp: isHexString_def starts_with_0x_iff)

lemma code_lower_0x [simp]:
  "lower_char (CHR ''0'') = CHR ''0''" "lower_char (CHR ''x'') = CHR ''x''"
  by (simp_all add: lower_char_def is_upper_def code_def)

lemma hex_of_length_lower [simp]: "hex_of_length n s \<Longrightarrow> hex_of_length n (to_lower s)"
  by (erule hex_of_lengthE) (simp add: hex_of_length_def)

lemma isHexBytes32_lower [simp]: "isHexBytes32 s \<Longrightarrow> isHexBytes32 (to_lower s)"
  by (simp add: isHexBytes32_def)

lemma isEvmAddress_lower [simp]: "isEvmAddress s \<Longrightarrow> isEvmAddress (to_lower s)"
  by (simp add: isEvmAddress_def)

lemma isHexBytes32_isHexString [simp]: "isHexBytes32 s \<Longrightarrow> isHexString s"
  by (simp add: isHexBytes32_def isHexString_def hex_of_length_def)

lemma isHexString_lower [simp]: "isHexString s \<Longrightarrow> isHexString (to_lower s)"
  by (erule isHexStringE) (simp add: isHexString_def)

lemma normalizeHex_eq: "isHexString s \<Longrightarrow> normalizeHex s = Inr (to_lower s)"
  by (erule isHexStringE) (simp add: normalizeHex_def isHexString_def)

lemma normalizeHex_Inr: "normalizeHex s = Inr t \<longleftrightarrow> isHexString s \<and> t = to_lower s"
  using normalizeHex_eq by (auto simp: normalizeHex_def split: if_splits)

section \<open>The value of a hex string\<close>

lemma js_trim_id: "s \<noteq> [] \<Longrightarrow> \<not> is_space (hd s) \<Longrightarrow> \<not> is_space (last s) \<Longrightarrow> js_trim s = s"
proof -
  assume s: "s \<noteq> []" "\<not> is_space (hd s)" "\<not> is_space (last s)"
  then have "dropWhile is_space s = s"
    by (cases s) simp_all
  moreover have "dropWhile is_space (rev s) = rev s"
    using s by (cases s rule: rev_cases) simp_all
  ultimately show ?thesis
    by (simp add: js_trim_def)
qed

lemma digits_16: "is_radix_digit 16 = is_hex_char"
  using digit_val_less_16 by (auto simp: is_radix_digit_def)

lemma js_bigint_hex:
  assumes "starts_with ''0x'' s" "list_all is_hex_char (drop 2 s)" "drop 2 s \<noteq> []"
  shows "js_bigint s = Some (hex_value s)"
proof -
  obtain t where s: "s = ''0x'' @ t" and t: "t \<noteq> []" "list_all is_hex_char t"
    using assms by (auto simp: starts_with_0x_iff)
  have "js_trim s = s"
    using s t is_hex_char_not_space
    by (intro js_trim_id) (auto simp: is_space_def code_def list_all_iff)
  then show ?thesis
    using s t
    by (simp add: js_bigint_def bigint_literal_def starts_with_def radix_literal_def digits_16
        hex_value_def)
qed

lemma js_bigint_bytes32: "isHexBytes32 s \<Longrightarrow> js_bigint s = Some (hex_value s)"
  by (rule js_bigint_hex) (auto simp: isHexBytes32_def hex_of_length_def)

lemma hex_value_nonneg [simp]: "0 \<le> hex_value s"
  by (simp add: hex_value_def)

lemma hex_value_bytes32_bound: "isHexBytes32 s \<Longrightarrow> hex_value s < 2 ^ 256"
proof -
  assume s: "isHexBytes32 s"
  then have "radix_val 16 (drop 2 s) < 16 ^ length (drop 2 s)"
    by (intro radix_val_bound) (simp add: isHexBytes32_def hex_of_length_def)
  moreover have "length (drop 2 s) = 64"
    using s by (simp add: isHexBytes32_def hex_of_length_def)
  ultimately have "radix_val 16 (drop 2 s) < 2 ^ 256"
    by (simp add: power_mult [of "2::nat" 4 64, simplified])
  then have "int (radix_val 16 (drop 2 s)) < int (2 ^ 256)"
    unfolding of_nat_less_iff .
  then show "hex_value s < 2 ^ 256"
    by (simp add: hex_value_def)
qed

lemma hex_value_lower [simp]: "isHexString s \<Longrightarrow> hex_value (to_lower s) = hex_value s"
  by (erule isHexStringE) (simp add: hex_value_def)

section \<open>Round trips of the 32-byte encoding\<close>

lemma is_hex_char_0 [simp]: "is_hex_char (CHR ''0'')"
  by (simp add: is_hex_char_def is_digit_def code_def)

lemma list_all_replicate [simp]: "list_all P (replicate n x) \<longleftrightarrow> n = 0 \<or> P x"
  by (cases n) (auto simp: list_all_iff)

lemma toBytes32_shape:
  assumes "0 \<le> v" "v < 2 ^ 256"
  shows "isHexBytes32 (toBytes32 v)"
proof -
  have "nat v < 16 ^ 64"
    using assms by (simp add: nat_less_iff)
  then have "length (radix_string 16 (nat v)) \<le> 64"
    by (intro radix_string_length) simp_all
  then show ?thesis
    using assms
    by (simp add: isHexBytes32_def hex_of_length_def toBytes32_def pad_start_def hex_string_def)
qed

lemma hex_value_toBytes32 [simp]: "0 \<le> v \<Longrightarrow> hex_value (toBytes32 v) = v"
  by (simp add: hex_value_def toBytes32_def hex_string_def)

lemma toBytes32_inj: "0 \<le> a \<Longrightarrow> 0 \<le> b \<Longrightarrow> toBytes32 a = toBytes32 b \<longleftrightarrow> a = b"
  by (metis hex_value_toBytes32)

lemma js_bigint_toBytes32:
  "0 \<le> v \<Longrightarrow> v < 2 ^ 256 \<Longrightarrow> js_bigint (toBytes32 v) = Some v"
  by (simp add: js_bigint_bytes32 toBytes32_shape)

lemma to_lower_replicate [simp]: "to_lower (replicate n c) = replicate n (lower_char c)"
  by (simp add: to_lower_def)

lemma to_lower_toBytes32 [simp]: "0 \<le> v \<Longrightarrow> to_lower (toBytes32 v) = toBytes32 v"
  by (simp add: toBytes32_def pad_start_def hex_string_def)

lemma code_lower_hex:
  "is_hex_char c \<Longrightarrow> code (lower_char c) = digit_val c + (if digit_val c < 10 then 48 else 87)"
  unfolding code_lower_char
  by (auto simp: digit_val_def is_hex_char_def is_digit_def is_upper_def)

lemma digit_val_inj_lower:
  assumes "is_hex_char c" "is_hex_char d" "digit_val c = digit_val d"
  shows "lower_char c = lower_char d"
proof -
  have "code (lower_char c) = code (lower_char d)"
    using assms by (simp add: code_lower_hex)
  then show ?thesis
    by (simp add: code_def)
qed

lemma base_digit_unique: "c < n \<Longrightarrow> d < n \<Longrightarrow> a * n + c = b * n + d \<Longrightarrow> a = b \<and> c = (d::nat)"
  by (metis add.commute div_mult_self1 div_less add.left_neutral mod_mult_self1 mod_less
      less_nat_zero_code mult.commute gr_zeroI)

lemma radix_val_inj_lower:
  "length s = length t \<Longrightarrow> list_all is_hex_char s \<Longrightarrow> list_all is_hex_char t \<Longrightarrow>
     radix_val 16 s = radix_val 16 t \<Longrightarrow> to_lower s = to_lower t"
proof (induction s arbitrary: t rule: rev_induct)
  case Nil
  then show ?case by simp
next
  case (snoc c s)
  then obtain t' d where t: "t = t' @ [d]"
    by (cases t rule: rev_cases) auto
  have cd: "digit_val c < 16" "digit_val d < 16"
    using snoc.prems t digit_val_less_16 by auto
  have eq: "radix_val 16 s * 16 + digit_val c = radix_val 16 t' * 16 + digit_val d"
    using snoc.prems t by simp
  have "radix_val 16 s = radix_val 16 t' \<and> digit_val c = digit_val d"
    using cd eq by (rule base_digit_unique)
  with snoc t show ?case
    by (simp add: digit_val_inj_lower)
qed

lemma bytes32_eq_lower_iff:
  assumes "isHexBytes32 s" "isHexBytes32 t"
  shows "to_lower s = to_lower t \<longleftrightarrow> hex_value s = hex_value t"
proof
  assume "to_lower s = to_lower t"
  then show "hex_value s = hex_value t"
    using assms hex_value_lower isHexBytes32_isHexString by metis
next
  assume eq: "hex_value s = hex_value t"
  obtain s' t' where st: "s = ''0x'' @ s'" "t = ''0x'' @ t'"
    using assms by (auto simp: isHexBytes32_def hex_of_length_def starts_with_0x_iff)
  have "to_lower s' = to_lower t'"
    using assms eq st
    by (intro radix_val_inj_lower) (auto simp: isHexBytes32_def hex_of_length_def hex_value_def)
  then show "to_lower s = to_lower t"
    using st by simp
qed

lemma toBytes32_hex_value:
  assumes "isHexBytes32 s"
  shows "toBytes32 (hex_value s) = to_lower s"
proof -
  have "to_lower (toBytes32 (hex_value s)) = to_lower s"
    using assms by (subst bytes32_eq_lower_iff)
      (auto intro: toBytes32_shape hex_value_bytes32_bound)
  then show ?thesis by simp
qed

lemma hex_value_ZERO [simp]: "hex_value ZERO_BYTES32 = 0"
  using radix_val_zeros [of 16 64 "[]"] by (simp add: ZERO_BYTES32_def hex_value_def)

lemma isHexBytes32_ZERO [simp]: "isHexBytes32 ZERO_BYTES32"
  by (simp add: ZERO_BYTES32_def isHexBytes32_def hex_of_length_def)

lemma to_lower_ZERO [simp]: "to_lower ZERO_BYTES32 = ZERO_BYTES32"
  by (simp add: ZERO_BYTES32_def)

lemma bytes32_zero_iff: "isHexBytes32 s \<Longrightarrow> to_lower s = ZERO_BYTES32 \<longleftrightarrow> hex_value s = 0"
  using bytes32_eq_lower_iff [of s ZERO_BYTES32] by simp

end
