(* ===== verification/Proof_Context.thy ===== *)
theory Proof_Context
  imports Hex
begin

text \<open>
  Public inputs and hashed contexts of the withdrawal proofs, \<^verbatim>\<open>packages/core/src/proofs.ts\<close>: the
  checks of field values, the encoding of the verifier's public inputs (ten for Stage A, twelve
  with the two hashes of Stage B and C), the records \<open>ProofContextV1\<close>, \<open>EncryptedNoteV1\<close> and
  \<open>RelayerPolicyV1\<close>, and the withdrawal with private change.

  The library viem is a parameter: \<open>keccak\<close> (\<open>keccak256\<close> on hex bytes) and \<open>abi_encode\<close>
  (\<open>encodeAbiParameters\<close> on typed values, \<open>None\<close> when it throws). Values of type \<open>unknown\<close> are
  strings here; a value of another type fails the same checks as a malformed string. The literal
  test vectors of the file (exported constants no function reads) are not modelled.
\<close>

datatype abi_value =
    AbiBytes32 string
  | AbiUint int
  | AbiAddress string
  | AbiBytes4 string
  | AbiBytes string

record viem =
  keccak :: "string \<Rightarrow> string"
  abi_encode :: "abi_value list \<Rightarrow> string option"

datatype pc_error =
    MustBeBytes32 string
  | MustBeBytes4 string
  | MustBeHexBytes string
  | MustBeNonzero string
  | MustBeAddress string
  | MustBePositive string
  | MustBeNonnegative string
  | ExceedsUint256 string
  | FeeNotBelowGross
  | MustBePositiveSafeInteger string
  | UnsupportedChainId
  | AbiEncodingFailed
  | ProofContextHashMismatch
  | EncryptedNoteHashMismatch
  | RelayerPolicyHashMismatch
  | WrongPublicInputCount nat
  | PublicInputMismatch string nat
  | ChangeAmountNotPositive
  | ChangeFeeFormula
  | ValueNotConserved
  | ChangeFeeNotBelowGross
  | EncryptedChangeNoteEmpty
  | RootNotAccepted
  | SpendingKeyLeavesClient

definition ZERO_ADDRESS :: string where
  "ZERO_ADDRESS = ''0x'' @ replicate 40 (CHR ''0'')"

definition BN254_SCALAR_FIELD_MODULUS :: int where
  "BN254_SCALAR_FIELD_MODULUS =
     21888242871839275222246405745257275088548364400416034343698204186575808495617"

definition UINT256_MAX :: int where "UINT256_MAX = 2 ^ 256 - 1"

section \<open>Proof modes\<close>

datatype proof_mode =
    LocalMode bool
  | ServiceAssisted bool bool

datatype proof_privacy_label = PrivacyPreserving | ReducedPrivacy

text \<open>The arguments: whether the sensitive witness leaves the device (service only), whether the
  service requests the spending key.\<close>

fun assertProofModeAllowed :: "proof_mode \<Rightarrow> pc_error + proof_privacy_label" where
  "assertProofModeAllowed (LocalMode requestsKey) =
     (if requestsKey then Inl SpendingKeyLeavesClient else Inr PrivacyPreserving)"
| "assertProofModeAllowed (ServiceAssisted leavesDevice requestsKey) =
     (if requestsKey then Inl SpendingKeyLeavesClient
      else Inr (if leavesDevice then ReducedPrivacy else PrivacyPreserving))"

section \<open>Checks of field values\<close>

definition requireBytes32 :: "string \<Rightarrow> string \<Rightarrow> pc_error + string" where
  "requireBytes32 v name = (if \<not> isHexBytes32 v then Inl (MustBeBytes32 name) else Inr (to_lower v))"

definition requireBytes4 :: "string \<Rightarrow> string \<Rightarrow> pc_error + string" where
  "requireBytes4 v name = (if \<not> hex_of_length 8 v then Inl (MustBeBytes4 name) else Inr (to_lower v))"

definition requireHexBytes :: "string \<Rightarrow> string \<Rightarrow> pc_error + string" where
  "requireHexBytes v name = (if \<not> isHexString v then Inl (MustBeHexBytes name) else Inr (to_lower v))"

definition requireNonZeroBytes32 :: "string \<Rightarrow> string \<Rightarrow> pc_error + string" where
  "requireNonZeroBytes32 v name =
     bind_res (requireBytes32 v name) (\<lambda>b. if b = ZERO_BYTES32 then Inl (MustBeNonzero name) else Inr b)"

definition requireAddressAllowZero :: "string \<Rightarrow> string \<Rightarrow> pc_error + string" where
  "requireAddressAllowZero v name = (if \<not> isEvmAddress v then Inl (MustBeAddress name) else Inr (to_lower v))"

definition requireAddress :: "string \<Rightarrow> string \<Rightarrow> pc_error + string" where
  "requireAddress v name =
     bind_res (requireAddressAllowZero v name) (\<lambda>a. if a = ZERO_ADDRESS then Inl (MustBeNonzero name) else Inr a)"

definition requireUint256 :: "int \<Rightarrow> string \<Rightarrow> pc_error + int" where
  "requireUint256 v name =
     (if v < 0 then Inl (MustBeNonnegative name)
      else if v > UINT256_MAX then Inl (ExceedsUint256 name) else Inr v)"

definition requirePositiveSafeInteger :: "jsnum \<Rightarrow> string \<Rightarrow> pc_error + jsnum" where
  "requirePositiveSafeInteger v name =
     (if \<not> is_safe_integer v \<or> num_le v (jsint 0) then Inl (MustBePositiveSafeInteger name) else Inr v)"

definition requireSupportedMegaEthChainId :: "jsnum \<Rightarrow> pc_error + jsnum" where
  "requireSupportedMegaEthChainId chainId =
     bind_res (requirePositiveSafeInteger chainId ''chainId'') (\<lambda>_.
       if chainId \<noteq> jsint 6343 \<and> chainId \<noteq> jsint 4326 then Inl UnsupportedChainId else Inr chainId)"

definition encodeUint256 :: "int \<Rightarrow> string \<Rightarrow> pc_error + string" where
  "encodeUint256 v name =
     (if v > UINT256_MAX then Inl (ExceedsUint256 name)
      else Inr (''0x'' @ pad_start 64 (CHR ''0'') (hex_string v)))"

definition encodePositiveUint256 :: "int \<Rightarrow> string \<Rightarrow> pc_error + string" where
  "encodePositiveUint256 v name = (if v \<le> 0 then Inl (MustBePositive name) else encodeUint256 v name)"

definition encodeFee :: "int \<Rightarrow> int \<Rightarrow> pc_error + string" where
  "encodeFee f grossAmount =
     (if f < 0 then Inl (MustBeNonnegative ''fee'')
      else if f \<ge> grossAmount then Inl FeeNotBelowGross
      else encodeUint256 f ''fee'')"

definition encodeAddressAsBytes32 :: "string \<Rightarrow> string \<Rightarrow> pc_error + string" where
  "encodeAddressAsBytes32 v name =
     bind_res (requireAddress v name) (\<lambda>a. Inr (''0x'' @ replicate 24 (CHR ''0'') @ drop 2 a))"

definition encodeSupportedChainId :: "jsnum \<Rightarrow> pc_error + string" where
  "encodeSupportedChainId chainId =
     bind_res (requireSupportedMegaEthChainId chainId) (\<lambda>c. encodeUint256 (num_int c) ''chainId'')"

section \<open>Hashing into the field\<close>

definition text_hex :: "string \<Rightarrow> string" where
  "text_hex s = ''0x'' @ concat (map (\<lambda>c. [digit_char (code c div 16), digit_char (code c mod 16)]) s)"

definition hashDomainSeparator :: "viem \<Rightarrow> string \<Rightarrow> string" where
  "hashDomainSeparator V s = keccak V (text_hex s)"

definition reduceKeccakToField :: "string \<Rightarrow> pc_error + string" where
  "reduceKeccakToField h =
     bind_res (requireBytes32 h ''hash'') (\<lambda>b. encodeUint256 (hex_value b mod BN254_SCALAR_FIELD_MODULUS) ''hashField'')"

definition hashAbiEncodedToField :: "viem \<Rightarrow> string \<Rightarrow> pc_error + string" where
  "hashAbiEncodedToField V encoded =
     bind_res (requireHexBytes encoded ''encoded'') (\<lambda>e. reduceKeccakToField (keccak V e))"

definition encode_abi :: "viem \<Rightarrow> abi_value list \<Rightarrow> pc_error + string" where
  "encode_abi V vs = (case abi_encode V vs of None \<Rightarrow> Inl AbiEncodingFailed | Some e \<Rightarrow> Inr e)"

definition PROOF_CONTEXT_V1_DOMAIN_SEPARATOR :: "viem \<Rightarrow> string" where
  "PROOF_CONTEXT_V1_DOMAIN_SEPARATOR V = hashDomainSeparator V ''nullark.proof-context.v1''"
definition PROOF_CONTEXT_V1_SHAPE_WITHDRAW :: "viem \<Rightarrow> string" where
  "PROOF_CONTEXT_V1_SHAPE_WITHDRAW V = hashDomainSeparator V ''withdraw_context_v1_1''"
definition PROOF_CONTEXT_V1_SHAPE_WITHDRAW_V1_2_FEE_GOVERNANCE :: "viem \<Rightarrow> string" where
  "PROOF_CONTEXT_V1_SHAPE_WITHDRAW_V1_2_FEE_GOVERNANCE V =
     hashDomainSeparator V ''withdraw_context_v1_2_fee_governance''"
definition ENCRYPTED_NOTE_V1_DOMAIN_SEPARATOR :: "viem \<Rightarrow> string" where
  "ENCRYPTED_NOTE_V1_DOMAIN_SEPARATOR V = hashDomainSeparator V ''nullark.encrypted-note.v1''"
definition RELAYER_POLICY_V1_DOMAIN_SEPARATOR :: "viem \<Rightarrow> string" where
  "RELAYER_POLICY_V1_DOMAIN_SEPARATOR V = hashDomainSeparator V ''nullark.relayer-policy.v1''"
definition PROOF_CONTEXT_V1_WITHDRAW_RELAYER_POLICY_SELECTOR :: string where
  "PROOF_CONTEXT_V1_WITHDRAW_RELAYER_POLICY_SELECTOR = ''0x6666d824''"
definition PROOF_CONTEXT_V1_WITHDRAW_CHANGE_BOUNDED_SELECTOR :: string where
  "PROOF_CONTEXT_V1_WITHDRAW_CHANGE_BOUNDED_SELECTOR = ''0x678d8506''"

record proof_context_v1 =
  pcx_domainSeparator :: string
  pcx_version :: int
  pcx_chainId :: jsnum
  pcx_pool :: string
  pcx_shape :: string
  pcx_selector :: string
  pcx_root :: string
  pcx_nullifier :: string
  pcx_destination :: string
  pcx_grossAmount :: int
  pcx_fee :: int
  pcx_encryptedNoteHash :: string
  pcx_relayerPolicyHash :: string
  pcx_deadlineOrZero :: int

record encrypted_note_v1 =
  en_domainSeparator :: string
  en_version :: int
  en_chainId :: jsnum
  en_pool :: string
  en_shape :: string
  en_selector :: string
  en_nullifier :: string
  en_commitment :: string
  en_noteAmount :: int
  en_encryptedNote :: string

record relayer_policy_v1 =
  rpv_domainSeparator :: string
  rpv_version :: int
  rpv_relayer :: string
  rpv_minNetAmount :: int
  rpv_maxFeeAmount :: int
  rpv_deadlineOrZero :: int

definition normalizeProofContextV1 :: "proof_context_v1 \<Rightarrow> pc_error + proof_context_v1" where
  "normalizeProofContextV1 c =
     bind_res (requireBytes32 (pcx_domainSeparator c) ''domainSeparator'') (\<lambda>domain.
     bind_res (requireUint256 (pcx_version c) ''version'') (\<lambda>version.
     bind_res (requireSupportedMegaEthChainId (pcx_chainId c)) (\<lambda>chainId.
     bind_res (requireAddress (pcx_pool c) ''pool'') (\<lambda>pool.
     bind_res (requireBytes32 (pcx_shape c) ''shape'') (\<lambda>shape.
     bind_res (requireBytes4 (pcx_selector c) ''selector'') (\<lambda>selector.
     bind_res (requireNonZeroBytes32 (pcx_root c) ''root'') (\<lambda>rt.
     bind_res (requireNonZeroBytes32 (pcx_nullifier c) ''nullifier'') (\<lambda>nullifier.
     bind_res (requireAddressAllowZero (pcx_destination c) ''destination'') (\<lambda>destination.
     bind_res (requireUint256 (pcx_grossAmount c) ''grossAmount'') (\<lambda>grossAmount.
     bind_res (requireUint256 (pcx_fee c) ''fee'') (\<lambda>fee'.
     bind_res (requireBytes32 (pcx_encryptedNoteHash c) ''encryptedNoteHash'') (\<lambda>encryptedNoteHash.
     bind_res (requireBytes32 (pcx_relayerPolicyHash c) ''relayerPolicyHash'') (\<lambda>relayerPolicyHash.
     bind_res (requireUint256 (pcx_deadlineOrZero c) ''deadlineOrZero'') (\<lambda>deadlineOrZero.
       Inr \<lparr>pcx_domainSeparator = domain, pcx_version = version, pcx_chainId = chainId, pcx_pool = pool,
            pcx_shape = shape, pcx_selector = selector, pcx_root = rt, pcx_nullifier = nullifier,
            pcx_destination = destination, pcx_grossAmount = grossAmount, pcx_fee = fee',
            pcx_encryptedNoteHash = encryptedNoteHash, pcx_relayerPolicyHash = relayerPolicyHash,
            pcx_deadlineOrZero = deadlineOrZero\<rparr>))))))))))))))"

definition normalizeEncryptedNoteV1 :: "encrypted_note_v1 \<Rightarrow> pc_error + encrypted_note_v1" where
  "normalizeEncryptedNoteV1 n =
     bind_res (requireBytes32 (en_domainSeparator n) ''domainSeparator'') (\<lambda>domain.
     bind_res (requireUint256 (en_version n) ''version'') (\<lambda>version.
     bind_res (requireSupportedMegaEthChainId (en_chainId n)) (\<lambda>chainId.
     bind_res (requireAddress (en_pool n) ''pool'') (\<lambda>pool.
     bind_res (requireBytes32 (en_shape n) ''shape'') (\<lambda>shape.
     bind_res (requireBytes4 (en_selector n) ''selector'') (\<lambda>selector.
     bind_res (requireNonZeroBytes32 (en_nullifier n) ''nullifier'') (\<lambda>nullifier.
     bind_res (requireBytes32 (en_commitment n) ''commitment'') (\<lambda>commitment.
     bind_res (requireUint256 (en_noteAmount n) ''noteAmount'') (\<lambda>noteAmount.
     bind_res (requireHexBytes (en_encryptedNote n) ''encryptedNote'') (\<lambda>encryptedNote.
       Inr \<lparr>en_domainSeparator = domain, en_version = version, en_chainId = chainId, en_pool = pool,
            en_shape = shape, en_selector = selector, en_nullifier = nullifier, en_commitment = commitment,
            en_noteAmount = noteAmount, en_encryptedNote = encryptedNote\<rparr>))))))))))"

definition normalizeRelayerPolicyV1 :: "relayer_policy_v1 \<Rightarrow> pc_error + relayer_policy_v1" where
  "normalizeRelayerPolicyV1 p =
     bind_res (requireBytes32 (rpv_domainSeparator p) ''domainSeparator'') (\<lambda>domain.
     bind_res (requireUint256 (rpv_version p) ''version'') (\<lambda>version.
     bind_res (requireAddressAllowZero (rpv_relayer p) ''relayer'') (\<lambda>relayer.
     bind_res (requireUint256 (rpv_minNetAmount p) ''minNetAmount'') (\<lambda>minNetAmount.
     bind_res (requireUint256 (rpv_maxFeeAmount p) ''maxFeeAmount'') (\<lambda>maxFeeAmount.
     bind_res (requireUint256 (rpv_deadlineOrZero p) ''deadlineOrZero'') (\<lambda>deadlineOrZero.
       Inr \<lparr>rpv_domainSeparator = domain, rpv_version = version, rpv_relayer = relayer,
            rpv_minNetAmount = minNetAmount, rpv_maxFeeAmount = maxFeeAmount,
            rpv_deadlineOrZero = deadlineOrZero\<rparr>))))))"

text \<open>The \<open>create\<close> functions fill in an absent domain separator and version, then normalise.\<close>

definition or_default :: "'a option \<Rightarrow> 'a \<Rightarrow> 'a" where
  "or_default x d = (case x of None \<Rightarrow> d | Some v \<Rightarrow> v)"

definition createProofContextV1 ::
  "viem \<Rightarrow> string option \<Rightarrow> int option \<Rightarrow> proof_context_v1 \<Rightarrow> pc_error + proof_context_v1" where
  "createProofContextV1 V domain version c =
     normalizeProofContextV1 (c\<lparr>pcx_domainSeparator := or_default domain (PROOF_CONTEXT_V1_DOMAIN_SEPARATOR V),
                                pcx_version := or_default version 1\<rparr>)"

definition createEncryptedNoteV1 ::
  "viem \<Rightarrow> string option \<Rightarrow> int option \<Rightarrow> encrypted_note_v1 \<Rightarrow> pc_error + encrypted_note_v1" where
  "createEncryptedNoteV1 V domain version n =
     normalizeEncryptedNoteV1 (n\<lparr>en_domainSeparator := or_default domain (ENCRYPTED_NOTE_V1_DOMAIN_SEPARATOR V),
                                 en_version := or_default version 1\<rparr>)"

definition createRelayerPolicyV1 ::
  "viem \<Rightarrow> string option \<Rightarrow> int option \<Rightarrow> relayer_policy_v1 \<Rightarrow> pc_error + relayer_policy_v1" where
  "createRelayerPolicyV1 V domain version p =
     normalizeRelayerPolicyV1 (p\<lparr>rpv_domainSeparator := or_default domain (RELAYER_POLICY_V1_DOMAIN_SEPARATOR V),
                                 rpv_version := or_default version 1\<rparr>)"

definition encodeProofContextV1 :: "viem \<Rightarrow> proof_context_v1 \<Rightarrow> pc_error + string" where
  "encodeProofContextV1 V input =
     bind_res (normalizeProofContextV1 input) (\<lambda>c. encode_abi V
       [AbiBytes32 (pcx_domainSeparator c), AbiUint (pcx_version c), AbiUint (num_int (pcx_chainId c)),
        AbiAddress (pcx_pool c), AbiBytes32 (pcx_shape c), AbiBytes4 (pcx_selector c),
        AbiBytes32 (pcx_root c), AbiBytes32 (pcx_nullifier c), AbiAddress (pcx_destination c),
        AbiUint (pcx_grossAmount c), AbiUint (pcx_fee c), AbiBytes32 (pcx_encryptedNoteHash c),
        AbiBytes32 (pcx_relayerPolicyHash c), AbiUint (pcx_deadlineOrZero c)])"

definition hashProofContextV1 :: "viem \<Rightarrow> proof_context_v1 \<Rightarrow> pc_error + string" where
  "hashProofContextV1 V input = bind_res (encodeProofContextV1 V input) (hashAbiEncodedToField V)"

definition encodeEncryptedNoteV1 :: "viem \<Rightarrow> encrypted_note_v1 \<Rightarrow> pc_error + string" where
  "encodeEncryptedNoteV1 V input =
     bind_res (normalizeEncryptedNoteV1 input) (\<lambda>n. encode_abi V
       [AbiBytes32 (en_domainSeparator n), AbiUint (en_version n), AbiUint (num_int (en_chainId n)),
        AbiAddress (en_pool n), AbiBytes32 (en_shape n), AbiBytes4 (en_selector n),
        AbiBytes32 (en_nullifier n), AbiBytes32 (en_commitment n), AbiUint (en_noteAmount n),
        AbiBytes (en_encryptedNote n)])"

definition hashEncryptedNoteV1 :: "viem \<Rightarrow> encrypted_note_v1 \<Rightarrow> pc_error + string" where
  "hashEncryptedNoteV1 V input = bind_res (encodeEncryptedNoteV1 V input) (hashAbiEncodedToField V)"

definition encodeRelayerPolicyV1 :: "viem \<Rightarrow> relayer_policy_v1 \<Rightarrow> pc_error + string" where
  "encodeRelayerPolicyV1 V input =
     bind_res (normalizeRelayerPolicyV1 input) (\<lambda>p. encode_abi V
       [AbiBytes32 (rpv_domainSeparator p), AbiUint (rpv_version p), AbiAddress (rpv_relayer p),
        AbiUint (rpv_minNetAmount p), AbiUint (rpv_maxFeeAmount p), AbiUint (rpv_deadlineOrZero p)])"

definition hashRelayerPolicyV1 :: "viem \<Rightarrow> relayer_policy_v1 \<Rightarrow> pc_error + string" where
  "hashRelayerPolicyV1 V input = bind_res (encodeRelayerPolicyV1 V input) (hashAbiEncodedToField V)"

definition assertProofContextHashMatches :: "viem \<Rightarrow> proof_context_v1 \<Rightarrow> string \<Rightarrow> pc_error + string" where
  "assertProofContextHashMatches V expected actualHash =
     bind_res (requireBytes32 actualHash ''proofContextHash'') (\<lambda>actual.
     bind_res (hashProofContextV1 V expected) (\<lambda>h. if actual \<noteq> h then Inl ProofContextHashMismatch else Inr actual))"

definition assertEncryptedNoteHashMatches :: "viem \<Rightarrow> encrypted_note_v1 \<Rightarrow> string \<Rightarrow> pc_error + string" where
  "assertEncryptedNoteHashMatches V expected actualHash =
     bind_res (requireBytes32 actualHash ''encryptedNoteHash'') (\<lambda>actual.
     bind_res (hashEncryptedNoteV1 V expected) (\<lambda>h. if actual \<noteq> h then Inl EncryptedNoteHashMismatch else Inr actual))"

definition assertRelayerPolicyHashMatches :: "viem \<Rightarrow> relayer_policy_v1 \<Rightarrow> string \<Rightarrow> pc_error + string" where
  "assertRelayerPolicyHashMatches V expected actualHash =
     bind_res (requireBytes32 actualHash ''relayerPolicyHash'') (\<lambda>actual.
     bind_res (hashRelayerPolicyV1 V expected) (\<lambda>h. if actual \<noteq> h then Inl RelayerPolicyHashMismatch else Inr actual))"

section \<open>Public inputs\<close>

record verifier_base =
  vb_root :: string
  vb_nullifier :: string
  vb_chainId :: jsnum
  vb_verifyingContract :: string
  vb_spentCommitment :: string
  vb_noteAmount :: int

datatype verifier_public_inputs =
    PrivateTransfer verifier_base string
  | Withdrawal verifier_base string int int

definition STAGE_A_PUBLIC_INPUT_ORDER :: "string list" where
  "STAGE_A_PUBLIC_INPUT_ORDER = [''root'', ''nullifier'', ''newCommitment'', ''destination'', ''grossAmount'',
     ''fee'', ''chainId'', ''verifyingContract'', ''spentCommitment'', ''noteAmount'']"

definition STAGE_B_PUBLIC_INPUT_ORDER :: "string list" where
  "STAGE_B_PUBLIC_INPUT_ORDER = STAGE_A_PUBLIC_INPUT_ORDER @ [''proofContextHash'', ''encryptedNoteHash'']"

text \<open>A withdrawal carries its destination, gross amount and fee, a private transfer its new commitment.\<close>

fun encodeVerifierPublicInputs :: "verifier_public_inputs \<Rightarrow> pc_error + string list" where
  "encodeVerifierPublicInputs (PrivateTransfer b newCommitment) =
     bind_res (requireNonZeroBytes32 (vb_root b) ''root'') (\<lambda>rt.
     bind_res (requireNonZeroBytes32 (vb_nullifier b) ''nullifier'') (\<lambda>nullifier.
     bind_res (encodeSupportedChainId (vb_chainId b)) (\<lambda>chainId.
     bind_res (encodeAddressAsBytes32 (vb_verifyingContract b) ''verifyingContract'') (\<lambda>contract.
     bind_res (requireNonZeroBytes32 newCommitment ''newCommitment'') (\<lambda>commitment.
     bind_res (requireNonZeroBytes32 (vb_spentCommitment b) ''spentCommitment'') (\<lambda>spent.
     bind_res (encodePositiveUint256 (vb_noteAmount b) ''noteAmount'') (\<lambda>noteAmount.
       Inr [rt, nullifier, commitment, ZERO_BYTES32, ZERO_BYTES32, ZERO_BYTES32, chainId, contract,
            spent, noteAmount])))))))"
| "encodeVerifierPublicInputs (Withdrawal b destination grossAmount fee_amount) =
     bind_res (requireNonZeroBytes32 (vb_root b) ''root'') (\<lambda>rt.
     bind_res (requireNonZeroBytes32 (vb_nullifier b) ''nullifier'') (\<lambda>nullifier.
     bind_res (encodeSupportedChainId (vb_chainId b)) (\<lambda>chainId.
     bind_res (encodeAddressAsBytes32 (vb_verifyingContract b) ''verifyingContract'') (\<lambda>contract.
     bind_res (encodeAddressAsBytes32 destination ''destination'') (\<lambda>dest.
     bind_res (encodePositiveUint256 grossAmount ''grossAmount'') (\<lambda>gross_hex.
     bind_res (encodeFee fee_amount grossAmount) (\<lambda>fee_hex.
     bind_res (requireNonZeroBytes32 (vb_spentCommitment b) ''spentCommitment'') (\<lambda>spent.
     bind_res (encodePositiveUint256 (vb_noteAmount b) ''noteAmount'') (\<lambda>noteAmount.
       Inr [rt, nullifier, ZERO_BYTES32, dest, gross_hex, fee_hex, chainId, contract, spent, noteAmount])))))))))"

definition assertPublicInputs :: "string list \<Rightarrow> string list \<Rightarrow> pc_error + string list" where
  "assertPublicInputs order inputs =
     (if length inputs \<noteq> length order then Inl (WrongPublicInputCount (length order))
      else map_res (\<lambda>(v, name). requireBytes32 v name) (zip inputs order))"

definition assertStageAPublicInputs :: "string list \<Rightarrow> pc_error + string list" where
  "assertStageAPublicInputs = assertPublicInputs STAGE_A_PUBLIC_INPUT_ORDER"

definition assertStageBPublicInputs :: "string list \<Rightarrow> pc_error + string list" where
  "assertStageBPublicInputs = assertPublicInputs STAGE_B_PUBLIC_INPUT_ORDER"

text \<open>The named inputs, in the order of the schema.\<close>

definition nameStageAPublicInputs :: "string list \<Rightarrow> pc_error + (string \<times> string) list" where
  "nameStageAPublicInputs inputs =
     bind_res (assertStageAPublicInputs inputs) (\<lambda>xs. Inr (zip STAGE_A_PUBLIC_INPUT_ORDER xs))"

definition nameStageBPublicInputs :: "string list \<Rightarrow> pc_error + (string \<times> string) list" where
  "nameStageBPublicInputs inputs =
     bind_res (assertStageBPublicInputs inputs) (\<lambda>xs.
     bind_res (nameStageAPublicInputs (take 10 xs)) (\<lambda>named.
       Inr (named @ [(''proofContextHash'', xs ! 10), (''encryptedNoteHash'', xs ! 11)])))"

text \<open>The comparison loop: the first index where the two lists differ is an error.\<close>

fun match_loop :: "string list \<Rightarrow> nat \<Rightarrow> string list \<Rightarrow> string list \<Rightarrow> pc_error + unit" where
  "match_loop (name # names) i (a # as) (e # es) =
     (if a \<noteq> e then Inl (PublicInputMismatch name i) else match_loop names (Suc i) as es)"
| "match_loop _ _ _ _ = Inr ()"

definition assertStageAPublicInputsMatch :: "verifier_public_inputs \<Rightarrow> string list \<Rightarrow> pc_error + string list" where
  "assertStageAPublicInputsMatch expected inputs =
     bind_res (assertStageAPublicInputs inputs) (\<lambda>actual.
     bind_res (encodeVerifierPublicInputs expected) (\<lambda>expectedEncoded.
     bind_res (match_loop STAGE_A_PUBLIC_INPUT_ORDER 0 actual expectedEncoded) (\<lambda>_. Inr actual)))"

definition assertStageBPublicInputsMatch ::
  "verifier_public_inputs \<Rightarrow> string \<Rightarrow> string \<Rightarrow> string list \<Rightarrow> pc_error + string list" where
  "assertStageBPublicInputsMatch expectedBase expectedContextHash expectedNoteHash inputs =
     bind_res (assertStageBPublicInputs inputs) (\<lambda>actual.
     bind_res (encodeVerifierPublicInputs expectedBase) (\<lambda>base.
     bind_res (match_loop STAGE_B_PUBLIC_INPUT_ORDER 0 actual (base @ [expectedContextHash, expectedNoteHash]))
       (\<lambda>_. Inr actual)))"

definition encodeStageBPublicInputs :: "verifier_public_inputs \<Rightarrow> string \<Rightarrow> string \<Rightarrow> pc_error + string list" where
  "encodeStageBPublicInputs base contextHash noteHash =
     bind_res (encodeVerifierPublicInputs base) (\<lambda>xs.
     bind_res (requireBytes32 contextHash ''proofContextHash'') (\<lambda>c.
     bind_res (requireBytes32 noteHash ''encryptedNoteHash'') (\<lambda>n. Inr (xs @ [c, n]))))"

definition assertRootInAcceptedHistory :: "string \<Rightarrow> string list \<Rightarrow> pc_error + string" where
  "assertRootInAcceptedHistory rt acceptedRoots =
     bind_res (requireNonZeroBytes32 rt ''root'') (\<lambda>r.
     bind_res (map_res (\<lambda>a. requireNonZeroBytes32 a ''acceptedRoot'') acceptedRoots) (\<lambda>accepted.
       if r \<notin> set accepted then Inl RootNotAccepted else Inr r))"

section \<open>Withdrawal with private change\<close>

definition calculateWithdrawChangeV1_1Fee :: "int \<Rightarrow> pc_error + int" where
  "calculateWithdrawChangeV1_1Fee grossAmount =
     bind_res (requireUint256 grossAmount ''grossAmount'') (\<lambda>g. Inr (g * 33 div 10000))"

record change_value =
  cv_noteAmount :: int
  cv_grossAmount :: int
  cv_changeAmount :: int
  cv_fee :: int
  cv_netAmount :: int

definition assertWithdrawChangeV1_1ValueConservation ::
  "int \<Rightarrow> int \<Rightarrow> int \<Rightarrow> int \<Rightarrow> pc_error + change_value" where
  "assertWithdrawChangeV1_1ValueConservation noteAmount grossAmount changeAmount fee_amount =
     bind_res (encodePositiveUint256 noteAmount ''noteAmount'') (\<lambda>note_hex.
     bind_res (encodePositiveUint256 grossAmount ''grossAmount'') (\<lambda>gross_hex.
     bind_res (requireUint256 changeAmount ''changeAmount'') (\<lambda>change.
     bind_res (requireUint256 fee_amount ''fee'') (\<lambda>f.
     let noteValue = hex_value note_hex; grossValue = hex_value gross_hex in
     bind_res (calculateWithdrawChangeV1_1Fee grossValue) (\<lambda>expectedFee.
     if change = 0 then Inl ChangeAmountNotPositive
     else if f \<noteq> expectedFee then Inl ChangeFeeFormula
     else if noteValue \<noteq> grossValue + change then Inl ValueNotConserved
     else if f \<ge> grossValue then Inl ChangeFeeNotBelowGross
     else Inr \<lparr>cv_noteAmount = noteValue, cv_grossAmount = grossValue, cv_changeAmount = change,
               cv_fee = f, cv_netAmount = grossValue - f\<rparr>)))))"

record withdraw_change_input =
  wi_root :: string
  wi_nullifier :: string
  wi_newCommitment :: string
  wi_destination :: string
  wi_grossAmount :: int
  wi_fee :: int
  wi_chainId :: jsnum
  wi_pool :: string
  wi_spentCommitment :: string
  wi_noteAmount :: int
  wi_changeAmount :: int
  wi_encryptedChangeNote :: string
  wi_policyDomain :: "string option"
  wi_policyVersion :: "int option"
  wi_relayerPolicy :: relayer_policy_v1
  wi_selector :: "string option"

record withdraw_change =
  wc_selector :: string
  wc_nullifier :: string
  wc_newCommitment :: string
  wc_destination :: string
  wc_value :: change_value
  wc_encryptedChangeNoteEnvelope :: encrypted_note_v1
  wc_relayerPolicy :: relayer_policy_v1
  wc_proofContext :: proof_context_v1
  wc_encryptedNoteHash :: string
  wc_relayerPolicyHash :: string
  wc_proofContextHash :: string
  wc_publicInputs :: "string list"

definition createWithdrawChangeV1_1 :: "viem \<Rightarrow> withdraw_change_input \<Rightarrow> pc_error + withdraw_change" where
  "createWithdrawChangeV1_1 V input =
     bind_res (requireNonZeroBytes32 (wi_root input) ''root'') (\<lambda>rt.
     bind_res (requireNonZeroBytes32 (wi_nullifier input) ''nullifier'') (\<lambda>nullifier.
     bind_res (requireNonZeroBytes32 (wi_newCommitment input) ''newCommitment'') (\<lambda>newCommitment.
     bind_res (requireAddress (wi_destination input) ''destination'') (\<lambda>destination.
     bind_res (requireSupportedMegaEthChainId (wi_chainId input)) (\<lambda>chainId.
     bind_res (requireAddress (wi_pool input) ''pool'') (\<lambda>pool.
     bind_res (requireNonZeroBytes32 (wi_spentCommitment input) ''spentCommitment'') (\<lambda>spent.
     bind_res (requireHexBytes (wi_encryptedChangeNote input) ''encryptedChangeNote'') (\<lambda>changeNote.
     let selector = or_default (wi_selector input) PROOF_CONTEXT_V1_WITHDRAW_CHANGE_BOUNDED_SELECTOR in
     bind_res (assertWithdrawChangeV1_1ValueConservation (wi_noteAmount input) (wi_grossAmount input)
                 (wi_changeAmount input) (wi_fee input)) (\<lambda>val.
     if changeNote = ''0x'' then Inl EncryptedChangeNoteEmpty else
     bind_res (createRelayerPolicyV1 V (wi_policyDomain input) (wi_policyVersion input) (wi_relayerPolicy input)) (\<lambda>policy.
     bind_res (hashRelayerPolicyV1 V policy) (\<lambda>policyHash.
     bind_res (createEncryptedNoteV1 V None None
        \<lparr>en_domainSeparator = [], en_version = 0, en_chainId = chainId, en_pool = pool,
         en_shape = PROOF_CONTEXT_V1_SHAPE_WITHDRAW V, en_selector = selector, en_nullifier = nullifier,
         en_commitment = newCommitment, en_noteAmount = cv_changeAmount val, en_encryptedNote = changeNote\<rparr>) (\<lambda>envelope.
     bind_res (hashEncryptedNoteV1 V envelope) (\<lambda>noteHash.
     bind_res (createProofContextV1 V None None
        \<lparr>pcx_domainSeparator = [], pcx_version = 0, pcx_chainId = chainId, pcx_pool = pool,
         pcx_shape = PROOF_CONTEXT_V1_SHAPE_WITHDRAW V, pcx_selector = selector, pcx_root = rt,
         pcx_nullifier = nullifier, pcx_destination = destination, pcx_grossAmount = cv_grossAmount val,
         pcx_fee = cv_fee val, pcx_encryptedNoteHash = noteHash, pcx_relayerPolicyHash = policyHash,
         pcx_deadlineOrZero = rpv_deadlineOrZero policy\<rparr>) (\<lambda>context.
     bind_res (hashProofContextV1 V context) (\<lambda>contextHash.
     bind_res (encodeAddressAsBytes32 destination ''destination'') (\<lambda>dest_hex.
     bind_res (encodeUint256 (cv_grossAmount val) ''grossAmount'') (\<lambda>gross_hex.
     bind_res (encodeUint256 (cv_fee val) ''fee'') (\<lambda>fee_hex.
     bind_res (encodeSupportedChainId chainId) (\<lambda>chain_hex.
     bind_res (encodeAddressAsBytes32 pool ''pool'') (\<lambda>pool_hex.
     bind_res (encodeUint256 (cv_noteAmount val) ''noteAmount'') (\<lambda>note_hex.
       Inr \<lparr>wc_selector = selector, wc_nullifier = nullifier, wc_newCommitment = newCommitment,
            wc_destination = destination, wc_value = val, wc_encryptedChangeNoteEnvelope = envelope,
            wc_relayerPolicy = policy, wc_proofContext = context, wc_encryptedNoteHash = noteHash,
            wc_relayerPolicyHash = policyHash, wc_proofContextHash = contextHash,
            wc_publicInputs = [rt, nullifier, newCommitment, dest_hex, gross_hex, fee_hex, chain_hex,
              pool_hex, spent, note_hex, contextHash, noteHash]\<rparr>)))))))))))))))))))))"

definition assertWithdrawChangeV1_1PublicInputsMatch ::
  "viem \<Rightarrow> withdraw_change_input \<Rightarrow> string list \<Rightarrow> pc_error + string list" where
  "assertWithdrawChangeV1_1PublicInputsMatch V expected inputs =
     bind_res (assertStageBPublicInputs inputs) (\<lambda>actual.
     bind_res (createWithdrawChangeV1_1 V expected) (\<lambda>w.
     bind_res (match_loop STAGE_B_PUBLIC_INPUT_ORDER 0 actual (wc_publicInputs w)) (\<lambda>_. Inr actual)))"

section \<open>When the checks succeed\<close>

lemma requireBytes32_Inr [res_simps]: "requireBytes32 v name = Inr b \<longleftrightarrow> isHexBytes32 v \<and> b = to_lower v"
  by (auto simp: requireBytes32_def)

lemma requireBytes4_Inr [res_simps]: "requireBytes4 v name = Inr b \<longleftrightarrow> hex_of_length 8 v \<and> b = to_lower v"
  by (auto simp: requireBytes4_def)

lemma requireHexBytes_Inr [res_simps]: "requireHexBytes v name = Inr b \<longleftrightarrow> isHexString v \<and> b = to_lower v"
  by (auto simp: requireHexBytes_def)

lemma requireNonZeroBytes32_Inr [res_simps]:
  "requireNonZeroBytes32 v name = Inr b \<longleftrightarrow> isHexBytes32 v \<and> hex_value v \<noteq> 0 \<and> b = to_lower v"
  by (auto simp: requireNonZeroBytes32_def res_simps bytes32_zero_iff)

lemma requireAddressAllowZero_Inr [res_simps]:
  "requireAddressAllowZero v name = Inr b \<longleftrightarrow> isEvmAddress v \<and> b = to_lower v"
  by (auto simp: requireAddressAllowZero_def)

lemma requireAddress_Inr [res_simps]:
  "requireAddress v name = Inr b \<longleftrightarrow> isEvmAddress v \<and> to_lower v \<noteq> ZERO_ADDRESS \<and> b = to_lower v"
  by (auto simp: requireAddress_def res_simps)

lemma requireUint256_Inr [res_simps]:
  "requireUint256 v name = Inr r \<longleftrightarrow> 0 \<le> v \<and> v < 2 ^ 256 \<and> r = v"
  by (auto simp: requireUint256_def UINT256_MAX_def)

lemma requireSupportedMegaEthChainId_Inr [res_simps]:
  "requireSupportedMegaEthChainId c = Inr r \<longleftrightarrow> (c = jsint 6343 \<or> c = jsint 4326) \<and> r = c"
  by (auto simp: requireSupportedMegaEthChainId_def requirePositiveSafeInteger_def js_defs)

lemma encodeUint256_Inr [res_simps]: "encodeUint256 v name = Inr r \<longleftrightarrow> v < 2 ^ 256 \<and> r = toBytes32 v"
  by (auto simp: encodeUint256_def UINT256_MAX_def toBytes32_def)

lemma encodePositiveUint256_Inr [res_simps]:
  "encodePositiveUint256 v name = Inr r \<longleftrightarrow> 0 < v \<and> v < 2 ^ 256 \<and> r = toBytes32 v"
  by (auto simp: encodePositiveUint256_def res_simps)

lemma encodeFee_Inr [res_simps]:
  "encodeFee f g = Inr r \<longleftrightarrow> 0 \<le> f \<and> f < g \<and> f < 2 ^ 256 \<and> r = toBytes32 f"
  by (auto simp: encodeFee_def res_simps)

lemma encodeSupportedChainId_Inr [res_simps]:
  "encodeSupportedChainId c = Inr r \<longleftrightarrow> (c = jsint 6343 \<or> c = jsint 4326) \<and> r = toBytes32 (num_int c)"
  by (auto simp: encodeSupportedChainId_def res_simps)

definition address_word :: "string \<Rightarrow> string" where
  "address_word a = ''0x'' @ replicate 24 (CHR ''0'') @ drop 2 (to_lower a)"

lemma encodeAddressAsBytes32_Inr [res_simps]:
  "encodeAddressAsBytes32 v name = Inr r \<longleftrightarrow> isEvmAddress v \<and> to_lower v \<noteq> ZERO_ADDRESS \<and> r = address_word v"
  by (auto simp: encodeAddressAsBytes32_def res_simps address_word_def)

lemma address_word_inj:
  assumes "isEvmAddress a" "isEvmAddress b"
  shows "address_word a = address_word b \<longleftrightarrow> to_lower a = to_lower b"
proof -
  obtain s t where "a = ''0x'' @ s" "b = ''0x'' @ t"
    using assms by (meson hex_of_lengthE isEvmAddress_def)
  then show ?thesis by (simp add: address_word_def)
qed

lemma address_word_shape:
  assumes "isEvmAddress a"
  shows "isHexBytes32 (address_word a)" "to_lower (address_word a) = address_word a"
proof -
  obtain t where a: "a = ''0x'' @ t" "length t = 40" "list_all is_hex_char t"
    using assms by (meson hex_of_lengthE isEvmAddress_def)
  moreover have "isEvmAddress (to_lower a)" using assms by simp
  ultimately show "isHexBytes32 (address_word a)"
    by (simp add: address_word_def isHexBytes32_def isEvmAddress_def hex_of_length_def)
  show "to_lower (address_word a) = address_word a"
    by (simp add: address_word_def a(1))
qed

section \<open>Public inputs bind the statement\<close>

text \<open>The statement with its hex strings in lower case, which is what the inputs can determine.\<close>

definition lower_base :: "verifier_base \<Rightarrow> verifier_base" where
  "lower_base b = b\<lparr>vb_root := to_lower (vb_root b), vb_nullifier := to_lower (vb_nullifier b),
     vb_verifyingContract := to_lower (vb_verifyingContract b),
     vb_spentCommitment := to_lower (vb_spentCommitment b)\<rparr>"

fun lower_inputs :: "verifier_public_inputs \<Rightarrow> verifier_public_inputs" where
  "lower_inputs (PrivateTransfer b c) = PrivateTransfer (lower_base b) (to_lower c)"
| "lower_inputs (Withdrawal b d g f) = Withdrawal (lower_base b) (to_lower d) g f"

lemma lower_base_eq_iff: "lower_base a = lower_base b \<longleftrightarrow>
    to_lower (vb_root a) = to_lower (vb_root b) \<and> to_lower (vb_nullifier a) = to_lower (vb_nullifier b) \<and>
    vb_chainId a = vb_chainId b \<and> to_lower (vb_verifyingContract a) = to_lower (vb_verifyingContract b) \<and>
    to_lower (vb_spentCommitment a) = to_lower (vb_spentCommitment b) \<and> vb_noteAmount a = vb_noteAmount b"
  by (cases a; cases b) (auto simp: lower_base_def)

lemma lower_zero_iff: "isHexBytes32 c \<Longrightarrow> hex_value c \<noteq> 0 \<Longrightarrow> to_lower c \<noteq> ZERO_BYTES32"
  by (simp add: bytes32_zero_iff)

lemma chain_word_inj: "c = jsint 6343 \<or> c = jsint 4326 \<Longrightarrow> d = jsint 6343 \<or> d = jsint 4326 \<Longrightarrow>
    toBytes32 (num_int c) = toBytes32 (num_int d) \<longleftrightarrow> c = d"
  by (auto simp: toBytes32_inj)

lemma zero_word: "ZERO_BYTES32 = toBytes32 0"
  by (metis hex_value_ZERO isHexBytes32_ZERO toBytes32_hex_value to_lower_ZERO)

lemma encoded_shape:
  assumes "encodeVerifierPublicInputs v = Inr xs"
  shows "length xs = 10 \<and> list_all isHexBytes32 xs \<and> map to_lower xs = xs"
proof -
  have chain: "0 \<le> num_int c \<and> num_int c < 2 ^ 256" if "c = jsint 6343 \<or> c = jsint 4326" for c
    using that by auto
  show ?thesis
    using assms
    by (cases v) (auto simp: res_simps zero_word toBytes32_shape address_word_shape chain)
qed

definition base_ok :: "verifier_base \<Rightarrow> bool" where
  "base_ok b \<longleftrightarrow> isHexBytes32 (vb_root b) \<and> hex_value (vb_root b) \<noteq> 0 \<and>
     isHexBytes32 (vb_nullifier b) \<and> hex_value (vb_nullifier b) \<noteq> 0 \<and>
     (vb_chainId b = jsint 6343 \<or> vb_chainId b = jsint 4326) \<and>
     isEvmAddress (vb_verifyingContract b) \<and> to_lower (vb_verifyingContract b) \<noteq> ZERO_ADDRESS \<and>
     isHexBytes32 (vb_spentCommitment b) \<and> hex_value (vb_spentCommitment b) \<noteq> 0 \<and>
     0 < vb_noteAmount b \<and> vb_noteAmount b < 2 ^ 256"

lemma encode_transfer_Inr: "encodeVerifierPublicInputs (PrivateTransfer b c) = Inr xs \<longleftrightarrow>
    base_ok b \<and> isHexBytes32 c \<and> hex_value c \<noteq> 0 \<and>
    xs = [to_lower (vb_root b), to_lower (vb_nullifier b), to_lower c, ZERO_BYTES32, ZERO_BYTES32, ZERO_BYTES32,
      toBytes32 (num_int (vb_chainId b)), address_word (vb_verifyingContract b),
      to_lower (vb_spentCommitment b), toBytes32 (vb_noteAmount b)]"
  by (auto simp: res_simps base_ok_def)

lemma encode_withdrawal_Inr: "encodeVerifierPublicInputs (Withdrawal b d g f) = Inr xs \<longleftrightarrow>
    base_ok b \<and> isEvmAddress d \<and> to_lower d \<noteq> ZERO_ADDRESS \<and> 0 \<le> f \<and> f < g \<and> g < 2 ^ 256 \<and>
    xs = [to_lower (vb_root b), to_lower (vb_nullifier b), ZERO_BYTES32, address_word d, toBytes32 g, toBytes32 f,
      toBytes32 (num_int (vb_chainId b)), address_word (vb_verifyingContract b),
      to_lower (vb_spentCommitment b), toBytes32 (vb_noteAmount b)]"
  by (auto simp: res_simps base_ok_def)

lemma base_inj: "base_ok a \<Longrightarrow> base_ok b \<Longrightarrow> to_lower (vb_root a) = to_lower (vb_root b) \<Longrightarrow>
    to_lower (vb_nullifier a) = to_lower (vb_nullifier b) \<Longrightarrow>
    toBytes32 (num_int (vb_chainId a)) = toBytes32 (num_int (vb_chainId b)) \<Longrightarrow>
    address_word (vb_verifyingContract a) = address_word (vb_verifyingContract b) \<Longrightarrow>
    to_lower (vb_spentCommitment a) = to_lower (vb_spentCommitment b) \<Longrightarrow>
    toBytes32 (vb_noteAmount a) = toBytes32 (vb_noteAmount b) \<Longrightarrow> lower_base a = lower_base b"
  unfolding base_ok_def lower_base_eq_iff
  using address_word_inj chain_word_inj [of "vb_chainId a" "vb_chainId b"]
    toBytes32_inj [of "vb_noteAmount a" "vb_noteAmount b"]
  by simp

lemma encoded_kinds: "encodeVerifierPublicInputs (PrivateTransfer b c) = Inr xs \<Longrightarrow>
    encodeVerifierPublicInputs (Withdrawal b' d g f) \<noteq> Inr xs"
  unfolding encode_transfer_Inr encode_withdrawal_Inr
  using lower_zero_iff [of c] by simp

lemma encoded_injective:
  assumes "encodeVerifierPublicInputs v = Inr xs" "encodeVerifierPublicInputs w = Inr xs"
  shows "lower_inputs v = lower_inputs w"
proof (cases v)
  case transfer: (PrivateTransfer b c)
  with assms encoded_kinds obtain b' c' where w: "w = PrivateTransfer b' c'"
    by (cases w) (auto simp del: encodeVerifierPublicInputs.simps)
  show ?thesis
    using assms base_inj [of b b'] unfolding transfer w encode_transfer_Inr by simp
next
  case withdrawal: (Withdrawal b d g f)
  with assms encoded_kinds obtain b' d' g' f' where w: "w = Withdrawal b' d' g' f'"
    by (cases w) (auto simp del: encodeVerifierPublicInputs.simps)
  show ?thesis
    using assms base_inj [of b b'] address_word_inj [of d d'] toBytes32_inj [of g g'] toBytes32_inj [of f f']
    unfolding withdrawal w encode_withdrawal_Inr by simp
qed

lemma match_loop_Inr: "length as = length names \<Longrightarrow> length es = length names \<Longrightarrow>
    match_loop names i as es = Inr () \<longleftrightarrow> as = es"
  by (induction names i as es rule: match_loop.induct) auto

lemma assertPublicInputs_Inr: "assertPublicInputs order xs = Inr ys \<longleftrightarrow>
    length xs = length order \<and> list_all isHexBytes32 xs \<and> ys = map to_lower xs"
  by (auto simp: assertPublicInputs_def res_simps map_res_Inr_iff list_all2_conv_all_nth list_all_length
      intro: nth_equalityI)

lemma order_lengths [simp]: "length STAGE_A_PUBLIC_INPUT_ORDER = 10" "length STAGE_B_PUBLIC_INPUT_ORDER = 12"
  by (simp_all add: STAGE_A_PUBLIC_INPUT_ORDER_def STAGE_B_PUBLIC_INPUT_ORDER_def)

lemma stage_a_match_Inr: "assertStageAPublicInputsMatch v inputs = Inr ys \<longleftrightarrow>
    list_all isHexBytes32 inputs \<and> ys = map to_lower inputs \<and> encodeVerifierPublicInputs v = Inr ys"
proof (cases "encodeVerifierPublicInputs v")
  case (Inr xs)
  then have "length xs = 10" using encoded_shape by blast
  with Inr show ?thesis
    by (auto simp: assertStageAPublicInputsMatch_def assertStageAPublicInputs_def res_simps
        assertPublicInputs_Inr match_loop_Inr)
qed (auto simp: assertStageAPublicInputsMatch_def res_simps)

lemma stage_b_match_Inr: "assertStageBPublicInputsMatch v c n inputs = Inr ys \<longleftrightarrow>
    list_all isHexBytes32 inputs \<and> ys = map to_lower inputs \<and>
    (\<exists>base. encodeVerifierPublicInputs v = Inr base \<and> ys = base @ [c, n])"
proof (cases "encodeVerifierPublicInputs v")
  case (Inr xs)
  then have l: "length xs = 10" using encoded_shape by blast
  have "length inputs = 12" if "map to_lower inputs = xs @ [c, n]"
    using arg_cong [OF that, of length] l by simp
  with Inr l show ?thesis
    by (auto simp: assertStageBPublicInputsMatch_def assertStageBPublicInputs_def res_simps
        assertPublicInputs_Inr match_loop_Inr)
qed (auto simp: assertStageBPublicInputsMatch_def res_simps)

section \<open>Normal forms and hashes\<close>

lemma normal_context_idem: "normalizeProofContextV1 c = Inr n \<Longrightarrow> normalizeProofContextV1 n = Inr n"
  unfolding normalizeProofContextV1_def by (auto simp: res_simps hex_of_length_lower)

lemma normal_note_idem: "normalizeEncryptedNoteV1 c = Inr n \<Longrightarrow> normalizeEncryptedNoteV1 n = Inr n"
  unfolding normalizeEncryptedNoteV1_def by (auto simp: res_simps hex_of_length_lower)

lemma normal_policy_idem: "normalizeRelayerPolicyV1 c = Inr n \<Longrightarrow> normalizeRelayerPolicyV1 n = Inr n"
  unfolding normalizeRelayerPolicyV1_def by (auto simp: res_simps)

definition field_word :: "string \<Rightarrow> bool" where
  "field_word h \<longleftrightarrow> (\<exists>x. 0 \<le> x \<and> x < BN254_SCALAR_FIELD_MODULUS \<and> h = toBytes32 x)"

lemma field_word_shape:
  assumes "field_word h"
  shows "isHexBytes32 h" "to_lower h = h" "hex_value h < BN254_SCALAR_FIELD_MODULUS"
proof -
  obtain x where x: "0 \<le> x" "x < BN254_SCALAR_FIELD_MODULUS" "h = toBytes32 x"
    using assms by (auto simp: field_word_def)
  then have "x < 2 ^ 256" by (simp add: BN254_SCALAR_FIELD_MODULUS_def)
  with x show "isHexBytes32 h" "to_lower h = h" "hex_value h < BN254_SCALAR_FIELD_MODULUS"
    by (simp_all add: toBytes32_shape)
qed

lemma field_word_mod [simp]: "field_word (toBytes32 (x mod BN254_SCALAR_FIELD_MODULUS))"
proof -
  have "0 < BN254_SCALAR_FIELD_MODULUS" by (simp add: BN254_SCALAR_FIELD_MODULUS_def)
  then have "0 \<le> x mod BN254_SCALAR_FIELD_MODULUS \<and> x mod BN254_SCALAR_FIELD_MODULUS < BN254_SCALAR_FIELD_MODULUS"
    by simp
  then show ?thesis unfolding field_word_def by blast
qed

lemma hashAbiEncodedToField_Inr: "hashAbiEncodedToField V e = Inr h \<Longrightarrow> field_word h"
  by (auto simp: hashAbiEncodedToField_def reduceKeccakToField_def res_simps)

lemma context_hash_field: "hashProofContextV1 V c = Inr h \<Longrightarrow> field_word h"
  by (auto simp: hashProofContextV1_def res_simps intro: hashAbiEncodedToField_Inr)

lemma note_hash_field: "hashEncryptedNoteV1 V c = Inr h \<Longrightarrow> field_word h"
  by (auto simp: hashEncryptedNoteV1_def res_simps intro: hashAbiEncodedToField_Inr)

lemma policy_hash_field: "hashRelayerPolicyV1 V c = Inr h \<Longrightarrow> field_word h"
  by (auto simp: hashRelayerPolicyV1_def res_simps intro: hashAbiEncodedToField_Inr)

section \<open>The withdrawal with change\<close>

lemma change_value_Inr: "assertWithdrawChangeV1_1ValueConservation n g c f = Inr r \<longleftrightarrow>
    0 < g \<and> 0 < c \<and> n = g + c \<and> n < 2 ^ 256 \<and> f = g * 33 div 10000 \<and>
    r = \<lparr>cv_noteAmount = n, cv_grossAmount = g, cv_changeAmount = c, cv_fee = f, cv_netAmount = g - f\<rparr>"
  (is "?l \<longleftrightarrow> ?r")
proof
  assume ?l then show ?r
    by (auto simp: assertWithdrawChangeV1_1ValueConservation_def calculateWithdrawChangeV1_1Fee_def
        Let_def res_simps)
next
  assume r: ?r
  then have "g * 33 div 10000 < g" "0 \<le> g * 33 div 10000" by linarith+
  with r show ?l
    by (simp add: assertWithdrawChangeV1_1ValueConservation_def calculateWithdrawChangeV1_1Fee_def
        Let_def res_simps)
qed

text \<open>What a successful construction has computed.\<close>

lemma createWithdrawChange_Inr:
  assumes "createWithdrawChangeV1_1 V i = Inr w"
  shows "wi_noteAmount i = wi_grossAmount i + wi_changeAmount i \<and>
    0 < wi_grossAmount i \<and>
    0 < wi_changeAmount i \<and>
    wi_noteAmount i < 2 ^ 256 \<and>
    wi_fee i = wi_grossAmount i * 33 div 10000 \<and>
    wc_value w = \<lparr>cv_noteAmount = wi_noteAmount i, cv_grossAmount = wi_grossAmount i,
       cv_changeAmount = wi_changeAmount i, cv_fee = wi_fee i, cv_netAmount = wi_grossAmount i - wi_fee i\<rparr> \<and>
    isHexBytes32 (wi_root i) \<and>
    isHexBytes32 (wi_nullifier i) \<and>
    isHexBytes32 (wi_newCommitment i) \<and>
    isHexBytes32 (wi_spentCommitment i) \<and>
    isEvmAddress (wi_destination i) \<and>
    isEvmAddress (wi_pool i) \<and>
    (wi_chainId i = jsint 6343 \<or> wi_chainId i = jsint 4326) \<and>
    hashRelayerPolicyV1 V (wc_relayerPolicy w) = Inr (wc_relayerPolicyHash w) \<and>
    hashEncryptedNoteV1 V (wc_encryptedChangeNoteEnvelope w) = Inr (wc_encryptedNoteHash w) \<and>
    hashProofContextV1 V (wc_proofContext w) = Inr (wc_proofContextHash w) \<and>
    wc_publicInputs w = [to_lower (wi_root i), to_lower (wi_nullifier i), to_lower (wi_newCommitment i),
       address_word (wi_destination i), toBytes32 (wi_grossAmount i), toBytes32 (wi_fee i),
       toBytes32 (num_int (wi_chainId i)), address_word (wi_pool i), to_lower (wi_spentCommitment i),
       toBytes32 (wi_noteAmount i), wc_proofContextHash w, wc_encryptedNoteHash w]"
  using assms unfolding createWithdrawChangeV1_1_def Let_def
  apply (elim res_elims)
  apply (simp_all add: res_simps change_value_Inr address_word_def)
  done

lemma createProofContext_fields:
  assumes "createProofContextV1 V d v c = Inr n"
  shows "pcx_encryptedNoteHash n = to_lower (pcx_encryptedNoteHash c) \<and>
    pcx_relayerPolicyHash n = to_lower (pcx_relayerPolicyHash c) \<and> pcx_deadlineOrZero n = pcx_deadlineOrZero c \<and>
    pcx_grossAmount n = pcx_grossAmount c \<and> pcx_fee n = pcx_fee c \<and> pcx_root n = to_lower (pcx_root c) \<and>
    pcx_nullifier n = to_lower (pcx_nullifier c) \<and> pcx_destination n = to_lower (pcx_destination c)"
  using assms unfolding createProofContextV1_def normalizeProofContextV1_def by (auto simp: res_simps)

lemma createEncryptedNote_fields:
  assumes "createEncryptedNoteV1 V d v c = Inr n"
  shows "en_commitment n = to_lower (en_commitment c) \<and> en_nullifier n = to_lower (en_nullifier c) \<and>
    en_noteAmount n = en_noteAmount c"
  using assms unfolding createEncryptedNoteV1_def normalizeEncryptedNoteV1_def by (auto simp: res_simps)

lemma createWithdrawChange_bound:
  assumes "createWithdrawChangeV1_1 V i = Inr w"
  shows "pcx_encryptedNoteHash (wc_proofContext w) = wc_encryptedNoteHash w \<and>
    pcx_relayerPolicyHash (wc_proofContext w) = wc_relayerPolicyHash w \<and>
    pcx_deadlineOrZero (wc_proofContext w) = rpv_deadlineOrZero (wc_relayerPolicy w) \<and>
    pcx_grossAmount (wc_proofContext w) = wi_grossAmount i \<and> pcx_fee (wc_proofContext w) = wi_fee i \<and>
    pcx_root (wc_proofContext w) = to_lower (wi_root i) \<and>
    pcx_nullifier (wc_proofContext w) = to_lower (wi_nullifier i) \<and>
    pcx_destination (wc_proofContext w) = to_lower (wi_destination i) \<and>
    en_commitment (wc_encryptedChangeNoteEnvelope w) = to_lower (wi_newCommitment i) \<and>
    en_nullifier (wc_encryptedChangeNoteEnvelope w) = to_lower (wi_nullifier i) \<and>
    en_noteAmount (wc_encryptedChangeNoteEnvelope w) = wi_changeAmount i"
  using assms unfolding createWithdrawChangeV1_1_def Let_def
  apply (elim res_elims)
  apply (frule note_hash_field, frule policy_hash_field)
  apply (drule createProofContext_fields, drule createEncryptedNote_fields)
  apply (simp add: res_simps change_value_Inr field_word_shape)
  done

section \<open>Properties\<close>

lemma lower_inputs_encode:
  assumes "lower_inputs v = lower_inputs w" "encodeVerifierPublicInputs v = Inr xs"
    "encodeVerifierPublicInputs w = Inr ys"
  shows "xs = ys"
  using assms
  by (cases v; cases w)
    (simp_all add: encode_transfer_Inr encode_withdrawal_Inr lower_base_eq_iff address_word_def
      del: encodeVerifierPublicInputs.simps)

lemma stage_b_encode_Inr: "encodeStageBPublicInputs v c n = Inr xs \<longleftrightarrow>
    (\<exists>base. encodeVerifierPublicInputs v = Inr base \<and> isHexBytes32 c \<and> isHexBytes32 n \<and>
      xs = base @ [to_lower c, to_lower n])"
  by (auto simp: encodeStageBPublicInputs_def res_simps)

text \<open>
  The ten public inputs bind the statement they encode: they pass the Stage A check for that
  statement, and any statement they pass the check for is the same one, with the same root,
  nullifier, commitment or destination, amounts, fee, chain, contract and note, up to the case of
  hex digits; a transfer is never taken for a withdrawal.
\<close>

theorem public_inputs_bind:
  assumes "encodeVerifierPublicInputs v = Inr xs"
  shows "assertStageAPublicInputsMatch v xs = Inr xs \<and>
    (\<forall>w ys. assertStageAPublicInputsMatch w xs = Inr ys \<longrightarrow> ys = xs \<and> lower_inputs w = lower_inputs v) \<and>
    (\<forall>w ys. lower_inputs w = lower_inputs v \<and> encodeVerifierPublicInputs w = Inr ys \<longrightarrow> ys = xs)"
proof (intro conjI allI impI)
  have shape: "list_all isHexBytes32 xs" "map to_lower xs = xs"
    using encoded_shape [OF assms] by blast+
  then show "assertStageAPublicInputsMatch v xs = Inr xs"
    using assms by (simp only: stage_a_match_Inr)
  fix w ys
  have enc: "ys = xs \<and> encodeVerifierPublicInputs w = Inr xs" if "assertStageAPublicInputsMatch w xs = Inr ys"
    using that shape(2) unfolding stage_a_match_Inr by simp
  show "ys = xs" "lower_inputs w = lower_inputs v" if "assertStageAPublicInputsMatch w xs = Inr ys"
    using enc [OF that] encoded_injective [OF _ assms] by blast+
  show "ys = xs" if "lower_inputs w = lower_inputs v \<and> encodeVerifierPublicInputs w = Inr ys"
    using that assms lower_inputs_encode by blast
qed

definition sample_addr :: string where
  "sample_addr = ''0x'' @ replicate 40 (CHR ''a'')"

definition sample_base :: verifier_base where
  "sample_base = \<lparr>vb_root = toBytes32 11, vb_nullifier = toBytes32 12, vb_chainId = jsint 6343,
     vb_verifyingContract = sample_addr, vb_spentCommitment = toBytes32 13,
     vb_noteAmount = 30000\<rparr>"

lemma sample_address: "isEvmAddress sample_addr" "to_lower sample_addr = sample_addr" "sample_addr \<noteq> ZERO_ADDRESS"
proof -
  have a: "is_hex_char (CHR ''a'')" "lower_char (CHR ''a'') = CHR ''a''" by code_simp+
  show "isEvmAddress sample_addr" "to_lower sample_addr = sample_addr"
    by (simp_all add: sample_addr_def isEvmAddress_def hex_of_length_def a)
  have "replicate 40 (CHR ''a'') \<noteq> replicate 40 (CHR ''0'')"
    by (simp only: replicate_eq_replicate) simp
  then show "sample_addr \<noteq> ZERO_ADDRESS"
    by (simp add: sample_addr_def ZERO_ADDRESS_def)
qed

lemma sample_base_ok: "base_ok sample_base"
  using sample_address by (simp add: base_ok_def sample_base_def toBytes32_shape)

lemma public_inputs_bind_witness:
  "\<exists>xs. encodeVerifierPublicInputs (PrivateTransfer sample_base (toBytes32 14)) = Inr xs \<and>
     assertStageAPublicInputsMatch (PrivateTransfer sample_base (toBytes32 14)) xs = Inr xs"
proof -
  obtain xs where "encodeVerifierPublicInputs (PrivateTransfer sample_base (toBytes32 14)) = Inr xs"
    using sample_base_ok by (auto simp: encode_transfer_Inr toBytes32_shape simp del: encodeVerifierPublicInputs.simps)
  with public_inputs_bind [OF this] show ?thesis by blast
qed

text \<open>
  Stage B adds the two hashes to what the inputs bind: the encoded inputs pass the check for
  the statement and the hashes in lower case, and no other statement or hashes; a check called with
  a hash that has a capital hex digit, which the encoder accepts, never succeeds.
\<close>

theorem stage_b_inputs_bind:
  assumes "encodeStageBPublicInputs v c n = Inr xs"
  shows "assertStageBPublicInputsMatch v (to_lower c) (to_lower n) xs = Inr xs \<and>
    (\<forall>w c' n' ys. assertStageBPublicInputsMatch w c' n' xs = Inr ys \<longrightarrow>
       lower_inputs w = lower_inputs v \<and> c' = to_lower c \<and> n' = to_lower n) \<and>
    (to_lower c \<noteq> c \<or> to_lower n \<noteq> n \<longrightarrow> (\<forall>w inputs ys. assertStageBPublicInputsMatch w c n inputs \<noteq> Inr ys))"
proof -
  obtain base where base: "encodeVerifierPublicInputs v = Inr base" "isHexBytes32 c" "isHexBytes32 n"
    "xs = base @ [to_lower c, to_lower n]"
    using assms by (auto simp: stage_b_encode_Inr)
  then have shape: "list_all isHexBytes32 xs" "map to_lower xs = xs"
    using encoded_shape [OF base(1)] by auto
  have own: "assertStageBPublicInputsMatch v (to_lower c) (to_lower n) xs = Inr xs"
    using shape base unfolding stage_b_match_Inr by metis
  have other: "lower_inputs w = lower_inputs v \<and> c' = to_lower c \<and> n' = to_lower n"
    if "assertStageBPublicInputsMatch w c' n' xs = Inr ys" for w c' n' ys
  proof -
    have "\<exists>base'. encodeVerifierPublicInputs w = Inr base' \<and> xs = base' @ [c', n']"
      using that unfolding stage_b_match_Inr shape(2) by blast
    then obtain base' where "encodeVerifierPublicInputs w = Inr base'" "xs = base' @ [c', n']" by blast
    with base encoded_injective [of w base v] show ?thesis by simp
  qed
  have lower: "to_lower c' = c' \<and> to_lower n' = n'"
    if m: "assertStageBPublicInputsMatch w c' n' inputs = Inr ys" for w c' n' inputs ys
  proof -
    obtain b where b: "map to_lower inputs = b @ [c', n']"
      using m unfolding stage_b_match_Inr by auto
    then have "map to_lower (map to_lower inputs) = map to_lower (b @ [c', n'])" by simp
    then have "map to_lower inputs = map to_lower (b @ [c', n'])" by (simp add: comp_def)
    then show ?thesis unfolding b by simp
  qed
  show ?thesis
    using own other lower by blast
qed

lemma stage_b_inputs_bind_witness:
  "\<exists>xs. encodeStageBPublicInputs (PrivateTransfer sample_base (toBytes32 14)) (toBytes32 15) (toBytes32 16) = Inr xs \<and>
     assertStageBPublicInputsMatch (PrivateTransfer sample_base (toBytes32 14)) (toBytes32 15) (toBytes32 16) xs = Inr xs"
proof -
  obtain xs where xs: "encodeStageBPublicInputs (PrivateTransfer sample_base (toBytes32 14)) (toBytes32 15) (toBytes32 16) = Inr xs"
    using sample_base_ok
    by (simp add: stage_b_encode_Inr encode_transfer_Inr toBytes32_shape del: encodeVerifierPublicInputs.simps)
  with stage_b_inputs_bind [OF this] show ?thesis by simp
qed

text \<open>
  The hash of a context identifies it up to the case of hex digits: a context that can be hashed
  has a normal form with the same hash, the hash is a canonical field element, and the check of a
  claimed hash succeeds exactly for that number.
\<close>

theorem context_hash_normal:
  assumes "hashProofContextV1 V c = Inr h"
  shows "(\<exists>n. normalizeProofContextV1 c = Inr n \<and> normalizeProofContextV1 n = Inr n \<and> hashProofContextV1 V n = Inr h) \<and>
    isHexBytes32 h \<and> hex_value h < BN254_SCALAR_FIELD_MODULUS \<and>
    (\<forall>actual r. assertProofContextHashMatches V c actual = Inr r \<longleftrightarrow>
       isHexBytes32 actual \<and> hex_value actual = hex_value h \<and> r = h)"
proof (intro conjI allI)
  have field: "field_word h" by (rule context_hash_field [OF assms])
  note shape = field_word_shape [OF field]
  show "isHexBytes32 h" "hex_value h < BN254_SCALAR_FIELD_MODULUS" by (fact shape)+
  obtain n where n: "normalizeProofContextV1 c = Inr n"
    using assms by (auto simp: hashProofContextV1_def encodeProofContextV1_def res_simps)
  with normal_context_idem have "normalizeProofContextV1 n = Inr n" by blast
  with n assms have "hashProofContextV1 V n = Inr h"
    by (simp add: hashProofContextV1_def encodeProofContextV1_def)
  with n \<open>normalizeProofContextV1 n = Inr n\<close>
  show "\<exists>n. normalizeProofContextV1 c = Inr n \<and> normalizeProofContextV1 n = Inr n \<and> hashProofContextV1 V n = Inr h"
    by blast
  fix actual r
  have "to_lower actual = h \<longleftrightarrow> hex_value actual = hex_value h" if "isHexBytes32 actual"
    using bytes32_eq_lower_iff [OF that shape(1)] shape(2) by simp
  then show "assertProofContextHashMatches V c actual = Inr r \<longleftrightarrow>
      isHexBytes32 actual \<and> hex_value actual = hex_value h \<and> r = h"
    using assms by (auto simp: assertProofContextHashMatches_def res_simps)
qed

text \<open>
  C31: A withdrawal with change that is constructed conserves value and is bound by its hashes: the
  note is the gross amount plus a positive change, the fee is 33 basis points of the gross amount
  rounded down; the context commits to the note envelope's hash, the policy's hash and deadline and
  the amounts, and the envelope to the change commitment and amount. Its twelve public inputs pass
  the check against the same input.
\<close>

theorem withdraw_change_sound:
  assumes "createWithdrawChangeV1_1 V i = Inr w"
  shows "wi_noteAmount i = wi_grossAmount i + wi_changeAmount i \<and> 0 < wi_changeAmount i \<and>
    wi_fee i = wi_grossAmount i * 33 div 10000 \<and> cv_netAmount (wc_value w) + wi_fee i = wi_grossAmount i \<and>
    0 < cv_netAmount (wc_value w) \<and>
    hashProofContextV1 V (wc_proofContext w) = Inr (wc_proofContextHash w) \<and>
    hashEncryptedNoteV1 V (wc_encryptedChangeNoteEnvelope w) = Inr (pcx_encryptedNoteHash (wc_proofContext w)) \<and>
    hashRelayerPolicyV1 V (wc_relayerPolicy w) = Inr (pcx_relayerPolicyHash (wc_proofContext w)) \<and>
    pcx_deadlineOrZero (wc_proofContext w) = rpv_deadlineOrZero (wc_relayerPolicy w) \<and>
    pcx_grossAmount (wc_proofContext w) = wi_grossAmount i \<and> pcx_fee (wc_proofContext w) = wi_fee i \<and>
    pcx_nullifier (wc_proofContext w) = to_lower (wi_nullifier i) \<and>
    pcx_destination (wc_proofContext w) = to_lower (wi_destination i) \<and>
    en_commitment (wc_encryptedChangeNoteEnvelope w) = to_lower (wi_newCommitment i) \<and>
    en_noteAmount (wc_encryptedChangeNoteEnvelope w) = wi_changeAmount i \<and>
    assertWithdrawChangeV1_1PublicInputsMatch V i (wc_publicInputs w) = Inr (wc_publicInputs w)"
proof -
  note made = createWithdrawChange_Inr [OF assms] and bound = createWithdrawChange_bound [OF assms]
  have words: "field_word (wc_proofContextHash w)" "field_word (wc_encryptedNoteHash w)"
    using made context_hash_field note_hash_field by blast+
  have amounts: "0 \<le> wi_fee i" "wi_fee i < wi_grossAmount i" "wi_grossAmount i < 2 ^ 256" "0 < wi_noteAmount i"
    using made by linarith+
  have chain: "0 \<le> num_int (wi_chainId i)" "num_int (wi_chainId i) < 2 ^ 256"
    using made by auto
  have inputs: "list_all isHexBytes32 (wc_publicInputs w)" "map to_lower (wc_publicInputs w) = wc_publicInputs w"
    "length (wc_publicInputs w) = 12"
    using made words amounts chain by (simp_all add: toBytes32_shape address_word_shape field_word_shape)
  then have "assertWithdrawChangeV1_1PublicInputsMatch V i (wc_publicInputs w) = Inr (wc_publicInputs w)"
    by (simp add: assertWithdrawChangeV1_1PublicInputsMatch_def assertStageBPublicInputs_def res_simps
        assertPublicInputs_Inr assms match_loop_Inr)
  with made bound amounts show ?thesis by simp
qed

text \<open>A concrete library: a constant hash and an empty encoding, enough to run every function.\<close>

definition sample_viem :: viem where
  "sample_viem = \<lparr>keccak = \<lambda>_. toBytes32 7, abi_encode = \<lambda>_. Some ''0x''\<rparr>"

definition sample_change :: withdraw_change_input where
  "sample_change = \<lparr>wi_root = toBytes32 11, wi_nullifier = toBytes32 12, wi_newCommitment = toBytes32 14,
     wi_destination = sample_addr, wi_grossAmount = 20000, wi_fee = 66,
     wi_chainId = jsint 6343, wi_pool = sample_addr, wi_spentCommitment = toBytes32 13,
     wi_noteAmount = 30000, wi_changeAmount = 10000, wi_encryptedChangeNote = ''0x00'',
     wi_policyDomain = None, wi_policyVersion = None,
     wi_relayerPolicy = \<lparr>rpv_domainSeparator = [], rpv_version = 0,
       rpv_relayer = sample_addr, rpv_minNetAmount = 1, rpv_maxFeeAmount = 100,
       rpv_deadlineOrZero = 0\<rparr>,
     wi_selector = None\<rparr>"

lemma sample_hex: "isHexString ''0x''" "isHexString ''0x00''" "to_lower ''0x00'' = ''0x00''"
    "hex_of_length 8 PROOF_CONTEXT_V1_WITHDRAW_CHANGE_BOUNDED_SELECTOR"
  by code_simp+

lemma sample_hash: "hashAbiEncodedToField sample_viem ''0x'' = Inr (toBytes32 7)"
  by (simp add: hashAbiEncodedToField_def reduceKeccakToField_def res_simps sample_hex sample_viem_def
      toBytes32_shape BN254_SCALAR_FIELD_MODULUS_def)

lemma sample_hashes:
  "hashRelayerPolicyV1 sample_viem p = bind_res (normalizeRelayerPolicyV1 p) (\<lambda>_. Inr (toBytes32 7))"
  "hashEncryptedNoteV1 sample_viem e = bind_res (normalizeEncryptedNoteV1 e) (\<lambda>_. Inr (toBytes32 7))"
  "hashProofContextV1 sample_viem c = bind_res (normalizeProofContextV1 c) (\<lambda>_. Inr (toBytes32 7))"
  by (simp_all add: hashRelayerPolicyV1_def hashEncryptedNoteV1_def hashProofContextV1_def encodeRelayerPolicyV1_def
      encodeEncryptedNoteV1_def encodeProofContextV1_def bind_res_assoc encode_abi_def)
     (simp_all add: sample_viem_def flip: sample_hash)

lemma sample_domains: "hashDomainSeparator sample_viem t = toBytes32 7"
  by (simp add: hashDomainSeparator_def sample_viem_def)

lemmas change_eval = res_simps change_value_Inr toBytes32_shape sample_address sample_hex sample_hashes
  or_default_def sample_domains PROOF_CONTEXT_V1_DOMAIN_SEPARATOR_def ENCRYPTED_NOTE_V1_DOMAIN_SEPARATOR_def
  RELAYER_POLICY_V1_DOMAIN_SEPARATOR_def PROOF_CONTEXT_V1_SHAPE_WITHDRAW_def createRelayerPolicyV1_def
  createEncryptedNoteV1_def createProofContextV1_def normalizeRelayerPolicyV1_def
  normalizeEncryptedNoteV1_def normalizeProofContextV1_def hex_of_length_lower

lemma sample_change_made: "\<exists>w. createWithdrawChangeV1_1 sample_viem sample_change = Inr w"
  unfolding createWithdrawChangeV1_1_def Let_def sample_change_def
  by (simp add: change_eval)

lemma withdraw_change_sound_witness:
  "\<exists>w. createWithdrawChangeV1_1 sample_viem sample_change = Inr w \<and> cv_netAmount (wc_value w) + 66 = 20000 \<and>
     assertWithdrawChangeV1_1PublicInputsMatch sample_viem sample_change (wc_publicInputs w) = Inr (wc_publicInputs w)"
proof -
  obtain w where w: "createWithdrawChangeV1_1 sample_viem sample_change = Inr w"
    using sample_change_made by blast
  have "wi_fee sample_change = 66" "wi_grossAmount sample_change = 20000" by (simp_all add: sample_change_def)
  with w withdraw_change_sound [OF w] show ?thesis by metis
qed

lemma context_hash_normal_witness:
  "\<exists>w h. createWithdrawChangeV1_1 sample_viem sample_change = Inr w \<and>
     hashProofContextV1 sample_viem (wc_proofContext w) = Inr h \<and> isHexBytes32 h"
proof -
  obtain w where w: "createWithdrawChangeV1_1 sample_viem sample_change = Inr w"
    using sample_change_made by blast
  then have h: "hashProofContextV1 sample_viem (wc_proofContext w) = Inr (wc_proofContextHash w)"
    using createWithdrawChange_Inr by blast
  with w context_hash_normal [OF h] show ?thesis by blast
qed

end
