(* ===== verification/Json.thy ===== *)
theory Json
  imports Js_Core "HOL-Library.AList"
begin

text \<open>
  \<open>JSON.stringify\<close> and \<open>JSON.parse\<close>, as far as the repository uses them on stored records. The
  printer covers finite integers below 10^21 and the values \<open>null\<close> for NaN and the infinities;
  for other numbers, which no record holds, it is \<open>None\<close>. The parser covers the whole grammar; an
  escape of a code unit above 255 is outside the character model and fails. Its fuel, the length
  of the text, bounds every nesting. The round trip is proved for flat objects.
\<close>

datatype json = JNull | JBool bool | JNum jsnum | JStr string
  | JArr "json list" | JObj "(string \<times> json) list"

definition quote_char :: char where "quote_char = CHR 0x22"
definition backslash_char :: char where "backslash_char = CHR 0x5C"

definition escape_char :: "char \<Rightarrow> string" where
  "escape_char c =
     (if c = quote_char then [backslash_char, quote_char]
      else if c = backslash_char then [backslash_char, backslash_char]
      else if code c = 8 then [backslash_char, CHR ''b'']
      else if code c = 9 then [backslash_char, CHR ''t'']
      else if code c = 10 then [backslash_char, CHR ''n'']
      else if code c = 12 then [backslash_char, CHR ''f'']
      else if code c = 13 then [backslash_char, CHR ''r'']
      else if code c < 32 then backslash_char # ''u00'' @ [digit_char (code c div 16), digit_char (code c mod 16)]
      else [c])"

definition json_string :: "string \<Rightarrow> string" where
  "json_string s = [quote_char] @ concat (map escape_char s) @ [quote_char]"

fun number_text :: "jsnum \<Rightarrow> string option" where
  "number_text (Num r) =
     (if of_int \<lfloor>r\<rfloor> = r \<and> \<bar>\<lfloor>r\<rfloor>\<bar> < 1000000000000000000000 then Some (dec_string \<lfloor>r\<rfloor>) else None)"
| "number_text _ = Some ''null''"

definition join_comma :: "string list \<Rightarrow> string" where
  "join_comma xs = (case xs of [] \<Rightarrow> [] | y # ys \<Rightarrow> y @ concat (map (\<lambda>z. '','' @ z) ys))"

definition all_some :: "'a option list \<Rightarrow> 'a list option" where
  "all_some xs = (if None \<in> set xs then None else Some (map the xs))"

fun stringify :: "json \<Rightarrow> string option" where
  "stringify JNull = Some ''null''"
| "stringify (JBool b) = Some (if b then ''true'' else ''false'')"
| "stringify (JNum n) = number_text n"
| "stringify (JStr s) = Some (json_string s)"
| "stringify (JArr vs) =
     map_option (\<lambda>ts. ''['' @ join_comma ts @ '']'') (all_some (map stringify vs))"
| "stringify (JObj kvs) =
     map_option (\<lambda>ts. ''{'' @ join_comma ts @ ''}'')
       (all_some (map (\<lambda>kv. map_option (\<lambda>t. json_string (fst kv) @ '':'' @ t) (stringify (snd kv))) kvs))"

definition skip_ws :: "string \<Rightarrow> string" where
  "skip_ws s = dropWhile (\<lambda>c. code c = 32 \<or> code c = 9 \<or> code c = 10 \<or> code c = 13) s"

definition unescape :: "char \<Rightarrow> char option" where
  "unescape c =
     (if c = quote_char \<or> c = backslash_char \<or> c = CHR ''/'' then Some c
      else if c = CHR ''b'' then Some (char_of (8::nat))
      else if c = CHR ''t'' then Some (char_of (9::nat))
      else if c = CHR ''n'' then Some (char_of (10::nat))
      else if c = CHR ''f'' then Some (char_of (12::nat))
      else if c = CHR ''r'' then Some (char_of (13::nat))
      else None)"

definition cons_parsed :: "char \<Rightarrow> (string \<times> string) option \<Rightarrow> (string \<times> string) option" where
  "cons_parsed c r = map_option (\<lambda>p. (c # fst p, snd p)) r"

text \<open>The characters of a string up to its closing quote.\<close>

fun parse_string :: "nat \<Rightarrow> string \<Rightarrow> (string \<times> string) option" where
  "parse_string 0 s = None"
| "parse_string (Suc fuel) [] = None"
| "parse_string (Suc fuel) (c # s) =
     (if c = quote_char then Some ([], s)
      else if c = backslash_char
      then (if s = [] then None
            else if hd s = CHR ''u''
            then (let h = take 4 (tl s) in
                  if length h = 4 \<and> list_all is_hex_char h \<and> radix_val 16 h < 256
                  then cons_parsed (char_of (radix_val 16 h)) (parse_string fuel (drop 5 s))
                  else None)
            else (case unescape (hd s) of None \<Rightarrow> None
                  | Some d \<Rightarrow> cons_parsed d (parse_string fuel (tl s))))
      else if code c < 32 then None
      else cons_parsed c (parse_string fuel s))"

text \<open>A number: its sign, integer part without superfluous zeros, fraction and exponent.\<close>

definition parse_fraction :: "string \<Rightarrow> (rat \<times> string) option" where
  "parse_fraction s =
     (if starts_with ''.'' s
      then (let d = takeWhile is_digit (drop 1 s) in
            if d = [] then None
            else Some (of_nat (radix_val 10 d) / 10 ^ length d, drop (Suc (length d)) s))
      else Some (0, s))"

definition parse_exponent :: "string \<Rightarrow> (rat \<times> string) option" where
  "parse_exponent s =
     (if starts_with ''e'' s \<or> starts_with ''E'' s
      then (let t = drop 1 s;
                neg = starts_with ''-'' t;
                u = (if neg \<or> starts_with ''+'' t then drop 1 t else t);
                d = takeWhile is_digit u in
            if d = [] then None
            else Some (if neg then 1 / 10 ^ radix_val 10 d else 10 ^ radix_val 10 d, drop (length d) u))
      else Some (1, s))"

definition parse_number :: "string \<Rightarrow> (json \<times> string) option" where
  "parse_number s =
     (let neg = starts_with ''-'' s;
          t = (if neg then drop 1 s else s);
          d = takeWhile is_digit t in
      if d = [] \<or> (starts_with ''0'' d \<and> length d \<noteq> 1) then None
      else case parse_fraction (drop (length d) t) of None \<Rightarrow> None
           | Some (f, u) \<Rightarrow> (case parse_exponent u of None \<Rightarrow> None
               | Some (e, v) \<Rightarrow>
                   (let r = (of_nat (radix_val 10 d) + f) * e in
                    Some (JNum (Num (if neg then - r else r)), v))))"

fun parse_value :: "nat \<Rightarrow> string \<Rightarrow> (json \<times> string) option"
  and parse_elements :: "nat \<Rightarrow> string \<Rightarrow> (json list \<times> string) option"
  and parse_members :: "nat \<Rightarrow> string \<Rightarrow> ((string \<times> json) list \<times> string) option" where
  "parse_value 0 s = None"
| "parse_value (Suc fuel) s0 =
     (let s = skip_ws s0 in
      if starts_with ''{'' s
      then (let t = skip_ws (drop 1 s) in
            if starts_with ''}'' t then Some (JObj [], drop 1 t)
            else map_option (\<lambda>p. (JObj (foldl (\<lambda>m kv. AList.update (fst kv) (snd kv) m) [] (fst p)), snd p))
                   (parse_members fuel t))
      else if starts_with ''['' s
      then (let t = skip_ws (drop 1 s) in
            if starts_with '']'' t then Some (JArr [], drop 1 t)
            else map_option (\<lambda>p. (JArr (fst p), snd p)) (parse_elements fuel t))
      else if starts_with [quote_char] s
      then map_option (\<lambda>p. (JStr (fst p), snd p)) (parse_string (length s) (drop 1 s))
      else if starts_with ''true'' s then Some (JBool True, drop 4 s)
      else if starts_with ''false'' s then Some (JBool False, drop 5 s)
      else if starts_with ''null'' s then Some (JNull, drop 4 s)
      else parse_number s)"
| "parse_elements 0 s = None"
| "parse_elements (Suc fuel) s =
     (case parse_value fuel s of None \<Rightarrow> None
      | Some (v, r) \<Rightarrow>
          (let t = skip_ws r in
           if starts_with '']'' t then Some ([v], drop 1 t)
           else if starts_with '','' t
           then map_option (\<lambda>p. (v # fst p, snd p)) (parse_elements fuel (drop 1 t))
           else None))"
| "parse_members 0 s = None"
| "parse_members (Suc fuel) s0 =
     (let s = skip_ws s0 in
      if \<not> starts_with [quote_char] s then None
      else case parse_string (length s) (drop 1 s) of None \<Rightarrow> None
      | Some (k, r) \<Rightarrow>
          (let t = skip_ws r in
           if \<not> starts_with '':'' t then None
           else case parse_value fuel (drop 1 t) of None \<Rightarrow> None
           | Some (v, r') \<Rightarrow>
               (let u = skip_ws r' in
                if starts_with ''}'' u then Some ([(k, v)], drop 1 u)
                else if starts_with '','' u
                then map_option (\<lambda>p. ((k, v) # fst p, snd p)) (parse_members fuel (drop 1 u))
                else None)))"

definition json_parse :: "string \<Rightarrow> json option" where
  "json_parse s =
     (case parse_value (Suc (length s)) s of None \<Rightarrow> None
      | Some (v, r) \<Rightarrow> if skip_ws r = [] then Some v else None)"

definition json_field :: "json \<Rightarrow> string \<Rightarrow> json option" where
  "json_field v k = (case v of JObj kvs \<Rightarrow> map_of kvs k | _ \<Rightarrow> None)"

section \<open>Round trip of strings and integers\<close>

lemma code_char_of [simp]: "n < 256 \<Longrightarrow> code (char_of n) = n"
  by (simp add: code_def of_char_of)

lemma char_of_code [simp]: "char_of (code c) = c"
  by (simp add: code_def)

lemma escape_nonempty: "escape_char c \<noteq> []"
  by (simp add: escape_char_def)

lemma parse_escaped_char:
  "parse_string (Suc fuel) (escape_char c @ s) = cons_parsed c (parse_string fuel s)"
proof -
  have hex: "radix_val 16 ([CHR ''0'', CHR ''0''] @ [digit_char (code c div 16), digit_char (code c mod 16)]) = code c"
    if "code c < 32"
  proof -
    have d: "digit_val (digit_char (code c div 16)) = code c div 16" "digit_val (digit_char (code c mod 16)) = code c mod 16"
      using that by (simp_all add: div_less_iff_less_mult)
    have "digit_val (CHR ''0'') = 0"
      by (simp add: digit_val_def is_digit_def code_def)
    then show ?thesis
      by (simp add: radix_val_def d)
  qed
  have hexc: "is_hex_char (digit_char (code c div 16))" "is_hex_char (digit_char (code c mod 16))"
    if "code c < 32"
    using that by (simp_all add: div_less_iff_less_mult)
  have zero: "is_hex_char (CHR ''0'')"
    by (simp add: is_hex_char_def is_digit_def code_def)
  have eq: "c = char_of n" if "code c = n" for n
    using that char_of_code by metis
  show ?thesis
    using hex hexc zero eq [of 8] eq [of 9] eq [of 10] eq [of 12] eq [of 13] code_less_256 [of c]
    by (auto simp: escape_char_def quote_char_def backslash_char_def unescape_def Let_def)
qed

lemma parse_string_json:
  "length s < fuel \<Longrightarrow> parse_string fuel (concat (map escape_char s) @ quote_char # rest) = Some (s, rest)"
proof (induction s arbitrary: fuel)
  case Nil
  then show ?case by (cases fuel) simp_all
next
  case (Cons c s)
  then obtain f where f: "fuel = Suc f" "length s < f"
    by (cases fuel) auto
  with Cons.IH [of f] show ?case
    by (simp add: parse_escaped_char cons_parsed_def)
qed

lemma length_escaped: "length s \<le> length (concat (map escape_char s))"
proof (induction s)
  case (Cons c s)
  have "1 \<le> length (escape_char c)"
    using escape_nonempty [of c] by (cases "escape_char c") simp_all
  with Cons show ?case by simp
qed simp

lemma starts_with_Cons [simp]: "starts_with [c] (d # s) \<longleftrightarrow> c = d"
  by (auto simp: starts_with_def)

lemma starts_with_Nil [simp]: "\<not> starts_with (c # p) []"
  by (simp add: starts_with_def)

lemma starts_with_Cons2: "starts_with (c # p) (d # s) \<longleftrightarrow> c = d \<and> starts_with p s"
  by (auto simp: starts_with_def)

lemma skip_ws_Nil [simp]: "skip_ws [] = []"
  by (simp add: skip_ws_def)

lemma skip_ws_head: "code c \<notin> {32, 9, 10, 13} \<Longrightarrow> skip_ws (c # s) = c # s"
  by (simp add: skip_ws_def)

lemma json_string_Cons: "json_string s @ rest = quote_char # concat (map escape_char s) @ quote_char # rest"
  by (simp add: json_string_def)

lemma skip_ws_json_string [simp]: "skip_ws (json_string s @ rest) = json_string s @ rest"
  by (simp add: json_string_Cons skip_ws_head quote_char_def code_def)

lemma parse_json_string:
  "parse_string (length (json_string s @ rest)) (drop 1 (json_string s @ rest)) = Some (s, rest)"
  using length_escaped [of s] parse_string_json [of s "length (json_string s @ rest)" rest]
  by (simp add: json_string_def)

lemma parse_value_string:
  "parse_value (Suc fuel) (json_string s @ rest) = Some (JStr s, rest)"
proof -
  have "\<not> starts_with ''{'' (json_string s @ rest)" "\<not> starts_with ''['' (json_string s @ rest)"
    "starts_with [quote_char] (json_string s @ rest)"
    by (simp_all add: json_string_Cons quote_char_def)
  then show ?thesis
    using parse_json_string [of s rest] by (simp del: drop_0 add: Let_def)
qed

lemma radix_string_no_leading_zero: "radix_string 10 n = c # t \<Longrightarrow> t \<noteq> [] \<Longrightarrow> c \<noteq> CHR ''0''"
proof (induction n arbitrary: t rule: less_induct)
  case (less n)
  show ?case
  proof (cases "n < 10")
    case True
    then show ?thesis
      using less.prems by (subst (asm) radix_string.simps) simp
  next
    case False
    then have eq: "radix_string 10 n = radix_string 10 (n div 10) @ [digit_char (n mod 10)]"
      by (subst radix_string.simps) simp
    obtain d u where du: "radix_string 10 (n div 10) = d # u"
      by (cases "radix_string 10 (n div 10)") simp_all
    then have c: "c = d"
      using less.prems eq by simp
    show ?thesis
    proof (cases "u = []")
      case False
      with less.IH [of "n div 10" u] \<open>\<not> n < 10\<close> c du show ?thesis by simp
    next
      case True
      have "n div 10 < 10"
      proof (rule ccontr)
        assume "\<not> n div 10 < 10"
        then have "radix_string 10 (n div 10) = radix_string 10 (n div 10 div 10) @ [digit_char (n div 10 mod 10)]"
          by (subst radix_string.simps) simp
        with du True show False by simp
      qed
      then have "d = digit_char (n div 10)"
        using du True by (subst (asm) radix_string.simps) simp
      moreover have "digit_val (digit_char (n div 10)) = n div 10"
        using \<open>n div 10 < 10\<close> by simp
      moreover have "digit_val (CHR ''0'') = 0"
        by (simp add: digit_val_def is_digit_def code_def)
      ultimately show ?thesis
        using c \<open>\<not> n < 10\<close> by (metis div_eq_0_iff zero_neq_numeral)
    qed
  qed
qed

text \<open>What may follow a number in an object.\<close>

definition ends_number :: "string \<Rightarrow> bool" where
  "ends_number rest \<longleftrightarrow> rest = [] \<or> (\<not> is_digit (hd rest) \<and> hd rest \<notin> set ''.eE'')"

lemma parse_number_nat:
  assumes "ends_number rest"
  shows "takeWhile is_digit (radix_string 10 n @ rest) = radix_string 10 n"
    "\<not> (radix_string 10 n = [] \<or> (starts_with ''0'' (radix_string 10 n) \<and> length (radix_string 10 n) \<noteq> 1))"
    "parse_fraction rest = Some (0, rest)" "parse_exponent rest = Some (1, rest)"
proof -
  have "list_all is_digit (radix_string 10 n)" by simp
  then show "takeWhile is_digit (radix_string 10 n @ rest) = radix_string 10 n"
    using assms by (cases rest) (simp_all add: ends_number_def list_all_iff takeWhile_eq_all_conv)
  show "\<not> (radix_string 10 n = [] \<or> (starts_with ''0'' (radix_string 10 n) \<and> length (radix_string 10 n) \<noteq> 1))"
    using radix_string_no_leading_zero [of n]
    by (cases "radix_string 10 n") auto
  show "parse_fraction rest = Some (0, rest)"
    using assms by (cases rest) (auto simp: ends_number_def parse_fraction_def)
  show "parse_exponent rest = Some (1, rest)"
    using assms by (cases rest) (auto simp: ends_number_def parse_exponent_def)
qed

lemma parse_number_int: "ends_number rest \<Longrightarrow> parse_number (dec_string i @ rest) = Some (JNum (jsint i), rest)"
proof -
  assume e: "ends_number rest"
  show ?thesis
  proof (cases "i < 0")
    case True
    then have "rat_of_nat (nat (- i)) = - rat_of_int i"
      by (simp add: of_nat_nat)
    with True show ?thesis
      using parse_number_nat(1,2) [OF e, of "nat (- i)"] parse_number_nat(3,4) [OF e]
      by (simp add: dec_string_def parse_number_def Let_def)
  next
    case False
    obtain c t where ct: "radix_string 10 (nat i) = c # t"
      by (cases "radix_string 10 (nat i)") simp_all
    have "list_all is_digit (radix_string 10 (nat i))" by simp
    then have "is_digit c"
      unfolding ct by simp
    then have "\<not> starts_with ''-'' (radix_string 10 (nat i) @ rest)"
      by (auto simp: ct is_digit_def code_def)
    moreover have "rat_of_nat (nat i) = rat_of_int i"
      using False by (simp add: of_nat_nat)
    ultimately show ?thesis
      using False parse_number_nat(1,2) [OF e, of "nat i"] parse_number_nat(3,4) [OF e]
      by (simp add: dec_string_def parse_number_def Let_def)
  qed
qed

section \<open>Round trip of flat objects\<close>

text \<open>The field values of a stored record: strings and integers.\<close>

definition flat_value :: "json \<Rightarrow> bool" where
  "flat_value v \<longleftrightarrow> (\<exists>s. v = JStr s) \<or> (\<exists>i. v = JNum (jsint i) \<and> \<bar>i\<bar> < 1000000000000000000000)"

lemma flat_value_text:
  assumes "flat_value v" "ends_number rest"
  shows "\<exists>t. stringify v = Some t \<and> parse_value (Suc fuel) (t @ rest) = Some (v, rest)"
  using assms(1) unfolding flat_value_def
proof (elim disjE exE conjE)
  fix s assume "v = JStr s"
  then show ?thesis
    using parse_value_string by simp
next
  fix i assume i: "v = JNum (jsint i)" "\<bar>i\<bar> < 1000000000000000000000"
  obtain c t where ct: "dec_string i = c # t" "is_digit c \<or> c = CHR ''-''"
  proof -
    have "\<exists>c t. radix_string 10 (nat i) = c # t \<and> is_digit c"
      using radix_string_10_digits [of "nat i"] by (cases "radix_string 10 (nat i)") auto
    then show thesis
      using that by (cases "i < 0") (auto simp: dec_string_def)
  qed
  then have "skip_ws (dec_string i @ rest) = dec_string i @ rest"
    by (auto simp: skip_ws_def is_digit_def code_def)
  moreover have "\<not> starts_with ''{'' (dec_string i @ rest)" "\<not> starts_with ''['' (dec_string i @ rest)"
    "\<not> starts_with [quote_char] (dec_string i @ rest)" "\<not> starts_with ''true'' (dec_string i @ rest)"
    "\<not> starts_with ''false'' (dec_string i @ rest)" "\<not> starts_with ''null'' (dec_string i @ rest)"
    using ct(2) unfolding ct(1)
    by (auto simp: starts_with_def quote_char_def is_digit_def code_def)
  ultimately show ?thesis
    using i parse_number_int [OF assms(2), of i] by (simp add: Let_def)
qed

definition member_text :: "string \<times> json \<Rightarrow> string" where
  "member_text kv = json_string (fst kv) @ '':'' @ the (stringify (snd kv))"

lemma ends_number_comma: "ends_number (CHR '','' # s)" "ends_number (CHR ''}'' # s)"
  by (simp_all add: ends_number_def is_digit_def code_def)

lemma skip_ws_punct [simp]:
  "skip_ws (CHR '','' # s) = CHR '','' # s" "skip_ws (CHR ''}'' # s) = CHR ''}'' # s"
  "skip_ws (CHR '':'' # s) = CHR '':'' # s" "skip_ws (CHR ''{'' # s) = CHR ''{'' # s"
  by (simp_all add: skip_ws_def code_def)

lemma parse_member:
  assumes "flat_value v" "ends_number rest"
  shows "parse_members (Suc (Suc fuel)) (member_text (k, v) @ rest) =
    (let u = skip_ws rest in
     if starts_with ''}'' u then Some ([(k, v)], drop 1 u)
     else if starts_with '','' u
     then map_option (\<lambda>p. ((k, v) # fst p, snd p)) (parse_members (Suc fuel) (drop 1 u))
     else None)"
proof -
  obtain t where t: "stringify v = Some t" "parse_value (Suc fuel) (t @ rest) = Some (v, rest)"
    using flat_value_text [OF assms] by blast
  let ?s = "member_text (k, v) @ rest"
  have s: "?s = json_string k @ CHR '':'' # t @ rest"
    by (simp add: member_text_def t(1))
  have "starts_with [quote_char] ?s" "skip_ws ?s = ?s"
    unfolding s by (simp_all add: json_string_Cons skip_ws_json_string [unfolded json_string_Cons])
  moreover have "parse_string (length ?s) (drop 1 ?s) = Some (k, CHR '':'' # t @ rest)"
    unfolding s by (rule parse_json_string)
  ultimately show ?thesis
    using t(2) by (simp del: parse_value.simps add: Let_def)
qed

declare parse_members.simps [simp del]

lemma parse_members_flat:
  "kvs \<noteq> [] \<Longrightarrow> \<forall>kv \<in> set kvs. flat_value (snd kv) \<Longrightarrow> length kvs < fuel \<Longrightarrow>
     parse_members fuel (join_comma (map member_text kvs) @ CHR ''}'' # rest) = Some (kvs, rest)"
proof (induction kvs arbitrary: fuel)
  case Nil
  then show ?case by simp
next
  case (Cons kv kvs)
  obtain k v where kv: "kv = (k, v)" by (cases kv)
  obtain f where f: "fuel = Suc (Suc f)" "length kvs < Suc f"
    using Cons.prems(3) by (cases fuel; cases "fuel - 1") auto
  have v: "flat_value v"
    using Cons.prems(2) kv by simp
  show ?case
  proof (cases "kvs = []")
    case True
    then show ?thesis
      using parse_member [OF v, of "CHR ''}'' # rest" f k]
      by (simp add: kv f(1) join_comma_def ends_number_comma)
  next
    case False
    then have "parse_members (Suc f) (join_comma (map member_text kvs) @ CHR ''}'' # rest) = Some (kvs, rest)"
      using Cons f(2) by simp
    moreover have "join_comma (map member_text (kv # kvs)) @ CHR ''}'' # rest =
        member_text (k, v) @ CHR '','' # join_comma (map member_text kvs) @ CHR ''}'' # rest"
      using False by (cases kvs) (simp_all add: join_comma_def kv)
    ultimately show ?thesis
      using parse_member [OF v, of "CHR '','' # join_comma (map member_text kvs) @ CHR ''}'' # rest" f k]
      by (simp add: kv f(1) ends_number_comma)
  qed
qed

lemma update_all_distinct:
  "distinct (map fst (acc @ kvs)) \<Longrightarrow> foldl (\<lambda>m kv. AList.update (fst kv) (snd kv) m) acc kvs = acc @ kvs"
proof (induction kvs arbitrary: acc)
  case Nil
  then show ?case by simp
next
  case (Cons kv kvs)
  have "fst kv \<notin> fst ` set acc"
    using Cons.prems by auto
  then have "AList.update (fst kv) (snd kv) acc = acc @ [kv]"
    by (induction acc) auto
  with Cons.IH [of "acc @ [kv]"] Cons.prems show ?case by simp
qed

lemma length_join_comma: "length xs \<le> Suc (length (join_comma xs))"
proof (cases xs)
  case (Cons y ys)
  have "length ys \<le> length (concat (map ((@) '','') ys))"
    by (induction ys) simp_all
  with Cons show ?thesis by (simp add: join_comma_def)
qed simp

definition object_text :: "(string \<times> json) list \<Rightarrow> string" where
  "object_text kvs = ''{'' @ join_comma (map member_text kvs) @ ''}''"

lemma json_round_trip_text:
  assumes "kvs \<noteq> []" "\<forall>kv \<in> set kvs. flat_value (snd kv)" "distinct (map fst kvs)"
  shows "stringify (JObj kvs) = Some (object_text kvs) \<and> json_parse (object_text kvs) = Some (JObj kvs)"
proof -
  let ?body = "join_comma (map member_text kvs) @ ''}''"
  have "\<exists>t. stringify (snd kv) = Some t" if "kv \<in> set kvs" for kv
    using flat_value_text [of "snd kv" "[]" 0] assms(2) that by (auto simp: ends_number_def)
  then have some: "map (\<lambda>kv. map_option (\<lambda>t. json_string (fst kv) @ '':'' @ t) (stringify (snd kv))) kvs =
      map (\<lambda>kv. Some (member_text kv)) kvs"
    by (auto simp: member_text_def)
  have printed: "stringify (JObj kvs) = Some (CHR ''{'' # ?body)"
    unfolding stringify.simps some by (auto simp: all_some_def comp_def)
  obtain kv kvs' where kvs: "kvs = kv # kvs'"
    using assms(1) by (cases kvs) auto
  have head: "\<exists>r. ?body = quote_char # r"
    by (auto simp: kvs join_comma_def member_text_def json_string_def)
  then have body: "skip_ws ?body = ?body" "\<not> starts_with ''}'' ?body"
    by (auto simp: skip_ws_def quote_char_def code_def)
  have "length kvs < length (CHR ''{'' # ?body)"
    using length_join_comma [of "map member_text kvs"] by simp
  then have "parse_members (length (CHR ''{'' # ?body)) ?body = Some (kvs, [])"
    using parse_members_flat [OF assms(1,2), of "length (CHR ''{'' # ?body)" "[]"] by simp
  then have "parse_value (Suc (length (CHR ''{'' # ?body))) (CHR ''{'' # ?body) = Some (JObj kvs, [])"
    using body update_all_distinct [of "[]" kvs] assms(3)
    by (simp add: Let_def del: append_is_Nil_conv)
  then have "json_parse (CHR ''{'' # ?body) = Some (JObj kvs)"
    unfolding json_parse_def by simp
  with printed show ?thesis by (simp add: object_text_def)
qed

lemma json_round_trip:
  assumes "kvs \<noteq> []" "\<forall>kv \<in> set kvs. flat_value (snd kv)" "distinct (map fst kvs)"
  shows "\<exists>t. stringify (JObj kvs) = Some t \<and> json_parse t = Some (JObj kvs) \<and> t \<noteq> []"
  using json_round_trip_text [OF assms] by (auto simp: object_text_def)

end
