(* ===== verification/Relay_Calldata.thy ===== *)
theory Relay_Calldata
  imports Proof_Context Denominations Json Broadcaster
begin

text \<open>
  The relay's check of withdrawal calldata, \<^verbatim>\<open>services/relay/src/withdrawalCalldata.ts\<close>: decoding of
  the three supported calls, the bindings between a call, its proof's public inputs and the
  relayer's request (stages with and without private change, and the unlinkable mode of version
  1.2), and the fee policy.

  The library viem is a parameter: besides \<open>keccak\<close> and \<open>abi_encode\<close>, \<open>get_address\<close>
  (\<open>getAddress\<close>, \<open>None\<close> when it throws), \<open>is_hex\<close> (\<open>isHex\<close>) and \<open>decode_abi\<close>
  (\<open>decodeAbiParameters\<close>, \<open>None\<close> when it throws). What a function throws is \<open>Inl\<close>; the list of
  errors it returns holds the code's messages.
\<close>

datatype abi_type = TBytes | TBytes32Array | TBytes32 | TAddress | TUint256 | TTuple "abi_type list"

datatype decoded_value =
    DBytes string
  | DBytes32Array "string list"
  | DBytes32 string
  | DAddress string
  | DUint int
  | DTuple "decoded_value list"

record relay_lib =
  rl_viem :: viem
  get_address :: "string \<Rightarrow> string option"
  is_hex :: "string \<Rightarrow> bool"
  decode_abi :: "abi_type list \<Rightarrow> string \<Rightarrow> decoded_value list option"

datatype relay_throw = InvalidAddress | NotAnInteger | CoreError pc_error

definition core_result :: "pc_error + 'a \<Rightarrow> relay_throw + 'a" where
  "core_result r = (case r of Inl e \<Rightarrow> Inl (CoreError e) | Inr a \<Rightarrow> Inr a)"

definition getAddress :: "relay_lib \<Rightarrow> string \<Rightarrow> relay_throw + string" where
  "getAddress L a = (case get_address L a of None \<Rightarrow> Inl InvalidAddress | Some c \<Rightarrow> Inr c)"

text \<open>\<open>BigInt\<close> of a string and of a number throws when there is no integer to read.\<close>

definition bytes32ToBigInt :: "string \<Rightarrow> relay_throw + int" where
  "bytes32ToBigInt s = (case js_bigint s of None \<Rightarrow> Inl NotAnInteger | Some i \<Rightarrow> Inr i)"

definition number_to_bigint :: "jsnum \<Rightarrow> relay_throw + int" where
  "number_to_bigint n = (if is_integer n then Inr (num_int n) else Inl NotAnInteger)"

text \<open>Division of \<open>bigint\<close>s truncates towards zero.\<close>

definition bigint_div :: "int \<Rightarrow> int \<Rightarrow> int" where
  "bigint_div a b = (if (a < 0) = (b < 0) then \<bar>a\<bar> div \<bar>b\<bar> else - (\<bar>a\<bar> div \<bar>b\<bar>))"

section \<open>Calls and requests\<close>

datatype relay_mode = V1_1 | V1_2_Unlinkable

record fee_policy =
  activeFeeBps :: int
  pendingFeeBps :: "int option"
  pendingFeeActivationEpochSeconds :: "int option"
  fp_nowEpochSeconds :: "int option"

record calldata_input =
  ci_data :: string
  ci_chainId :: jsnum
  ci_pool :: string
  ci_relayValidationMode :: "relay_mode option"
  ci_deadlineEpochSeconds :: "jsnum option"
  ci_expectedRelayer :: "string option"
  ci_expectedRelayerPolicyHash :: "string option"
  ci_feePolicy :: "fee_policy option"

record stage_b_policy =
  sb_relayer :: string
  sb_minNetAmount :: int
  sb_maxFeeAmount :: int
  sb_deadlineOrZero :: int

record relay_call =
  call_selector :: string
  call_relayValidationMode :: "relay_mode option"
  hasChangeNote :: bool
  hasOutputNote :: "bool option"
  hasUserBounds :: bool
  publicInputs :: "string list"
  call_nullifier :: string
  call_destination :: string
  call_grossAmount :: int
  encryptedChangeNote :: "string option"
  encryptedOutputNote :: "string option"
  call_minNetAmount :: "int option"
  call_maxFeeAmount :: "int option"
  call_relayerPolicy :: "stage_b_policy option"

record calldata_validation =
  cv_allowed :: bool
  cv_errors :: "string list"
  cv_decoded :: "relay_call option"

definition WITHDRAWAL_FEE_BPS :: int where "WITHDRAWAL_FEE_BPS = 33"
definition MAX_WITHDRAWAL_FEE_BPS :: int where "MAX_WITHDRAWAL_FEE_BPS = 100"
definition BPS_DENOMINATOR :: int where "BPS_DENOMINATOR = 10000"
definition MAX_ENCRYPTED_NOTE_BYTES :: nat where "MAX_ENCRYPTED_NOTE_BYTES = 2048"
definition ENCRYPTED_OUTPUT_NOTE_V2_DOMAIN_SEPARATOR :: "relay_lib \<Rightarrow> string" where
  "ENCRYPTED_OUTPUT_NOTE_V2_DOMAIN_SEPARATOR L = keccak (rl_viem L) (text_hex ''nullark.encrypted-output-note.v2'')"

definition SUPPORTED_FIXED_DENOMINATIONS :: "int list" where
  "SUPPORTED_FIXED_DENOMINATIONS = MAINNET_CANDIDATE_FIXED_DENOMINATIONS_WEI"

definition WITHDRAW_PARAMETERS :: "abi_type list" where
  "WITHDRAW_PARAMETERS = [TBytes, TBytes32Array, TBytes32, TAddress, TUint256]"
definition WITHDRAW_BOUNDED_PARAMETERS :: "abi_type list" where
  "WITHDRAW_BOUNDED_PARAMETERS = WITHDRAW_PARAMETERS @ [TUint256, TUint256]"
definition STAGE_C_WITHDRAW_BOUNDED_PARAMETERS :: "abi_type list" where
  "STAGE_C_WITHDRAW_BOUNDED_PARAMETERS =
     [TBytes, TBytes32Array, TBytes32, TAddress, TUint256, TBytes, TUint256, TUint256]"
definition STAGE_B_RELAYER_POLICY_PARAMETERS :: "abi_type list" where
  "STAGE_B_RELAYER_POLICY_PARAMETERS =
     WITHDRAW_PARAMETERS @ [TTuple [TAddress, TUint256, TUint256, TUint256]]"

text \<open>\<open>publicInputs[k] ?? d\<close>\<close>

definition input_or :: "string list \<Rightarrow> nat \<Rightarrow> string \<Rightarrow> string" where
  "input_or xs k d = (if k < length xs then xs ! k else d)"

definition truthy :: "string option \<Rightarrow> bool" where
  "truthy s \<longleftrightarrow> (case s of None \<Rightarrow> False | Some t \<Rightarrow> t \<noteq> [])"

text \<open>\<open>(value.length - 2) / 2 > MAX_ENCRYPTED_NOTE_BYTES\<close> on numbers\<close>

definition note_too_long :: "string \<Rightarrow> bool" where
  "note_too_long s \<longleftrightarrow> int (length s) - 2 > 2 * int MAX_ENCRYPTED_NOTE_BYTES"

section \<open>Decoding\<close>

definition normalizeDecodedWithdrawalCall ::
  "relay_lib \<Rightarrow> string \<Rightarrow> string list \<Rightarrow> string \<Rightarrow> string \<Rightarrow> int \<Rightarrow> string option \<Rightarrow> int option \<Rightarrow> int option \<Rightarrow>
     stage_b_policy option \<Rightarrow> bool \<Rightarrow> bool \<Rightarrow> relay_throw + relay_call" where
  "normalizeDecodedWithdrawalCall L selector inputs nullifier destination grossAmount note minNet maxFee policy
     change bounds =
     bind_res (getAddress L destination) (\<lambda>dest.
     let call = \<lparr>call_selector = selector, call_relayValidationMode = None, hasChangeNote = change,
       hasOutputNote = None, hasUserBounds = bounds, publicInputs = map to_lower inputs,
       call_nullifier = to_lower nullifier, call_destination = dest, call_grossAmount = grossAmount,
       encryptedChangeNote = note, encryptedOutputNote = None, call_minNetAmount = minNet,
       call_maxFeeAmount = maxFee, call_relayerPolicy = None\<rparr> in
     case policy of None \<Rightarrow> Inr call
     | Some p \<Rightarrow> bind_res (getAddress L (sb_relayer p)) (\<lambda>relayer.
         Inr (call\<lparr>call_relayerPolicy := Some (p\<lparr>sb_relayer := relayer\<rparr>),
           call_minNetAmount := Some (sb_minNetAmount p), call_maxFeeAmount := Some (sb_maxFeeAmount p)\<rparr>)))"

text \<open>
  The three layouts, read off the decoded values; \<open>None\<close> is what the \<open>catch\<close> of the code answers,
  and also a list of values of another shape, which \<open>decodeAbiParameters\<close> does not return.
\<close>

definition or_none :: "'e + 'a \<Rightarrow> 'a option" where
  "or_none r = (case r of Inl _ \<Rightarrow> None | Inr a \<Rightarrow> Some a)"

definition decodeBounded :: "relay_lib \<Rightarrow> string \<Rightarrow> string \<Rightarrow> relay_call option" where
  "decodeBounded L selector encoded =
     (case decode_abi L WITHDRAW_BOUNDED_PARAMETERS encoded of
        Some [DBytes proof_bytes, DBytes32Array inputs, DBytes32 nullifier, DAddress destination, DUint gross_amount,
              DUint minNet, DUint maxFee] \<Rightarrow>
          or_none (normalizeDecodedWithdrawalCall L selector inputs nullifier destination gross_amount None
            (Some minNet) (Some maxFee) None False True)
      | _ \<Rightarrow> None)"

definition decodeRelayerPolicyCall :: "relay_lib \<Rightarrow> string \<Rightarrow> string \<Rightarrow> relay_call option" where
  "decodeRelayerPolicyCall L selector encoded =
     (case decode_abi L STAGE_B_RELAYER_POLICY_PARAMETERS encoded of
        Some [DBytes proof_bytes, DBytes32Array inputs, DBytes32 nullifier, DAddress destination, DUint gross_amount,
              DTuple [DAddress relayer, DUint minNet, DUint maxFee, DUint deadline]] \<Rightarrow>
          or_none (normalizeDecodedWithdrawalCall L selector inputs nullifier destination gross_amount None
            None None (Some \<lparr>sb_relayer = relayer, sb_minNetAmount = minNet, sb_maxFeeAmount = maxFee,
              sb_deadlineOrZero = deadline\<rparr>) False True)
      | _ \<Rightarrow> None)"

definition decodeStageC :: "relay_lib \<Rightarrow> string \<Rightarrow> string \<Rightarrow> relay_call option" where
  "decodeStageC L selector encoded =
     (case decode_abi L STAGE_C_WITHDRAW_BOUNDED_PARAMETERS encoded of
        Some [DBytes proof_bytes, DBytes32Array inputs, DBytes32 nullifier, DAddress destination, DUint gross_amount,
              DBytes note, DUint minNet, DUint maxFee] \<Rightarrow>
          or_none (normalizeDecodedWithdrawalCall L selector inputs nullifier destination gross_amount (Some note)
            (Some minNet) (Some maxFee) None True True)
      | _ \<Rightarrow> None)"

text \<open>The result is the error pushed or the decoded call.\<close>

definition decoded_or_error :: "relay_call option \<Rightarrow> string + relay_call" where
  "decoded_or_error r =
     (case r of None \<Rightarrow> Inl ''withdrawal calldata could not be decoded'' | Some c \<Rightarrow> Inr c)"

definition decodeWithdrawalRelayCall :: "relay_lib \<Rightarrow> string \<Rightarrow> string + relay_call" where
  "decodeWithdrawalRelayCall L data =
     (if \<not> is_hex L data \<or> length data < FUNCTION_SELECTOR_LENGTH
      then Inl ''withdrawal calldata must be hex with a function selector''
      else
        let selector = to_lower (take FUNCTION_SELECTOR_LENGTH data);
            encoded = ''0x'' @ drop FUNCTION_SELECTOR_LENGTH data in
        if selector = WITHDRAW_SELECTOR
        then Inl ''Relayer requires user-bounded withdrawal calldata''
        else if selector = WITHDRAW_BOUNDED_SELECTOR then decoded_or_error (decodeBounded L selector encoded)
        else if selector = PROOF_CONTEXT_V1_WITHDRAW_RELAYER_POLICY_SELECTOR
        then decoded_or_error (decodeRelayerPolicyCall L selector encoded)
        else if selector = STAGE_C_WITHDRAW_UNBOUNDED_SELECTOR
        then Inl ''Unbounded private-change withdrawal calls are not accepted by the relayer''
        else if selector = STAGE_C_WITHDRAW_BOUNDED_SELECTOR then decoded_or_error (decodeStageC L selector encoded)
        else Inl ''withdrawal function selector is unsupported'')"

section \<open>Fees\<close>

definition calculateWithdrawalFee :: "int \<Rightarrow> int option \<Rightarrow> int" where
  "calculateWithdrawalFee grossAmount feeBps =
     bigint_div (grossAmount * or_default feeBps WITHDRAWAL_FEE_BPS) BPS_DENOMINATOR"

definition selectWithdrawalProofContextShape :: "relay_lib \<Rightarrow> fee_policy option \<Rightarrow> string" where
  "selectWithdrawalProofContextShape L policy =
     (case policy of None \<Rightarrow> PROOF_CONTEXT_V1_SHAPE_WITHDRAW (rl_viem L)
      | Some _ \<Rightarrow> PROOF_CONTEXT_V1_SHAPE_WITHDRAW_V1_2_FEE_GOVERNANCE (rl_viem L))"

text \<open>\<open>BigInt\<close> of the deadline is only taken when a pending fee has an activation time.\<close>

definition activates_before_deadline :: "fee_policy \<Rightarrow> jsnum option \<Rightarrow> relay_throw + bool" where
  "activates_before_deadline policy deadline =
     (case (pendingFeeBps policy, pendingFeeActivationEpochSeconds policy, deadline) of
        (Some _, Some activation, Some d) \<Rightarrow> bind_res (number_to_bigint d) (\<lambda>i. Inr (activation \<le> i))
      | _ \<Rightarrow> Inr False)"

definition matches_pending_early :: "fee_policy \<Rightarrow> int \<Rightarrow> int \<Rightarrow> bool" where
  "matches_pending_early policy grossAmount publicFee =
     (case (pendingFeeBps policy, pendingFeeActivationEpochSeconds policy, fp_nowEpochSeconds policy) of
        (Some pending, Some activation, Some now) \<Rightarrow>
          now < activation \<and> publicFee = calculateWithdrawalFee grossAmount (Some pending)
      | _ \<Rightarrow> False)"

definition bps_out_of_bounds :: "int \<Rightarrow> bool" where
  "bps_out_of_bounds b \<longleftrightarrow> b < 0 \<or> b > MAX_WITHDRAWAL_FEE_BPS"

definition validateWithdrawalFeePolicy ::
  "fee_policy \<Rightarrow> int \<Rightarrow> int \<Rightarrow> jsnum option \<Rightarrow> relay_throw + string list" where
  "validateWithdrawalFeePolicy policy grossAmount publicFee deadline =
     bind_res (activates_before_deadline policy deadline) (\<lambda>early. Inr (
       err_if (bps_out_of_bounds (activeFeeBps policy)) ''active fee bps is outside relayer policy bounds'' @
       err_if (case pendingFeeBps policy of None \<Rightarrow> False | Some b \<Rightarrow> bps_out_of_bounds b)
         ''pending fee bps is outside relayer policy bounds'' @
       err_if early ''pending fee activates before relay deadline'' @
       err_if (matches_pending_early policy grossAmount publicFee)
         ''withdrawal fee matches pending fee before activation''))"

section \<open>Hashes a call is bound by\<close>

definition computeNoteHash ::
  "relay_lib \<Rightarrow> jsnum \<Rightarrow> string \<Rightarrow> string option \<Rightarrow> string \<Rightarrow> string \<Rightarrow> string \<Rightarrow> int \<Rightarrow> string \<Rightarrow> relay_throw + string" where
  "computeNoteHash L chainId pool shape selector nullifier commitment noteAmount note =
     bind_res (getAddress L pool) (\<lambda>p.
     bind_res (core_result (createEncryptedNoteV1 (rl_viem L) None None
       \<lparr>en_domainSeparator = [], en_version = 0, en_chainId = chainId, en_pool = p,
        en_shape = or_default shape (PROOF_CONTEXT_V1_SHAPE_WITHDRAW (rl_viem L)), en_selector = selector,
        en_nullifier = nullifier, en_commitment = commitment, en_noteAmount = noteAmount,
        en_encryptedNote = note\<rparr>)) (\<lambda>n.
     core_result (hashEncryptedNoteV1 (rl_viem L) n)))"

definition computeStageBContractBoundEncryptedNoteHash ::
  "relay_lib \<Rightarrow> jsnum \<Rightarrow> string \<Rightarrow> string \<Rightarrow> string \<Rightarrow> int \<Rightarrow> string option \<Rightarrow> relay_throw + string" where
  "computeStageBContractBoundEncryptedNoteHash L chainId pool selector nullifier noteAmount shape =
     computeNoteHash L chainId pool shape selector nullifier ZERO_BYTES32 noteAmount ''0x''"

definition computeStageCContractBoundEncryptedChangeNoteHash ::
  "relay_lib \<Rightarrow> jsnum \<Rightarrow> string \<Rightarrow> string option \<Rightarrow> string \<Rightarrow> string \<Rightarrow> int \<Rightarrow> string \<Rightarrow> string option \<Rightarrow> relay_throw + string" where
  "computeStageCContractBoundEncryptedChangeNoteHash L chainId pool selector nullifier changeCommitment
     changeAmount note shape =
     computeNoteHash L chainId pool shape (or_default selector STAGE_C_WITHDRAW_BOUNDED_SELECTOR) nullifier
       changeCommitment changeAmount note"

definition computeV12ContractBoundEncryptedOutputNoteHash ::
  "relay_lib \<Rightarrow> jsnum \<Rightarrow> string \<Rightarrow> string \<Rightarrow> string \<Rightarrow> string \<Rightarrow> string \<Rightarrow> relay_throw + string" where
  "computeV12ContractBoundEncryptedOutputNoteHash L chainId pool selector nullifier outputCommitment note =
     bind_res (number_to_bigint chainId) (\<lambda>chain.
     bind_res (getAddress L pool) (\<lambda>p.
     core_result (bind_res (encode_abi (rl_viem L)
       [AbiBytes32 (ENCRYPTED_OUTPUT_NOTE_V2_DOMAIN_SEPARATOR L), AbiUint 2, AbiUint chain, AbiAddress p,
        AbiBytes32 (PROOF_CONTEXT_V1_SHAPE_WITHDRAW_V1_2_FEE_GOVERNANCE (rl_viem L)), AbiBytes4 selector,
        AbiBytes32 nullifier, AbiBytes32 outputCommitment, AbiBytes32 (keccak (rl_viem L) note)])
       (hashAbiEncodedToField (rl_viem L)))))"

definition computeStageBRelayerPolicyHash :: "relay_lib \<Rightarrow> stage_b_policy \<Rightarrow> relay_throw + string" where
  "computeStageBRelayerPolicyHash L p =
     core_result (bind_res (createRelayerPolicyV1 (rl_viem L) None None
       \<lparr>rpv_domainSeparator = [], rpv_version = 0, rpv_relayer = sb_relayer p,
        rpv_minNetAmount = sb_minNetAmount p, rpv_maxFeeAmount = sb_maxFeeAmount p,
        rpv_deadlineOrZero = sb_deadlineOrZero p\<rparr>)
       (hashRelayerPolicyV1 (rl_viem L)))"

record context_input =
  cx_chainId :: jsnum
  cx_pool :: string
  cx_selector :: string
  cx_root :: string
  cx_nullifier :: string
  cx_destination :: string
  cx_grossAmount :: int
  cx_fee :: int
  cx_encryptedNoteHash :: string
  cx_relayerPolicyHash :: string
  cx_deadlineOrZero :: int
  cx_proofContextShape :: "string option"

definition computeStageBProofContextHash :: "relay_lib \<Rightarrow> context_input \<Rightarrow> relay_throw + string" where
  "computeStageBProofContextHash L c =
     bind_res (getAddress L (cx_pool c)) (\<lambda>p.
     bind_res (getAddress L (cx_destination c)) (\<lambda>d.
     core_result (bind_res (createProofContextV1 (rl_viem L) None None
       \<lparr>pcx_domainSeparator = [], pcx_version = 0, pcx_chainId = cx_chainId c, pcx_pool = p,
        pcx_shape = or_default (cx_proofContextShape c) (PROOF_CONTEXT_V1_SHAPE_WITHDRAW (rl_viem L)),
        pcx_selector = cx_selector c, pcx_root = cx_root c, pcx_nullifier = cx_nullifier c,
        pcx_destination = d, pcx_grossAmount = cx_grossAmount c, pcx_fee = cx_fee c,
        pcx_encryptedNoteHash = cx_encryptedNoteHash c, pcx_relayerPolicyHash = cx_relayerPolicyHash c,
        pcx_deadlineOrZero = cx_deadlineOrZero c\<rparr>)
       (hashProofContextV1 (rl_viem L)))))"

section \<open>The private-change preflight\<close>

record change_preflight =
  cp_chainId :: jsnum
  cp_pool :: string
  cp_selector :: "string option"
  cp_root :: string
  cp_nullifier :: string
  cp_destination :: string
  cp_grossAmount :: int
  cp_fee :: int
  cp_noteAmount :: int
  cp_changeCommitment :: string
  cp_changeAmount :: int
  cp_encryptedChangeNote :: string
  cp_relayerPolicy :: stage_b_policy
  cp_encryptedNoteHash :: string
  cp_proofContextHash :: string
  cp_relayerPolicyHash :: "string option"
  cp_proofContextShape :: "string option"
  cp_outputCommitments :: "string list option"
  cp_encryptedChangeNotes :: "string list option"
  cp_changeAmounts :: "int list option"

record change_hashes =
  ch_encryptedNoteHash :: string
  ch_relayerPolicyHash :: string
  ch_proofContextHash :: string

definition preflight_context :: "change_preflight \<Rightarrow> string \<Rightarrow> string \<Rightarrow> string \<Rightarrow> context_input" where
  "preflight_context i selector noteHash policyHash =
     \<lparr>cx_chainId = cp_chainId i, cx_pool = cp_pool i, cx_selector = selector, cx_root = cp_root i,
      cx_nullifier = cp_nullifier i, cx_destination = cp_destination i, cx_grossAmount = cp_grossAmount i,
      cx_fee = cp_fee i, cx_encryptedNoteHash = noteHash, cx_relayerPolicyHash = policyHash,
      cx_deadlineOrZero = sb_deadlineOrZero (cp_relayerPolicy i),
      cx_proofContextShape = cp_proofContextShape i\<rparr>"

definition computeStageCWithdrawChangeNoteHashes :: "relay_lib \<Rightarrow> change_preflight \<Rightarrow> relay_throw + change_hashes" where
  "computeStageCWithdrawChangeNoteHashes L i =
     (let selector = or_default (cp_selector i) STAGE_C_WITHDRAW_BOUNDED_SELECTOR in
     bind_res (computeStageCContractBoundEncryptedChangeNoteHash L (cp_chainId i) (cp_pool i) (Some selector)
       (cp_nullifier i) (cp_changeCommitment i) (cp_changeAmount i) (cp_encryptedChangeNote i)
       (cp_proofContextShape i)) (\<lambda>noteHash.
     bind_res (computeStageBRelayerPolicyHash L (cp_relayerPolicy i)) (\<lambda>policyHash.
     bind_res (computeStageBProofContextHash L (preflight_context i selector noteHash policyHash)) (\<lambda>contextHash.
       Inr \<lparr>ch_encryptedNoteHash = noteHash, ch_relayerPolicyHash = policyHash,
            ch_proofContextHash = contextHash\<rparr>))))"

text \<open>The checks on the values alone; hashes are computed only when none of them fails.\<close>

definition output_order_errors :: "change_preflight \<Rightarrow> string list" where
  "output_order_errors i =
     (let commitments = or_default (cp_outputCommitments i) [cp_changeCommitment i];
          ciphers = or_default (cp_encryptedChangeNotes i) [cp_encryptedChangeNote i];
          amounts = or_default (cp_changeAmounts i) [cp_changeAmount i] in
      if length commitments \<noteq> 1 \<or> length ciphers \<noteq> 1 \<or> length amounts \<noteq> 1
      then [''Private-change withdrawal supports exactly one private change output'']
      else
        err_if (to_lower (hd commitments) \<noteq> to_lower (cp_changeCommitment i))
          ''Private change output commitment order does not match the change commitment'' @
        err_if (to_lower (hd ciphers) \<noteq> to_lower (cp_encryptedChangeNote i))
          ''Private change ciphertext order does not match the change output'' @
        err_if (hd amounts \<noteq> cp_changeAmount i)
          ''Private change amount order does not match the change output'')"

definition change_value_errors :: "change_preflight \<Rightarrow> string list" where
  "change_value_errors i =
     err_if (or_default (cp_selector i) STAGE_C_WITHDRAW_BOUNDED_SELECTOR \<noteq> STAGE_C_WITHDRAW_BOUNDED_SELECTOR)
       ''Private-change withdrawal selector must be the bounded private-change selector'' @
     err_if (\<not> isHexBytes32 (cp_changeCommitment i) \<or> to_lower (cp_changeCommitment i) = ZERO_BYTES32)
       ''Private change commitment must be a nonzero bytes32 value'' @
     err_if (\<not> isHexString (cp_encryptedChangeNote i) \<or> cp_encryptedChangeNote i = ''0x'')
       ''Encrypted private change note must be nonempty even-length hex'' @
     err_if (isHexString (cp_encryptedChangeNote i) \<and> note_too_long (cp_encryptedChangeNote i))
       ''Encrypted private change note exceeds relayer policy maximum'' @
     err_if (cp_changeAmount i \<le> 0) ''Private change amount must be positive'' @
     err_if (cp_fee i > cp_grossAmount i) ''Private-change withdrawal fee cannot exceed public gross amount'' @
     err_if (cp_noteAmount i \<noteq> cp_grossAmount i + cp_changeAmount i)
       ''Private-change withdrawal value conservation must satisfy noteAmount = grossAmount + changeAmount'' @
     output_order_errors i"

text \<open>\<open>policyHash !== undefined && hash.toLowerCase() !== policyHash.toLowerCase()\<close>\<close>

definition differs_from :: "string option \<Rightarrow> string \<Rightarrow> bool" where
  "differs_from expected h = (case expected of None \<Rightarrow> False | Some e \<Rightarrow> to_lower h \<noteq> to_lower e)"

definition validateStageCWithdrawChangeNotePreflight :: "relay_lib \<Rightarrow> change_preflight \<Rightarrow> relay_throw + string list" where
  "validateStageCWithdrawChangeNotePreflight L i =
     (if change_value_errors i \<noteq> [] then Inr (change_value_errors i)
      else bind_res (computeStageCWithdrawChangeNoteHashes L
          (i\<lparr>cp_selector := Some (or_default (cp_selector i) STAGE_C_WITHDRAW_BOUNDED_SELECTOR)\<rparr>)) (\<lambda>h. Inr (
        err_if (to_lower (ch_encryptedNoteHash h) \<noteq> to_lower (cp_encryptedNoteHash i))
          ''Private change note hash does not match preflight context'' @
        err_if (differs_from (cp_relayerPolicyHash i) (ch_relayerPolicyHash h))
          ''Private-change withdrawal relayerPolicyHash does not match relayer policy'' @
        err_if (to_lower (ch_proofContextHash h) \<noteq> to_lower (cp_proofContextHash i))
          ''Private-change withdrawal proofContextHash does not match preflight context'')))"

definition validateStageCFullExitPreflight :: "relay_lib \<Rightarrow> change_preflight \<Rightarrow> relay_throw + string list" where
  "validateStageCFullExitPreflight L i =
     (let selector = or_default (cp_selector i) STAGE_C_WITHDRAW_BOUNDED_SELECTOR in
     bind_res (computeStageBContractBoundEncryptedNoteHash L (cp_chainId i) (cp_pool i) selector (cp_nullifier i)
       (cp_noteAmount i) (cp_proofContextShape i)) (\<lambda>noteHash.
     bind_res (computeStageBRelayerPolicyHash L (cp_relayerPolicy i)) (\<lambda>policyHash.
     bind_res (computeStageBProofContextHash L (preflight_context i selector noteHash policyHash)) (\<lambda>contextHash. Inr (
       err_if (selector \<noteq> STAGE_C_WITHDRAW_BOUNDED_SELECTOR)
         ''Stage C full-exit withdrawal selector must be the bounded unified selector'' @
       err_if (to_lower (cp_changeCommitment i) \<noteq> ZERO_BYTES32)
         ''Stage C full exits must not create a private change commitment'' @
       err_if (to_lower (cp_encryptedChangeNote i) \<noteq> ''0x'')
         ''Stage C full exits must not include encrypted private change note bytes'' @
       err_if (cp_changeAmount i \<noteq> 0) ''Stage C full exits must have zero private change amount'' @
       err_if (cp_fee i > cp_grossAmount i)
         ''Stage C full-exit withdrawal fee cannot exceed public gross amount'' @
       err_if (cp_noteAmount i \<noteq> cp_grossAmount i)
         ''Stage C full-exit value conservation must satisfy noteAmount = grossAmount'' @
       err_if (to_lower noteHash \<noteq> to_lower (cp_encryptedNoteHash i))
         ''Stage C full-exit encrypted-note hash does not match public inputs'' @
       err_if (differs_from (cp_relayerPolicyHash i) policyHash)
         ''Stage C full-exit relayerPolicyHash does not match relayer policy'' @
       err_if (to_lower contextHash \<noteq> to_lower (cp_proofContextHash i))
         ''Stage C full-exit proofContextHash does not match public inputs'')))))"

section \<open>Calls without private change\<close>

definition call_context ::
  "relay_call \<Rightarrow> jsnum \<Rightarrow> string \<Rightarrow> int \<Rightarrow> string \<Rightarrow> string \<Rightarrow> int \<Rightarrow> string \<Rightarrow> context_input" where
  "call_context call chainId pool expectedFee noteHash policyHash deadline shape =
     \<lparr>cx_chainId = chainId, cx_pool = pool, cx_selector = call_selector call,
      cx_root = input_or (publicInputs call) 0 ZERO_BYTES32, cx_nullifier = call_nullifier call,
      cx_destination = call_destination call, cx_grossAmount = call_grossAmount call, cx_fee = expectedFee,
      cx_encryptedNoteHash = noteHash, cx_relayerPolicyHash = policyHash, cx_deadlineOrZero = deadline,
      cx_proofContextShape = Some shape\<rparr>"

definition zero_relayer_policy :: "relay_call \<Rightarrow> stage_b_policy" where
  "zero_relayer_policy call =
     \<lparr>sb_relayer = ZERO_ADDRESS, sb_minNetAmount = or_default (call_minNetAmount call) 0,
      sb_maxFeeAmount = or_default (call_maxFeeAmount call) 0, sb_deadlineOrZero = 0\<rparr>"

definition createStageCRelayerPolicy :: "relay_call \<Rightarrow> stage_b_policy" where
  "createStageCRelayerPolicy call = zero_relayer_policy call"

definition validateBoundedFullExitPreflight ::
  "relay_lib \<Rightarrow> relay_call \<Rightarrow> jsnum \<Rightarrow> string \<Rightarrow> int \<Rightarrow> int \<Rightarrow> string \<Rightarrow> relay_throw + string list" where
  "validateBoundedFullExitPreflight L call chainId pool expectedFee noteAmount shape =
     bind_res (computeStageBContractBoundEncryptedNoteHash L chainId pool (call_selector call) (call_nullifier call)
       noteAmount (Some shape)) (\<lambda>noteHash.
     bind_res (computeStageBRelayerPolicyHash L (zero_relayer_policy call)) (\<lambda>policyHash.
     bind_res (computeStageBProofContextHash L
       (call_context call chainId pool expectedFee noteHash policyHash 0 shape)) (\<lambda>contextHash. Inr (
       err_if (to_lower (input_or (publicInputs call) 11 []) \<noteq> to_lower noteHash)
         ''Proof-bound withdrawal encrypted-note hash does not match public inputs'' @
       err_if (to_lower (input_or (publicInputs call) 10 []) \<noteq> to_lower contextHash)
         ''Proof-bound withdrawal proofContextHash does not match public inputs''))))"

definition deadline_matches :: "jsnum option \<Rightarrow> int \<Rightarrow> bool" where
  "deadline_matches deadline policyDeadline \<longleftrightarrow>
     (case deadline of None \<Rightarrow> False | Some d \<Rightarrow> is_safe_integer d \<and> num_int d = policyDeadline)"

text \<open>\<open>expectedRelayer && relayer.toLowerCase() !== getAddress(expectedRelayer).toLowerCase()\<close>\<close>

definition other_relayer :: "relay_lib \<Rightarrow> string option \<Rightarrow> string \<Rightarrow> relay_throw + bool" where
  "other_relayer L expected relayer =
     (if truthy expected
      then bind_res (getAddress L (the expected)) (\<lambda>e. Inr (to_lower relayer \<noteq> to_lower e))
      else Inr False)"

definition validateStageBWithdrawalPreflight ::
  "relay_lib \<Rightarrow> calldata_input \<Rightarrow> relay_call \<Rightarrow> int \<Rightarrow> int \<Rightarrow> string \<Rightarrow> relay_throw + string list" where
  "validateStageBWithdrawalPreflight L input call expectedFee noteAmount shape =
     (case call_relayerPolicy call of
        None \<Rightarrow> Inr [''Proof-bound withdrawal calldata must include relayer policy'']
      | Some policy \<Rightarrow>
          bind_res (other_relayer L (ci_expectedRelayer input) (sb_relayer policy)) (\<lambda>other.
          bind_res (computeStageBRelayerPolicyHash L policy) (\<lambda>policyHash.
          bind_res (computeStageBContractBoundEncryptedNoteHash L (ci_chainId input) (ci_pool input)
            (call_selector call) (call_nullifier call) noteAmount (Some shape)) (\<lambda>noteHash.
          bind_res (computeStageBProofContextHash L (call_context call (ci_chainId input) (ci_pool input)
            expectedFee noteHash policyHash (sb_deadlineOrZero policy) shape)) (\<lambda>contextHash. Inr (
            err_if (call_selector call \<noteq> PROOF_CONTEXT_V1_WITHDRAW_RELAYER_POLICY_SELECTOR)
              ''Proof-bound withdrawal selector does not match relayer-policy withdraw selector'' @
            err_if (\<not> deadline_matches (ci_deadlineEpochSeconds input) (sb_deadlineOrZero policy))
              ''Proof-bound withdrawal deadline does not match relayer request'' @
            err_if other ''Proof-bound withdrawal relayer policy does not match signing relayer'' @
            err_if (expectedFee > sb_maxFeeAmount policy)
              ''Proof-bound withdrawal fee exceeds relayer policy max fee'' @
            err_if (call_grossAmount call - expectedFee < sb_minNetAmount policy)
              ''Proof-bound withdrawal net amount is below relayer policy minimum'' @
            err_if (truthy (ci_expectedRelayerPolicyHash input) \<and>
                differs_from (ci_expectedRelayerPolicyHash input) policyHash)
              ''Proof-bound withdrawal relayerPolicyHash does not match relayer policy'' @
            err_if (to_lower (input_or (publicInputs call) 11 []) \<noteq> to_lower noteHash)
              ''Proof-bound withdrawal encrypted-note hash does not match public inputs'' @
            err_if (to_lower (input_or (publicInputs call) 10 []) \<noteq> to_lower contextHash)
              ''Proof-bound withdrawal proofContextHash does not match public inputs''))))))"

section \<open>The check of version 1.1\<close>

definition addressToBytes32 :: "relay_lib \<Rightarrow> string \<Rightarrow> relay_throw + string" where
  "addressToBytes32 L a =
     bind_res (getAddress L a) (\<lambda>c. Inr (''0x'' @ replicate 24 (CHR ''0'') @ to_lower (drop 2 c)))"

definition isStageC :: "relay_call \<Rightarrow> bool" where "isStageC call = hasChangeNote call"
definition isStageB :: "relay_call \<Rightarrow> bool" where
  "isStageB call \<longleftrightarrow> call_relayerPolicy call \<noteq> None \<and> \<not> isStageC call"
definition isBoundedFullExit :: "relay_call \<Rightarrow> bool" where
  "isBoundedFullExit call \<longleftrightarrow> call_selector call = WITHDRAW_BOUNDED_SELECTOR \<and> \<not> isStageC call"

definition expectedPublicInputsLength :: "relay_call \<Rightarrow> nat" where
  "expectedPublicInputsLength call =
     (if isStageC call then 12 else if isStageB call then 12 else if isBoundedFullExit call then 12 else 10)"

definition bound_errors :: "relay_call \<Rightarrow> int \<Rightarrow> string list" where
  "bound_errors call expectedFee =
     err_if (\<not> hasUserBounds call)
       ''Public exit relayer requests require user minNetAmount and maxFeeAmount bounds'' @
     (if \<not> hasUserBounds call then [] else
        err_if (expectedFee > or_default (call_maxFeeAmount call) 0)
          ''withdrawal fee exceeds user max fee bound'' @
        err_if (call_grossAmount call - expectedFee < or_default (call_minNetAmount call) 0)
          ''withdrawal net amount is below user minimum bound'' @
        err_if (or_default (call_maxFeeAmount call) 0 > call_grossAmount call)
          ''withdrawal user max fee bound cannot exceed gross amount'') @
     err_if (truthy (encryptedChangeNote call) \<and> note_too_long (the (encryptedChangeNote call)))
       ''withdrawal encrypted change note exceeds relayer policy maximum''"

definition amount_errors :: "relay_call \<Rightarrow> int \<Rightarrow> string list" where
  "amount_errors call noteAmount =
     err_if (to_lower (call_destination call) = ZERO_ADDRESS) ''withdrawal destination must be nonzero'' @
     err_if (call_grossAmount call \<le> 0) ''withdrawal gross amount must be positive'' @
     err_if (noteAmount \<le> 0) ''withdrawal note amount must be positive'' @
     err_if (noteAmount \<notin> set SUPPORTED_FIXED_DENOMINATIONS)
       ''withdrawal note amount must be a supported fixed denomination'' @
     err_if (call_grossAmount call \<notin> set SUPPORTED_FIXED_DENOMINATIONS)
       ''withdrawal gross amount must be a supported fixed denomination'' @
     err_if (call_grossAmount call > noteAmount) ''withdrawal gross amount cannot exceed note amount'' @
     err_if (\<not> isStageC call \<and> call_grossAmount call \<noteq> noteAmount)
       ''Public exits without private change must withdraw the full fixed-denomination note'' @
     err_if (\<not> isStageC call \<and> to_lower (input_or (publicInputs call) 2 ZERO_BYTES32) \<noteq> ZERO_BYTES32)
       ''Public exits without private change must not create new commitments'' @
     err_if (\<not> isStageC call \<and> encryptedChangeNote call \<noteq> None)
       ''Public exits without private change must not include encrypted change notes''"

definition length_message :: "relay_call \<Rightarrow> string" where
  "length_message call =
     (if isStageB call \<or> isStageC call \<or> isBoundedFullExit call
      then if isStageC call then ''Private-change withdrawal calldata must include exactly 12 public inputs''
           else ''Proof-bound withdrawal calldata must include exactly 12 public inputs''
      else ''withdrawal calldata must include exactly 10 public inputs'')"

definition call_input_errors :: "relay_call \<Rightarrow> string \<Rightarrow> int \<Rightarrow> string list" where
  "call_input_errors call expectedDestination grossInput =
     err_if (length (publicInputs call) \<noteq> expectedPublicInputsLength call) (length_message call) @
     err_if (\<not> list_all isHexBytes32 (publicInputs call)) ''withdrawal public inputs must be bytes32 values'' @
     err_if (to_lower (call_nullifier call) \<noteq> to_lower (input_or (publicInputs call) 1 []))
       ''withdrawal nullifier does not match public inputs'' @
     err_if (to_lower (call_nullifier call) = ZERO_BYTES32) ''withdrawal nullifier must be nonzero'' @
     err_if (to_lower (input_or (publicInputs call) 3 []) \<noteq> to_lower expectedDestination)
       ''withdrawal destination does not match public inputs'' @
     err_if (grossInput \<noteq> call_grossAmount call) ''withdrawal gross amount does not match public inputs''"

definition pool_input_errors :: "relay_call \<Rightarrow> string \<Rightarrow> int \<Rightarrow> int \<Rightarrow> string list" where
  "pool_input_errors call expectedPool chainInput chainId =
     err_if (chainInput \<noteq> chainId) ''withdrawal proof chain ID does not match relayer chain'' @
     err_if (to_lower (input_or (publicInputs call) 7 []) \<noteq> to_lower expectedPool)
       ''withdrawal proof pool does not match relayer pool'' @
     err_if (to_lower (input_or (publicInputs call) 8 ZERO_BYTES32) = ZERO_BYTES32)
       ''withdrawal spent commitment must be nonzero''"

definition stage_c_input :: "calldata_input \<Rightarrow> relay_call \<Rightarrow> int \<Rightarrow> int \<Rightarrow> string \<Rightarrow> change_preflight" where
  "stage_c_input input call expectedFee noteAmount shape =
     \<lparr>cp_chainId = ci_chainId input, cp_pool = ci_pool input, cp_selector = Some (call_selector call),
      cp_root = input_or (publicInputs call) 0 ZERO_BYTES32, cp_nullifier = call_nullifier call,
      cp_destination = call_destination call, cp_grossAmount = call_grossAmount call, cp_fee = expectedFee,
      cp_noteAmount = noteAmount, cp_changeCommitment = input_or (publicInputs call) 2 ZERO_BYTES32,
      cp_changeAmount = noteAmount - call_grossAmount call,
      cp_encryptedChangeNote = or_default (encryptedChangeNote call) ''0x'',
      cp_relayerPolicy = createStageCRelayerPolicy call,
      cp_encryptedNoteHash = input_or (publicInputs call) 11 ZERO_BYTES32,
      cp_proofContextHash = input_or (publicInputs call) 10 ZERO_BYTES32,
      cp_relayerPolicyHash = ci_expectedRelayerPolicyHash input, cp_proofContextShape = Some shape,
      cp_outputCommitments = None, cp_encryptedChangeNotes = None, cp_changeAmounts = None\<rparr>"

definition isUnifiedFullExit :: "change_preflight \<Rightarrow> bool" where
  "isUnifiedFullExit i \<longleftrightarrow> cp_changeAmount i = 0 \<and> to_lower (cp_changeCommitment i) = ZERO_BYTES32 \<and>
     to_lower (cp_encryptedChangeNote i) = ''0x''"

definition validateStageC ::
  "relay_lib \<Rightarrow> calldata_input \<Rightarrow> relay_call \<Rightarrow> int \<Rightarrow> int \<Rightarrow> string \<Rightarrow> relay_throw + string list" where
  "validateStageC L input call expectedFee noteAmount shape =
     (let i = stage_c_input input call expectedFee noteAmount shape in
      bind_res (if isUnifiedFullExit i then validateStageCFullExitPreflight L i
                else validateStageCWithdrawChangeNotePreflight L i) (\<lambda>es.
        Inr (err_if (\<not> isUnifiedFullExit i \<and> cp_changeAmount i \<notin> set SUPPORTED_FIXED_DENOMINATIONS)
          ''Private change amount must be a supported fixed denomination'' @ es)))"

text \<open>The preflights that apply to a call; a bounded full exit carries no relayer policy.\<close>

definition stage_errors ::
  "relay_lib \<Rightarrow> calldata_input \<Rightarrow> relay_call \<Rightarrow> int \<Rightarrow> int \<Rightarrow> string \<Rightarrow> relay_throw + string list" where
  "stage_errors L input call expectedFee noteAmount shape =
     bind_res (if isStageB call then validateStageBWithdrawalPreflight L input call expectedFee noteAmount shape
               else Inr []) (\<lambda>b.
     bind_res (if isBoundedFullExit call
               then validateBoundedFullExitPreflight L call (ci_chainId input) (ci_pool input) expectedFee noteAmount shape
               else Inr []) (\<lambda>f.
     bind_res (if isStageC call then validateStageC L input call expectedFee noteAmount shape else Inr []) (\<lambda>c.
       Inr (b @ f @ c))))"

definition policy_errors :: "calldata_input \<Rightarrow> relay_call \<Rightarrow> int \<Rightarrow> relay_throw + string list" where
  "policy_errors input call publicFee =
     (case ci_feePolicy input of None \<Rightarrow> Inr []
      | Some p \<Rightarrow> validateWithdrawalFeePolicy p (call_grossAmount call) publicFee (ci_deadlineEpochSeconds input))"

definition validateV11 :: "relay_lib \<Rightarrow> calldata_input \<Rightarrow> relay_call \<Rightarrow> relay_throw + calldata_validation" where
  "validateV11 L input call =
     bind_res (addressToBytes32 L (ci_pool input)) (\<lambda>expectedPool.
     bind_res (addressToBytes32 L (call_destination call)) (\<lambda>expectedDestination.
     let expectedFee = calculateWithdrawalFee (call_grossAmount call) (map_option activeFeeBps (ci_feePolicy input));
         shape = selectWithdrawalProofContextShape L (ci_feePolicy input) in
     bind_res (bytes32ToBigInt (input_or (publicInputs call) 5 ZERO_BYTES32)) (\<lambda>publicFee.
     bind_res (bytes32ToBigInt (input_or (publicInputs call) 9 ZERO_BYTES32)) (\<lambda>noteAmount.
     bind_res (bytes32ToBigInt (input_or (publicInputs call) 4 ZERO_BYTES32)) (\<lambda>grossInput.
     bind_res (policy_errors input call publicFee) (\<lambda>feeErrors.
     bind_res (bytes32ToBigInt (input_or (publicInputs call) 6 ZERO_BYTES32)) (\<lambda>chainInput.
     bind_res (number_to_bigint (ci_chainId input)) (\<lambda>chainId.
     bind_res (stage_errors L input call expectedFee noteAmount shape) (\<lambda>stageErrors.
     let errors = call_input_errors call expectedDestination grossInput @
           err_if (publicFee \<noteq> expectedFee)
             (if ci_feePolicy input \<noteq> None then ''withdrawal fee does not match active fee policy''
              else ''withdrawal fee does not match relayer fee policy'') @
           feeErrors @ pool_input_errors call expectedPool chainInput chainId @
           amount_errors call noteAmount @ bound_errors call expectedFee @ stageErrors in
     Inr \<lparr>cv_allowed = (errors = []), cv_errors = errors, cv_decoded = Some call\<rparr>)))))))))"

section \<open>The unlinkable mode of version 1.2\<close>

text \<open>
  \<open>hexToUtf8\<close>: a byte below 128 is its character; a byte of 128 or more is kept as a character of
  that code and stands for the part of a longer character, which no check below can tell apart
  (all of them compare with ASCII text). A byte order mark at the start is dropped.
\<close>

fun hex_bytes :: "string \<Rightarrow> string" where
  "hex_bytes (a # b # s) = char_of (digit_val a * 16 + digit_val b) # hex_bytes s"
| "hex_bytes _ = []"

definition hexToUtf8 :: "string \<Rightarrow> string" where
  "hexToUtf8 s =
     (let t = hex_bytes (drop 2 s) in
      if map code (take 3 t) = [239, 187, 191] then drop 3 t else t)"

definition envelope_fields :: "string list" where
  "envelope_fields = [''version'', ''domain'', ''chainId'', ''verifyingContract'', ''action'',
     ''outputCommitment'', ''proofContextHash'', ''ephemeralPublicKey'', ''nonce'', ''ciphertext'',
     ''ciphertextByteLength'', ''paddingBytes'', ''paddingByteLength'', ''paddedCiphertextByteLength'']"

definition field_text :: "json \<Rightarrow> string \<Rightarrow> string option" where
  "field_text e k = (case json_field e k of Some (JStr s) \<Rightarrow> Some s | _ \<Rightarrow> None)"

definition text_is :: "(string \<Rightarrow> bool) \<Rightarrow> string option \<Rightarrow> bool" where
  "text_is P s \<longleftrightarrow> (case s of None \<Rightarrow> False | Some t \<Rightarrow> P t)"

text \<open>\<open>typeof x === "string" && isEvenHex(x) ? hexByteLength(x) : -1\<close>\<close>

definition byte_length_or :: "string option \<Rightarrow> int" where
  "byte_length_or s = (case s of None \<Rightarrow> -1 | Some t \<Rightarrow> if isHexString t then int (hexByteLength t) else -1)"

definition zero_bytes :: "string \<Rightarrow> bool" where
  "zero_bytes t \<longleftrightarrow> starts_with ''0x'' t \<and> even (length t) \<and> list_all (\<lambda>c. c = CHR ''0'') (drop 2 t)"

definition field_number_is :: "json \<Rightarrow> string \<Rightarrow> jsnum \<Rightarrow> bool" where
  "field_number_is e k n \<longleftrightarrow> (case json_field e k of Some (JNum m) \<Rightarrow> num_eq m n | _ \<Rightarrow> False)"

definition envelope_errors :: "json \<Rightarrow> (string \<times> json) list \<Rightarrow> jsnum \<Rightarrow> string \<Rightarrow> string \<Rightarrow> string list" where
  "envelope_errors e kvs chainId pool outputCommitment =
     (let cipherLength = byte_length_or (field_text e ''ciphertext'');
          paddingLength = byte_length_or (field_text e ''paddingBytes'') in
     err_if (\<not> list_all (\<lambda>kv. fst kv \<in> set envelope_fields) kvs)
       ''v1.2 unlinkable withdrawal encrypted output note must be a fixed-shape EncryptedOutputNoteV2 envelope'' @
     err_if (\<not> field_number_is e ''version'' (jsint 2) \<or>
         field_text e ''domain'' \<noteq> Some ''nullark.encrypted-output-note.v2'')
       ''v1.2 unlinkable withdrawal encrypted output note must be a valid EncryptedOutputNoteV2 envelope'' @
     err_if (field_text e ''action'' \<noteq> Some ''withdraw-output'')
       ''v1.2 unlinkable withdrawal encrypted output note action must be withdraw-output'' @
     err_if (\<not> field_number_is e ''chainId'' chainId)
       ''v1.2 unlinkable withdrawal encrypted output note chain does not match binding'' @
     err_if (\<not> text_is (\<lambda>t. to_lower t = to_lower pool) (field_text e ''verifyingContract''))
       ''v1.2 unlinkable withdrawal encrypted output note pool does not match binding'' @
     err_if (\<not> text_is (\<lambda>t. to_lower t = to_lower outputCommitment) (field_text e ''outputCommitment''))
       ''v1.2 unlinkable withdrawal encrypted output note commitment does not match binding'' @
     err_if (\<not> text_is isHexBytes32 (field_text e ''proofContextHash'') \<or>
         \<not> text_is isHexBytes32 (field_text e ''ephemeralPublicKey''))
       ''v1.2 unlinkable withdrawal encrypted output note V2 fixed fields must include bytes32 proofContextHash and ephemeralPublicKey'' @
     err_if (text_is (\<lambda>t. isHexBytes32 t \<and> to_lower t \<noteq> ZERO_BYTES32) (field_text e ''proofContextHash''))
       ''v1.2 unlinkable withdrawal encrypted output note proofContextHash must be zero until envelope binding v3'' @
     err_if (\<not> text_is (hex_of_length 48) (field_text e ''nonce''))
       ''v1.2 unlinkable withdrawal encrypted output note nonce must be bytes24'' @
     err_if (\<not> text_is (\<lambda>t. isHexString t \<and> hexByteLength t \<noteq> 0) (field_text e ''ciphertext''))
       ''v1.2 unlinkable withdrawal encrypted output note ciphertext must be nonempty even-length hex'' @
     err_if (\<not> text_is isHexString (field_text e ''paddingBytes''))
       ''v1.2 unlinkable withdrawal encrypted output note padding must be even-length hex'' @
     err_if (\<not> field_number_is e ''ciphertextByteLength'' (jsint cipherLength) \<or>
         \<not> field_number_is e ''paddingByteLength'' (jsint paddingLength) \<or>
         \<not> field_number_is e ''paddedCiphertextByteLength'' (jsint 256) \<or> cipherLength + paddingLength \<noteq> 256)
       ''v1.2 unlinkable withdrawal encrypted output note must be fixed-shape padded to 256 bytes'' @
     err_if (\<not> text_is zero_bytes (field_text e ''paddingBytes''))
       ''v1.2 unlinkable withdrawal encrypted output note padding must be zero bytes'')"

definition validateEncryptedOutputNoteV2EnvelopeForBinding ::
  "string \<Rightarrow> jsnum \<Rightarrow> string \<Rightarrow> string \<Rightarrow> string list" where
  "validateEncryptedOutputNoteV2EnvelopeForBinding note chainId pool outputCommitment =
     (case json_parse (hexToUtf8 note) of
        Some (JObj kvs) \<Rightarrow> js_unique (envelope_errors (JObj kvs) kvs chainId pool outputCommitment)
      | _ \<Rightarrow> [''v1.2 unlinkable withdrawal encrypted output note must be a valid EncryptedOutputNoteV2 envelope''])"

definition v12_call :: "relay_call \<Rightarrow> relay_call" where
  "v12_call call = call\<lparr>hasChangeNote := False, hasOutputNote := Some True,
     encryptedOutputNote := Some (or_default (encryptedChangeNote call) ''0x''), encryptedChangeNote := None\<rparr>"

definition v12_input_errors :: "relay_call \<Rightarrow> string \<Rightarrow> int \<Rightarrow> string list" where
  "v12_input_errors call expectedDestination grossInput =
     (if length (publicInputs call) \<noteq> 10
      then ''v1.2 unlinkable withdrawal calldata must include exactly 10 public inputs'' #
        err_if (length (publicInputs call) \<ge> 12)
          ''v1.2 unlinkable withdrawal calldata must not expose spentCommitment or noteAmount public inputs''
      else []) @
     err_if (\<not> list_all isHexBytes32 (publicInputs call))
       ''v1.2 unlinkable withdrawal public inputs must be bytes32 values'' @
     err_if (to_lower (call_nullifier call) \<noteq> to_lower (input_or (publicInputs call) 1 []))
       ''v1.2 unlinkable withdrawal nullifier does not match public inputs'' @
     err_if (to_lower (call_nullifier call) = ZERO_BYTES32)
       ''v1.2 unlinkable withdrawal nullifier must be nonzero'' @
     err_if (to_lower (input_or (publicInputs call) 3 []) \<noteq> to_lower expectedDestination)
       ''v1.2 unlinkable withdrawal destination does not match public inputs'' @
     err_if (grossInput \<noteq> call_grossAmount call)
       ''v1.2 unlinkable withdrawal gross amount does not match public inputs''"

definition v12_amount_errors :: "relay_call \<Rightarrow> string \<Rightarrow> int \<Rightarrow> int \<Rightarrow> int \<Rightarrow> string list" where
  "v12_amount_errors call expectedPool chainInput chainId expectedFee =
     err_if (chainInput \<noteq> chainId) ''v1.2 unlinkable withdrawal proof chain ID does not match relayer chain'' @
     err_if (to_lower (input_or (publicInputs call) 7 []) \<noteq> to_lower expectedPool)
       ''v1.2 unlinkable withdrawal proof pool does not match relayer pool'' @
     err_if (to_lower (call_destination call) = ZERO_ADDRESS)
       ''v1.2 unlinkable withdrawal destination must be nonzero'' @
     err_if (call_grossAmount call \<le> 0) ''v1.2 unlinkable withdrawal gross amount must be positive'' @
     err_if (call_grossAmount call \<notin> set SUPPORTED_FIXED_DENOMINATIONS)
       ''v1.2 unlinkable withdrawal gross amount must be a supported fixed denomination'' @
     err_if (\<not> hasUserBounds call)
       ''v1.2 unlinkable relay requests require user minNetAmount and maxFeeAmount bounds'' @
     (if \<not> hasUserBounds call then [] else
        err_if (expectedFee > or_default (call_maxFeeAmount call) 0)
          ''v1.2 unlinkable withdrawal fee exceeds user max fee bound'' @
        err_if (call_grossAmount call - expectedFee < or_default (call_minNetAmount call) 0)
          ''v1.2 unlinkable withdrawal net amount is below user minimum bound'' @
        err_if (or_default (call_maxFeeAmount call) 0 > call_grossAmount call)
          ''v1.2 unlinkable withdrawal user max fee bound cannot exceed gross amount'')"

definition v12_note_errors :: "relay_call \<Rightarrow> jsnum \<Rightarrow> string \<Rightarrow> string \<Rightarrow> string \<Rightarrow> string list" where
  "v12_note_errors call chainId pool outputCommitment note =
     (if \<not> isHexBytes32 outputCommitment
      then [''v1.2 unlinkable output commitment must be a bytes32 value'']
      else err_if (to_lower outputCommitment = ZERO_BYTES32) ''v1.2 unlinkable output commitment must be nonzero'') @
     err_if (\<not> hasChangeNote call \<or> \<not> isHexString note \<or> note = ''0x'')
       ''v1.2 unlinkable withdrawal requires always-present encrypted output note bytes'' @
     err_if (isHexString note \<and> note_too_long note)
       ''v1.2 unlinkable encrypted output note exceeds relayer policy maximum'' @
     (if isHexString note \<and> note \<noteq> ''0x''
      then validateEncryptedOutputNoteV2EnvelopeForBinding note chainId pool outputCommitment else [])"

text \<open>The argument is the decoded call before the change note is renamed to the output note.\<close>

definition validateV12UnlinkableWithdrawalRelayCall ::
  "relay_lib \<Rightarrow> calldata_input \<Rightarrow> relay_call \<Rightarrow> relay_throw + calldata_validation" where
  "validateV12UnlinkableWithdrawalRelayCall L input call =
     bind_res (addressToBytes32 L (ci_pool input)) (\<lambda>expectedPool.
     bind_res (addressToBytes32 L (call_destination call)) (\<lambda>expectedDestination.
     let expectedFee = calculateWithdrawalFee (call_grossAmount call) (map_option activeFeeBps (ci_feePolicy input));
         outputCommitment = input_or (publicInputs call) 2 ZERO_BYTES32;
         contextInput = input_or (publicInputs call) 8 ZERO_BYTES32;
         noteInput = input_or (publicInputs call) 9 ZERO_BYTES32;
         note = or_default (encryptedChangeNote call) ''0x'';
         policy = or_default (call_relayerPolicy call) (createStageCRelayerPolicy call) in
     bind_res (bytes32ToBigInt (input_or (publicInputs call) 5 ZERO_BYTES32)) (\<lambda>publicFee.
     bind_res (bytes32ToBigInt (input_or (publicInputs call) 4 ZERO_BYTES32)) (\<lambda>grossInput.
     bind_res (policy_errors input call publicFee) (\<lambda>feeErrors.
     bind_res (bytes32ToBigInt (input_or (publicInputs call) 6 ZERO_BYTES32)) (\<lambda>chainInput.
     bind_res (number_to_bigint (ci_chainId input)) (\<lambda>chainId.
     bind_res (computeV12ContractBoundEncryptedOutputNoteHash L (ci_chainId input) (ci_pool input)
       (call_selector call) (call_nullifier call) outputCommitment note) (\<lambda>noteHash.
     bind_res (computeStageBRelayerPolicyHash L policy) (\<lambda>policyHash.
     bind_res (computeStageBProofContextHash L (call_context call (ci_chainId input) (ci_pool input) expectedFee
       noteHash policyHash (sb_deadlineOrZero policy)
       (PROOF_CONTEXT_V1_SHAPE_WITHDRAW_V1_2_FEE_GOVERNANCE (rl_viem L)))) (\<lambda>contextHash.
     let errors = v12_input_errors call expectedDestination grossInput @
           err_if (publicFee \<noteq> expectedFee)
             (if ci_feePolicy input \<noteq> None then ''v1.2 unlinkable withdrawal fee does not match active fee policy''
              else ''v1.2 unlinkable withdrawal fee does not match relayer fee policy'') @
           feeErrors @ v12_amount_errors call expectedPool chainInput chainId expectedFee @
           v12_note_errors call (ci_chainId input) (ci_pool input) outputCommitment note @
           err_if (to_lower noteInput \<noteq> to_lower noteHash)
             ''v1.2 unlinkable withdrawal encryptedOutputNoteHash does not match public inputs'' @
           err_if (to_lower contextInput \<noteq> to_lower contextHash)
             ''v1.2 unlinkable withdrawal proofContextHash does not match public inputs'' in
     Inr \<lparr>cv_allowed = (errors = []), cv_errors = errors, cv_decoded = Some (v12_call call)\<rparr>))))))))))"

definition validateWithdrawalRelayCalldata :: "relay_lib \<Rightarrow> calldata_input \<Rightarrow> relay_throw + calldata_validation" where
  "validateWithdrawalRelayCalldata L input =
     (case decodeWithdrawalRelayCall L (ci_data input) of
        Inl e \<Rightarrow> Inr \<lparr>cv_allowed = False, cv_errors = [e], cv_decoded = None\<rparr>
      | Inr decoded \<Rightarrow>
          let mode = or_default (ci_relayValidationMode input) V1_1;
              call = decoded\<lparr>call_relayValidationMode := Some mode\<rparr> in
          if mode = V1_2_Unlinkable then validateV12UnlinkableWithdrawalRelayCall L input call
          else validateV11 L input call)"

end
