(* ===== verification/Hex_Text.thy ===== *)
theory Hex_Text
  imports Relay_Calldata
begin

text \<open>
  Texts carried as hex bytes: the round trip of \<open>text_hex\<close> (the bytes of a text, in hex) and \<open>hexToUtf8\<close>,
  and the lengths of printed JSON values, for the envelopes the SDK writes and the relay reads.
\<close>

lemma nibble [simp]: "code c div 16 < 16"
  using code_less_256 [of c] by linarith

lemma hex_bytes_text:
  "hex_bytes (concat (map (\<lambda>c. [digit_char (code c div 16), digit_char (code c mod 16)]) s)) = s"
  by (induction s) simp_all

lemma length_text_hex: "length (text_hex s) = 2 + 2 * length s"
  by (induction s) (simp_all add: text_hex_def)

lemma isHexString_text_hex: "isHexString (text_hex s)"
proof -
  have "list_all is_hex_char (concat (map (\<lambda>c. [digit_char (code c div 16), digit_char (code c mod 16)]) s))"
    by (induction s) simp_all
  then show ?thesis
    using length_text_hex [of s] by (simp add: isHexString_def text_hex_def)
qed

lemma hexToUtf8_text_hex: "hexToUtf8 (text_hex (''{'' @ s)) = ''{'' @ s"
proof -
  have "hex_bytes (drop 2 (text_hex (''{'' @ s))) = ''{'' @ s"
    using hex_bytes_text [of "''{'' @ s"] by (simp add: text_hex_def)
  moreover have "code (CHR ''{'') \<noteq> 239" by code_simp
  ultimately show ?thesis by (simp add: hexToUtf8_def)
qed

lemma escape_hex: "is_hex_char c \<Longrightarrow> escape_char c = [c]"
  by (auto simp: escape_char_def is_hex_char_def is_digit_def quote_char_def backslash_char_def code_def)

lemma json_string_hex:
  assumes "starts_with ''0x'' s" "list_all is_hex_char (drop 2 s)"
  shows "length (json_string s) = length s + 2"
proof -
  obtain t where t: "s = ''0x'' @ t" using assms(1) by (auto simp: starts_with_0x_iff)
  have "concat (map escape_char t) = t"
    using assms(2) unfolding t by (induction t) (simp_all add: escape_hex)
  moreover have "escape_char (CHR ''0'') = ''0''" "escape_char (CHR ''x'') = ''x''" by code_simp+
  ultimately show ?thesis by (simp add: json_string_def t)
qed

definition zero_text :: "nat \<Rightarrow> string" where
  "zero_text n = ''0x'' @ replicate n (CHR ''0'')"

lemma zero_text_hex: "hex_of_length n (zero_text n)" "even n \<Longrightarrow> isHexString (zero_text n)"
  "length (json_string (zero_text n)) = n + 4"
proof -
  have "starts_with ''0x'' (zero_text n)" "list_all is_hex_char (drop 2 (zero_text n))" "length (zero_text n) = n + 2"
    by (simp_all add: zero_text_def)
  then show "hex_of_length n (zero_text n)" "even n \<Longrightarrow> isHexString (zero_text n)"
    "length (json_string (zero_text n)) = n + 4"
    using json_string_hex [of "zero_text n"] by (simp_all add: hex_of_length_def isHexString_def)
qed

lemma bytes32_text: "isHexBytes32 s \<Longrightarrow> length (json_string s) = 68"
  using json_string_hex [of s] by (simp add: isHexBytes32_def hex_of_length_def)

lemma length_join: "length (join_comma ts) \<le> sum_list (map (\<lambda>t. length t + 1) ts)"
  by (cases ts) (simp_all add: join_comma_def length_concat comp_def)

lemma length_members:
  "length (member_text (k, JStr t)) = length (json_string k) + 1 + length (json_string t)"
  "0 \<le> i \<Longrightarrow> i < 10000 \<Longrightarrow> length (member_text (k, JNum (jsint i))) = length (json_string k) + 1 + length (dec_string i)"
  by (simp_all add: member_text_def)

lemma plain_lengths: "length (json_string ''version'') = 9" "length (json_string ''domain'') = 8"
    "length (json_string ''nullark.encrypted-output-note.v2'') = 34" "length (json_string ''chainId'') = 9"
    "length (json_string ''verifyingContract'') = 19" "length (json_string ''action'') = 8"
    "length (json_string ''withdraw-output'') = 17" "length (json_string ''outputCommitment'') = 18"
    "length (json_string ''proofContextHash'') = 18" "length (json_string ''ephemeralPublicKey'') = 20"
    "length (json_string ''nonce'') = 7" "length (json_string ''ciphertext'') = 12"
    "length (json_string ''ciphertextByteLength'') = 22" "length (json_string ''paddingBytes'') = 14"
    "length (json_string ''0x'') = 4" "length (json_string ''paddingByteLength'') = 19"
    "length (json_string ''paddedCiphertextByteLength'') = 28"
  by code_simp+

lemma number_lengths: "length (dec_string 2) = 1" "length (dec_string 6343) = 4" "length (dec_string 256) = 3"
    "length (dec_string 0) = 1"
  by (simp_all add: dec_string_def radix_string.simps)

end
