(* ===== verification/Kv_Store.thy ===== *)
theory Kv_Store
  imports Js_Core
begin

text \<open>
  The key-value store the relay keeps its state in (a Cloudflare KV namespace, bound at run time).
  Its \<open>get\<close> and \<open>put\<close> are parameters, a record of two functions over a state of any type; \<open>kv_time\<close>
  holds what the environment adds, the clock of the store, the writes made so far and the passing
  of time. The locale states the documented behaviour: an entry is gone when its lifetime
  (\<open>expirationTtl\<close>) is over, and a write is visible everywhere only after a delay, the \<open>lag\<close>, until
  which a read may still give an older answer. A store that answers at once is the case without lag. The
  instance at the end is such a store, on which the properties are evaluated.
\<close>

record 's kv_api =
  kv_get :: "'s \<Rightarrow> string \<Rightarrow> string option"
  kv_put :: "'s \<Rightarrow> string \<Rightarrow> string \<Rightarrow> int \<Rightarrow> 's"

text \<open>A write: its key and value, when it was made and when it expires.\<close>

type_synonym kv_write = "string \<times> string \<times> int \<times> int"

record 's kv_time =
  kv_now :: "'s \<Rightarrow> int"
  kv_writes :: "'s \<Rightarrow> kv_write list"
  kv_wait :: "'s \<Rightarrow> int \<Rightarrow> 's"

text \<open>Several \<open>put\<close>s issued together; the keys differ, so their order does not matter.\<close>

primrec kv_put_all :: "'s kv_api \<Rightarrow> 's \<Rightarrow> (string \<times> string) list \<Rightarrow> int \<Rightarrow> 's" where
  "kv_put_all kv s [] ttl = s"
| "kv_put_all kv s (e # es) ttl = kv_put_all kv (kv_put kv s (fst e) (snd e) ttl) es ttl"

section \<open>What a read may answer\<close>

definition settled :: "int \<Rightarrow> int \<Rightarrow> int \<Rightarrow> bool" where
  "settled lag now written \<longleftrightarrow> lag \<le> max 0 (now - written)"

text \<open>The writes are listed from the latest on; one that is not settled may be missed.\<close>

fun kv_answers :: "int \<Rightarrow> int \<Rightarrow> kv_write list \<Rightarrow> string \<Rightarrow> string option set" where
  "kv_answers lag now [] k = {None}"
| "kv_answers lag now ((j, v, written, expires) # ws) k =
     (if j \<noteq> k then kv_answers lag now ws k
      else insert (if now < expires then Some v else None)
        (if settled lag now written then {} else kv_answers lag now ws k))"

fun kv_latest :: "int \<Rightarrow> kv_write list \<Rightarrow> string \<Rightarrow> string option" where
  "kv_latest now [] k = None"
| "kv_latest now ((j, v, written, expires) # ws) k =
     (if j \<noteq> k then kv_latest now ws k else if now < expires then Some v else None)"

lemma latest_answers: "kv_latest now ws k \<in> kv_answers lag now ws k"
  by (induction now ws k rule: kv_latest.induct) auto

text \<open>A settled write hides the older ones.\<close>

lemma answers_settled:
  assumes "r \<in> kv_answers lag now (newer @ (k, v, written, expires) # older) k" "settled lag now written"
  shows "\<exists>v' t e. (k, v', t, e) \<in> set (newer @ [(k, v, written, expires)]) \<and> r = (if now < e then Some v' else None)"
  using assms(1)
proof (induction newer)
  case Nil
  with assms(2) show ?case by auto
next
  case (Cons w newer)
  obtain j v' t e where w: "w = (j, v', t, e)" by (cases w)
  consider "r \<in> kv_answers lag now (newer @ (k, v, written, expires) # older) k" | "j = k" "r = (if now < e then Some v' else None)"
    using Cons.prems by (auto simp: w split: if_splits)
  then show ?case
  proof cases
    case 1
    from Cons.IH [OF this] show ?thesis
      by (metis append_Cons list.set_intros(2))
  qed (auto simp: w)
qed

text \<open>Every entry that is alive stays alive for a while.\<close>

definition kv_lasting :: "'s kv_time \<Rightarrow> int \<Rightarrow> 's \<Rightarrow> bool" where
  "kv_lasting T d s \<longleftrightarrow>
     (\<forall>(k, v, written, expires) \<in> set (kv_writes T s). expires \<le> kv_now T s \<or> kv_now T s + d < expires)"

lemma latest_lasting:
  assumes "\<forall>(k, v, written, expires) \<in> set ws. expires \<le> now \<or> now + d < expires" "0 \<le> d"
  shows "kv_latest (now + d) ws k = kv_latest now ws k"
  using assms by (induction now ws k rule: kv_latest.induct) auto

text \<open>The value last written, and a state in which every write is settled.\<close>

definition kv_read :: "'s kv_time \<Rightarrow> 's \<Rightarrow> string \<Rightarrow> string option" where
  "kv_read T s k = kv_latest (kv_now T s) (kv_writes T s) k"

definition kv_settled :: "'s kv_time \<Rightarrow> int \<Rightarrow> 's \<Rightarrow> bool" where
  "kv_settled T lag s \<longleftrightarrow> (\<forall>(k, v, written, expires) \<in> set (kv_writes T s). settled lag (kv_now T s) written)"

lemma settled_answers:
  assumes "\<forall>(k, v, written, expires) \<in> set ws. settled lag now written"
  shows "kv_answers lag now ws k = {kv_latest now ws k}"
  using assms by (induction lag now ws k rule: kv_answers.induct) auto

locale kv_store =
  fixes kv :: "'s kv_api" and T :: "'s kv_time" and lag :: int
  assumes now_put: "kv_now T (kv_put kv s k v ttl) = kv_now T s"
    and writes_put: "kv_writes T (kv_put kv s k v ttl) = (k, v, kv_now T s, kv_now T s + ttl) # kv_writes T s"
    and now_wait: "kv_now T (kv_wait T s d) = kv_now T s + d"
    and writes_wait: "kv_writes T (kv_wait T s d) = kv_writes T s"
    and get_answers: "kv_get kv s k \<in> kv_answers lag (kv_now T s) (kv_writes T s) k"
begin

lemma put_all:
  "kv_now T (kv_put_all kv s es ttl) = kv_now T s"
  "kv_writes T (kv_put_all kv s es ttl) =
     rev (map (\<lambda>e. (fst e, snd e, kv_now T s, kv_now T s + ttl)) es) @ kv_writes T s"
  by (induction es arbitrary: s) (simp_all add: now_put writes_put)

lemma get_settled: "kv_settled T lag s \<Longrightarrow> kv_get kv s k = kv_read T s k"
  using get_answers [of s k] settled_answers [of "kv_writes T s" lag "kv_now T s"] by (simp add: kv_settled_def kv_read_def)

lemma read_put: "0 < ttl \<Longrightarrow> kv_read T (kv_put kv s k v ttl) j = (if j = k then Some v else kv_read T s j)"
  by (simp add: kv_read_def now_put writes_put)

lemma read_put_all:
  "distinct (map fst es) \<Longrightarrow> 0 < ttl \<Longrightarrow> kv_read T (kv_put_all kv s es ttl) j =
     (case map_of es j of Some v \<Rightarrow> Some v | None \<Rightarrow> kv_read T s j)"
proof (induction es arbitrary: s)
  case Nil
  then show ?case by simp
next
  case (Cons e es)
  have "map_of es (fst e) = None"
    using Cons.prems by (simp add: map_of_eq_None_iff)
  with Cons show ?case
    by (cases e) (simp add: read_put split: option.splits)
qed

lemma read_put_all_other: "j \<notin> fst ` set es \<Longrightarrow> 0 < ttl \<Longrightarrow> kv_read T (kv_put_all kv s es ttl) j = kv_read T s j"
  by (induction es arbitrary: s) (auto simp: read_put)

lemma read_wait: "kv_lasting T d s \<Longrightarrow> 0 \<le> d \<Longrightarrow> kv_read T (kv_wait T s d) j = kv_read T s j"
  unfolding kv_read_def now_wait writes_wait kv_lasting_def by (rule latest_lasting)

lemma lasting_wait: "kv_lasting T (d + d') s \<Longrightarrow> 0 \<le> d \<Longrightarrow> 0 \<le> d' \<Longrightarrow> kv_lasting T d s \<and> kv_lasting T d' (kv_wait T s d)"
  unfolding kv_lasting_def now_wait writes_wait by fastforce

lemma lasting_put_all: "kv_lasting T d s \<Longrightarrow> d < ttl \<Longrightarrow> kv_lasting T d (kv_put_all kv s es ttl)"
  unfolding kv_lasting_def put_all by auto

lemma settled_wait: "kv_settled T lag s \<Longrightarrow> 0 \<le> d \<Longrightarrow> kv_settled T lag (kv_wait T s d)"
  unfolding kv_settled_def now_wait writes_wait settled_def by fastforce

lemma settled_put_all_wait:
  "kv_settled T lag s \<Longrightarrow> 0 \<le> d \<Longrightarrow> lag \<le> d \<Longrightarrow> kv_settled T lag (kv_wait T (kv_put_all kv s es ttl) d)"
  using settled_wait [of s d] unfolding kv_settled_def now_wait writes_wait put_all by (auto simp: settled_def)

end

text \<open>A store whose reads are up to date.\<close>

locale prompt_kv_store = kv_store kv T 0 for kv :: "'s kv_api" and T :: "'s kv_time"
begin

lemma get_read: "kv_get kv s k = kv_read T s k"
  by (rule get_settled) (simp add: kv_settled_def settled_def)

lemma get_put: "0 < ttl \<Longrightarrow> kv_get kv (kv_put kv s k v ttl) j = (if j = k then Some v else kv_get kv s j)"
  by (simp add: get_read read_put)

end

section \<open>A store without lag\<close>

record kv_state =
  ks_now :: int
  ks_writes :: "kv_write list"

definition timed_kv :: "kv_state kv_api" where
  "timed_kv = \<lparr>kv_get = (\<lambda>s k. kv_latest (ks_now s) (ks_writes s) k),
     kv_put = (\<lambda>s k v ttl. s\<lparr>ks_writes := (k, v, ks_now s, ks_now s + ttl) # ks_writes s\<rparr>)\<rparr>"

definition kv_clock :: "kv_state kv_time" where
  "kv_clock = \<lparr>kv_now = ks_now, kv_writes = ks_writes, kv_wait = (\<lambda>s d. s\<lparr>ks_now := ks_now s + d\<rparr>)\<rparr>"

definition empty_store :: kv_state where
  "empty_store = \<lparr>ks_now = 0, ks_writes = []\<rparr>"

interpretation timed_store: kv_store timed_kv kv_clock lag for lag
  by unfold_locales (simp_all add: timed_kv_def kv_clock_def latest_answers)

interpretation prompt_store: prompt_kv_store timed_kv kv_clock
  by unfold_locales

lemma empty_store_get [simp]: "kv_get timed_kv empty_store k = None"
  by (simp add: timed_kv_def empty_store_def)

end
