(* ===== verification/Idempotency.thy ===== *)
theory Idempotency
  imports Kv_Store Json
begin

text \<open>
  The relay's idempotency records, \<^verbatim>\<open>services/relay/src/idempotency.ts\<close>: one JSON record per relay
  request, stored under its nullifier and under the hash of its calldata. \<open>keccak256\<close> (viem) is the
  parameter \<open>keccak\<close>; the store is a \<open>kv_api\<close>. Chain ids and times are integers (the relay passes
  one of two chain constants and \<open>Math.floor(Date.now() / 1000)\<close>). The lemmas read back a written
  record; the properties state that a recorded request is never ready to be sent again.
\<close>

datatype relay_status = Pending | Submitted

record relay_record =
  rr_status :: relay_status
  rr_chainId :: int
  rr_pool :: string
  rr_nullifier :: string
  rr_calldataHash :: string
  rr_updatedAtEpochSeconds :: int
  rr_txHash :: "string option"

record idempotency_input =
  ii_chainId :: int
  ii_pool :: string
  ii_nullifier :: string
  ii_calldata :: string
  ii_nowEpochSeconds :: int

record idempotency_prepared =
  ip_chainId :: int
  ip_pool :: string
  ip_nullifier :: string
  ip_calldataHash :: string
  ip_nullifierKey :: string
  ip_calldataKey :: string
  ip_nowEpochSeconds :: int

datatype idempotency_decision =
    Ready idempotency_prepared
  | PendingRecord relay_record
  | SubmittedRecord relay_record
  | Conflict

definition RELAY_IDEMPOTENCY_TTL_SECONDS :: int where
  "RELAY_IDEMPOTENCY_TTL_SECONDS = 60 * 60"

definition isHex :: "string \<Rightarrow> bool" where
  "isHex s \<longleftrightarrow> starts_with ''0x'' s \<and> 2 < length s \<and> list_all is_hex_char (drop 2 s)"

definition buildRelayIdempotencyPrepared :: "idempotency_input \<Rightarrow> string \<Rightarrow> idempotency_prepared" where
  "buildRelayIdempotencyPrepared input hash =
     (let pool = to_lower (ii_pool input);
          nullifier = to_lower (ii_nullifier input);
          calldataHash = to_lower hash;
          prefix = ''relay:'' @ dec_string (ii_chainId input) @ '':'' @ pool in
      \<lparr>ip_chainId = ii_chainId input, ip_pool = pool, ip_nullifier = nullifier,
       ip_calldataHash = calldataHash,
       ip_nullifierKey = prefix @ '':nullifier:'' @ nullifier,
       ip_calldataKey = prefix @ '':calldata:'' @ calldataHash,
       ip_nowEpochSeconds = ii_nowEpochSeconds input\<rparr>)"

fun status_text :: "relay_status \<Rightarrow> string" where
  "status_text Pending = ''pending''"
| "status_text Submitted = ''submitted''"

definition json_status :: "json option \<Rightarrow> relay_status option" where
  "json_status v =
     (case v of Some (JStr t) \<Rightarrow> if t = ''pending'' then Some Pending
                                 else if t = ''submitted'' then Some Submitted else None
      | _ \<Rightarrow> None)"

definition json_safe_int :: "json option \<Rightarrow> int option" where
  "json_safe_int v = (case v of Some (JNum n) \<Rightarrow> if is_safe_integer n then Some (num_int n) else None | _ \<Rightarrow> None)"

definition json_hex :: "json option \<Rightarrow> string option" where
  "json_hex v = (case v of Some (JStr t) \<Rightarrow> if isHex t then Some t else None | _ \<Rightarrow> None)"

text \<open>\<open>isRelayIdempotencyRecord\<close> on parsed JSON, returning the record it accepts.\<close>

definition isRelayIdempotencyRecord :: "json \<Rightarrow> relay_record option" where
  "isRelayIdempotencyRecord v =
     (case json_status (json_field v ''status'') of None \<Rightarrow> None | Some status \<Rightarrow>
      case json_safe_int (json_field v ''chainId'') of None \<Rightarrow> None | Some chainId \<Rightarrow>
      case json_hex (json_field v ''pool'') of None \<Rightarrow> None | Some pool \<Rightarrow>
      case json_hex (json_field v ''nullifier'') of None \<Rightarrow> None | Some nullifier \<Rightarrow>
      case json_hex (json_field v ''calldataHash'') of None \<Rightarrow> None | Some calldataHash \<Rightarrow>
      case json_safe_int (json_field v ''updatedAtEpochSeconds'') of None \<Rightarrow> None | Some updatedAt \<Rightarrow>
      let txHash = json_field v ''txHash'' in
      if txHash \<noteq> None \<and> json_hex txHash = None then None
      else Some \<lparr>rr_status = status, rr_chainId = chainId, rr_pool = pool, rr_nullifier = nullifier,
             rr_calldataHash = calldataHash, rr_updatedAtEpochSeconds = updatedAt, rr_txHash = json_hex txHash\<rparr>)"

definition readRelayIdempotencyRecord :: "'s kv_api \<Rightarrow> 's \<Rightarrow> string \<Rightarrow> relay_record option" where
  "readRelayIdempotencyRecord kv s key =
     (case kv_get kv s key of None \<Rightarrow> None
      | Some raw \<Rightarrow> if raw = [] then None
          else (case json_parse raw of None \<Rightarrow> None | Some v \<Rightarrow> isRelayIdempotencyRecord v))"

text \<open>The object literal of a record; an \<open>undefined\<close> transaction hash is not printed.\<close>

definition record_json :: "relay_record \<Rightarrow> json" where
  "record_json r = JObj
     ([(''status'', JStr (status_text (rr_status r))), (''chainId'', JNum (jsint (rr_chainId r))),
       (''pool'', JStr (rr_pool r)), (''nullifier'', JStr (rr_nullifier r)),
       (''calldataHash'', JStr (rr_calldataHash r))] @
      (case rr_txHash r of None \<Rightarrow> [] | Some h \<Rightarrow> [(''txHash'', JStr h)]) @
      [(''updatedAtEpochSeconds'', JNum (jsint (rr_updatedAtEpochSeconds r)))])"

definition writeRelayIdempotencyRecord ::
  "'s kv_api \<Rightarrow> 's \<Rightarrow> idempotency_prepared \<Rightarrow> relay_record \<Rightarrow> 's" where
  "writeRelayIdempotencyRecord kv s prepared r =
     (case stringify (record_json r) of None \<Rightarrow> s
      | Some serialized \<Rightarrow>
          kv_put_all kv s [(ip_nullifierKey prepared, serialized), (ip_calldataKey prepared, serialized)]
            RELAY_IDEMPOTENCY_TTL_SECONDS)"

definition recordRelayPending :: "'s kv_api \<Rightarrow> 's \<Rightarrow> idempotency_prepared \<Rightarrow> relay_record \<times> 's" where
  "recordRelayPending kv s prepared =
     (let r = \<lparr>rr_status = Pending, rr_chainId = ip_chainId prepared, rr_pool = ip_pool prepared,
               rr_nullifier = ip_nullifier prepared, rr_calldataHash = ip_calldataHash prepared,
               rr_updatedAtEpochSeconds = ip_nowEpochSeconds prepared, rr_txHash = None\<rparr> in
      (r, writeRelayIdempotencyRecord kv s prepared r))"

definition recordRelaySubmitted ::
  "'s kv_api \<Rightarrow> 's \<Rightarrow> idempotency_prepared \<Rightarrow> string \<Rightarrow> int \<Rightarrow> relay_record \<times> 's" where
  "recordRelaySubmitted kv s prepared txHash nowEpoch =
     (let r = \<lparr>rr_status = Submitted, rr_chainId = ip_chainId prepared, rr_pool = ip_pool prepared,
               rr_nullifier = ip_nullifier prepared, rr_calldataHash = ip_calldataHash prepared,
               rr_updatedAtEpochSeconds = nowEpoch, rr_txHash = Some txHash\<rparr> in
      (r, writeRelayIdempotencyRecord kv s prepared r))"

definition asSubmitted :: "relay_record option \<Rightarrow> relay_record option" where
  "asSubmitted r =
     (case r of None \<Rightarrow> None
      | Some q \<Rightarrow> if rr_status q = Submitted \<and> (\<exists>h \<in> set_option (rr_txHash q). isHex h) then Some q else None)"

definition prepareRelayIdempotency ::
  "'s kv_api \<Rightarrow> (string \<Rightarrow> string) \<Rightarrow> 's \<Rightarrow> idempotency_input \<Rightarrow> idempotency_decision" where
  "prepareRelayIdempotency kv keccak s input =
     (let calldataHash = keccak (ii_calldata input);
          prepared = buildRelayIdempotencyPrepared input calldataHash;
          nullifierRecord = readRelayIdempotencyRecord kv s (ip_nullifierKey prepared);
          calldataRecord = readRelayIdempotencyRecord kv s (ip_calldataKey prepared) in
      case asSubmitted calldataRecord of Some r \<Rightarrow> SubmittedRecord r
      | None \<Rightarrow>
        (if \<exists>r \<in> set_option calldataRecord. rr_status r = Pending then PendingRecord (the calldataRecord)
         else case nullifierRecord of
           Some r \<Rightarrow>
             (if to_lower (rr_calldataHash r) \<noteq> to_lower calldataHash then Conflict
              else case asSubmitted nullifierRecord of Some q \<Rightarrow> SubmittedRecord q
                   | None \<Rightarrow> PendingRecord r)
         | None \<Rightarrow> Ready prepared))"

section \<open>Reading back a record\<close>

definition record_ok :: "relay_record \<Rightarrow> bool" where
  "record_ok r \<longleftrightarrow> \<bar>rr_chainId r\<bar> \<le> MAX_SAFE_INTEGER \<and> \<bar>rr_updatedAtEpochSeconds r\<bar> \<le> MAX_SAFE_INTEGER \<and>
     isHex (rr_pool r) \<and> isHex (rr_nullifier r) \<and> isHex (rr_calldataHash r) \<and>
     (\<forall>h. rr_txHash r = Some h \<longrightarrow> isHex h)"

lemma record_json_fields:
  "json_field (record_json r) ''status'' = Some (JStr (status_text (rr_status r)))"
  "json_field (record_json r) ''chainId'' = Some (JNum (jsint (rr_chainId r)))"
  "json_field (record_json r) ''pool'' = Some (JStr (rr_pool r))"
  "json_field (record_json r) ''nullifier'' = Some (JStr (rr_nullifier r))"
  "json_field (record_json r) ''calldataHash'' = Some (JStr (rr_calldataHash r))"
  "json_field (record_json r) ''updatedAtEpochSeconds'' = Some (JNum (jsint (rr_updatedAtEpochSeconds r)))"
  "json_field (record_json r) ''txHash'' = map_option JStr (rr_txHash r)"
  by (auto simp: record_json_def json_field_def split: option.splits)

lemma json_status_text [simp]: "json_status (Some (JStr (status_text st))) = Some st"
  by (cases st) (simp_all add: json_status_def)

lemma json_safe_int_jsint [simp]:
  "\<bar>i\<bar> \<le> MAX_SAFE_INTEGER \<Longrightarrow> json_safe_int (Some (JNum (jsint i))) = Some i"
  by (simp add: json_safe_int_def)

lemma json_hex_JStr [simp]: "isHex t \<Longrightarrow> json_hex (Some (JStr t)) = Some t"
  by (simp add: json_hex_def)

lemma parse_record_json: "record_ok r \<Longrightarrow> isRelayIdempotencyRecord (record_json r) = Some r"
  unfolding record_ok_def isRelayIdempotencyRecord_def record_json_fields
  by (cases "rr_txHash r") (auto simp: Let_def json_hex_def)

lemma flat_int: "\<bar>i\<bar> \<le> MAX_SAFE_INTEGER \<Longrightarrow> flat_value (JNum (jsint i))"
  unfolding flat_value_def MAX_SAFE_INTEGER_def by (intro disjI2 exI [of _ i]) simp

lemma flat_JStr: "flat_value (JStr t)"
  by (simp add: flat_value_def)

lemma record_round_trip:
  assumes "record_ok r"
  shows "\<exists>t. stringify (record_json r) = Some t \<and> t \<noteq> [] \<and> json_parse t = Some (record_json r)"
proof -
  let ?kvs = "[(''status'', JStr (status_text (rr_status r))), (''chainId'', JNum (jsint (rr_chainId r))),
       (''pool'', JStr (rr_pool r)), (''nullifier'', JStr (rr_nullifier r)),
       (''calldataHash'', JStr (rr_calldataHash r))] @
      (case rr_txHash r of None \<Rightarrow> [] | Some h \<Rightarrow> [(''txHash'', JStr h)]) @
      [(''updatedAtEpochSeconds'', JNum (jsint (rr_updatedAtEpochSeconds r)))]"
  have "\<forall>kv \<in> set ?kvs. flat_value (snd kv)"
    using assms by (auto simp: record_ok_def flat_int flat_JStr split: option.splits)
  moreover have "distinct (map fst ?kvs)"
    by (auto split: option.splits)
  ultimately have "\<exists>t. stringify (JObj ?kvs) = Some t \<and> json_parse t = Some (JObj ?kvs) \<and> t \<noteq> []"
    by (intro json_round_trip) auto
  then show ?thesis
    unfolding record_json_def by blast
qed

text \<open>A record is written under two keys, and its text reads back.\<close>

lemma written_texts:
  assumes "kv_store kv T lag" "record_ok r"
  obtains t where "kv_writes T (writeRelayIdempotencyRecord kv s p r) =
      [(ip_calldataKey p, t, kv_now T s, kv_now T s + RELAY_IDEMPOTENCY_TTL_SECONDS),
       (ip_nullifierKey p, t, kv_now T s, kv_now T s + RELAY_IDEMPOTENCY_TTL_SECONDS)] @ kv_writes T s"
    "kv_now T (writeRelayIdempotencyRecord kv s p r) = kv_now T s" "t \<noteq> []" "json_parse t = Some (record_json r)"
proof -
  obtain t where t: "stringify (record_json r) = Some t" "t \<noteq> []" "json_parse t = Some (record_json r)"
    using record_round_trip [OF assms(2)] by blast
  show thesis
    using that [of t] t kv_store.put_all [OF assms(1)] by (simp add: writeRelayIdempotencyRecord_def del: kv_put_all.simps)
qed

lemma read_written:
  assumes "prompt_kv_store kv T" "record_ok r"
  shows "readRelayIdempotencyRecord kv (writeRelayIdempotencyRecord kv s p r) key =
    (if key = ip_nullifierKey p \<or> key = ip_calldataKey p then Some r else readRelayIdempotencyRecord kv s key)"
proof -
  obtain t where t: "stringify (record_json r) = Some t" "t \<noteq> []" "json_parse t = Some (record_json r)"
    using record_round_trip [OF assms(2)] by blast
  have "kv_get kv (writeRelayIdempotencyRecord kv s p r) key =
      (if key = ip_nullifierKey p \<or> key = ip_calldataKey p then Some t else kv_get kv s key)"
    using t(1) prompt_kv_store.get_put [OF assms(1)]
    by (simp add: writeRelayIdempotencyRecord_def RELAY_IDEMPOTENCY_TTL_SECONDS_def)
  then show ?thesis
    using t(2,3) parse_record_json [OF assms(2)] by (simp add: readRelayIdempotencyRecord_def)
qed

section \<open>A record that guards its note\<close>

text \<open>
  A record was written under the key at a time, to live for an hour, and what has been written
  there since is a record of the same kind.
\<close>

definition readable_record :: "string \<Rightarrow> bool" where
  "readable_record t \<longleftrightarrow> t \<noteq> [] \<and> (\<exists>v r. json_parse t = Some v \<and> isRelayIdempotencyRecord v = Some r)"

definition noted :: "'s kv_time \<Rightarrow> 's \<Rightarrow> string \<Rightarrow> int \<Rightarrow> bool" where
  "noted T s key at_time \<longleftrightarrow> at_time \<le> kv_now T s \<and>
     (\<exists>newer t older. kv_writes T s = newer @ (key, t, at_time, at_time + 3600) # older \<and> readable_record t \<and>
        (\<forall>(k, t', w, e) \<in> set newer. k = key \<longrightarrow> readable_record t' \<and> at_time \<le> w \<and> e = w + 3600))"

text \<open>Once it is visible and while it lives, a read of the key gives a record.\<close>

lemma noted_read:
  assumes "kv_store kv T lag" "noted T s key at_time" "at_time + lag \<le> kv_now T s" "kv_now T s < at_time + 3600"
  shows "readRelayIdempotencyRecord kv s key \<noteq> None"
proof -
  obtain newer t older where w: "kv_writes T s = newer @ (key, t, at_time, at_time + 3600) # older" "readable_record t"
    "\<forall>(k, t', w, e) \<in> set newer. k = key \<longrightarrow> readable_record t' \<and> at_time \<le> w \<and> e = w + 3600"
    using assms(2) unfolding noted_def by blast
  have "settled lag (kv_now T s) at_time" using assms(3) by (simp add: settled_def)
  from answers_settled [OF kv_store.get_answers [OF assms(1), of s key, unfolded w(1)] this]
  obtain t' w' e where get: "(key, t', w', e) \<in> set (newer @ [(key, t, at_time, at_time + 3600)])"
    "kv_get kv s key = (if kv_now T s < e then Some t' else None)" by blast
  then have "readable_record t'" "kv_now T s < e" using w(2,3) assms(4) by fastforce+
  with get(2) show ?thesis by (auto simp: readRelayIdempotencyRecord_def readable_record_def)
qed

lemma noted_wait:
  assumes "kv_store kv T lag" "noted T s key at_time" "0 \<le> d"
  shows "noted T (kv_wait T s d) key at_time"
  using assms(2,3) kv_store.now_wait [OF assms(1)] kv_store.writes_wait [OF assms(1)] by (simp add: noted_def)

lemma noted_write:
  assumes "kv_store kv T lag" "record_ok r"
  shows "noted T s key at_time \<Longrightarrow> noted T (writeRelayIdempotencyRecord kv s p r) key at_time"
    and "noted T (writeRelayIdempotencyRecord kv s p r) (ip_nullifierKey p) (kv_now T s)"
proof -
  let ?e = "kv_now T s + 3600"
  obtain t where t: "kv_writes T (writeRelayIdempotencyRecord kv s p r) =
      [(ip_calldataKey p, t, kv_now T s, ?e), (ip_nullifierKey p, t, kv_now T s, ?e)] @ kv_writes T s"
    "kv_now T (writeRelayIdempotencyRecord kv s p r) = kv_now T s" "readable_record t"
  proof (rule written_texts [OF assms, of s p], goal_cases)
    case (1 t)
    then show ?case
      using that [of t] parse_record_json [OF assms(2)] by (simp add: readable_record_def RELAY_IDEMPOTENCY_TTL_SECONDS_def)
  qed
  show "noted T (writeRelayIdempotencyRecord kv s p r) key at_time" if "noted T s key at_time"
  proof -
    from that obtain newer t0 older where old: "at_time \<le> kv_now T s"
      "kv_writes T s = newer @ (key, t0, at_time, at_time + 3600) # older" "readable_record t0"
      "\<forall>(k, t', w, e) \<in> set newer. k = key \<longrightarrow> readable_record t' \<and> at_time \<le> w \<and> e = w + 3600"
      unfolding noted_def by blast
    show ?thesis
      unfolding noted_def t(1,2)
      by (intro conjI old(1) exI [of _ "[(ip_calldataKey p, t, kv_now T s, ?e), (ip_nullifierKey p, t, kv_now T s, ?e)] @ newer"]
          exI [of _ t0] exI [of _ older]) (use old t(3) in auto)
  qed
  show "noted T (writeRelayIdempotencyRecord kv s p r) (ip_nullifierKey p) (kv_now T s)"
    unfolding noted_def t(1,2)
    by (intro conjI order_refl exI [of _ "[(ip_calldataKey p, t, kv_now T s, ?e)]"] exI [of _ t] exI [of _ "kv_writes T s"])
      (use t(3) in auto)
qed

lemma isHex_lower [simp]: "isHex s \<Longrightarrow> isHex (to_lower s)"
proof -
  assume s: "isHex s"
  then obtain t where "s = ''0x'' @ t"
    by (metis isHex_def starts_with_def append_take_drop_id)
  moreover have "lower_char (CHR ''0'') = CHR ''0''" "lower_char (CHR ''x'') = CHR ''x''"
    by (simp_all add: lower_char_def is_upper_def code_def)
  ultimately show "isHex (to_lower s)"
    using s by (simp add: isHex_def starts_with_def)
qed

definition input_ok :: "(string \<Rightarrow> string) \<Rightarrow> idempotency_input \<Rightarrow> bool" where
  "input_ok keccak input \<longleftrightarrow> \<bar>ii_chainId input\<bar> \<le> MAX_SAFE_INTEGER \<and>
     \<bar>ii_nowEpochSeconds input\<bar> \<le> MAX_SAFE_INTEGER \<and> isHex (ii_pool input) \<and> isHex (ii_nullifier input) \<and>
     isHex (keccak (ii_calldata input))"

definition same_note :: "idempotency_input \<Rightarrow> idempotency_input \<Rightarrow> bool" where
  "same_note a b \<longleftrightarrow> ii_chainId a = ii_chainId b \<and> to_lower (ii_pool a) = to_lower (ii_pool b) \<and>
     to_lower (ii_nullifier a) = to_lower (ii_nullifier b)"

lemma prepare_Ready:
  assumes "prepareRelayIdempotency kv keccak s input = Ready p"
  shows "p = buildRelayIdempotencyPrepared input (keccak (ii_calldata input))"
    and "readRelayIdempotencyRecord kv s (ip_nullifierKey p) = None"
  using assms
  by (auto simp: prepareRelayIdempotency_def Let_def split: option.splits if_splits)

lemma recorded_not_ready:
  "readRelayIdempotencyRecord kv s (ip_nullifierKey (buildRelayIdempotencyPrepared input (keccak (ii_calldata input)))) \<noteq> None
     \<Longrightarrow> prepareRelayIdempotency kv keccak s input \<noteq> Ready p"
  using prepare_Ready [of kv keccak s input p] by auto

lemma prepared_record_ok:
  assumes "input_ok keccak input" "p = buildRelayIdempotencyPrepared input (keccak (ii_calldata input))"
  shows "record_ok (fst (recordRelayPending kv s p))"
    and "isHex h \<Longrightarrow> \<bar>n\<bar> \<le> MAX_SAFE_INTEGER \<Longrightarrow> record_ok (fst (recordRelaySubmitted kv s p h n))"
  using assms
  by (auto simp: input_ok_def buildRelayIdempotencyPrepared_def Let_def record_ok_def
      recordRelayPending_def recordRelaySubmitted_def)

lemma same_note_key:
  "same_note a b \<Longrightarrow> ip_nullifierKey (buildRelayIdempotencyPrepared a h) = ip_nullifierKey (buildRelayIdempotencyPrepared b h')"
  by (simp add: same_note_def buildRelayIdempotencyPrepared_def Let_def)

lemma same_note_calldata_key:
  "same_note a b \<Longrightarrow> ip_calldataKey (buildRelayIdempotencyPrepared a h) = ip_calldataKey (buildRelayIdempotencyPrepared b h')
     \<longleftrightarrow> to_lower h = to_lower h'"
  by (simp add: same_note_def buildRelayIdempotencyPrepared_def Let_def)

lemma nullifier_calldata_keys: "same_note a b \<Longrightarrow>
  ip_nullifierKey (buildRelayIdempotencyPrepared a h) \<noteq> ip_calldataKey (buildRelayIdempotencyPrepared b h')"
  by (simp add: same_note_def buildRelayIdempotencyPrepared_def Let_def)

section \<open>The interface of a request log\<close>

text \<open>
  What a relay needs of the log that keeps it from sending a request twice: requests for the same
  note are marked together, a mark stays, and while a mark is visible (a delay after it was made)
  and alive (not yet a lifetime old) no request it covers is ready.
\<close>

fun serve :: "('s \<Rightarrow> 'k \<Rightarrow> bool) \<Rightarrow> ('s \<Rightarrow> 'k \<Rightarrow> 's) \<Rightarrow> ('s \<Rightarrow> int \<Rightarrow> 's) \<Rightarrow> ('s \<Rightarrow> int) \<Rightarrow> 's \<Rightarrow> (int \<times> 'k) list
    \<Rightarrow> (int \<times> 'k) list \<times> 's" where
  "serve ready mark wait now s [] = ([], s)"
| "serve ready mark wait now s ((d, k) # ks) =
     (let s0 = wait s d in
      if ready s0 k then (let (sent, s') = serve ready mark wait now (mark s0 k) ks in ((now s0, k) # sent, s'))
      else serve ready mark wait now s0 ks)"

locale request_log =
  fixes valid :: "'k \<Rightarrow> bool"
    and same :: "'k \<Rightarrow> 'k \<Rightarrow> bool"
    and ready :: "'s \<Rightarrow> 'k \<Rightarrow> bool"
    and marked :: "'s \<Rightarrow> 'k \<Rightarrow> int \<Rightarrow> bool"
    and mark :: "'s \<Rightarrow> 'k \<Rightarrow> 's"
    and wait :: "'s \<Rightarrow> int \<Rightarrow> 's"
    and now :: "'s \<Rightarrow> int"
    and delay :: int
    and lifetime :: int
  assumes ready_unmarked: "ready s k \<Longrightarrow> marked s k t \<Longrightarrow> now s < t + delay \<or> t + lifetime \<le> now s"
    and mark_marks: "valid k \<Longrightarrow> same k j \<Longrightarrow> marked (mark s k) j (now s)"
    and mark_keeps: "valid k \<Longrightarrow> marked s j t \<Longrightarrow> marked (mark s k) j t"
    and wait_keeps: "0 \<le> d \<Longrightarrow> marked s j t \<Longrightarrow> marked (wait s d) j t"
begin

lemma serve_marked:
  "serve ready mark wait now s ks = (sent, s') \<Longrightarrow> \<forall>(d, k) \<in> set ks. valid k \<and> 0 \<le> d \<Longrightarrow> (t', k) \<in> set sent \<Longrightarrow>
     marked s k t \<Longrightarrow> t' < t + delay \<or> t + lifetime \<le> t'"
proof (induction ks arbitrary: s sent)
  case Nil
  then show ?case by simp
next
  case (Cons x ks)
  obtain d j where x: "x = (d, j)" by fastforce
  let ?s = "wait s d"
  have kept: "marked ?s k t" using wait_keeps [of d s k t] Cons.prems(2,4) by (simp add: x)
  show ?case
  proof (cases "ready ?s j")
    case True
    obtain sent1 where run: "serve ready mark wait now (mark ?s j) ks = (sent1, s')" "sent = (now ?s, j) # sent1"
      using Cons.prems(1) True by (auto simp: x Let_def split: prod.splits)
    show ?thesis
    proof (cases "(t', k) = (now ?s, j)")
      case True
      with ready_unmarked [OF \<open>ready ?s j\<close>] kept show ?thesis by blast
    next
      case False
      have "marked (mark ?s j) k t" using mark_keeps [OF _ kept, of j] Cons.prems(2) by (simp add: x)
      with Cons.IH [OF run(1)] Cons.prems(2,3) run(2) False show ?thesis by auto
    qed
  next
    case False
    then have "serve ready mark wait now ?s ks = (sent, s')" using Cons.prems(1) by (simp add: x Let_def)
    from Cons.IH [OF this _ Cons.prems(3) kept] Cons.prems(2) show ?thesis by simp
  qed
qed

lemma serve_spaced:
  "serve ready mark wait now s ks = (sent, s') \<Longrightarrow> \<forall>(d, k) \<in> set ks. valid k \<and> 0 \<le> d \<Longrightarrow>
     sorted_wrt (\<lambda>(t, j) (t', k). same j k \<longrightarrow> t' < t + delay \<or> t + lifetime \<le> t') sent"
proof (induction ks arbitrary: s sent)
  case Nil
  then show ?case by simp
next
  case (Cons x ks)
  obtain d j where x: "x = (d, j)" by fastforce
  let ?s = "wait s d"
  show ?case
  proof (cases "ready ?s j")
    case True
    obtain sent1 where run: "serve ready mark wait now (mark ?s j) ks = (sent1, s')" "sent = (now ?s, j) # sent1"
      using Cons.prems(1) True by (auto simp: x Let_def split: prod.splits)
    have valid: "valid j" "\<forall>(d, k) \<in> set ks. valid k \<and> 0 \<le> d" using Cons.prems(2) by (auto simp: x)
    have "t' < now ?s + delay \<or> now ?s + lifetime \<le> t'" if "(t', k) \<in> set sent1" "same j k" for t' k
      by (rule serve_marked [OF run(1) valid(2) that(1) mark_marks [OF valid(1) that(2)]])
    with Cons.IH [OF run(1) valid(2)] run(2) show ?thesis by fastforce
  next
    case False
    then have "serve ready mark wait now ?s ks = (sent, s')" using Cons.prems(1) by (simp add: x Let_def)
    from Cons.IH [OF this] Cons.prems(2) show ?thesis by simp
  qed
qed

end

definition relay_ready :: "'s kv_api \<Rightarrow> (string \<Rightarrow> string) \<Rightarrow> 's \<Rightarrow> idempotency_input \<Rightarrow> bool" where
  "relay_ready kv keccak s input \<longleftrightarrow> (\<exists>p. prepareRelayIdempotency kv keccak s input = Ready p)"

definition relay_marked :: "'s kv_time \<Rightarrow> (string \<Rightarrow> string) \<Rightarrow> 's \<Rightarrow> idempotency_input \<Rightarrow> int \<Rightarrow> bool" where
  "relay_marked T keccak s input =
     noted T s (ip_nullifierKey (buildRelayIdempotencyPrepared input (keccak (ii_calldata input))))"

definition relay_mark :: "'s kv_api \<Rightarrow> (string \<Rightarrow> string) \<Rightarrow> 's \<Rightarrow> idempotency_input \<Rightarrow> 's" where
  "relay_mark kv keccak s input =
     snd (recordRelayPending kv s (buildRelayIdempotencyPrepared input (keccak (ii_calldata input))))"

lemma recordRelayPending_snd:
  "snd (recordRelayPending kv s p) = writeRelayIdempotencyRecord kv s p (fst (recordRelayPending kv s p))"
  by (simp add: recordRelayPending_def Let_def)

lemma relay_request_log:
  assumes "kv_store kv T lag"
  shows "request_log (input_ok keccak) same_note (relay_ready kv keccak) (relay_marked T keccak) (relay_mark kv keccak)
    (kv_wait T) (kv_now T) lag 3600"
proof unfold_locales
  fix s k t
  assume "relay_ready kv keccak s k" "relay_marked T keccak s k t"
  then show "kv_now T s < t + lag \<or> t + 3600 \<le> kv_now T s"
    using recorded_not_ready [of kv s k keccak] noted_read [OF assms]
    unfolding relay_ready_def relay_marked_def by (metis not_less)
next
  fix s :: 'a and d :: int and j t
  assume "0 \<le> d" "relay_marked T keccak s j t"
  then show "relay_marked T keccak (kv_wait T s d) j t"
    unfolding relay_marked_def by (intro noted_wait [OF assms])
next
  fix s k j
  let ?p = "buildRelayIdempotencyPrepared k (keccak (ii_calldata k))"
  assume "input_ok keccak k"
  then have ok: "record_ok (fst (recordRelayPending kv s ?p))"
    by (intro prepared_record_ok(1)) simp_all
  show "same_note k j \<Longrightarrow> relay_marked T keccak (relay_mark kv keccak s k) j (kv_now T s)"
    unfolding relay_marked_def relay_mark_def recordRelayPending_snd
    using same_note_key [of k j "keccak (ii_calldata k)" "keccak (ii_calldata j)"] noted_write(2) [OF assms ok] by metis
  show "relay_marked T keccak s j t \<Longrightarrow> relay_marked T keccak (relay_mark kv keccak s k) j t" for t
    unfolding relay_marked_def relay_mark_def recordRelayPending_snd by (rule noted_write(1) [OF assms ok])
qed

interpretation relay_log: request_log "input_ok keccak" same_note "relay_ready timed_kv keccak"
  "relay_marked kv_clock keccak" "relay_mark timed_kv keccak" "kv_wait kv_clock" "kv_now kv_clock" lag 3600 for keccak lag
  by (rule relay_request_log [OF timed_store.kv_store_axioms])

section \<open>Properties\<close>

text \<open>
  A recorded request blocks every further request for the same note, as long as its record is read back: once a ready request
  has been recorded as pending, a request for the same chain, pool and nullifier (in any case of
  the digits) is never ready; with the same calldata it is answered by the pending record, after
  the submission is recorded by the submitted record with its transaction hash, and with other
  calldata that was never recorded it is a conflict.
\<close>

theorem recorded_request_blocks:
  assumes "prompt_kv_store kv T" "prepareRelayIdempotency kv keccak s a = Ready p" "input_ok keccak a" "same_note a b"
    "isHex h" "\<bar>n\<bar> \<le> MAX_SAFE_INTEGER"
    "(rp, s1) = recordRelayPending kv s p" "(rs, s2) = recordRelaySubmitted kv s1 p h n"
  shows "(\<forall>q. prepareRelayIdempotency kv keccak s1 b \<noteq> Ready q \<and> prepareRelayIdempotency kv keccak s2 b \<noteq> Ready q) \<and>
    (to_lower (keccak (ii_calldata b)) = to_lower (keccak (ii_calldata a)) \<longrightarrow>
       prepareRelayIdempotency kv keccak s1 b = PendingRecord rp \<and>
       prepareRelayIdempotency kv keccak s2 b = SubmittedRecord rs \<and> rr_txHash rs = Some h) \<and>
    (to_lower (keccak (ii_calldata b)) \<noteq> to_lower (keccak (ii_calldata a)) \<and>
     readRelayIdempotencyRecord kv s (ip_calldataKey (buildRelayIdempotencyPrepared b (keccak (ii_calldata b)))) = None \<longrightarrow>
       prepareRelayIdempotency kv keccak s1 b = Conflict \<and> prepareRelayIdempotency kv keccak s2 b = Conflict)"
proof -
  let ?pb = "buildRelayIdempotencyPrepared b (keccak (ii_calldata b))"
  have p: "p = buildRelayIdempotencyPrepared a (keccak (ii_calldata a))"
    using prepare_Ready(1) [OF assms(2)] .
  have rp: "rp = fst (recordRelayPending kv s p)" "s1 = writeRelayIdempotencyRecord kv s p rp"
    using assms(7) by (auto simp: recordRelayPending_def Let_def)
  have rs: "rs = fst (recordRelaySubmitted kv s1 p h n)" "s2 = writeRelayIdempotencyRecord kv s1 p rs"
    using assms(8) by (auto simp: recordRelaySubmitted_def Let_def)
  have ok: "record_ok rp" "record_ok rs"
    using prepared_record_ok [OF assms(3) p] assms(5,6) rp(1) rs(1) by auto
  have keys: "ip_nullifierKey ?pb = ip_nullifierKey p"
    "ip_calldataKey ?pb = ip_calldataKey p \<longleftrightarrow> to_lower (keccak (ii_calldata b)) = to_lower (keccak (ii_calldata a))"
    "ip_calldataKey ?pb \<noteq> ip_nullifierKey p"
    using same_note_key [OF assms(4)] same_note_calldata_key [OF assms(4)] nullifier_calldata_keys [OF assms(4)]
    unfolding p by metis+
  have read1: "readRelayIdempotencyRecord kv s1 key = (if key = ip_nullifierKey p \<or> key = ip_calldataKey p
      then Some rp else readRelayIdempotencyRecord kv s key)" for key
    unfolding rp(2) by (rule read_written [OF assms(1) ok(1)])
  have read2: "readRelayIdempotencyRecord kv s2 key = (if key = ip_nullifierKey p \<or> key = ip_calldataKey p
      then Some rs else readRelayIdempotencyRecord kv s1 key)" for key
    unfolding rs(2) by (rule read_written [OF assms(1) ok(2)])
  have fields: "rr_status rp = Pending" "rr_calldataHash rp = to_lower (keccak (ii_calldata a))"
    "rr_status rs = Submitted" "rr_txHash rs = Some h" "rr_calldataHash rs = to_lower (keccak (ii_calldata a))"
    unfolding rp(1) rs(1) p
    by (simp_all add: recordRelayPending_def recordRelaySubmitted_def buildRelayIdempotencyPrepared_def Let_def)
  have sub: "asSubmitted (Some rp) = None" "asSubmitted (Some rs) = Some rs" "asSubmitted None = None"
    using fields assms(5) by (simp_all add: asSubmitted_def)
  have blocked: "prepareRelayIdempotency kv keccak s1 b \<noteq> Ready q" "prepareRelayIdempotency kv keccak s2 b \<noteq> Ready q" for q
    using recorded_not_ready [of kv s1 b keccak q] recorded_not_ready [of kv s2 b keccak q]
    by (simp_all add: keys read1 read2)
  show ?thesis
    using blocked by (auto simp: prepareRelayIdempotency_def Let_def keys read1 read2 sub fields)
qed

text \<open>
  C2: No note is sent twice while its record is read back: serve any sequence of well-formed
  requests one after the other, each some time after the one before and recorded as pending before
  it is sent, against a store that shows a write after a delay of at most \<open>lag\<close> and drops it when its
  lifetime is over. Of two requests sent for one chain, pool and nullifier, the later one comes
  within \<open>lag\<close> seconds of the earlier or at least an hour, the lifetime of the records, after it.
\<close>

theorem no_note_sent_twice:
  assumes "kv_store kv T lag" "\<forall>(d, k) \<in> set inputs. input_ok keccak k \<and> 0 \<le> d"
    "serve (relay_ready kv keccak) (relay_mark kv keccak) (kv_wait T) (kv_now T) s inputs = (sent, s')"
  shows "sorted_wrt (\<lambda>(t, a) (t', b). same_note a b \<longrightarrow> t' < t + lag \<or> t + 3600 \<le> t') sent"
  by (rule request_log.serve_spaced [OF relay_request_log [OF assms(1)] assms(3,2)])

definition sample_request :: "string \<Rightarrow> idempotency_input" where
  "sample_request calldata = \<lparr>ii_chainId = 6343, ii_pool = ''0xAb'', ii_nullifier = ''0x01'',
     ii_calldata = calldata, ii_nowEpochSeconds = 1000\<rparr>"

lemma sample_request_ok: "input_ok (\<lambda>c. c) (sample_request ''0x12'')" "input_ok (\<lambda>c. c) (sample_request ''0x34'')"
  "same_note (sample_request ''0x12'') (sample_request ''0x34'')"
  by (simp_all add: input_ok_def sample_request_def isHex_def same_note_def MAX_SAFE_INTEGER_def
      starts_with_def is_hex_char_def is_digit_def code_def)

lemma sample_ready:
  "prepareRelayIdempotency timed_kv keccak empty_store a =
     Ready (buildRelayIdempotencyPrepared a (keccak (ii_calldata a)))"
  by (simp add: prepareRelayIdempotency_def readRelayIdempotencyRecord_def asSubmitted_def Let_def)

lemma recorded_request_blocks_witness:
  "prepareRelayIdempotency timed_kv (\<lambda>c. c)
     (snd (recordRelayPending timed_kv empty_store
        (buildRelayIdempotencyPrepared (sample_request ''0x12'') ''0x12''))) (sample_request ''0x34'') = Conflict"
proof -
  let ?p = "buildRelayIdempotencyPrepared (sample_request ''0x12'') ''0x12''"
  have ready: "prepareRelayIdempotency timed_kv (\<lambda>c. c) empty_store (sample_request ''0x12'') = Ready ?p"
    using sample_ready [of "\<lambda>c. c" "sample_request ''0x12''"] by (simp add: sample_request_def)
  have "isHex ''0x99''" "\<bar>1001\<bar> \<le> MAX_SAFE_INTEGER"
    by (simp_all add: isHex_def starts_with_def is_hex_char_def is_digit_def code_def MAX_SAFE_INTEGER_def)
  from recorded_request_blocks [OF prompt_store.prompt_kv_store_axioms ready sample_request_ok(1,3) this prod.collapse prod.collapse]
  have "to_lower ''0x34'' \<noteq> to_lower ''0x12'' \<and> readRelayIdempotencyRecord timed_kv empty_store
      (ip_calldataKey (buildRelayIdempotencyPrepared (sample_request ''0x34'') ''0x34'')) = None \<longrightarrow>
    prepareRelayIdempotency timed_kv (\<lambda>c. c) (snd (recordRelayPending timed_kv empty_store ?p)) (sample_request ''0x34'') = Conflict"
    by (simp add: sample_request_def)
  moreover have "to_lower ''0x34'' \<noteq> to_lower ''0x12''"
    by code_simp
  moreover have "readRelayIdempotencyRecord timed_kv empty_store key = None" for key
    by (simp add: readRelayIdempotencyRecord_def)
  ultimately show ?thesis by blast
qed

text \<open>Ten seconds later the second request is held back; an hour after the first it is sent.\<close>

definition three_requests :: "(int \<times> idempotency_input) list" where
  "three_requests = [(0, sample_request ''0x12''), (10, sample_request ''0x34''), (3590, sample_request ''0x34'')]"

lemma no_note_sent_twice_witness:
  "\<exists>sent s'. serve (relay_ready timed_kv (\<lambda>c. c)) (relay_mark timed_kv (\<lambda>c. c)) (kv_wait kv_clock) (kv_now kv_clock)
     empty_store three_requests = (sent, s') \<and> sent = [(0, sample_request ''0x12''), (3600, sample_request ''0x34'')]"
proof -
  let ?ready = "relay_ready timed_kv (\<lambda>c. c)" and ?mark = "relay_mark timed_kv (\<lambda>c. c)"
  let ?a = "sample_request ''0x12''" and ?b = "sample_request ''0x34''"
  let ?serve = "serve ?ready ?mark (kv_wait kv_clock) (kv_now kv_clock)"
  obtain sent s' where run: "?serve empty_store three_requests = (sent, s')" by fastforce
  let ?s1 = "?mark empty_store ?a"
  have wait: "kv_wait kv_clock empty_store 0 = empty_store" "kv_now kv_clock empty_store = 0"
    by (simp_all add: kv_clock_def empty_store_def)
  have ready: "?ready empty_store ?a" using sample_ready [of "\<lambda>c. c"] by (auto simp: relay_ready_def)
  let ?p = "buildRelayIdempotencyPrepared ?a (ii_calldata ?a)"
  have s1: "?s1 = writeRelayIdempotencyRecord timed_kv empty_store ?p (fst (recordRelayPending timed_kv empty_store ?p))"
    unfolding relay_mark_def recordRelayPending_snd ..
  have "record_ok (fst (recordRelayPending timed_kv empty_store ?p))"
    by (rule prepared_record_ok(1) [OF sample_request_ok(1) refl])
  from written_texts [OF timed_store.kv_store_axioms this, of empty_store ?p] obtain t
    where "kv_writes kv_clock ?s1 = [(ip_calldataKey ?p, t, kv_now kv_clock empty_store, kv_now kv_clock empty_store +
        RELAY_IDEMPOTENCY_TTL_SECONDS), (ip_nullifierKey ?p, t, kv_now kv_clock empty_store, kv_now kv_clock empty_store +
        RELAY_IDEMPOTENCY_TTL_SECONDS)] @ kv_writes kv_clock empty_store" "kv_now kv_clock ?s1 = kv_now kv_clock empty_store"
    unfolding s1 by blast
  then have "\<forall>(k, v, t, e) \<in> set (ks_writes ?s1). e = 3600" "ks_now ?s1 = 0"
    by (simp_all add: kv_clock_def empty_store_def RELAY_IDEMPOTENCY_TTL_SECONDS_def)
  moreover have "kv_latest now ws k = None" if "\<forall>(k, v, t, e) \<in> set ws. e = 3600" "3600 \<le> now" for now ws k
    using that by (induction now ws k rule: kv_latest.induct) auto
  ultimately have "kv_get timed_kv (kv_wait kv_clock (kv_wait kv_clock ?s1 10) 3590) k = None"
    "kv_now kv_clock (kv_wait kv_clock (kv_wait kv_clock ?s1 10) 3590) = 3600" "kv_now kv_clock (kv_wait kv_clock ?s1 10) = 10" for k
    by (simp_all add: timed_kv_def kv_clock_def)
  note later = this
  have last_ready: "?ready (kv_wait kv_clock (kv_wait kv_clock ?s1 10) 3590) ?b"
    by (simp add: relay_ready_def prepareRelayIdempotency_def readRelayIdempotencyRecord_def asSubmitted_def later(1) Let_def)
  have spaced: "sorted_wrt (\<lambda>(t, a) (t', b). same_note a b \<longrightarrow> t' < t + 0 \<or> t + 3600 \<le> t') sent"
    by (rule no_note_sent_twice [OF timed_store.kv_store_axioms _ run]) (simp add: sample_request_ok three_requests_def)
  show ?thesis
  proof (cases "?ready (kv_wait kv_clock ?s1 10) ?b")
    case True
    then have "\<exists>more. sent = (0, ?a) # (10, ?b) # more"
      using run ready later(3) by (auto simp: three_requests_def wait Let_def split: prod.splits)
    with spaced sample_request_ok(3) show ?thesis by auto
  next
    case False
    then have "sent = [(0, ?a), (3600, ?b)]"
      using run ready last_ready later(2) by (auto simp: three_requests_def wait Let_def split: prod.splits)
    with run show ?thesis by blast
  qed
qed

end
