(* ===== verification/Indexer_Notes.thy ===== *)
theory Indexer_Notes
  imports Relay_Calldata
begin

text \<open>
  Encrypted notes in the indexer, \<^verbatim>\<open>services/indexer/src/encryptedNotes.ts\<close>: the cache of note
  events, the check of an envelope against its event, and the checks that a withdrawal's public
  inputs, ciphertext and event belong together (a full exit, an exit with private change, and the
  unlinkable exit of version 1.2).

  As in \<open>Proof_Context\<close> viem is a parameter, and \<open>keccak\<close> is total: the failure of \<open>keccak256\<close> on a
  string that begins with 0x and is not hex is not modelled. The file has its own copy of the
  envelope check of the relay, of the same text, which is \<open>validateEncryptedOutputNoteV2EnvelopeForBinding\<close>.
  A number is compared by \<open>num_eq\<close>, which is \<open>===\<close> on numbers.
\<close>

datatype note_event_type = DepositEvent | PrivateTransferEvent | WithdrawEvent | WithdrawChangeEvent | WithdrawOutputEvent

datatype nonce_or_counter = NonceHex string | CounterValue int

record note_envelope =
  ne_version :: jsnum
  ne_chainId :: jsnum
  ne_pool :: string
  ne_action :: note_event_type
  ne_commitment :: string
  ne_leafIndex :: jsnum
  ne_amount :: int
  ne_assetConvention :: string
  ne_recipientCiphertext :: string
  ne_senderRecoveryCiphertext :: string
  ne_nonceOrCounter :: nonce_or_counter
  ne_associatedDataHash :: string

record note_event =
  ev_chainId :: jsnum
  ev_pool :: string
  ev_eventType :: note_event_type
  ev_commitment :: string
  ev_nullifier :: "string option"
  ev_leafIndex :: jsnum
  ev_encryptedNote :: string
  ev_encryptionVersion :: jsnum
  ev_blockNumber :: int
  ev_transactionHash :: string
  ev_logIndex :: jsnum
  ev_observedAtMs :: jsnum
  ev_sourceRpc :: string

record note_cache =
  note_records :: "note_event list"

datatype note_error = PayloadNotEvenHex | EnvelopeMismatch "string list"

section \<open>The cache\<close>

definition createEncryptedNoteCache :: note_cache where
  "createEncryptedNoteCache = \<lparr>note_records = []\<rparr>"

definition addEncryptedNoteEvent :: "note_cache \<Rightarrow> note_event \<Rightarrow> note_error + note_cache" where
  "addEncryptedNoteEvent cache ev =
     (if \<not> isHexString (ev_encryptedNote ev) then Inl PayloadNotEvenHex
      else Inr (cache\<lparr>note_records := note_records cache @ [ev]\<rparr>))"

definition listEncryptedNoteEvents :: "note_cache \<Rightarrow> jsnum \<Rightarrow> string \<Rightarrow> int \<Rightarrow> int \<Rightarrow> note_event list" where
  "listEncryptedNoteEvents cache chainId pool from_block to_block =
     filter (\<lambda>ev. num_eq (ev_chainId ev) chainId \<and> to_lower (ev_pool ev) = to_lower pool \<and>
       ev_blockNumber ev \<ge> from_block \<and> ev_blockNumber ev \<le> to_block) (note_records cache)"

section \<open>An envelope against its event\<close>

definition action_matches :: "note_event_type \<Rightarrow> note_event_type \<Rightarrow> bool" where
  "action_matches action event \<longleftrightarrow> action = event \<or>
     event = WithdrawChangeEvent \<and> action = WithdrawEvent \<or>
     event = WithdrawOutputEvent \<and> (action = WithdrawEvent \<or> action = WithdrawChangeEvent)"

definition validateEncryptedNoteEnvelopeForRecord :: "note_event \<Rightarrow> note_envelope \<Rightarrow> string list" where
  "validateEncryptedNoteEnvelopeForRecord ev e =
     err_if (\<not> num_eq (ne_version e) (jsint 1) \<or> \<not> num_eq (ev_encryptionVersion ev) (ne_version e))
       ''encrypted note envelope version does not match indexed event'' @
     err_if (\<not> num_eq (ne_chainId e) (ev_chainId ev))
       ''encrypted note envelope chain does not match indexed event'' @
     err_if (to_lower (ne_pool e) \<noteq> to_lower (ev_pool ev))
       ''encrypted note envelope pool does not match indexed event'' @
     err_if (\<not> action_matches (ne_action e) (ev_eventType ev))
       ''encrypted note envelope action does not match indexed event'' @
     err_if (to_lower (ne_commitment e) \<noteq> to_lower (ev_commitment ev))
       ''encrypted note envelope commitment does not match indexed event'' @
     err_if (\<not> num_eq (ne_leafIndex e) (ev_leafIndex ev))
       ''encrypted note envelope leaf index does not match indexed event'' @
     err_if (ne_amount e \<notin> set SUPPORTED_FIXED_DENOMINATIONS)
       ''encrypted note envelope amount is not a supported fixed denomination'' @
     err_if (ne_assetConvention e \<noteq> ''native-eth-v1'')
       ''encrypted note envelope asset convention must be native ETH v1'' @
     err_if (\<not> isHexString (ne_recipientCiphertext e) \<or> length (ne_recipientCiphertext e) = 2)
       ''encrypted note envelope recipient ciphertext must be nonempty even-length hex'' @
     err_if (\<not> isHexString (ne_senderRecoveryCiphertext e) \<or> length (ne_senderRecoveryCiphertext e) = 2)
       ''encrypted note envelope sender recovery ciphertext must be nonempty even-length hex'' @
     err_if ((int (length (ne_recipientCiphertext e)) - 2) + (int (length (ne_senderRecoveryCiphertext e)) - 2) >
         2 * int MAX_ENCRYPTED_NOTE_BYTES)
       ''encrypted note envelope ciphertexts exceed maximum payload size'' @
     err_if (\<not> isHexBytes32 (ne_associatedDataHash e))
       ''encrypted note envelope associated data hash must be bytes32'' @
     err_if (case ne_nonceOrCounter e of CounterValue _ \<Rightarrow> False | NonceHex h \<Rightarrow> \<not> isHexBytes32 h)
       ''encrypted note envelope nonce or counter must be uint256-like bigint or bytes32''"

definition assertEncryptedNoteEnvelopeMatchesRecord :: "note_event \<Rightarrow> note_envelope \<Rightarrow> note_error + unit" where
  "assertEncryptedNoteEnvelopeMatchesRecord ev e =
     (let errors = validateEncryptedNoteEnvelopeForRecord ev e in
      if errors \<noteq> [] then Inl (EnvelopeMismatch errors) else Inr ())"

section \<open>Hashes of notes and contexts\<close>

definition note_hash_of :: "viem \<Rightarrow> encrypted_note_v1 \<Rightarrow> relay_throw + string" where
  "note_hash_of V n = core_result (bind_res (createEncryptedNoteV1 V None None n) (hashEncryptedNoteV1 V))"

definition computeStageBWithdrawPublicExitEncryptedNoteHash ::
  "viem \<Rightarrow> jsnum \<Rightarrow> string \<Rightarrow> string option \<Rightarrow> string option \<Rightarrow> string \<Rightarrow> int \<Rightarrow> relay_throw + string" where
  "computeStageBWithdrawPublicExitEncryptedNoteHash V chainId pool selector shape nullifier noteAmount =
     note_hash_of V \<lparr>en_domainSeparator = [], en_version = 0, en_chainId = chainId, en_pool = pool,
       en_shape = or_default shape (PROOF_CONTEXT_V1_SHAPE_WITHDRAW V),
       en_selector = or_default selector PROOF_CONTEXT_V1_WITHDRAW_RELAYER_POLICY_SELECTOR,
       en_nullifier = nullifier, en_commitment = ZERO_BYTES32, en_noteAmount = noteAmount,
       en_encryptedNote = ''0x''\<rparr>"

definition computeStageCWithdrawChangeNoteEncryptedNoteHash ::
  "viem \<Rightarrow> jsnum \<Rightarrow> string \<Rightarrow> string option \<Rightarrow> string option \<Rightarrow> string \<Rightarrow> string \<Rightarrow> int \<Rightarrow> string \<Rightarrow> relay_throw + string" where
  "computeStageCWithdrawChangeNoteEncryptedNoteHash V chainId pool selector shape nullifier changeCommitment
     changeAmount encryptedNote =
     note_hash_of V \<lparr>en_domainSeparator = [], en_version = 0, en_chainId = chainId, en_pool = pool,
       en_shape = or_default shape (PROOF_CONTEXT_V1_SHAPE_WITHDRAW V),
       en_selector = or_default selector STAGE_C_WITHDRAW_BOUNDED_SELECTOR,
       en_nullifier = nullifier, en_commitment = changeCommitment, en_noteAmount = changeAmount,
       en_encryptedNote = encryptedNote\<rparr>"

definition OUTPUT_NOTE_V2_DOMAIN_SEPARATOR :: "viem \<Rightarrow> string" where
  "OUTPUT_NOTE_V2_DOMAIN_SEPARATOR V = keccak V (text_hex ''nullark.encrypted-output-note.v2'')"

definition computeV12UnlinkableWithdrawEncryptedOutputNoteHash ::
  "viem \<Rightarrow> jsnum \<Rightarrow> string \<Rightarrow> string option \<Rightarrow> string \<Rightarrow> string \<Rightarrow> string \<Rightarrow> relay_throw + string" where
  "computeV12UnlinkableWithdrawEncryptedOutputNoteHash V chainId pool selector nullifier outputCommitment
     encryptedNote =
     bind_res (number_to_bigint chainId) (\<lambda>chain.
     core_result (bind_res (encode_abi V
       [AbiBytes32 (OUTPUT_NOTE_V2_DOMAIN_SEPARATOR V), AbiUint 2, AbiUint chain, AbiAddress pool,
        AbiBytes32 (PROOF_CONTEXT_V1_SHAPE_WITHDRAW_V1_2_FEE_GOVERNANCE V),
        AbiBytes4 (or_default selector STAGE_C_WITHDRAW_BOUNDED_SELECTOR),
        AbiBytes32 nullifier, AbiBytes32 outputCommitment, AbiBytes32 (keccak V encryptedNote)])
       (hashAbiEncodedToField V)))"

definition context_hash_of :: "viem \<Rightarrow> proof_context_v1 \<Rightarrow> relay_throw + string" where
  "context_hash_of V c = core_result (bind_res (createProofContextV1 V None None c) (hashProofContextV1 V))"

text \<open>What each validator returns; the context hash is absent when it was not computed.\<close>

record binding_validation =
  bv_encryptedNoteHash :: string
  bv_proofContextHash :: "string option"
  bv_errors :: "string list"
  bv_limitations :: "string list"


section \<open>Full exit\<close>

record exit_binding =
  xb_chainId :: jsnum
  xb_pool :: string
  xb_selector :: "string option"
  xb_proofContextShape :: "string option"
  xb_nullifier :: string
  xb_noteAmount :: int
  xb_encryptedNoteHash :: string
  xb_changeCommitment :: "string option"
  xb_encryptedChangeNote :: "string option"
  xb_proofContextHash :: "string option"
  xb_root :: "string option"
  xb_destination :: "string option"
  xb_grossAmount :: "int option"
  xb_fee :: "int option"
  xb_relayerPolicyHash :: "string option"
  xb_deadlineOrZero :: "int option"

text \<open>The optional fields of the context, when every one of them is there.\<close>

definition exit_context :: "viem \<Rightarrow> exit_binding \<Rightarrow> string \<Rightarrow> string \<Rightarrow> string \<Rightarrow> (proof_context_v1 \<times> string) option" where
  "exit_context V i selector shape noteHash =
     (case (xb_root i, xb_destination i, xb_grossAmount i, xb_fee i, xb_relayerPolicyHash i, xb_deadlineOrZero i,
        xb_proofContextHash i) of
      (Some r, Some d, Some gross_amount, Some f, Some policyHash, Some deadline, Some expected) \<Rightarrow>
        Some (\<lparr>pcx_domainSeparator = [], pcx_version = 0, pcx_chainId = xb_chainId i, pcx_pool = xb_pool i,
          pcx_shape = shape, pcx_selector = selector, pcx_root = r, pcx_nullifier = xb_nullifier i,
          pcx_destination = d, pcx_grossAmount = gross_amount, pcx_fee = f, pcx_encryptedNoteHash = noteHash,
          pcx_relayerPolicyHash = policyHash, pcx_deadlineOrZero = deadline\<rparr>, expected)
      | _ \<Rightarrow> None)"

definition exit_missing :: "exit_binding \<Rightarrow> string list" where
  "exit_missing i =
     (if xb_root i \<noteq> None \<or> xb_destination i \<noteq> None \<or> xb_grossAmount i \<noteq> None \<or> xb_fee i \<noteq> None \<or>
         xb_relayerPolicyHash i \<noteq> None \<or> xb_deadlineOrZero i \<noteq> None \<or> xb_proofContextHash i \<noteq> None
      then [''proof-bound withdrawal proofContextHash cannot be validated without root, destination, grossAmount, fee, relayerPolicyHash, deadlineOrZero, and proofContextHash.'']
      else [''proof-bound withdrawal proofContextHash requires calldata public inputs; encrypted-note chain logs are not sufficient.''])"

definition validateStageBWithdrawPublicExitIndexerBinding ::
  "viem \<Rightarrow> exit_binding \<Rightarrow> relay_throw + binding_validation" where
  "validateStageBWithdrawPublicExitIndexerBinding V i =
     (let selector = or_default (xb_selector i) PROOF_CONTEXT_V1_WITHDRAW_RELAYER_POLICY_SELECTOR;
          shape = or_default (xb_proofContextShape i) (PROOF_CONTEXT_V1_SHAPE_WITHDRAW V) in
     bind_res (computeStageBWithdrawPublicExitEncryptedNoteHash V (xb_chainId i) (xb_pool i) (Some selector)
       (Some shape) (xb_nullifier i) (xb_noteAmount i)) (\<lambda>h.
     let errors =
       err_if (selector \<noteq> PROOF_CONTEXT_V1_WITHDRAW_RELAYER_POLICY_SELECTOR)
         ''proof-bound public exit selector must be the withdraw relayer-policy selector'' @
       err_if (case xb_changeCommitment i of None \<Rightarrow> False | Some c \<Rightarrow> to_lower c \<noteq> ZERO_BYTES32)
         ''proof-bound public exit does not support change-note commitments'' @
       err_if (case xb_encryptedChangeNote i of None \<Rightarrow> False | Some n \<Rightarrow> n \<noteq> ''0x'')
         ''proof-bound public exit does not support encrypted change notes'' @
       err_if (to_lower h \<noteq> to_lower (xb_encryptedNoteHash i))
         ''proof-bound public exit encryptedNoteHash does not match chain-bound fields'' in
     case exit_context V i selector shape h of
       None \<Rightarrow> Inr \<lparr>bv_encryptedNoteHash = h, bv_proofContextHash = None, bv_errors = errors,
         bv_limitations = exit_missing i\<rparr>
     | Some (context, expected) \<Rightarrow> bind_res (context_hash_of V context) (\<lambda>c.
         Inr \<lparr>bv_encryptedNoteHash = h, bv_proofContextHash = Some c,
           bv_errors = errors @ err_if (to_lower c \<noteq> to_lower expected)
             ''proof-bound public exit proofContextHash does not match calldata-bound fields'',
           bv_limitations = []\<rparr>)))"

section \<open>Exit with private change\<close>

record change_binding =
  cb_chainId :: jsnum
  cb_pool :: string
  cb_selector :: "string option"
  cb_proofContextShape :: "string option"
  cb_nullifier :: string
  cb_noteAmount :: int
  cb_grossAmount :: int
  cb_fee :: int
  cb_changeCommitment :: string
  cb_changeAmount :: int
  cb_encryptedChangeNote :: string
  cb_encryptedNoteHash :: string
  cb_outputCommitments :: "string list option"
  cb_encryptedChangeNotes :: "string list option"
  cb_changeAmounts :: "int list option"
  cb_proofContextHash :: "string option"
  cb_root :: "string option"
  cb_destination :: "string option"
  cb_relayerPolicyHash :: "string option"
  cb_deadlineOrZero :: "int option"
  cb_eventRecord :: "note_event option"

definition change_amount_errors :: "change_binding \<Rightarrow> string \<Rightarrow> string list" where
  "change_amount_errors i selector =
     err_if (selector \<noteq> STAGE_C_WITHDRAW_BOUNDED_SELECTOR)
       ''private-change withdrawal selector must be the bounded change-note selector'' @
     err_if (\<not> isHexBytes32 (cb_changeCommitment i) \<or> to_lower (cb_changeCommitment i) = ZERO_BYTES32)
       ''private-change withdrawal change commitment must be a nonzero bytes32 value'' @
     err_if (\<not> isHexString (cb_encryptedChangeNote i) \<or> length (cb_encryptedChangeNote i) = 2)
       ''private-change withdrawal encrypted change note must be nonempty even-length hex'' @
     err_if (isHexString (cb_encryptedChangeNote i) \<and> note_too_long (cb_encryptedChangeNote i))
       ''private-change withdrawal encrypted change note exceeds maximum payload size'' @
     err_if (cb_changeAmount i \<le> 0) ''private-change withdrawal change amount must be positive'' @
     err_if (cb_noteAmount i \<notin> set SUPPORTED_FIXED_DENOMINATIONS)
       ''private-change withdrawal note amount must be a supported fixed denomination'' @
     err_if (cb_grossAmount i \<notin> set SUPPORTED_FIXED_DENOMINATIONS)
       ''private-change withdrawal gross amount must be a supported fixed denomination'' @
     err_if (cb_changeAmount i \<notin> set SUPPORTED_FIXED_DENOMINATIONS)
       ''private-change withdrawal change amount must be a supported fixed denomination'' @
     err_if (cb_fee i > cb_grossAmount i) ''private-change withdrawal fee cannot exceed public gross amount'' @
     err_if (cb_noteAmount i \<noteq> cb_grossAmount i + cb_changeAmount i)
       ''private-change withdrawal value conservation must satisfy noteAmount = grossAmount + changeAmount''"

definition change_order_errors :: "change_binding \<Rightarrow> string list" where
  "change_order_errors i =
     (let commitments = or_default (cb_outputCommitments i) [cb_changeCommitment i];
          notes = or_default (cb_encryptedChangeNotes i) [cb_encryptedChangeNote i];
          amounts = or_default (cb_changeAmounts i) [cb_changeAmount i] in
      if length commitments \<noteq> 1 \<or> length notes \<noteq> 1 \<or> length amounts \<noteq> 1
      then [''private-change withdrawal fixed arity supports exactly one private change output'']
      else
        err_if (to_lower (commitments ! 0) \<noteq> to_lower (cb_changeCommitment i))
          ''private-change withdrawal output commitment order does not match change commitment'' @
        err_if (to_lower (notes ! 0) \<noteq> to_lower (cb_encryptedChangeNote i))
          ''private-change withdrawal ciphertext order does not match change output'' @
        err_if (amounts ! 0 \<noteq> cb_changeAmount i)
          ''private-change withdrawal change amount order does not match change output'')"

definition change_event_errors :: "change_binding \<Rightarrow> note_event \<Rightarrow> string list" where
  "change_event_errors i ev =
     err_if (\<not> num_eq (ev_chainId ev) (cb_chainId i))
       ''private-change withdrawal event chain does not match change binding'' @
     err_if (to_lower (ev_pool ev) \<noteq> to_lower (cb_pool i))
       ''private-change withdrawal event pool does not match change binding'' @
     err_if (ev_eventType ev \<noteq> WithdrawChangeEvent)
       ''private-change withdrawal event type must be withdraw-change'' @
     err_if (to_lower (ev_commitment ev) \<noteq> to_lower (cb_changeCommitment i))
       ''private-change withdrawal event commitment does not match change binding'' @
     err_if (to_lower (ev_encryptedNote ev) \<noteq> to_lower (cb_encryptedChangeNote i))
       ''private-change withdrawal event ciphertext does not match change binding'' @
     err_if (case ev_nullifier ev of None \<Rightarrow> False | Some n \<Rightarrow> to_lower n \<noteq> to_lower (cb_nullifier i))
       ''private-change withdrawal event nullifier does not match change binding''"

definition change_context :: "viem \<Rightarrow> change_binding \<Rightarrow> string \<Rightarrow> string \<Rightarrow> string \<Rightarrow> (proof_context_v1 \<times> string) option" where
  "change_context V i selector shape noteHash =
     (case (cb_root i, cb_destination i, cb_relayerPolicyHash i, cb_deadlineOrZero i, cb_proofContextHash i) of
      (Some r, Some d, Some policyHash, Some deadline, Some expected) \<Rightarrow>
        Some (\<lparr>pcx_domainSeparator = [], pcx_version = 0, pcx_chainId = cb_chainId i, pcx_pool = cb_pool i,
          pcx_shape = shape, pcx_selector = selector, pcx_root = r, pcx_nullifier = cb_nullifier i,
          pcx_destination = d, pcx_grossAmount = cb_grossAmount i, pcx_fee = cb_fee i,
          pcx_encryptedNoteHash = noteHash, pcx_relayerPolicyHash = policyHash,
          pcx_deadlineOrZero = deadline\<rparr>, expected)
      | _ \<Rightarrow> None)"

definition change_missing :: "change_binding \<Rightarrow> string list" where
  "change_missing i =
     (if cb_root i \<noteq> None \<or> cb_destination i \<noteq> None \<or> cb_relayerPolicyHash i \<noteq> None \<or>
         cb_deadlineOrZero i \<noteq> None \<or> cb_proofContextHash i \<noteq> None
      then [''private-change withdrawal proofContextHash cannot be validated without root, destination, relayerPolicyHash, deadlineOrZero, and proofContextHash.'']
      else [''private-change withdrawal proofContextHash requires calldata public inputs; encrypted-note chain logs alone bind only event metadata and ciphertext.''])"

definition validateStageCWithdrawChangeNoteIndexerBinding ::
  "viem \<Rightarrow> change_binding \<Rightarrow> relay_throw + binding_validation" where
  "validateStageCWithdrawChangeNoteIndexerBinding V i =
     (let selector = or_default (cb_selector i) STAGE_C_WITHDRAW_BOUNDED_SELECTOR;
          shape = or_default (cb_proofContextShape i) (PROOF_CONTEXT_V1_SHAPE_WITHDRAW V) in
     bind_res (computeStageCWithdrawChangeNoteEncryptedNoteHash V (cb_chainId i) (cb_pool i) (Some selector)
       (Some shape) (cb_nullifier i) (cb_changeCommitment i) (cb_changeAmount i) (cb_encryptedChangeNote i)) (\<lambda>h.
     let errors = change_amount_errors i selector @ change_order_errors i @
       (case cb_eventRecord i of None \<Rightarrow> [] | Some ev \<Rightarrow> change_event_errors i ev) @
       err_if (to_lower h \<noteq> to_lower (cb_encryptedNoteHash i))
         ''private-change withdrawal encryptedNoteHash does not match chain-bound change fields'' in
     case change_context V i selector shape h of
       None \<Rightarrow> Inr \<lparr>bv_encryptedNoteHash = h, bv_proofContextHash = None, bv_errors = errors,
         bv_limitations = change_missing i\<rparr>
     | Some (context, expected) \<Rightarrow> bind_res (context_hash_of V context) (\<lambda>c.
         Inr \<lparr>bv_encryptedNoteHash = h, bv_proofContextHash = Some c,
           bv_errors = errors @ err_if (to_lower c \<noteq> to_lower expected)
             ''private-change withdrawal proofContextHash does not match calldata-bound change fields'',
           bv_limitations = []\<rparr>)))"

section \<open>The unlinkable exit of version 1.2\<close>

record readiness_evidence =
  re_runtimeId :: string
  re_chainId :: jsnum
  re_pool :: string
  re_status :: string
  re_mainnet4326Blocked :: bool
  re_finalReadiness :: "bool option"
  re_evidenceSha256 :: string

definition V12_MAINNET_POOL :: string where
  "V12_MAINNET_POOL = ''0x08bA57aA9Bc13Ccaf0dda0Fb7Cd7A2570b0FE4d8''"
definition V12_TESTNET_POOL :: string where
  "V12_TESTNET_POOL = ''0xEc61D863700DeF260E7BABA634FAa24AEC81f29e''"
definition V12_APPROVED_PUBLIC_RUNTIME_HASH :: string where
  "V12_APPROVED_PUBLIC_RUNTIME_HASH = ''0x66def458e16ea6ed9d1df9c15a79ec83c23d4d4ccdec631d868f614cc0e94ff4''"
definition V12_APPROVED_TRUSTED_SETUP_RECORD_HASH :: string where
  "V12_APPROVED_TRUSTED_SETUP_RECORD_HASH = ''0xb87aa47a407f0347a920fcebe76f84d402be8bd5e82f5fe5980ffea557bfa996''"
definition V12_TESTNET_TRUSTED_SETUP_RECORD_HASH :: string where
  "V12_TESTNET_TRUSTED_SETUP_RECORD_HASH = ''0x7cf2ba6c7d482179a5a246ad4fa0ab7c4bbebb6a48108d0fe0963b8a364c825e''"

record runtime_binding =
  rb_runtimeId :: string
  rb_chainId :: jsnum
  rb_pool :: string
  rb_approvedEvidenceHashes :: "string list"

definition V12_INDEXER_READINESS_BINDINGS :: "runtime_binding list" where
  "V12_INDEXER_READINESS_BINDINGS =
     [\<lparr>rb_runtimeId = ''nullark-v1.2-mainnet'', rb_chainId = jsint 4326, rb_pool = V12_MAINNET_POOL,
       rb_approvedEvidenceHashes = [V12_APPROVED_PUBLIC_RUNTIME_HASH, V12_APPROVED_TRUSTED_SETUP_RECORD_HASH]\<rparr>,
      \<lparr>rb_runtimeId = ''nullark-v1.2-fee-governance'', rb_chainId = jsint 4326, rb_pool = V12_MAINNET_POOL,
       rb_approvedEvidenceHashes = [V12_APPROVED_PUBLIC_RUNTIME_HASH, V12_APPROVED_TRUSTED_SETUP_RECORD_HASH]\<rparr>,
      \<lparr>rb_runtimeId = ''nullark-v1.2-testnet-rehearsal'', rb_chainId = jsint 6343, rb_pool = V12_TESTNET_POOL,
       rb_approvedEvidenceHashes = [V12_TESTNET_TRUSTED_SETUP_RECORD_HASH]\<rparr>]"

definition hasMatchingV12IndexerReadinessEvidence :: "readiness_evidence option \<Rightarrow> jsnum \<Rightarrow> string \<Rightarrow> bool" where
  "hasMatchingV12IndexerReadinessEvidence evidence chainId pool =
     (case evidence of None \<Rightarrow> False
      | Some e \<Rightarrow>
        (case find (\<lambda>b. rb_runtimeId b = re_runtimeId e \<and> num_eq (rb_chainId b) chainId \<and>
             to_lower (rb_pool b) = to_lower pool) V12_INDEXER_READINESS_BINDINGS of
           None \<Rightarrow> False
         | Some b \<Rightarrow> re_runtimeId e = rb_runtimeId b \<and> re_status e = ''ready'' \<and> \<not> re_mainnet4326Blocked e \<and>
             re_finalReadiness e = Some True \<and> num_eq (re_chainId e) (rb_chainId b) \<and>
             to_lower (re_pool e) = to_lower (rb_pool b) \<and>
             (\<exists>h \<in> set (rb_approvedEvidenceHashes b). to_lower h = to_lower (re_evidenceSha256 e))))"

text \<open>\<open>ob_extraFields\<close>: names of further fields of the input that are not \<open>undefined\<close>.\<close>

record output_binding =
  ob_chainId :: jsnum
  ob_pool :: string
  ob_selector :: "string option"
  ob_publicInputs :: "string list"
  ob_encryptedOutputNote :: string
  ob_relayerPolicyHash :: "string option"
  ob_deadlineOrZero :: "int option"
  ob_eventRecord :: "note_event option"
  ob_readinessEvidence :: "readiness_evidence option"
  ob_extraFields :: "string list"

definition bytes32ToEvmAddress :: "string \<Rightarrow> string" where
  "bytes32ToEvmAddress s = ''0x'' @ to_lower (drop (length s - 40) s)"

definition output_shape_errors :: "output_binding \<Rightarrow> string \<Rightarrow> string list" where
  "output_shape_errors i selector =
     (let has = (\<lambda>k. k \<in> set (ob_extraFields i)) in
     err_if (selector \<noteq> STAGE_C_WITHDRAW_BOUNDED_SELECTOR)
       ''v1.2 unlinkable output-note withdrawal selector must be the bounded output-note selector'' @
     err_if (\<not> hasMatchingV12IndexerReadinessEvidence (ob_readinessEvidence i) (ob_chainId i) (ob_pool i))
       ''v1.2 unlinkable indexer binding remains blocked until matching readiness evidence is present.'' @
     (if length (ob_publicInputs i) \<noteq> 10
      then ''v1.2 unlinkable withdrawal public inputs must include exactly 10 fields'' #
        err_if (length (ob_publicInputs i) \<ge> 12)
          ''v1.2 unlinkable withdrawal public inputs must not expose spentCommitment or noteAmount''
      else []) @
     err_if (has ''spentCommitment'' \<or> has ''noteAmount'')
       ''v1.2 unlinkable output-note validation does not accept spentCommitment or noteAmount'' @
     err_if (has ''encryptedNoteHash'')
       ''v1.2 unlinkable output-note validation does not accept encryptedNoteHash'' @
     err_if (has ''changeCommitment'' \<or> has ''changeAmount'')
       ''v1.2 unlinkable output-note validation does not accept changeCommitment or changeAmount'' @
     err_if (has ''encryptedChangeNote'' \<or> has ''encryptedChangeNotes'')
       ''v1.2 unlinkable output-note validation does not accept encryptedChangeNote or encryptedChangeNotes'' @
     err_if (has ''outputCommitments'' \<or> has ''changeAmounts'')
       ''v1.2 unlinkable output-note validation does not accept outputCommitments or changeAmounts'' @
     err_if (\<not> list_all isHexBytes32 (ob_publicInputs i))
       ''v1.2 unlinkable withdrawal public inputs must be bytes32 values'')"

definition output_note_errors :: "output_binding \<Rightarrow> int \<Rightarrow> int \<Rightarrow> string \<Rightarrow> string \<Rightarrow> string list" where
  "output_note_errors i chainInput chain nullifier outputCommitment =
     (let note' = ob_encryptedOutputNote i in
     err_if (chainInput \<noteq> chain) ''v1.2 unlinkable withdrawal chain ID does not match public inputs'' @
     err_if (to_lower (bytes32ToEvmAddress (input_or (ob_publicInputs i) 7 ZERO_BYTES32)) \<noteq> to_lower (ob_pool i))
       ''v1.2 unlinkable withdrawal pool does not match public inputs'' @
     err_if (\<not> isHexBytes32 nullifier \<or> to_lower nullifier = ZERO_BYTES32)
       ''v1.2 unlinkable withdrawal nullifier must be nonzero bytes32'' @
     (if \<not> isHexBytes32 outputCommitment then [''v1.2 unlinkable output commitment must be bytes32'']
      else err_if (to_lower outputCommitment = ZERO_BYTES32)
        ''v1.2 unlinkable output commitment must be nonzero bytes32'') @
     err_if (\<not> isHexString note' \<or> length note' = 2)
       ''v1.2 unlinkable withdrawal encrypted output note must be always-present nonempty even-length hex'' @
     err_if (isHexString note' \<and> note_too_long note')
       ''v1.2 unlinkable encrypted output note exceeds maximum payload size'' @
     (if isHexString note' \<and> length note' > 2
      then validateEncryptedOutputNoteV2EnvelopeForBinding note' (ob_chainId i) (ob_pool i) outputCommitment else []))"

definition output_event_errors :: "output_binding \<Rightarrow> string \<Rightarrow> string \<Rightarrow> string list" where
  "output_event_errors i nullifier outputCommitment =
     (case ob_eventRecord i of
        None \<Rightarrow> [''v1.2 unlinkable output-note event evidence is required'']
      | Some ev \<Rightarrow>
        err_if (\<not> num_eq (ev_chainId ev) (ob_chainId i))
          ''v1.2 unlinkable output-note event chain does not match binding'' @
        err_if (to_lower (ev_pool ev) \<noteq> to_lower (ob_pool i))
          ''v1.2 unlinkable output-note event pool does not match binding'' @
        err_if (ev_eventType ev \<noteq> WithdrawOutputEvent)
          ''v1.2 unlinkable output-note event type must be withdraw-output'' @
        err_if (to_lower (ev_commitment ev) \<noteq> to_lower outputCommitment)
          ''v1.2 unlinkable output-note event commitment does not match output commitment'' @
        err_if (to_lower (ev_encryptedNote ev) \<noteq> to_lower (ob_encryptedOutputNote i))
          ''v1.2 unlinkable output-note event ciphertext does not match encrypted output note'' @
        err_if (case ev_nullifier ev of None \<Rightarrow> False | Some n \<Rightarrow> to_lower n \<noteq> to_lower nullifier)
          ''v1.2 unlinkable output-note event nullifier does not match public inputs'')"

text \<open>The context of the public inputs, when the policy hash and the deadline are given.\<close>

definition output_context :: "viem \<Rightarrow> output_binding \<Rightarrow> string \<Rightarrow> string \<Rightarrow> (relay_throw + string) option" where
  "output_context V i selector noteHash =
     (let xs = ob_publicInputs i in
      case (ob_relayerPolicyHash i, ob_deadlineOrZero i) of
        (Some policyHash, Some deadline) \<Rightarrow> Some (
          bind_res (bytes32ToBigInt (input_or xs 4 ZERO_BYTES32)) (\<lambda>gross_amount.
          bind_res (bytes32ToBigInt (input_or xs 5 ZERO_BYTES32)) (\<lambda>f.
          context_hash_of V \<lparr>pcx_domainSeparator = [], pcx_version = 0, pcx_chainId = ob_chainId i,
            pcx_pool = ob_pool i, pcx_shape = PROOF_CONTEXT_V1_SHAPE_WITHDRAW_V1_2_FEE_GOVERNANCE V,
            pcx_selector = selector, pcx_root = input_or xs 0 ZERO_BYTES32,
            pcx_nullifier = input_or xs 1 ZERO_BYTES32,
            pcx_destination = bytes32ToEvmAddress (input_or xs 3 ZERO_BYTES32), pcx_grossAmount = gross_amount,
            pcx_fee = f, pcx_encryptedNoteHash = noteHash, pcx_relayerPolicyHash = policyHash,
            pcx_deadlineOrZero = deadline\<rparr>)))
      | _ \<Rightarrow> None)"

definition validateV12UnlinkableWithdrawOutputNoteIndexerBinding ::
  "viem \<Rightarrow> output_binding \<Rightarrow> relay_throw + binding_validation" where
  "validateV12UnlinkableWithdrawOutputNoteIndexerBinding V i =
     (let xs = ob_publicInputs i;
          selector = or_default (ob_selector i) STAGE_C_WITHDRAW_BOUNDED_SELECTOR;
          nullifier = input_or xs 1 ZERO_BYTES32;
          outputCommitment = input_or xs 2 ZERO_BYTES32 in
     bind_res (bytes32ToBigInt (input_or xs 6 ZERO_BYTES32)) (\<lambda>chainInput.
     bind_res (number_to_bigint (ob_chainId i)) (\<lambda>chain.
     bind_res (computeV12UnlinkableWithdrawEncryptedOutputNoteHash V (ob_chainId i) (ob_pool i) (Some selector)
       nullifier outputCommitment (ob_encryptedOutputNote i)) (\<lambda>h.
     let errors = output_shape_errors i selector @
       output_note_errors i chainInput chain nullifier outputCommitment @
       output_event_errors i nullifier outputCommitment @
       err_if (to_lower h \<noteq> to_lower (input_or xs 9 ZERO_BYTES32))
         ''v1.2 unlinkable withdrawal encryptedOutputNoteHash does not match output-note fields'' in
     case output_context V i selector h of
       None \<Rightarrow> Inr \<lparr>bv_encryptedNoteHash = h, bv_proofContextHash = None, bv_errors = js_unique errors,
         bv_limitations = [''v1.2 unlinkable withdrawal proofContextHash requires relayerPolicyHash and deadlineOrZero local hints; 10 public inputs and encrypted output-note bytes do not include them.'']\<rparr>
     | Some context \<Rightarrow> bind_res context (\<lambda>c.
         Inr \<lparr>bv_encryptedNoteHash = h, bv_proofContextHash = Some c,
           bv_errors = js_unique (errors @ err_if (to_lower c \<noteq> to_lower (input_or xs 8 ZERO_BYTES32))
             ''v1.2 unlinkable withdrawal proofContextHash does not match output-note fields''),
           bv_limitations = []\<rparr>)))))"

end
