(* ===== verification/Relay_Bindings.thy ===== *)
theory Relay_Bindings
  imports Relay_Calldata
begin

text \<open>
  What the relay's calldata check guarantees: a call it allows is bound to its proof's public
  inputs, to the hashes the proof commits to and to the relayer's request, and conserves value.
\<close>

section \<open>What an allowed call has passed\<close>

lemma core_result_Inr [res_simps]: "core_result r = Inr a \<longleftrightarrow> r = Inr a"
  by (cases r) (simp_all add: core_result_def)

lemma getAddress_Inr [res_simps]: "getAddress L a = Inr c \<longleftrightarrow> get_address L a = Some c"
  by (auto simp: getAddress_def split: option.splits)

lemma number_to_bigint_Inr [res_simps]: "number_to_bigint n = Inr i \<longleftrightarrow> is_integer n \<and> i = num_int n"
  by (auto simp: number_to_bigint_def)

lemma bytes32ToBigInt_hex: "isHexBytes32 s \<Longrightarrow> bytes32ToBigInt s = Inr (hex_value s)"
  by (simp add: bytes32ToBigInt_def js_bigint_bytes32)

definition expected_fee :: "calldata_input \<Rightarrow> relay_call \<Rightarrow> int" where
  "expected_fee input call =
     calculateWithdrawalFee (call_grossAmount call) (map_option activeFeeBps (ci_feePolicy input))"

lemma validateV11_allowed:
  assumes "validateV11 L input call = Inr v" "cv_allowed v"
  obtains pool dest publicFee noteAmount grossInput chainInput where
    "cv_decoded v = Some call"
    "addressToBytes32 L (ci_pool input) = Inr pool" "addressToBytes32 L (call_destination call) = Inr dest"
    "bytes32ToBigInt (input_or (publicInputs call) 5 ZERO_BYTES32) = Inr publicFee"
    "bytes32ToBigInt (input_or (publicInputs call) 9 ZERO_BYTES32) = Inr noteAmount"
    "bytes32ToBigInt (input_or (publicInputs call) 4 ZERO_BYTES32) = Inr grossInput"
    "bytes32ToBigInt (input_or (publicInputs call) 6 ZERO_BYTES32) = Inr chainInput"
    "is_integer (ci_chainId input)" "policy_errors input call publicFee = Inr []"
    "publicFee = expected_fee input call"
    "call_input_errors call dest grossInput = []"
    "pool_input_errors call pool chainInput (num_int (ci_chainId input)) = []"
    "amount_errors call noteAmount = []" "bound_errors call (expected_fee input call) = []"
    "stage_errors L input call (expected_fee input call) noteAmount
       (selectWithdrawalProofContextShape L (ci_feePolicy input)) = Inr []"
proof -
  show ?thesis
    using assms(1) unfolding validateV11_def Let_def
    apply (elim res_elims)
    using assms(2)
    apply (simp add: res_simps)
    apply (elim conjE)
    apply (rule that)
    apply (simp_all add: expected_fee_def res_simps)
    done
qed

text \<open>The three shapes of a decoded call.\<close>

definition call_shape :: "relay_call \<Rightarrow> bool" where
  "call_shape c \<longleftrightarrow> hasUserBounds c \<and> map to_lower (publicInputs c) = publicInputs c \<and>
     to_lower (call_nullifier c) = call_nullifier c \<and> call_minNetAmount c \<noteq> None \<and> call_maxFeeAmount c \<noteq> None \<and>
     (call_selector c = WITHDRAW_BOUNDED_SELECTOR \<and> \<not> hasChangeNote c \<and> call_relayerPolicy c = None \<and>
        encryptedChangeNote c = None \<or>
      call_selector c = PROOF_CONTEXT_V1_WITHDRAW_RELAYER_POLICY_SELECTOR \<and> \<not> hasChangeNote c \<and>
        (\<exists>p. call_relayerPolicy c = Some p \<and> call_minNetAmount c = Some (sb_minNetAmount p) \<and>
           call_maxFeeAmount c = Some (sb_maxFeeAmount p)) \<and> encryptedChangeNote c = None \<or>
      call_selector c = STAGE_C_WITHDRAW_BOUNDED_SELECTOR \<and> hasChangeNote c \<and> call_relayerPolicy c = None \<and>
        encryptedChangeNote c \<noteq> None)"

lemma normalizeDecoded_Inr:
  assumes "normalizeDecodedWithdrawalCall L sel inputs n d g note mi ma pol ch bo = Inr c"
  shows "call_selector c = sel \<and> hasChangeNote c = ch \<and> hasUserBounds c = bo \<and>
    publicInputs c = map to_lower inputs \<and> call_nullifier c = to_lower n \<and> encryptedChangeNote c = note \<and>
    (case pol of None \<Rightarrow> call_relayerPolicy c = None \<and> call_minNetAmount c = mi \<and> call_maxFeeAmount c = ma
     | Some p \<Rightarrow> \<exists>q. call_relayerPolicy c = Some q \<and> sb_minNetAmount q = sb_minNetAmount p \<and>
         sb_maxFeeAmount q = sb_maxFeeAmount p \<and> call_minNetAmount c = Some (sb_minNetAmount p) \<and>
         call_maxFeeAmount c = Some (sb_maxFeeAmount p))"
  using assms unfolding normalizeDecodedWithdrawalCall_def
  by (auto simp: res_simps Let_def split: option.splits)

lemma or_none_Some [simp]: "or_none r = Some a \<longleftrightarrow> r = Inr a"
  by (cases r) (simp_all add: or_none_def)

lemma decodeBounded_shape: "decodeBounded L WITHDRAW_BOUNDED_SELECTOR e = Some c \<Longrightarrow>
    call_shape c \<and> call_selector c = WITHDRAW_BOUNDED_SELECTOR"
  by (auto simp: decodeBounded_def call_shape_def comp_def dest!: normalizeDecoded_Inr
      split: option.splits list.splits decoded_value.splits)

lemma decodeRelayerPolicy_shape:
  "decodeRelayerPolicyCall L PROOF_CONTEXT_V1_WITHDRAW_RELAYER_POLICY_SELECTOR e = Some c \<Longrightarrow>
    call_shape c \<and> call_selector c = PROOF_CONTEXT_V1_WITHDRAW_RELAYER_POLICY_SELECTOR"
  by (auto simp: decodeRelayerPolicyCall_def call_shape_def comp_def dest!: normalizeDecoded_Inr
      split: option.splits list.splits decoded_value.splits)

lemma decodeStageC_shape: "decodeStageC L STAGE_C_WITHDRAW_BOUNDED_SELECTOR e = Some c \<Longrightarrow>
    call_shape c \<and> call_selector c = STAGE_C_WITHDRAW_BOUNDED_SELECTOR"
  by (auto simp: decodeStageC_def call_shape_def comp_def dest!: normalizeDecoded_Inr
      split: option.splits list.splits decoded_value.splits)

lemma decode_shape:
  assumes "decodeWithdrawalRelayCall L data = Inr c"
  shows "call_shape c \<and> to_lower (take 10 data) = call_selector c"
  using assms decodeBounded_shape decodeRelayerPolicy_shape decodeStageC_shape
  by (auto simp: decodeWithdrawalRelayCall_def decoded_or_error_def FUNCTION_SELECTOR_LENGTH_def Let_def
      split: if_splits option.splits)

lemma to_lower_drop: "to_lower (drop n s) = drop n (to_lower s)"
  by (simp add: to_lower_def drop_map)

lemma address_word_lower [simp]: "to_lower (address_word a) = address_word a"
  by (simp add: address_word_def to_lower_drop)

lemma addressToBytes32_Inr [res_simps]:
  "addressToBytes32 L a = Inr w \<longleftrightarrow> (\<exists>c. get_address L a = Some c \<and> w = address_word c)"
  by (auto simp: addressToBytes32_def res_simps address_word_def to_lower_drop)

lemma input_or_nth: "k < length xs \<Longrightarrow> input_or xs k d = xs ! k"
  by (simp add: input_or_def)

lemma lower_nth: "map to_lower xs = xs \<Longrightarrow> k < length xs \<Longrightarrow> to_lower (xs ! k) = xs ! k"
  by (metis nth_map)

text \<open>The facts of an allowed call of version 1.1, in terms of its twelve public inputs.\<close>

lemma v11_facts:
  assumes "validateV11 L input call = Inr v" "cv_allowed v" "call_shape call"
  defines "xs \<equiv> publicInputs call"
  shows "cv_decoded v = Some call" "length xs = 12" "list_all isHexBytes32 xs"
    "\<And>k. k < 12 \<Longrightarrow> isHexBytes32 (xs ! k) \<and> to_lower (xs ! k) = xs ! k"
    "call_nullifier call = xs ! 1" "hex_value (xs ! 1) \<noteq> 0" "hex_value (xs ! 8) \<noteq> 0"
    "hex_value (xs ! 4) = call_grossAmount call" "hex_value (xs ! 5) = expected_fee input call"
    "is_integer (ci_chainId input)" "hex_value (xs ! 6) = num_int (ci_chainId input)"
    "\<exists>p. get_address L (ci_pool input) = Some p \<and> xs ! 7 = address_word p"
    "\<exists>d. get_address L (call_destination call) = Some d \<and> xs ! 3 = address_word d"
    "amount_errors call (hex_value (xs ! 9)) = []" "bound_errors call (expected_fee input call) = []"
    "stage_errors L input call (expected_fee input call) (hex_value (xs ! 9))
       (selectWithdrawalProofContextShape L (ci_feePolicy input)) = Inr []"
    "policy_errors input call (expected_fee input call) = Inr []"
proof -
  obtain pool dest publicFee noteAmount grossInput chainInput where v: "cv_decoded v = Some call"
    and a: "addressToBytes32 L (ci_pool input) = Inr pool" "addressToBytes32 L (call_destination call) = Inr dest"
    and b: "bytes32ToBigInt (input_or xs 5 ZERO_BYTES32) = Inr publicFee"
    "bytes32ToBigInt (input_or xs 9 ZERO_BYTES32) = Inr noteAmount"
    "bytes32ToBigInt (input_or xs 4 ZERO_BYTES32) = Inr grossInput"
    "bytes32ToBigInt (input_or xs 6 ZERO_BYTES32) = Inr chainInput"
    and c: "is_integer (ci_chainId input)" "policy_errors input call publicFee = Inr []"
    "publicFee = expected_fee input call"
    and e: "call_input_errors call dest grossInput = []"
    "pool_input_errors call pool chainInput (num_int (ci_chainId input)) = []"
    "amount_errors call noteAmount = []" "bound_errors call (expected_fee input call) = []"
    "stage_errors L input call (expected_fee input call) noteAmount
       (selectWithdrawalProofContextShape L (ci_feePolicy input)) = Inr []"
    using validateV11_allowed [OF assms(1,2)] unfolding xs_def by metis
  have shape: "expectedPublicInputsLength call = 12"
    using assms(3)
    by (auto simp: call_shape_def expectedPublicInputsLength_def isStageC_def isStageB_def isBoundedFullExit_def)
  then have len: "length xs = 12" and hex: "list_all isHexBytes32 xs"
    using e(1) by (simp_all add: call_input_errors_def xs_def)
  have lower: "map to_lower xs = xs" "to_lower (call_nullifier call) = call_nullifier call"
    using assms(3) by (simp_all add: call_shape_def xs_def)
  show word: "isHexBytes32 (xs ! k) \<and> to_lower (xs ! k) = xs ! k" if "k < 12" for k
    using that len hex lower_nth [OF lower(1)] by (simp add: list_all_length)
  have val: "hex_value (xs ! 5) = publicFee" "hex_value (xs ! 9) = noteAmount" "hex_value (xs ! 4) = grossInput"
    "hex_value (xs ! 6) = chainInput"
    using b len word by (simp_all add: input_or_nth bytes32ToBigInt_hex)
  show "cv_decoded v = Some call" "length xs = 12" "list_all isHexBytes32 xs" "is_integer (ci_chainId input)"
    by fact+
  show nul: "call_nullifier call = xs ! 1"
    using e(1) lower word [of 1] len by (simp add: call_input_errors_def input_or_nth flip: xs_def)
  show "hex_value (xs ! 1) \<noteq> 0"
    using e(1) nul word [of 1] bytes32_zero_iff [of "xs ! 1"] by (auto simp: call_input_errors_def)
  show "hex_value (xs ! 8) \<noteq> 0"
    using e(2) word [of 8] bytes32_zero_iff [of "xs ! 8"] len
    by (auto simp: pool_input_errors_def input_or_nth simp flip: xs_def)
  show "hex_value (xs ! 4) = call_grossAmount call" "hex_value (xs ! 5) = expected_fee input call"
    "hex_value (xs ! 6) = num_int (ci_chainId input)"
    using e(1,2) c val by (simp_all add: call_input_errors_def pool_input_errors_def)
  show "\<exists>p. get_address L (ci_pool input) = Some p \<and> xs ! 7 = address_word p"
    using a(1) e(2) word [of 7] len by (auto simp: res_simps pool_input_errors_def input_or_nth simp flip: xs_def)
  show "\<exists>d. get_address L (call_destination call) = Some d \<and> xs ! 3 = address_word d"
    using a(2) e(1) word [of 3] len by (auto simp: res_simps call_input_errors_def input_or_nth simp flip: xs_def)
  show "amount_errors call (hex_value (xs ! 9)) = []" "bound_errors call (expected_fee input call) = []"
    "stage_errors L input call (expected_fee input call) (hex_value (xs ! 9))
       (selectWithdrawalProofContextShape L (ci_feePolicy input)) = Inr []"
    "policy_errors input call (expected_fee input call) = Inr []"
    using e c val by simp_all
qed

lemma call_shape_mode [simp]: "call_shape (c\<lparr>call_relayValidationMode := m\<rparr>) = call_shape c"
  by (simp add: call_shape_def)

lemma validate_v11E:
  assumes "validateWithdrawalRelayCalldata L input = Inr v" "cv_allowed v"
    "ci_relayValidationMode input \<noteq> Some V1_2_Unlinkable"
  obtains call where "validateV11 L input call = Inr v" "call_shape call"
    "to_lower (take 10 (ci_data input)) = call_selector call"
proof (cases "decodeWithdrawalRelayCall L (ci_data input)")
  case (Inl e)
  with assms show ?thesis by (auto simp: validateWithdrawalRelayCalldata_def)
next
  case (Inr c)
  have "or_default (ci_relayValidationMode input) V1_1 \<noteq> V1_2_Unlinkable"
    using assms(3) by (auto simp: or_default_def split: option.splits)
  with assms(1) Inr have "validateV11 L input (c\<lparr>call_relayValidationMode := Some (or_default (ci_relayValidationMode input) V1_1)\<rparr>) = Inr v"
    by (simp add: validateWithdrawalRelayCalldata_def Let_def)
  with decode_shape [OF Inr] show ?thesis
    by (intro that [of "c\<lparr>call_relayValidationMode := Some (or_default (ci_relayValidationMode input) V1_1)\<rparr>"]) auto
qed

text \<open>
  C4: A withdrawal the relay accepts in any validation mode but the unlinkable one (which C7 is
  about) is bound to its proof and to the request: the
  calldata carries exactly twelve bytes32 public inputs; nullifier, destination, gross amount, fee,
  chain and pool of the call and the request are the ones in the public inputs; nullifier and
  spent commitment are not zero; the fee is the policy's; gross and note amount are supported
  denominations; and the user's fee and net bounds hold.
\<close>

theorem relayed_withdrawal_bound:
  assumes "validateWithdrawalRelayCalldata L input = Inr v" "cv_allowed v"
    "ci_relayValidationMode input \<noteq> Some V1_2_Unlinkable"
  shows "\<exists>call inputs noteAmount minNet maxFee. cv_decoded v = Some call \<and> publicInputs call = inputs \<and>
    length inputs = 12 \<and> list_all isHexBytes32 inputs \<and>
    call_nullifier call = inputs ! 1 \<and> hex_value (inputs ! 1) \<noteq> 0 \<and> hex_value (inputs ! 8) \<noteq> 0 \<and>
    (\<exists>d. get_address L (call_destination call) = Some d \<and> inputs ! 3 = address_word d) \<and>
    to_lower (call_destination call) \<noteq> ZERO_ADDRESS \<and>
    hex_value (inputs ! 4) = call_grossAmount call \<and> hex_value (inputs ! 5) = expected_fee input call \<and>
    is_integer (ci_chainId input) \<and> hex_value (inputs ! 6) = num_int (ci_chainId input) \<and>
    (\<exists>p. get_address L (ci_pool input) = Some p \<and> inputs ! 7 = address_word p) \<and>
    hex_value (inputs ! 9) = noteAmount \<and> noteAmount \<in> set MAINNET_CANDIDATE_FIXED_DENOMINATIONS_WEI \<and>
    call_grossAmount call \<in> set MAINNET_CANDIDATE_FIXED_DENOMINATIONS_WEI \<and> call_grossAmount call \<le> noteAmount \<and>
    call_minNetAmount call = Some minNet \<and> call_maxFeeAmount call = Some maxFee \<and>
    expected_fee input call \<le> maxFee \<and> maxFee \<le> call_grossAmount call \<and>
    minNet \<le> call_grossAmount call - expected_fee input call"
proof -
  obtain call where call: "validateV11 L input call = Inr v" and shape: "call_shape call"
    using validate_v11E [OF assms] by metis
  note facts = v11_facts [OF call assms(2) shape]
  obtain mn mx where bounds: "call_minNetAmount call = Some mn" "call_maxFeeAmount call = Some mx" "hasUserBounds call"
    using shape by (auto simp: call_shape_def)
  have "expected_fee input call \<le> mx \<and> mx \<le> call_grossAmount call \<and> mn \<le> call_grossAmount call - expected_fee input call"
    using facts(15) bounds by (simp add: bound_errors_def or_default_def)
  with facts bounds show ?thesis
    by (auto simp: amount_errors_def SUPPORTED_FIXED_DENOMINATIONS_def)
qed

text \<open>
  C5: No value appears or disappears in a withdrawal accepted in any validation mode but the
  unlinkable one, whose public inputs hide the amount of the note: either it is a full
  exit, the gross amount is the whole note, no new commitment and no ciphertext; or it uses the
  bounded private-change call, the note is the gross amount plus a change that is itself a
  supported denomination, with a nonzero commitment and a nonempty ciphertext of at most 2048
  bytes. The fee never exceeds the gross amount, and only the three bounded calls are accepted.
\<close>

theorem relayed_withdrawal_conserves:
  assumes "validateWithdrawalRelayCalldata L input = Inr v" "cv_allowed v"
    "ci_relayValidationMode input \<noteq> Some V1_2_Unlinkable"
  shows "\<exists>call. cv_decoded v = Some call \<and> to_lower (take 10 (ci_data input)) = call_selector call \<and>
    call_selector call \<in> {WITHDRAW_BOUNDED_SELECTOR, PROOF_CONTEXT_V1_WITHDRAW_RELAYER_POLICY_SELECTOR,
      STAGE_C_WITHDRAW_BOUNDED_SELECTOR} \<and> expected_fee input call \<le> call_grossAmount call \<and>
    (call_grossAmount call = hex_value (publicInputs call ! 9) \<and> publicInputs call ! 2 = ZERO_BYTES32 \<and>
       (\<forall>note. encryptedChangeNote call = Some note \<longrightarrow> to_lower note = ''0x'') \<or>
     call_selector call = STAGE_C_WITHDRAW_BOUNDED_SELECTOR \<and> hex_value (publicInputs call ! 2) \<noteq> 0 \<and>
       (\<exists>change \<in> set MAINNET_CANDIDATE_FIXED_DENOMINATIONS_WEI.
          hex_value (publicInputs call ! 9) = call_grossAmount call + change) \<and>
       (\<exists>note. encryptedChangeNote call = Some note \<and> isHexString note \<and> note \<noteq> ''0x'' \<and> hexByteLength note \<le> 2048))"
proof -
  obtain call where call: "validateV11 L input call = Inr v" and shape: "call_shape call"
    and sel: "to_lower (take 10 (ci_data input)) = call_selector call"
    using validate_v11E [OF assms] by metis
  note facts = v11_facts [OF call assms(2) shape]
  let ?note = "hex_value (publicInputs call ! 9)" and ?gross = "call_grossAmount call"
  have fee: "expected_fee input call \<le> ?gross"
    using facts(15) shape by (auto simp: bound_errors_def call_shape_def)
  have selector: "call_selector call \<in> {WITHDRAW_BOUNDED_SELECTOR,
      PROOF_CONTEXT_V1_WITHDRAW_RELAYER_POLICY_SELECTOR, STAGE_C_WITHDRAW_BOUNDED_SELECTOR}"
    using shape by (auto simp: call_shape_def)
  have new: "input_or (publicInputs call) 2 ZERO_BYTES32 = publicInputs call ! 2"
    using facts(2) by (simp add: input_or_nth)
  note word = facts(4) [of 2, simplified]
  show ?thesis
  proof (cases "hasChangeNote call")
    case False
    then have "?gross = ?note" "publicInputs call ! 2 = ZERO_BYTES32"
      using facts(14) new word by (simp_all add: amount_errors_def isStageC_def)
    moreover have "encryptedChangeNote call = None"
      using shape False by (auto simp: call_shape_def)
    ultimately show ?thesis using facts(1) sel selector fee by auto
  next
    case True
    define i where "i = stage_c_input input call (expected_fee input call) ?note
      (selectWithdrawalProofContextShape L (ci_feePolicy input))"
    obtain note' where enc: "encryptedChangeNote call = Some note'" and sel': "call_selector call = STAGE_C_WITHDRAW_BOUNDED_SELECTOR"
      using shape True by (auto simp: call_shape_def)
    have "validateStageC L input call (expected_fee input call) ?note
        (selectWithdrawalProofContextShape L (ci_feePolicy input)) = Inr []"
      using facts(16) True by (auto simp: stage_errors_def res_simps isStageC_def)
    then have stage: "isUnifiedFullExit i \<or> validateStageCWithdrawChangeNotePreflight L i = Inr [] \<and>
        cp_changeAmount i \<in> set SUPPORTED_FIXED_DENOMINATIONS"
      by (auto simp: validateStageC_def Let_def res_simps simp flip: i_def split: if_splits)
    have i: "cp_changeAmount i = ?note - ?gross" "cp_changeCommitment i = publicInputs call ! 2"
      "cp_encryptedChangeNote i = note'"
      using new enc by (simp_all add: i_def stage_c_input_def or_default_def)
    show ?thesis
    proof (cases "isUnifiedFullExit i")
      case True
      then show ?thesis
        using i enc word facts(1) sel selector fee by (auto simp: isUnifiedFullExit_def)
    next
      case False
      then have "change_value_errors i = []"
        using stage by (auto simp: validateStageCWithdrawChangeNotePreflight_def split: if_splits)
      then have "hex_value (publicInputs call ! 2) \<noteq> 0" "isHexString note'" "note' \<noteq> ''0x''" "\<not> note_too_long note'"
        using i word bytes32_zero_iff [of "publicInputs call ! 2"] by (auto simp: change_value_errors_def)
      moreover have "hexByteLength note' \<le> 2048"
        using \<open>\<not> note_too_long note'\<close> by (simp add: note_too_long_def hexByteLength_def MAX_ENCRYPTED_NOTE_BYTES_def)
      moreover have "?note - ?gross \<in> set MAINNET_CANDIDATE_FIXED_DENOMINATIONS_WEI"
        using stage False i by (simp add: SUPPORTED_FIXED_DENOMINATIONS_def)
      ultimately show ?thesis
        using facts(1) sel selector fee sel' enc by force
    qed
  qed
qed

section \<open>The hashes\<close>

lemma computeNoteHash_field: "computeNoteHash L c p sh sel n cm a e = Inr h \<Longrightarrow> field_word h"
  by (auto simp: computeNoteHash_def res_simps dest: note_hash_field)

lemma stage_b_note_field: "computeStageBContractBoundEncryptedNoteHash L c p sel n a sh = Inr h \<Longrightarrow> field_word h"
  by (auto simp: computeStageBContractBoundEncryptedNoteHash_def dest: computeNoteHash_field)

lemma stage_c_note_field:
  "computeStageCContractBoundEncryptedChangeNoteHash L c p sel n cm a e sh = Inr h \<Longrightarrow> field_word h"
  by (auto simp: computeStageCContractBoundEncryptedChangeNoteHash_def dest: computeNoteHash_field)

lemma context_field: "computeStageBProofContextHash L c = Inr h \<Longrightarrow> field_word h"
  by (auto simp: computeStageBProofContextHash_def res_simps dest: context_hash_field)

lemma policy_field: "computeStageBRelayerPolicyHash L p = Inr h \<Longrightarrow> field_word h"
  by (auto simp: computeStageBRelayerPolicyHash_def res_simps dest: policy_hash_field)

lemma stage_c_context: "preflight_context (stage_c_input input call f a sh) sel = 
    (\<lambda>h p. call_context call (ci_chainId input) (ci_pool input) f h p 0 sh\<lparr>cx_selector := sel\<rparr>)"
  by (rule ext)+ (simp add: preflight_context_def stage_c_input_def call_context_def createStageCRelayerPolicy_def
      zero_relayer_policy_def)

text \<open>The two hashed public inputs are the hashes of the call's own note, policy and context.\<close>

definition hash_bound :: "relay_lib \<Rightarrow> calldata_input \<Rightarrow> relay_call \<Rightarrow> int \<Rightarrow> int \<Rightarrow> string \<Rightarrow> stage_b_policy \<Rightarrow> bool" where
  "hash_bound L input call f noteAmount shape policy \<longleftrightarrow> (\<exists>policyHash.
     (if call_grossAmount call = noteAmount
      then computeStageBContractBoundEncryptedNoteHash L (ci_chainId input) (ci_pool input) (call_selector call)
             (call_nullifier call) noteAmount (Some shape)
      else computeStageCContractBoundEncryptedChangeNoteHash L (ci_chainId input) (ci_pool input)
             (Some (call_selector call)) (call_nullifier call) (publicInputs call ! 2)
             (noteAmount - call_grossAmount call) (or_default (encryptedChangeNote call) ''0x'') (Some shape))
       = Inr (publicInputs call ! 11) \<and>
     computeStageBRelayerPolicyHash L policy = Inr policyHash \<and>
     computeStageBProofContextHash L (call_context call (ci_chainId input) (ci_pool input) f
       (publicInputs call ! 11) policyHash (sb_deadlineOrZero policy) shape) = Inr (publicInputs call ! 10))"

lemma bounded_exit_bound:
  assumes "validateBoundedFullExitPreflight L call (ci_chainId input) (ci_pool input) f noteAmount shape = Inr []"
    "call_grossAmount call = noteAmount" "length (publicInputs call) = 12"
    "\<And>k. k < 12 \<Longrightarrow> to_lower (publicInputs call ! k) = publicInputs call ! k"
  shows "hash_bound L input call f noteAmount shape (zero_relayer_policy call)"
  using assms(1) unfolding validateBoundedFullExitPreflight_def
  apply (elim res_elims)
  apply (frule stage_b_note_field, frule context_field)
  apply (simp add: input_or_nth assms field_word_shape hash_bound_def zero_relayer_policy_def)
  done

lemma stage_b_bound:
  assumes "validateStageBWithdrawalPreflight L input call f noteAmount shape = Inr []"
    "call_relayerPolicy call = Some policy"
    "call_grossAmount call = noteAmount" "length (publicInputs call) = 12"
    "\<And>k. k < 12 \<Longrightarrow> to_lower (publicInputs call ! k) = publicInputs call ! k"
  shows "hash_bound L input call f noteAmount shape policy \<and>
    deadline_matches (ci_deadlineEpochSeconds input) (sb_deadlineOrZero policy) \<and>
    other_relayer L (ci_expectedRelayer input) (sb_relayer policy) = Inr False"
  using assms(1) unfolding validateStageBWithdrawalPreflight_def assms(2) option.case
  apply (elim res_elims)
  apply (frule stage_b_note_field, frule context_field)
  apply (simp add: input_or_nth assms field_word_shape hash_bound_def)
  done

lemma full_exit_bound:
  assumes "validateStageCFullExitPreflight L (stage_c_input input call f noteAmount shape) = Inr []"
    "call_grossAmount call = noteAmount" "length (publicInputs call) = 12"
    "\<And>k. k < 12 \<Longrightarrow> to_lower (publicInputs call ! k) = publicInputs call ! k"
  shows "hash_bound L input call f noteAmount shape (zero_relayer_policy call)"
  using assms(1) unfolding validateStageCFullExitPreflight_def Let_def stage_c_context
  apply (elim res_elims)
  apply (frule stage_b_note_field, frule context_field)
  apply (simp add: input_or_nth assms field_word_shape hash_bound_def zero_relayer_policy_def stage_c_input_def
      or_default_def createStageCRelayerPolicy_def call_context_def)
  done

lemma change_bound:
  assumes "validateStageCWithdrawChangeNotePreflight L (stage_c_input input call f noteAmount shape) = Inr []"
    "length (publicInputs call) = 12"
    "\<And>k. k < 12 \<Longrightarrow> to_lower (publicInputs call ! k) = publicInputs call ! k"
  shows "hash_bound L input call f noteAmount shape (zero_relayer_policy call)"
proof -
  let ?i = "stage_c_input input call f noteAmount shape"
  have sel: "?i\<lparr>cp_selector := Some (or_default (cp_selector ?i) STAGE_C_WITHDRAW_BOUNDED_SELECTOR)\<rparr> = ?i"
    by (simp add: stage_c_input_def or_default_def)
  have pos: "call_grossAmount call \<noteq> noteAmount"
    using assms(1) by (auto simp: validateStageCWithdrawChangeNotePreflight_def change_value_errors_def
        stage_c_input_def split: if_splits)
  have empty: "change_value_errors ?i = []"
    using assms(1) by (auto simp: validateStageCWithdrawChangeNotePreflight_def split: if_splits)
  have bound: "cp_encryptedNoteHash ?i = publicInputs call ! 11" "cp_proofContextHash ?i = publicInputs call ! 10"
    using assms(2) by (simp_all add: stage_c_input_def input_or_nth)
  obtain h where h: "computeStageCWithdrawChangeNoteHashes L ?i = Inr h"
    "to_lower (ch_encryptedNoteHash h) = to_lower (publicInputs call ! 11)"
    "to_lower (ch_proofContextHash h) = to_lower (publicInputs call ! 10)"
    using assms(1) unfolding validateStageCWithdrawChangeNotePreflight_def sel
    by (auto simp: empty res_simps bound)
  from h(1) show ?thesis
    unfolding computeStageCWithdrawChangeNoteHashes_def Let_def stage_c_context
    apply (elim res_elims)
    apply (frule stage_c_note_field, frule context_field)
    using h(2,3) pos
    apply (simp add: input_or_nth assms field_word_shape hash_bound_def zero_relayer_policy_def stage_c_input_def
      or_default_def createStageCRelayerPolicy_def call_context_def)
    done
qed

lemma bound_policy: "call_shape call \<Longrightarrow> call_relayerPolicy call = None \<Longrightarrow>
    or_default (call_relayerPolicy call) (zero_relayer_policy call) = zero_relayer_policy call"
  by (simp add: or_default_def)

text \<open>
  C6: The two hashes in the public inputs of a withdrawal accepted in any validation mode but the
  unlinkable one are recomputed from the call: input 11 is the hash of the encrypted note of this chain, pool, selector,
  nullifier, commitment and amount, and input 10 the hash of the proof context that commits to
  that note, to the relayer policy's hash, root, destination, amount, fee and deadline. A call with
  an explicit relayer policy also carries the deadline of the request and, when one is expected,
  the signing relayer.
\<close>

theorem relayed_withdrawal_hash_bound:
  assumes "validateWithdrawalRelayCalldata L input = Inr v" "cv_allowed v"
    "ci_relayValidationMode input \<noteq> Some V1_2_Unlinkable"
  shows "\<exists>call. cv_decoded v = Some call \<and>
    hash_bound L input call (expected_fee input call) (hex_value (publicInputs call ! 9))
      (selectWithdrawalProofContextShape L (ci_feePolicy input))
      (or_default (call_relayerPolicy call) (zero_relayer_policy call)) \<and>
    (\<forall>policy. call_relayerPolicy call = Some policy \<longrightarrow>
       deadline_matches (ci_deadlineEpochSeconds input) (sb_deadlineOrZero policy) \<and>
       other_relayer L (ci_expectedRelayer input) (sb_relayer policy) = Inr False)"
proof -
  obtain call where call: "validateV11 L input call = Inr v" and shape: "call_shape call"
    using validate_v11E [OF assms] by metis
  note facts = v11_facts [OF call assms(2) shape]
  let ?f = "expected_fee input call" and ?n = "hex_value (publicInputs call ! 9)"
    and ?s = "selectWithdrawalProofContextShape L (ci_feePolicy input)"
  have low: "\<And>k. k < 12 \<Longrightarrow> to_lower (publicInputs call ! k) = publicInputs call ! k"
    using facts(4) by blast
  have full: "call_grossAmount call = ?n" if "\<not> hasChangeNote call"
    using facts(14) that by (simp add: amount_errors_def isStageC_def)
  consider (exit) "isBoundedFullExit call" "\<not> hasChangeNote call" "call_relayerPolicy call = None"
    | (policy) p where "isStageB call" "\<not> hasChangeNote call" "call_relayerPolicy call = Some p"
    | (change) "isStageC call" "call_relayerPolicy call = None"
    using shape by (auto simp: call_shape_def isBoundedFullExit_def isStageB_def isStageC_def)
  then have "hash_bound L input call ?f ?n ?s (or_default (call_relayerPolicy call) (zero_relayer_policy call)) \<and>
    (\<forall>policy. call_relayerPolicy call = Some policy \<longrightarrow>
       deadline_matches (ci_deadlineEpochSeconds input) (sb_deadlineOrZero policy) \<and>
       other_relayer L (ci_expectedRelayer input) (sb_relayer policy) = Inr False)"
  proof cases
    case exit
    have "validateBoundedFullExitPreflight L call (ci_chainId input) (ci_pool input) ?f ?n ?s = Inr []"
      using facts(16) exit by (auto simp: stage_errors_def res_simps)
    from bounded_exit_bound [OF this full [OF exit(2)] facts(2) low] show ?thesis
      using exit(3) by (simp add: or_default_def)
  next
    case (policy p)
    have "validateStageBWithdrawalPreflight L input call ?f ?n ?s = Inr []"
      using facts(16) policy by (auto simp: stage_errors_def res_simps)
    from stage_b_bound [OF this policy(3) full [OF policy(2)] facts(2) low] show ?thesis
      using policy(3) by (simp add: or_default_def)
  next
    case change
    let ?i = "stage_c_input input call ?f ?n ?s"
    have "validateStageC L input call ?f ?n ?s = Inr []"
      using facts(16) change by (auto simp: stage_errors_def res_simps)
    then have pre: "isUnifiedFullExit ?i \<and> validateStageCFullExitPreflight L ?i = Inr [] \<or>
        validateStageCWithdrawChangeNotePreflight L ?i = Inr []"
      by (auto simp: validateStageC_def Let_def res_simps split: if_splits)
    have "call_grossAmount call = ?n" if "isUnifiedFullExit ?i"
      using that by (simp add: isUnifiedFullExit_def stage_c_input_def)
    with pre full_exit_bound [OF _ _ facts(2) low] change_bound [OF _ facts(2) low]
    have "hash_bound L input call ?f ?n ?s (zero_relayer_policy call)" by blast
    then show ?thesis using change(2) by (simp add: or_default_def)
  qed
  with facts(1) show ?thesis by blast
qed

section \<open>The unlinkable mode\<close>

lemma validateV12_allowed:
  assumes "validateV12UnlinkableWithdrawalRelayCall L input call = Inr v" "cv_allowed v"
  obtains pool dest grossInput publicFee chainInput noteHash policyHash contextHash where
    "cv_decoded v = Some (v12_call call)"
    "addressToBytes32 L (ci_pool input) = Inr pool" "addressToBytes32 L (call_destination call) = Inr dest"
    "bytes32ToBigInt (input_or (publicInputs call) 5 ZERO_BYTES32) = Inr publicFee"
    "bytes32ToBigInt (input_or (publicInputs call) 4 ZERO_BYTES32) = Inr grossInput"
    "bytes32ToBigInt (input_or (publicInputs call) 6 ZERO_BYTES32) = Inr chainInput"
    "is_integer (ci_chainId input)" "publicFee = expected_fee input call"
    "v12_input_errors call dest grossInput = []"
    "v12_amount_errors call pool chainInput (num_int (ci_chainId input)) (expected_fee input call) = []"
    "v12_note_errors call (ci_chainId input) (ci_pool input) (input_or (publicInputs call) 2 ZERO_BYTES32)
       (or_default (encryptedChangeNote call) ''0x'') = []"
    "computeV12ContractBoundEncryptedOutputNoteHash L (ci_chainId input) (ci_pool input) (call_selector call)
       (call_nullifier call) (input_or (publicInputs call) 2 ZERO_BYTES32)
       (or_default (encryptedChangeNote call) ''0x'') = Inr noteHash"
    "computeStageBRelayerPolicyHash L (or_default (call_relayerPolicy call) (zero_relayer_policy call)) = Inr policyHash"
    "computeStageBProofContextHash L (call_context call (ci_chainId input) (ci_pool input) (expected_fee input call)
       noteHash policyHash (sb_deadlineOrZero (or_default (call_relayerPolicy call) (zero_relayer_policy call)))
       (PROOF_CONTEXT_V1_SHAPE_WITHDRAW_V1_2_FEE_GOVERNANCE (rl_viem L))) = Inr contextHash"
    "to_lower (input_or (publicInputs call) 9 ZERO_BYTES32) = to_lower noteHash"
    "to_lower (input_or (publicInputs call) 8 ZERO_BYTES32) = to_lower contextHash"
proof -
  show ?thesis
    using assms(1) unfolding validateV12UnlinkableWithdrawalRelayCall_def Let_def createStageCRelayerPolicy_def
    apply (elim res_elims)
    using assms(2)
    apply simp
    apply (elim conjE)
    apply (rule that)
    apply (simp_all add: expected_fee_def res_simps)
    done
qed

lemma v12_hash_field: "computeV12ContractBoundEncryptedOutputNoteHash L c p s n o' e = Inr h \<Longrightarrow> field_word h"
  by (auto simp: computeV12ContractBoundEncryptedOutputNoteHash_def res_simps dest: hashAbiEncodedToField_Inr)

definition padded_envelope :: "json \<Rightarrow> bool" where
  "padded_envelope e \<longleftrightarrow> (\<exists>cipher padding. field_text e ''ciphertext'' = Some cipher \<and>
     field_text e ''paddingBytes'' = Some padding \<and> isHexString cipher \<and> zero_bytes padding \<and>
     0 < hexByteLength cipher \<and> hexByteLength cipher + hexByteLength padding = 256)"

lemma envelope_facts:
  assumes "validateEncryptedOutputNoteV2EnvelopeForBinding n chainId pool commitment = []"
  shows "\<exists>kvs. json_parse (hexToUtf8 n) = Some (JObj kvs) \<and> fst ` set kvs \<subseteq> set envelope_fields \<and>
    padded_envelope (JObj kvs) \<and> field_number_is (JObj kvs) ''chainId'' chainId \<and>
    (\<exists>p c. field_text (JObj kvs) ''verifyingContract'' = Some p \<and> to_lower p = to_lower pool \<and>
       field_text (JObj kvs) ''outputCommitment'' = Some c \<and> to_lower c = to_lower commitment)"
proof -
  obtain kvs where kvs: "json_parse (hexToUtf8 n) = Some (JObj kvs)"
    "set (envelope_errors (JObj kvs) kvs chainId pool commitment) = {}"
    using assms set_js_unique
    by (auto simp: validateEncryptedOutputNoteV2EnvelopeForBinding_def split: option.splits json.splits)
      (metis set_empty set_js_unique)
  then have e: "envelope_errors (JObj kvs) kvs chainId pool commitment = []" by simp
  have "padded_envelope (JObj kvs)"
    using e by (auto simp: envelope_errors_def Let_def padded_envelope_def text_is_def byte_length_or_def
        split: option.splits)
  moreover have "fst ` set kvs \<subseteq> set envelope_fields"
    using e by (auto simp: envelope_errors_def Let_def list_all_iff)
  moreover have "field_number_is (JObj kvs) ''chainId'' chainId"
    "\<exists>p c. field_text (JObj kvs) ''verifyingContract'' = Some p \<and> to_lower p = to_lower pool \<and>
       field_text (JObj kvs) ''outputCommitment'' = Some c \<and> to_lower c = to_lower commitment"
    using e by (auto simp: envelope_errors_def Let_def text_is_def split: option.splits)
  ultimately show ?thesis using kvs(1) by blast
qed

lemma validate_v12E:
  assumes "validateWithdrawalRelayCalldata L input = Inr v" "cv_allowed v"
    "ci_relayValidationMode input = Some V1_2_Unlinkable"
  obtains call where "validateV12UnlinkableWithdrawalRelayCall L input call = Inr v" "call_shape call"
proof (cases "decodeWithdrawalRelayCall L (ci_data input)")
  case (Inl e)
  with assms show ?thesis by (auto simp: validateWithdrawalRelayCalldata_def)
next
  case (Inr c)
  with assms(1,3) have "validateV12UnlinkableWithdrawalRelayCall L input
      (c\<lparr>call_relayValidationMode := Some V1_2_Unlinkable\<rparr>) = Inr v"
    by (simp add: validateWithdrawalRelayCalldata_def Let_def or_default_def)
  with decode_shape [OF Inr] that show ?thesis
    by (metis call_shape_mode)
qed

lemma v12_facts:
  assumes "validateV12UnlinkableWithdrawalRelayCall L input call = Inr v" "cv_allowed v" "call_shape call"
  obtains cipher policyHash where "cv_decoded v = Some (v12_call call)"
    "call_selector call = STAGE_C_WITHDRAW_BOUNDED_SELECTOR" "encryptedChangeNote call = Some cipher"
    "length (publicInputs call) = 10" "list_all isHexBytes32 (publicInputs call)" "\<And>k. k < 10 \<Longrightarrow> isHexBytes32 ((publicInputs call) ! k) \<and> to_lower ((publicInputs call) ! k) = (publicInputs call) ! k"
    "call_nullifier call = (publicInputs call) ! 1" "hex_value ((publicInputs call) ! 1) \<noteq> 0" "hex_value ((publicInputs call) ! 2) \<noteq> 0"
    "\<exists>d. get_address L (call_destination call) = Some d \<and> (publicInputs call) ! 3 = address_word d"
    "hex_value ((publicInputs call) ! 4) = call_grossAmount call" "hex_value ((publicInputs call) ! 5) = expected_fee input call"
    "is_integer (ci_chainId input)" "hex_value ((publicInputs call) ! 6) = num_int (ci_chainId input)"
    "\<exists>p. get_address L (ci_pool input) = Some p \<and> (publicInputs call) ! 7 = address_word p"
    "call_grossAmount call \<in> set MAINNET_CANDIDATE_FIXED_DENOMINATIONS_WEI"
    "cipher \<noteq> ''0x''" "isHexString cipher" "\<not> note_too_long cipher"
    "validateEncryptedOutputNoteV2EnvelopeForBinding cipher (ci_chainId input) (ci_pool input) ((publicInputs call) ! 2) = []"
    "computeV12ContractBoundEncryptedOutputNoteHash L (ci_chainId input) (ci_pool input) (call_selector call)
      (call_nullifier call) ((publicInputs call) ! 2) cipher = Inr ((publicInputs call) ! 9)"
    "computeStageBRelayerPolicyHash L (zero_relayer_policy call) = Inr policyHash"
    "computeStageBProofContextHash L (call_context call (ci_chainId input) (ci_pool input) (expected_fee input call)
      ((publicInputs call) ! 9) policyHash 0 (PROOF_CONTEXT_V1_SHAPE_WITHDRAW_V1_2_FEE_GOVERNANCE (rl_viem L))) = Inr ((publicInputs call) ! 8)"
proof -
  let ?xs = "publicInputs call"
  obtain pool dest grossInput publicFee chainInput noteHash policyHash contextHash where
    v: "cv_decoded v = Some (v12_call call)"
    and a: "addressToBytes32 L (ci_pool input) = Inr pool" "addressToBytes32 L (call_destination call) = Inr dest"
    and b: "bytes32ToBigInt (input_or (publicInputs call) 5 ZERO_BYTES32) = Inr publicFee"
    "bytes32ToBigInt (input_or (publicInputs call) 4 ZERO_BYTES32) = Inr grossInput"
    "bytes32ToBigInt (input_or (publicInputs call) 6 ZERO_BYTES32) = Inr chainInput"
    and c: "publicFee = expected_fee input call" "is_integer (ci_chainId input)"
    and e: "v12_input_errors call dest grossInput = []"
    "v12_amount_errors call pool chainInput (num_int (ci_chainId input)) (expected_fee input call) = []"
    "v12_note_errors call (ci_chainId input) (ci_pool input) (input_or (publicInputs call) 2 ZERO_BYTES32)
       (or_default (encryptedChangeNote call) ''0x'') = []"
    and h: "computeV12ContractBoundEncryptedOutputNoteHash L (ci_chainId input) (ci_pool input) (call_selector call)
       (call_nullifier call) (input_or (publicInputs call) 2 ZERO_BYTES32)
       (or_default (encryptedChangeNote call) ''0x'') = Inr noteHash"
    "computeStageBRelayerPolicyHash L (or_default (call_relayerPolicy call) (zero_relayer_policy call)) = Inr policyHash"
    "computeStageBProofContextHash L (call_context call (ci_chainId input) (ci_pool input) (expected_fee input call)
       noteHash policyHash (sb_deadlineOrZero (or_default (call_relayerPolicy call) (zero_relayer_policy call)))
       (PROOF_CONTEXT_V1_SHAPE_WITHDRAW_V1_2_FEE_GOVERNANCE (rl_viem L))) = Inr contextHash"
    "to_lower (input_or (publicInputs call) 9 ZERO_BYTES32) = to_lower noteHash"
    "to_lower (input_or (publicInputs call) 8 ZERO_BYTES32) = to_lower contextHash"
    using validateV12_allowed [OF assms(1,2)] by metis
  have len: "length ?xs = 10" and hex: "list_all isHexBytes32 ?xs"
    using e(1) by (auto simp: v12_input_errors_def split: if_splits)
  have word: "isHexBytes32 (?xs ! k) \<and> to_lower (?xs ! k) = ?xs ! k" if "k < 10" for k
    using that len hex assms(3) lower_nth [of ?xs k] by (simp add: list_all_length call_shape_def)
  note nth = input_or_nth [of _ ?xs, unfolded len]
  have has: "hasChangeNote call"
    using e(3) by (auto simp: v12_note_errors_def split: if_splits)
  then obtain cipher where cipher: "encryptedChangeNote call = Some cipher"
    "call_selector call = STAGE_C_WITHDRAW_BOUNDED_SELECTOR" "call_relayerPolicy call = None"
    using assms(3) by (auto simp: call_shape_def)
  have note_ok: "isHexString cipher" "cipher \<noteq> ''0x''" "\<not> note_too_long cipher" "to_lower (?xs ! 2) \<noteq> ZERO_BYTES32"
    "validateEncryptedOutputNoteV2EnvelopeForBinding cipher (ci_chainId input) (ci_pool input) (?xs ! 2) = []"
    using e(3) cipher(1) word [of 2] by (auto simp: v12_note_errors_def or_default_def nth split: if_splits)
  have nul: "call_nullifier call = ?xs ! 1" "hex_value (?xs ! 1) \<noteq> 0" "hex_value (?xs ! 2) \<noteq> 0"
    using e(1) note_ok(4) assms(3) word [of 1] word [of 2] bytes32_zero_iff [of "?xs ! 1"] bytes32_zero_iff [of "?xs ! 2"]
    by (auto simp: v12_input_errors_def call_shape_def nth split: if_splits)
  have hashes: "?xs ! 9 = noteHash" "?xs ! 8 = contextHash"
    using h(4,5) word [of 9] word [of 8] field_word_shape(2) [OF v12_hash_field [OF h(1)]]
      field_word_shape(2) [OF context_field [OF h(3)]] by (simp_all add: nth)
  have bound: "computeV12ContractBoundEncryptedOutputNoteHash L (ci_chainId input) (ci_pool input) (call_selector call)
      (call_nullifier call) (?xs ! 2) cipher = Inr (?xs ! 9)"
    "computeStageBRelayerPolicyHash L (zero_relayer_policy call) = Inr policyHash"
    "computeStageBProofContextHash L (call_context call (ci_chainId input) (ci_pool input) (expected_fee input call)
      (?xs ! 9) policyHash 0 (PROOF_CONTEXT_V1_SHAPE_WITHDRAW_V1_2_FEE_GOVERNANCE (rl_viem L))) = Inr (?xs ! 8)"
    using h(1,2,3) cipher hashes by (simp_all add: or_default_def nth zero_relayer_policy_def)
  have val: "hex_value (?xs ! 5) = expected_fee input call" "hex_value (?xs ! 4) = call_grossAmount call"
    "hex_value (?xs ! 6) = num_int (ci_chainId input)" "call_grossAmount call \<in> set MAINNET_CANDIDATE_FIXED_DENOMINATIONS_WEI"
    using b c e(1,2) word [of 5] word [of 4] word [of 6]
    by (auto simp: nth bytes32ToBigInt_hex v12_input_errors_def v12_amount_errors_def
        SUPPORTED_FIXED_DENOMINATIONS_def split: if_splits)
  have addresses: "\<exists>d. get_address L (call_destination call) = Some d \<and> ?xs ! 3 = address_word d"
    "\<exists>p. get_address L (ci_pool input) = Some p \<and> ?xs ! 7 = address_word p"
    using a e(1,2) word [of 3] word [of 7]
    by (auto simp: res_simps nth v12_input_errors_def v12_amount_errors_def split: if_splits)
  show ?thesis
    by (rule that [OF v cipher(2,1) len hex word nul addresses(1) val(2,1) c(2) val(3) addresses(2) val(4)
          note_ok(2,1,3,5) bound])
qed

text \<open>
  C7: A withdrawal accepted in the unlinkable mode (version 1.2) is a bounded private-change call
  with exactly ten public inputs, so neither spent commitment nor note amount is public; nullifier,
  destination, gross amount, fee, chain and pool are bound; it creates a nonzero output commitment
  with a nonempty ciphertext whose envelope names the same chain, pool and commitment, has no other
  field and pads its ciphertext with zero bytes to 256; input 9 is the hash of that output note and
  input 8 of the proof context that commits to it.
\<close>

theorem unlinkable_withdrawal_bound:
  assumes "validateWithdrawalRelayCalldata L input = Inr v" "cv_allowed v"
    "ci_relayValidationMode input = Some V1_2_Unlinkable"
  shows "\<exists>call inputs cipher policyHash kvs. cv_decoded v = Some (v12_call call) \<and> publicInputs call = inputs \<and>
    call_selector call = STAGE_C_WITHDRAW_BOUNDED_SELECTOR \<and> encryptedChangeNote call = Some cipher \<and>
    length inputs = 10 \<and> list_all isHexBytes32 inputs \<and>
    call_nullifier call = inputs ! 1 \<and> hex_value (inputs ! 1) \<noteq> 0 \<and> hex_value (inputs ! 2) \<noteq> 0 \<and>
    (\<exists>d. get_address L (call_destination call) = Some d \<and> inputs ! 3 = address_word d) \<and>
    hex_value (inputs ! 4) = call_grossAmount call \<and> hex_value (inputs ! 5) = expected_fee input call \<and>
    hex_value (inputs ! 6) = num_int (ci_chainId input) \<and>
    (\<exists>p. get_address L (ci_pool input) = Some p \<and> inputs ! 7 = address_word p) \<and>
    call_grossAmount call \<in> set MAINNET_CANDIDATE_FIXED_DENOMINATIONS_WEI \<and>
    cipher \<noteq> ''0x'' \<and> isHexString cipher \<and> hexByteLength cipher \<le> 2048 \<and>
    json_parse (hexToUtf8 cipher) = Some (JObj kvs) \<and> fst ` set kvs \<subseteq> set envelope_fields \<and>
    padded_envelope (JObj kvs) \<and> field_number_is (JObj kvs) ''chainId'' (ci_chainId input) \<and>
    (\<exists>c. field_text (JObj kvs) ''outputCommitment'' = Some c \<and> to_lower c = inputs ! 2) \<and>
    computeV12ContractBoundEncryptedOutputNoteHash L (ci_chainId input) (ci_pool input) (call_selector call)
      (call_nullifier call) (inputs ! 2) cipher = Inr (inputs ! 9) \<and>
    computeStageBRelayerPolicyHash L (zero_relayer_policy call) = Inr policyHash \<and>
    computeStageBProofContextHash L (call_context call (ci_chainId input) (ci_pool input) (expected_fee input call)
      (inputs ! 9) policyHash 0 (PROOF_CONTEXT_V1_SHAPE_WITHDRAW_V1_2_FEE_GOVERNANCE (rl_viem L))) = Inr (inputs ! 8)"
proof -
  obtain call where call: "validateV12UnlinkableWithdrawalRelayCall L input call = Inr v" and shape: "call_shape call"
    using validate_v12E [OF assms] by metis
  show ?thesis
  proof (rule v12_facts [OF call assms(2) shape], goal_cases)
    case (1 cipher policyHash)
    obtain kvs where kvs: "json_parse (hexToUtf8 cipher) = Some (JObj kvs)" "fst ` set kvs \<subseteq> set envelope_fields"
      "padded_envelope (JObj kvs)" "field_number_is (JObj kvs) ''chainId'' (ci_chainId input)"
      "\<exists>c. field_text (JObj kvs) ''outputCommitment'' = Some c \<and> to_lower c = publicInputs call ! 2"
      using envelope_facts [OF 1(20)] 1(6) [of 2] by auto
    have "hexByteLength cipher \<le> 2048"
      using 1(19) by (simp add: note_too_long_def hexByteLength_def MAX_ENCRYPTED_NOTE_BYTES_def)
    with 1 kvs show ?case
      by (intro exI [of _ call] exI [of _ "publicInputs call"] exI [of _ cipher] exI [of _ policyHash] exI [of _ kvs])
        simp
  qed
qed

section \<open>The fee policy\<close>

text \<open>
  C37: The fee policy admits a withdrawal only within its bounds: the active and the pending fee are
  between 0 and 100 basis points and a pending fee does not become active before the deadline of
  the request. As the check is written, a pending fee equal to the active one refuses every
  withdrawal that pays the active fee until the pending fee is activated.
\<close>

theorem fee_policy_enforced:
  assumes "validateWithdrawalFeePolicy policy g f deadline = Inr es"
  shows "(es = [] \<longrightarrow> 0 \<le> activeFeeBps policy \<and> activeFeeBps policy \<le> 100 \<and>
      (\<forall>b. pendingFeeBps policy = Some b \<longrightarrow> 0 \<le> b \<and> b \<le> 100 \<and>
        (\<forall>t d. pendingFeeActivationEpochSeconds policy = Some t \<and> deadline = Some d \<longrightarrow> num_int d < t))) \<and>
    (\<forall>t now. pendingFeeBps policy = Some (activeFeeBps policy) \<and>
        pendingFeeActivationEpochSeconds policy = Some t \<and> fp_nowEpochSeconds policy = Some now \<and> now < t \<and>
        f = calculateWithdrawalFee g (Some (activeFeeBps policy)) \<longrightarrow> es \<noteq> [])"
  using assms unfolding validateWithdrawalFeePolicy_def
  by (elim res_elims)
    (auto simp: bps_out_of_bounds_def MAX_WITHDRAWAL_FEE_BPS_def activates_before_deadline_def
      matches_pending_early_def res_simps)

lemma fee_policy_enforced_witness:
  "validateWithdrawalFeePolicy \<lparr>activeFeeBps = 33, pendingFeeBps = Some 50,
     pendingFeeActivationEpochSeconds = Some 500, fp_nowEpochSeconds = Some 100\<rparr> 20000 66 (Some (jsint 200)) = Inr [] \<and>
   validateWithdrawalFeePolicy \<lparr>activeFeeBps = 33, pendingFeeBps = Some 33,
     pendingFeeActivationEpochSeconds = Some 500, fp_nowEpochSeconds = Some 100\<rparr> 20000 66 (Some (jsint 200)) \<noteq> Inr []"
proof
  let ?p = "\<lambda>b. \<lparr>activeFeeBps = 33, pendingFeeBps = Some b,
     pendingFeeActivationEpochSeconds = Some 500, fp_nowEpochSeconds = Some 100\<rparr>"
  show "validateWithdrawalFeePolicy (?p 50) 20000 66 (Some (jsint 200)) = Inr []"
    by (simp add: validateWithdrawalFeePolicy_def activates_before_deadline_def number_to_bigint_def
        bps_out_of_bounds_def MAX_WITHDRAWAL_FEE_BPS_def matches_pending_early_def calculateWithdrawalFee_def
        or_default_def bigint_div_def BPS_DENOMINATOR_def)
  have "calculateWithdrawalFee 20000 (Some 33) = 66"
    by (simp add: calculateWithdrawalFee_def or_default_def bigint_div_def BPS_DENOMINATOR_def)
  then show "validateWithdrawalFeePolicy (?p 33) 20000 66 (Some (jsint 200)) \<noteq> Inr []"
    using fee_policy_enforced [of "?p 33" 20000 66 "Some (jsint 200)" "[]"] by auto
qed

section \<open>A concrete request\<close>

definition sample_inputs :: "string list" where
  "sample_inputs = [toBytes32 11, toBytes32 12, toBytes32 0, address_word sample_addr, toBytes32 5000000000000000,
     toBytes32 16500000000000, toBytes32 6343, address_word sample_addr, toBytes32 13, toBytes32 5000000000000000,
     toBytes32 7, toBytes32 7]"

definition sample_lib :: relay_lib where
  "sample_lib = \<lparr>rl_viem = sample_viem, get_address = (\<lambda>a. if isEvmAddress a then Some a else None),
     is_hex = isHexString, decode_abi = (\<lambda>_ _. Some [DBytes ''0x'', DBytes32Array sample_inputs,
       DBytes32 (toBytes32 12), DAddress sample_addr, DUint 5000000000000000, DUint 0, DUint 5000000000000000])\<rparr>"

definition sample_withdrawal :: calldata_input where
  "sample_withdrawal = \<lparr>ci_data = ''0xc7787d0f'', ci_chainId = jsint 6343, ci_pool = sample_addr,
     ci_relayValidationMode = None, ci_deadlineEpochSeconds = None, ci_expectedRelayer = None,
     ci_expectedRelayerPolicyHash = None, ci_feePolicy = None\<rparr>"

definition sample_call :: relay_call where
  "sample_call = \<lparr>call_selector = WITHDRAW_BOUNDED_SELECTOR, call_relayValidationMode = Some V1_1,
     hasChangeNote = False, hasOutputNote = None, hasUserBounds = True, publicInputs = sample_inputs,
     call_nullifier = toBytes32 12, call_destination = sample_addr, call_grossAmount = 5000000000000000,
     encryptedChangeNote = None, encryptedOutputNote = None, call_minNetAmount = Some 0,
     call_maxFeeAmount = Some 5000000000000000, call_relayerPolicy = None\<rparr>"

lemma sample_inputs_lower: "map to_lower sample_inputs = sample_inputs"
  by (simp add: sample_inputs_def)

lemma sample_decode: "decodeWithdrawalRelayCall sample_lib ''0xc7787d0f'' =
    Inr (sample_call\<lparr>call_relayValidationMode := None\<rparr>)"
proof -
  have sel: "isHexString ''0xc7787d0f''" "to_lower (take 10 ''0xc7787d0f'') = WITHDRAW_BOUNDED_SELECTOR"
    "WITHDRAW_BOUNDED_SELECTOR \<noteq> WITHDRAW_SELECTOR" by code_simp+
  then show ?thesis
    by (simp add: decodeWithdrawalRelayCall_def sample_lib_def FUNCTION_SELECTOR_LENGTH_def Let_def
        decoded_or_error_def decodeBounded_def or_none_def normalizeDecodedWithdrawalCall_def getAddress_def
        sample_address sample_inputs_lower sample_call_def)
qed

lemma sample_denominations: "5000000000000000 \<in> set MAINNET_CANDIDATE_FIXED_DENOMINATIONS_WEI"
  by (simp add: MAINNET_CANDIDATE_FIXED_DENOMINATIONS_WEI_def)

lemma sample_fee: "calculateWithdrawalFee 5000000000000000 None = 16500000000000"
  by (simp add: calculateWithdrawalFee_def or_default_def bigint_div_def BPS_DENOMINATOR_def WITHDRAWAL_FEE_BPS_def)

lemma sample_address_of [simp]: "getAddress sample_lib sample_addr = Inr sample_addr"
  by (simp add: getAddress_def sample_lib_def sample_address)

lemma sample_viem_of [simp]: "rl_viem sample_lib = sample_viem"
  by (simp add: sample_lib_def)

lemma sample_zero_address: "isEvmAddress ZERO_ADDRESS" "to_lower ZERO_ADDRESS = ZERO_ADDRESS"
  by (simp_all add: ZERO_ADDRESS_def isEvmAddress_def hex_of_length_def)

lemma sample_selector: "hex_of_length 8 WITHDRAW_BOUNDED_SELECTOR" "WITHDRAW_BOUNDED_SELECTOR \<noteq> WITHDRAW_SELECTOR"
  "hex_of_length 8 STAGE_C_WITHDRAW_BOUNDED_SELECTOR"
  by code_simp+

lemma sample_word: "isHexBytes32 (address_word sample_addr)"
  by (simp add: address_word_shape sample_address)

lemma core_result_simp [simp]: "core_result (Inr a) = Inr a"
  by (simp add: core_result_def)

lemma sample_policy_hash: "computeStageBRelayerPolicyHash sample_lib (zero_relayer_policy sample_call) = Inr (toBytes32 7)"
  unfolding computeStageBRelayerPolicyHash_def zero_relayer_policy_def sample_call_def
  by (simp add: change_eval sample_zero_address core_result_Inr)

lemma sample_note_hash: "computeStageBContractBoundEncryptedNoteHash sample_lib (Num 6343) sample_addr
    WITHDRAW_BOUNDED_SELECTOR (toBytes32 12) 5000000000000000
    (Some (PROOF_CONTEXT_V1_SHAPE_WITHDRAW sample_viem)) = Inr (toBytes32 7)"
  unfolding computeStageBContractBoundEncryptedNoteHash_def computeNoteHash_def
  by (simp add: change_eval sample_selector core_result_Inr)

lemma sample_context_hash: "computeStageBProofContextHash sample_lib (call_context sample_call (Num 6343) sample_addr
    16500000000000 (toBytes32 7) (toBytes32 7) 0 (PROOF_CONTEXT_V1_SHAPE_WITHDRAW sample_viem)) = Inr (toBytes32 7)"
  unfolding computeStageBProofContextHash_def call_context_def sample_call_def
  by (simp add: change_eval sample_selector core_result_Inr input_or_def sample_inputs_def)

lemma sample_preflight:
  assumes "ci_pool input = sample_addr" "ci_chainId input = jsint 6343"
  shows "stage_errors sample_lib input sample_call 16500000000000 5000000000000000
    (PROOF_CONTEXT_V1_SHAPE_WITHDRAW sample_viem) = Inr []"
proof -
  have "isBoundedFullExit sample_call" "\<not> isStageB sample_call" "\<not> isStageC sample_call"
    by (simp_all add: isBoundedFullExit_def isStageB_def isStageC_def sample_call_def)
  moreover have "validateBoundedFullExitPreflight sample_lib sample_call (Num 6343) sample_addr 16500000000000
      5000000000000000 (PROOF_CONTEXT_V1_SHAPE_WITHDRAW sample_viem) = Inr []"
  proof -
    have "call_selector sample_call = WITHDRAW_BOUNDED_SELECTOR" "call_nullifier sample_call = toBytes32 12"
      "input_or (publicInputs sample_call) 11 [] = toBytes32 7" "input_or (publicInputs sample_call) 10 [] = toBytes32 7"
      by (simp_all add: sample_call_def sample_inputs_def input_or_def)
    then show ?thesis
      by (simp add: validateBoundedFullExitPreflight_def sample_note_hash sample_policy_hash sample_context_hash)
  qed
  ultimately show ?thesis
    by (simp add: stage_errors_def assms)
qed

text \<open>The deadline and the relayer of the request play no role for a bounded full exit.\<close>

lemma sample_accept:
  assumes request: "ci_data input = ''0xc7787d0f''" "ci_pool input = sample_addr" "ci_chainId input = jsint 6343"
    "ci_feePolicy input = None" "ci_relayValidationMode input = None"
  shows "validateWithdrawalRelayCalldata sample_lib input =
    Inr \<lparr>cv_allowed = True, cv_errors = [], cv_decoded = Some sample_call\<rparr>"
proof -
  have parts: "publicInputs sample_call = sample_inputs" "call_destination sample_call = sample_addr"
    "call_grossAmount sample_call = 5000000000000000" "call_nullifier sample_call = toBytes32 12"
    "hasUserBounds sample_call" "encryptedChangeNote sample_call = None" "isStageC sample_call = False"
    "expectedPublicInputsLength sample_call = 12" "call_minNetAmount sample_call = Some 0"
    "call_maxFeeAmount sample_call = Some 5000000000000000"
    by (simp_all add: sample_call_def isStageC_def expectedPublicInputsLength_def isStageB_def isBoundedFullExit_def)
  have mode: "sample_call\<lparr>call_relayValidationMode := Some V1_1\<rparr> = sample_call"
    by (simp add: sample_call_def)
  have address: "addressToBytes32 sample_lib sample_addr = Inr (address_word sample_addr)"
    by (simp add: addressToBytes32_def address_word_def to_lower_drop)
  have inputs: "length sample_inputs = 12" "input_or sample_inputs (Suc 0) d = toBytes32 12"
    "input_or sample_inputs 2 d = toBytes32 0" "input_or sample_inputs 3 d = address_word sample_addr"
    "input_or sample_inputs 4 d = toBytes32 5000000000000000" "input_or sample_inputs 5 d = toBytes32 16500000000000"
    "input_or sample_inputs 6 d = toBytes32 6343" "input_or sample_inputs 7 d = address_word sample_addr"
    "input_or sample_inputs 8 d = toBytes32 13" "input_or sample_inputs 9 d = toBytes32 5000000000000000"
    "list_all isHexBytes32 sample_inputs" for d
    by (simp_all add: sample_inputs_def input_or_def toBytes32_shape sample_word)
  have words: "toBytes32 12 \<noteq> ZERO_BYTES32" "toBytes32 13 \<noteq> ZERO_BYTES32" "toBytes32 0 = ZERO_BYTES32"
    by (simp_all add: zero_word toBytes32_inj)
  have amounts: "bytes32ToBigInt (toBytes32 5000000000000000) = Inr 5000000000000000"
    "bytes32ToBigInt (toBytes32 16500000000000) = Inr 16500000000000" "bytes32ToBigInt (toBytes32 6343) = Inr 6343"
    by (simp_all add: bytes32ToBigInt_hex toBytes32_shape)
  have errors: "call_input_errors sample_call (address_word sample_addr) 5000000000000000 = []"
    "pool_input_errors sample_call (address_word sample_addr) 6343 6343 = []"
    "amount_errors sample_call 5000000000000000 = []" "bound_errors sample_call 16500000000000 = []"
    using sample_address sample_denominations
    by (simp_all add: call_input_errors_def pool_input_errors_def amount_errors_def bound_errors_def parts inputs
        words SUPPORTED_FIXED_DENOMINATIONS_def or_default_def truthy_def)
  have "validateV11 sample_lib input sample_call =
      Inr \<lparr>cv_allowed = True, cv_errors = [], cv_decoded = Some sample_call\<rparr>"
    using sample_preflight [OF request(2,3)] errors
    by (simp add: validateV11_def Let_def request parts address inputs amounts sample_fee policy_errors_def
        number_to_bigint_def selectWithdrawalProofContextShape_def)
  then show ?thesis
    by (simp add: validateWithdrawalRelayCalldata_def request sample_decode or_default_def Let_def mode)
qed

lemma sample_run: "\<exists>v. validateWithdrawalRelayCalldata sample_lib sample_withdrawal = Inr v \<and> cv_allowed v"
  using sample_accept [of sample_withdrawal] by (simp add: sample_withdrawal_def)

lemma sample_not_v12: "ci_relayValidationMode sample_withdrawal \<noteq> Some V1_2_Unlinkable"
  by (simp add: sample_withdrawal_def)

lemma relayed_withdrawal_bound_witness:
  "\<exists>v call. validateWithdrawalRelayCalldata sample_lib sample_withdrawal = Inr v \<and> cv_allowed v \<and>
     cv_decoded v = Some call \<and> length (publicInputs call) = 12 \<and>
     hex_value (publicInputs call ! 4) = call_grossAmount call"
proof -
  obtain v where v: "validateWithdrawalRelayCalldata sample_lib sample_withdrawal = Inr v" "cv_allowed v"
    using sample_run by blast
  from relayed_withdrawal_bound [OF v sample_not_v12] v show ?thesis by blast
qed

lemma relayed_withdrawal_conserves_witness:
  "\<exists>v call. validateWithdrawalRelayCalldata sample_lib sample_withdrawal = Inr v \<and> cv_decoded v = Some call \<and>
     expected_fee sample_withdrawal call \<le> call_grossAmount call"
proof -
  obtain v where v: "validateWithdrawalRelayCalldata sample_lib sample_withdrawal = Inr v" "cv_allowed v"
    using sample_run by blast
  from relayed_withdrawal_conserves [OF v sample_not_v12] v show ?thesis by blast
qed

lemma relayed_withdrawal_hash_bound_witness:
  "\<exists>v call policy. validateWithdrawalRelayCalldata sample_lib sample_withdrawal = Inr v \<and> cv_decoded v = Some call \<and>
     hash_bound sample_lib sample_withdrawal call (expected_fee sample_withdrawal call)
       (hex_value (publicInputs call ! 9)) (selectWithdrawalProofContextShape sample_lib None) policy"
proof -
  obtain v where v: "validateWithdrawalRelayCalldata sample_lib sample_withdrawal = Inr v" "cv_allowed v"
    using sample_run by blast
  have "ci_feePolicy sample_withdrawal = None" by (simp add: sample_withdrawal_def)
  with relayed_withdrawal_hash_bound [OF v sample_not_v12] v show ?thesis by metis
qed

end
