(* ===== verification/Relay_Unlinkable_Sample.thy ===== *)
theory Relay_Unlinkable_Sample
  imports Relay_Bindings Hex_Text
begin

text \<open>
  A concrete request of the unlinkable mode that the relay accepts: its output note is the hex text
  of a printed envelope, read back with the round trips of hex and JSON.
\<close>

definition v12_pool :: string where
  "v12_pool = ''0xEc61D863700DeF260E7BABA634FAa24AEC81f29e''"

lemma v12_pool_address: "isEvmAddress v12_pool" "to_lower v12_pool \<noteq> ZERO_ADDRESS" "starts_with ''0x'' v12_pool"
    "list_all is_hex_char (drop 2 v12_pool)" "length v12_pool = 42"
  by code_simp+

definition sample_envelope :: "(string \<times> json) list" where
  "sample_envelope = [(''version'', JNum (jsint 2)), (''domain'', JStr ''nullark.encrypted-output-note.v2''),
     (''chainId'', JNum (jsint 6343)), (''verifyingContract'', JStr v12_pool), (''action'', JStr ''withdraw-output''),
     (''outputCommitment'', JStr (toBytes32 14)), (''proofContextHash'', JStr ZERO_BYTES32),
     (''ephemeralPublicKey'', JStr (toBytes32 15)), (''nonce'', JStr (zero_text 48)),
     (''ciphertext'', JStr (zero_text 512)), (''ciphertextByteLength'', JNum (jsint 256)),
     (''paddingBytes'', JStr ''0x''), (''paddingByteLength'', JNum (jsint 0)),
     (''paddedCiphertextByteLength'', JNum (jsint 256))]"

definition sample_note :: string where
  "sample_note = text_hex (object_text sample_envelope)"

lemma sample_envelope_parses: "json_parse (hexToUtf8 sample_note) = Some (JObj sample_envelope)"
proof -
  have flat: "flat_value (JStr s)" "\<bar>i\<bar> < 1000000000000000000000 \<Longrightarrow> flat_value (JNum (jsint i))" for s i
    by (auto simp: flat_value_def)
  have "\<forall>kv \<in> set sample_envelope. flat_value (snd kv)"
    using flat(2) [of 2] flat(2) [of 6343] flat(2) [of 256] flat(2) [of 0]
    by (simp add: sample_envelope_def flat(1))
  moreover have "map fst sample_envelope = envelope_fields \<or> distinct (map fst sample_envelope)"
    by (simp add: sample_envelope_def)
  moreover have "distinct (map fst sample_envelope)"
    by (simp add: sample_envelope_def)
  ultimately have "json_parse (object_text sample_envelope) = Some (JObj sample_envelope)"
    using json_round_trip_text [of sample_envelope] by (simp add: sample_envelope_def)
  moreover have "hexToUtf8 sample_note = object_text sample_envelope"
    unfolding sample_note_def object_text_def by (rule hexToUtf8_text_hex)
  ultimately show ?thesis by simp
qed

lemma hex_text_lengths: "length (json_string v12_pool) = 44" "length (json_string (toBytes32 14)) = 68"
    "length (json_string ZERO_BYTES32) = 68" "length (json_string (toBytes32 15)) = 68"
    "length (json_string (zero_text 48)) = 52" "length (json_string (zero_text 512)) = 516"
  using json_string_hex [of v12_pool] v12_pool_address
  by (simp_all add: bytes32_text toBytes32_shape zero_text_hex)

lemma sample_text_length: "length (object_text sample_envelope) < 2048"
proof -
  have "length (join_comma (map member_text sample_envelope)) \<le>
      sum_list (map (\<lambda>kv. length (member_text kv) + 1) sample_envelope)"
    using length_join [of "map member_text sample_envelope"] by (simp add: comp_def)
  also have "\<dots> \<le> 1500"
    unfolding sample_envelope_def list.map sum_list.Cons sum_list.Nil length_members(1) plain_lengths hex_text_lengths
    using length_members(2) [of 2] length_members(2) [of 6343] length_members(2) [of 256] length_members(2) [of 0]
    by (simp del: of_int_numeral of_int_0 add: plain_lengths number_lengths)
  finally show ?thesis by (simp add: object_text_def)
qed

lemma sample_envelope_ok:
  "envelope_errors (JObj sample_envelope) sample_envelope (Num 6343) v12_pool (toBytes32 14) = []"
proof -
  have fields: "field_text (JObj sample_envelope) ''domain'' = Some ''nullark.encrypted-output-note.v2''"
    "field_text (JObj sample_envelope) ''action'' = Some ''withdraw-output''"
    "field_text (JObj sample_envelope) ''verifyingContract'' = Some v12_pool"
    "field_text (JObj sample_envelope) ''outputCommitment'' = Some (toBytes32 14)"
    "field_text (JObj sample_envelope) ''proofContextHash'' = Some ZERO_BYTES32"
    "field_text (JObj sample_envelope) ''ephemeralPublicKey'' = Some (toBytes32 15)"
    "field_text (JObj sample_envelope) ''nonce'' = Some (zero_text 48)"
    "field_text (JObj sample_envelope) ''ciphertext'' = Some (zero_text 512)"
    "field_text (JObj sample_envelope) ''paddingBytes'' = Some ''0x''"
    by (simp_all add: field_text_def json_field_def sample_envelope_def)
  have numbers: "field_number_is (JObj sample_envelope) ''version'' (Num 2)"
    "field_number_is (JObj sample_envelope) ''chainId'' (Num 6343)"
    "field_number_is (JObj sample_envelope) ''ciphertextByteLength'' (Num 256)"
    "field_number_is (JObj sample_envelope) ''paddingByteLength'' (Num 0)"
    "field_number_is (JObj sample_envelope) ''paddedCiphertextByteLength'' (Num 256)"
    by (simp_all add: field_number_is_def json_field_def sample_envelope_def num_eq_def)
  have known: "list_all (\<lambda>kv. fst kv \<in> set envelope_fields) sample_envelope"
    by (simp add: sample_envelope_def envelope_fields_def)
  have lengths: "hexByteLength (zero_text 512) = 256" "isHexString (zero_text 512)" "hexByteLength ''0x'' = 0"
    "zero_bytes ''0x''" "hex_of_length 48 (zero_text 48)"
    by (simp_all add: zero_text_hex hexByteLength_def zero_bytes_def) (simp add: zero_text_def)
  show ?thesis
    by (simp add: envelope_errors_def Let_def fields numbers known lengths text_is_def byte_length_or_def
        sample_hex toBytes32_shape)
qed

lemma sample_note_ok: "isHexString sample_note" "sample_note \<noteq> ''0x''" "\<not> note_too_long sample_note"
    "validateEncryptedOutputNoteV2EnvelopeForBinding sample_note (Num 6343) v12_pool (toBytes32 14) = []"
proof -
  have l: "length sample_note = 2 + 2 * length (object_text sample_envelope)"
    by (simp add: sample_note_def length_text_hex)
  show "isHexString sample_note" by (simp add: sample_note_def isHexString_text_hex)
  show "\<not> note_too_long sample_note"
    using sample_text_length by (simp add: note_too_long_def l MAX_ENCRYPTED_NOTE_BYTES_def)
  have "length (object_text sample_envelope) > 0" by (simp add: object_text_def)
  then have "length sample_note \<noteq> length ''0x''" using l by simp
  then show "sample_note \<noteq> ''0x''" by metis
  show "validateEncryptedOutputNoteV2EnvelopeForBinding sample_note (Num 6343) v12_pool (toBytes32 14) = []"
    by (simp add: validateEncryptedOutputNoteV2EnvelopeForBinding_def sample_envelope_parses sample_envelope_ok
        js_unique_def)
qed

definition v12_inputs :: "string list" where
  "v12_inputs = [toBytes32 11, toBytes32 12, toBytes32 14, address_word sample_addr, toBytes32 5000000000000000,
     toBytes32 16500000000000, toBytes32 6343, address_word v12_pool, toBytes32 7, toBytes32 7]"

definition v12_lib :: relay_lib where
  "v12_lib = sample_lib\<lparr>decode_abi := (\<lambda>_ _. Some [DBytes ''0x'', DBytes32Array v12_inputs,
     DBytes32 (toBytes32 12), DAddress sample_addr, DUint 5000000000000000, DBytes sample_note, DUint 0,
     DUint 5000000000000000])\<rparr>"

definition v12_request :: calldata_input where
  "v12_request = sample_withdrawal\<lparr>ci_data := ''0x678d8506'', ci_pool := v12_pool, ci_relayValidationMode := Some V1_2_Unlinkable\<rparr>"

definition v12_sample_call :: relay_call where
  "v12_sample_call = \<lparr>call_selector = STAGE_C_WITHDRAW_BOUNDED_SELECTOR, call_relayValidationMode = Some V1_2_Unlinkable,
     hasChangeNote = True, hasOutputNote = None, hasUserBounds = True, publicInputs = v12_inputs,
     call_nullifier = toBytes32 12, call_destination = sample_addr, call_grossAmount = 5000000000000000,
     encryptedChangeNote = Some sample_note, encryptedOutputNote = None, call_minNetAmount = Some 0,
     call_maxFeeAmount = Some 5000000000000000, call_relayerPolicy = None\<rparr>"

lemma v12_decode: "decodeWithdrawalRelayCall v12_lib ''0x678d8506'' =
    Inr (v12_sample_call\<lparr>call_relayValidationMode := None\<rparr>)"
proof -
  have sel: "isHexString ''0x678d8506''" "to_lower (take 10 ''0x678d8506'') = STAGE_C_WITHDRAW_BOUNDED_SELECTOR"
    "STAGE_C_WITHDRAW_BOUNDED_SELECTOR \<noteq> WITHDRAW_SELECTOR"
    "STAGE_C_WITHDRAW_BOUNDED_SELECTOR \<noteq> WITHDRAW_BOUNDED_SELECTOR"
    "STAGE_C_WITHDRAW_BOUNDED_SELECTOR \<noteq> PROOF_CONTEXT_V1_WITHDRAW_RELAYER_POLICY_SELECTOR"
    "STAGE_C_WITHDRAW_BOUNDED_SELECTOR \<noteq> STAGE_C_WITHDRAW_UNBOUNDED_SELECTOR" by code_simp+
  have "map to_lower v12_inputs = v12_inputs" by (simp add: v12_inputs_def)
  with sel show ?thesis
    by (simp add: decodeWithdrawalRelayCall_def v12_lib_def sample_lib_def FUNCTION_SELECTOR_LENGTH_def Let_def
        decoded_or_error_def decodeStageC_def or_none_def normalizeDecodedWithdrawalCall_def getAddress_def
        sample_address v12_sample_call_def)
qed

lemma v12_lib_simps [simp]: "rl_viem v12_lib = sample_viem" "getAddress v12_lib sample_addr = Inr sample_addr"
  "getAddress v12_lib v12_pool = Inr v12_pool"
  by (simp_all add: v12_lib_def getAddress_def sample_lib_def sample_address v12_pool_address)

lemma v12_domains: "PROOF_CONTEXT_V1_SHAPE_WITHDRAW_V1_2_FEE_GOVERNANCE sample_viem = toBytes32 7"
  "ENCRYPTED_OUTPUT_NOTE_V2_DOMAIN_SEPARATOR v12_lib = toBytes32 7"
  by (simp_all add: PROOF_CONTEXT_V1_SHAPE_WITHDRAW_V1_2_FEE_GOVERNANCE_def sample_domains
      ENCRYPTED_OUTPUT_NOTE_V2_DOMAIN_SEPARATOR_def) (simp add: sample_viem_def)

lemma v12_note_hash: "computeV12ContractBoundEncryptedOutputNoteHash v12_lib (Num 6343) v12_pool
    STAGE_C_WITHDRAW_BOUNDED_SELECTOR (toBytes32 12) (toBytes32 14) sample_note = Inr (toBytes32 7)"
proof -
  have "encode_abi sample_viem vs = Inr ''0x''" for vs by (simp add: encode_abi_def sample_viem_def)
  then show ?thesis
    by (simp add: computeV12ContractBoundEncryptedOutputNoteHash_def number_to_bigint_def sample_hash)
qed

lemma v12_policy_hash:
  "computeStageBRelayerPolicyHash v12_lib (zero_relayer_policy v12_sample_call) = Inr (toBytes32 7)"
  unfolding computeStageBRelayerPolicyHash_def zero_relayer_policy_def v12_sample_call_def
  by (simp add: change_eval sample_zero_address core_result_Inr)

lemma v12_context_hash: "computeStageBProofContextHash v12_lib (call_context v12_sample_call (Num 6343) v12_pool
    16500000000000 (toBytes32 7) (toBytes32 7) 0 (toBytes32 7)) = Inr (toBytes32 7)"
  unfolding computeStageBProofContextHash_def call_context_def v12_sample_call_def
  by (simp add: change_eval v12_pool_address sample_selector core_result_Inr input_or_def v12_inputs_def)

lemma v12_accepts: "validateWithdrawalRelayCalldata v12_lib v12_request =
    Inr \<lparr>cv_allowed = True, cv_errors = [], cv_decoded = Some (v12_call v12_sample_call)\<rparr>"
proof -
  have parts: "publicInputs v12_sample_call = v12_inputs" "call_destination v12_sample_call = sample_addr"
    "call_grossAmount v12_sample_call = 5000000000000000" "call_nullifier v12_sample_call = toBytes32 12"
    "hasUserBounds v12_sample_call" "hasChangeNote v12_sample_call" "encryptedChangeNote v12_sample_call = Some sample_note"
    "call_minNetAmount v12_sample_call = Some 0" "call_maxFeeAmount v12_sample_call = Some 5000000000000000"
    "call_selector v12_sample_call = STAGE_C_WITHDRAW_BOUNDED_SELECTOR" "call_relayerPolicy v12_sample_call = None"
    by (simp_all add: v12_sample_call_def)
  have mode: "v12_sample_call\<lparr>call_relayValidationMode := Some V1_2_Unlinkable\<rparr> = v12_sample_call"
    by (simp add: v12_sample_call_def)
  have address: "addressToBytes32 v12_lib sample_addr = Inr (address_word sample_addr)"
    "addressToBytes32 v12_lib v12_pool = Inr (address_word v12_pool)"
    by (simp_all add: addressToBytes32_def address_word_def to_lower_drop)
  have inputs: "length v12_inputs = 10" "input_or v12_inputs (Suc 0) d = toBytes32 12"
    "input_or v12_inputs 2 d = toBytes32 14" "input_or v12_inputs 3 d = address_word sample_addr"
    "input_or v12_inputs 4 d = toBytes32 5000000000000000" "input_or v12_inputs 5 d = toBytes32 16500000000000"
    "input_or v12_inputs 6 d = toBytes32 6343" "input_or v12_inputs 7 d = address_word v12_pool"
    "input_or v12_inputs 8 d = toBytes32 7" "input_or v12_inputs 9 d = toBytes32 7"
    "list_all isHexBytes32 v12_inputs" for d
    by (simp_all add: v12_inputs_def input_or_def toBytes32_shape sample_word address_word_shape v12_pool_address)
  have words: "toBytes32 12 \<noteq> ZERO_BYTES32" "toBytes32 14 \<noteq> ZERO_BYTES32"
    by (simp_all add: zero_word toBytes32_inj)
  have amounts: "bytes32ToBigInt (toBytes32 5000000000000000) = Inr 5000000000000000"
    "bytes32ToBigInt (toBytes32 16500000000000) = Inr 16500000000000" "bytes32ToBigInt (toBytes32 6343) = Inr 6343"
    by (simp_all add: bytes32ToBigInt_hex toBytes32_shape)
  have errors: "v12_input_errors v12_sample_call (address_word sample_addr) 5000000000000000 = []"
    "v12_amount_errors v12_sample_call (address_word v12_pool) 6343 6343 16500000000000 = []"
    "v12_note_errors v12_sample_call (Num 6343) v12_pool (toBytes32 14) sample_note = []"
    using sample_address sample_denominations sample_note_ok
    by (simp_all add: v12_input_errors_def v12_amount_errors_def v12_note_errors_def parts inputs
        words SUPPORTED_FIXED_DENOMINATIONS_def or_default_def toBytes32_shape)
  have request: "ci_data v12_request = ''0x678d8506''" "ci_pool v12_request = v12_pool"
    "ci_chainId v12_request = Num 6343" "ci_feePolicy v12_request = None"
    "ci_relayValidationMode v12_request = Some V1_2_Unlinkable"
    by (simp_all add: v12_request_def sample_withdrawal_def)
  have policy: "sb_deadlineOrZero (zero_relayer_policy v12_sample_call) = 0"
    by (simp add: zero_relayer_policy_def)
  have "validateV12UnlinkableWithdrawalRelayCall v12_lib v12_request v12_sample_call =
      Inr \<lparr>cv_allowed = True, cv_errors = [], cv_decoded = Some (v12_call v12_sample_call)\<rparr>"
    using errors
    by (simp add: validateV12UnlinkableWithdrawalRelayCall_def Let_def request parts address inputs amounts sample_fee
        policy_errors_def number_to_bigint_def v12_domains v12_note_hash v12_policy_hash v12_context_hash policy
        createStageCRelayerPolicy_def or_default_def)
  then show ?thesis
    by (simp add: validateWithdrawalRelayCalldata_def request v12_decode or_default_def Let_def mode)
qed

lemma v12_run: "\<exists>v. validateWithdrawalRelayCalldata v12_lib v12_request = Inr v \<and> cv_allowed v"
  by (simp add: v12_accepts)

lemma unlinkable_withdrawal_bound_witness:
  "\<exists>v call. validateWithdrawalRelayCalldata v12_lib v12_request = Inr v \<and> cv_allowed v \<and>
     cv_decoded v = Some (v12_call call) \<and> length (publicInputs call) = 10 \<and> hex_value (publicInputs call ! 2) \<noteq> 0"
proof -
  obtain v where v: "validateWithdrawalRelayCalldata v12_lib v12_request = Inr v" "cv_allowed v"
    using v12_run by blast
  have "ci_relayValidationMode v12_request = Some V1_2_Unlinkable" by (simp add: v12_request_def)
  from unlinkable_withdrawal_bound [OF v this] v show ?thesis by blast
qed

end
