(* ===== verification/Indexer_Bindings.thy ===== *)
theory Indexer_Bindings
  imports Indexer_Notes Relay_Unlinkable_Sample
begin

text \<open>
  The relay and the indexer check the same withdrawal, one from the calldata and one from the public
  inputs and the note event: what the relay accepts in the unlinkable mode, the indexer accepts too,
  up to the evidence only the indexer asks for.
\<close>

lemma createProofContext_destination:
  assumes "createProofContextV1 V a b c = Inr n"
  shows "createProofContextV1 V a b (c\<lparr>pcx_destination := to_lower (pcx_destination c)\<rparr>) = Inr n"
  using assms unfolding createProofContextV1_def normalizeProofContextV1_def by (auto simp: res_simps)

lemma envelope_pool_case:
  assumes "to_lower p = to_lower q"
  shows "validateEncryptedOutputNoteV2EnvelopeForBinding n chainId p c =
    validateEncryptedOutputNoteV2EnvelopeForBinding n chainId q c"
proof -
  have eq: "envelope_errors e kvs chainId p c = envelope_errors e kvs chainId q c" for e kvs
    using assms by (simp add: envelope_errors_def)
  show ?thesis
    by (simp only: validateEncryptedOutputNoteV2EnvelopeForBinding_def eq)
qed

lemma address_of_word:
  assumes "isEvmAddress a"
  shows "bytes32ToEvmAddress (address_word a) = to_lower a"
proof -
  obtain t where t: "a = ''0x'' @ t" "length t = 40"
    using assms by (auto simp: isEvmAddress_def elim: hex_of_lengthE)
  then show ?thesis
    by (simp add: bytes32ToEvmAddress_def address_word_def)
qed

text \<open>What the relay relies on of \<open>getAddress\<close>: the checksummed spelling of an address.\<close>

definition checksum_only :: "relay_lib \<Rightarrow> bool" where
  "checksum_only L \<longleftrightarrow> (\<forall>a c. get_address L a = Some c \<longrightarrow> isEvmAddress c \<and> to_lower c = to_lower a)"

text \<open>What the indexer is given for an accepted call.\<close>

definition binding_of_call ::
  "calldata_input \<Rightarrow> string \<Rightarrow> relay_call \<Rightarrow> string \<Rightarrow> note_event option \<Rightarrow> readiness_evidence option \<Rightarrow> output_binding" where
  "binding_of_call input pool call policyHash event evidence =
     \<lparr>ob_chainId = ci_chainId input, ob_pool = pool, ob_selector = Some (call_selector call),
      ob_publicInputs = publicInputs call, ob_encryptedOutputNote = or_default (encryptedOutputNote call) ''0x'',
      ob_relayerPolicyHash = Some policyHash, ob_deadlineOrZero = Some 0, ob_eventRecord = event,
      ob_readinessEvidence = evidence, ob_extraFields = []\<rparr>"

definition readiness_errors :: "readiness_evidence option \<Rightarrow> jsnum \<Rightarrow> string \<Rightarrow> string list" where
  "readiness_errors evidence chainId pool =
     err_if (\<not> hasMatchingV12IndexerReadinessEvidence evidence chainId pool)
       ''v1.2 unlinkable indexer binding remains blocked until matching readiness evidence is present.''"

lemma binding_of_call_simps [simp]:
  "ob_chainId (binding_of_call i p c h ev e) = ci_chainId i" "ob_pool (binding_of_call i p c h ev e) = p"
  "ob_selector (binding_of_call i p c h ev e) = Some (call_selector c)"
  "ob_publicInputs (binding_of_call i p c h ev e) = publicInputs c"
  "ob_encryptedOutputNote (binding_of_call i p c h ev e) = or_default (encryptedOutputNote c) ''0x''"
  "ob_relayerPolicyHash (binding_of_call i p c h ev e) = Some h"
  "ob_deadlineOrZero (binding_of_call i p c h ev e) = Some 0" "ob_eventRecord (binding_of_call i p c h ev e) = ev"
  "ob_readinessEvidence (binding_of_call i p c h ev e) = e" "ob_extraFields (binding_of_call i p c h ev e) = []"
  by (simp_all add: binding_of_call_def)

lemma v12_call_simps [simp]:
  "publicInputs (v12_call c) = publicInputs c" "call_selector (v12_call c) = call_selector c"
  "encryptedOutputNote (v12_call c) = Some (or_default (encryptedChangeNote c) ''0x'')"
  by (simp_all add: v12_call_def)

text \<open>The two sides hash the same note and the same context.\<close>

lemma same_note_hash:
  assumes "computeV12ContractBoundEncryptedOutputNoteHash L chainId pool selector nullifier c n = Inr h"
    "get_address L pool = Some p"
  shows "computeV12UnlinkableWithdrawEncryptedOutputNoteHash (rl_viem L) chainId p (Some selector) nullifier c n = Inr h"
  using assms
  by (auto simp: computeV12ContractBoundEncryptedOutputNoteHash_def computeV12UnlinkableWithdrawEncryptedOutputNoteHash_def
      res_simps getAddress_def OUTPUT_NOTE_V2_DOMAIN_SEPARATOR_def ENCRYPTED_OUTPUT_NOTE_V2_DOMAIN_SEPARATOR_def
      or_default_def)

lemma same_context_hash:
  assumes "computeStageBProofContextHash L (call_context call chainId pool f noteHash policyHash 0 shape) = Inr h"
    "get_address L pool = Some p" "get_address L (call_destination call) = Some d" "isEvmAddress d"
  shows "context_hash_of (rl_viem L) \<lparr>pcx_domainSeparator = [], pcx_version = 0, pcx_chainId = chainId,
    pcx_pool = p, pcx_shape = shape, pcx_selector = call_selector call,
    pcx_root = input_or (publicInputs call) 0 ZERO_BYTES32, pcx_nullifier = call_nullifier call,
    pcx_destination = bytes32ToEvmAddress (address_word d), pcx_grossAmount = call_grossAmount call,
    pcx_fee = f, pcx_encryptedNoteHash = noteHash, pcx_relayerPolicyHash = policyHash,
    pcx_deadlineOrZero = 0\<rparr> = Inr h"
proof -
  let ?c = "\<lambda>dest. \<lparr>pcx_domainSeparator = [], pcx_version = 0, pcx_chainId = chainId,
    pcx_pool = p, pcx_shape = shape, pcx_selector = call_selector call,
    pcx_root = input_or (publicInputs call) 0 ZERO_BYTES32, pcx_nullifier = call_nullifier call,
    pcx_destination = dest, pcx_grossAmount = call_grossAmount call,
    pcx_fee = f, pcx_encryptedNoteHash = noteHash, pcx_relayerPolicyHash = policyHash,
    pcx_deadlineOrZero = 0\<rparr>"
  obtain n where n: "createProofContextV1 (rl_viem L) None None (?c d) = Inr n" "hashProofContextV1 (rl_viem L) n = Inr h"
    using assms(1-3)
    by (auto simp: computeStageBProofContextHash_def call_context_def res_simps or_default_def)
  from createProofContext_destination [OF n(1)]
  have "createProofContextV1 (rl_viem L) None None (?c (to_lower d)) = Inr n" by simp
  with n(2) show ?thesis
    unfolding address_of_word [OF assms(4)] by (simp add: context_hash_of_def core_result_def)
qed

lemma note_has_bytes: "isHexString s \<Longrightarrow> s \<noteq> ''0x'' \<Longrightarrow> length s > 2"
  by (erule isHexStringE) auto

text \<open>
  C38: The two services agree. For every withdrawal the relay accepts in the unlinkable mode (version
  1.2), the indexer's check of the same public inputs, output note, policy hash and deadline computes
  the two hashes of the public inputs, and the only errors left to it are a missing readiness
  evidence and a note event that does not match the chain, pool, commitment, ciphertext or nullifier
  of the call: with the evidence and the matching event it reports nothing.
\<close>

theorem indexer_agrees_with_relay:
  assumes "checksum_only L" "validateWithdrawalRelayCalldata L input = Inr v" "cv_allowed v"
    "ci_relayValidationMode input = Some V1_2_Unlinkable"
  shows "\<exists>call pool policyHash. cv_decoded v = Some call \<and> get_address L (ci_pool input) = Some pool \<and>
    computeStageBRelayerPolicyHash L (zero_relayer_policy call) = Inr policyHash \<and>
    (\<forall>event evidence. let i = binding_of_call input pool call policyHash event evidence in
       validateV12UnlinkableWithdrawOutputNoteIndexerBinding (rl_viem L) i =
       Inr \<lparr>bv_encryptedNoteHash = publicInputs call ! 9, bv_proofContextHash = Some (publicInputs call ! 8),
         bv_errors = js_unique (readiness_errors evidence (ci_chainId input) pool @
           output_event_errors i (publicInputs call ! 1) (publicInputs call ! 2)),
         bv_limitations = []\<rparr>)"
proof -
  obtain call where call: "validateV12UnlinkableWithdrawalRelayCall L input call = Inr v" and shape: "call_shape call"
    using validate_v12E [OF assms(2-4)] by metis
  show ?thesis
  proof (rule v12_facts [OF call assms(3) shape], goal_cases)
    case f: (1 cipher policyHash)
    let ?xs = "publicInputs call"
    obtain d p where d: "get_address L (call_destination call) = Some d" "?xs ! 3 = address_word d"
      and p: "get_address L (ci_pool input) = Some p" "?xs ! 7 = address_word p"
      using f(10,15) by blast
    have ev: "isEvmAddress d" "isEvmAddress p" "to_lower p = to_lower (ci_pool input)"
      using assms(1) d(1) p(1) by (auto simp: checksum_only_def)
    have nth: "input_or ?xs k z = ?xs ! k" if "k < 10" for k z
      using that f(4) by (simp add: input_or_nth)
    have words: "isHexBytes32 (?xs ! k)" "to_lower (?xs ! k) = ?xs ! k" if "k < 10" for k
      using f(6) [OF that] by blast+
    have nonzero: "?xs ! 1 \<noteq> ZERO_BYTES32" "?xs ! 2 \<noteq> ZERO_BYTES32"
      using f(8,9) by auto
    have envelope: "validateEncryptedOutputNoteV2EnvelopeForBinding cipher (ci_chainId input) p (?xs ! 2) = []"
      using f(20) envelope_pool_case [OF ev(3)] by simp
    note hash = same_note_hash [OF f(21) p(1), unfolded f(2,7)]
    note ctx = same_context_hash [OF f(23) p(1) d(1) ev(1), unfolded f(2,7)]
    have amounts: "bytes32ToBigInt (?xs ! 4) = Inr (call_grossAmount call)"
      "bytes32ToBigInt (?xs ! 5) = Inr (expected_fee input call)"
      "bytes32ToBigInt (?xs ! 6) = Inr (num_int (ci_chainId input))"
      using f(11,12,14) words by (simp_all add: bytes32ToBigInt_hex)
    have run: "validateV12UnlinkableWithdrawOutputNoteIndexerBinding (rl_viem L)
        (binding_of_call input p (v12_call call) policyHash event evidence) =
       Inr \<lparr>bv_encryptedNoteHash = ?xs ! 9, bv_proofContextHash = Some (?xs ! 8),
         bv_errors = js_unique (readiness_errors evidence (ci_chainId input) p @
           output_event_errors (binding_of_call input p (v12_call call) policyHash event evidence) (?xs ! 1) (?xs ! 2)),
         bv_limitations = []\<rparr>" for event evidence
    proof -
      let ?i = "binding_of_call input p (v12_call call) policyHash event evidence"
      have "output_shape_errors ?i STAGE_C_WITHDRAW_BOUNDED_SELECTOR = readiness_errors evidence (ci_chainId input) p"
        using f(4,5) by (simp add: output_shape_errors_def readiness_errors_def)
      moreover have "output_note_errors ?i (num_int (ci_chainId input)) (num_int (ci_chainId input)) (?xs ! 1) (?xs ! 2) = []"
        using f(3,18,19) envelope note_has_bytes [OF f(18,17)] words [of 1] words [of 2] nonzero
        by (simp add: output_note_errors_def or_default_def nth p(2) address_of_word [OF ev(2)])
      moreover have "output_context (rl_viem L) ?i STAGE_C_WITHDRAW_BOUNDED_SELECTOR (?xs ! 9) = Some (Inr (?xs ! 8))"
        using ctx by (simp add: output_context_def f(2) nth amounts d(2))
      ultimately show ?thesis
        using hash f(3,13)
        by (simp add: validateV12UnlinkableWithdrawOutputNoteIndexerBinding_def Let_def f(2) nth amounts or_default_def
            number_to_bigint_def)
    qed
    have policy: "zero_relayer_policy (v12_call call) = zero_relayer_policy call"
      by (simp add: zero_relayer_policy_def v12_call_def)
    show ?case
      unfolding Let_def
      using f(1,22) p(1) run policy
      by (intro exI [of _ "v12_call call"] exI [of _ p] exI [of _ policyHash]) simp
  qed
qed

definition sample_event :: note_event where
  "sample_event = \<lparr>ev_chainId = jsint 6343, ev_pool = v12_pool, ev_eventType = WithdrawOutputEvent,
     ev_commitment = toBytes32 14, ev_nullifier = Some (toBytes32 12), ev_leafIndex = jsint 0,
     ev_encryptedNote = sample_note, ev_encryptionVersion = jsint 2, ev_blockNumber = 100,
     ev_transactionHash = toBytes32 20, ev_logIndex = jsint 0, ev_observedAtMs = jsint 0, ev_sourceRpc = []\<rparr>"

definition sample_evidence :: readiness_evidence where
  "sample_evidence = \<lparr>re_runtimeId = ''nullark-v1.2-testnet-rehearsal'', re_chainId = jsint 6343,
     re_pool = v12_pool, re_status = ''ready'', re_mainnet4326Blocked = False, re_finalReadiness = Some True,
     re_evidenceSha256 = V12_TESTNET_TRUSTED_SETUP_RECORD_HASH\<rparr>"

lemma sample_evidence_matches:
  "hasMatchingV12IndexerReadinessEvidence (Some sample_evidence) (Num 6343) v12_pool"
  by (simp add: hasMatchingV12IndexerReadinessEvidence_def V12_INDEXER_READINESS_BINDINGS_def sample_evidence_def
      V12_TESTNET_POOL_def v12_pool_def num_eq_def)

lemma indexer_agrees_with_relay_witness:
  "\<exists>policyHash. validateV12UnlinkableWithdrawOutputNoteIndexerBinding sample_viem
      (binding_of_call v12_request v12_pool (v12_call v12_sample_call) policyHash (Some sample_event)
        (Some sample_evidence)) =
     Inr \<lparr>bv_encryptedNoteHash = toBytes32 7, bv_proofContextHash = Some (toBytes32 7), bv_errors = [],
       bv_limitations = []\<rparr>"
proof -
  have law: "checksum_only v12_lib"
    by (simp add: checksum_only_def v12_lib_def sample_lib_def)
  have pool: "get_address v12_lib (ci_pool v12_request) = Some p \<longleftrightarrow> p = v12_pool" for p
    by (auto simp: v12_lib_def sample_lib_def v12_request_def v12_pool_address)
  have inputs: "v12_inputs ! Suc 0 = toBytes32 12" "v12_inputs ! 2 = toBytes32 14" "v12_inputs ! 8 = toBytes32 7"
    "v12_inputs ! 9 = toBytes32 7" "publicInputs v12_sample_call = v12_inputs" "ci_chainId v12_request = Num 6343"
    "encryptedChangeNote v12_sample_call = Some sample_note"
    by (simp_all add: v12_inputs_def v12_sample_call_def v12_request_def sample_withdrawal_def)
  have event: "output_event_errors (binding_of_call v12_request v12_pool (v12_call v12_sample_call) h (Some sample_event)
      (Some sample_evidence)) (toBytes32 12) (toBytes32 14) = []" for h
    by (simp add: output_event_errors_def sample_event_def inputs or_default_def num_eq_def)
  have "ci_relayValidationMode v12_request = Some V1_2_Unlinkable" by (simp add: v12_request_def)
  from indexer_agrees_with_relay [OF law v12_accepts _ this]
  obtain h where "\<forall>event evidence. validateV12UnlinkableWithdrawOutputNoteIndexerBinding sample_viem
      (binding_of_call v12_request v12_pool (v12_call v12_sample_call) h event evidence) =
     Inr \<lparr>bv_encryptedNoteHash = toBytes32 7, bv_proofContextHash = Some (toBytes32 7),
       bv_errors = js_unique (readiness_errors evidence (Num 6343) v12_pool @
         output_event_errors (binding_of_call v12_request v12_pool (v12_call v12_sample_call) h event evidence)
           (toBytes32 12) (toBytes32 14)), bv_limitations = []\<rparr>"
    by (auto simp: pool inputs Let_def)
  from spec [OF spec [OF this], of "Some sample_event" "Some sample_evidence"] event [of h] sample_evidence_matches
  show ?thesis
    by (intro exI [of _ h]) (simp add: readiness_errors_def js_unique_def)
qed

end
