(* ===== verification/Indexer_Observations.thy ===== *)
theory Indexer_Observations
  imports Js_Core
begin

text \<open>
  What the indexer derives from single events, \<^verbatim>\<open>services/indexer/src/events.ts\<close>,
  \<^verbatim>\<open>anonymity.ts\<close> and \<^verbatim>\<open>freshness.ts\<close>: the kind of a pool event, the counts behind the anonymity
  set, the latest latency per kind of event. The constant fields \<open>authoritativeForBalance: false\<close> and
  \<open>claim\<close> of the results are left out, and times in milliseconds are whole numbers.

  \<open>kindByName\<close> is an object literal, so a lookup also finds the members every object inherits:
  the name \<^verbatim>\<open>toString\<close> is not classified as unknown but as that member (\<open>InheritedMember\<close>).
\<close>

datatype event_kind =
    DepositKind | PrivateTransferKind | NullifierKind | WithdrawalKind | WithdrawalOutputNoteKind
  | FeesAccruedKind | FeesSweptKind | UnknownKind | InheritedMember string

definition kind_by_name :: "(string \<times> event_kind) list" where
  "kind_by_name =
     [(''DepositCommitmentInserted'', DepositKind), (''PrivateTransferCommitmentInserted'', PrivateTransferKind),
      (''NullifierSpent'', NullifierKind), (''WithdrawalExecuted'', WithdrawalKind),
      (''WithdrawalOutputNoteCreated'', WithdrawalOutputNoteKind), (''ProtocolFeesAccrued'', FeesAccruedKind),
      (''ProtocolFeesSwept'', FeesSweptKind)]"

definition inherited_members :: "string list" where
  "inherited_members = [''constructor'', ''hasOwnProperty'', ''isPrototypeOf'', ''propertyIsEnumerable'',
     ''toLocaleString'', ''toString'', ''valueOf'', ''__proto__'', ''__defineGetter__'', ''__defineSetter__'',
     ''__lookupGetter__'', ''__lookupSetter__'']"

definition classifyPoolEvent :: "string \<Rightarrow> event_kind" where
  "classifyPoolEvent name =
     (case map_of kind_by_name name of Some k \<Rightarrow> k
      | None \<Rightarrow> if name \<in> set inherited_members then InheritedMember name else UnknownKind)"

record anonymity_set_summary =
  eligibleCommitmentCount :: nat
  depositCommitmentCount :: nat
  privateTransferCommitmentCount :: nat
  spentNullifierCount :: nat
  withdrawalCount :: nat

definition count_event :: "nat \<times> nat \<times> nat \<times> nat \<Rightarrow> event_kind \<Rightarrow> nat \<times> nat \<times> nat \<times> nat" where
  "count_event counts kind =
     (case counts of (deposits, transfers, nullifiers, withdrawals) \<Rightarrow>
        if kind = DepositKind then (deposits + 1, transfers, nullifiers, withdrawals)
        else if kind = PrivateTransferKind then (deposits, transfers + 1, nullifiers, withdrawals)
        else if kind = NullifierKind then (deposits, transfers, nullifiers + 1, withdrawals)
        else if kind = WithdrawalKind then (deposits, transfers, nullifiers, withdrawals + 1)
        else counts)"

definition computeAnonymitySetSummary :: "event_kind list \<Rightarrow> anonymity_set_summary" where
  "computeAnonymitySetSummary events =
     (case foldl count_event (0, 0, 0, 0) events of (deposits, transfers, nullifiers, withdrawals) \<Rightarrow>
        \<lparr>eligibleCommitmentCount = deposits + transfers, depositCommitmentCount = deposits,
         privateTransferCommitmentCount = transfers, spentNullifierCount = nullifiers,
         withdrawalCount = withdrawals\<rparr>)"

definition toUiAnonymitySummary :: "anonymity_set_summary \<Rightarrow> nat" where
  "toUiAnonymitySummary summary = eligibleCommitmentCount summary"

datatype freshness_event = DepositNoteSeen | RootSeen | NullifierSeen | ChangeNoteSeen | OutputNoteSeen

record freshness_observation =
  fo_eventType :: freshness_event
  fo_transactionSubmittedAtMs :: int
  fo_eventObservedAtMs :: int
  fo_blockNumber :: int

record freshness_metric =
  latencyMs :: int
  fm_blockNumber :: int
  observedAtMs :: int

record freshness_tracker =
  depositNote :: "freshness_metric option"
  latestRoot :: "freshness_metric option"
  latestNullifier :: "freshness_metric option"
  changeNote :: "freshness_metric option"
  outputNote :: "freshness_metric option"

definition createFreshnessTracker :: freshness_tracker where
  "createFreshnessTracker = \<lparr>depositNote = None, latestRoot = None, latestNullifier = None, changeNote = None,
     outputNote = None\<rparr>"

definition observeEventLatency :: "freshness_tracker \<Rightarrow> freshness_observation \<Rightarrow> freshness_tracker" where
  "observeEventLatency tracker ob =
     (let metric = \<lparr>latencyMs = fo_eventObservedAtMs ob - fo_transactionSubmittedAtMs ob,
        fm_blockNumber = fo_blockNumber ob, observedAtMs = fo_eventObservedAtMs ob\<rparr> in
      case fo_eventType ob of
        DepositNoteSeen \<Rightarrow> tracker\<lparr>depositNote := Some metric\<rparr>
      | RootSeen \<Rightarrow> tracker\<lparr>latestRoot := Some metric\<rparr>
      | NullifierSeen \<Rightarrow> tracker\<lparr>latestNullifier := Some metric\<rparr>
      | OutputNoteSeen \<Rightarrow> tracker\<lparr>outputNote := Some metric\<rparr>
      | ChangeNoteSeen \<Rightarrow> tracker\<lparr>changeNote := Some metric\<rparr>)"

section \<open>Counts and latest observations\<close>

lemma count_events:
  "foldl count_event (a, b, c, d) ks = (a + count_list ks DepositKind, b + count_list ks PrivateTransferKind,
     c + count_list ks NullifierKind, d + count_list ks WithdrawalKind)"
  by (induction ks arbitrary: a b c d) (simp_all add: count_event_def)

text \<open>The counts do not depend on the order of the events, and no event is counted twice.\<close>

lemma summary_counts:
  "computeAnonymitySetSummary ks = \<lparr>eligibleCommitmentCount = count_list ks DepositKind + count_list ks PrivateTransferKind,
     depositCommitmentCount = count_list ks DepositKind, privateTransferCommitmentCount = count_list ks PrivateTransferKind,
     spentNullifierCount = count_list ks NullifierKind, withdrawalCount = count_list ks WithdrawalKind\<rparr>"
  by (simp add: computeAnonymitySetSummary_def count_events)

lemma inherited_names_classified:
  "classifyPoolEvent ''constructor'' = InheritedMember ''constructor''"
  "classifyPoolEvent ''WithdrawalExecuted'' = WithdrawalKind" "classifyPoolEvent ''Transfer'' = UnknownKind"
  by (simp_all add: classifyPoolEvent_def kind_by_name_def inherited_members_def)

end
