(* ===== verification/Merkle.thy ===== *)
theory Merkle
  imports Js_Core "HOL-Library.Word" "HOL-Library.AList"
begin

unbundle bit_operations_syntax

text \<open>
  What the two Merkle tree implementations share: the bitwise operators of JavaScript, which work
  on 32-bit signed integers, a \<open>Map\<close> as an association list in insertion order (\<open>AList.update\<close> is
  \<open>set\<close>, \<open>AList.delete\<close> is \<open>delete\<close>, \<open>map_of\<close> is \<open>get\<close>), the reference tree over a leaf function, and
  the locale of a family of node hashes with the theorem that a sibling path climbs to the root.
\<close>

section \<open>Bitwise operators\<close>

definition js_xor :: "int \<Rightarrow> int \<Rightarrow> int" where
  "js_xor a b = sint ((word_of_int a :: 32 word) XOR word_of_int b)"

definition js_and :: "int \<Rightarrow> int \<Rightarrow> int" where
  "js_and a b = sint ((word_of_int a :: 32 word) AND word_of_int b)"

lemma sint_small: "- (2 ^ 31) \<le> a \<Longrightarrow> a < 2 ^ 31 \<Longrightarrow> sint (word_of_int a :: 32 word) = a"
  by (simp add: sint_sbintrunc' signed_take_bit_int_eq_self)

lemma js_xor_eq: "- (2 ^ 31) \<le> a XOR b \<Longrightarrow> a XOR b < 2 ^ 31 \<Longrightarrow> js_xor a b = a XOR b"
proof -
  assume "- (2 ^ 31) \<le> a XOR b" "a XOR b < 2 ^ 31"
  moreover have "(word_of_int a :: 32 word) XOR word_of_int b = word_of_int (a XOR b)"
    by transfer (simp add: take_bit_xor)
  ultimately show ?thesis
    unfolding js_xor_def by (simp only: sint_small)
qed

lemma js_and_eq: "- (2 ^ 31) \<le> a AND b \<Longrightarrow> a AND b < 2 ^ 31 \<Longrightarrow> js_and a b = a AND b"
proof -
  assume "- (2 ^ 31) \<le> a AND b" "a AND b < 2 ^ 31"
  moreover have "(word_of_int a :: 32 word) AND word_of_int b = word_of_int (a AND b)"
    by transfer (simp add: take_bit_and)
  ultimately show ?thesis
    unfolding js_and_def by (simp only: sint_small)
qed

lemma js_and_1 [simp]: "js_and a 1 = a mod 2"
  by (subst js_and_eq) (simp_all add: and_one_eq)

text \<open>The sibling of a position; \<open>^ 1\<close> computes it only below 2^31.\<close>

definition sibling :: "int \<Rightarrow> int" where
  "sibling p = (if even p then p + 1 else p - 1)"

lemma js_xor_1: "0 \<le> p \<Longrightarrow> p < 2 ^ 31 \<Longrightarrow> js_xor p 1 = sibling p"
proof -
  assume p: "0 \<le> p" "p < 2 ^ 31"
  have eq: "p XOR 1 = sibling p"
    by (simp add: xor_one_eq sibling_def)
  have "sibling p < 2 ^ 31"
    using p by (auto simp: sibling_def elim!: evenE)
  moreover have "0 \<le> sibling p"
    using p by (auto simp: sibling_def elim!: oddE)
  ultimately show ?thesis
    using eq by (subst js_xor_eq) auto
qed

section \<open>Maps in insertion order\<close>

lemma map_of_update_same [simp]: "map_of (AList.update k v m) k = Some v"
  by (simp add: update_conv')

lemma map_of_update_other [simp]: "k \<noteq> j \<Longrightarrow> map_of (AList.update k v m) j = map_of m j"
  by (simp add: update_conv')

lemma dom_map_of_set: "(\<exists>v. map_of m k = Some v) \<longleftrightarrow> k \<in> fst ` set m"
  by (metis domD domI dom_map_of_conv_image_fst)

section \<open>The reference tree and its sibling paths\<close>

fun tree :: "('h \<Rightarrow> 'h \<Rightarrow> 'h) \<Rightarrow> (int \<Rightarrow> 'h) \<Rightarrow> nat \<Rightarrow> int \<Rightarrow> 'h" where
  "tree H leaf 0 p = leaf p"
| "tree H leaf (Suc k) p = H (tree H leaf k (2 * p)) (tree H leaf k (2 * p + 1))"

fun zero_hash :: "('h \<Rightarrow> 'h \<Rightarrow> 'h) \<Rightarrow> 'h \<Rightarrow> nat \<Rightarrow> 'h" where
  "zero_hash H z 0 = z"
| "zero_hash H z (Suc k) = H (zero_hash H z k) (zero_hash H z k)"

fun climb :: "('h \<Rightarrow> 'h \<Rightarrow> 'h) \<Rightarrow> 'h \<Rightarrow> 'h list \<Rightarrow> int list \<Rightarrow> 'h" where
  "climb H c (s # ss) (b # bs) = climb H (if b = 0 then H c s else H s c) ss bs"
| "climb H c _ _ = c"

definition path_siblings :: "(nat \<Rightarrow> int \<Rightarrow> 'h) \<Rightarrow> nat \<Rightarrow> int \<Rightarrow> 'h list" where
  "path_siblings node d i = map (\<lambda>k. node k (sibling (i div 2 ^ k))) [0..<d]"

definition path_bits :: "nat \<Rightarrow> int \<Rightarrow> int list" where
  "path_bits d i = map (\<lambda>k. i div 2 ^ k mod 2) [0..<d]"

lemma path_siblings_Suc:
  "path_siblings node (Suc d) i = node 0 (sibling i) # path_siblings (\<lambda>k. node (Suc k)) d (i div 2)"
  by (simp add: path_siblings_def upt_conv_Cons map_Suc_upt [symmetric] zdiv_zmult2_eq del: upt_Suc)

lemma path_bits_Suc: "path_bits (Suc d) i = i mod 2 # path_bits d (i div 2)"
  by (simp add: path_bits_def upt_conv_Cons map_Suc_upt [symmetric] zdiv_zmult2_eq del: upt_Suc)

lemma length_path [simp]: "length (path_siblings node d i) = d" "length (path_bits d i) = d"
  by (simp_all add: path_siblings_def path_bits_def)

lemma tree_empty:
  "(\<And>q. p * 2 ^ k \<le> q \<Longrightarrow> q < (p + 1) * 2 ^ k \<Longrightarrow> leaf q = z) \<Longrightarrow> tree H leaf k p = zero_hash H z k"
proof (induction k arbitrary: p)
  case 0
  then show ?case by simp
next
  case (Suc k)
  have "0 < (2::int) ^ k"
    by simp
  have "tree H leaf k (2 * p) = zero_hash H z k"
    by (rule Suc.IH) (use \<open>0 < 2 ^ k\<close> in \<open>auto simp: algebra_simps intro!: Suc.prems\<close>)
  moreover have "tree H leaf k (2 * p + 1) = zero_hash H z k"
    by (rule Suc.IH) (use \<open>0 < 2 ^ k\<close> in \<open>auto simp: algebra_simps intro!: Suc.prems\<close>)
  ultimately show ?case by simp
qed

text \<open>
  The interface of an implementation: node hashes by level and position, each inner node the hash
  of its two children, up to the depth of the tree.
\<close>

locale merkle_nodes =
  fixes H :: "'h \<Rightarrow> 'h \<Rightarrow> 'h"
    and node :: "nat \<Rightarrow> int \<Rightarrow> 'h"
    and depth :: nat
  assumes node_Suc: "k < depth \<Longrightarrow> node (Suc k) p = H (node k (2 * p)) (node k (2 * p + 1))"
begin

lemma node_parent:
  "k < depth \<Longrightarrow> node (Suc k) (p div 2) =
     (if p mod 2 = 0 then H (node k p) (node k (sibling p)) else H (node k (sibling p)) (node k p))"
proof -
  assume k: "k < depth"
  have "even p \<Longrightarrow> 2 * (p div 2) = p" "odd p \<Longrightarrow> 2 * (p div 2) + 1 = p" "odd p \<Longrightarrow> 2 * (p div 2) = p - 1"
    by (auto simp: odd_two_times_div_two_succ elim!: oddE)
  then show ?thesis
    using node_Suc [OF k, of "p div 2"] by (auto simp: sibling_def even_iff_mod_2_eq_zero)
qed

lemma climb_from:
  "k + d \<le> depth \<Longrightarrow> climb H (node k i) (path_siblings (\<lambda>j. node (k + j)) d i) (path_bits d i) =
     node (k + d) (i div 2 ^ d)"
proof (induction d arbitrary: k i)
  case 0
  then show ?case by (simp add: path_siblings_def path_bits_def)
next
  case (Suc d)
  have "climb H (node k i) (path_siblings (\<lambda>j. node (k + j)) (Suc d) i) (path_bits (Suc d) i) =
      climb H (node (Suc k) (i div 2)) (path_siblings (\<lambda>j. node (Suc k + j)) d (i div 2)) (path_bits d (i div 2))"
    using Suc.prems node_parent [of k i] by (simp add: path_siblings_Suc path_bits_Suc)
  also have "\<dots> = node (k + Suc d) (i div 2 ^ Suc d)"
    using Suc.IH [of "Suc k" "i div 2"] Suc.prems by (simp add: zdiv_zmult2_eq)
  finally show ?case .
qed

text \<open>The sibling path of a leaf climbs to the root.\<close>

lemma climb_to_root:
  assumes "0 \<le> i" "i < 2 ^ depth"
  shows "climb H (node 0 i) (path_siblings node depth i) (path_bits depth i) = node depth 0"
  using climb_from [of 0 depth i] assms by (simp add: div_pos_pos_trivial)

end

end
