(* ===== verification/Merkle_Index.thy ===== *)
theory Merkle_Index
  imports Merkle
begin

unbundle bit_operations_syntax

text \<open>
  The indexer's Merkle tree, \<^verbatim>\<open>services/indexer/src/merklePaths.ts\<close>: commitments indexed by leaf,
  an LRU cache of paths, and the sparse computation of a path (node hashes memoised per request,
  empty subtrees found by binary search). The two-to-one hash is the field \<open>hashPair\<close> of the
  index, as in the code. A \<open>Map\<close> is an association list in insertion order. The key
  \<open>`${level}:${position}`\<close> of the memo table is the pair it encodes.
\<close>

datatype merkle_error =
    DepthNotPositiveInteger
  | DepthExceedsSafeRange
  | LeafIndexNotNonnegativeInteger
  | LeafIndexExceedsCapacity
  | CommitmentIndexedElsewhere
  | LeafIndexHasOtherCommitment
  | CommitmentNotIndexed

record merkle_path_result =
  path_commitment :: string
  path_leafIndex :: int
  path_root :: string
  pathElements :: "string list"
  pathIndices :: "int list"

record merkle_path_index =
  depth :: nat
  zeroHash :: string
  hashPair :: "string \<Rightarrow> string \<Rightarrow> string"
  leavesByIndex :: "(int \<times> string) list"
  indexByCommitment :: "(string \<times> int) list"
  sortedLeafIndexes :: "int list option"
  pathCache :: "(string \<times> merkle_path_result) list"
  maxPathCacheEntries :: jsnum

definition createMerklePathIndex ::
  "jsnum \<Rightarrow> string \<Rightarrow> (string \<Rightarrow> string \<Rightarrow> string) \<Rightarrow> jsnum option \<Rightarrow> merkle_error + merkle_path_index" where
  "createMerklePathIndex d zero hash maxEntries =
     (if \<not> is_integer d \<or> num_le d (jsint 0) then Inl DepthNotPositiveInteger
      else if \<not> (2 ^ nat (num_int d) \<le> MAX_SAFE_INTEGER) then Inl DepthExceedsSafeRange
      else Inr \<lparr>depth = nat (num_int d), zeroHash = zero, hashPair = hash, leavesByIndex = [],
                indexByCommitment = [], sortedLeafIndexes = None, pathCache = [],
                maxPathCacheEntries = (case maxEntries of None \<Rightarrow> jsint 256 | Some m \<Rightarrow> m)\<rparr>)"

definition insertIndexedCommitment ::
  "merkle_path_index \<Rightarrow> string \<Rightarrow> jsnum \<Rightarrow> merkle_error + merkle_path_index" where
  "insertIndexedCommitment index commitment leaf =
     (if num_less leaf (jsint 0) \<or> \<not> is_integer leaf then Inl LeafIndexNotNonnegativeInteger
      else let i = num_int leaf in
      if i \<ge> 2 ^ depth index then Inl LeafIndexExceedsCapacity
      else let normalizedCommitment = to_lower commitment in
      if (case map_of (indexByCommitment index) normalizedCommitment of None \<Rightarrow> False | Some j \<Rightarrow> j \<noteq> i)
      then Inl CommitmentIndexedElsewhere
      else if (case map_of (leavesByIndex index) i of None \<Rightarrow> False
               | Some c \<Rightarrow> to_lower c \<noteq> normalizedCommitment)
      then Inl LeafIndexHasOtherCommitment
      else Inr (index\<lparr>leavesByIndex := AList.update i commitment (leavesByIndex index),
                      indexByCommitment := AList.update normalizedCommitment i (indexByCommitment index),
                      sortedLeafIndexes := None,
                      pathCache := []\<rparr>))"

text \<open>\<open>zeroHashesByLevel\<close>.\<close>

fun zero_hashes_upto :: "(string \<Rightarrow> string \<Rightarrow> string) \<Rightarrow> string \<Rightarrow> nat \<Rightarrow> string list" where
  "zero_hashes_upto hash zero 0 = [zero]"
| "zero_hashes_upto hash zero (Suc level) =
     (let zs = zero_hashes_upto hash zero level in zs @ [hash (zs ! level) (zs ! level)])"

text \<open>The binary search of \<open>hasLeafInRange\<close>: the first position whose leaf index is at least the start.\<close>

function lower_bound :: "int list \<Rightarrow> int \<Rightarrow> nat \<Rightarrow> nat \<Rightarrow> nat" where
  "lower_bound xs start lo hi =
     (if lo < hi
      then let mid = (lo + hi) div 2 in
        if xs ! mid < start then lower_bound xs start (mid + 1) hi else lower_bound xs start lo mid
      else lo)"
  by pat_completeness auto
termination
  by (relation "measure (\<lambda>(xs, start, lo, hi). hi - lo)") (auto simp: Let_def)

declare lower_bound.simps [simp del]

definition hasLeafInRange :: "int list \<Rightarrow> int \<Rightarrow> int \<Rightarrow> bool" where
  "hasLeafInRange leafIndexes rangeStart rangeEnd =
     (let lo = lower_bound leafIndexes rangeStart 0 (length leafIndexes) in
      lo < length leafIndexes \<and> leafIndexes ! lo < rangeEnd)"

type_synonym node_memo = "((nat \<times> int) \<times> string) list"

fun getNodeHash ::
  "merkle_path_index \<Rightarrow> int list \<Rightarrow> string list \<Rightarrow> nat \<Rightarrow> int \<Rightarrow> node_memo \<Rightarrow> string \<times> node_memo" where
  "getNodeHash index leafIndexes zeros 0 position memo =
     (case map_of (leavesByIndex index) position of Some c \<Rightarrow> (c, memo) | None \<Rightarrow> (zeroHash index, memo))"
| "getNodeHash index leafIndexes zeros (Suc level) position memo =
     (case map_of memo (Suc level, position) of
        Some cached \<Rightarrow> (cached, memo)
      | None \<Rightarrow>
          (let width = 2 ^ Suc level;
               rangeStart = position * width;
               rangeEnd = rangeStart + width in
           if \<not> hasLeafInRange leafIndexes rangeStart rangeEnd then (zeros ! Suc level, memo)
           else
             let (left, memo1) = getNodeHash index leafIndexes zeros level (position * 2) memo;
                 (right, memo2) = getNodeHash index leafIndexes zeros level (position * 2 + 1) memo1;
                 combined = hashPair index left right
             in (combined, AList.update (Suc level, position) combined memo2)))"

text \<open>The loop over the levels; \<open>fuel\<close> counts the levels left.\<close>

fun path_loop ::
  "merkle_path_index \<Rightarrow> int list \<Rightarrow> string list \<Rightarrow> nat \<Rightarrow> nat \<Rightarrow> int \<Rightarrow> node_memo
     \<Rightarrow> string list \<times> int list \<times> node_memo" where
  "path_loop index leafIndexes zeros 0 level cursor memo = ([], [], memo)"
| "path_loop index leafIndexes zeros (Suc fuel) level cursor memo =
     (let siblingIndex = js_xor cursor 1;
          (element, memo1) = getNodeHash index leafIndexes zeros level siblingIndex memo;
          (elements, bits, memo2) =
            path_loop index leafIndexes zeros fuel (Suc level) (cursor div 2) memo1
      in (element # elements, js_and cursor 1 # bits, memo2))"

text \<open>The \<open>while\<close> loop that drops the oldest cached paths.\<close>

fun evict :: "jsnum \<Rightarrow> (string \<times> merkle_path_result) list \<Rightarrow> (string \<times> merkle_path_result) list" where
  "evict maxEntries [] = []"
| "evict maxEntries (oldest # cache) =
     (if num_less maxEntries (jsint (int (length (oldest # cache)))) then evict maxEntries cache
      else oldest # cache)"

definition computePath ::
  "merkle_path_index \<Rightarrow> int list \<Rightarrow> string \<Rightarrow> int \<Rightarrow> merkle_path_result" where
  "computePath index leafIndexes commitment leafIndex =
     (let zeros = zero_hashes_upto (hashPair index) (zeroHash index) (depth index);
          (elements, bits, memo) = path_loop index leafIndexes zeros (depth index) 0 leafIndex [];
          (root, memo') = getNodeHash index leafIndexes zeros (depth index) 0 memo
      in \<lparr>path_commitment = commitment, path_leafIndex = leafIndex, path_root = root,
          pathElements = elements, pathIndices = bits\<rparr>)"

definition getMerklePathForCommitment ::
  "merkle_path_index \<Rightarrow> string \<Rightarrow> merkle_error + merkle_path_index \<times> merkle_path_result" where
  "getMerklePathForCommitment index commitment =
     (case map_of (indexByCommitment index) (to_lower commitment) of
        None \<Rightarrow> Inl CommitmentNotIndexed
      | Some leafIndex \<Rightarrow>
          (let cacheKey = to_lower commitment in
           case map_of (pathCache index) cacheKey of
             Some cachedPath \<Rightarrow>
               Inr (index\<lparr>pathCache := AList.update cacheKey cachedPath
                                         (AList.delete cacheKey (pathCache index))\<rparr>, cachedPath)
           | None \<Rightarrow>
               (let leafIndexes = (case sortedLeafIndexes index of Some xs \<Rightarrow> xs
                      | None \<Rightarrow> sort (map fst (leavesByIndex index)));
                    result = computePath index leafIndexes commitment leafIndex;
                    index' = index\<lparr>sortedLeafIndexes := Some leafIndexes\<rparr> in
                Inr (if num_less (jsint 0) (maxPathCacheEntries index)
                     then index'\<lparr>pathCache := evict (maxPathCacheEntries index)
                                  (AList.update cacheKey result (pathCache index))\<rparr>
                     else index', result))))"

section \<open>Binary search\<close>

lemma lower_bound_correct:
  assumes "sorted xs" "lo \<le> hi" "hi \<le> length xs"
    "\<forall>j < lo. xs ! j < start" "\<forall>j < length xs. hi \<le> j \<longrightarrow> start \<le> xs ! j"
  shows "lower_bound xs start lo hi \<le> length xs \<and>
    (\<forall>j < lower_bound xs start lo hi. xs ! j < start) \<and>
    (\<forall>j < length xs. lower_bound xs start lo hi \<le> j \<longrightarrow> start \<le> xs ! j)"
  using assms
proof (induction xs start lo hi rule: lower_bound.induct)
  case (1 xs start lo hi)
  show ?case
  proof (cases "lo < hi")
    case False
    then have lb: "lower_bound xs start lo hi = lo"
      by (subst lower_bound.simps) simp
    have "hi = lo"
      using False 1(4) by simp
    with 1(5-7) show ?thesis unfolding lb by blast
  next
    case True
    define mid where "mid = (lo + hi) div 2"
    have mid: "lo \<le> mid" "mid < hi" "mid < length xs"
      using True 1(5) by (auto simp: mid_def)
    show ?thesis
    proof (cases "xs ! mid < start")
      case less: True
      have "\<forall>j < mid + 1. xs ! j < start"
      proof (intro allI impI)
        fix j assume "j < mid + 1"
        then have "xs ! j \<le> xs ! mid"
          using mid 1(3) by (intro sorted_nth_mono) auto
        with less show "xs ! j < start" by simp
      qed
      note ih = 1(1) [OF True mid_def less 1(3) _ 1(5) this 1(7)]
      have "mid + 1 \<le> hi"
        using mid by simp
      note ih [OF this]
      moreover have "lower_bound xs start lo hi = lower_bound xs start (mid + 1) hi"
        using True less by (subst lower_bound.simps) (simp add: mid_def Let_def)
      ultimately show ?thesis by simp
    next
      case geq: False
      have "\<forall>j < length xs. mid \<le> j \<longrightarrow> start \<le> xs ! j"
      proof (intro allI impI)
        fix j assume "j < length xs" "mid \<le> j"
        then have "xs ! mid \<le> xs ! j"
          using 1(3) by (intro sorted_nth_mono) auto
        with geq show "start \<le> xs ! j" by simp
      qed
      note ih = 1(2) [OF True mid_def geq 1(3) mid(1) _ 1(6) this]
      have "mid \<le> length xs"
        using mid by simp
      note ih [OF this]
      moreover have "lower_bound xs start lo hi = lower_bound xs start lo mid"
        using True geq by (subst lower_bound.simps) (simp add: mid_def Let_def)
      ultimately show ?thesis by simp
    qed
  qed
qed

lemma hasLeafInRange_iff:
  assumes "sorted xs"
  shows "hasLeafInRange xs a b \<longleftrightarrow> (\<exists>x \<in> set xs. a \<le> x \<and> x < b)"
proof -
  define lo where "lo = lower_bound xs a 0 (length xs)"
  have lo: "lo \<le> length xs" "\<And>j. j < lo \<Longrightarrow> xs ! j < a" "\<And>j. j < length xs \<Longrightarrow> lo \<le> j \<Longrightarrow> a \<le> xs ! j"
    using lower_bound_correct [OF assms, of 0 "length xs" a] by (auto simp: lo_def)
  have "lo < length xs \<and> xs ! lo < b" if "x \<in> set xs" "a \<le> x" "x < b" for x
  proof -
    obtain j where j: "j < length xs" "xs ! j = x"
      using \<open>x \<in> set xs\<close> by (auto simp: in_set_conv_nth)
    with lo(2) [of j] that have "lo \<le> j" by force
    with j assms have "xs ! lo \<le> x" by (auto intro: sorted_nth_mono)
    with j that \<open>lo \<le> j\<close> show ?thesis by simp
  qed
  with lo(3) [of lo] show ?thesis
    by (auto simp: hasLeafInRange_def lo_def [symmetric] Let_def)
qed

section \<open>Memoised node hashes\<close>

definition leaf_at :: "merkle_path_index \<Rightarrow> int \<Rightarrow> string" where
  "leaf_at index p = (case map_of (leavesByIndex index) p of Some c \<Rightarrow> c | None \<Rightarrow> zeroHash index)"

abbreviation node_at :: "merkle_path_index \<Rightarrow> nat \<Rightarrow> int \<Rightarrow> string" where
  "node_at index \<equiv> tree (hashPair index) (leaf_at index)"

definition memo_sound :: "merkle_path_index \<Rightarrow> node_memo \<Rightarrow> bool" where
  "memo_sound index memo \<longleftrightarrow> (\<forall>k p h. map_of memo (k, p) = Some h \<longrightarrow> h = node_at index k p)"

lemma memo_sound_Nil [simp]: "memo_sound index []"
  by (simp add: memo_sound_def)

lemma length_zero_hashes [simp]: "length (zero_hashes_upto h z d) = Suc d"
  by (induction d) (simp_all add: Let_def)

lemma zero_hashes_nth: "k \<le> d \<Longrightarrow> zero_hashes_upto h z d ! k = zero_hash h z k"
proof (induction d arbitrary: k)
  case 0
  then show ?case by simp
next
  case (Suc d)
  then show ?case
    by (cases "k = Suc d") (simp_all add: Let_def nth_append)
qed

definition sorted_leaves :: "merkle_path_index \<Rightarrow> int list" where
  "sorted_leaves index = sort (map fst (leavesByIndex index))"

lemma has_leaf_sorted_leaves:
  "hasLeafInRange (sorted_leaves index) a b \<longleftrightarrow> (\<exists>x \<in> fst ` set (leavesByIndex index). a \<le> x \<and> x < b)"
  by (simp add: hasLeafInRange_iff sorted_leaves_def)

lemma empty_node:
  assumes "\<not> hasLeafInRange (sorted_leaves index) (p * 2 ^ k) (p * 2 ^ k + 2 ^ k)"
  shows "node_at index k p = zero_hash (hashPair index) (zeroHash index) k"
proof (rule tree_empty)
  fix q :: int
  assume "p * 2 ^ k \<le> q" "q < (p + 1) * 2 ^ k"
  then have "q \<notin> fst ` set (leavesByIndex index)"
    using assms by (auto simp: has_leaf_sorted_leaves algebra_simps)
  then have "map_of (leavesByIndex index) q = None"
    by (simp add: map_of_eq_None_iff)
  then show "leaf_at index q = zeroHash index"
    by (simp add: leaf_at_def)
qed

lemma getNodeHash_correct:
  assumes "memo_sound index memo" "k \<le> d"
    "getNodeHash index (sorted_leaves index)
       (zero_hashes_upto (hashPair index) (zeroHash index) d) k p memo = (h, memo')"
  shows "h = node_at index k p \<and> memo_sound index memo'"
  using assms
proof (induction k arbitrary: p memo h memo')
  case 0
  then show ?case by (auto simp: leaf_at_def split: option.splits)
next
  case (Suc k)
  let ?get = "getNodeHash index (sorted_leaves index)
    (zero_hashes_upto (hashPair index) (zeroHash index) d)"
  show ?case
  proof (cases "map_of memo (Suc k, p)")
    case (Some c)
    then have "h = c" "memo' = memo"
      using Suc.prems(3) by simp_all
    with Some Suc.prems(1) show ?thesis unfolding memo_sound_def by blast
  next
    case None
    show ?thesis
    proof (cases "hasLeafInRange (sorted_leaves index) (p * 2 ^ Suc k) (p * 2 ^ Suc k + 2 ^ Suc k)")
      case False
      then have "h = zero_hashes_upto (hashPair index) (zeroHash index) d ! Suc k" "memo' = memo"
        using Suc.prems(3) None by (simp_all add: Let_def del: power_Suc)
      with empty_node [OF False] Suc.prems show ?thesis
        by (simp add: zero_hashes_nth)
    next
      case True
      obtain l m1 where l: "?get k (p * 2) memo = (l, m1)" by fastforce
      obtain r m2 where r: "?get k (p * 2 + 1) m1 = (r, m2)" by fastforce
      have lc: "l = node_at index k (p * 2)" "memo_sound index m1"
        using Suc.IH [OF Suc.prems(1) _ l] Suc.prems(2) by auto
      have rc: "r = node_at index k (p * 2 + 1)" "memo_sound index m2"
        using Suc.IH [OF lc(2) _ r] Suc.prems(2) by auto
      have "h = hashPair index l r \<and> memo' = AList.update (Suc k, p) (hashPair index l r) m2"
        using Suc.prems(3) None True l r by (auto simp: Let_def simp del: power_Suc)
      with lc rc show ?thesis
        by (auto simp: memo_sound_def update_conv' mult.commute)
    qed
  qed
qed

section \<open>The path\<close>

lemma path_loop_correct:
  assumes "memo_sound index memo" "k + n \<le> d" "0 \<le> c" "c < 2 ^ 31"
    "path_loop index (sorted_leaves index)
       (zero_hashes_upto (hashPair index) (zeroHash index) d) n k c memo = (es, bs, memo')"
  shows "es = path_siblings (\<lambda>j. node_at index (k + j)) n c \<and> bs = path_bits n c \<and> memo_sound index memo'"
  using assms
proof (induction n arbitrary: k c memo es bs memo')
  case 0
  then show ?case by (simp add: path_siblings_def path_bits_def)
next
  case (Suc n)
  let ?zs = "zero_hashes_upto (hashPair index) (zeroHash index) d"
  obtain e m1 where e: "getNodeHash index (sorted_leaves index) ?zs k (js_xor c 1) memo = (e, m1)"
    by fastforce
  obtain es' bs' m2 where l: "path_loop index (sorted_leaves index) ?zs n (Suc k) (c div 2) m1 = (es', bs', m2)"
    by (metis surj_pair)
  have ec: "e = node_at index k (sibling c)" "memo_sound index m1"
    using getNodeHash_correct [OF Suc.prems(1) _ e] Suc.prems(2,3,4) by (auto simp: js_xor_1)
  have "es' = path_siblings (\<lambda>j. node_at index (Suc k + j)) n (c div 2) \<and> bs' = path_bits n (c div 2) \<and>
      memo_sound index m2"
    using Suc.prems by (intro Suc.IH [OF ec(2) _ _ _ l]) (auto simp: pos_imp_zdiv_nonneg_iff)
  moreover have "es = e # es'" "bs = c mod 2 # bs'" "memo' = m2"
    using Suc.prems(5) e l by simp_all
  ultimately show ?case
    using ec by (simp add: path_siblings_Suc path_bits_Suc)
qed

lemma computePath_correct:
  assumes "0 \<le> i" "i < 2 ^ 31"
  shows "computePath index (sorted_leaves index) c i =
    \<lparr>path_commitment = c, path_leafIndex = i, path_root = node_at index (depth index) 0,
     pathElements = path_siblings (node_at index) (depth index) i,
     pathIndices = path_bits (depth index) i\<rparr>"
proof -
  let ?zs = "zero_hashes_upto (hashPair index) (zeroHash index) (depth index)"
  obtain es bs m where l: "path_loop index (sorted_leaves index) ?zs (depth index) 0 i [] = (es, bs, m)"
    by (metis surj_pair)
  obtain r m' where r: "getNodeHash index (sorted_leaves index) ?zs (depth index) 0 m = (r, m')"
    by fastforce
  have path: "es = path_siblings (node_at index) (depth index) i" "bs = path_bits (depth index) i"
    "memo_sound index m"
    using path_loop_correct [OF memo_sound_Nil _ assms l] by auto
  have "r = node_at index (depth index) 0"
    using getNodeHash_correct [OF path(3) _ r] by simp
  with path l r show ?thesis
    by (simp add: computePath_def)
qed

text \<open>The node hash a request computes with an empty memo table.\<close>

definition node_hash :: "merkle_path_index \<Rightarrow> nat \<Rightarrow> int \<Rightarrow> string" where
  "node_hash index k p = fst (getNodeHash index (sorted_leaves index)
     (zero_hashes_upto (hashPair index) (zeroHash index) (depth index)) k p [])"

lemma node_hash_eq: "k \<le> depth index \<Longrightarrow> node_hash index k p = node_at index k p"
  unfolding node_hash_def by (metis getNodeHash_correct memo_sound_Nil prod.collapse)

lemma path_siblings_node_hash:
  "path_siblings (node_hash index) (depth index) i = path_siblings (node_at index) (depth index) i"
  by (simp add: path_siblings_def node_hash_eq)

interpretation indexed: merkle_nodes "hashPair index" "node_hash index" "depth index" for index
  by unfold_locales (simp add: node_hash_eq)

section \<open>The invariant of the index\<close>

definition leaf_maps_ok :: "merkle_path_index \<Rightarrow> bool" where
  "leaf_maps_ok index \<longleftrightarrow>
     (\<forall>i c. map_of (leavesByIndex index) i = Some c \<longrightarrow>
        0 \<le> i \<and> i < 2 ^ depth index \<and> map_of (indexByCommitment index) (to_lower c) = Some i) \<and>
     (\<forall>n i. map_of (indexByCommitment index) n = Some i \<longrightarrow>
        (\<exists>c. map_of (leavesByIndex index) i = Some c \<and> to_lower c = n))"

definition cache_ok :: "merkle_path_index \<Rightarrow> bool" where
  "cache_ok index \<longleftrightarrow> distinct (map fst (pathCache index)) \<and>
     (\<forall>key r. map_of (pathCache index) key = Some r \<longrightarrow>
        (\<exists>i. map_of (indexByCommitment index) key = Some i \<and> to_lower (path_commitment r) = key \<and>
           r = computePath index (sorted_leaves index) (path_commitment r) i)) \<and>
     (pathCache index = [] \<or>
        \<not> num_less (maxPathCacheEntries index) (jsint (int (length (pathCache index)))))"

definition index_ok :: "merkle_path_index \<Rightarrow> bool" where
  "index_ok index \<longleftrightarrow> leaf_maps_ok index \<and> cache_ok index \<and>
     (sortedLeafIndexes index = None \<or> sortedLeafIndexes index = Some (sorted_leaves index))"

text \<open>Neither a node hash nor a path looks at the caches of the index.\<close>

definition set_caches :: "int list option \<Rightarrow> (string \<times> merkle_path_result) list \<Rightarrow> merkle_path_index \<Rightarrow> merkle_path_index" where
  "set_caches s c index = index\<lparr>sortedLeafIndexes := s, pathCache := c\<rparr>"

lemma set_caches_fields [simp]:
  "depth (set_caches s c index) = depth index"
  "zeroHash (set_caches s c index) = zeroHash index"
  "hashPair (set_caches s c index) = hashPair index"
  "leavesByIndex (set_caches s c index) = leavesByIndex index"
  "indexByCommitment (set_caches s c index) = indexByCommitment index"
  "sortedLeafIndexes (set_caches s c index) = s"
  "pathCache (set_caches s c index) = c"
  "maxPathCacheEntries (set_caches s c index) = maxPathCacheEntries index"
  by (simp_all add: set_caches_def)

lemma getNodeHash_set_caches [simp]:
  "getNodeHash (set_caches s c index) xs zs k p memo = getNodeHash index xs zs k p memo"
  by (induction k arbitrary: p memo) (simp_all split: option.splits add: Let_def)

lemma path_loop_set_caches [simp]:
  "path_loop (set_caches s c index) xs zs n k p memo = path_loop index xs zs n k p memo"
  by (induction n arbitrary: k p memo) simp_all

lemma computePath_set_caches [simp]:
  "computePath (set_caches s c index) xs commitment i = computePath index xs commitment i"
  by (simp add: computePath_def)

lemma sorted_leaves_set_caches [simp]: "sorted_leaves (set_caches s c index) = sorted_leaves index"
  by (simp add: sorted_leaves_def)

lemma leaf_maps_ok_set_caches [simp]: "leaf_maps_ok (set_caches s c index) = leaf_maps_ok index"
  by (simp add: leaf_maps_ok_def)

lemma length_evict: "evict m c = [] \<or> \<not> num_less m (jsint (int (length (evict m c))))"
  by (induction c) auto

lemma evict_suffix: "\<exists>xs. c = xs @ evict m c"
proof (induction c)
  case Nil
  then show ?case by simp
next
  case (Cons a c)
  then obtain xs where "c = xs @ evict m c" by blast
  then show ?case
    by (cases "num_less m (jsint (int (length (a # c))))") (auto intro: exI [of _ "a # xs"])
qed

lemma map_of_suffix:
  "map_of ys k = Some v \<Longrightarrow> distinct (map fst (xs @ ys)) \<Longrightarrow> map_of (xs @ ys) k = Some v"
proof -
  assume k: "map_of ys k = Some v" "distinct (map fst (xs @ ys))"
  from k(1) have "k \<in> fst ` set ys"
    by (metis image_eqI fst_conv map_of_SomeD)
  with k(2) have "k \<notin> fst ` set xs"
    by auto
  then have "map_of xs k = None"
    by (simp add: map_of_eq_None_iff)
  with k(1) show ?thesis
    by (simp add: map_of_append map_add_def)
qed

lemma insert_shape:
  assumes "insertIndexedCommitment index c leaf = Inr index'"
  obtains i where "leaf = jsint i" "0 \<le> i" "i < 2 ^ depth index"
    "map_of (indexByCommitment index) (to_lower c) \<in> {None, Some i}"
    "\<And>c'. map_of (leavesByIndex index) i = Some c' \<Longrightarrow> to_lower c' = to_lower c"
    "index' = set_caches None [] (index\<lparr>leavesByIndex := AList.update i c (leavesByIndex index),
       indexByCommitment := AList.update (to_lower c) i (indexByCommitment index)\<rparr>)"
proof -
  have int: "leaf = jsint (num_int leaf)" "\<not> num_less leaf (jsint 0)"
    using assms is_integer_iff [of leaf]
    by (auto simp: insertIndexedCommitment_def Let_def split: if_splits)
  then have nonneg: "0 \<le> num_int leaf"
    using num_cmp_jsint(1) [of "num_int leaf" 0] by (metis not_less)
  have rest: "num_int leaf < 2 ^ depth index"
    "map_of (indexByCommitment index) (to_lower c) \<in> {None, Some (num_int leaf)}"
    "\<forall>c'. map_of (leavesByIndex index) (num_int leaf) = Some c' \<longrightarrow> to_lower c' = to_lower c"
    "index' = set_caches None [] (index\<lparr>leavesByIndex := AList.update (num_int leaf) c (leavesByIndex index),
       indexByCommitment := AList.update (to_lower c) (num_int leaf) (indexByCommitment index)\<rparr>)"
    using assms
    by (auto simp: insertIndexedCommitment_def Let_def set_caches_def split: if_splits option.splits)
  show thesis
    using int(1) nonneg rest by (intro that [of "num_int leaf"]) auto
qed

lemma insert_ok:
  assumes "index_ok index" "insertIndexedCommitment index c leaf = Inr index'"
  shows "index_ok index'"
proof -
  obtain i where i: "0 \<le> i" "i < 2 ^ depth index"
    "map_of (indexByCommitment index) (to_lower c) \<in> {None, Some i}"
    "\<And>c'. map_of (leavesByIndex index) i = Some c' \<Longrightarrow> to_lower c' = to_lower c"
    and index': "index' = set_caches None [] (index\<lparr>leavesByIndex := AList.update i c (leavesByIndex index),
       indexByCommitment := AList.update (to_lower c) i (indexByCommitment index)\<rparr>)"
    by (rule insert_shape [OF assms(2)]) blast
  have maps: "leaf_maps_ok index"
    using assms(1) by (simp add: index_ok_def)
  have "leaf_maps_ok index'"
    unfolding leaf_maps_ok_def
  proof (intro conjI allI impI)
    fix j d assume "map_of (leavesByIndex index') j = Some d"
    then have split: "j = i \<and> d = c \<or> j \<noteq> i \<and> map_of (leavesByIndex index) j = Some d"
      by (auto simp: index' update_conv' split: if_splits)
    moreover have "map_of (indexByCommitment index) (to_lower d) = Some j"
      if "map_of (leavesByIndex index) j = Some d"
      using maps that unfolding leaf_maps_ok_def by blast
    ultimately show "map_of (indexByCommitment index') (to_lower d) = Some j"
      using i(3) by (cases "to_lower d = to_lower c") (auto simp: index')
    show "0 \<le> j" "j < 2 ^ depth index'"
      using split i(1,2) maps unfolding leaf_maps_ok_def by (auto simp: index')
  next
    fix n j assume "map_of (indexByCommitment index') n = Some j"
    then have "n = to_lower c \<and> j = i \<or> n \<noteq> to_lower c \<and> map_of (indexByCommitment index) n = Some j"
      by (auto simp: index' update_conv' split: if_splits)
    then show "\<exists>d. map_of (leavesByIndex index') j = Some d \<and> to_lower d = n"
    proof
      assume n: "n \<noteq> to_lower c \<and> map_of (indexByCommitment index) n = Some j"
      then obtain d where d: "map_of (leavesByIndex index) j = Some d" "to_lower d = n"
        using maps unfolding leaf_maps_ok_def by blast
      with n i(4) have "j \<noteq> i" by blast
      with d show ?thesis by (simp add: index')
    qed (simp add: index')
  qed
  then show ?thesis
    by (simp add: index_ok_def cache_ok_def index')
qed

lemma evict_entry:
  assumes "distinct (map fst cache)" "map_of (evict m cache) k = Some r"
  shows "map_of cache k = Some r"
proof -
  obtain xs where xs: "cache = xs @ evict m cache"
    using evict_suffix by blast
  then have "distinct (map fst (xs @ evict m cache))"
    using assms(1) by simp
  with assms(2) have "map_of (xs @ evict m cache) k = Some r"
    by (rule map_of_suffix)
  with xs show ?thesis by simp
qed

lemma distinct_evict: "distinct (map fst cache) \<Longrightarrow> distinct (map fst (evict m cache))"
  by (metis evict_suffix distinct_append map_append)

lemma length_move_to_end:
  assumes "distinct (map fst m)" "map_of m k = Some v"
  shows "length (AList.update k w (AList.delete k m)) = length m"
proof -
  have k: "k \<in> set (map fst m)"
    using assms(2) by (metis image_eqI fst_conv map_of_SomeD set_map)
  have "map fst (AList.update k w (AList.delete k m)) = remove1 k (map fst m) @ [k]"
    using assms(1) by (simp add: update_keys delete_keys delete_notin_dom distinct_remove1_removeAll)
  then have "length (AList.update k w (AList.delete k m)) = Suc (length (remove1 k (map fst m)))"
    by (metis length_append_singleton length_map)
  moreover have "length (map fst m) > 0"
    using k by (cases m) simp_all
  ultimately show ?thesis
    using k by (simp add: length_remove1 del: set_map)
qed

text \<open>What a query returns, cached or computed: the path of some spelling of the commitment.\<close>

lemma query_ok:
  assumes "index_ok index" "getMerklePathForCommitment index c = Inr (index', r)"
  shows "\<exists>i c'. map_of (indexByCommitment index) (to_lower c) = Some i \<and> to_lower c' = to_lower c \<and>
      r = computePath index (sorted_leaves index) c' i \<and> index_ok index' \<and>
      index' = set_caches (sortedLeafIndexes index') (pathCache index') index"
proof -
  obtain i where i: "map_of (indexByCommitment index) (to_lower c) = Some i"
    using assms(2) by (auto simp: getMerklePathForCommitment_def split: option.splits)
  have maps: "leaf_maps_ok index" and cache: "cache_ok index"
    and sorted: "sortedLeafIndexes index = None \<or> sortedLeafIndexes index = Some (sorted_leaves index)"
    using assms(1) by (auto simp: index_ok_def)
  show ?thesis
  proof (cases "map_of (pathCache index) (to_lower c)")
    case (Some cached)
    let ?cache = "AList.update (to_lower c) cached (AList.delete (to_lower c) (pathCache index))"
    have r: "r = cached" "index' = set_caches (sortedLeafIndexes index) ?cache index"
      using assms(2) i Some by (auto simp: getMerklePathForCommitment_def set_caches_def Let_def)
    have len: "length ?cache = length (pathCache index)"
      using cache Some by (intro length_move_to_end) (simp_all add: cache_ok_def)
    have ne: "pathCache index \<noteq> []"
      using Some by auto
    have "map_of ?cache k = map_of (pathCache index) k" for k
      using Some by (cases "k = to_lower c") (simp_all add: delete_conv')
    then have "cache_ok index'"
      using cache ne len unfolding cache_ok_def r
      by (auto simp: distinct_update distinct_delete)
    then show ?thesis
      using i maps sorted cache Some r unfolding cache_ok_def index_ok_def by fastforce
  next
    case None
    let ?r = "computePath index (sorted_leaves index) c i"
    define cache' where "cache' = (if num_less (jsint 0) (maxPathCacheEntries index)
      then evict (maxPathCacheEntries index) (AList.update (to_lower c) ?r (pathCache index))
      else pathCache index)"
    have leaves: "(case sortedLeafIndexes index of Some xs \<Rightarrow> xs
        | None \<Rightarrow> sort (map fst (leavesByIndex index))) = sorted_leaves index"
      using sorted by (auto simp: sorted_leaves_def)
    have r: "r = ?r" "index' = set_caches (Some (sorted_leaves index)) cache' index"
      using assms(2) i None
      by (auto simp: getMerklePathForCommitment_def set_caches_def Let_def leaves cache'_def split: if_splits)
    have dist: "distinct (map fst (AList.update (to_lower c) ?r (pathCache index)))"
      using cache by (simp add: cache_ok_def distinct_update)
    have entries: "map_of cache' k = Some e \<Longrightarrow> k = to_lower c \<and> e = ?r \<or> map_of (pathCache index) k = Some e" for k e
      using evict_entry [OF dist, of "maxPathCacheEntries index" k e]
      by (auto simp: cache'_def update_conv' split: if_splits)
    have "path_commitment ?r = c"
      by (simp add: computePath_def Let_def split: prod.splits)
    then have entry: "map_of cache' k = Some e \<Longrightarrow> \<exists>j. map_of (indexByCommitment index) k = Some j \<and>
        to_lower (path_commitment e) = k \<and>
        e = computePath index (sorted_leaves index) (path_commitment e) j" for k e
      using entries [of k e] cache i unfolding cache_ok_def by metis
    have "distinct (map fst cache')"
      using cache dist by (simp add: cache'_def distinct_evict cache_ok_def)
    moreover have "cache' = [] \<or> \<not> num_less (maxPathCacheEntries index) (jsint (int (length cache')))"
      using cache length_evict by (simp add: cache'_def cache_ok_def)
    ultimately have "cache_ok index'"
      using entry unfolding cache_ok_def r by simp
    then show ?thesis
      using i maps r by (auto simp: index_ok_def)
  qed
qed

section \<open>Properties\<close>

text \<open>An index as the indexer holds it: created, then changed by insertions and queries.\<close>

inductive index_reach :: "merkle_path_index \<Rightarrow> bool" where
  created: "createMerklePathIndex d zero hash m = Inr index \<Longrightarrow> index_reach index"
| inserted: "\<lbrakk>index_reach index; insertIndexedCommitment index c leaf = Inr index'\<rbrakk> \<Longrightarrow> index_reach index'"
| queried: "\<lbrakk>index_reach index; getMerklePathForCommitment index c = Inr (index', r)\<rbrakk> \<Longrightarrow> index_reach index'"

lemma created_ok: "createMerklePathIndex d zero hash m = Inr index \<Longrightarrow> index_ok index"
  by (auto simp: createMerklePathIndex_def index_ok_def leaf_maps_ok_def cache_ok_def split: if_splits)

lemma reach_ok: "index_reach index \<Longrightarrow> index_ok index"
proof (induction rule: index_reach.induct)
  case (queried index c index' r)
  then show ?case using query_ok by blast
qed (auto intro: created_ok insert_ok)

lemma query_verifies:
  assumes "index_ok index" "getMerklePathForCommitment index c = Inr (index', r)"
    "path_leafIndex r < 2 ^ 31"
  shows "to_lower (path_commitment r) = to_lower c \<and>
    (\<exists>stored. map_of (leavesByIndex index) (path_leafIndex r) = Some stored \<and> to_lower stored = to_lower c \<and>
       climb (hashPair index) stored (pathElements r) (pathIndices r) = path_root r) \<and>
    path_root r = tree (hashPair index) (leaf_at index) (depth index) 0 \<and>
    length (pathElements r) = depth index"
proof -
  note ok = assms(1)
  obtain i c' where i: "map_of (indexByCommitment index) (to_lower c) = Some i" "to_lower c' = to_lower c"
    and r: "r = computePath index (sorted_leaves index) c' i"
    using query_ok [OF ok assms(2)] by blast
  obtain stored where st: "map_of (leavesByIndex index) i = Some stored" "to_lower stored = to_lower c"
    using ok i(1) unfolding index_ok_def leaf_maps_ok_def by blast
  then have range: "0 \<le> i" "i < 2 ^ depth index"
    using ok unfolding index_ok_def leaf_maps_ok_def by blast+
  have "path_leafIndex r = i"
    unfolding r by (simp add: computePath_def Let_def split: prod.splits)
  with assms(3) have "i < 2 ^ 31" by simp
  note path = computePath_correct [OF range(1) this, of index c', folded r]
  have "node_at index 0 i = stored"
    using st(1) by (simp add: leaf_at_def)
  with indexed.climb_to_root [OF range] st i(2) show ?thesis
    by (simp add: path path_siblings_node_hash node_hash_eq)
qed

text \<open>
  C19: A path the index returns for a leaf below 2^31, computed or taken from its cache, is a Merkle
  proof (from leaf 2^31 on it need not be): for a reachable index, the path is for the commitment asked for (up to the case
  of its digits), for the leaf where it was inserted, and hashing the stored leaf upwards with
  the returned siblings and bits gives the returned root, which is the root of the full tree
  over all indexed leaves.
\<close>

theorem returned_path_verifies:
  assumes "index_reach index" "getMerklePathForCommitment index c = Inr (index', r)"
    "path_leafIndex r < 2 ^ 31"
  shows "to_lower (path_commitment r) = to_lower c \<and>
    (\<exists>stored. map_of (leavesByIndex index) (path_leafIndex r) = Some stored \<and> to_lower stored = to_lower c \<and>
       climb (hashPair index) stored (pathElements r) (pathIndices r) = path_root r) \<and>
    path_root r = tree (hashPair index) (leaf_at index) (depth index) 0 \<and>
    length (pathElements r) = depth index"
  using query_verifies [OF reach_ok] assms by blast

definition sample_hash :: "string \<Rightarrow> string \<Rightarrow> string" where
  "sample_hash a b = (if a = b then a else a @ b)"

definition sample_index :: "nat \<Rightarrow> merkle_path_index" where
  "sample_index d = \<lparr>depth = d, zeroHash = ''z'', hashPair = sample_hash, leavesByIndex = [],
     indexByCommitment = [], sortedLeafIndexes = None, pathCache = [], maxPathCacheEntries = jsint 1\<rparr>"

lemma sample_index_created:
  "createMerklePathIndex (jsint 2) ''z'' sample_hash (Some (jsint 1)) = Inr (sample_index 2)"
  by (simp add: createMerklePathIndex_def sample_index_def num_le_def num_eq_def MAX_SAFE_INTEGER_def)

definition sample_filled :: merkle_path_index where
  "sample_filled = (sample_index 2)\<lparr>leavesByIndex := [(0, ''A''), (3, ''b'')],
     indexByCommitment := [(''a'', 0), (''b'', 3)]\<rparr>"

lemma sample_lower:
  "lower_char (CHR ''A'') = CHR ''a''" "lower_char (CHR ''B'') = CHR ''b''"
  "lower_char (CHR ''a'') = CHR ''a''" "lower_char (CHR ''b'') = CHR ''b''"
  by code_simp+

lemma sample_filled_reach: "index_reach sample_filled"
proof -
  have "insertIndexedCommitment (sample_index 2) ''A'' (jsint 0) =
      Inr ((sample_index 2)\<lparr>leavesByIndex := [(0, ''A'')], indexByCommitment := [(''a'', 0)]\<rparr>)"
    by (simp add: insertIndexedCommitment_def Let_def sample_index_def sample_lower)
  moreover have "insertIndexedCommitment ((sample_index 2)\<lparr>leavesByIndex := [(0, ''A'')],
      indexByCommitment := [(''a'', 0)]\<rparr>) ''b'' (jsint 3) = Inr sample_filled"
    by (simp add: insertIndexedCommitment_def Let_def sample_index_def sample_filled_def sample_lower)
  ultimately show ?thesis
    using created [OF sample_index_created] inserted by blast
qed

lemma query_computes:
  assumes "map_of (indexByCommitment index) (to_lower c) = Some i" "pathCache index = []"
    "sortedLeafIndexes index = None" "maxPathCacheEntries index = jsint 1"
  shows "\<exists>index'. getMerklePathForCommitment index c =
    Inr (index', computePath index (sorted_leaves index) c i)"
  using assms by (simp add: getMerklePathForCommitment_def Let_def sorted_leaves_def)

lemma returned_path_verifies_witness:
  "\<exists>index' r. getMerklePathForCommitment sample_filled ''B'' = Inr (index', r) \<and>
     climb sample_hash ''b'' (pathElements r) (pathIndices r) = path_root r \<and> path_root r = ''Azzb''"
proof -
  define out where "out = computePath sample_filled (sorted_leaves sample_filled) ''B'' 3"
  have out: "out = \<lparr>path_commitment = ''B'', path_leafIndex = 3, path_root = ''Azzb'',
      pathElements = [''z'', ''Az''], pathIndices = [1, 1]\<rparr>"
    unfolding out_def by code_simp
  obtain index' where run: "getMerklePathForCommitment sample_filled ''B'' = Inr (index', out)"
    using query_computes [of sample_filled "''B''" 3, folded out_def]
    by (auto simp: sample_filled_def sample_index_def sample_lower)
  have "path_leafIndex out < 2 ^ 31"
    by (simp add: out)
  from returned_path_verifies [OF sample_filled_reach run this] run show ?thesis
    by (auto simp: out sample_filled_def sample_index_def)
qed

text \<open>
  The index is append-only and consistent: in every reachable index the two maps are inverse
  to each other up to the case of the digits, all leaf indexes are within the capacity, and an
  accepted insertion keeps every commitment that was indexed at its leaf and adds the new one;
  the cache never holds more paths than its bound.
\<close>

theorem index_append_only:
  assumes "index_reach index"
  shows "(\<forall>i stored. map_of (leavesByIndex index) i = Some stored \<longrightarrow>
        0 \<le> i \<and> i < 2 ^ depth index \<and> map_of (indexByCommitment index) (to_lower stored) = Some i) \<and>
    (insertIndexedCommitment index c leaf = Inr index' \<longrightarrow>
       (\<forall>n i. map_of (indexByCommitment index) n = Some i \<longrightarrow> map_of (indexByCommitment index') n = Some i) \<and>
       leaf = jsint (num_int leaf) \<and> map_of (indexByCommitment index') (to_lower c) = Some (num_int leaf) \<and>
       map_of (leavesByIndex index') (num_int leaf) = Some c) \<and>
    (pathCache index = [] \<or>
       \<not> num_less (maxPathCacheEntries index) (jsint (int (length (pathCache index)))))"
proof -
  have ok: "index_ok index"
    using assms by (rule reach_ok)
  have "(\<forall>n i. map_of (indexByCommitment index) n = Some i \<longrightarrow> map_of (indexByCommitment index') n = Some i) \<and>
      leaf = jsint (num_int leaf) \<and> map_of (indexByCommitment index') (to_lower c) = Some (num_int leaf) \<and>
      map_of (leavesByIndex index') (num_int leaf) = Some c"
    if ins: "insertIndexedCommitment index c leaf = Inr index'"
    by (rule insert_shape [OF ins]) (auto simp: update_conv')
  with ok show ?thesis
    unfolding index_ok_def leaf_maps_ok_def cache_ok_def by blast
qed

lemma index_append_only_witness:
  "map_of (indexByCommitment sample_filled) ''a'' = Some 0"
proof -
  have "map_of (leavesByIndex sample_filled) 0 = Some ''A''"
    by (simp add: sample_filled_def)
  moreover have "to_lower ''A'' = ''a''"
    by (simp add: sample_lower)
  ultimately show ?thesis
    using index_append_only [OF sample_filled_reach, of "''c''" NaN sample_filled] by metis
qed

definition wide_index :: merkle_path_index where
  "wide_index = (sample_index 32)\<lparr>leavesByIndex := [(2147483648, ''a''), (2147483649, ''b'')],
     indexByCommitment := [(''a'', 2147483648), (''b'', 2147483649)]\<rparr>"

text \<open>
  C36: The bound below 2^31 is needed: a tree of depth 32 is accepted, two commitments can be
  indexed at the leaves 2^31 and 2^31 + 1, and the path returned for the first has a wrong
  sibling, since \<open>cursor ^ 1\<close> works on 32-bit integers; it does not climb to the returned root.
\<close>

theorem path_wrong_beyond_int32:
  "index_reach wide_index \<and>
   (\<exists>index' r. getMerklePathForCommitment wide_index ''a'' = Inr (index', r) \<and>
      hd (pathElements r) = ''z'' \<and> leaf_at wide_index (sibling (path_leafIndex r)) = ''b'' \<and>
      climb (hashPair wide_index) ''a'' (pathElements r) (pathIndices r) \<noteq> path_root r)"
proof
  have "createMerklePathIndex (jsint 32) ''z'' sample_hash (Some (jsint 1)) = Inr (sample_index 32)"
    by (simp add: createMerklePathIndex_def sample_index_def num_le_def num_eq_def MAX_SAFE_INTEGER_def)
  moreover have "insertIndexedCommitment (sample_index 32) ''a'' (jsint 2147483648) =
      Inr ((sample_index 32)\<lparr>leavesByIndex := [(2147483648, ''a'')], indexByCommitment := [(''a'', 2147483648)]\<rparr>)"
    by (simp add: insertIndexedCommitment_def Let_def sample_index_def sample_lower)
  moreover have "insertIndexedCommitment ((sample_index 32)\<lparr>leavesByIndex := [(2147483648, ''a'')],
      indexByCommitment := [(''a'', 2147483648)]\<rparr>) ''b'' (jsint 2147483649) = Inr wide_index"
    by (simp add: insertIndexedCommitment_def Let_def sample_index_def wide_index_def sample_lower)
  ultimately show "index_reach wide_index"
    using created inserted by blast
next
  define r where "r = computePath wide_index (sorted_leaves wide_index) ''a'' 2147483648"
  have r: "hd (pathElements r) = ''z''" "path_leafIndex r = 2147483648"
    "climb sample_hash ''a'' (pathElements r) (pathIndices r) \<noteq> path_root r"
    unfolding r_def by code_simp+
  moreover obtain index' where "getMerklePathForCommitment wide_index ''a'' = Inr (index', r)"
    using query_computes [of wide_index "''a''" 2147483648, folded r_def]
    by (auto simp: wide_index_def sample_index_def sample_lower)
  moreover have "leaf_at wide_index (sibling 2147483648) = ''b''"
    by (simp add: leaf_at_def sibling_def wide_index_def sample_index_def)
  moreover have "hashPair wide_index = sample_hash"
    by (simp add: wide_index_def sample_index_def)
  ultimately show "\<exists>index' r. getMerklePathForCommitment wide_index ''a'' = Inr (index', r) \<and>
      hd (pathElements r) = ''z'' \<and> leaf_at wide_index (sibling (path_leafIndex r)) = ''b'' \<and>
      climb (hashPair wide_index) ''a'' (pathElements r) (pathIndices r) \<noteq> path_root r"
    by auto
qed

end
