(* ===== verification/Ranges.thy ===== *)
theory Ranges
  imports Js_Core "HOL-Library.Multiset"
begin

text \<open>
  The indexer's range tracker, \<^verbatim>\<open>services/indexer/src/ranges.ts\<close>: block ranges already scanned are
  kept merged, and the part of a request still to be scanned is computed from them. The comparator
  of \<open>sort\<close> answers 1 for equal keys, so only the order of ranges with different \<open>fromBlock\<close> is
  determined; \<open>sort_key\<close> keeps ties in their old order, and the lemmas below hold for every order a
  sort could leave, which is why the ties do not matter.
\<close>

record block_range =
  fromBlock :: int
  toBlock :: int

record range_tracker =
  checkedRanges :: "block_range list"

datatype range_error = InvalidCheckedBlockRange

definition createRangeTracker :: range_tracker where
  "createRangeTracker = \<lparr>checkedRanges = []\<rparr>"

definition merge_next :: "block_range list \<Rightarrow> block_range \<Rightarrow> block_range list" where
  "merge_next merged nxt =
     (if merged = [] \<or> fromBlock nxt > toBlock (last merged) + 1 then merged @ [nxt]
      else if toBlock nxt > toBlock (last merged)
      then butlast merged @ [(last merged)\<lparr>toBlock := toBlock nxt\<rparr>]
      else merged)"

definition merge_ranges :: "block_range list \<Rightarrow> block_range list" where
  "merge_ranges rs = foldl merge_next [] rs"

definition markCheckedRange :: "range_tracker \<Rightarrow> block_range \<Rightarrow> range_error + range_tracker" where
  "markCheckedRange tracker rng =
     (if toBlock rng < fromBlock rng then Inl InvalidCheckedBlockRange
      else let ranges = sort_key fromBlock (checkedRanges tracker @ [rng]) in
        Inr (tracker\<lparr>checkedRanges := merge_ranges ranges\<rparr>))"

text \<open>The loop of \<open>findMissingRanges\<close>; the two cases without a recursive step are \<open>break\<close> and the end.\<close>

fun missing_loop :: "block_range list \<Rightarrow> block_range \<Rightarrow> int \<Rightarrow> block_range list \<Rightarrow> int \<times> block_range list" where
  "missing_loop [] requested cursor missing = (cursor, missing)"
| "missing_loop (checked # rest) requested cursor missing =
     (if toBlock checked < cursor then missing_loop rest requested cursor missing
      else if fromBlock checked > toBlock requested then (cursor, missing)
      else
        let missing' = (if fromBlock checked > cursor
              then missing @ [\<lparr>fromBlock = cursor, toBlock = fromBlock checked - 1\<rparr>] else missing);
            cursor' = (if toBlock checked + 1 > cursor then toBlock checked + 1 else cursor)
        in missing_loop rest requested cursor' missing')"

definition findMissingRanges :: "range_tracker \<Rightarrow> block_range \<Rightarrow> block_range list" where
  "findMissingRanges tracker requested =
     (let (cursor, missing) = missing_loop (checkedRanges tracker) requested (fromBlock requested) [] in
      if cursor \<le> toBlock requested
      then missing @ [\<lparr>fromBlock = cursor, toBlock = toBlock requested\<rparr>] else missing)"

section \<open>The interface of a coverage tracker\<close>

text \<open>
  What a scanner relies on: a set of covered blocks that marking a range extends by that range,
  and the ranges still missing from a request, which are valid and cover exactly the blocks of the
  request that are not covered.
\<close>

definition blocks :: "block_range \<Rightarrow> int set" where
  "blocks r = {fromBlock r..toBlock r}"

fun mark_all :: "('t \<Rightarrow> block_range \<Rightarrow> 'e + 't) \<Rightarrow> 't \<Rightarrow> block_range list \<Rightarrow> 'e + 't" where
  "mark_all mark t [] = Inr t"
| "mark_all mark t (r # rs) = bind_res (mark t r) (\<lambda>t'. mark_all mark t' rs)"

locale coverage_tracker =
  fixes inv :: "'t \<Rightarrow> bool"
    and covered :: "'t \<Rightarrow> int set"
    and mark :: "'t \<Rightarrow> block_range \<Rightarrow> 'e + 't"
    and missing :: "'t \<Rightarrow> block_range \<Rightarrow> block_range list"
  assumes mark_valid: "inv t \<Longrightarrow> fromBlock r \<le> toBlock r \<Longrightarrow>
      \<exists>t'. mark t r = Inr t' \<and> inv t' \<and> covered t' = covered t \<union> blocks r"
    and missing_covers: "inv t \<Longrightarrow> \<Union> (blocks ` set (missing t r)) = blocks r - covered t"
    and missing_valid: "inv t \<Longrightarrow> m \<in> set (missing t r) \<Longrightarrow> fromBlock m \<le> toBlock m"
begin

lemma mark_all_covers:
  "inv t \<Longrightarrow> \<forall>r \<in> set rs. fromBlock r \<le> toBlock r \<Longrightarrow>
     \<exists>t'. mark_all mark t rs = Inr t' \<and> inv t' \<and> covered t' = covered t \<union> \<Union> (blocks ` set rs)"
proof (induction rs arbitrary: t)
  case Nil
  then show ?case by simp
next
  case (Cons r rs)
  then obtain t1 where t1: "mark t r = Inr t1" "inv t1" "covered t1 = covered t \<union> blocks r"
    using mark_valid [of t r] by auto
  with Cons.IH [of t1] Cons.prems show ?case by auto
qed

text \<open>A pass that scans what is missing and marks it leaves nothing missing.\<close>

lemma scan_completes:
  assumes "inv t"
  shows "\<exists>t'. mark_all mark t (missing t r) = Inr t' \<and> inv t' \<and>
    covered t' = covered t \<union> blocks r \<and> missing t' r = []"
proof -
  obtain t' where t': "mark_all mark t (missing t r) = Inr t'" "inv t'"
    "covered t' = covered t \<union> \<Union> (blocks ` set (missing t r))"
    using mark_all_covers [OF assms, of "missing t r"] missing_valid [OF assms] by auto
  then have cov: "covered t' = covered t \<union> blocks r"
    using missing_covers [OF assms, of r] by auto
  have "missing t' r = []"
  proof (rule ccontr)
    assume "missing t' r \<noteq> []"
    then obtain m where m: "m \<in> set (missing t' r)"
      by (cases "missing t' r") auto
    with missing_valid [OF t'(2)] have "fromBlock m \<in> blocks m"
      by (auto simp: blocks_def)
    with m have "fromBlock m \<in> \<Union> (blocks ` set (missing t' r))" by auto
    with missing_covers [OF t'(2), of r] cov show False by auto
  qed
  with t' cov show ?thesis by auto
qed

end

section \<open>Merging\<close>

definition covered_by :: "block_range list \<Rightarrow> int set" where
  "covered_by rs = \<Union> (blocks ` set rs)"

text \<open>Merged: every range is nonempty and there is a gap of at least one block between two of them.\<close>

definition merged_ranges :: "block_range list \<Rightarrow> bool" where
  "merged_ranges rs \<longleftrightarrow> (\<forall>r \<in> set rs. fromBlock r \<le> toBlock r) \<and>
     sorted_wrt (\<lambda>a b. toBlock a + 1 < fromBlock b) rs"

lemma covered_by_simps [simp]:
  "covered_by [] = {}"
  "covered_by (r # rs) = blocks r \<union> covered_by rs"
  "covered_by (rs @ ss) = covered_by rs \<union> covered_by ss"
  by (auto simp: covered_by_def)

lemma merged_ranges_simps [simp]:
  "merged_ranges []"
  "merged_ranges (r # rs) \<longleftrightarrow> fromBlock r \<le> toBlock r \<and>
     (\<forall>s \<in> set rs. toBlock r + 1 < fromBlock s) \<and> merged_ranges rs"
  by (auto simp: merged_ranges_def)

lemma merged_ranges_snoc [simp]:
  "merged_ranges (rs @ [r]) \<longleftrightarrow> fromBlock r \<le> toBlock r \<and>
     (\<forall>s \<in> set rs. toBlock s + 1 < fromBlock r) \<and> merged_ranges rs"
  by (auto simp: merged_ranges_def sorted_wrt_append)

lemma merge_next_correct:
  assumes "merged_ranges m" "fromBlock n \<le> toBlock n" "\<forall>r \<in> set m. fromBlock r \<le> fromBlock n"
  shows "merged_ranges (merge_next m n) \<and> covered_by (merge_next m n) = covered_by m \<union> blocks n \<and>
    (\<forall>r \<in> set (merge_next m n). fromBlock r \<le> fromBlock n)"
proof (cases m rule: rev_cases)
  case Nil
  with assms show ?thesis by (simp add: merge_next_def)
next
  case (snoc ms l)
  have gap: "toBlock s + 1 < fromBlock n" if "s \<in> set ms" for s
    using assms snoc that by force
  have less: "toBlock s \<le> toBlock l" if "s \<in> set ms" for s
    using assms(1) snoc that by force
  consider "fromBlock n > toBlock l + 1" | "fromBlock n \<le> toBlock l + 1" "toBlock n > toBlock l"
    | "toBlock n \<le> toBlock l" "fromBlock n \<le> toBlock l + 1"
    by linarith
  then show ?thesis
  proof cases
    case 1
    then have "merge_next m n = m @ [n]" by (simp add: merge_next_def snoc)
    moreover have "\<forall>s \<in> set m. toBlock s + 1 < fromBlock n"
      using 1 less snoc by fastforce
    ultimately show ?thesis using assms by simp
  next
    case 2
    with assms snoc gap show ?thesis by (fastforce simp: merge_next_def blocks_def)
  next
    case 3
    with assms snoc show ?thesis by (fastforce simp: merge_next_def blocks_def)
  qed
qed

lemma merge_foldl_correct:
  assumes "merged_ranges m" "\<forall>r \<in> set rs. fromBlock r \<le> toBlock r" "sorted (map fromBlock rs)"
    "\<forall>r \<in> set m. \<forall>s \<in> set rs. fromBlock r \<le> fromBlock s"
  shows "merged_ranges (foldl merge_next m rs) \<and>
    covered_by (foldl merge_next m rs) = covered_by m \<union> covered_by rs"
  using assms
proof (induction rs arbitrary: m)
  case Nil
  then show ?case by simp
next
  case (Cons n rs)
  have step: "merged_ranges (merge_next m n)" "covered_by (merge_next m n) = covered_by m \<union> blocks n"
    "\<forall>r \<in> set (merge_next m n). fromBlock r \<le> fromBlock n"
    using merge_next_correct [of m n] Cons.prems by auto
  have "\<forall>r \<in> set (merge_next m n). \<forall>s \<in> set rs. fromBlock r \<le> fromBlock s"
    using step(3) Cons.prems(3) by fastforce
  with Cons.IH [OF step(1)] Cons.prems step show ?case by auto
qed

text \<open>Whatever order the sort leaves ties in.\<close>

lemma merge_ranges_correct:
  assumes "mset rs = mset (ts @ [r])" "sorted (map fromBlock rs)" "merged_ranges ts"
    "fromBlock r \<le> toBlock r"
  shows "merged_ranges (merge_ranges rs) \<and> covered_by (merge_ranges rs) = covered_by ts \<union> blocks r"
proof -
  have set: "set rs = set ts \<union> {r}"
    using mset_eq_setD [OF assms(1)] by auto
  then have "\<forall>s \<in> set rs. fromBlock s \<le> toBlock s"
    using assms(3,4) by (auto simp: merged_ranges_def)
  moreover have "covered_by rs = covered_by ts \<union> blocks r"
    using set by (auto simp: covered_by_def)
  ultimately show ?thesis
    using merge_foldl_correct [of "[]" rs] assms(2) by (simp add: merge_ranges_def)
qed

lemma markCheckedRange_correct:
  assumes "merged_ranges (checkedRanges t)" "fromBlock r \<le> toBlock r"
  shows "\<exists>t'. markCheckedRange t r = Inr t' \<and> merged_ranges (checkedRanges t') \<and>
    covered_by (checkedRanges t') = covered_by (checkedRanges t) \<union> blocks r"
  using merge_ranges_correct [of "sort_key fromBlock (checkedRanges t @ [r])" "checkedRanges t" r] assms
  by (simp add: markCheckedRange_def Let_def)

section \<open>Missing ranges\<close>

lemma merged_covered_above: "merged_ranges (r # rs) \<Longrightarrow> x \<in> covered_by rs \<Longrightarrow> toBlock r + 1 < x"
  by (force simp: covered_by_def blocks_def)

lemma missing_loop_correct:
  assumes "merged_ranges rs" "missing_loop rs req c ms = (c', ms')"
  shows "\<exists>ns. ms' = ms @ ns \<and> (\<forall>n \<in> set ns. fromBlock n \<le> toBlock n) \<and>
    covered_by ns \<union> {c'..toBlock req} = {c..toBlock req} - covered_by rs"
  using assms
proof (induction rs arbitrary: c ms)
  case Nil
  then show ?case by auto
next
  case (Cons r rs)
  note above = merged_covered_above [OF Cons.prems(1)]
  have rs: "merged_ranges rs" "fromBlock r \<le> toBlock r"
    using Cons.prems(1) by auto
  consider (skip) "toBlock r < c" | (stop) "c \<le> toBlock r" "toBlock req < fromBlock r"
    | (use) "c \<le> toBlock r" "fromBlock r \<le> toBlock req"
    by linarith
  then show ?case
  proof cases
    case skip
    then have "missing_loop rs req c ms = (c', ms')"
      using Cons.prems(2) by simp
    from Cons.IH [OF rs(1) this] skip show ?thesis
      by (elim exE conjE) (auto simp: blocks_def)
  next
    case stop
    then have "c' = c" "ms' = ms"
      using Cons.prems(2) by simp_all
    moreover have "{c..toBlock req} \<inter> (blocks r \<union> covered_by rs) = {}"
      using stop rs(2) by (auto simp: blocks_def dest: above)
    ultimately show ?thesis
      by (intro exI [of _ "[]"]) auto
  next
    case use
    define new where
      "new = (if fromBlock r > c then [\<lparr>fromBlock = c, toBlock = fromBlock r - 1\<rparr>] else [])"
    have loop: "missing_loop rs req (toBlock r + 1) (ms @ new) = (c', ms')"
      using Cons.prems(2) use by (auto simp: Let_def new_def split: if_splits)
    then obtain ns where ns: "ms' = ms @ new @ ns" "\<forall>n \<in> set ns. fromBlock n \<le> toBlock n"
      "covered_by ns \<union> {c'..toBlock req} = {toBlock r + 1..toBlock req} - covered_by rs"
      using Cons.IH [OF rs(1) loop] by auto
    have new: "covered_by new = {c..fromBlock r - 1}" "\<forall>n \<in> set new. fromBlock n \<le> toBlock n"
      by (auto simp: new_def blocks_def)
    have "{c..toBlock req} - (blocks r \<union> covered_by rs) =
        {c..fromBlock r - 1} \<union> ({toBlock r + 1..toBlock req} - covered_by rs)"
      using use rs(2) by (auto simp: blocks_def dest: above)
    then have "covered_by (new @ ns) \<union> {c'..toBlock req} = {c..toBlock req} - covered_by (r # rs)"
      using ns(3) new(1) by auto
    with ns(1,2) new(2) show ?thesis
      by (intro exI [of _ "new @ ns"]) auto
  qed
qed

lemma findMissingRanges_correct:
  assumes "merged_ranges (checkedRanges t)"
  shows "covered_by (findMissingRanges t r) = blocks r - covered_by (checkedRanges t)"
    and "m \<in> set (findMissingRanges t r) \<Longrightarrow> fromBlock m \<le> toBlock m"
proof -
  obtain c' ms' where loop: "missing_loop (checkedRanges t) r (fromBlock r) [] = (c', ms')"
    by fastforce
  from missing_loop_correct [OF assms loop]
  have ms: "\<forall>n \<in> set ms'. fromBlock n \<le> toBlock n"
    "covered_by ms' \<union> {c'..toBlock r} = blocks r - covered_by (checkedRanges t)"
    by (auto simp: blocks_def)
  then show "covered_by (findMissingRanges t r) = blocks r - covered_by (checkedRanges t)"
    using loop by (auto simp: findMissingRanges_def blocks_def)
  show "m \<in> set (findMissingRanges t r) \<Longrightarrow> fromBlock m \<le> toBlock m"
    using loop ms(1) by (auto simp: findMissingRanges_def split: if_splits)
qed

interpretation tracker: coverage_tracker "\<lambda>t. merged_ranges (checkedRanges t)"
  "\<lambda>t. covered_by (checkedRanges t)" markCheckedRange findMissingRanges
  using markCheckedRange_correct findMissingRanges_correct
  by unfold_locales (auto simp: covered_by_def)

section \<open>Properties\<close>

text \<open>
  Marking a valid range always succeeds and keeps the tracker merged: the ranges stay
  nonempty, sorted and separated by at least one unchecked block, and the set of checked blocks
  grows by exactly the marked range; an empty range is refused.
\<close>

theorem mark_extends_coverage:
  assumes "merged_ranges (checkedRanges t)"
  shows "(toBlock r < fromBlock r \<longrightarrow> markCheckedRange t r = Inl InvalidCheckedBlockRange) \<and>
    (fromBlock r \<le> toBlock r \<longrightarrow> (\<exists>t'. markCheckedRange t r = Inr t' \<and>
       merged_ranges (checkedRanges t') \<and>
       covered_by (checkedRanges t') = covered_by (checkedRanges t) \<union> {fromBlock r..toBlock r}))"
  using tracker.mark_valid [OF assms, of r] by (auto simp: markCheckedRange_def blocks_def)

lemma mark_extends_coverage_witness:
  "\<exists>t'. markCheckedRange \<lparr>checkedRanges = [\<lparr>fromBlock = 1, toBlock = 3\<rparr>, \<lparr>fromBlock = 8, toBlock = 9\<rparr>]\<rparr>
      \<lparr>fromBlock = 4, toBlock = 6\<rparr> = Inr t' \<and>
    covered_by (checkedRanges t') = {1..3} \<union> {8..9} \<union> {4..6}"
proof -
  have "merged_ranges (checkedRanges \<lparr>checkedRanges = [\<lparr>fromBlock = 1, toBlock = 3\<rparr>, \<lparr>fromBlock = 8, toBlock = 9\<rparr>]\<rparr>)"
    by simp
  from mark_extends_coverage [OF this, of "\<lparr>fromBlock = 4, toBlock = 6\<rparr>"]
  show ?thesis by (auto simp: blocks_def)
qed

text \<open>
  The missing ranges of a request are exactly its unchecked blocks, each range is nonempty,
  and a pass that marks every missing range completes: afterwards the request is covered and
  nothing is missing from it.
\<close>

theorem missing_ranges_exact:
  assumes "merged_ranges (checkedRanges t)"
  shows "covered_by (findMissingRanges t r) = {fromBlock r..toBlock r} - covered_by (checkedRanges t) \<and>
    (\<forall>m \<in> set (findMissingRanges t r). fromBlock m \<le> toBlock m) \<and>
    (\<exists>t'. mark_all markCheckedRange t (findMissingRanges t r) = Inr t' \<and> findMissingRanges t' r = [] \<and>
       covered_by (checkedRanges t') = covered_by (checkedRanges t) \<union> {fromBlock r..toBlock r})"
  using findMissingRanges_correct [OF assms] tracker.scan_completes [OF assms, of r]
  by (auto simp: blocks_def)

lemma missing_ranges_exact_witness:
  "covered_by (findMissingRanges \<lparr>checkedRanges = [\<lparr>fromBlock = 3, toBlock = 4\<rparr>]\<rparr>
     \<lparr>fromBlock = 1, toBlock = 6\<rparr>) = {1, 2, 5, 6}"
proof -
  have "merged_ranges (checkedRanges \<lparr>checkedRanges = [\<lparr>fromBlock = 3, toBlock = 4\<rparr>]\<rparr>)"
    by simp
  from missing_ranges_exact [OF this, of "\<lparr>fromBlock = 1, toBlock = 6\<rparr>"]
  show ?thesis by (auto simp: blocks_def)
qed

end
