(* ===== verification/Indexer_State.thy ===== *)
theory Indexer_State
  imports Indexer_Notes Merkle_Index Ranges
begin

text \<open>
  The indexer's state and how pool logs enter it, \<^verbatim>\<open>services/indexer/src/logIngest.ts\<close>: note events,
  the Merkle index, accepted and expired roots, spent nullifiers and the checked block ranges.

  viem's \<open>decodeEventLog\<close> is the parameter \<open>decode\<close> (\<open>None\<close> when it throws). A \<open>Map\<close> is an
  association list. Ingestion mutates the state log by log, so a throw leaves the effects of the
  logs before it: the functions here return the state together with the error, if any.
\<close>

datatype pool_event =
    DepositNoteCreated string int string int
  | PrivateTransferNoteCreated string string int string int
  | WithdrawalChangeNoteCreated string string int int string int
  | WithdrawalOutputNoteCreated string string int int string int
  | RootAccepted string string string
  | RootExpired string
  | NullifierSpent string

record raw_pool_log =
  pl_address :: string
  pl_topics :: "string list"
  pl_data :: string
  pl_blockNumber :: int
  pl_transactionHash :: string
  pl_logIndex :: jsnum

record root_record =
  rr_root :: string
  rr_previousRoot :: string
  rr_insertedCommitment :: string
  rr_blockNumber :: int
  rr_transactionHash :: string
  rr_logIndex :: jsnum

record log_position =
  lp_key :: string
  lp_blockNumber :: int
  lp_transactionHash :: string
  lp_logIndex :: jsnum

text \<open>\<open>log_position\<close> is both \<open>RootExpiredRecord\<close> and \<open>NullifierRecord\<close> (whose \<open>spent\<close> is always true).\<close>

record indexer_state =
  encryptedNotes :: note_cache
  merklePaths :: "merkle_path_index option"
  st_roots :: "(string \<times> root_record) list"
  expiredRoots :: "(string \<times> log_position) list"
  nullifiers :: "(string \<times> log_position) list"
  st_ranges :: range_tracker

definition createIndexerState :: "merkle_path_index option \<Rightarrow> indexer_state" where
  "createIndexerState paths =
     \<lparr>encryptedNotes = createEncryptedNoteCache, merklePaths = paths, st_roots = [], expiredRoots = [],
      nullifiers = [], st_ranges = createRangeTracker\<rparr>"

datatype ingest_error =
    UndecodableLog
  | UnsafeLeafIndex
  | IndexError merkle_error
  | NoteError note_error
  | RangeError range_error

record ingest_input =
  in_chainId :: jsnum
  in_pool :: string
  in_sourceRpc :: string
  in_observedAtMs :: jsnum
  in_logs :: "raw_pool_log list"
  in_checkedRange :: block_range

definition insertAcceptedNoteCommitment :: "indexer_state \<Rightarrow> string \<Rightarrow> int \<Rightarrow> ingest_error + indexer_state" where
  "insertAcceptedNoteCommitment st commitment leafIndex =
     (case merklePaths st of None \<Rightarrow> Inr st
      | Some index \<Rightarrow>
        if leafIndex > MAX_SAFE_INTEGER then Inl UnsafeLeafIndex
        else case insertIndexedCommitment index commitment (jsint leafIndex) of
          Inl e \<Rightarrow> Inl (IndexError e)
        | Inr index' \<Rightarrow> Inr (st\<lparr>merklePaths := Some index'\<rparr>))"

type_synonym ingest_result = "ingest_error option \<times> indexer_state"

definition note_record ::
  "ingest_input \<Rightarrow> raw_pool_log \<Rightarrow> note_event_type \<Rightarrow> string \<Rightarrow> string option \<Rightarrow> int \<Rightarrow> string \<Rightarrow> int \<Rightarrow> note_event" where
  "note_record input lg kind commitment nullifier leafIndex encryptedNote version =
     \<lparr>ev_chainId = in_chainId input, ev_pool = in_pool input, ev_eventType = kind,
      ev_commitment = commitment, ev_nullifier = nullifier, ev_leafIndex = jsint leafIndex,
      ev_encryptedNote = encryptedNote, ev_encryptionVersion = jsint version,
      ev_blockNumber = pl_blockNumber lg, ev_transactionHash = pl_transactionHash lg,
      ev_logIndex = pl_logIndex lg, ev_observedAtMs = in_observedAtMs input,
      ev_sourceRpc = in_sourceRpc input\<rparr>"

definition ingest_note ::
  "ingest_input \<Rightarrow> raw_pool_log \<Rightarrow> indexer_state \<Rightarrow> note_event_type \<Rightarrow> string \<Rightarrow> string option \<Rightarrow> int \<Rightarrow> string \<Rightarrow> int
     \<Rightarrow> ingest_result" where
  "ingest_note input lg st kind commitment nullifier leafIndex encryptedNote version =
     (case insertAcceptedNoteCommitment st commitment leafIndex of
        Inl e \<Rightarrow> (Some e, st)
      | Inr st1 \<Rightarrow>
        (case addEncryptedNoteEvent (encryptedNotes st1)
            (note_record input lg kind commitment nullifier leafIndex encryptedNote version) of
           Inl e \<Rightarrow> (Some (NoteError e), st1)
         | Inr cache \<Rightarrow> (None, st1\<lparr>encryptedNotes := cache\<rparr>)))"

definition position_of :: "raw_pool_log \<Rightarrow> string \<Rightarrow> log_position" where
  "position_of lg key = \<lparr>lp_key = key, lp_blockNumber = pl_blockNumber lg,
     lp_transactionHash = pl_transactionHash lg, lp_logIndex = pl_logIndex lg\<rparr>"

fun apply_event :: "ingest_input \<Rightarrow> raw_pool_log \<Rightarrow> indexer_state \<Rightarrow> pool_event \<Rightarrow> ingest_result" where
  "apply_event input lg st (DepositNoteCreated c leaf n ver) = ingest_note input lg st DepositEvent c None leaf n ver"
| "apply_event input lg st (PrivateTransferNoteCreated c nf leaf n ver) =
     ingest_note input lg st PrivateTransferEvent c (Some nf) leaf n ver"
| "apply_event input lg st (WithdrawalOutputNoteCreated c nf leaf g n ver) =
     ingest_note input lg st WithdrawOutputEvent c (Some nf) leaf n ver"
| "apply_event input lg st (WithdrawalChangeNoteCreated c nf leaf g n ver) =
     ingest_note input lg st WithdrawChangeEvent c (Some nf) leaf n ver"
| "apply_event input lg st (RootAccepted r previous inserted) =
     (None, st\<lparr>expiredRoots := AList.delete (to_lower r) (expiredRoots st),
       st_roots := AList.update (to_lower r)
         \<lparr>rr_root = r, rr_previousRoot = previous, rr_insertedCommitment = inserted,
          rr_blockNumber = pl_blockNumber lg, rr_transactionHash = pl_transactionHash lg,
          rr_logIndex = pl_logIndex lg\<rparr> (st_roots st)\<rparr>)"
| "apply_event input lg st (RootExpired r) =
     (None, st\<lparr>st_roots := AList.delete (to_lower r) (st_roots st),
       expiredRoots := AList.update (to_lower r) (position_of lg r) (expiredRoots st)\<rparr>)"
| "apply_event input lg st (NullifierSpent n) =
     (None, st\<lparr>nullifiers := AList.update (to_lower n) (position_of lg n) (nullifiers st)\<rparr>)"

type_synonym event_decoder = "string list \<Rightarrow> string \<Rightarrow> pool_event option"

definition ingest_log :: "event_decoder \<Rightarrow> ingest_input \<Rightarrow> indexer_state \<Rightarrow> raw_pool_log \<Rightarrow> ingest_result" where
  "ingest_log decode input st lg =
     (if to_lower (pl_address lg) \<noteq> to_lower (in_pool input) then (None, st)
      else case decode (pl_topics lg) (pl_data lg) of
        None \<Rightarrow> (Some UndecodableLog, st)
      | Some event \<Rightarrow> apply_event input lg st event)"

fun ingest_logs :: "event_decoder \<Rightarrow> ingest_input \<Rightarrow> indexer_state \<Rightarrow> raw_pool_log list \<Rightarrow> ingest_result" where
  "ingest_logs decode input st [] = (None, st)"
| "ingest_logs decode input st (lg # logs) =
     (case ingest_log decode input st lg of
        (None, st') \<Rightarrow> ingest_logs decode input st' logs
      | (Some e, st') \<Rightarrow> (Some e, st'))"

definition ingestPoolLogs :: "event_decoder \<Rightarrow> indexer_state \<Rightarrow> ingest_input \<Rightarrow> ingest_result" where
  "ingestPoolLogs decode st input =
     (case ingest_logs decode input st (in_logs input) of
        (Some e, st') \<Rightarrow> (Some e, st')
      | (None, st') \<Rightarrow>
        (case markCheckedRange (st_ranges st') (in_checkedRange input) of
           Inl e \<Rightarrow> (Some (RangeError e), st')
         | Inr tracker \<Rightarrow> (None, st'\<lparr>st_ranges := tracker\<rparr>)))"

section \<open>The invariant of the state\<close>

text \<open>
  Every stored note is even-length hex, the Merkle index is consistent, no root is both accepted and
  expired, the keys of the three maps are the lower-case spelling of what they hold, and the checked
  ranges are merged.
\<close>

definition keyed_by :: "('a \<Rightarrow> string) \<Rightarrow> (string \<times> 'a) list \<Rightarrow> bool" where
  "keyed_by spelling m \<longleftrightarrow> distinct (map fst m) \<and> (\<forall>k v. map_of m k = Some v \<longrightarrow> k = to_lower (spelling v))"

definition indexer_ok :: "indexer_state \<Rightarrow> bool" where
  "indexer_ok st \<longleftrightarrow>
     (\<forall>ev \<in> set (note_records (encryptedNotes st)). isHexString (ev_encryptedNote ev)) \<and>
     (\<forall>index. merklePaths st = Some index \<longrightarrow> index_ok index) \<and>
     (\<forall>k. map_of (st_roots st) k \<noteq> None \<longrightarrow> map_of (expiredRoots st) k = None) \<and>
     keyed_by rr_root (st_roots st) \<and> keyed_by lp_key (expiredRoots st) \<and> keyed_by lp_key (nullifiers st) \<and>
     merged_ranges (checkedRanges (st_ranges st))"

lemma keyed_by_Nil [simp]: "keyed_by f []"
  by (simp add: keyed_by_def)

lemma keyed_by_update: "keyed_by f m \<Longrightarrow> k = to_lower (f v) \<Longrightarrow> keyed_by f (AList.update k v m)"
  by (auto simp: keyed_by_def distinct_update update_conv' split: if_splits)

lemma keyed_by_delete: "keyed_by f m \<Longrightarrow> keyed_by f (AList.delete k m)"
  by (auto simp: keyed_by_def distinct_delete delete_conv' split: if_splits)

lemma insertAccepted_Inr:
  assumes "insertAcceptedNoteCommitment st c leaf = Inr st'"
  shows "\<exists>paths. st' = st\<lparr>merklePaths := paths\<rparr> \<and> (\<forall>index'. paths = Some index' \<longrightarrow>
    (\<exists>index. merklePaths st = Some index \<and> insertIndexedCommitment index c (jsint leaf) = Inr index'))"
proof (cases "merklePaths st")
  case None
  with assms show ?thesis
    by (intro exI [of _ None]) (simp add: insertAcceptedNoteCommitment_def)
next
  case (Some index)
  with assms show ?thesis
    by (auto simp: insertAcceptedNoteCommitment_def split: if_splits sum.splits)
qed

lemma ingest_note_ok:
  assumes "indexer_ok st" "ingest_note input lg st kind c n leaf note' ver = (r, st')"
  shows "indexer_ok st'"
proof (cases "insertAcceptedNoteCommitment st c leaf")
  case (Inl e)
  with assms show ?thesis by (simp add: ingest_note_def)
next
  case (Inr st1)
  then obtain paths where st1: "st1 = st\<lparr>merklePaths := paths\<rparr>" and index: "\<forall>index'. paths = Some index' \<longrightarrow>
      (\<exists>index. merklePaths st = Some index \<and> insertIndexedCommitment index c (jsint leaf) = Inr index')"
    using insertAccepted_Inr by blast
  have "index_ok index'" if "paths = Some index'" for index'
    using assms(1) index insert_ok that unfolding indexer_ok_def by blast
  with assms(1) have "indexer_ok st1"
    by (simp add: indexer_ok_def st1)
  then show ?thesis
    using assms(2) Inr
    by (auto simp: ingest_note_def addEncryptedNoteEvent_def note_record_def indexer_ok_def
        split: sum.splits if_splits)
qed

lemma apply_event_ok:
  assumes "indexer_ok st" "apply_event input lg st e = (r, st')"
  shows "indexer_ok st'"
proof (cases e)
  case (RootAccepted rt p c)
  with assms show ?thesis
    by (auto simp: indexer_ok_def keyed_by_update keyed_by_delete delete_conv' update_conv')
next
  case (RootExpired rt)
  with assms show ?thesis
    by (auto simp: indexer_ok_def position_of_def keyed_by_update keyed_by_delete delete_conv' update_conv')
next
  case (NullifierSpent n)
  with assms show ?thesis
    by (auto simp: indexer_ok_def position_of_def keyed_by_update)
qed (insert assms, auto intro: ingest_note_ok)

section \<open>What a batch of logs does\<close>

text \<open>The events of the pool among the logs, and what they say about notes, roots and nullifiers.\<close>

definition pool_log :: "ingest_input \<Rightarrow> raw_pool_log \<Rightarrow> bool" where
  "pool_log input lg \<longleftrightarrow> to_lower (pl_address lg) = to_lower (in_pool input)"

fun event_notes :: "ingest_input \<Rightarrow> raw_pool_log \<Rightarrow> pool_event \<Rightarrow> note_event list" where
  "event_notes input lg (DepositNoteCreated c leaf n ver) = [note_record input lg DepositEvent c None leaf n ver]"
| "event_notes input lg (PrivateTransferNoteCreated c nf leaf n ver) =
     [note_record input lg PrivateTransferEvent c (Some nf) leaf n ver]"
| "event_notes input lg (WithdrawalOutputNoteCreated c nf leaf g n ver) =
     [note_record input lg WithdrawOutputEvent c (Some nf) leaf n ver]"
| "event_notes input lg (WithdrawalChangeNoteCreated c nf leaf g n ver) =
     [note_record input lg WithdrawChangeEvent c (Some nf) leaf n ver]"
| "event_notes input lg _ = []"

datatype root_status = NeverSeen | AcceptedRoot | ExpiredRoot

definition status_of :: "indexer_state \<Rightarrow> string \<Rightarrow> root_status" where
  "status_of st k = (if map_of (st_roots st) k \<noteq> None then AcceptedRoot
     else if map_of (expiredRoots st) k \<noteq> None then ExpiredRoot else NeverSeen)"

fun status_step :: "string \<Rightarrow> root_status \<Rightarrow> pool_event \<Rightarrow> root_status" where
  "status_step k s (RootAccepted r p c) = (if to_lower r = k then AcceptedRoot else s)"
| "status_step k s (RootExpired r) = (if to_lower r = k then ExpiredRoot else s)"
| "status_step k s _ = s"

fun spends :: "string \<Rightarrow> pool_event \<Rightarrow> bool" where
  "spends k (NullifierSpent n) = (to_lower n = k)"
| "spends k _ = False"

definition batch_events :: "event_decoder \<Rightarrow> ingest_input \<Rightarrow> raw_pool_log list \<Rightarrow> (raw_pool_log \<times> pool_event) list" where
  "batch_events decode input logs =
     map (\<lambda>l. (l, the (decode (pl_topics l) (pl_data l)))) (filter (pool_log input) logs)"

lemma ingest_note_effect:
  assumes "ingest_note input lg st kind c n leaf note' ver = (r, st')"
  shows "st_roots st' = st_roots st \<and> expiredRoots st' = expiredRoots st \<and> nullifiers st' = nullifiers st \<and>
    st_ranges st' = st_ranges st \<and> note_records (encryptedNotes st') = note_records (encryptedNotes st) @
      (if r = None then [note_record input lg kind c n leaf note' ver] else [])"
proof (cases "insertAcceptedNoteCommitment st c leaf")
  case (Inl e)
  with assms show ?thesis by (auto simp: ingest_note_def)
next
  case (Inr st1)
  then obtain paths where "st1 = st\<lparr>merklePaths := paths\<rparr>"
    using insertAccepted_Inr by blast
  with assms Inr show ?thesis
    by (auto simp: ingest_note_def addEncryptedNoteEvent_def split: if_splits)
qed

definition effect_ok :: "ingest_input \<Rightarrow> raw_pool_log \<Rightarrow> pool_event \<Rightarrow> indexer_state \<Rightarrow> ingest_error option \<Rightarrow> indexer_state \<Rightarrow> bool" where
  "effect_ok input lg e st r st' \<longleftrightarrow>
     note_records (encryptedNotes st') = note_records (encryptedNotes st) @
       (if r = None then event_notes input lg e else []) \<and> st_ranges st' = st_ranges st \<and>
     (\<forall>k. status_of st' k = status_step k (status_of st k) e) \<and>
     (\<forall>k. map_of (nullifiers st') k \<noteq> None \<longleftrightarrow> map_of (nullifiers st) k \<noteq> None \<or> spends k e)"

lemma note_effect_ok:
  assumes "ingest_note input lg st kind c n leaf note' ver = (r, st')"
    "event_notes input lg e = [note_record input lg kind c n leaf note' ver]"
    "\<And>k s. status_step k s e = s" "\<And>k. \<not> spends k e"
  shows "effect_ok input lg e st r st'"
  using ingest_note_effect [OF assms(1)] assms(2-4) by (simp add: effect_ok_def status_of_def)

lemma apply_event_effect:
  assumes "apply_event input lg st e = (r, st')"
  shows "effect_ok input lg e st r st'"
proof (cases e)
  case (RootAccepted rt p c)
  with assms show ?thesis
    by (auto simp: effect_ok_def status_of_def delete_conv' update_conv' split: if_splits)
next
  case (RootExpired rt)
  with assms show ?thesis
    by (auto simp: effect_ok_def status_of_def delete_conv' update_conv' split: if_splits)
next
  case (NullifierSpent n)
  with assms show ?thesis
    by (auto simp: effect_ok_def status_of_def update_conv')
qed (insert assms, auto intro: note_effect_ok)

text \<open>A run over the logs, whether or not it fails: it has applied the events of a prefix.\<close>

definition batch_effect ::
  "ingest_input \<Rightarrow> (raw_pool_log \<times> pool_event) list \<Rightarrow> indexer_state \<Rightarrow> indexer_state \<Rightarrow> bool" where
  "batch_effect input events st st' \<longleftrightarrow>
     note_records (encryptedNotes st') = note_records (encryptedNotes st) @
       concat (map (\<lambda>(lg, e). event_notes input lg e) events) \<and> st_ranges st' = st_ranges st \<and>
     (\<forall>k. status_of st' k = foldl (status_step k) (status_of st k) (map snd events)) \<and>
     (\<forall>k. map_of (nullifiers st') k \<noteq> None \<longleftrightarrow>
        map_of (nullifiers st) k \<noteq> None \<or> list_ex (spends k) (map snd events))"

lemma ingest_logs_effect:
  assumes "ingest_logs decode input st logs = (None, st')"
  shows "batch_effect input (batch_events decode input logs) st st' \<and>
    (\<forall>l \<in> set logs. pool_log input l \<longrightarrow> decode (pl_topics l) (pl_data l) \<noteq> None)"
  using assms
proof (induction logs arbitrary: st)
  case Nil
  then show ?case by (simp add: batch_effect_def batch_events_def)
next
  case (Cons l logs)
  show ?case
  proof (cases "pool_log input l")
    case False
    with Cons show ?thesis
      by (simp add: ingest_log_def pool_log_def batch_events_def)
  next
    case True
    with Cons.prems obtain e st1 where e: "decode (pl_topics l) (pl_data l) = Some e"
      "apply_event input l st e = (None, st1)" "ingest_logs decode input st1 logs = (None, st')"
      by (auto simp: ingest_log_def pool_log_def split: option.splits prod.splits)
    from apply_event_effect [OF e(2)] Cons.IH [OF e(3)] True e(1) show ?thesis
      by (auto simp: effect_ok_def batch_effect_def batch_events_def)
  qed
qed

lemma ingest_logs_ok:
  assumes "indexer_ok st" "ingest_logs decode input st logs = (r, st')"
  shows "indexer_ok st' \<and> st_ranges st' = st_ranges st \<and>
    (\<exists>more. note_records (encryptedNotes st') = note_records (encryptedNotes st) @ more) \<and>
    (\<forall>k. map_of (nullifiers st) k \<noteq> None \<longrightarrow> map_of (nullifiers st') k \<noteq> None)"
  using assms
proof (induction logs arbitrary: st)
  case Nil
  then show ?case by simp
next
  case (Cons l logs)
  obtain r1 st1 where step: "ingest_log decode input st l = (r1, st1)" by fastforce
  have one: "indexer_ok st1 \<and> st_ranges st1 = st_ranges st \<and>
    (\<exists>more. note_records (encryptedNotes st1) = note_records (encryptedNotes st) @ more) \<and>
    (\<forall>k. map_of (nullifiers st) k \<noteq> None \<longrightarrow> map_of (nullifiers st1) k \<noteq> None)"
  proof (cases "\<exists>e. apply_event input l st e = (r1, st1)")
    case True
    then obtain e where e: "apply_event input l st e = (r1, st1)" by blast
    show ?thesis
      using apply_event_ok [OF Cons.prems(1) e] apply_event_effect [OF e] by (auto simp: effect_ok_def)
  next
    case False
    with step have "st1 = st"
      by (auto simp: ingest_log_def split: if_splits option.splits)
    with Cons.prems(1) show ?thesis by simp
  qed
  show ?case
  proof (cases r1)
    case None
    with step Cons.prems(2) have "ingest_logs decode input st1 logs = (r, st')" by simp
    with Cons.IH [of st1] one show ?thesis by auto
  next
    case (Some e)
    with step Cons.prems(2) one show ?thesis by simp
  qed
qed

section \<open>Properties\<close>

text \<open>
  C40: Ingesting logs keeps the state consistent, also when it fails in the middle: every stored note
  stays even-length hex, the Merkle index stays an index, no root is both accepted and expired, and
  the checked ranges stay merged; notes and spent nullifiers are only added. The requested range is
  marked as checked exactly when every log was ingested, so a batch that failed is scanned again.
\<close>

theorem ingest_keeps_state:
  assumes "indexer_ok st" "ingestPoolLogs decode st input = (r, st')"
  shows "indexer_ok st' \<and>
    (\<exists>more. note_records (encryptedNotes st') = note_records (encryptedNotes st) @ more) \<and>
    (\<forall>k. map_of (nullifiers st) k \<noteq> None \<longrightarrow> map_of (nullifiers st') k \<noteq> None) \<and>
    covered_by (checkedRanges (st_ranges st')) = covered_by (checkedRanges (st_ranges st)) \<union>
      (if r = None then {fromBlock (in_checkedRange input)..toBlock (in_checkedRange input)} else {})"
proof -
  obtain r1 st1 where run: "ingest_logs decode input st (in_logs input) = (r1, st1)" by fastforce
  note ok = ingest_logs_ok [OF assms(1) run]
  show ?thesis
  proof (cases "r1 = None \<and> fromBlock (in_checkedRange input) \<le> toBlock (in_checkedRange input)")
    case True
    have "merged_ranges (checkedRanges (st_ranges st1))"
      using ok unfolding indexer_ok_def by blast
    then obtain t where t: "markCheckedRange (st_ranges st1) (in_checkedRange input) = Inr t"
      "merged_ranges (checkedRanges t)"
      "covered_by (checkedRanges t) = covered_by (checkedRanges (st_ranges st1)) \<union> blocks (in_checkedRange input)"
      using tracker.mark_valid True by blast
    with True run assms(2) have "st' = st1\<lparr>st_ranges := t\<rparr>" "r = None"
      by (simp_all add: ingestPoolLogs_def)
    with ok t show ?thesis
      by (auto simp: indexer_ok_def blocks_def)
  next
    case False
    with run assms(2) have "st' = st1" "r \<noteq> None"
      by (auto simp: ingestPoolLogs_def markCheckedRange_def split: option.splits)
    with ok show ?thesis by auto
  qed
qed

text \<open>
  What a successful batch leaves is determined by the pool's events in the order of the logs:
  the note events are appended one by one, every root has the status of the last event about it
  (accepted again after it expired, or expired after it was accepted), and a nullifier is spent
  exactly when it was before or an event says so. Logs of other addresses change nothing.
\<close>

theorem ingest_follows_events:
  assumes "ingestPoolLogs decode st input = (None, st')"
  shows "(let events = batch_events decode input (in_logs input) in
    note_records (encryptedNotes st') = note_records (encryptedNotes st) @
      concat (map (\<lambda>(lg, e). event_notes input lg e) events) \<and>
    (\<forall>k. status_of st' k = foldl (status_step k) (status_of st k) (map snd events)) \<and>
    (\<forall>k. map_of (nullifiers st') k \<noteq> None \<longleftrightarrow>
       map_of (nullifiers st) k \<noteq> None \<or> list_ex (spends k) (map snd events)))"
proof -
  obtain st1 t where st1: "ingest_logs decode input st (in_logs input) = (None, st1)" "st' = st1\<lparr>st_ranges := t\<rparr>"
    using assms by (auto simp: ingestPoolLogs_def split: option.splits prod.splits sum.splits)
  then have "status_of st' k = status_of st1 k" for k
    by (simp add: status_of_def)
  with st1 show ?thesis
    using ingest_logs_effect [OF st1(1)] by (simp add: batch_effect_def Let_def)
qed

section \<open>Concrete batches\<close>

definition sample_log :: "string \<Rightarrow> int \<Rightarrow> raw_pool_log" where
  "sample_log topic block = \<lparr>pl_address = ''P'', pl_topics = [topic], pl_data = [], pl_blockNumber = block,
     pl_transactionHash = ''t'', pl_logIndex = jsint 0\<rparr>"

definition sample_decoder :: event_decoder where
  "sample_decoder topics data =
     (if topics = [''deposit''] then Some (DepositNoteCreated ''A'' 0 ''0x00'' 1)
      else if topics = [''accept''] then Some (RootAccepted ''R'' ''Q'' ''A'')
      else if topics = [''expire''] then Some (RootExpired ''R'')
      else if topics = [''spend''] then Some (NullifierSpent ''N'')
      else None)"

definition sample_batch :: "string list \<Rightarrow> ingest_input" where
  "sample_batch topics = \<lparr>in_chainId = jsint 6343, in_pool = ''p'', in_sourceRpc = [], in_observedAtMs = jsint 0,
     in_logs = map (\<lambda>t. sample_log t 7) topics, in_checkedRange = \<lparr>fromBlock = 5, toBlock = 9\<rparr>\<rparr>"

lemma lower_letters: "lower_char (CHR ''P'') = CHR ''p''" "lower_char (CHR ''p'') = CHR ''p''"
    "lower_char (CHR ''R'') = CHR ''r''" "lower_char (CHR ''N'') = CHR ''n''" "isHexString ''0x00''"
  by code_simp+

lemma sample_state_ok: "indexer_ok (createIndexerState (Some (sample_index 2)))"
  using created_ok [OF sample_index_created]
  by (simp add: indexer_ok_def createIndexerState_def createEncryptedNoteCache_def createRangeTracker_def)

lemmas batch_eval = sample_batch_def sample_log_def sample_decoder_def ingest_log_def lower_letters
  createIndexerState_def createEncryptedNoteCache_def createRangeTracker_def

text \<open>A batch that stops at a log it cannot decode keeps the note before it and marks nothing.\<close>

lemma sample_failed_batch:
  "\<exists>st'. ingestPoolLogs sample_decoder (createIndexerState (Some (sample_index 2)))
      (sample_batch [''deposit'', ''other'', ''spend'']) = (Some UndecodableLog, st') \<and>
    length (note_records (encryptedNotes st')) = 1 \<and> nullifiers st' = []"
proof -
  obtain index' where "insertIndexedCommitment (sample_index 2) ''A'' (Num 0) = Inr index'"
    by (simp add: insertIndexedCommitment_def Let_def sample_index_def sample_lower num_eq_def)
  then show ?thesis
    by (simp add: ingestPoolLogs_def batch_eval ingest_note_def insertAcceptedNoteCommitment_def
        addEncryptedNoteEvent_def note_record_def MAX_SAFE_INTEGER_def)
qed

lemma ingest_keeps_state_witness:
  "\<exists>st'. ingestPoolLogs sample_decoder (createIndexerState (Some (sample_index 2)))
      (sample_batch [''deposit'', ''other'', ''spend'']) = (Some UndecodableLog, st') \<and>
    indexer_ok st' \<and> covered_by (checkedRanges (st_ranges st')) = {}"
proof -
  obtain st' where run: "ingestPoolLogs sample_decoder (createIndexerState (Some (sample_index 2)))
      (sample_batch [''deposit'', ''other'', ''spend'']) = (Some UndecodableLog, st')"
    using sample_failed_batch by blast
  from ingest_keeps_state [OF sample_state_ok this] run show ?thesis
    by (auto simp: createIndexerState_def createRangeTracker_def)
qed

lemma ingest_follows_events_witness:
  "\<exists>st'. ingestPoolLogs sample_decoder (createIndexerState None)
      (sample_batch [''accept'', ''expire'', ''spend'', ''accept'']) = (None, st') \<and>
    status_of st' ''r'' = AcceptedRoot \<and> map_of (nullifiers st') ''n'' \<noteq> None"
proof -
  let ?input = "sample_batch [''accept'', ''expire'', ''spend'', ''accept'']"
  have "\<exists>st'. ingestPoolLogs sample_decoder (createIndexerState None) ?input = (None, st')"
    by (simp add: ingestPoolLogs_def batch_eval markCheckedRange_def Let_def)
  then obtain st' where run: "ingestPoolLogs sample_decoder (createIndexerState None) ?input = (None, st')"
    by blast
  have "map snd (batch_events sample_decoder ?input (in_logs ?input)) =
      [RootAccepted ''R'' ''Q'' ''A'', RootExpired ''R'', NullifierSpent ''N'', RootAccepted ''R'' ''Q'' ''A'']"
    by (simp add: batch_events_def pool_log_def batch_eval)
  with ingest_follows_events [OF run] run show ?thesis
    by (simp add: Let_def lower_letters)
qed

end
