(* ===== verification/Merkle_Reconstruct.thy ===== *)
theory Merkle_Reconstruct
  imports Merkle Hex
begin

text \<open>
  The SDK's reconstruction of a Merkle path from the pool's \<open>RootAccepted\<close> history,
  \<^verbatim>\<open>packages/sdk/src/merkle/reconstruct.ts\<close>: the chain check, which recomputes every accepted root
  with the incremental insertion of the contract (one stored subtree per level), the path from the
  sparse layers, and the path verifier. The field hash (Poseidon) is the parameter \<open>hash\<close>.
\<close>

definition BN254_SCALAR_FIELD :: int where
  "BN254_SCALAR_FIELD =
     21888242871839275222246405745257275088548364400416034343698204186575808495617"

datatype reconstruct_error =
    NotFieldBytes32 string
  | NotFieldElement string
  | DepthOutOfRange
  | InitializationRootMismatch
  | PreviousRootMismatch
  | HistoryExceedsCapacity
  | ComputedRootMismatch
  | NoteCommitmentNotFound
  | PathLengthMismatch
  | PathIndicesNotBits

record root_accepted_log =
  log_root :: string
  log_previousRoot :: string
  log_insertedCommitment :: string

record reconstructed_path =
  rec_commitment :: string
  rec_leafIndex :: int
  rec_root :: string
  rec_pathElements :: "string list"
  rec_pathIndices :: "int list"

definition assertFieldBytes32 :: "string \<Rightarrow> string \<Rightarrow> reconstruct_error + string" where
  "assertFieldBytes32 v label =
     (if \<not> isHexBytes32 v \<or> hex_value v \<ge> BN254_SCALAR_FIELD then Inl (NotFieldBytes32 label) else Inr v)"

definition assertFieldBigint :: "int \<Rightarrow> string \<Rightarrow> reconstruct_error + int" where
  "assertFieldBigint v label =
     (if v < 0 \<or> v \<ge> BN254_SCALAR_FIELD then Inl (NotFieldElement label) else Inr v)"

fun buildMerkleZeroHashes :: "nat \<Rightarrow> (int list \<Rightarrow> int) \<Rightarrow> reconstruct_error + int list" where
  "buildMerkleZeroHashes 0 hash = Inr [0]"
| "buildMerkleZeroHashes (Suc level) hash =
     bind_res (buildMerkleZeroHashes level hash) (\<lambda>zeroHashes.
       bind_res (assertFieldBigint (hash [zeroHashes ! level, zeroHashes ! level]) ''zeroHash'') (\<lambda>z.
         Inr (zeroHashes @ [z])))"

text \<open>\<open>array[i] ?? fallback\<close>.\<close>

definition at_or :: "'a list \<Rightarrow> nat \<Rightarrow> 'a \<Rightarrow> 'a" where
  "at_or xs i d = (if i < length xs then xs ! i else d)"

text \<open>The loop of \<open>insertLeafAndComputeRoot\<close>, \<open>fuel\<close> levels from \<open>level\<close> on.\<close>

fun insert_loop :: "(int list \<Rightarrow> int) \<Rightarrow> int list \<Rightarrow> int \<Rightarrow> nat \<Rightarrow> nat \<Rightarrow> int list \<Rightarrow> int
    \<Rightarrow> reconstruct_error + int \<times> int list" where
  "insert_loop hash zeroHashes leafIndex 0 level filledSubtrees current = Inr (current, filledSubtrees)"
| "insert_loop hash zeroHashes leafIndex (Suc fuel) level filledSubtrees current =
     (let zeroHash = at_or zeroHashes level 0 in
      if leafIndex div 2 ^ level mod 2 = 0
      then bind_res (assertFieldBigint (hash [current, zeroHash]) ''RootAccepted computed root'') (\<lambda>next_hash.
             insert_loop hash zeroHashes leafIndex fuel (Suc level) (filledSubtrees[level := current]) next_hash)
      else let left = at_or filledSubtrees level zeroHash in
        bind_res (assertFieldBigint (hash [left, current]) ''RootAccepted computed root'') (\<lambda>next_hash.
          insert_loop hash zeroHashes leafIndex fuel (Suc level) filledSubtrees next_hash))"

definition insertLeafAndComputeRoot ::
  "int \<Rightarrow> int \<Rightarrow> nat \<Rightarrow> int list \<Rightarrow> int list \<Rightarrow> (int list \<Rightarrow> int) \<Rightarrow> reconstruct_error + int \<times> int list" where
  "insertLeafAndComputeRoot leaf leafIndex depth zeroHashes filledSubtrees hash =
     insert_loop hash zeroHashes leafIndex depth 0 filledSubtrees leaf"

record chain_state =
  chain_leaves :: "string list"
  chain_filled :: "int list"
  chain_acceptedRoot :: string

definition chain_log :: "nat \<Rightarrow> (int list \<Rightarrow> int) \<Rightarrow> int list \<Rightarrow> root_accepted_log \<Rightarrow> chain_state
    \<Rightarrow> reconstruct_error + chain_state" where
  "chain_log depth hash zeroHashes lg st =
     (let initialRoot = toBytes32 (at_or zeroHashes depth 0) in
      bind_res (assertFieldBytes32 (log_root lg) ''root'') (\<lambda>root.
      bind_res (assertFieldBytes32 (log_previousRoot lg) ''previousRoot'') (\<lambda>previousRoot.
      bind_res (assertFieldBytes32 (log_insertedCommitment lg) ''insertedCommitment'') (\<lambda>insertedCommitment.
      if hex_value insertedCommitment = 0
      then (if hex_value previousRoot \<noteq> 0 \<or> to_lower root \<noteq> to_lower initialRoot
            then Inl InitializationRootMismatch
            else Inr (st\<lparr>chain_acceptedRoot := root\<rparr>))
      else if to_lower previousRoot \<noteq> to_lower (chain_acceptedRoot st) then Inl PreviousRootMismatch
      else if length (chain_leaves st) \<ge> 2 ^ depth then Inl HistoryExceedsCapacity
      else bind_res (insertLeafAndComputeRoot (hex_value insertedCommitment)
                       (int (length (chain_leaves st))) depth zeroHashes (chain_filled st) hash)
             (\<lambda>(computedRoot, filled).
               if to_lower root \<noteq> to_lower (toBytes32 computedRoot) then Inl ComputedRootMismatch
               else Inr \<lparr>chain_leaves = chain_leaves st @ [insertedCommitment], chain_filled = filled,
                         chain_acceptedRoot = root\<rparr>)))))"

fun chain_loop :: "nat \<Rightarrow> (int list \<Rightarrow> int) \<Rightarrow> int list \<Rightarrow> root_accepted_log list \<Rightarrow> chain_state
    \<Rightarrow> reconstruct_error + chain_state" where
  "chain_loop depth hash zeroHashes [] st = Inr st"
| "chain_loop depth hash zeroHashes (lg # logs) st =
     bind_res (chain_log depth hash zeroHashes lg st) (chain_loop depth hash zeroHashes logs)"

definition chain_start :: "nat \<Rightarrow> int list \<Rightarrow> chain_state" where
  "chain_start depth zeroHashes =
     \<lparr>chain_leaves = [], chain_filled = take depth zeroHashes,
      chain_acceptedRoot = toBytes32 (at_or zeroHashes depth 0)\<rparr>"

definition verifyRootAcceptedChain :: "root_accepted_log list \<Rightarrow> nat \<Rightarrow> (int list \<Rightarrow> int) \<Rightarrow> int list
    \<Rightarrow> reconstruct_error + string list \<times> string" where
  "verifyRootAcceptedChain logs depth hash zeroHashes =
     bind_res (chain_loop depth hash zeroHashes logs (chain_start depth zeroHashes))
       (\<lambda>st. Inr (chain_leaves st, chain_acceptedRoot st))"

definition map_get_or :: "('k \<times> 'v) list \<Rightarrow> 'k \<Rightarrow> 'v \<Rightarrow> 'v" where
  "map_get_or m k d = (case map_of m k of Some v \<Rightarrow> v | None \<Rightarrow> d)"

fun parents_loop :: "(int \<times> int) list \<Rightarrow> int \<Rightarrow> (int list \<Rightarrow> int) \<Rightarrow> int list \<Rightarrow> (int \<times> int) list
    \<Rightarrow> reconstruct_error + (int \<times> int) list" where
  "parents_loop layer zeroHash hash [] next_layer = Inr next_layer"
| "parents_loop layer zeroHash hash (parentIndex # rest) next_layer =
     (let left = map_get_or layer (parentIndex * 2) zeroHash;
          right = map_get_or layer (parentIndex * 2 + 1) zeroHash in
      bind_res (assertFieldBigint (hash [left, right]) ''Merkle parent'') (\<lambda>h.
        parents_loop layer zeroHash hash rest (AList.update parentIndex h next_layer)))"

definition buildNextSparseMerkleLayer :: "(int \<times> int) list \<Rightarrow> int \<Rightarrow> (int list \<Rightarrow> int)
    \<Rightarrow> reconstruct_error + (int \<times> int) list" where
  "buildNextSparseMerkleLayer layer zeroHash hash =
     parents_loop layer zeroHash hash (js_unique (map (\<lambda>e. fst e div 2) layer)) []"

fun layers_loop :: "int list \<Rightarrow> (int list \<Rightarrow> int) \<Rightarrow> nat \<Rightarrow> nat \<Rightarrow> int \<Rightarrow> (int \<times> int) list
    \<Rightarrow> reconstruct_error + string list \<times> int list \<times> (int \<times> int) list" where
  "layers_loop zeroHashes hash 0 level cursor layer = Inr ([], [], layer)"
| "layers_loop zeroHashes hash (Suc fuel) level cursor layer =
     (let zeroHash = at_or zeroHashes level 0;
          sib = map_get_or layer (js_xor cursor 1) zeroHash in
      bind_res (assertFieldBigint sib ''Merkle sibling'') (\<lambda>s.
      bind_res (buildNextSparseMerkleLayer layer zeroHash hash) (\<lambda>layer'.
      bind_res (layers_loop zeroHashes hash fuel (Suc level) (cursor div 2) layer')
        (\<lambda>(elements, bits, tp). Inr (toBytes32 s # elements, cursor mod 2 # bits, tp)))))"

definition find_leaf :: "string list \<Rightarrow> string \<Rightarrow> int" where
  "find_leaf leaves c =
     (let k = length (takeWhile (\<lambda>leaf. to_lower leaf \<noteq> to_lower c) leaves) in
      if k < length leaves then int k else - 1)"

definition leaf_layer :: "string list \<Rightarrow> (int \<times> int) list" where
  "leaf_layer leaves = map (\<lambda>i. (int i, hex_value (leaves ! i))) [0..<length leaves]"

definition reconstructMerklePathFromRootAcceptedLogs ::
  "root_accepted_log list \<Rightarrow> string \<Rightarrow> (int list \<Rightarrow> int) \<Rightarrow> jsnum \<Rightarrow> reconstruct_error + reconstructed_path" where
  "reconstructMerklePathFromRootAcceptedLogs logs note_commitment hash depth_in =
     bind_res (assertFieldBytes32 note_commitment ''commitment'') (\<lambda>commitment.
     if \<not> is_safe_integer depth_in \<or> num_le depth_in (jsint 0) \<or> num_less (jsint 32) depth_in
     then Inl DepthOutOfRange else
     let depth = nat (num_int depth_in) in
     bind_res (buildMerkleZeroHashes depth hash) (\<lambda>zeroHashes.
     bind_res (verifyRootAcceptedChain logs depth hash zeroHashes) (\<lambda>(leaves, chainRoot).
     let leafIndex = find_leaf leaves commitment in
     if leafIndex < 0 then Inl NoteCommitmentNotFound else
     if length leaves > 2 ^ depth then Inl HistoryExceedsCapacity else
     bind_res (layers_loop zeroHashes hash depth 0 leafIndex (leaf_layer leaves)) (\<lambda>(elements, bits, tp).
     bind_res (assertFieldBigint (map_get_or tp 0 (at_or zeroHashes depth 0)) ''Merkle root'') (\<lambda>r.
       Inr \<lparr>rec_commitment = commitment, rec_leafIndex = leafIndex, rec_root = toBytes32 r,
            rec_pathElements = elements, rec_pathIndices = bits\<rparr>)))))"

fun verify_loop :: "(int list \<Rightarrow> int) \<Rightarrow> int \<Rightarrow> string list \<Rightarrow> int list \<Rightarrow> reconstruct_error + int" where
  "verify_loop hash computed (element # es) (pathIndex # bs) =
     bind_res (assertFieldBytes32 element ''pathElement'') (\<lambda>el.
     if pathIndex \<noteq> 0 \<and> pathIndex \<noteq> 1 then Inl PathIndicesNotBits else
     bind_res (assertFieldBigint
         (if pathIndex = 0 then hash [computed, hex_value el] else hash [hex_value el, computed])
         ''computedRoot'') (\<lambda>c. verify_loop hash c es bs))"
| "verify_loop hash computed _ _ = Inr computed"

definition verifyMerklePath ::
  "string \<Rightarrow> string \<Rightarrow> string list \<Rightarrow> int list \<Rightarrow> (int list \<Rightarrow> int) \<Rightarrow> reconstruct_error + bool" where
  "verifyMerklePath commitment root_in elements indices hash =
     bind_res (assertFieldBytes32 commitment ''commitment'') (\<lambda>c.
     bind_res (assertFieldBytes32 root_in ''root'') (\<lambda>expectedRoot.
     if length elements \<noteq> length indices then Inl PathLengthMismatch else
     bind_res (verify_loop hash (hex_value c) elements indices) (\<lambda>computed.
       Inr (to_lower (toBytes32 computed) = to_lower expectedRoot))))"

section \<open>Field checks and zero hashes\<close>

lemma assertFieldBigint_Inr: "assertFieldBigint v l = Inr w \<longleftrightarrow> w = v \<and> 0 \<le> v \<and> v < BN254_SCALAR_FIELD"
  by (auto simp: assertFieldBigint_def)

lemma assertFieldBytes32_Inr:
  "assertFieldBytes32 v l = Inr w \<longleftrightarrow> w = v \<and> isHexBytes32 v \<and> hex_value v < BN254_SCALAR_FIELD"
  by (auto simp: assertFieldBytes32_def)

lemma field_below_2_256: "BN254_SCALAR_FIELD < 2 ^ 256"
  by (simp add: BN254_SCALAR_FIELD_def)

lemma toBytes32_field: "0 \<le> v \<Longrightarrow> v < BN254_SCALAR_FIELD \<Longrightarrow> isHexBytes32 (toBytes32 v)"
  using field_below_2_256 by (intro toBytes32_shape) auto

lemma assertFieldBytes32_toBytes32:
  "0 \<le> v \<Longrightarrow> v < BN254_SCALAR_FIELD \<Longrightarrow> assertFieldBytes32 (toBytes32 v) l = Inr (toBytes32 v)"
  by (simp add: assertFieldBytes32_Inr toBytes32_field)

abbreviation pair_hash :: "(int list \<Rightarrow> int) \<Rightarrow> int \<Rightarrow> int \<Rightarrow> int" where
  "pair_hash hash \<equiv> \<lambda>a b. hash [a, b]"

definition zeros_ok :: "(int list \<Rightarrow> int) \<Rightarrow> nat \<Rightarrow> int list \<Rightarrow> bool" where
  "zeros_ok hash depth zs \<longleftrightarrow> length zs = Suc depth \<and> (\<forall>k \<le> depth. zs ! k = zero_hash (pair_hash hash) 0 k)"

lemma zeros_ok_at: "zeros_ok hash depth zs \<Longrightarrow> k \<le> depth \<Longrightarrow> at_or zs k d = zero_hash (pair_hash hash) 0 k"
  by (simp add: zeros_ok_def at_or_def)

lemma buildMerkleZeroHashes_ok: "buildMerkleZeroHashes depth hash = Inr zs \<Longrightarrow> zeros_ok hash depth zs"
proof (induction depth arbitrary: zs)
  case 0
  then show ?case by (auto simp: zeros_ok_def)
next
  case (Suc d)
  then obtain ys where ys: "buildMerkleZeroHashes d hash = Inr ys" "zs = ys @ [hash [ys ! d, ys ! d]]"
    by (auto simp: res_simps assertFieldBigint_Inr)
  from Suc.IH [OF this(1)] this(2) show ?case
    by (auto simp: zeros_ok_def nth_append less_Suc_eq_le le_Suc_eq)
qed

section \<open>Incremental insertion computes the full tree\<close>

text \<open>The leaf function of a list of leaves: zero beyond its end.\<close>

definition leaf_fun :: "int list \<Rightarrow> int \<Rightarrow> int" where
  "leaf_fun ls p = (if 0 \<le> p \<and> p < int (length ls) then ls ! nat p else 0)"

abbreviation full_tree :: "(int list \<Rightarrow> int) \<Rightarrow> int list \<Rightarrow> nat \<Rightarrow> int \<Rightarrow> int" where
  "full_tree hash ls \<equiv> tree (pair_hash hash) (leaf_fun ls)"

lemma tree_cong:
  "(\<And>q. p * 2 ^ k \<le> q \<Longrightarrow> q < (p + 1) * 2 ^ k \<Longrightarrow> f q = g q) \<Longrightarrow> tree H f k p = tree H g k p"
proof (induction k arbitrary: p)
  case 0
  then show ?case by simp
next
  case (Suc k)
  have pos: "0 < (2::int) ^ k" by simp
  have "tree H f k (2 * p) = tree H g k (2 * p)"
    by (rule Suc.IH) (use pos in \<open>auto simp: algebra_simps intro!: Suc.prems\<close>)
  moreover have "tree H f k (2 * p + 1) = tree H g k (2 * p + 1)"
    by (rule Suc.IH) (use pos in \<open>auto simp: algebra_simps intro!: Suc.prems\<close>)
  ultimately show ?case by simp
qed

lemma full_tree_snoc_before:
  assumes "(p + 1) * 2 ^ k \<le> int (length ls)"
  shows "full_tree hash (ls @ [c]) k p = full_tree hash ls k p"
proof (rule tree_cong)
  fix q :: int
  assume "p * 2 ^ k \<le> q" "q < (p + 1) * 2 ^ k"
  with assms have "q < int (length ls)" by linarith
  then show "leaf_fun (ls @ [c]) q = leaf_fun ls q"
    by (auto simp: leaf_fun_def nth_append)
qed

lemma full_tree_beyond:
  assumes "int (length ls) \<le> p * 2 ^ k"
  shows "full_tree hash ls k p = zero_hash (pair_hash hash) 0 k"
  using assms by (intro tree_empty) (auto simp: leaf_fun_def)

text \<open>The invariant of \<open>filledSubtrees\<close> after the leaves \<open>ls\<close>.\<close>

definition frontier_ok :: "(int list \<Rightarrow> int) \<Rightarrow> nat \<Rightarrow> int list \<Rightarrow> int list \<Rightarrow> bool" where
  "frontier_ok hash depth ls filled \<longleftrightarrow> length filled = depth \<and>
     (\<forall>k < depth. odd (int (length ls) div 2 ^ k) \<longrightarrow>
        filled ! k = full_tree hash ls k (int (length ls) div 2 ^ k - 1))"

lemma frontier_empty: "length zs \<ge> depth \<Longrightarrow> frontier_ok hash depth [] (take depth zs)"
  by (simp add: frontier_ok_def)

lemma div_pow_Suc: "(n::int) div 2 ^ Suc k = n div 2 ^ k div 2"
  by (metis power_Suc2 zdiv_zmult2_eq zero_le_numeral)

lemma div_pow_bounds: "(n::int) div 2 ^ k * 2 ^ k \<le> n" "n < (n div 2 ^ k + 1) * 2 ^ k"
proof -
  have "0 < (2::int) ^ k" by simp
  then have "0 \<le> n mod 2 ^ k" "n mod 2 ^ k < 2 ^ k"
    by simp_all
  moreover have "(n div 2 ^ k + 1) * 2 ^ k = n div 2 ^ k * 2 ^ k + 2 ^ k"
    by (simp add: distrib_right)
  ultimately show "n div 2 ^ k * 2 ^ k \<le> n" "n < (n div 2 ^ k + 1) * 2 ^ k"
    using div_mult_mod_eq [of n "2 ^ k"] by linarith+
qed

text \<open>The loop from one level on: the running hash is the node above the new leaf.\<close>

lemma insert_loop_correct:
  assumes "zeros_ok hash depth zs" "level + fuel \<le> depth" "length filled = depth"
    "n = int (length ls)" "cur = full_tree hash (ls @ [c]) level (n div 2 ^ level)"
    "\<forall>k. level \<le> k \<and> k < depth \<and> odd (n div 2 ^ k) \<longrightarrow> filled ! k = full_tree hash ls k (n div 2 ^ k - 1)"
    "insert_loop hash zs n fuel level filled cur = Inr (res, filled')"
  shows "res = full_tree hash (ls @ [c]) (level + fuel) (n div 2 ^ (level + fuel)) \<and>
    length filled' = depth \<and>
    (\<forall>k < depth. filled' ! k =
       (if level \<le> k \<and> k < level + fuel \<and> even (n div 2 ^ k)
        then full_tree hash (ls @ [c]) k (n div 2 ^ k) else filled ! k))"
  using assms
proof (induction fuel arbitrary: level filled cur)
  case 0
  then show ?case by auto
next
  case (Suc fuel)
  define p where "p = n div 2 ^ level"
  have half: "n div 2 ^ Suc level = p div 2"
    by (simp only: div_pow_Suc p_def)
  note bounds = div_pow_bounds [of n level, folded p_def]
  have z: "at_or zs level 0 = zero_hash (pair_hash hash) 0 level"
    using Suc.prems(1,2) by (intro zeros_ok_at) auto
  show ?case
  proof (cases "even p")
    case True
    define nx where "nx = hash [cur, at_or zs level 0]"
    have run: "insert_loop hash zs n fuel (Suc level) (filled[level := cur]) nx = Inr (res, filled')"
      using Suc.prems(7) True
      by (auto simp: p_def [symmetric] nx_def Let_def res_simps assertFieldBigint_Inr even_iff_mod_2_eq_zero)
    have "2 * (p div 2) = p"
      using True by simp
    moreover have "full_tree hash (ls @ [c]) level (p + 1) = zero_hash (pair_hash hash) 0 level"
      using bounds(2) Suc.prems(4) by (intro full_tree_beyond) simp
    ultimately have nx: "nx = full_tree hash (ls @ [c]) (Suc level) (n div 2 ^ Suc level)"
      using Suc.prems(5) z half by (simp add: nx_def p_def)
    have keep: "\<forall>k. Suc level \<le> k \<and> k < depth \<and> odd (n div 2 ^ k) \<longrightarrow>
        filled[level := cur] ! k = full_tree hash ls k (n div 2 ^ k - 1)"
      using Suc.prems(6) by simp
    have ih: "res = full_tree hash (ls @ [c]) (Suc level + fuel) (n div 2 ^ (Suc level + fuel)) \<and>
        length filled' = depth \<and> (\<forall>k < depth. filled' ! k =
         (if Suc level \<le> k \<and> k < Suc level + fuel \<and> even (n div 2 ^ k)
          then full_tree hash (ls @ [c]) k (n div 2 ^ k) else filled[level := cur] ! k))"
      by (rule Suc.IH [OF Suc.prems(1) _ _ Suc.prems(4) nx keep run]) (use Suc.prems in simp_all)
    have "filled' ! k = (if level \<le> k \<and> k < level + Suc fuel \<and> even (n div 2 ^ k)
          then full_tree hash (ls @ [c]) k (n div 2 ^ k) else filled ! k)" if "k < depth" for k
      using ih that True Suc.prems(3,5) by (cases "k = level") (auto simp: p_def)
    with ih show ?thesis by simp
  next
    case False
    define nx where "nx = hash [at_or filled level (at_or zs level 0), cur]"
    have run: "insert_loop hash zs n fuel (Suc level) filled nx = Inr (res, filled')"
      using Suc.prems(7) False
      by (auto simp: p_def [symmetric] nx_def Let_def res_simps assertFieldBigint_Inr even_iff_mod_2_eq_zero)
    have lev: "level < depth"
      using Suc.prems(2) by simp
    have "at_or filled level (at_or zs level 0) = full_tree hash ls level (p - 1)"
      using Suc.prems(3,6) lev False by (simp add: at_or_def p_def)
    also have "\<dots> = full_tree hash (ls @ [c]) level (p - 1)"
      using bounds(1) Suc.prems(4) by (simp add: full_tree_snoc_before)
    finally have left: "at_or filled level (at_or zs level 0) = full_tree hash (ls @ [c]) level (p - 1)" .
    have "2 * (p div 2) = p - 1" "2 * (p div 2) + 1 = p"
      using False by (auto elim!: oddE)
    with left have nx: "nx = full_tree hash (ls @ [c]) (Suc level) (n div 2 ^ Suc level)"
      using Suc.prems(5) half by (simp add: nx_def p_def)
    have ih: "res = full_tree hash (ls @ [c]) (Suc level + fuel) (n div 2 ^ (Suc level + fuel)) \<and>
        length filled' = depth \<and> (\<forall>k < depth. filled' ! k =
         (if Suc level \<le> k \<and> k < Suc level + fuel \<and> even (n div 2 ^ k)
          then full_tree hash (ls @ [c]) k (n div 2 ^ k) else filled ! k))"
      by (rule Suc.IH [OF Suc.prems(1) _ Suc.prems(3,4) nx _ run]) (use Suc.prems in simp_all)
    have "filled' ! k = (if level \<le> k \<and> k < level + Suc fuel \<and> even (n div 2 ^ k)
          then full_tree hash (ls @ [c]) k (n div 2 ^ k) else filled ! k)" if "k < depth" for k
      using ih that False by (cases "k = level") (auto simp: p_def)
    with ih show ?thesis by simp
  qed
qed

lemma insert_preserves_frontier:
  assumes "zeros_ok hash depth zs" "frontier_ok hash depth ls filled"
    "insertLeafAndComputeRoot c (int (length ls)) depth zs filled hash = Inr (res, filled')"
  shows "res = full_tree hash (ls @ [c]) depth (int (length ls) div 2 ^ depth) \<and>
    frontier_ok hash depth (ls @ [c]) filled'"
proof -
  define n where "n = int (length ls)"
  have loop: "insert_loop hash zs n depth 0 filled c = Inr (res, filled')"
    using assms(3) by (simp add: insertLeafAndComputeRoot_def n_def)
  have leaf: "c = full_tree hash (ls @ [c]) 0 (n div 2 ^ 0)"
    by (simp add: leaf_fun_def n_def)
  have filled: "length filled = depth"
    "\<forall>k. 0 \<le> k \<and> k < depth \<and> odd (n div 2 ^ k) \<longrightarrow> filled ! k = full_tree hash ls k (n div 2 ^ k - 1)"
    using assms(2) by (auto simp: frontier_ok_def n_def)
  have res: "res = full_tree hash (ls @ [c]) depth (n div 2 ^ depth)" "length filled' = depth"
    "\<And>k. k < depth \<Longrightarrow> filled' ! k =
       (if even (n div 2 ^ k) then full_tree hash (ls @ [c]) k (n div 2 ^ k) else filled ! k)"
    using insert_loop_correct [OF assms(1) _ filled(1) n_def leaf filled(2) loop] by auto
  have "filled' ! k = full_tree hash (ls @ [c]) k ((n + 1) div 2 ^ k - 1)"
    if k: "k < depth" "odd ((n + 1) div 2 ^ k)" for k
  proof -
    have le: "n div 2 ^ k \<le> (n + 1) div 2 ^ k" "(n + 1) div 2 ^ k \<le> n div 2 ^ k + 1"
    proof -
      show "n div 2 ^ k \<le> (n + 1) div 2 ^ k"
        by (intro zdiv_mono1) simp_all
      have "n + 1 < (n div 2 ^ k + 2) * 2 ^ k"
      proof -
        have "1 \<le> (2::int) ^ k" by simp
        with div_pow_bounds(2) [of n k] show ?thesis
          unfolding distrib_right by linarith
      qed
      then have "(n + 1) div 2 ^ k < n div 2 ^ k + 2"
        by (metis div_pow_bounds(1) le_less_trans mult_less_cancel_right_pos zero_less_numeral zero_less_power)
      then show "(n + 1) div 2 ^ k \<le> n div 2 ^ k + 1" by simp
    qed
    show ?thesis
    proof (cases "even (n div 2 ^ k)")
      case True
      then have "(n + 1) div 2 ^ k = n div 2 ^ k + 1"
        using le k(2) by (metis add.commute zle_add1_eq_le order_antisym not_less)
      then show ?thesis
        using res(3) [OF k(1)] True by simp
    next
      case False
      have "(n + 1) div 2 ^ k \<noteq> n div 2 ^ k + 1"
        using False k(2) by auto
      then have eq: "(n + 1) div 2 ^ k = n div 2 ^ k"
        using le by linarith
      have "filled' ! k = full_tree hash ls k (n div 2 ^ k - 1)"
        using res(3) [OF k(1)] False filled(2) k(1) by simp
      also have "\<dots> = full_tree hash (ls @ [c]) k (n div 2 ^ k - 1)"
        using div_pow_bounds(1) [of n k] by (simp add: full_tree_snoc_before n_def)
      finally show ?thesis
        by (simp only: eq)
    qed
  qed
  then have "frontier_ok hash depth (ls @ [c]) filled'"
    using res(2) by (simp add: frontier_ok_def n_def add.commute)
  with res(1) show ?thesis
    by (simp add: n_def)
qed

section \<open>The chain check\<close>

definition leaf_values :: "string list \<Rightarrow> int list" where
  "leaf_values = map hex_value"

text \<open>
  What holds of the state of the chain check: the leaves are field elements, the stored subtrees
  are the frontier of the tree over them.
\<close>

definition chain_ok :: "(int list \<Rightarrow> int) \<Rightarrow> nat \<Rightarrow> chain_state \<Rightarrow> bool" where
  "chain_ok hash depth st \<longleftrightarrow>
     frontier_ok hash depth (leaf_values (chain_leaves st)) (chain_filled st) \<and>
     length (chain_leaves st) \<le> 2 ^ depth \<and>
     (\<forall>l \<in> set (chain_leaves st). isHexBytes32 l \<and> hex_value l < BN254_SCALAR_FIELD)"

lemma chain_start_ok: "zeros_ok hash depth zs \<Longrightarrow> chain_ok hash depth (chain_start depth zs)"
  by (simp add: chain_ok_def chain_start_def leaf_values_def frontier_empty zeros_ok_def)

lemma chain_log_cases:
  assumes "chain_log depth hash zs lg st = Inr st'"
  obtains (init) "hex_value (log_insertedCommitment lg) = 0" "hex_value (log_previousRoot lg) = 0"
      "to_lower (log_root lg) = to_lower (toBytes32 (at_or zs depth 0))"
      "st' = st\<lparr>chain_acceptedRoot := log_root lg\<rparr>"
    | (leaf) computed filled where "hex_value (log_insertedCommitment lg) \<noteq> 0"
      "isHexBytes32 (log_insertedCommitment lg)" "hex_value (log_insertedCommitment lg) < BN254_SCALAR_FIELD"
      "to_lower (log_previousRoot lg) = to_lower (chain_acceptedRoot st)"
      "length (chain_leaves st) < 2 ^ depth"
      "insertLeafAndComputeRoot (hex_value (log_insertedCommitment lg)) (int (length (chain_leaves st)))
         depth zs (chain_filled st) hash = Inr (computed, filled)"
      "to_lower (log_root lg) = to_lower (toBytes32 computed)"
      "st' = \<lparr>chain_leaves = chain_leaves st @ [log_insertedCommitment lg], chain_filled = filled,
              chain_acceptedRoot = log_root lg\<rparr>"
  using assms
  by (auto simp: chain_log_def Let_def res_simps assertFieldBytes32_Inr split: if_splits)

lemma chain_log_ok:
  assumes "zeros_ok hash depth zs" "chain_ok hash depth st" "chain_log depth hash zs lg st = Inr st'"
  shows "chain_ok hash depth st' \<and>
    (hex_value (log_insertedCommitment lg) \<noteq> 0 \<longrightarrow>
       chain_leaves st' = chain_leaves st @ [log_insertedCommitment lg] \<and>
       to_lower (log_root lg) =
         to_lower (toBytes32 (full_tree hash (leaf_values (chain_leaves st')) depth 0)))"
  using assms(3)
proof (cases rule: chain_log_cases)
  case init
  with assms(2) show ?thesis by (simp add: chain_ok_def)
next
  case (leaf computed filled)
  have "int (length (chain_leaves st)) < 2 ^ depth"
    using leaf(5) by (metis of_nat_less_iff of_nat_numeral of_nat_power)
  then have "int (length (chain_leaves st)) div 2 ^ depth = 0"
    by (simp add: div_pos_pos_trivial)
  moreover have "frontier_ok hash depth (leaf_values (chain_leaves st)) (chain_filled st)"
    using assms(2) by (simp add: chain_ok_def)
  moreover have len: "length (leaf_values (chain_leaves st)) = length (chain_leaves st)"
    by (simp add: leaf_values_def)
  ultimately have "computed = full_tree hash (leaf_values (chain_leaves st) @ [hex_value (log_insertedCommitment lg)]) depth 0"
    "frontier_ok hash depth (leaf_values (chain_leaves st) @ [hex_value (log_insertedCommitment lg)]) filled"
    using insert_preserves_frontier [OF assms(1), of "leaf_values (chain_leaves st)"] leaf(6) by auto
  then show ?thesis
    using leaf assms(2) by (auto simp: chain_ok_def leaf_values_def)
qed

lemma chain_loop_ok:
  assumes "zeros_ok hash depth zs" "chain_ok hash depth st" "chain_loop depth hash zs lgs st = Inr st'"
  shows "chain_ok hash depth st' \<and>
    chain_leaves st' = chain_leaves st @
      map log_insertedCommitment (filter (\<lambda>lg. hex_value (log_insertedCommitment lg) \<noteq> 0) lgs)"
  using assms(2,3)
proof (induction lgs arbitrary: st)
  case Nil
  then show ?case by simp
next
  case (Cons lg lgs)
  then obtain st1 where st1: "chain_log depth hash zs lg st = Inr st1"
    and loop: "chain_loop depth hash zs lgs st1 = Inr st'"
    by (auto simp: res_simps)
  have "hex_value (log_insertedCommitment lg) = 0 \<Longrightarrow> chain_leaves st1 = chain_leaves st"
    using st1 by (cases rule: chain_log_cases) auto
  with chain_log_ok [OF assms(1) Cons.prems(1) st1] Cons.IH [OF _ loop] show ?case by auto
qed

lemma chain_loop_append:
  "chain_loop depth hash zs (xs @ ys) st =
     bind_res (chain_loop depth hash zs xs st) (chain_loop depth hash zs ys)"
  by (induction xs arbitrary: st) (auto simp: bind_res_def split: sum.splits)

section \<open>The sparse layers\<close>

definition in_field :: "int \<Rightarrow> bool" where
  "in_field v \<longleftrightarrow> 0 \<le> v \<and> v < BN254_SCALAR_FIELD"

lemma in_field_check: "assertFieldBigint v l = Inr w \<longleftrightarrow> w = v \<and> in_field v"
  by (auto simp: assertFieldBigint_Inr in_field_def)

definition layer_ok :: "(int list \<Rightarrow> int) \<Rightarrow> int list \<Rightarrow> nat \<Rightarrow> (int \<times> int) list \<Rightarrow> bool" where
  "layer_ok hash ls k layer \<longleftrightarrow>
     (\<forall>p. map_get_or layer p (zero_hash (pair_hash hash) 0 k) = full_tree hash ls k p) \<and>
     (\<forall>p v. map_of layer p = Some v \<longrightarrow> in_field v)"

lemma parents_loop_Inr:
  "parents_loop layer z hash ps nx = Inr nx' \<Longrightarrow>
     map_of nx' p = (if p \<in> set ps
       then Some (hash [map_get_or layer (p * 2) z, map_get_or layer (p * 2 + 1) z]) else map_of nx p) \<and>
     (p \<in> set ps \<longrightarrow> in_field (hash [map_get_or layer (p * 2) z, map_get_or layer (p * 2 + 1) z]))"
proof (induction ps arbitrary: nx)
  case Nil
  then show ?case by simp
next
  case (Cons q ps)
  let ?h = "hash [map_get_or layer (q * 2) z, map_get_or layer (q * 2 + 1) z]"
  have "in_field ?h" "parents_loop layer z hash ps (AList.update q ?h nx) = Inr nx'"
    using Cons.prems by (auto simp: res_simps in_field_check Let_def)
  from Cons.IH [OF this(2)] this(1) show ?case
    by (cases "p = q") auto
qed

lemma map_get_or_None: "map_of m k = None \<Longrightarrow> map_get_or m k d = d"
  by (simp add: map_get_or_def)

lemma next_layer_ok:
  assumes "layer_ok hash ls k layer"
    "buildNextSparseMerkleLayer layer (zero_hash (pair_hash hash) 0 k) hash = Inr layer'"
  shows "layer_ok hash ls (Suc k) layer'"
    and "q \<in> fst ` set layer \<Longrightarrow> q div 2 \<in> fst ` set layer'"
proof -
  let ?z = "zero_hash (pair_hash hash) 0 k"
  let ?ps = "js_unique (map (\<lambda>e. fst e div 2) layer)"
  have loop: "parents_loop layer ?z hash ?ps [] = Inr layer'"
    using assms(2) by (simp add: buildNextSparseMerkleLayer_def)
  have val: "map_get_or layer (p * 2) ?z = full_tree hash ls k (2 * p)"
    "map_get_or layer (p * 2 + 1) ?z = full_tree hash ls k (2 * p + 1)" for p
    using assms(1) by (simp_all add: layer_ok_def mult.commute)
  have get: "map_of layer' p = (if p \<in> set ?ps then Some (full_tree hash ls (Suc k) p) else None)"
    "p \<in> set ?ps \<Longrightarrow> in_field (full_tree hash ls (Suc k) p)" for p
    using parents_loop_Inr [OF loop, of p] by (auto simp: val)
  have empty: "full_tree hash ls (Suc k) p = zero_hash (pair_hash hash) 0 (Suc k)" if "p \<notin> set ?ps" for p
  proof -
    have "p * 2 \<notin> fst ` set layer" "p * 2 + 1 \<notin> fst ` set layer"
      using that by force+
    then have "map_of layer (p * 2) = None" "map_of layer (p * 2 + 1) = None"
      by (simp_all add: map_of_eq_None_iff)
    then show ?thesis
      using val [of p] by (simp add: map_get_or_None)
  qed
  have "map_get_or layer' p (zero_hash (pair_hash hash) 0 (Suc k)) = full_tree hash ls (Suc k) p" for p
    using get(1) [of p] empty [of p] unfolding map_get_or_def by (cases "p \<in> set ?ps") simp_all
  moreover have "map_of layer' p = Some v \<Longrightarrow> in_field v" for p v
    using get [of p] by (simp split: if_splits)
  ultimately show "layer_ok hash ls (Suc k) layer'"
    unfolding layer_ok_def by blast
  show "q div 2 \<in> fst ` set layer'" if "q \<in> fst ` set layer"
  proof -
    have "q div 2 \<in> set ?ps"
      using that by force
    with get(1) [of "q div 2"] have "map_of layer' (q div 2) \<noteq> None" by simp
    then show ?thesis
      by (simp add: map_of_eq_None_iff)
  qed
qed

lemma layer_ok_member:
  assumes "layer_ok hash ls k layer" "q \<in> fst ` set layer"
  shows "in_field (full_tree hash ls k q)"
proof -
  obtain v where "map_of layer q = Some v"
    using assms(2) dom_map_of_set [of layer q] by auto
  moreover from this have "full_tree hash ls k q = v"
    using assms(1) unfolding layer_ok_def map_get_or_def by (metis option.simps(5))
  ultimately show ?thesis
    using assms(1) unfolding layer_ok_def by blast
qed

text \<open>The tree over the inserted leaves is a family of node hashes.\<close>

definition history_node :: "(int list \<Rightarrow> int) \<Rightarrow> string list \<Rightarrow> nat \<Rightarrow> int \<Rightarrow> int" where
  "history_node hash leaves = full_tree hash (leaf_values leaves)"

interpretation history: merkle_nodes "pair_hash hash" "history_node hash leaves" d for hash leaves d
  by unfold_locales (simp add: history_node_def)

lemma layers_loop_correct:
  assumes "zeros_ok hash depth zs" "level + fuel \<le> depth" "layer_ok hash (leaf_values leaves) level layer"
    "cursor \<in> fst ` set layer" "0 \<le> cursor" "cursor < 2 ^ 31"
    "layers_loop zs hash fuel level cursor layer = Inr (es, bs, tp)"
  shows "verify_loop hash (history_node hash leaves level cursor) es bs =
      Inr (history_node hash leaves (level + fuel) (cursor div 2 ^ fuel)) \<and>
    es = map toBytes32 (path_siblings (\<lambda>j. history_node hash leaves (level + j)) fuel cursor) \<and>
    bs = path_bits fuel cursor \<and> layer_ok hash (leaf_values leaves) (level + fuel) tp \<and>
    cursor div 2 ^ fuel \<in> fst ` set tp"
  using assms
proof (induction fuel arbitrary: level cursor layer es bs)
  case 0
  then show ?case by (simp add: path_siblings_def path_bits_def)
next
  case (Suc fuel)
  have z: "at_or zs level 0 = zero_hash (pair_hash hash) 0 level"
    using Suc.prems(1,2) by (intro zeros_ok_at) auto
  define s where "s = history_node hash leaves level (sibling cursor)"
  have sib: "map_get_or layer (js_xor cursor 1) (zero_hash (pair_hash hash) 0 level) = s"
    using Suc.prems(3,5,6) by (simp add: js_xor_1 layer_ok_def s_def history_node_def)
  obtain layer' es' bs' where fs: "in_field s"
    and nx: "buildNextSparseMerkleLayer layer (zero_hash (pair_hash hash) 0 level) hash = Inr layer'"
    and run: "layers_loop zs hash fuel (Suc level) (cursor div 2) layer' = Inr (es', bs', tp)"
    and es: "es = toBytes32 s # es'" "bs = cursor mod 2 # bs'"
    using Suc.prems(7) unfolding layers_loop.simps Let_def z sib
    by (auto simp: res_simps in_field_check)
  note layer' = next_layer_ok [OF Suc.prems(3) nx]
  have half: "0 \<le> cursor div 2" "cursor div 2 < 2 ^ 31" "cursor div 2 div 2 ^ fuel = cursor div 2 ^ Suc fuel"
    using Suc.prems(5,6) by (auto simp: pos_imp_zdiv_nonneg_iff zdiv_zmult2_eq)
  have ih: "verify_loop hash (history_node hash leaves (Suc level) (cursor div 2)) es' bs' =
      Inr (history_node hash leaves (Suc level + fuel) (cursor div 2 div 2 ^ fuel)) \<and>
    es' = map toBytes32 (path_siblings (\<lambda>j. history_node hash leaves (Suc level + j)) fuel (cursor div 2)) \<and>
    bs' = path_bits fuel (cursor div 2) \<and> layer_ok hash (leaf_values leaves) (Suc level + fuel) tp \<and>
    cursor div 2 div 2 ^ fuel \<in> fst ` set tp"
    by (rule Suc.IH [OF Suc.prems(1) _ layer'(1) layer'(2) half(1,2) run])
      (use Suc.prems(2,4) in simp_all)
  have parent: "in_field (history_node hash leaves (Suc level) (cursor div 2))"
    using layer_ok_member [OF layer'(1) layer'(2)] Suc.prems(4) by (simp add: history_node_def)
  have node: "history_node hash leaves (Suc level) (cursor div 2) =
      (if cursor mod 2 = 0 then hash [history_node hash leaves level cursor, s]
       else hash [s, history_node hash leaves level cursor])"
    using history.node_parent [of level depth hash leaves cursor] Suc.prems(2) by (simp add: s_def)
  have vl: "verify_loop hash (history_node hash leaves level cursor) es bs =
      verify_loop hash (history_node hash leaves (Suc level) (cursor div 2)) es' bs'"
    using fs parent unfolding es node
    by (auto simp: assertFieldBytes32_toBytes32 in_field_def assertFieldBigint_def split: if_splits)
  note ihs = ih [unfolded half(3)]
  note verified = conjunct1 [OF ihs]
  show ?case
    unfolding vl verified using conjunct2 [OF ihs] es
    by (simp add: path_siblings_Suc path_bits_Suc s_def del: power_Suc)
qed

lemma leaf_layer_ok:
  assumes "\<forall>l \<in> set leaves. isHexBytes32 l \<and> hex_value l < BN254_SCALAR_FIELD"
  shows "layer_ok hash (leaf_values leaves) 0 (leaf_layer leaves)"
    and "fst ` set (leaf_layer leaves) = {0..<int (length leaves)}"
proof -
  have get: "map_of (leaf_layer leaves) p =
      (if 0 \<le> p \<and> p < int (length leaves) then Some (hex_value (leaves ! nat p)) else None)" for p
  proof (cases "0 \<le> p \<and> p < int (length leaves)")
    case True
    then have "(p, hex_value (leaves ! nat p)) \<in> set (leaf_layer leaves)"
      by (auto simp: leaf_layer_def image_iff intro!: bexI [of _ "nat p"])
    moreover have "distinct (map fst (leaf_layer leaves))"
      by (simp add: leaf_layer_def comp_def distinct_map inj_on_def)
    ultimately show ?thesis
      using True by simp
  next
    case False
    then have "p \<notin> fst ` set (leaf_layer leaves)"
      by (auto simp: leaf_layer_def)
    then show ?thesis
      unfolding if_not_P [OF False] by (simp add: map_of_eq_None_iff)
  qed
  have "in_field (hex_value (leaves ! nat p))" if "0 \<le> p" "p < int (length leaves)" for p
    using assms that by (simp add: in_field_def nat_less_iff)
  then show "layer_ok hash (leaf_values leaves) 0 (leaf_layer leaves)"
    by (auto simp: layer_ok_def map_get_or_def get leaf_fun_def leaf_values_def nat_less_iff)
  have "p \<in> fst ` set (leaf_layer leaves) \<longleftrightarrow> 0 \<le> p \<and> p < int (length leaves)" for p
    using get [of p] map_of_eq_None_iff [of "leaf_layer leaves" p] by (simp split: if_splits)
  then show "fst ` set (leaf_layer leaves) = {0..<int (length leaves)}"
    by (intro set_eqI) (simp only: atLeastLessThan_iff)
qed

lemma find_leaf_correct:
  assumes "0 \<le> find_leaf leaves c"
  shows "find_leaf leaves c < int (length leaves)" "to_lower (leaves ! nat (find_leaf leaves c)) = to_lower c"
    "\<forall>j < nat (find_leaf leaves c). to_lower (leaves ! j) \<noteq> to_lower c"
proof -
  define k where "k = length (takeWhile (\<lambda>leaf. to_lower leaf \<noteq> to_lower c) leaves)"
  have k: "find_leaf leaves c = int k" "k < length leaves"
    using assms by (auto simp: find_leaf_def k_def [symmetric] Let_def split: if_splits)
  then show "find_leaf leaves c < int (length leaves)" by simp
  show "to_lower (leaves ! nat (find_leaf leaves c)) = to_lower c"
    using nth_length_takeWhile [of "\<lambda>leaf. to_lower leaf \<noteq> to_lower c" leaves] k by (simp add: k_def [symmetric])
  show "\<forall>j < nat (find_leaf leaves c). to_lower (leaves ! j) \<noteq> to_lower c"
  proof (intro allI impI)
    fix j assume "j < nat (find_leaf leaves c)"
    then have j: "j < k" by (simp add: k)
    then have "takeWhile (\<lambda>leaf. to_lower leaf \<noteq> to_lower c) leaves ! j = leaves ! j"
      by (simp add: k_def takeWhile_nth)
    with j nth_mem [of j "takeWhile (\<lambda>leaf. to_lower leaf \<noteq> to_lower c) leaves"]
    show "to_lower (leaves ! j) \<noteq> to_lower c"
      using set_takeWhileD by (fastforce simp: k_def)
  qed
qed

definition inserted_leaves :: "root_accepted_log list \<Rightarrow> string list" where
  "inserted_leaves lgs =
     map log_insertedCommitment (filter (\<lambda>lg. hex_value (log_insertedCommitment lg) \<noteq> 0) lgs)"

lemma inserted_leaves_append [simp]: "inserted_leaves (xs @ ys) = inserted_leaves xs @ inserted_leaves ys"
  by (simp add: inserted_leaves_def)

lemma length_inserted_leaves: "length (inserted_leaves lgs) \<le> length lgs"
  by (simp add: inserted_leaves_def)

lemma chain_Inr:
  assumes "zeros_ok hash depth zs" "verifyRootAcceptedChain lgs depth hash zs = Inr (leaves, accepted)"
  obtains st where "chain_loop depth hash zs lgs (chain_start depth zs) = Inr st" "chain_ok hash depth st"
    "chain_leaves st = leaves" "leaves = inserted_leaves lgs" "chain_acceptedRoot st = accepted"
proof -
  obtain st where st: "chain_loop depth hash zs lgs (chain_start depth zs) = Inr st"
    "chain_leaves st = leaves" "chain_acceptedRoot st = accepted"
    using assms(2) by (auto simp: verifyRootAcceptedChain_def res_simps)
  from chain_loop_ok [OF assms(1) chain_start_ok [OF assms(1)] st(1)] st show thesis
    by (intro that) (auto simp: chain_start_def inserted_leaves_def)
qed

lemma reconstruct_Inr:
  assumes "reconstructMerklePathFromRootAcceptedLogs lgs c hash d = Inr p" "length lgs \<le> 2 ^ 31"
  obtains depth zs accepted where "d = jsint (int depth)" "0 < depth" "depth \<le> 32"
    "buildMerkleZeroHashes depth hash = Inr zs"
    "verifyRootAcceptedChain lgs depth hash zs = Inr (inserted_leaves lgs, accepted)"
    "0 \<le> rec_leafIndex p" "rec_leafIndex p = find_leaf (inserted_leaves lgs) c"
    "rec_commitment p = c" "isHexBytes32 c" "hex_value c < BN254_SCALAR_FIELD"
    "in_field (history_node hash (inserted_leaves lgs) depth 0)"
    "rec_root p = toBytes32 (history_node hash (inserted_leaves lgs) depth 0)"
    "verify_loop hash (history_node hash (inserted_leaves lgs) 0 (rec_leafIndex p))
       (rec_pathElements p) (rec_pathIndices p) = Inr (history_node hash (inserted_leaves lgs) depth 0)"
    "length (rec_pathElements p) = depth" "rec_pathIndices p = path_bits depth (rec_leafIndex p)"
proof -
  define depth where "depth = nat (num_int d)"
  have c: "isHexBytes32 c" "hex_value c < BN254_SCALAR_FIELD"
    and d: "is_safe_integer d" "\<not> num_le d (jsint 0)" "\<not> num_less (jsint 32) d"
    using assms(1) by (auto simp: reconstructMerklePathFromRootAcceptedLogs_def res_simps assertFieldBytes32_Inr)
  obtain i where i: "d = jsint i" "num_int d = i"
    using d(1) by (rule is_safe_integerE)
  have range: "0 < i" "i \<le> 32"
    using d(2,3) num_cmp_jsint(2) [of i 0] num_cmp_jsint(1) [of 32 i] by (auto simp: i(1))
  then have depth: "d = jsint (int depth)" "0 < depth" "depth \<le> 32"
    by (simp_all add: depth_def i)
  obtain zs leaves accepted es bs tp r where zs: "buildMerkleZeroHashes depth hash = Inr zs"
    and ch: "verifyRootAcceptedChain lgs depth hash zs = Inr (leaves, accepted)"
    and idx: "0 \<le> find_leaf leaves c" "length leaves \<le> 2 ^ depth"
    and loop: "layers_loop zs hash depth 0 (find_leaf leaves c) (leaf_layer leaves) = Inr (es, bs, tp)"
    and r: "assertFieldBigint (map_get_or tp 0 (at_or zs depth 0)) ''Merkle root'' = Inr r"
    and p: "p = \<lparr>rec_commitment = c, rec_leafIndex = find_leaf leaves c, rec_root = toBytes32 r,
            rec_pathElements = es, rec_pathIndices = bs\<rparr>"
    using assms(1) unfolding reconstructMerklePathFromRootAcceptedLogs_def depth_def [symmetric]
    by (auto simp: res_simps assertFieldBytes32_Inr Let_def not_less)
  have zok: "zeros_ok hash depth zs"
    using zs by (rule buildMerkleZeroHashes_ok)
  obtain st where st: "chain_ok hash depth st" "chain_leaves st = leaves" "leaves = inserted_leaves lgs"
    using chain_Inr [OF zok ch] by blast
  then have leaves: "\<forall>l \<in> set leaves. isHexBytes32 l \<and> hex_value l < BN254_SCALAR_FIELD"
    by (simp add: chain_ok_def)
  have small: "find_leaf leaves c < 2 ^ 31" "find_leaf leaves c < 2 ^ depth"
  proof -
    have "find_leaf leaves c < int (length leaves)"
      using idx(1) by (rule find_leaf_correct)
    moreover have "length leaves \<le> 2 ^ 31"
      using length_inserted_leaves [of lgs] assms(2) st(3) by simp
    then have "int (length leaves) \<le> 2 ^ 31"
      by (metis of_nat_le_iff of_nat_numeral of_nat_power)
    moreover have "int (length leaves) \<le> 2 ^ depth"
      using idx(2) by (metis of_nat_le_iff of_nat_numeral of_nat_power)
    ultimately show "find_leaf leaves c < 2 ^ 31" "find_leaf leaves c < 2 ^ depth"
      by linarith+
  qed
  have mem: "find_leaf leaves c \<in> fst ` set (leaf_layer leaves)"
    using leaf_layer_ok(2) [OF leaves] idx(1) find_leaf_correct(1) [OF idx(1)] by simp
  note run = layers_loop_correct [OF zok _ leaf_layer_ok(1) [OF leaves] mem idx(1) small(1) loop, simplified]
  have zero: "find_leaf leaves c div 2 ^ depth = 0"
    using idx(1) small(2) by (simp add: div_pos_pos_trivial)
  have "map_get_or tp 0 (at_or zs depth 0) = history_node hash leaves depth 0"
    using run zeros_ok_at [OF zok, of depth] by (simp add: layer_ok_def history_node_def)
  with r have "r = history_node hash leaves depth 0" "in_field r"
    by (auto simp: in_field_check)
  then show thesis
    using depth zs ch idx(1) c run zero p st(3) by (intro that [of depth zs accepted]) auto
qed

section \<open>Properties\<close>

text \<open>
  C17: A reconstructed path passes the verifier: whatever field hash is used, if reconstruction
  returns a path from a history of at most 2^31 logs then \<open>verifyMerklePath\<close> accepts its
  commitment, root, siblings and bits, without an error.
\<close>

theorem reconstructed_path_verifies:
  assumes "reconstructMerklePathFromRootAcceptedLogs lgs c hash d = Inr p" "length lgs \<le> 2 ^ 31"
  shows "verifyMerklePath (rec_commitment p) (rec_root p) (rec_pathElements p) (rec_pathIndices p) hash = Inr True"
proof (rule reconstruct_Inr [OF assms])
  fix depth zs accepted
  let ?leaves = "inserted_leaves lgs"
  let ?top = "history_node hash ?leaves depth 0"
  assume c: "rec_commitment p = c" "isHexBytes32 c" "hex_value c < BN254_SCALAR_FIELD"
    and zs: "buildMerkleZeroHashes depth hash = Inr zs"
    and i: "0 \<le> rec_leafIndex p" "rec_leafIndex p = find_leaf ?leaves c"
    and ch: "verifyRootAcceptedChain lgs depth hash zs = Inr (?leaves, accepted)"
    and f: "in_field ?top" "rec_root p = toBytes32 ?top"
    and v: "verify_loop hash (history_node hash ?leaves 0 (rec_leafIndex p))
      (rec_pathElements p) (rec_pathIndices p) = Inr ?top"
    and len: "length (rec_pathElements p) = depth" "rec_pathIndices p = path_bits depth (rec_leafIndex p)"
  have found: "find_leaf ?leaves c < int (length ?leaves)"
    "to_lower (?leaves ! nat (find_leaf ?leaves c)) = to_lower c"
    using i find_leaf_correct [of ?leaves c] by auto
  obtain st where "chain_ok hash depth st" "chain_leaves st = ?leaves"
    by (rule chain_Inr [OF buildMerkleZeroHashes_ok [OF zs] ch]) blast
  then have "isHexBytes32 (?leaves ! nat (find_leaf ?leaves c))"
    using found(1) i by (auto simp: chain_ok_def nat_less_iff)
  then have "hex_value (?leaves ! nat (find_leaf ?leaves c)) = hex_value c"
    using bytes32_eq_lower_iff [OF _ c(2)] found(2) by simp
  then have leaf: "history_node hash ?leaves 0 (rec_leafIndex p) = hex_value c"
    using i found(1) by (simp add: history_node_def leaf_fun_def leaf_values_def nat_less_iff)
  have "assertFieldBytes32 (rec_root p) ''root'' = Inr (rec_root p)"
    using f by (simp add: assertFieldBytes32_toBytes32 in_field_def)
  moreover have "assertFieldBytes32 c ''commitment'' = Inr c"
    using c by (simp add: assertFieldBytes32_Inr)
  ultimately show ?thesis
    using v len f c(1) unfolding leaf by (simp add: verifyMerklePath_def)
qed

definition sum_hash :: "int list \<Rightarrow> int" where
  "sum_hash xs = sum_list xs + 1"

definition sample_logs :: "root_accepted_log list" where
  "sample_logs =
    [\<lparr>log_root = toBytes32 3, log_previousRoot = toBytes32 0, log_insertedCommitment = toBytes32 0\<rparr>,
     \<lparr>log_root = toBytes32 13, log_previousRoot = toBytes32 3, log_insertedCommitment = toBytes32 10\<rparr>,
     \<lparr>log_root = toBytes32 33, log_previousRoot = toBytes32 13, log_insertedCommitment = toBytes32 20\<rparr>]"

lemma sample_depth: "is_safe_integer (Num 2)" "\<not> num_le (Num 2) (Num 0)" "\<not> num_less (Num 32) (Num 2)"
  by code_simp+

lemmas sample_eval = sample_logs_def verifyRootAcceptedChain_def chain_log_def chain_start_def
  insertLeafAndComputeRoot_def sum_hash_def assertFieldBigint_def assertFieldBytes32_toBytes32
  BN254_SCALAR_FIELD_def at_or_def toBytes32_inj numeral_2_eq_2

lemma sample_zeros: "buildMerkleZeroHashes 2 sum_hash = Inr [0, 1, 3]"
  by (simp add: sample_eval)

lemma sample_chain:
  "verifyRootAcceptedChain sample_logs 2 sum_hash [0, 1, 3] = Inr ([toBytes32 10, toBytes32 20], toBytes32 33)"
  by (simp add: sample_eval)

lemma sample_layers:
  "layers_loop [0, 1, 3] sum_hash 2 0 1 (leaf_layer [toBytes32 10, toBytes32 20]) =
     Inr ([toBytes32 10, toBytes32 1], [1, 0], [(0, 33)])"
  by (simp add: sample_eval leaf_layer_def map_get_or_def buildNextSparseMerkleLayer_def js_unique_def
      js_xor_1 sibling_def)

lemma sample_reconstruct:
  "reconstructMerklePathFromRootAcceptedLogs sample_logs (toBytes32 20) sum_hash (jsint 2) =
    Inr \<lparr>rec_commitment = toBytes32 20, rec_leafIndex = 1, rec_root = toBytes32 33,
      rec_pathElements = [toBytes32 10, toBytes32 1], rec_pathIndices = [1, 0]\<rparr>"
proof -
  have "find_leaf [toBytes32 10, toBytes32 20] (toBytes32 20) = 1"
    by (simp add: find_leaf_def toBytes32_inj)
  then show ?thesis
    unfolding reconstructMerklePathFromRootAcceptedLogs_def
    by (simp add: sample_zeros sample_chain sample_layers sample_depth assertFieldBytes32_toBytes32
        BN254_SCALAR_FIELD_def map_get_or_def assertFieldBigint_def)
qed

lemma reconstructed_path_verifies_witness:
  "verifyMerklePath (toBytes32 20) (toBytes32 33) [toBytes32 10, toBytes32 1] [1, 0] sum_hash = Inr True"
  using reconstructed_path_verifies [OF sample_reconstruct] by (simp add: sample_logs_def)

text \<open>
  C16: The chain check accepts a history only if every accepted root is right: after any prefix
  of an accepted history that ends with an insertion, the log's root is the root of the full
  Merkle tree of the given depth over exactly the commitments inserted so far, so incremental
  insertion with one stored subtree per level computes the full tree.
\<close>

theorem accepted_roots_are_tree_roots:
  assumes "buildMerkleZeroHashes depth hash = Inr zs"
    "verifyRootAcceptedChain (before @ lg # after) depth hash zs = Inr (leaves, accepted)"
    "hex_value (log_insertedCommitment lg) \<noteq> 0"
  shows "leaves = inserted_leaves (before @ lg # after) \<and>
    to_lower (log_root lg) = to_lower (toBytes32 (tree (\<lambda>a b. hash [a, b])
      (leaf_fun (map hex_value (inserted_leaves (before @ [lg])))) depth 0))"
proof -
  have zok: "zeros_ok hash depth zs"
    using assms(1) by (rule buildMerkleZeroHashes_ok)
  obtain st where st: "chain_loop depth hash zs (before @ lg # after) (chain_start depth zs) = Inr st"
    "leaves = inserted_leaves (before @ lg # after)"
    by (rule chain_Inr [OF zok assms(2)]) blast
  obtain st1 st2 where st1: "chain_loop depth hash zs before (chain_start depth zs) = Inr st1"
    and st2: "chain_log depth hash zs lg st1 = Inr st2"
    using st(1) by (auto simp: chain_loop_append res_simps)
  have ok: "chain_ok hash depth st1" "chain_leaves st1 = inserted_leaves before"
    using chain_loop_ok [OF zok chain_start_ok [OF zok] st1] by (auto simp: chain_start_def inserted_leaves_def)
  from chain_log_ok [OF zok ok(1) st2] assms(3) ok(2) st(2) show ?thesis
    by (simp add: leaf_values_def inserted_leaves_def)
qed

lemma sample_logs_split: "take 2 sample_logs @ [sample_logs ! 2] = sample_logs"
  "hex_value (log_insertedCommitment (sample_logs ! 2)) \<noteq> 0"
  "log_root (sample_logs ! 2) = toBytes32 33" "length sample_logs = 3"
  "inserted_leaves sample_logs = [toBytes32 10, toBytes32 20]"
  by (simp_all add: sample_logs_def inserted_leaves_def numeral_2_eq_2)

lemma accepted_roots_are_tree_roots_witness:
  "toBytes32 33 = toBytes32 (tree (\<lambda>a b. sum_hash [a, b]) (leaf_fun [10, 20]) 2 0)"
  using accepted_roots_are_tree_roots [OF sample_zeros, of "take 2 sample_logs" "sample_logs ! 2" "[]"]
    sample_chain sample_logs_split
  by (simp del: tree.simps) (simp add: sum_hash_def leaf_fun_def numeral_2_eq_2)

text \<open>
  C18: Reconstruction finds the note where it was inserted and its root is the root the chain
  last accepted by an insertion: the leaf index is the first inserted commitment equal to the
  note's, and if the history ends with an insertion the path's root is that log's root.
\<close>

theorem reconstruct_matches_history:
  assumes "reconstructMerklePathFromRootAcceptedLogs (lgs @ [lg]) c hash d = Inr p"
    "length (lgs @ [lg]) \<le> 2 ^ 31" "hex_value (log_insertedCommitment lg) \<noteq> 0"
  shows "to_lower (rec_root p) = to_lower (log_root lg) \<and>
    0 \<le> rec_leafIndex p \<and> nat (rec_leafIndex p) < length (inserted_leaves (lgs @ [lg])) \<and>
    to_lower (inserted_leaves (lgs @ [lg]) ! nat (rec_leafIndex p)) = to_lower c \<and>
    (\<forall>j < nat (rec_leafIndex p). to_lower (inserted_leaves (lgs @ [lg]) ! j) \<noteq> to_lower c)"
proof (rule reconstruct_Inr [OF assms(1,2)])
  fix depth zs accepted
  let ?leaves = "inserted_leaves (lgs @ [lg])"
  assume zs: "buildMerkleZeroHashes depth hash = Inr zs"
    and i: "0 \<le> rec_leafIndex p" "rec_leafIndex p = find_leaf ?leaves c"
    and ch: "verifyRootAcceptedChain (lgs @ [lg]) depth hash zs = Inr (?leaves, accepted)"
    and r: "rec_root p = toBytes32 (history_node hash ?leaves depth 0)"
  have zok: "zeros_ok hash depth zs"
    using zs by (rule buildMerkleZeroHashes_ok)
  obtain st where st: "chain_loop depth hash zs (lgs @ [lg]) (chain_start depth zs) = Inr st"
    by (rule chain_Inr [OF zok ch]) blast
  then obtain st1 where st1: "chain_loop depth hash zs lgs (chain_start depth zs) = Inr st1"
    and st2: "chain_log depth hash zs lg st1 = Inr st"
    by (auto simp: chain_loop_append res_simps)
  have ok: "chain_ok hash depth st1" "chain_leaves st1 = inserted_leaves lgs"
    using chain_loop_ok [OF zok chain_start_ok [OF zok] st1] by (auto simp: chain_start_def inserted_leaves_def)
  from chain_log_ok [OF zok ok(1) st2] assms(3) ok(2)
  have "to_lower (log_root lg) = to_lower (rec_root p)"
    by (simp add: r history_node_def leaf_values_def inserted_leaves_def)
  with i find_leaf_correct [of ?leaves c] show ?thesis
    by (simp add: nat_less_iff)
qed

lemma reconstruct_matches_history_witness:
  "toBytes32 33 = log_root (sample_logs ! 2) \<and> to_lower (inserted_leaves sample_logs ! 1) = toBytes32 20"
  using reconstruct_matches_history [of "take 2 sample_logs" "sample_logs ! 2" "toBytes32 20" sum_hash "jsint 2",
      unfolded sample_logs_split(1), OF sample_reconstruct] sample_logs_split
  by simp

end
