(* ===== verification/Sdk_Rpc.thy ===== *)
theory Sdk_Rpc
  imports Hex
begin

text \<open>
  The JSON-RPC client the SDK's log readers share: \<open>rpcRequest\<close>, block quantities and the loop that
  reads event logs chunk by chunk (\<^verbatim>\<open>packages/sdk/src/merkle/rootLogs.ts\<close> and
  \<^verbatim>\<open>packages/sdk/src/recovery/logs.ts\<close> hold a copy each).

  The node is a record of functions from the requests made so far to its reply, so that it may
  answer the same request differently later. A run returns its result (the message of the thrown
  error on the left) and the requests made. The loop is a partial function: \<open>None\<close> means that it
  does not return. A reply's result is taken to have the JSON type the code casts it to; block
  counts are bigints.
\<close>

section \<open>Requests and replies\<close>

datatype topic_filter = OneTopic string | AnyTopic "string list"

datatype rpc_call =
    EthBlockNumber
  | EthGetLogs string string string topic_filter
  | EthGetTransactionReceipt string
  | EthCall string string

text \<open>What \<open>fetch\<close> and the body give: a failed fetch with its message, or the status and the body.\<close>

datatype 'a rpc_reply =
    FetchFailed string
  | HttpError int
  | ErrorBody "string option"
  | ResultBody 'a

type_synonym 'a run = "(string + 'a) \<times> rpc_call list"

definition rpcRequest :: "string \<Rightarrow> 'a rpc_reply \<Rightarrow> string + 'a" where
  "rpcRequest rpc_method reply =
     (case reply of
        FetchFailed msg \<Rightarrow> Inl msg
      | HttpError status \<Rightarrow> Inl (''MegaETH RPC '' @ rpc_method @ '' returned HTTP '' @ dec_string status @ ''.'')
      | ErrorBody (Some msg) \<Rightarrow> Inl msg
      | ErrorBody None \<Rightarrow> Inl (''MegaETH RPC '' @ rpc_method @ '' failed.'')
      | ResultBody a \<Rightarrow> Inr a)"

text \<open>A node that serves logs of type \<open>'l\<close> and receipts of type \<open>'r\<close>.\<close>

record ('l, 'r) rpc_node =
  node_blockNumber :: "rpc_call list \<Rightarrow> string rpc_reply"
  node_logs :: "rpc_call list \<Rightarrow> rpc_call \<Rightarrow> 'l list rpc_reply"
  node_receipt :: "rpc_call list \<Rightarrow> string \<Rightarrow> 'r option rpc_reply"
  node_call :: "rpc_call list \<Rightarrow> rpc_call \<Rightarrow> string rpc_reply"

definition eth_blockNumber :: "('l, 'r) rpc_node \<Rightarrow> rpc_call list \<Rightarrow> string run" where
  "eth_blockNumber node calls =
     (rpcRequest ''eth_blockNumber'' (node_blockNumber node calls), calls @ [EthBlockNumber])"

section \<open>Block quantities\<close>

definition isBlockQuantity :: "string \<Rightarrow> bool" where
  "isBlockQuantity s \<longleftrightarrow> starts_with ''0x'' s \<and>
     (drop 2 s = ''0'' \<or>
      (drop 2 s \<noteq> [] \<and> list_all is_hex_char (drop 2 s) \<and> hd (drop 2 s) \<noteq> CHR ''0''))"

definition toBlockQuantity :: "int \<Rightarrow> string" where
  "toBlockQuantity v = ''0x'' @ hex_string v"

lemma isBlockQuantityE:
  assumes "isBlockQuantity s"
  obtains t where "s = ''0x'' @ t" "t \<noteq> []" "list_all is_hex_char t" "t = ''0'' \<or> hd t \<noteq> CHR ''0''"
proof -
  from assms obtain t where "s = ''0x'' @ t" "t = ''0'' \<or> (t \<noteq> [] \<and> list_all is_hex_char t \<and> hd t \<noteq> CHR ''0'')"
    by (auto simp: isBlockQuantity_def starts_with_0x_iff)
  then show ?thesis
    by (auto intro: that)
qed

lemma js_bigint_quantity: "isBlockQuantity s \<Longrightarrow> js_bigint s = Some (hex_value s)"
  by (erule isBlockQuantityE) (auto intro!: js_bigint_hex)

lemma hex_value_toBlockQuantity [simp]: "0 \<le> v \<Longrightarrow> hex_value (toBlockQuantity v) = v"
  by (simp add: hex_value_def toBlockQuantity_def hex_string_def)

lemma radix_string_head:
  assumes "0 < n"
  shows "hd (radix_string 16 n) \<noteq> CHR ''0''"
  using assms
proof (induction n rule: less_induct)
  case (less n)
  show ?case
  proof (cases "n < 16")
    case True
    have "digit_val (digit_char n) = n" using True by simp
    then have "digit_char n \<noteq> CHR ''0''"
      using less.prems by (auto simp: digit_val_def is_digit_def code_def)
    with True show ?thesis by (subst radix_string.simps) simp
  next
    case False
    then have "n div 16 < n" "0 < n div 16" by auto
    with less.IH have "hd (radix_string 16 (n div 16)) \<noteq> CHR ''0''" by blast
    with False show ?thesis by (subst radix_string.simps) (simp add: hd_append)
  qed
qed

lemma isBlockQuantity_toBlockQuantity [simp]:
  assumes "0 \<le> v"
  shows "isBlockQuantity (toBlockQuantity v)"
proof (cases "v = 0")
  case True
  have "radix_string 16 0 = ''0''"
    by (subst radix_string.simps) (simp add: digit_char_def)
  with True show ?thesis
    by (simp add: isBlockQuantity_def toBlockQuantity_def hex_string_def)
next
  case False
  with assms radix_string_head [of "nat v"] show ?thesis
    by (simp add: isBlockQuantity_def toBlockQuantity_def hex_string_def)
qed

text \<open>Quantities in lower case are equal exactly when their numbers are: there is one spelling.\<close>

lemma radix_string_val:
  assumes "list_all is_hex_char t" "t \<noteq> []" "t = ''0'' \<or> hd t \<noteq> CHR ''0''"
  shows "radix_string 16 (radix_val 16 t) = to_lower t"
  using assms
proof (induction t rule: rev_induct)
  case Nil
  then show ?case by simp
next
  case (snoc c t)
  have c: "is_hex_char c" "digit_val c < 16"
    using snoc.prems digit_val_less_16 by auto
  have low: "digit_char (digit_val c) = lower_char c"
    using digit_val_inj_lower [of "digit_char (digit_val c)" c] c by simp
  show ?case
  proof (cases "t = []")
    case True
    with c low show ?thesis by (subst radix_string.simps) (simp add: radix_val_def)
  next
    case False
    with snoc.prems have t: "list_all is_hex_char t" "hd t \<noteq> CHR ''0''"
      by auto
    have "radix_val 16 t \<noteq> 0"
    proof
      assume z: "radix_val 16 t = 0"
      have "radix_string 16 0 = ''0''"
        by (subst radix_string.simps) (simp add: digit_char_def)
      with z snoc.IH t False have "to_lower t = ''0''" by simp
      then obtain d where d: "t = [d]" "lower_char d = CHR ''0''"
        by (cases t) auto
      then have "code (lower_char d) = 48" by (simp add: code_def)
      then have "(if is_upper d then code d + 32 else code d) = 48" by (simp only: code_lower_char)
      then have "code d = 48" by (auto simp: is_upper_def split: if_splits)
      then have "of_char d = (of_char (CHR ''0'') :: nat)" by (simp add: code_def)
      then have "d = CHR ''0''" by (simp only: of_char_eq_iff)
      with t d show False by simp
    qed
    with c have "16 \<le> radix_val 16 t * 16 + digit_val c" by simp
    then have "radix_string 16 (radix_val 16 t * 16 + digit_val c) =
        radix_string 16 (radix_val 16 t) @ [digit_char (digit_val c)]"
      using c by (subst radix_string.simps) simp
    with snoc.IH t False low show ?thesis by simp
  qed
qed

lemma quantity_lower_iff:
  assumes "isBlockQuantity s" "isBlockQuantity t"
  shows "to_lower s = to_lower t \<longleftrightarrow> hex_value s = hex_value t"
proof -
  obtain s' where s: "s = ''0x'' @ s'" "s' \<noteq> []" "list_all is_hex_char s'" "s' = ''0'' \<or> hd s' \<noteq> CHR ''0''"
    using assms(1) by (rule isBlockQuantityE)
  obtain t' where t: "t = ''0x'' @ t'" "t' \<noteq> []" "list_all is_hex_char t'" "t' = ''0'' \<or> hd t' \<noteq> CHR ''0''"
    using assms(2) by (rule isBlockQuantityE)
  have "to_lower s' = to_lower t' \<longleftrightarrow> radix_val 16 s' = radix_val 16 t'"
    using radix_string_val [of s'] radix_string_val [of t'] s t radix_val_lower by metis
  then show ?thesis
    using s t by (simp add: hex_value_def)
qed

section \<open>Reading logs chunk by chunk\<close>

partial_function (option) fetch_chunks ::
  "('l, 'r) rpc_node \<Rightarrow> string \<Rightarrow> topic_filter \<Rightarrow> int \<Rightarrow> int \<Rightarrow> int \<Rightarrow> 'l list \<Rightarrow> rpc_call list \<Rightarrow> 'l list run option" where
  "fetch_chunks node pool topics chunkSize latestBlock cursor logs calls =
     (if cursor \<le> latestBlock then
        (let chunkEnd = (if cursor + chunkSize > latestBlock then latestBlock else cursor + chunkSize);
             call = EthGetLogs pool (toBlockQuantity cursor) (toBlockQuantity chunkEnd) topics in
         (case rpcRequest ''eth_getLogs'' (node_logs node calls call) of
            Inl e \<Rightarrow> Some (Inl e, calls @ [call])
          | Inr result \<Rightarrow>
              fetch_chunks node pool topics chunkSize latestBlock (chunkEnd + 1) (logs @ result) (calls @ [call])))
      else Some (Inr logs, calls))"

text \<open>The ranges the loop asks for when no request fails.\<close>

function chunk_ranges :: "int \<Rightarrow> int \<Rightarrow> int \<Rightarrow> (int \<times> int) list" where
  "chunk_ranges chunkSize latestBlock cursor =
     (if cursor \<le> latestBlock \<and> 0 < chunkSize
      then (cursor, min latestBlock (cursor + chunkSize)) #
        chunk_ranges chunkSize latestBlock (min latestBlock (cursor + chunkSize) + 1)
      else [])"
  by pat_completeness auto
termination
  by (relation "measure (\<lambda>(c, l, k). nat (l + 1 - k))") auto

declare chunk_ranges.simps [simp del]

definition range_call :: "string \<Rightarrow> topic_filter \<Rightarrow> int \<times> int \<Rightarrow> rpc_call" where
  "range_call pool topics r = EthGetLogs pool (toBlockQuantity (fst r)) (toBlockQuantity (snd r)) topics"

text \<open>The logs of the ranges, each request answered after the ones before it.\<close>

fun replies :: "('l, 'r) rpc_node \<Rightarrow> rpc_call list \<Rightarrow> rpc_call list \<Rightarrow> (string + 'l list) list" where
  "replies node calls [] = []"
| "replies node calls (c # cs) =
     rpcRequest ''eth_getLogs'' (node_logs node calls c) # replies node (calls @ [c]) cs"

fun collect_replies :: "'l list \<Rightarrow> (string + 'l list) list \<Rightarrow> string + 'l list" where
  "collect_replies acc [] = Inr acc"
| "collect_replies acc (Inl e # rs) = Inl e"
| "collect_replies acc (Inr ls # rs) = collect_replies (acc @ ls) rs"

fun asked :: "(string + 'l list) list \<Rightarrow> nat" where
  "asked [] = 0"
| "asked (Inl e # rs) = 1"
| "asked (Inr ls # rs) = Suc (asked rs)"

lemma asked_le: "asked rs \<le> length rs"
  by (induction rs rule: asked.induct) auto

lemma length_replies [simp]: "length (replies node calls cs) = length cs"
  by (induction cs arbitrary: calls) auto

lemma collect_replies_Inr:
  "collect_replies acc rs = Inr ls \<longleftrightarrow> (\<exists>xs. rs = map Inr xs \<and> ls = acc @ concat xs)"
proof (induction acc rs rule: collect_replies.induct)
  case (3 acc ls' rs)
  then show ?case by (auto simp: Cons_eq_map_conv)
qed auto

lemma asked_Inr [simp]: "asked (map Inr xs) = length xs"
  by (induction xs) auto

definition chunk_calls :: "string \<Rightarrow> topic_filter \<Rightarrow> int \<Rightarrow> int \<Rightarrow> int \<Rightarrow> rpc_call list" where
  "chunk_calls pool topics chunkSize latestBlock cursor =
     map (range_call pool topics) (chunk_ranges chunkSize latestBlock cursor)"

lemma chunk_calls_unfold:
  assumes "0 < chunkSize"
  shows "chunk_calls pool topics chunkSize latestBlock cursor =
     (if cursor \<le> latestBlock
      then EthGetLogs pool (toBlockQuantity cursor)
             (toBlockQuantity (if cursor + chunkSize > latestBlock then latestBlock else cursor + chunkSize)) topics #
           chunk_calls pool topics chunkSize latestBlock
             ((if cursor + chunkSize > latestBlock then latestBlock else cursor + chunkSize) + 1)
      else [])"
proof -
  have "min latestBlock (cursor + chunkSize) =
      (if cursor + chunkSize > latestBlock then latestBlock else cursor + chunkSize)"
    by auto
  with assms show ?thesis
    unfolding chunk_calls_def
    by (subst chunk_ranges.simps) (simp add: range_call_def)
qed

lemma fetch_chunks_eq:
  assumes "0 < chunkSize"
  shows "fetch_chunks node pool topics chunkSize latestBlock cursor logs calls =
    (let plan = chunk_calls pool topics chunkSize latestBlock cursor; rs = replies node calls plan in
     Some (collect_replies logs rs, calls @ take (asked rs) plan))"
  using assms
proof (induction chunkSize latestBlock cursor arbitrary: logs calls rule: chunk_ranges.induct)
  case (1 chunkSize latestBlock cursor)
  let ?stop = "if cursor + chunkSize > latestBlock then latestBlock else cursor + chunkSize"
  let ?call = "EthGetLogs pool (toBlockQuantity cursor) (toBlockQuantity ?stop) topics"
  have e: "min latestBlock (cursor + chunkSize) = ?stop" by auto
  show ?case
  proof (cases "cursor \<le> latestBlock")
    case False
    then show ?thesis
      by (simp add: fetch_chunks.simps chunk_calls_unfold [OF 1(2)])
  next
    case True
    have plan: "chunk_calls pool topics chunkSize latestBlock cursor =
        ?call # chunk_calls pool topics chunkSize latestBlock (?stop + 1)"
      using True by (subst chunk_calls_unfold [OF 1(2)]) simp
    have step: "fetch_chunks node pool topics chunkSize latestBlock cursor logs calls =
        (case rpcRequest ''eth_getLogs'' (node_logs node calls ?call) of
           Inl e \<Rightarrow> Some (Inl e, calls @ [?call])
         | Inr result \<Rightarrow> fetch_chunks node pool topics chunkSize latestBlock (?stop + 1) (logs @ result) (calls @ [?call]))"
      using True by (subst fetch_chunks.simps) (simp only: Let_def if_True)
    show ?thesis
    proof (cases "rpcRequest ''eth_getLogs'' (node_logs node calls ?call)")
      case (Inl err)
      then show ?thesis by (simp only: step plan Let_def replies.simps sum.case) simp
    next
      case (Inr result)
      have "fetch_chunks node pool topics chunkSize latestBlock (?stop + 1) (logs @ result) (calls @ [?call]) =
        (let plan = chunk_calls pool topics chunkSize latestBlock (?stop + 1);
             rs = replies node (calls @ [?call]) plan in
         Some (collect_replies (logs @ result) rs, (calls @ [?call]) @ take (asked rs) plan))"
        using 1(1) [OF conjI [OF True 1(2)] 1(2)] unfolding e .
      with Inr show ?thesis by (simp only: step plan Let_def replies.simps sum.case) simp
    qed
  qed
qed

text \<open>The ranges follow each other without gap or overlap, and none is longer than one block more than asked.\<close>

lemma chunk_ranges_cover:
  "0 < chunkSize \<Longrightarrow> concat (map (\<lambda>(a, b). [a..b]) (chunk_ranges chunkSize latestBlock cursor)) = [cursor..latestBlock]"
proof (induction chunkSize latestBlock cursor rule: chunk_ranges.induct)
  case (1 chunkSize latestBlock cursor)
  show ?case
  proof (cases "cursor \<le> latestBlock")
    case True
    let ?stop = "min latestBlock (cursor + chunkSize)"
    have "[cursor..latestBlock] = [cursor..?stop] @ [?stop + 1..latestBlock]"
      using True 1(2) by (intro upto_split2) auto
    with 1 True show ?thesis
      by (subst chunk_ranges.simps) simp
  next
    case False
    then show ?thesis by (subst chunk_ranges.simps) simp
  qed
qed

lemma chunk_ranges_bound:
  "(a, b) \<in> set (chunk_ranges chunkSize latestBlock cursor) \<Longrightarrow> cursor \<le> a \<and> a \<le> b \<and> b \<le> latestBlock \<and> b \<le> a + chunkSize"
proof (induction chunkSize latestBlock cursor rule: chunk_ranges.induct)
  case (1 chunkSize latestBlock cursor)
  show ?case
  proof (cases "cursor \<le> latestBlock \<and> 0 < chunkSize")
    case True
    with 1(2) have "(a, b) = (cursor, min latestBlock (cursor + chunkSize)) \<or>
        (a, b) \<in> set (chunk_ranges chunkSize latestBlock (min latestBlock (cursor + chunkSize) + 1))"
      by (subst (asm) chunk_ranges.simps) simp
    then show ?thesis
      using True 1(1) [OF True] by (elim disjE) auto
  next
    case False
    with 1(2) show ?thesis by (subst (asm) chunk_ranges.simps) (simp split: if_splits)
  qed
qed

lemma chunk_ranges_count: "0 < chunkSize \<Longrightarrow> length (chunk_ranges chunkSize latestBlock cursor) \<le> nat (latestBlock + 1 - cursor)"
proof (induction chunkSize latestBlock cursor rule: chunk_ranges.induct)
  case (1 chunkSize latestBlock cursor)
  show ?case
  proof (cases "cursor \<le> latestBlock")
    case True
    with 1 have "length (chunk_ranges chunkSize latestBlock (min latestBlock (cursor + chunkSize) + 1)) \<le>
        nat (latestBlock + 1 - (min latestBlock (cursor + chunkSize) + 1))"
      by blast
    also have "\<dots> < nat (latestBlock + 1 - cursor)"
      using True 1(2) by auto
    finally show ?thesis
      using True 1(2) by (subst chunk_ranges.simps) simp
  qed (subst chunk_ranges.simps, simp)
qed

text \<open>With a step of -1, which the callers' check refuses, the loop never returns.\<close>

lemma fetch_chunks_stuck:
  assumes "\<And>calls call. \<exists>ls. node_logs node calls call = ResultBody ls" "cursor \<le> latestBlock"
  shows "fetch_chunks node pool topics (- 1) latestBlock cursor logs calls = None"
proof (rule ccontr)
  assume "fetch_chunks node pool topics (- 1) latestBlock cursor logs calls \<noteq> None"
  then obtain r where r: "fetch_chunks node pool topics (- 1) latestBlock cursor logs calls = Some r"
    by blast
  have "\<not> (chunkSize = - 1 \<and> c \<le> l \<and> (\<forall>calls call. \<exists>ls. node_logs n calls call = ResultBody ls))"
    if "fetch_chunks n p t chunkSize l c lgs cs = Some r'" for n :: "('a, 'b) rpc_node" and p t chunkSize l c lgs cs r'
  proof (rule fetch_chunks.raw_induct [OF _ that], goal_cases)
    case (1 f n p t chunkSize l c lgs cs r')
    show ?case
    proof
      assume a: "chunkSize = - 1 \<and> c \<le> l \<and> (\<forall>calls call. \<exists>ls. node_logs n calls call = ResultBody ls)"
      then obtain ls where "node_logs n cs (EthGetLogs p (toBlockQuantity c) (toBlockQuantity (c - 1)) t) = ResultBody ls"
        by blast
      with a 1(2) have "f n p t (- 1) l c (lgs @ ls) (cs @ [EthGetLogs p (toBlockQuantity c) (toBlockQuantity (c - 1)) t]) = Some r'"
        by (simp add: rpcRequest_def Let_def)
      with 1(1) a show False by blast
    qed
  qed
  with r assms show False by blast
qed

end
