(* ===== verification/Root_Logs.thy ===== *)
theory Root_Logs
  imports Sdk_Rpc Merkle_Reconstruct "HOL-Library.Product_Lexorder" "HOL-Library.Multiset"
begin

text \<open>
  How the SDK obtains the \<open>RootAccepted\<close> history it reconstructs paths from,
  \<^verbatim>\<open>packages/sdk/src/merkle/rootLogs.ts\<close>: reading the logs in chunks, with or without recovery
  hints, and putting them into one order without duplicates.

  viem's \<open>decodeEventLog\<close> is the parameter \<open>decode\<close>, its \<open>toEventHash\<close> the parameter \<open>event_hash\<close>.
  Two logs are the same when their canonical forms are; the code compares the JSON texts of these,
  which are objects of strings and determine them.
\<close>

section \<open>The runtime's fields and the logs\<close>

record sdk_runtime =
  rt_environment :: string
  rt_chainId :: int
  rt_pool :: string
  rt_poolDeploymentBlock :: string

record raw_root_log =
  rl_address :: string
  rl_topics :: "string list"
  rl_data :: string
  rl_blockNumber :: "string option"
  rl_transactionHash :: "string option"
  rl_logIndex :: "string option"

record receipt_log =
  rcl_address :: "string option"
  rcl_topics :: "string list option"

record raw_receipt =
  rc_blockNumber :: "string option"
  rc_logs :: "receipt_log list option"

type_synonym root_node = "(raw_root_log, raw_receipt) rpc_node"

definition or_else :: "'a option \<Rightarrow> 'a \<Rightarrow> 'a" where
  "or_else a d = (case a of None \<Rightarrow> d | Some x \<Rightarrow> x)"

definition bigint_result :: "string \<Rightarrow> string + int" where
  "bigint_result s =
     (case js_bigint s of None \<Rightarrow> Inl (''Cannot convert '' @ s @ '' to a BigInt'') | Some v \<Rightarrow> Inr v)"

section \<open>Reading the logs\<close>

definition ROOT_ACCEPTED_TOPIC :: "(string \<Rightarrow> string) \<Rightarrow> string" where
  "ROOT_ACCEPTED_TOPIC event_hash = event_hash ''RootAccepted(bytes32,bytes32,bytes32)''"

definition latest_block_hex :: "('l, 'r) rpc_node \<Rightarrow> string option \<Rightarrow> rpc_call list \<Rightarrow> string run" where
  "latest_block_hex node toBlock calls =
     (case toBlock of Some b \<Rightarrow> (Inr b, calls) | None \<Rightarrow> eth_blockNumber node calls)"

definition fetchRootAcceptedLogs ::
  "(string \<Rightarrow> string) \<Rightarrow> root_node \<Rightarrow> sdk_runtime \<Rightarrow> string option \<Rightarrow> string option \<Rightarrow> int option \<Rightarrow> rpc_call list
     \<Rightarrow> raw_root_log list run option" where
  "fetchRootAcceptedLogs event_hash node runtime fromBlockInput toBlock logChunkSize calls =
     (let chunkSize = or_else logChunkSize 50000;
          fromBlock = or_else fromBlockInput (rt_poolDeploymentBlock runtime) in
      if chunkSize \<le> 0 then Some (Inl ''Expected RootAccepted log chunk size to be positive.'', calls)
      else if \<not> isBlockQuantity fromBlock
      then Some (Inl ''Expected RootAccepted fromBlock to be a hex block quantity.'', calls)
      else if \<not> pred_option isBlockQuantity toBlock
      then Some (Inl ''Expected RootAccepted toBlock to be a hex block quantity.'', calls)
      else case latest_block_hex node toBlock calls of
        (Inl e, calls1) \<Rightarrow> Some (Inl e, calls1)
      | (Inr latestBlockHex, calls1) \<Rightarrow>
          (case bigint_result latestBlockHex of
             Inl e \<Rightarrow> Some (Inl e, calls1)
           | Inr latestBlock \<Rightarrow>
               fetch_chunks node (rt_pool runtime) (OneTopic (ROOT_ACCEPTED_TOPIC event_hash)) chunkSize latestBlock
                 (hex_value fromBlock) [] calls1))"

section \<open>One order without duplicates\<close>

definition canonicalLog :: "raw_root_log \<Rightarrow> raw_root_log" where
  "canonicalLog lg =
     \<lparr>rl_address = to_lower (rl_address lg), rl_topics = map to_lower (rl_topics lg),
      rl_data = to_lower (rl_data lg), rl_blockNumber = map_option to_lower (rl_blockNumber lg),
      rl_transactionHash = map_option to_lower (rl_transactionHash lg),
      rl_logIndex = map_option to_lower (rl_logIndex lg)\<rparr>"

definition sameRootAcceptedLog :: "raw_root_log \<Rightarrow> raw_root_log \<Rightarrow> bool" where
  "sameRootAcceptedLog left right \<longleftrightarrow> canonicalLog left = canonicalLog right"

definition positioned :: "raw_root_log \<Rightarrow> bool" where
  "positioned lg \<longleftrightarrow>
     isBlockQuantity (or_else (rl_blockNumber lg) []) \<and> isBlockQuantity (or_else (rl_logIndex lg) [])"

definition transaction_key :: "raw_root_log \<Rightarrow> string option" where
  "transaction_key lg =
     (case rl_transactionHash lg of
        None \<Rightarrow> None
      | Some h \<Rightarrow> if isHexBytes32 h then Some (to_lower h @ '':'' @ to_lower (or_else (rl_logIndex lg) [])) else None)"

definition block_key :: "raw_root_log \<Rightarrow> string" where
  "block_key lg = to_lower (or_else (rl_blockNumber lg) []) @ '':'' @ to_lower (or_else (rl_logIndex lg) [])"

definition log_position :: "raw_root_log \<Rightarrow> int \<times> int" where
  "log_position lg = (hex_value (or_else (rl_blockNumber lg) ''0x0''), hex_value (or_else (rl_logIndex lg) ''0x0''))"

definition previous_by_transaction :: "(string \<times> raw_root_log) list \<Rightarrow> raw_root_log \<Rightarrow> raw_root_log option" where
  "previous_by_transaction byTransactionLogIndex lg =
     Option.bind (transaction_key lg) (map_of byTransactionLogIndex)"

definition remember_transaction :: "(string \<times> raw_root_log) list \<Rightarrow> raw_root_log \<Rightarrow> (string \<times> raw_root_log) list" where
  "remember_transaction byTransactionLogIndex lg =
     (case transaction_key lg of None \<Rightarrow> byTransactionLogIndex | Some k \<Rightarrow> AList.update k lg byTransactionLogIndex)"

fun normalize_loop ::
  "raw_root_log list \<Rightarrow> (string \<times> raw_root_log) list \<Rightarrow> (string \<times> raw_root_log) list \<Rightarrow> raw_root_log list
     \<Rightarrow> string + raw_root_log list" where
  "normalize_loop [] byTransactionLogIndex byBlockLogIndex normalized = Inr normalized"
| "normalize_loop (lg # logs) byTransactionLogIndex byBlockLogIndex normalized =
     (if \<not> positioned lg then Inl ''RootAccepted logs require blockNumber and logIndex before reconstruction.''
      else case previous_by_transaction byTransactionLogIndex lg of
        Some previous \<Rightarrow>
          if \<not> sameRootAcceptedLog previous lg
          then Inl ''ambiguous RootAccepted logs share transactionHash and logIndex.''
          else normalize_loop logs byTransactionLogIndex byBlockLogIndex normalized
      | None \<Rightarrow>
          if \<not> pred_option (\<lambda>previous. sameRootAcceptedLog previous lg) (map_of byBlockLogIndex (block_key lg))
          then Inl ''ambiguous RootAccepted logs share blockNumber and logIndex.''
          else normalize_loop logs (remember_transaction byTransactionLogIndex lg)
                 (AList.update (block_key lg) lg byBlockLogIndex) (normalized @ [lg]))"

definition normalizeRootAcceptedLogs :: "raw_root_log list \<Rightarrow> string + raw_root_log list" where
  "normalizeRootAcceptedLogs logs =
     bind_res (normalize_loop logs [] [] []) (\<lambda>normalized. Inr (sort_key log_position normalized))"

section \<open>Decoding\<close>

type_synonym root_decoder = "string list \<Rightarrow> string \<Rightarrow> string + string \<times> string \<times> string \<times> string"

definition assertBytes32_root :: "string \<Rightarrow> string + string" where
  "assertBytes32_root v = (if \<not> isHexBytes32 v then Inl ''Expected RootAccepted bytes32 value.'' else Inr v)"

definition decodeRootAcceptedLog :: "root_decoder \<Rightarrow> raw_root_log \<Rightarrow> string + root_accepted_log option" where
  "decodeRootAcceptedLog decode lg =
     (if \<not> isEvmAddress (rl_address lg) \<or> \<not> isHexString (rl_data lg) then Inl ''Invalid RootAccepted log shape.''
      else if \<exists>topic \<in> set (rl_topics lg). \<not> isHexString topic then Inl ''Invalid RootAccepted log topics.''
      else bind_res (decode (rl_topics lg) (rl_data lg)) (\<lambda>(eventName, root, previousRoot, insertedCommitment).
        if eventName \<noteq> ''RootAccepted'' then Inr None
        else bind_res (assertBytes32_root root) (\<lambda>r.
             bind_res (assertBytes32_root previousRoot) (\<lambda>p.
             bind_res (assertBytes32_root insertedCommitment) (\<lambda>c.
               Inr (Some \<lparr>log_root = r, log_previousRoot = p, log_insertedCommitment = c\<rparr>))))))"

definition decodeRootAcceptedLogs :: "root_decoder \<Rightarrow> raw_root_log list \<Rightarrow> string + root_accepted_log list" where
  "decodeRootAcceptedLogs decode logs =
     bind_res (normalizeRootAcceptedLogs logs) (\<lambda>normalized.
     bind_res (map_res (decodeRootAcceptedLog decode) normalized) (\<lambda>decoded. Inr (concat (map (\<lambda>d. case d of None \<Rightarrow> [] | Some r \<Rightarrow> [r]) decoded))))"

section \<open>Recovery hints\<close>

record recovery_input =
  ri_runtime :: sdk_runtime
  ri_commitment :: string
  ri_txHashHint :: "string option"
  ri_blockNumberHint :: "string option"
  ri_leafIndexHint :: "jsnum option"
  ri_toBlock :: "string option"
  ri_minConfirmations :: "int option"
  ri_logChunkSize :: "int option"

datatype hint_source = FromHint | FromFallback

record hinted_logs =
  hl_source :: hint_source
  hl_logs :: "raw_root_log list"
  hl_toBlock :: string
  hl_hintRejectedReason :: "string option"

definition receiptContainsCommitment :: "raw_receipt \<Rightarrow> string \<Rightarrow> string \<Rightarrow> bool" where
  "receiptContainsCommitment receipt pool commitment \<longleftrightarrow>
     (\<exists>lg \<in> set (or_else (rc_logs receipt) []).
        map_option to_lower (rcl_address lg) = Some (to_lower pool) \<and>
        (\<exists>topic \<in> set (or_else (rcl_topics lg) []). to_lower topic = to_lower commitment))"

definition decoded_leaves :: "root_accepted_log list \<Rightarrow> string list" where
  "decoded_leaves logs = filter (\<lambda>c. hex_value c \<noteq> 0) (map log_insertedCommitment logs)"

definition decodedLogsConfirmHint :: "root_accepted_log list \<Rightarrow> string \<Rightarrow> jsnum option \<Rightarrow> bool" where
  "decodedLogsConfirmHint logs commitment leafIndexHint =
     (let leafIndex = find_leaf (decoded_leaves logs) commitment in
      if leafIndex < 0 then False
      else case leafIndexHint of None \<Rightarrow> True | Some h \<Rightarrow> num_eq (jsint leafIndex) h)"

definition appendHintRejectedReason :: "string option \<Rightarrow> string \<Rightarrow> string" where
  "appendHintRejectedReason previous reason =
     (case previous of Some p \<Rightarrow> if p \<noteq> [] then p @ ''; '' @ reason else reason | None \<Rightarrow> reason)"

text \<open>The receipt hint: the block it confirms, and why it was rejected.\<close>

definition receipt_hint :: "root_node \<Rightarrow> recovery_input \<Rightarrow> string \<Rightarrow> rpc_call list
    \<Rightarrow> (string option \<times> string option) \<times> rpc_call list" where
  "receipt_hint node input commitment calls =
     (case ri_txHashHint input of
        None \<Rightarrow> ((None, None), calls)
      | Some h \<Rightarrow>
        if \<not> isHexBytes32 h then ((None, Some ''transaction hash hint was not bytes32''), calls)
        else ((case rpcRequest ''eth_getTransactionReceipt'' (node_receipt node calls h) of
                 Inl e \<Rightarrow> (None, Some e)
               | Inr reply \<Rightarrow>
                   (case (reply, Option.bind reply rc_blockNumber) of
                      (Some receipt, Some blockNumber) \<Rightarrow>
                        if isBlockQuantity blockNumber \<and>
                           receiptContainsCommitment receipt (rt_pool (ri_runtime input)) commitment
                        then (Some blockNumber, None)
                        else (None, Some ''transaction receipt hint did not contain the commitment for this pool'')
                    | _ \<Rightarrow> (None, Some ''transaction receipt hint did not contain the commitment for this pool''))),
              calls @ [EthGetTransactionReceipt h]))"

definition block_hint :: "recovery_input \<Rightarrow> string option \<times> string option \<Rightarrow> string option \<times> string option" where
  "block_hint input hinted =
     (case (fst hinted, ri_blockNumberHint input) of
        (None, Some b) \<Rightarrow>
          if \<not> isBlockQuantity b
          then (None, Some (appendHintRejectedReason (snd hinted) ''block number hint was not a hex block quantity''))
          else (Some b, snd hinted)
      | _ \<Rightarrow> hinted)"

definition resolveRecoveryToBlock :: "root_node \<Rightarrow> recovery_input \<Rightarrow> rpc_call list \<Rightarrow> string option run" where
  "resolveRecoveryToBlock node input calls =
     (if \<not> pred_option isBlockQuantity (ri_toBlock input)
      then (Inl ''Expected RootAccepted recovery toBlock to be a hex block quantity.'', calls)
      else case ri_minConfirmations input of
        Some confirmations \<Rightarrow>
          if confirmations \<le> 0 then (Inl ''RootAccepted recovery minConfirmations must be positive.'', calls)
          else if ri_toBlock input \<noteq> None
          then (Inl ''RootAccepted recovery finality policy must use either toBlock or minConfirmations, not both.'', calls)
          else (case eth_blockNumber node calls of
              (Inl e, calls1) \<Rightarrow> (Inl e, calls1)
            | (Inr latestBlockHex, calls1) \<Rightarrow>
                (bind_res (bigint_result latestBlockHex) (\<lambda>latestBlock.
                   if latestBlock < confirmations
                   then Inl ''RootAccepted recovery minConfirmations exceeds the latest block.''
                   else Inr (Some (toBlockQuantity (latestBlock - confirmations)))), calls1))
      | None \<Rightarrow>
          if ri_toBlock input \<noteq> None then (Inr (ri_toBlock input), calls)
          else if rt_environment (ri_runtime input) = ''megaeth-mainnet''
          then (Inl ''RootAccepted recovery on mainnet requires an explicit finality policy.'', calls)
          else (Inr None, calls))"

definition fallback_logs ::
  "(string \<Rightarrow> string) \<Rightarrow> root_node \<Rightarrow> recovery_input \<Rightarrow> string option \<Rightarrow> string option \<Rightarrow> rpc_call list \<Rightarrow> hinted_logs run option" where
  "fallback_logs event_hash node input finalizedToBlock hintRejectedReason calls =
     (case latest_block_hex node finalizedToBlock calls of
        (Inl e, calls1) \<Rightarrow> Some (Inl e, calls1)
      | (Inr latestBlockHex, calls1) \<Rightarrow>
          map_option (\<lambda>(r, calls2).
              (bind_res r (\<lambda>logs. Inr \<lparr>hl_source = FromFallback, hl_logs = logs, hl_toBlock = latestBlockHex,
                                     hl_hintRejectedReason = hintRejectedReason\<rparr>), calls2))
            (fetchRootAcceptedLogs event_hash node (ri_runtime input)
               (Some (rt_poolDeploymentBlock (ri_runtime input))) (Some latestBlockHex) (ri_logChunkSize input) calls1))"

text \<open>The read up to the hinted block; whatever it throws only rejects the hint.\<close>

definition hinted_attempt ::
  "(string \<Rightarrow> string) \<Rightarrow> root_decoder \<Rightarrow> root_node \<Rightarrow> recovery_input \<Rightarrow> string \<Rightarrow> string option \<Rightarrow> string \<Rightarrow> rpc_call list
     \<Rightarrow> hinted_logs run option" where
  "hinted_attempt event_hash decode node input commitment finalizedToBlock hinted calls =
     Option.bind
       (fetchRootAcceptedLogs event_hash node (ri_runtime input)
          (Some (rt_poolDeploymentBlock (ri_runtime input))) (Some hinted) (ri_logChunkSize input) calls)
       (\<lambda>(fetched, calls1).
          case bind_res fetched (\<lambda>logs. bind_res (decodeRootAcceptedLogs decode logs) (\<lambda>decoded. Inr (logs, decoded))) of
            Inl e \<Rightarrow> fallback_logs event_hash node input finalizedToBlock (Some e) calls1
          | Inr (hintedLogs, decoded) \<Rightarrow>
              if decodedLogsConfirmHint decoded commitment (ri_leafIndexHint input)
              then Some (Inr \<lparr>hl_source = FromHint, hl_logs = hintedLogs, hl_toBlock = hinted,
                              hl_hintRejectedReason = None\<rparr>, calls1)
              else fallback_logs event_hash node input finalizedToBlock
                     (Some ''RootAccepted logs did not confirm the hinted commitment and leaf index'') calls1)"

definition fetchRecoveryHintedRootAcceptedLogs ::
  "(string \<Rightarrow> string) \<Rightarrow> root_decoder \<Rightarrow> root_node \<Rightarrow> recovery_input \<Rightarrow> rpc_call list \<Rightarrow> hinted_logs run option" where
  "fetchRecoveryHintedRootAcceptedLogs event_hash decode node input calls =
     (case assertBytes32_root (ri_commitment input) of
        Inl e \<Rightarrow> Some (Inl e, calls)
      | Inr commitment \<Rightarrow>
        (let (receipted, calls1) = receipt_hint node input commitment calls;
             (hintedToBlock, rejected) = block_hint input receipted in
         case resolveRecoveryToBlock node input calls1 of
           (Inl e, calls2) \<Rightarrow> Some (Inl e, calls2)
         | (Inr finalizedToBlock, calls2) \<Rightarrow>
             (case hintedToBlock of
                None \<Rightarrow> fallback_logs event_hash node input finalizedToBlock rejected calls2
              | Some hinted \<Rightarrow>
                  if \<not> pred_option (\<lambda>f. hex_value hinted \<le> hex_value f) finalizedToBlock
                  then Some (Inl ''RootAccepted hint block is newer than the configured recovery finality boundary.'', calls2)
                  else hinted_attempt event_hash decode node input commitment finalizedToBlock hinted calls2)))"

section \<open>The order does not depend on the order of arrival\<close>

definition pair_agrees :: "raw_root_log \<Rightarrow> raw_root_log \<Rightarrow> bool" where
  "pair_agrees a b \<longleftrightarrow>
     ((transaction_key a \<noteq> None \<and> transaction_key a = transaction_key b) \<or> block_key a = block_key b
        \<longrightarrow> canonicalLog a = canonicalLog b)"

definition logs_agree :: "raw_root_log set \<Rightarrow> bool" where
  "logs_agree S \<longleftrightarrow> (\<forall>a \<in> S. \<forall>b \<in> S. pair_agrees a b)"

fun kept :: "raw_root_log list \<Rightarrow> string set \<Rightarrow> raw_root_log list" where
  "kept [] K = []"
| "kept (lg # logs) K =
     (case transaction_key lg of
        None \<Rightarrow> lg # kept logs K
      | Some k \<Rightarrow> if k \<in> K then kept logs K else lg # kept logs (insert k K))"

definition loop_inv :: "raw_root_log set \<Rightarrow> (string \<times> raw_root_log) list \<Rightarrow> (string \<times> raw_root_log) list \<Rightarrow> bool" where
  "loop_inv S tx blk \<longleftrightarrow> logs_agree S \<and>
     (\<forall>k l. map_of tx k = Some l \<longrightarrow> l \<in> S \<and> transaction_key l = Some k) \<and>
     (\<forall>l \<in> S. \<forall>k. transaction_key l = Some k \<longrightarrow> map_of tx k \<noteq> None) \<and>
     (\<forall>k l. map_of blk k = Some l \<longrightarrow> l \<in> S \<and> block_key l = k) \<and>
     (\<forall>l \<in> S. map_of blk (block_key l) \<noteq> None)"

lemma pair_agrees_sym: "pair_agrees a b \<longleftrightarrow> pair_agrees b a"
  by (auto simp: pair_agrees_def)

lemma pair_agrees_refl [simp]: "pair_agrees a a"
  by (simp add: pair_agrees_def)

lemma logs_agree_insert: "logs_agree (insert a S) \<longleftrightarrow> logs_agree S \<and> (\<forall>b \<in> S. pair_agrees a b)"
  using pair_agrees_sym by (auto simp: logs_agree_def)

lemma block_key_canonical: "canonicalLog a = canonicalLog b \<Longrightarrow> block_key a = block_key b"
proof -
  assume "canonicalLog a = canonicalLog b"
  then have "map_option to_lower (rl_blockNumber a) = map_option to_lower (rl_blockNumber b)"
    "map_option to_lower (rl_logIndex a) = map_option to_lower (rl_logIndex b)"
    by (simp_all add: canonicalLog_def)
  then show ?thesis
    by (cases "rl_blockNumber a"; cases "rl_blockNumber b"; cases "rl_logIndex a"; cases "rl_logIndex b")
      (simp_all add: block_key_def or_else_def)
qed

lemma known_transaction:
  assumes "loop_inv S tx blk" "previous_by_transaction tx lg = Some p"
  shows "p \<in> S" "transaction_key lg \<noteq> None" "transaction_key p = transaction_key lg"
    "(\<forall>b \<in> S. pair_agrees lg b) \<longleftrightarrow> canonicalLog p = canonicalLog lg"
proof -
  obtain k where k: "transaction_key lg = Some k" "map_of tx k = Some p"
    using assms(2) by (auto simp: previous_by_transaction_def split: Option.bind_splits)
  then show p: "p \<in> S" "transaction_key lg \<noteq> None" "transaction_key p = transaction_key lg"
    using assms(1) by (auto simp: loop_inv_def)
  show "(\<forall>b \<in> S. pair_agrees lg b) \<longleftrightarrow> canonicalLog p = canonicalLog lg"
  proof
    assume "\<forall>b \<in> S. pair_agrees lg b"
    with p show "canonicalLog p = canonicalLog lg" by (auto simp: pair_agrees_def)
  next
    assume same: "canonicalLog p = canonicalLog lg"
    have "\<forall>b \<in> S. pair_agrees p b"
      using assms(1) p(1) by (simp add: loop_inv_def logs_agree_def)
    then show "\<forall>b \<in> S. pair_agrees lg b"
      using same p(3) block_key_canonical [OF same] unfolding pair_agrees_def by metis
  qed
qed

lemma new_transaction:
  assumes "loop_inv S tx blk" "previous_by_transaction tx lg = None"
  shows "b \<in> S \<Longrightarrow> transaction_key lg \<noteq> None \<Longrightarrow> transaction_key b \<noteq> transaction_key lg"
    "(\<forall>b \<in> S. pair_agrees lg b) \<longleftrightarrow>
       pred_option (\<lambda>previous. sameRootAcceptedLog previous lg) (map_of blk (block_key lg))"
proof -
  have key: "transaction_key b \<noteq> transaction_key lg" if "b \<in> S" "transaction_key lg \<noteq> None" for b
    using assms that by (auto simp: loop_inv_def previous_by_transaction_def)
  then show "b \<in> S \<Longrightarrow> transaction_key lg \<noteq> None \<Longrightarrow> transaction_key b \<noteq> transaction_key lg" by blast
  have agree: "logs_agree S" and blk: "\<And>k l. map_of blk k = Some l \<Longrightarrow> l \<in> S \<and> block_key l = k"
    "\<And>l. l \<in> S \<Longrightarrow> map_of blk (block_key l) \<noteq> None"
    using assms(1) by (auto simp: loop_inv_def)
  show "(\<forall>b \<in> S. pair_agrees lg b) \<longleftrightarrow>
       pred_option (\<lambda>previous. sameRootAcceptedLog previous lg) (map_of blk (block_key lg))"
  proof (cases "map_of blk (block_key lg)")
    case None
    then have "block_key b \<noteq> block_key lg" if "b \<in> S" for b
      using blk(2) [OF that] by auto
    then have "\<forall>b \<in> S. pair_agrees lg b"
      using key unfolding pair_agrees_def by metis
    with None show ?thesis by simp
  next
    case (Some q)
    then have q: "q \<in> S" "block_key q = block_key lg" using blk(1) by auto
    have "(\<forall>b \<in> S. pair_agrees lg b) \<longleftrightarrow> canonicalLog q = canonicalLog lg"
    proof
      assume "\<forall>b \<in> S. pair_agrees lg b"
      with q show "canonicalLog q = canonicalLog lg" by (auto simp: pair_agrees_def)
    next
      assume same: "canonicalLog q = canonicalLog lg"
      have "\<forall>b \<in> S. pair_agrees q b"
        using agree q(1) by (simp add: logs_agree_def)
      then show "\<forall>b \<in> S. pair_agrees lg b"
        using same q(2) key unfolding pair_agrees_def by metis
    qed
    with Some show ?thesis by (simp add: sameRootAcceptedLog_def)
  qed
qed

lemma loop_inv_known:
  assumes "loop_inv S tx blk" "previous_by_transaction tx lg = Some p" "canonicalLog p = canonicalLog lg"
  shows "loop_inv (insert lg S) tx blk"
proof -
  note k = known_transaction [OF assms(1,2)]
  have b: "block_key p = block_key lg" using assms(3) by (rule block_key_canonical)
  have p: "\<forall>k. transaction_key p = Some k \<longrightarrow> map_of tx k \<noteq> None" "map_of blk (block_key p) \<noteq> None"
    using assms(1) k(1) by (simp_all add: loop_inv_def)
  have "\<forall>c \<in> S. pair_agrees lg c" using k(4) assms(3) by blast
  with assms(1) p [unfolded k(3) b] show ?thesis
    by (simp add: loop_inv_def logs_agree_insert)
qed

lemma loop_inv_new:
  assumes "loop_inv S tx blk" "previous_by_transaction tx lg = None" "\<forall>b \<in> S. pair_agrees lg b"
  shows "loop_inv (insert lg S) (remember_transaction tx lg) (AList.update (block_key lg) lg blk)"
  using assms
  by (auto simp: loop_inv_def logs_agree_insert remember_transaction_def update_conv' split: option.splits if_splits)

lemma normalize_loop_iff:
  assumes "loop_inv S tx blk"
  shows "normalize_loop logs tx blk normalized = Inr ns \<longleftrightarrow>
    (\<forall>l \<in> set logs. positioned l) \<and> logs_agree (S \<union> set logs) \<and> ns = normalized @ kept logs (dom (map_of tx))"
  using assms
proof (induction logs arbitrary: S tx blk normalized)
  case Nil
  then show ?case by (auto simp: loop_inv_def)
next
  case (Cons lg logs)
  have un: "S \<union> set (lg # logs) = insert lg S \<union> set logs" by simp
  have sub: "logs_agree (insert lg S \<union> set logs) \<Longrightarrow> \<forall>b \<in> S. pair_agrees lg b"
    by (simp add: logs_agree_def)
  show ?case
  proof (cases "previous_by_transaction tx lg")
    case (Some p)
    note k = known_transaction [OF Cons.prems Some]
    have kept: "kept (lg # logs) (dom (map_of tx)) = kept logs (dom (map_of tx))"
      using Some by (auto simp: previous_by_transaction_def split: Option.bind_splits)
    show ?thesis
    proof (cases "canonicalLog p = canonicalLog lg")
      case True
      with Some have "normalize_loop (lg # logs) tx blk normalized = Inr ns \<longleftrightarrow>
          positioned lg \<and> normalize_loop logs tx blk normalized = Inr ns"
        by (simp add: sameRootAcceptedLog_def)
      with Cons.IH [OF loop_inv_known [OF Cons.prems Some True]] kept un show ?thesis by auto
    next
      case False
      then have "\<not> logs_agree (insert lg S \<union> set logs)"
        using sub k(4) by blast
      with False Some un show ?thesis by (simp add: sameRootAcceptedLog_def)
    qed
  next
    case None
    note k = new_transaction [OF Cons.prems None]
    have kept: "kept (lg # logs) (dom (map_of tx)) = lg # kept logs (dom (map_of (remember_transaction tx lg)))"
      using None by (auto simp: previous_by_transaction_def remember_transaction_def update_conv' split: option.splits Option.bind_splits)
    show ?thesis
    proof (cases "\<forall>b \<in> S. pair_agrees lg b")
      case True
      with None k(2) have "normalize_loop (lg # logs) tx blk normalized = Inr ns \<longleftrightarrow>
          positioned lg \<and> normalize_loop logs (remember_transaction tx lg) (AList.update (block_key lg) lg blk) (normalized @ [lg]) = Inr ns"
        by simp
      with Cons.IH [OF loop_inv_new [OF Cons.prems None True]] kept un show ?thesis by auto
    next
      case False
      then have "\<not> logs_agree (insert lg S \<union> set logs)"
        using sub by blast
      with False None k(2) un show ?thesis by simp
    qed
  qed
qed

lemma normalize_iff:
  "normalizeRootAcceptedLogs logs = Inr ns \<longleftrightarrow>
    (\<forall>l \<in> set logs. positioned l) \<and> logs_agree (set logs) \<and> ns = sort_key log_position (kept logs {})"
proof -
  have "loop_inv {} [] []" by (simp add: loop_inv_def logs_agree_def)
  from normalize_loop_iff [OF this] show ?thesis
    by (auto simp: normalizeRootAcceptedLogs_def res_simps)
qed

lemma set_kept: "set (kept logs K) \<subseteq> set logs"
proof (induction logs arbitrary: K)
  case (Cons lg logs)
  have "set (kept (lg # logs) K) \<subseteq> insert lg (set (kept logs K) \<union> (\<Union>k. set (kept logs (insert k K))))"
    by (auto split: option.splits if_splits)
  with Cons show ?case by fastforce
qed simp

lemma kept_unkeyed: "filter (\<lambda>l. transaction_key l = None) (kept logs K) = filter (\<lambda>l. transaction_key l = None) logs"
  by (induction logs arbitrary: K) (auto split: option.splits)

abbreviation keyed :: "raw_root_log \<Rightarrow> bool" where
  "keyed l \<equiv> transaction_key l \<noteq> None"

lemma kept_keyed:
  "distinct (map (\<lambda>l. the (transaction_key l)) (filter keyed (kept logs K))) \<and>
   set (map (\<lambda>l. the (transaction_key l)) (filter keyed (kept logs K))) =
     {k. \<exists>l \<in> set logs. transaction_key l = Some k} - K"
proof (induction logs arbitrary: K)
  case (Cons lg logs)
  show ?case
  proof (cases "transaction_key lg")
    case None
    with Cons [of K] show ?thesis by auto
  next
    case (Some k)
    with Cons [of K] Cons [of "insert k K"] show ?thesis by (cases "k \<in> K") auto
  qed
qed simp

definition canonical_of :: "raw_root_log set \<Rightarrow> string \<Rightarrow> raw_root_log" where
  "canonical_of S k = canonicalLog (SOME l. l \<in> S \<and> transaction_key l = Some k)"

lemma canonical_of:
  assumes "logs_agree S" "l \<in> S" "keyed l"
  shows "canonical_of S (the (transaction_key l)) = canonicalLog l"
proof -
  let ?m = "SOME m. m \<in> S \<and> transaction_key m = Some (the (transaction_key l))"
  have "l \<in> S \<and> transaction_key l = Some (the (transaction_key l))"
    using assms(2,3) by simp
  then have m: "?m \<in> S \<and> transaction_key ?m = Some (the (transaction_key l))"
    by (rule someI)
  then have "pair_agrees l ?m"
    using assms(1,2) by (simp only: logs_agree_def)
  moreover have "transaction_key l = transaction_key ?m"
    using m option.collapse [OF assms(3)] by simp
  ultimately have "canonicalLog l = canonicalLog ?m"
    using assms(3) unfolding pair_agrees_def by blast
  then show ?thesis
    by (simp only: canonical_of_def)
qed

text \<open>The kept logs, up to the case of their digits, depend on which hashed logs occur and on how often the others do.\<close>

lemma kept_canonical_mset:
  assumes "logs_agree (set logs)" "set logs = set logs'"
    "mset (filter (\<lambda>l. transaction_key l = None) logs) = mset (filter (\<lambda>l. transaction_key l = None) logs')"
  shows "mset (map canonicalLog (kept logs {})) = mset (map canonicalLog (kept logs' {}))"
proof -
  let ?key = "\<lambda>l. the (transaction_key l)"
  let ?keyed = "\<lambda>ls. filter keyed (kept ls {})"
  have keyed: "map canonicalLog (?keyed ls) = map (canonical_of (set logs)) (map ?key (?keyed ls))"
    if "set ls = set logs" for ls
  proof -
    have "canonical_of (set logs) (?key l) = canonicalLog l" if "l \<in> set (?keyed ls)" for l
      using that \<open>set ls = set logs\<close> set_kept [of ls "{}"] by (intro canonical_of [OF assms(1)]) auto
    then show ?thesis by (simp only: map_map o_def cong: map_cong)
  qed
  have "mset (map ?key (?keyed logs)) = mset (map ?key (?keyed logs'))"
    using kept_keyed [of logs "{}"] kept_keyed [of logs' "{}"] assms(2)
    by (intro iffD1 [OF set_eq_iff_mset_eq_distinct]) auto
  then have "mset (map canonicalLog (?keyed logs)) = mset (map canonicalLog (?keyed logs'))"
    using assms(2) by (simp only: keyed mset_map)
  moreover have "mset (map canonicalLog ls) =
      mset (map canonicalLog (filter keyed ls)) + mset (map canonicalLog (filter (\<lambda>l. transaction_key l = None) ls))" for ls
    by (induction ls) auto
  moreover have "mset (map canonicalLog (filter (\<lambda>l. transaction_key l = None) (kept logs {}))) =
      mset (map canonicalLog (filter (\<lambda>l. transaction_key l = None) (kept logs' {})))"
    using assms(3) by (simp only: kept_unkeyed mset_map)
  ultimately show ?thesis
    by metis
qed

lemma positionedE:
  assumes "positioned l"
  obtains b i where "rl_blockNumber l = Some b" "rl_logIndex l = Some i" "isBlockQuantity b" "isBlockQuantity i"
  using assms by (auto simp: positioned_def or_else_def isBlockQuantity_def starts_with_def split: option.splits)

lemma hex_value_quantity_lower: "isBlockQuantity b \<Longrightarrow> hex_value (to_lower b) = hex_value b"
  by (erule isBlockQuantityE) (simp add: hex_value_def)

lemma log_position_canonical: "positioned l \<Longrightarrow> log_position (canonicalLog l) = log_position l"
  by (erule positionedE) (simp add: log_position_def canonicalLog_def or_else_def hex_value_quantity_lower)

lemma same_position:
  assumes "positioned a" "positioned b" "log_position a = log_position b"
  shows "block_key a = block_key b"
proof -
  obtain x i y j where "rl_blockNumber a = Some x" "rl_logIndex a = Some i" "isBlockQuantity x" "isBlockQuantity i"
    "rl_blockNumber b = Some y" "rl_logIndex b = Some j" "isBlockQuantity y" "isBlockQuantity j"
    using assms(1,2) by (elim positionedE)
  with assms(3) show ?thesis
    using quantity_lower_iff [of x y] quantity_lower_iff [of i j]
    by (simp add: log_position_def block_key_def or_else_def)
qed

lemma canonical_by_position:
  assumes "logs_agree S" "\<forall>l \<in> S. positioned l"
  shows "inj_on log_position (canonicalLog ` S)"
proof (rule inj_onI)
  fix x y
  assume "x \<in> canonicalLog ` S" "y \<in> canonicalLog ` S" and eq: "log_position x = log_position y"
  then obtain a b where ab: "a \<in> S" "b \<in> S" "x = canonicalLog a" "y = canonicalLog b"
    by blast
  then have "block_key a = block_key b"
    using assms(2) eq by (intro same_position) (auto simp: log_position_canonical)
  moreover have "pair_agrees a b"
    using assms(1) ab(1,2) unfolding logs_agree_def by blast
  ultimately show "x = y"
    unfolding ab pair_agrees_def by blast
qed

lemma normalized_canonical:
  assumes "logs_agree (set logs)" "\<forall>l \<in> set logs. positioned l"
  shows "map canonicalLog (sort_key log_position (kept logs {})) =
    sort_key log_position (map canonicalLog (kept logs {}))"
proof (rule sym, rule sort_key_inj_key_eq)
  let ?ns = "sort_key log_position (kept logs {})"
  have sub: "set ?ns \<subseteq> set logs"
    using set_kept by simp
  show "mset (map canonicalLog (kept logs {})) = mset (map canonicalLog ?ns)" by simp
  show "inj_on log_position (set (map canonicalLog (kept logs {})))"
    using set_kept by (intro inj_on_subset [OF canonical_by_position [OF assms]]) auto
  have "map log_position (map canonicalLog ?ns) = map log_position ?ns"
    using assms(2) sub log_position_canonical by (auto simp del: set_sort)
  then show "sorted (map log_position (map canonicalLog ?ns))"
    by (simp only: sorted_sort_key)
qed

lemma normalize_cong:
  assumes "set logs = set logs'"
    "mset (filter (\<lambda>l. transaction_key l = None) logs) = mset (filter (\<lambda>l. transaction_key l = None) logs')"
    "normalizeRootAcceptedLogs logs = Inr ns"
  shows "\<exists>ns'. normalizeRootAcceptedLogs logs' = Inr ns' \<and> map canonicalLog ns' = map canonicalLog ns"
proof -
  have a: "\<forall>l \<in> set logs. positioned l" "logs_agree (set logs)" "ns = sort_key log_position (kept logs {})"
    using assms(3) by (simp_all add: normalize_iff)
  let ?ns' = "sort_key log_position (kept logs' {})"
  have "map canonicalLog ?ns' = sort_key log_position (map canonicalLog (kept logs' {}))"
    using a(1,2) assms(1) by (intro normalized_canonical) auto
  also have "\<dots> = sort_key log_position (map canonicalLog (kept logs {}))"
  proof (rule sort_key_inj_key_eq)
    show "mset (map canonicalLog (kept logs' {})) = mset (sort_key log_position (map canonicalLog (kept logs {})))"
      using kept_canonical_mset [OF a(2) assms(1,2)] by simp
    have "set (map canonicalLog (kept logs' {})) \<subseteq> canonicalLog ` set logs"
      using set_kept [of logs' "{}"] assms(1) by auto
    with canonical_by_position [OF a(2,1)] show "inj_on log_position (set (map canonicalLog (kept logs' {})))"
      by (rule inj_on_subset)
  qed simp
  also have "\<dots> = map canonicalLog ns"
    using normalized_canonical [OF a(2,1)] a(3) by simp
  finally show ?thesis
    using a assms(1) by (intro exI [of _ ?ns']) (simp add: normalize_iff)
qed

section \<open>What a read returns\<close>

text \<open>\<open>full_read\<close>: the requests cover every block from the first to the last once and in order, and the logs are their replies.\<close>

definition full_read ::
  "('l, 'r) rpc_node \<Rightarrow> string \<Rightarrow> topic_filter \<Rightarrow> int \<Rightarrow> int \<Rightarrow> int \<Rightarrow> rpc_call list \<Rightarrow> 'l list \<Rightarrow> rpc_call list \<Rightarrow> bool" where
  "full_read node pool topics chunk firstBlock lastBlock calls logs calls' \<longleftrightarrow>
     (\<exists>ranges chunks. concat (map (\<lambda>(a, b). [a..b]) ranges) = [firstBlock..lastBlock] \<and>
        (\<forall>(a, b) \<in> set ranges. a \<le> b \<and> b \<le> a + chunk) \<and>
        calls' = calls @ map (range_call pool topics) ranges \<and>
        replies node calls (map (range_call pool topics) ranges) = map Inr chunks \<and> logs = concat chunks)"

lemma fetch_chunks_full:
  assumes "0 < chunk" "fetch_chunks node pool topics chunk latestBlock cursor [] calls = Some (Inr logs, calls')"
  shows "full_read node pool topics chunk cursor latestBlock calls logs calls'"
proof -
  let ?ranges = "chunk_ranges chunk latestBlock cursor"
  let ?plan = "map (range_call pool topics) ?ranges"
  have f: "collect_replies [] (replies node calls ?plan) = Inr logs"
    "calls' = calls @ take (asked (replies node calls ?plan)) ?plan"
    using assms(2) by (simp_all add: fetch_chunks_eq [OF assms(1)] Let_def chunk_calls_def)
  then obtain chunks where c: "replies node calls ?plan = map Inr chunks" "logs = concat chunks"
    by (auto simp: collect_replies_Inr)
  from arg_cong [OF c(1), of length] have "length chunks = length ?plan" by simp
  then have "asked (replies node calls ?plan) = length ?plan"
    by (simp add: c(1))
  with f(2) have "calls' = calls @ ?plan" by simp
  moreover have "\<forall>(a, b) \<in> set ?ranges. a \<le> b \<and> b \<le> a + chunk"
    using chunk_ranges_bound by fast
  ultimately show ?thesis
    unfolding full_read_def using chunk_ranges_cover [OF assms(1)] c by blast
qed

lemma fetch_chunks_returns: "0 < chunk \<Longrightarrow> \<exists>out. fetch_chunks node pool topics chunk latestBlock cursor logs calls = Some out"
  by (simp add: fetch_chunks_eq Let_def)

lemma fetchRootAcceptedLogs_returns:
  "\<exists>out. fetchRootAcceptedLogs event_hash node runtime fromBlockInput toBlock logChunkSize calls = Some out"
  using fetch_chunks_returns [of "or_else logChunkSize 50000"]
  by (auto simp: fetchRootAcceptedLogs_def Let_def not_le split: prod.splits sum.splits)

lemma fetchRootAcceptedLogs_Inr:
  assumes "fetchRootAcceptedLogs event_hash node runtime fromBlockInput toBlock logChunkSize calls = Some (Inr logs, calls')"
  shows "isBlockQuantity (or_else fromBlockInput (rt_poolDeploymentBlock runtime)) \<and> 0 < or_else logChunkSize 50000 \<and>
    pred_option isBlockQuantity toBlock \<and>
    (\<exists>latestBlockHex calls1 latestBlock. latest_block_hex node toBlock calls = (Inr latestBlockHex, calls1) \<and>
       js_bigint latestBlockHex = Some latestBlock \<and>
       full_read node (rt_pool runtime) (OneTopic (ROOT_ACCEPTED_TOPIC event_hash)) (or_else logChunkSize 50000)
         (hex_value (or_else fromBlockInput (rt_poolDeploymentBlock runtime))) latestBlock calls1 logs calls')"
  using assms
  by (auto simp: fetchRootAcceptedLogs_def Let_def bigint_result_def intro!: fetch_chunks_full
      split: if_splits prod.splits sum.splits option.splits)

lemma fetchRootAcceptedLogs_to:
  assumes "fetchRootAcceptedLogs event_hash node runtime (Some (rt_poolDeploymentBlock runtime)) (Some b) logChunkSize calls =
    Some (Inr logs, calls')"
  shows "isBlockQuantity b \<and>
    full_read node (rt_pool runtime) (OneTopic (ROOT_ACCEPTED_TOPIC event_hash)) (or_else logChunkSize 50000)
      (hex_value (rt_poolDeploymentBlock runtime)) (hex_value b) calls logs calls'"
  using fetchRootAcceptedLogs_Inr [OF assms] by (auto simp: latest_block_hex_def or_else_def js_bigint_quantity)

lemmas fetchRoot_not_None = fetchRootAcceptedLogs_returns [folded not_None_eq]

lemma fallback_logs_returns: "fallback_logs event_hash node input finalizedToBlock reason calls \<noteq> None"
  unfolding fallback_logs_def
  by (simp only: map_option_is_None option.distinct fetchRoot_not_None simp_thms split: prod.splits sum.splits)

lemma hinted_attempt_returns:
  "hinted_attempt event_hash decode node input commitment finalizedToBlock hinted calls \<noteq> None"
proof -
  obtain fetched calls1 where "fetchRootAcceptedLogs event_hash node (ri_runtime input)
      (Some (rt_poolDeploymentBlock (ri_runtime input))) (Some hinted) (ri_logChunkSize input) calls = Some (fetched, calls1)"
    using fetchRoot_not_None by fast
  then show ?thesis
    using fallback_logs_returns unfolding hinted_attempt_def
    by (simp only: Option.bind.bind_lunit prod.case option.distinct simp_thms if_split_eq1 split: sum.splits prod.splits if_splits)
qed

lemma hinted_returns: "fetchRecoveryHintedRootAcceptedLogs event_hash decode node input calls \<noteq> None"
  unfolding fetchRecoveryHintedRootAcceptedLogs_def Let_def
  by (simp only: fallback_logs_returns hinted_attempt_returns option.distinct simp_thms
      split: sum.splits prod.splits option.splits if_splits)

section \<open>Finality\<close>

text \<open>The last block a recovery with a finality policy may read.\<close>

definition final_block :: "root_node \<Rightarrow> recovery_input \<Rightarrow> rpc_call list \<Rightarrow> string \<Rightarrow> bool" where
  "final_block node input calls b \<longleftrightarrow>
     (ri_minConfirmations input = None \<and> ri_toBlock input = Some b) \<or>
     (\<exists>confirmations latestBlockHex latestBlock. ri_minConfirmations input = Some confirmations \<and> 0 < confirmations \<and>
        rpcRequest ''eth_blockNumber'' (node_blockNumber node calls) = Inr latestBlockHex \<and>
        js_bigint latestBlockHex = Some latestBlock \<and> confirmations \<le> latestBlock \<and>
        b = toBlockQuantity (latestBlock - confirmations))"

lemma resolve_final:
  assumes "resolveRecoveryToBlock node input calls = (Inr f, calls')"
  shows "(case f of Some b \<Rightarrow> final_block node input calls b
          | None \<Rightarrow> rt_environment (ri_runtime input) \<noteq> ''megaeth-mainnet'' \<and>
                    ri_toBlock input = None \<and> ri_minConfirmations input = None)"
  using assms
  by (auto simp: resolveRecoveryToBlock_def final_block_def eth_blockNumber_def bigint_result_def res_simps not_less not_le
      split: if_splits option.splits sum.splits prod.splits)

definition read_from_deployment :: "(string \<Rightarrow> string) \<Rightarrow> root_node \<Rightarrow> recovery_input \<Rightarrow> string \<Rightarrow> raw_root_log list \<Rightarrow> bool" where
  "read_from_deployment event_hash node input b logs \<longleftrightarrow> isBlockQuantity b \<and>
     (\<exists>calls calls'. full_read node (rt_pool (ri_runtime input)) (OneTopic (ROOT_ACCEPTED_TOPIC event_hash))
        (or_else (ri_logChunkSize input) 50000) (hex_value (rt_poolDeploymentBlock (ri_runtime input))) (hex_value b)
        calls logs calls')"

definition confirms_hint :: "root_decoder \<Rightarrow> recovery_input \<Rightarrow> raw_root_log list \<Rightarrow> bool" where
  "confirms_hint decode input logs \<longleftrightarrow>
     (\<exists>decoded i. decodeRootAcceptedLogs decode logs = Inr decoded \<and> i < length (decoded_leaves decoded) \<and>
        to_lower (decoded_leaves decoded ! i) = to_lower (ri_commitment input) \<and>
        pred_option (num_eq (jsint (int i))) (ri_leafIndexHint input))"

lemma fallback_logs_Inr:
  assumes "fallback_logs event_hash node input f reason calls = Some (Inr h, calls')"
  shows "hl_source h = FromFallback \<and> read_from_deployment event_hash node input (hl_toBlock h) (hl_logs h) \<and>
    (\<forall>b. f = Some b \<longrightarrow> hl_toBlock h = b)"
proof -
  obtain b calls1 logs where b: "latest_block_hex node f calls = (Inr b, calls1)"
    "fetchRootAcceptedLogs event_hash node (ri_runtime input) (Some (rt_poolDeploymentBlock (ri_runtime input)))
       (Some b) (ri_logChunkSize input) calls1 = Some (Inr logs, calls')"
    "h = \<lparr>hl_source = FromFallback, hl_logs = logs, hl_toBlock = b, hl_hintRejectedReason = reason\<rparr>"
    using assms by (auto simp: fallback_logs_def res_simps split: prod.splits sum.splits)
  show ?thesis
    using fetchRootAcceptedLogs_to [OF b(2)] b(1,3)
    by (auto simp: read_from_deployment_def latest_block_hex_def)
qed

lemma decodedLogsConfirmHint_found:
  assumes "decodedLogsConfirmHint decoded commitment hint"
  shows "\<exists>i < length (decoded_leaves decoded). to_lower (decoded_leaves decoded ! i) = to_lower commitment \<and>
    pred_option (num_eq (jsint (int i))) hint"
proof -
  let ?ls = "decoded_leaves decoded"
  have f: "0 \<le> find_leaf ?ls commitment" "pred_option (num_eq (jsint (find_leaf ?ls commitment))) hint"
    using assms by (auto simp: decodedLogsConfirmHint_def Let_def split: if_splits option.splits)
  then have "find_leaf ?ls commitment < int (length ?ls)"
    "to_lower (?ls ! nat (find_leaf ?ls commitment)) = to_lower commitment"
    using find_leaf_correct [of ?ls commitment] by auto
  with f show ?thesis
    by (intro exI [of _ "nat (find_leaf ?ls commitment)"]) (auto simp: nat_less_iff)
qed

lemma hinted_attempt_Inr:
  assumes "hinted_attempt event_hash decode node input commitment f hinted calls = Some (Inr h, calls')"
    "commitment = ri_commitment input"
  shows "read_from_deployment event_hash node input (hl_toBlock h) (hl_logs h) \<and>
    (if hl_source h = FromHint then hl_toBlock h = hinted \<and> confirms_hint decode input (hl_logs h)
     else \<forall>b. f = Some b \<longrightarrow> hl_toBlock h = b)"
proof -
  obtain fetched calls1 where r: "fetchRootAcceptedLogs event_hash node (ri_runtime input)
      (Some (rt_poolDeploymentBlock (ri_runtime input))) (Some hinted) (ri_logChunkSize input) calls = Some (fetched, calls1)"
    using fetchRoot_not_None by fast
  let ?both = "bind_res fetched (\<lambda>logs. bind_res (decodeRootAcceptedLogs decode logs) (\<lambda>decoded. Inr (logs, decoded)))"
  note run = assms(1) [unfolded hinted_attempt_def r Option.bind.bind_lunit prod.case]
  show ?thesis
  proof (cases ?both)
    case (Inl e)
    with run fallback_logs_Inr show ?thesis by fastforce
  next
    case (Inr p)
    obtain logs decoded where p: "p = (logs, decoded)" by (cases p)
    then have ok: "fetched = Inr logs" "decodeRootAcceptedLogs decode logs = Inr decoded"
      using Inr by (auto simp: res_simps)
    show ?thesis
    proof (cases "decodedLogsConfirmHint decoded commitment (ri_leafIndexHint input)")
      case True
      with run Inr p have h: "h = \<lparr>hl_source = FromHint, hl_logs = logs, hl_toBlock = hinted, hl_hintRejectedReason = None\<rparr>"
        by simp
      from decodedLogsConfirmHint_found [OF True] ok(2) assms(2) have "confirms_hint decode input logs"
        unfolding confirms_hint_def by blast
      moreover have "read_from_deployment event_hash node input hinted logs"
        using fetchRootAcceptedLogs_to [OF r [unfolded ok(1)]] unfolding read_from_deployment_def by blast
      ultimately show ?thesis by (simp add: h)
    next
      case False
      with run Inr p have "fallback_logs event_hash node input f
          (Some ''RootAccepted logs did not confirm the hinted commitment and leaf index'') calls1 = Some (Inr h, calls')"
        by (simp only: sum.case prod.case if_False)
      from fallback_logs_Inr [OF this] show ?thesis by simp
    qed
  qed
qed

text \<open>
  C23: What hinted recovery returns is safe to reconstruct from. The logs are all the pool's
  \<open>RootAccepted\<close> logs from its deployment to the block it reports, read once and in order; if they
  come from a hint, they hold the wanted commitment, at the hinted leaf index if there is one. On
  mainnet, or wherever a finality policy is given, that block is not past the policy's block, and
  it is the policy's block when the hint was not used.
\<close>

theorem hinted_recovery_safe:
  assumes "fetchRecoveryHintedRootAcceptedLogs event_hash decode node input [] = Some (Inr h, calls)"
  shows "read_from_deployment event_hash node input (hl_toBlock h) (hl_logs h) \<and>
    (hl_source h = FromHint \<longrightarrow> confirms_hint decode input (hl_logs h)) \<and>
    (rt_environment (ri_runtime input) = ''megaeth-mainnet'' \<or> ri_toBlock input \<noteq> None \<or> ri_minConfirmations input \<noteq> None \<longrightarrow>
       (\<exists>before b. final_block node input before b \<and> hex_value (hl_toBlock h) \<le> hex_value b \<and>
          (hl_source h = FromFallback \<longrightarrow> hl_toBlock h = b)))"
proof -
  have ok: "assertBytes32_root (ri_commitment input) = Inr (ri_commitment input)"
    using assms by (auto simp: fetchRecoveryHintedRootAcceptedLogs_def assertBytes32_root_def split: if_splits)
  obtain receipted calls1 where r: "receipt_hint node input (ri_commitment input) [] = (receipted, calls1)"
    by fastforce
  obtain hinted rejected where b: "block_hint input receipted = (hinted, rejected)" by fastforce
  note run = assms [unfolded fetchRecoveryHintedRootAcceptedLogs_def ok sum.case Let_def r b prod.case]
  obtain f calls2 where f: "resolveRecoveryToBlock node input calls1 = (Inr f, calls2)"
    using run by (auto split: prod.splits sum.splits)
  note policy = resolve_final [OF f]
  show ?thesis
  proof (cases hinted)
    case None
    with run f have "fallback_logs event_hash node input f rejected calls2 = Some (Inr h, calls)" by simp
    from fallback_logs_Inr [OF this] policy show ?thesis by (cases f) auto
  next
    case (Some hint)
    with run f have bound: "pred_option (\<lambda>f. hex_value hint \<le> hex_value f) f"
      and att: "hinted_attempt event_hash decode node input (ri_commitment input) f hint calls2 = Some (Inr h, calls)"
      by (auto split: if_splits)
    from hinted_attempt_Inr [OF att refl] bound policy show ?thesis
      by (cases f; cases "hl_source h") auto
  qed
qed

text \<open>
  C24: Reading returns, whatever the node answers: both readers give a result or a thrown error after
  finitely many requests. When it is a result, the requests cover every block of the wanted range
  exactly once and in order, each for at most one block more than the chunk size, and the logs are
  the replies; a step that is not positive, for which the loop would not end, is refused.
\<close>

theorem root_log_reads_return:
  "fetchRecoveryHintedRootAcceptedLogs event_hash decode node input calls \<noteq> None \<and>
   (\<exists>outcome calls'. fetchRootAcceptedLogs event_hash node runtime fromBlock toBlock chunk calls = Some (outcome, calls') \<and>
      (case outcome of
         Inl e \<Rightarrow> True
       | Inr logs \<Rightarrow>
           \<exists>latest_hex calls1 latest. latest_block_hex node toBlock calls = (Inr latest_hex, calls1) \<and>
             js_bigint latest_hex = Some latest \<and> 0 < or_else chunk 50000 \<and>
             full_read node (rt_pool runtime) (OneTopic (ROOT_ACCEPTED_TOPIC event_hash)) (or_else chunk 50000)
               (hex_value (or_else fromBlock (rt_poolDeploymentBlock runtime))) latest calls1 logs calls'))"
proof -
  obtain outcome calls' where r: "fetchRootAcceptedLogs event_hash node runtime fromBlock toBlock chunk calls = Some (outcome, calls')"
    using fetchRoot_not_None by fast
  show ?thesis
  proof (intro conjI exI hinted_returns, rule r)
    show "case outcome of Inl e \<Rightarrow> True
       | Inr logs \<Rightarrow>
           \<exists>latest_hex calls1 latest. latest_block_hex node toBlock calls = (Inr latest_hex, calls1) \<and>
             js_bigint latest_hex = Some latest \<and> 0 < or_else chunk 50000 \<and>
             full_read node (rt_pool runtime) (OneTopic (ROOT_ACCEPTED_TOPIC event_hash)) (or_else chunk 50000)
               (hex_value (or_else fromBlock (rt_poolDeploymentBlock runtime))) latest calls1 logs calls'"
    proof (cases outcome)
      case (Inr logs)
      with fetchRootAcceptedLogs_Inr r show ?thesis by (simp only: sum.case) blast
    qed simp
  qed
qed

text \<open>
  C29: The order in which a node returns the logs does not matter, nor do repeated logs that carry a
  transaction hash: two lists with the same logs are both refused, or normalise to the same list up
  to the case of hex digits, sorted by block and log index (to the same list if they are in lower
  case).
\<close>

theorem normalized_logs_order_free:
  assumes "set logs = set logs'"
    "mset (filter (\<lambda>l. transaction_key l = None) logs) = mset (filter (\<lambda>l. transaction_key l = None) logs')"
  shows "(\<exists>e e'. normalizeRootAcceptedLogs logs = Inl e \<and> normalizeRootAcceptedLogs logs' = Inl e') \<or>
    (\<exists>ns ns'. normalizeRootAcceptedLogs logs = Inr ns \<and> normalizeRootAcceptedLogs logs' = Inr ns' \<and>
       map canonicalLog ns = map canonicalLog ns' \<and> sorted (map log_position ns) \<and>
       ((\<forall>l \<in> set logs. canonicalLog l = l) \<longrightarrow> ns = ns'))"
proof (cases "normalizeRootAcceptedLogs logs")
  case (Inl e)
  have "\<not> (\<exists>ns'. normalizeRootAcceptedLogs logs' = Inr ns')"
    using normalize_cong [OF assms(1) [symmetric] assms(2) [symmetric]] Inl by fastforce
  then show ?thesis
    using Inl by (cases "normalizeRootAcceptedLogs logs'") auto
next
  case (Inr ns)
  from normalize_cong [OF assms Inr] obtain ns' where ns': "normalizeRootAcceptedLogs logs' = Inr ns'"
    "map canonicalLog ns' = map canonicalLog ns"
    by blast
  have sub: "set ns \<subseteq> set logs" "set ns' \<subseteq> set logs" "sorted (map log_position ns)"
    using Inr ns'(1) assms(1) set_kept [of logs "{}"] set_kept [of logs' "{}"] by (auto simp: normalize_iff)
  have "(\<forall>l \<in> set logs. canonicalLog l = l) \<longrightarrow> ns = ns'"
  proof
    assume "\<forall>l \<in> set logs. canonicalLog l = l"
    with sub have "map canonicalLog ns = ns" "map canonicalLog ns' = ns'"
      by (auto intro!: map_idI)
    with ns'(2) show "ns = ns'" by simp
  qed
  with Inr ns' sub(3) show ?thesis by auto
qed

text \<open>A log without a transaction hash that is listed twice is kept twice.\<close>

lemma unhashed_duplicate_kept:
  assumes "positioned lg" "transaction_key lg = None"
  shows "normalizeRootAcceptedLogs [lg, lg] = Inr [lg, lg]"
  using assms by (simp add: normalize_iff logs_agree_def)

section \<open>Concrete runs\<close>

definition sample_pool :: string where "sample_pool = ''0x'' @ replicate 40 (CHR ''a'')"

definition sample_root_log :: "int \<Rightarrow> string \<Rightarrow> string \<Rightarrow> raw_root_log" where
  "sample_root_log v b i =
     \<lparr>rl_address = sample_pool, rl_topics = [toBytes32 9, toBytes32 (v + 1), toBytes32 v, toBytes32 (v + 2)],
      rl_data = ''0x'', rl_blockNumber = Some b, rl_transactionHash = Some (toBytes32 7), rl_logIndex = Some i\<rparr>"

definition sample_decode :: root_decoder where
  "sample_decode topics data =
     (if length topics = 4 then Inr (''RootAccepted'', topics ! 1, topics ! 2, topics ! 3) else Inl ''no event'')"

definition sample_node :: root_node where
  "sample_node =
     \<lparr>node_blockNumber = (\<lambda>_. ResultBody ''0x40''), node_logs = (\<lambda>_ _. ResultBody [sample_root_log 1 ''0x18'' ''0x1'']),
      node_receipt = (\<lambda>_ _. FetchFailed ''down''), node_call = (\<lambda>_ _. FetchFailed ''down'')\<rparr>"

definition sample_recovery :: recovery_input where
  "sample_recovery =
     \<lparr>ri_runtime = \<lparr>rt_environment = ''megaeth-mainnet'', rt_chainId = 4326, rt_pool = sample_pool, rt_poolDeploymentBlock = ''0x10''\<rparr>,
      ri_commitment = toBytes32 3, ri_txHashHint = Some (toBytes32 7), ri_blockNumberHint = Some ''0x20'',
      ri_leafIndexHint = Some (jsint 0), ri_toBlock = Some ''0x30'', ri_minConfirmations = None, ri_logChunkSize = None\<rparr>"

lemma sample_recovery_fields [simp]:
  "ri_commitment sample_recovery = toBytes32 3" "ri_txHashHint sample_recovery = Some (toBytes32 7)"
  "ri_blockNumberHint sample_recovery = Some ''0x20''" "ri_leafIndexHint sample_recovery = Some (jsint 0)"
  "ri_toBlock sample_recovery = Some ''0x30''" "ri_minConfirmations sample_recovery = None"
  "ri_logChunkSize sample_recovery = None" "rt_poolDeploymentBlock (ri_runtime sample_recovery) = ''0x10''"
  "rt_environment (ri_runtime sample_recovery) = ''megaeth-mainnet''"
  by (simp_all add: sample_recovery_def)

lemma sample_words [simp]:
  "isHexBytes32 (toBytes32 1)" "isHexBytes32 (toBytes32 2)" "isHexBytes32 (toBytes32 3)" "isHexBytes32 (toBytes32 4)"
  "isHexBytes32 (toBytes32 7)" "isHexBytes32 (toBytes32 9)"
  by (simp_all add: toBytes32_shape)

lemma sample_quantities [simp]:
  "isBlockQuantity ''0x10''" "isBlockQuantity ''0x18''" "isBlockQuantity ''0x19''" "isBlockQuantity ''0x20''"
  "isBlockQuantity ''0x30''" "isBlockQuantity ''0x1''" "isBlockQuantity ''0x2''"
  "hex_value ''0x10'' = 16" "hex_value ''0x18'' = 24" "hex_value ''0x19'' = 25" "hex_value ''0x20'' = 32"
  "hex_value ''0x30'' = 48" "hex_value ''0x1'' = 1" "hex_value ''0x2'' = 2"
  by (code_simp)+

lemma sample_positioned [simp]: "isBlockQuantity b \<Longrightarrow> isBlockQuantity i \<Longrightarrow> positioned (sample_root_log v b i)"
  by (simp add: positioned_def sample_root_log_def or_else_def)

lemma sample_normalized: "normalizeRootAcceptedLogs [sample_root_log 1 ''0x18'' ''0x1''] = Inr [sample_root_log 1 ''0x18'' ''0x1'']"
  by (simp add: normalize_iff logs_agree_def split: option.splits)

lemma sample_decoded:
  "decodeRootAcceptedLogs sample_decode [sample_root_log 1 ''0x18'' ''0x1''] =
     Inr [\<lparr>log_root = toBytes32 2, log_previousRoot = toBytes32 1, log_insertedCommitment = toBytes32 3\<rparr>]"
proof -
  have "isEvmAddress sample_pool" "isHexString ''0x''" by code_simp+
  then have "decodeRootAcceptedLog sample_decode (sample_root_log 1 ''0x18'' ''0x1'') =
      Inr (Some \<lparr>log_root = toBytes32 2, log_previousRoot = toBytes32 1, log_insertedCommitment = toBytes32 3\<rparr>)"
    by (simp add: decodeRootAcceptedLog_def sample_root_log_def sample_decode_def assertBytes32_root_def)
  then show ?thesis
    by (simp add: decodeRootAcceptedLogs_def sample_normalized)
qed

lemma sample_fetched:
  "\<exists>calls'. fetchRootAcceptedLogs event_hash sample_node (ri_runtime sample_recovery) (Some ''0x10'') (Some ''0x20'') None calls =
     Some (Inr [sample_root_log 1 ''0x18'' ''0x1''], calls')"
proof -
  have "bigint_result ''0x20'' = Inr 32"
    using js_bigint_quantity [of "''0x20''"] by (simp add: bigint_result_def)
  then show ?thesis
    by (simp add: fetchRootAcceptedLogs_def or_else_def latest_block_hex_def sample_node_def rpcRequest_def fetch_chunks.simps)
qed

lemma sample_recovered:
  "\<exists>calls. fetchRecoveryHintedRootAcceptedLogs event_hash sample_decode sample_node sample_recovery [] =
     Some (Inr \<lparr>hl_source = FromHint, hl_logs = [sample_root_log 1 ''0x18'' ''0x1''], hl_toBlock = ''0x20'',
                hl_hintRejectedReason = None\<rparr>, calls)"
proof -
  have hint: "receipt_hint sample_node sample_recovery (toBytes32 3) [] =
      ((None, Some ''down''), [EthGetTransactionReceipt (toBytes32 7)])"
    by (simp add: receipt_hint_def sample_recovery_def sample_node_def rpcRequest_def)
  have "decodedLogsConfirmHint [\<lparr>log_root = toBytes32 2, log_previousRoot = toBytes32 1, log_insertedCommitment = toBytes32 3\<rparr>]
      (toBytes32 3) (Some (jsint 0))"
    by (simp add: decodedLogsConfirmHint_def decoded_leaves_def find_leaf_def num_eq_def)
  then have "\<exists>calls. hinted_attempt event_hash sample_decode sample_node sample_recovery (toBytes32 3) (Some ''0x30'') ''0x20''
      [EthGetTransactionReceipt (toBytes32 7)] =
     Some (Inr \<lparr>hl_source = FromHint, hl_logs = [sample_root_log 1 ''0x18'' ''0x1''], hl_toBlock = ''0x20'',
                hl_hintRejectedReason = None\<rparr>, calls)"
    using sample_fetched [of event_hash "[EthGetTransactionReceipt (toBytes32 7)]"]
    by (auto simp: hinted_attempt_def sample_decoded)
  then show ?thesis
    by (simp add: fetchRecoveryHintedRootAcceptedLogs_def assertBytes32_root_def hint block_hint_def resolveRecoveryToBlock_def)
qed

lemma hinted_recovery_safe_witness:
  "confirms_hint sample_decode sample_recovery [sample_root_log 1 ''0x18'' ''0x1''] \<and>
   (\<exists>before b. final_block sample_node sample_recovery before b \<and> 32 \<le> hex_value b)"
proof -
  obtain calls where run: "fetchRecoveryHintedRootAcceptedLogs (\<lambda>_. toBytes32 9) sample_decode sample_node sample_recovery [] =
     Some (Inr \<lparr>hl_source = FromHint, hl_logs = [sample_root_log 1 ''0x18'' ''0x1''], hl_toBlock = ''0x20'',
                hl_hintRejectedReason = None\<rparr>, calls)"
    using sample_recovered by blast
  show ?thesis
    using hinted_recovery_safe [OF run] by simp
qed

lemma sample_root_log_lower: "canonicalLog (sample_root_log 1 ''0x18'' i) = sample_root_log 1 ''0x18'' i \<longleftrightarrow> to_lower i = i"
proof -
  have "to_lower ''0x18'' = ''0x18''" "to_lower ''0x'' = ''0x''" "to_lower sample_pool = sample_pool" by code_simp+
  then show ?thesis by (simp add: canonicalLog_def sample_root_log_def)
qed

lemma normalized_logs_order_free_witness:
  "\<exists>ns. normalizeRootAcceptedLogs
       [sample_root_log 1 ''0x18'' ''0x2'', sample_root_log 1 ''0x18'' ''0x1'', sample_root_log 1 ''0x18'' ''0x2''] = Inr ns \<and>
     normalizeRootAcceptedLogs [sample_root_log 1 ''0x18'' ''0x1'', sample_root_log 1 ''0x18'' ''0x2''] = Inr ns"
proof -
  let ?a = "sample_root_log 1 ''0x18'' ''0x1''" and ?b = "sample_root_log 1 ''0x18'' ''0x2''"
  have keys: "transaction_key ?a \<noteq> None" "transaction_key ?b \<noteq> None" "transaction_key ?a \<noteq> transaction_key ?b"
    "block_key ?a \<noteq> block_key ?b"
    by (simp_all add: transaction_key_def block_key_def sample_root_log_def or_else_def lower_char_def is_upper_def code_def)
  have low: "canonicalLog ?a = ?a" "canonicalLog ?b = ?b"
    using sample_root_log_lower by (simp_all add: lower_char_def is_upper_def code_def)
  have ok: "logs_agree {?b, ?a}"
    using keys keys(3,4) [symmetric] by (simp add: logs_agree_def pair_agrees_def)
  have "normalizeRootAcceptedLogs [?b, ?a, ?b] = Inr (sort_key log_position (kept [?b, ?a, ?b] {}))"
    using ok by (simp only: normalize_iff) (simp add: insert_commute)
  then show ?thesis
    using normalized_logs_order_free [of "[?b, ?a, ?b]" "[?a, ?b]"] keys low by auto
qed

end
