(* ===== verification/Sdk_Envelope.thy ===== *)
theory Sdk_Envelope
  imports Hex_Text
begin

text \<open>
  The SDK's encrypted notes, \<^verbatim>\<open>packages/sdk/src/recovery/encryptedNoteEnvelope.ts\<close>: the fixed-size output
  note of version 2 (made, written as hex, read and checked), the note envelope of version 1 with its
  spend material, and the keys of a wallet.

  WebCrypto is the record \<open>note_crypto\<close>: HKDF and AES-GCM over keys of type \<open>'k\<close>; a text and its UTF-8
  bytes are identified. Every failure of the version 2 checks is caught and renamed by the reader,
  so errors are their messages. Parsed JSON has strings where the code expects strings: a field of
  another type is refused, and padded lengths are integers.
\<close>

section \<open>Output notes of version 2\<close>

definition ENCRYPTED_OUTPUT_NOTE_V2_DOMAIN :: string where
  "ENCRYPTED_OUTPUT_NOTE_V2_DOMAIN = ''nullark.encrypted-output-note.v2''"

definition ENCRYPTED_OUTPUT_NOTE_V2_PADDED_CIPHERTEXT_BYTES :: int where
  "ENCRYPTED_OUTPUT_NOTE_V2_PADDED_CIPHERTEXT_BYTES = 256"

definition ZERO_BYTES24 :: string where
  "ZERO_BYTES24 = zero_text 48"

definition V2_INVALID :: string where
  "V2_INVALID = ''Invalid encrypted output note V2 envelope.''"

text \<open>The envelope without its constant fields \<open>version\<close>, \<open>domain\<close> and \<open>action\<close>.\<close>

record output_envelope =
  oe_chainId :: jsnum
  oe_verifyingContract :: string
  oe_outputCommitment :: string
  oe_proofContextHash :: string
  oe_ephemeralPublicKey :: string
  oe_nonce :: string
  oe_ciphertext :: string
  oe_ciphertextByteLength :: jsnum
  oe_paddingBytes :: string
  oe_paddingByteLength :: jsnum
  oe_paddedCiphertextByteLength :: jsnum

record output_checks =
  oc_chainId :: "jsnum option"
  oc_verifyingContract :: "string option"
  oc_outputCommitment :: "string option"

definition require_text :: "(string \<Rightarrow> bool) \<Rightarrow> string \<Rightarrow> json option \<Rightarrow> string + string" where
  "require_text ok msg v = (case v of Some (JStr s) \<Rightarrow> if ok s then Inr (to_lower s) else Inl msg | _ \<Rightarrow> Inl msg)"

definition requireAddress :: "json option \<Rightarrow> string \<Rightarrow> string + string" where
  "requireAddress v label = require_text isEvmAddress (label @ '' must be an EVM address.'') v"

definition requireBytes32 :: "json option \<Rightarrow> string \<Rightarrow> string + string" where
  "requireBytes32 v label = require_text isHexBytes32 (label @ '' must be bytes32 hex.'') v"

definition requireBytes24 :: "json option \<Rightarrow> string \<Rightarrow> string + string" where
  "requireBytes24 v label = require_text (hex_of_length 48) (label @ '' must be bytes24 hex.'') v"

definition requireEvenHex :: "json option \<Rightarrow> string \<Rightarrow> string + string" where
  "requireEvenHex v label = require_text isHexString (label @ '' must be even-length hex bytes.'') v"

definition requireNonEmptyEvenHex :: "json option \<Rightarrow> string \<Rightarrow> string + string" where
  "requireNonEmptyEvenHex v label =
     bind_res (requireEvenHex v label) (\<lambda>hex.
       if hex = ''0x'' then Inl (label @ '' must be nonempty even-length hex bytes.'') else Inr hex)"

definition requireNonnegativeSafeInteger :: "json option \<Rightarrow> string + jsnum" where
  "requireNonnegativeSafeInteger v =
     (case v of Some (JNum n) \<Rightarrow> if \<not> is_safe_integer n \<or> num_less n (jsint 0) then Inl V2_INVALID else Inr n
      | _ \<Rightarrow> Inl V2_INVALID)"

definition requireMegaEthChainId :: "json option \<Rightarrow> string + jsnum" where
  "requireMegaEthChainId v =
     (case v of Some (JNum n) \<Rightarrow> if \<not> num_eq n (jsint 4326) \<and> \<not> num_eq n (jsint 6343) then Inl V2_INVALID else Inr n
      | _ \<Rightarrow> Inl V2_INVALID)"

definition requireLiteral :: "json option \<Rightarrow> json \<Rightarrow> string + unit" where
  "requireLiteral v expected = (if v \<noteq> Some expected then Inl V2_INVALID else Inr ())"

definition default_padded :: "int option \<Rightarrow> int" where
  "default_padded p = (case p of None \<Rightarrow> ENCRYPTED_OUTPUT_NOTE_V2_PADDED_CIPHERTEXT_BYTES | Some n \<Rightarrow> n)"

definition given :: "string option \<Rightarrow> (json option \<Rightarrow> string + string) \<Rightarrow> string \<Rightarrow> string + string" where
  "given v require fallback = (if truthy v then require (map_option JStr v) else Inr fallback)"

definition createEncryptedOutputNoteV2Envelope ::
  "jsnum \<Rightarrow> string \<Rightarrow> string \<Rightarrow> string \<Rightarrow> string option \<Rightarrow> string option \<Rightarrow> int option \<Rightarrow> string + output_envelope" where
  "createEncryptedOutputNoteV2Envelope chainId verifyingContract outputCommitment ciphertextInput ephemeralPublicKey nonce padded =
     bind_res (requireNonEmptyEvenHex (Some (JStr ciphertextInput)) ''Encrypted output note V2 ciphertext'') (\<lambda>ciphertext.
     let ciphertextByteLength = int (hexByteLength ciphertext);
         paddingByteLength = default_padded padded - ciphertextByteLength in
     if ciphertextByteLength > default_padded padded
     then Inl ''Encrypted output note V2 ciphertext exceeds fixed padded length.''
     else bind_res (requireMegaEthChainId (Some (JNum chainId))) (\<lambda>c.
     bind_res (requireAddress (Some (JStr verifyingContract)) ''Encrypted output note V2 verifying contract'') (\<lambda>vc.
     bind_res (requireBytes32 (Some (JStr outputCommitment)) ''Encrypted output note V2 output commitment'') (\<lambda>oc.
     bind_res (given ephemeralPublicKey (\<lambda>v. requireBytes32 v ''Encrypted output note V2 ephemeral public key'') ZERO_BYTES32) (\<lambda>e.
     bind_res (given nonce (\<lambda>v. requireBytes24 v ''Encrypted output note V2 nonce'') ZERO_BYTES24) (\<lambda>n.
       Inr \<lparr>oe_chainId = c, oe_verifyingContract = vc, oe_outputCommitment = oc, oe_proofContextHash = ZERO_BYTES32,
            oe_ephemeralPublicKey = e, oe_nonce = n, oe_ciphertext = ciphertext,
            oe_ciphertextByteLength = jsint ciphertextByteLength,
            oe_paddingBytes = zero_text (2 * nat paddingByteLength), oe_paddingByteLength = jsint paddingByteLength,
            oe_paddedCiphertextByteLength = jsint (default_padded padded)\<rparr>))))))"

definition fits :: "bool \<Rightarrow> string + unit" where
  "fits c = (if c then Inr () else Inl V2_INVALID)"

definition check_option :: "('a \<Rightarrow> bool) \<Rightarrow> 'a option \<Rightarrow> string + unit" where
  "check_option ok v = fits (pred_option ok v)"

definition normalize_output_envelope :: "json \<Rightarrow> string + output_envelope" where
  "normalize_output_envelope v =
     (let field = json_field v in
     bind_res (requireLiteral (field ''version'') (JNum (jsint 2))) (\<lambda>_.
     bind_res (requireLiteral (field ''domain'') (JStr ENCRYPTED_OUTPUT_NOTE_V2_DOMAIN)) (\<lambda>_.
     bind_res (requireMegaEthChainId (field ''chainId'')) (\<lambda>c.
     bind_res (requireAddress (field ''verifyingContract'') ''Encrypted output note V2 verifying contract'') (\<lambda>vc.
     bind_res (requireLiteral (field ''action'') (JStr ''withdraw-output'')) (\<lambda>_.
     bind_res (requireBytes32 (field ''outputCommitment'') ''Encrypted output note V2 output commitment'') (\<lambda>oc.
     bind_res (requireBytes32 (field ''proofContextHash'') ''Encrypted output note V2 proof context hash'') (\<lambda>h.
     bind_res (requireBytes32 (field ''ephemeralPublicKey'') ''Encrypted output note V2 ephemeral public key'') (\<lambda>e.
     bind_res (requireBytes24 (field ''nonce'') ''Encrypted output note V2 nonce'') (\<lambda>n.
     bind_res (requireNonEmptyEvenHex (field ''ciphertext'') ''Encrypted output note V2 ciphertext'') (\<lambda>ciphertext.
     bind_res (requireNonnegativeSafeInteger (field ''ciphertextByteLength'')) (\<lambda>cl.
     bind_res (requireEvenHex (field ''paddingBytes'') ''Encrypted output note V2 padding bytes'') (\<lambda>padding.
     bind_res (requireNonnegativeSafeInteger (field ''paddingByteLength'')) (\<lambda>pl.
     bind_res (requireNonnegativeSafeInteger (field ''paddedCiphertextByteLength'')) (\<lambda>total.
       Inr \<lparr>oe_chainId = c, oe_verifyingContract = vc, oe_outputCommitment = oc, oe_proofContextHash = h,
            oe_ephemeralPublicKey = e, oe_nonce = n, oe_ciphertext = ciphertext, oe_ciphertextByteLength = cl,
            oe_paddingBytes = padding, oe_paddingByteLength = pl, oe_paddedCiphertextByteLength = total\<rparr>)))))))))))))))"

definition validateEncryptedOutputNoteV2Envelope :: "json \<Rightarrow> output_checks \<Rightarrow> string + output_envelope" where
  "validateEncryptedOutputNoteV2Envelope v checks =
     (case v of
        JObj kvs \<Rightarrow>
          if \<not> list_all (\<lambda>kv. fst kv \<in> set envelope_fields) kvs then Inl V2_INVALID
          else bind_res (normalize_output_envelope v) (\<lambda>n.
            bind_res (fits (num_eq (jsint (int (hexByteLength (oe_ciphertext n)))) (oe_ciphertextByteLength n))) (\<lambda>_.
            bind_res (fits (num_eq (jsint (int (hexByteLength (oe_paddingBytes n)))) (oe_paddingByteLength n))) (\<lambda>_.
            bind_res (fits (num_eq (num_add (oe_ciphertextByteLength n) (oe_paddingByteLength n)) (oe_paddedCiphertextByteLength n))) (\<lambda>_.
            bind_res (fits (num_eq (oe_paddedCiphertextByteLength n) (jsint ENCRYPTED_OUTPUT_NOTE_V2_PADDED_CIPHERTEXT_BYTES))) (\<lambda>_.
            bind_res (fits (zero_bytes (oe_paddingBytes n))) (\<lambda>_.
            bind_res (check_option (num_eq (oe_chainId n)) (oc_chainId checks)) (\<lambda>_.
            bind_res (check_option (\<lambda>p. to_lower (oe_verifyingContract n) = to_lower p) (oc_verifyingContract checks)) (\<lambda>_.
            bind_res (check_option (\<lambda>c. to_lower (oe_outputCommitment n) = to_lower c) (oc_outputCommitment checks)) (\<lambda>_.
              Inr n)))))))))
      | _ \<Rightarrow> Inl V2_INVALID)"

definition output_envelope_json :: "output_envelope \<Rightarrow> (string \<times> json) list" where
  "output_envelope_json e =
     [(''version'', JNum (jsint 2)), (''domain'', JStr ENCRYPTED_OUTPUT_NOTE_V2_DOMAIN), (''chainId'', JNum (oe_chainId e)),
      (''verifyingContract'', JStr (oe_verifyingContract e)), (''action'', JStr ''withdraw-output''),
      (''outputCommitment'', JStr (oe_outputCommitment e)), (''proofContextHash'', JStr (oe_proofContextHash e)),
      (''ephemeralPublicKey'', JStr (oe_ephemeralPublicKey e)), (''nonce'', JStr (oe_nonce e)),
      (''ciphertext'', JStr (oe_ciphertext e)), (''ciphertextByteLength'', JNum (oe_ciphertextByteLength e)),
      (''paddingBytes'', JStr (oe_paddingBytes e)), (''paddingByteLength'', JNum (oe_paddingByteLength e)),
      (''paddedCiphertextByteLength'', JNum (oe_paddedCiphertextByteLength e))]"

definition no_checks :: output_checks where
  "no_checks = \<lparr>oc_chainId = None, oc_verifyingContract = None, oc_outputCommitment = None\<rparr>"

text \<open>\<open>bytesToHex(textEncoder.encode(JSON.stringify(value)))\<close>\<close>

definition json_hex :: "(string \<times> json) list \<Rightarrow> string" where
  "json_hex kvs = (case stringify (JObj kvs) of Some t \<Rightarrow> text_hex t | None \<Rightarrow> text_hex [])"

definition serializeEncryptedOutputNoteV2EnvelopeToHex :: "output_envelope \<Rightarrow> string + string" where
  "serializeEncryptedOutputNoteV2EnvelopeToHex e =
     bind_res (validateEncryptedOutputNoteV2Envelope (JObj (output_envelope_json e)) no_checks) (\<lambda>n.
       Inr (json_hex (output_envelope_json n)))"

definition parseEncryptedOutputNoteV2EnvelopeFromHex :: "string \<Rightarrow> output_checks \<Rightarrow> string + output_envelope" where
  "parseEncryptedOutputNoteV2EnvelopeFromHex v checks =
     (if \<not> isHexString v then Inl V2_INVALID
      else case json_parse (hexToUtf8 v) of
        None \<Rightarrow> Inl V2_INVALID
      | Some parsed \<Rightarrow>
          (case validateEncryptedOutputNoteV2Envelope parsed checks of Inl _ \<Rightarrow> Inl V2_INVALID | Inr n \<Rightarrow> Inr n))"

section \<open>Note envelopes of version 1\<close>

record 'k note_crypto =
  nc_import :: "string \<Rightarrow> 'k"
  nc_hkdf :: "'k \<Rightarrow> string \<Rightarrow> string \<Rightarrow> 'k"
  nc_encrypt :: "'k \<Rightarrow> string \<Rightarrow> string \<Rightarrow> string \<Rightarrow> string"
  nc_decrypt :: "'k \<Rightarrow> string \<Rightarrow> string \<Rightarrow> string \<Rightarrow> string option"
  nc_dateValid :: "string \<Rightarrow> bool"

text \<open>
  \<open>nc_import\<close> takes the hex of the raw bytes, \<open>nc_hkdf\<close> a key, salt and info; \<open>nc_encrypt\<close> a key, the
  nonce, the associated data and the text, and gives the ciphertext in hex; \<open>nc_dateValid\<close> is that
  \<open>Date.parse\<close> is a number.
\<close>

record spend_material =
  sm_version :: string
  sm_chainId :: jsnum
  sm_pool :: string
  sm_assetId :: string
  sm_noteAmountWei :: string
  sm_ownerCommitment :: string
  sm_noteSecret :: string
  sm_blinding :: string
  sm_commitment :: string
  sm_createdAt :: string

record encrypted_envelope =
  ee_nonce :: string
  ee_ciphertext :: string

datatype v1_action = ADeposit | APrivateTransfer | AWithdraw | AWithdrawChange | AWithdrawOutput

fun action_text :: "v1_action \<Rightarrow> string" where
  "action_text ADeposit = ''deposit''"
| "action_text APrivateTransfer = ''private-transfer''"
| "action_text AWithdraw = ''withdraw''"
| "action_text AWithdrawChange = ''withdraw-change''"
| "action_text AWithdrawOutput = ''withdraw-output''"

definition makeRecoveryAssociatedData :: "jsnum \<Rightarrow> string \<Rightarrow> v1_action \<Rightarrow> string \<Rightarrow> string + string" where
  "makeRecoveryAssociatedData chainId pool action commitment =
     (if \<not> is_safe_integer chainId \<or> num_le chainId (jsint 0) then Inl ''Expected recovery associated data chain ID.''
      else if \<not> isEvmAddress pool then Inl ''Expected recovery associated data pool address.''
      else if \<not> isHexBytes32 commitment then Inl ''Expected recovery associated data commitment.''
      else Inr (object_text [(''chainId'', JNum chainId), (''pool'', JStr pool), (''action'', JStr (action_text action)),
                             (''commitment'', JStr commitment), (''encryptionVersion'', JNum (jsint 1))]))"

definition deriveWalletRecoveryKey :: "'k note_crypto \<Rightarrow> string \<Rightarrow> jsnum \<Rightarrow> string \<Rightarrow> string \<Rightarrow> string + 'k" where
  "deriveWalletRecoveryKey C walletSignature chainId pool appId =
     (if \<not> hex_of_length 130 walletSignature then Inl ''Expected wallet recovery signature bytes.''
      else if \<not> is_safe_integer chainId \<or> num_le chainId (jsint 0) then Inl ''Expected wallet recovery chain ID.''
      else if \<not> isEvmAddress pool then Inl ''Expected wallet recovery pool address.''
      else Inr (nc_hkdf C (nc_import C walletSignature)
                  (appId @ '':'' @ dec_string (num_int chainId) @ '':'' @ to_lower pool) ''wallet-recovery-v1''))"

definition deriveNoteKey :: "'k note_crypto \<Rightarrow> 'k \<Rightarrow> string \<Rightarrow> string \<Rightarrow> string + 'k" where
  "deriveNoteKey C recoveryKey commitment epochId =
     (if \<not> isHexBytes32 commitment then Inl ''Expected note key commitment.''
      else if epochId = [] then Inl ''Expected note key recovery epoch.''
      else Inr (nc_hkdf C recoveryKey epochId (''note:'' @ to_lower commitment)))"

definition validateSpendMaterialPlaintext :: "'k note_crypto \<Rightarrow> spend_material \<Rightarrow> string + spend_material" where
  "validateSpendMaterialPlaintext C m =
     (if sm_version m \<noteq> ''spend-material-v1'' then Inl ''Unsupported spend material version.''
      else if \<not> is_safe_integer (sm_chainId m) \<or> num_le (sm_chainId m) (jsint 0) then Inl ''Invalid spend material chain ID.''
      else if \<not> isEvmAddress (sm_pool m) then Inl ''Invalid spend material pool.''
      else if \<not> isHexBytes32 (sm_assetId m) then Inl ''Invalid spend material asset ID.''
      else if \<not> isHexBytes32 (sm_ownerCommitment m) then Inl ''Invalid spend material owner commitment.''
      else if \<not> isHexBytes32 (sm_noteSecret m) then Inl ''Invalid spend material note secret.''
      else if \<not> isHexBytes32 (sm_blinding m) then Inl ''Invalid spend material blinding.''
      else if \<not> isHexBytes32 (sm_commitment m) then Inl ''Invalid spend material commitment.''
      else if sm_noteAmountWei m = [] \<or> \<not> list_all is_digit (sm_noteAmountWei m) \<or> radix_val 10 (sm_noteAmountWei m) = 0
      then Inl ''Invalid spend material amount.''
      else if sm_createdAt m = [] \<or> \<not> nc_dateValid C (sm_createdAt m) then Inl ''Invalid spend material creation time.''
      else Inr m)"

definition spend_json :: "spend_material \<Rightarrow> (string \<times> json) list" where
  "spend_json m =
     [(''version'', JStr (sm_version m)), (''chainId'', JNum (sm_chainId m)), (''pool'', JStr (sm_pool m)),
      (''assetId'', JStr (sm_assetId m)), (''noteAmountWei'', JStr (sm_noteAmountWei m)),
      (''ownerCommitment'', JStr (sm_ownerCommitment m)), (''noteSecret'', JStr (sm_noteSecret m)),
      (''blinding'', JStr (sm_blinding m)), (''commitment'', JStr (sm_commitment m)), (''createdAt'', JStr (sm_createdAt m))]"

definition text_field :: "json \<Rightarrow> string \<Rightarrow> string + string" where
  "text_field v k = (case field_text v k of Some t \<Rightarrow> Inr t | None \<Rightarrow> Inl (''no text: '' @ k))"

definition number_field :: "json \<Rightarrow> string \<Rightarrow> string + jsnum" where
  "number_field v k = (case json_field v k of Some (JNum n) \<Rightarrow> Inr n | _ \<Rightarrow> Inl (''no number: '' @ k))"

definition spend_of_json :: "json \<Rightarrow> string + spend_material" where
  "spend_of_json v =
     bind_res (text_field v ''version'') (\<lambda>ver. bind_res (number_field v ''chainId'') (\<lambda>c.
     bind_res (text_field v ''pool'') (\<lambda>p. bind_res (text_field v ''assetId'') (\<lambda>a.
     bind_res (text_field v ''noteAmountWei'') (\<lambda>w. bind_res (text_field v ''ownerCommitment'') (\<lambda>oc.
     bind_res (text_field v ''noteSecret'') (\<lambda>sec. bind_res (text_field v ''blinding'') (\<lambda>b.
     bind_res (text_field v ''commitment'') (\<lambda>cm. bind_res (text_field v ''createdAt'') (\<lambda>created.
       Inr \<lparr>sm_version = ver, sm_chainId = c, sm_pool = p, sm_assetId = a, sm_noteAmountWei = w, sm_ownerCommitment = oc,
            sm_noteSecret = sec, sm_blinding = b, sm_commitment = cm, sm_createdAt = created\<rparr>))))))))))"

definition validateEncryptedNoteEnvelope :: "encrypted_envelope \<Rightarrow> string + encrypted_envelope" where
  "validateEncryptedNoteEnvelope e =
     (if \<not> isHexString (ee_nonce e) \<or> hexByteLength (ee_nonce e) \<noteq> 12 \<or> \<not> isHexString (ee_ciphertext e) \<or>
         ee_ciphertext e = ''0x''
      then Inl ''Invalid encrypted note envelope.'' else Inr e)"

definition encryptSpendMaterialEnvelope ::
  "'k note_crypto \<Rightarrow> 'k \<Rightarrow> string \<Rightarrow> spend_material \<Rightarrow> string \<Rightarrow> string + encrypted_envelope" where
  "encryptSpendMaterialEnvelope C noteKey nonce plaintextInput aad =
     bind_res (validateSpendMaterialPlaintext C plaintextInput) (\<lambda>plaintext.
       Inr \<lparr>ee_nonce = nonce, ee_ciphertext = nc_encrypt C noteKey nonce aad (object_text (spend_json plaintext))\<rparr>)"

definition decryptEncryptedNoteEnvelope ::
  "'k note_crypto \<Rightarrow> 'k \<Rightarrow> encrypted_envelope \<Rightarrow> string \<Rightarrow> string + spend_material" where
  "decryptEncryptedNoteEnvelope C noteKey encryptedInput aad =
     bind_res (validateEncryptedNoteEnvelope encryptedInput) (\<lambda>encrypted.
       case nc_decrypt C noteKey (ee_nonce encrypted) aad (ee_ciphertext encrypted) of
         None \<Rightarrow> Inl ''Failed to decrypt encrypted note envelope.''
       | Some t \<Rightarrow>
           (case json_parse t of
              None \<Rightarrow> Inl ''Failed to decrypt encrypted note envelope.''
            | Some v \<Rightarrow>
                (case bind_res (spend_of_json v) (validateSpendMaterialPlaintext C) of
                   Inl _ \<Rightarrow> Inl ''Failed to decrypt encrypted note envelope.''
                 | Inr m \<Rightarrow> Inr m)))"

definition encrypted_envelope_json :: "encrypted_envelope \<Rightarrow> (string \<times> json) list" where
  "encrypted_envelope_json e =
     [(''version'', JNum (jsint 1)), (''algorithm'', JStr ''AES-GCM-256''), (''kdf'', JStr ''HKDF-SHA-256''),
      (''nonce'', JStr (ee_nonce e)), (''ciphertext'', JStr (ee_ciphertext e))]"

definition serializeEncryptedNoteEnvelopeToHex :: "encrypted_envelope \<Rightarrow> string + string" where
  "serializeEncryptedNoteEnvelopeToHex e =
     bind_res (validateEncryptedNoteEnvelope e) (\<lambda>v. Inr (json_hex (encrypted_envelope_json v)))"

definition parseEncryptedNoteEnvelopeFromHex :: "string \<Rightarrow> string + encrypted_envelope" where
  "parseEncryptedNoteEnvelopeFromHex s =
     (if \<not> isHexString s then Inl ''Expected encrypted note envelope hex.''
      else case json_parse (hexToUtf8 s) of
        None \<Rightarrow> Inl ''Invalid encrypted note envelope.''
      | Some v \<Rightarrow>
          if \<not> field_number_is v ''version'' (jsint 1) \<or> field_text v ''algorithm'' \<noteq> Some ''AES-GCM-256'' \<or>
             field_text v ''kdf'' \<noteq> Some ''HKDF-SHA-256''
          then Inl ''Invalid encrypted note envelope.''
          else case (field_text v ''nonce'', field_text v ''ciphertext'') of
            (Some n, Some c) \<Rightarrow> validateEncryptedNoteEnvelope \<lparr>ee_nonce = n, ee_ciphertext = c\<rparr>
          | _ \<Rightarrow> Inl ''Invalid encrypted note envelope.'')"

section \<open>What a valid output note is\<close>

definition output_ok :: "output_envelope \<Rightarrow> bool" where
  "output_ok e \<longleftrightarrow>
     (oe_chainId e = jsint 4326 \<or> oe_chainId e = jsint 6343) \<and>
     isEvmAddress (oe_verifyingContract e) \<and> isHexBytes32 (oe_outputCommitment e) \<and> isHexBytes32 (oe_proofContextHash e) \<and>
     isHexBytes32 (oe_ephemeralPublicKey e) \<and> hex_of_length 48 (oe_nonce e) \<and>
     isHexString (oe_ciphertext e) \<and> oe_ciphertext e \<noteq> ''0x'' \<and> zero_bytes (oe_paddingBytes e) \<and>
     (\<forall>t \<in> {oe_verifyingContract e, oe_outputCommitment e, oe_proofContextHash e, oe_ephemeralPublicKey e,
            oe_nonce e, oe_ciphertext e}. to_lower t = t) \<and>
     oe_ciphertextByteLength e = jsint (int (hexByteLength (oe_ciphertext e))) \<and>
     oe_paddingByteLength e = jsint (int (hexByteLength (oe_paddingBytes e))) \<and>
     hexByteLength (oe_ciphertext e) + hexByteLength (oe_paddingBytes e) = 256 \<and>
     oe_paddedCiphertextByteLength e = jsint 256"

lemma require_text_Inr [res_simps]:
  "require_text ok msg v = Inr t \<longleftrightarrow> (\<exists>s. v = Some (JStr s) \<and> ok s \<and> t = to_lower s)"
  by (auto simp: require_text_def split: option.splits json.splits)

lemmas require_defs = requireAddress_def requireBytes32_def requireBytes24_def requireEvenHex_def
  requireNonEmptyEvenHex_def

lemma requireMegaEthChainId_Inr [res_simps]:
  "requireMegaEthChainId v = Inr c \<longleftrightarrow> v = Some (JNum c) \<and> (c = jsint 4326 \<or> c = jsint 6343)"
  by (auto simp: requireMegaEthChainId_def num_eq_def split: option.splits json.splits)

lemma requireNonnegativeSafeInteger_Inr [res_simps]:
  "requireNonnegativeSafeInteger v = Inr n \<longleftrightarrow> v = Some (JNum n) \<and> is_safe_integer n \<and> \<not> num_less n (jsint 0)"
  by (auto simp: requireNonnegativeSafeInteger_def split: option.splits json.splits)

lemma requireLiteral_Inr [res_simps]: "requireLiteral v w = Inr u \<longleftrightarrow> v = Some w"
  by (simp add: requireLiteral_def)

lemma fits_Inr [res_simps]: "fits c = Inr u \<longleftrightarrow> c" "check_option ok v = Inr u \<longleftrightarrow> pred_option ok v"
  by (simp_all add: fits_def check_option_def)

lemma lower_preserves:
  "isEvmAddress s \<Longrightarrow> isEvmAddress (to_lower s)" "isHexBytes32 s \<Longrightarrow> isHexBytes32 (to_lower s)"
  "hex_of_length n s \<Longrightarrow> hex_of_length n (to_lower s)" "isHexString s \<Longrightarrow> isHexString (to_lower s)"
  by simp_all

lemma zero_bytes_props:
  assumes "zero_bytes t"
  shows "isHexString t" "to_lower t = t" "t = zero_text (length t - 2)"
proof -
  have "starts_with ''0x'' t" using assms by (simp add: zero_bytes_def)
  then obtain u where u: "t = ''0x'' @ u" using starts_with_0x_iff by blast
  have z: "even (length u)" "\<forall>c \<in> set u. c = CHR ''0''"
    using assms by (simp_all add: u zero_bytes_def list_all_iff)
  from z(2) have u3: "u = replicate (length u) (CHR ''0'')"
    by (simp add: replicate_length_same)
  have l: "list_all is_hex_char u" "to_lower u = u"
  proof -
    have "list_all is_hex_char (replicate (length u) (CHR ''0''))"
      "to_lower (replicate (length u) (CHR ''0'')) = replicate (length u) (CHR ''0'')"
      by simp_all
    then show "list_all is_hex_char u" "to_lower u = u"
      unfolding u3 [symmetric] .
  qed
  then show "isHexString t" "to_lower t = t"
    using u z(1) by (simp_all add: isHexString_def)
  show "t = zero_text (length t - 2)"
    using u u3 by (simp add: zero_text_def)
qed

lemma zero_bytes_zero_text [simp]: "zero_bytes (zero_text (2 * n))" "hexByteLength (zero_text (2 * n)) = n"
  by (simp_all add: zero_bytes_def zero_text_def hexByteLength_def)

lemma small_number:
  "hexByteLength s + hexByteLength t = 256 \<Longrightarrow>
     is_safe_integer (jsint (int (hexByteLength s))) \<and> \<not> num_less (jsint (int (hexByteLength s))) (jsint 0)"
  unfolding is_safe_integer_jsint num_cmp_jsint MAX_SAFE_INTEGER_def by linarith

lemma validated_ok:
  assumes "validateEncryptedOutputNoteV2Envelope v checks = Inr e"
  shows "output_ok e \<and> pred_option (num_eq (oe_chainId e)) (oc_chainId checks) \<and>
    pred_option (\<lambda>p. to_lower (oe_verifyingContract e) = to_lower p) (oc_verifyingContract checks) \<and>
    pred_option (\<lambda>c. to_lower (oe_outputCommitment e) = to_lower c) (oc_outputCommitment checks)"
proof -
  have n: "normalize_output_envelope v = Inr e"
    and c: "jsint (int (hexByteLength (oe_ciphertext e))) = oe_ciphertextByteLength e"
    "jsint (int (hexByteLength (oe_paddingBytes e))) = oe_paddingByteLength e"
    "num_add (oe_ciphertextByteLength e) (oe_paddingByteLength e) = oe_paddedCiphertextByteLength e"
    "oe_paddedCiphertextByteLength e = jsint 256" "zero_bytes (oe_paddingBytes e)"
    and checks: "pred_option (num_eq (oe_chainId e)) (oc_chainId checks)"
    "pred_option (\<lambda>p. to_lower (oe_verifyingContract e) = to_lower p) (oc_verifyingContract checks)"
    "pred_option (\<lambda>c. to_lower (oe_outputCommitment e) = to_lower c) (oc_outputCommitment checks)"
    using assms
    by (auto simp: validateEncryptedOutputNoteV2Envelope_def num_eq_def res_simps
        ENCRYPTED_OUTPUT_NOTE_V2_PADDED_CIPHERTEXT_BYTES_def split: json.splits if_splits)
  have "jsint (int (hexByteLength (oe_ciphertext e)) + int (hexByteLength (oe_paddingBytes e))) = jsint 256"
    using c(3,4) unfolding c(1) [symmetric] c(2) [symmetric] by (simp only: num_cmp_jsint)
  then have "hexByteLength (oe_ciphertext e) + hexByteLength (oe_paddingBytes e) = 256"
    by (simp only: jsnum.inject of_int_eq_iff)
  moreover have "(oe_chainId e = jsint 4326 \<or> oe_chainId e = jsint 6343) \<and>
     isEvmAddress (oe_verifyingContract e) \<and> isHexBytes32 (oe_outputCommitment e) \<and> isHexBytes32 (oe_proofContextHash e) \<and>
     isHexBytes32 (oe_ephemeralPublicKey e) \<and> hex_of_length 48 (oe_nonce e) \<and>
     isHexString (oe_ciphertext e) \<and> oe_ciphertext e \<noteq> ''0x'' \<and>
     (\<forall>t \<in> {oe_verifyingContract e, oe_outputCommitment e, oe_proofContextHash e, oe_ephemeralPublicKey e,
            oe_nonce e, oe_ciphertext e}. to_lower t = t)"
    using n unfolding normalize_output_envelope_def Let_def require_defs
    by (elim bind_resE resultE) (auto simp: res_simps)
  ultimately show ?thesis
    using c checks by (simp add: output_ok_def)
qed

lemma output_json_validates:
  assumes "output_ok e" "pred_option (num_eq (oe_chainId e)) (oc_chainId checks)"
    "pred_option (\<lambda>p. to_lower (oe_verifyingContract e) = to_lower p) (oc_verifyingContract checks)"
    "pred_option (\<lambda>c. to_lower (oe_outputCommitment e) = to_lower c) (oc_outputCommitment checks)"
  shows "validateEncryptedOutputNoteV2Envelope (JObj (output_envelope_json e)) checks = Inr e"
proof -
  have field: "json_field (JObj (output_envelope_json e)) = map_of (output_envelope_json e)"
    by (simp add: json_field_def fun_eq_iff)
  have ok: "output_ok e" by fact
  have hexes: "isHexString (oe_paddingBytes e)" "to_lower (oe_paddingBytes e) = oe_paddingBytes e"
    using ok zero_bytes_props by (simp_all add: output_ok_def)
  have chain: "requireMegaEthChainId (Some (JNum (oe_chainId e))) = Inr (oe_chainId e)"
    using ok by (simp only: requireMegaEthChainId_Inr output_ok_def simp_thms)
  have nums: "is_safe_integer (oe_ciphertextByteLength e)" "\<not> num_less (oe_ciphertextByteLength e) (jsint 0)"
    "is_safe_integer (oe_paddingByteLength e)" "\<not> num_less (oe_paddingByteLength e) (jsint 0)"
    "is_safe_integer (oe_paddedCiphertextByteLength e)" "\<not> num_less (oe_paddedCiphertextByteLength e) (jsint 0)"
    using ok small_number [of "oe_ciphertext e" "oe_paddingBytes e"] small_number [of "oe_paddingBytes e" "oe_ciphertext e"]
      is_safe_integer_jsint [of 256]
    by (simp_all add: output_ok_def add.commute MAX_SAFE_INTEGER_def)
  have "normalize_output_envelope (JObj (output_envelope_json e)) = Inr e"
    unfolding normalize_output_envelope_def Let_def field require_defs
    using ok hexes nums chain
    by (simp add: output_envelope_json_def output_ok_def require_text_def requireLiteral_def
        requireNonnegativeSafeInteger_def)
  moreover have "list_all (\<lambda>kv. fst kv \<in> set envelope_fields) (output_envelope_json e)"
    by (simp add: output_envelope_json_def envelope_fields_def)
  moreover have "num_add (oe_ciphertextByteLength e) (oe_paddingByteLength e) = jsint 256"
  proof -
    have "int (hexByteLength (oe_ciphertext e)) + int (hexByteLength (oe_paddingBytes e)) = 256"
      using ok by (simp add: output_ok_def flip: of_nat_add)
    then show ?thesis
      using ok num_cmp_jsint(4) [of "int (hexByteLength (oe_ciphertext e))" "int (hexByteLength (oe_paddingBytes e))"]
      by (simp only: output_ok_def)
  qed
  ultimately show ?thesis
    using ok assms(2-4)
    by (simp add: validateEncryptedOutputNoteV2Envelope_def output_ok_def fits_def check_option_def num_eq_def
        ENCRYPTED_OUTPUT_NOTE_V2_PADDED_CIPHERTEXT_BYTES_def)
qed

lemma output_json_text:
  assumes "output_ok e"
  shows "json_hex (output_envelope_json e) = text_hex (object_text (output_envelope_json e)) \<and>
    json_parse (hexToUtf8 (json_hex (output_envelope_json e))) = Some (JObj (output_envelope_json e))"
proof -
  have int: "flat_value (JNum (jsint i))" if "0 \<le> i" "i \<le> 10000" for i
    using that unfolding flat_value_def by (intro disjI2 exI [of _ i]) auto
  have len: "int (hexByteLength (oe_ciphertext e)) \<le> 10000" "int (hexByteLength (oe_paddingBytes e)) \<le> 10000"
    using assms unfolding output_ok_def by linarith+
  have nums: "flat_value (JNum (oe_chainId e))" "flat_value (JNum (oe_ciphertextByteLength e))"
    "flat_value (JNum (oe_paddingByteLength e))" "flat_value (JNum (oe_paddedCiphertextByteLength e))"
    using assms int [of 4326] int [of 6343] int [of 256] int [OF _ len(1)] int [OF _ len(2)]
    unfolding output_ok_def by (auto simp del: of_int_numeral)
  have "flat_value (JNum (jsint 2))" "flat_value (JStr t)" for t
    using int [of 2] by (auto simp: flat_value_def)
  with nums have "\<forall>kv \<in> set (output_envelope_json e). flat_value (snd kv)"
    by (simp add: output_envelope_json_def)
  moreover have "output_envelope_json e \<noteq> []" "distinct (map fst (output_envelope_json e))"
    by (simp_all add: output_envelope_json_def)
  ultimately have "stringify (JObj (output_envelope_json e)) = Some (object_text (output_envelope_json e))"
    and parse: "json_parse (object_text (output_envelope_json e)) = Some (JObj (output_envelope_json e))"
    using json_round_trip_text by blast+
  then have "json_hex (output_envelope_json e) = text_hex (object_text (output_envelope_json e))"
    by (simp only: json_hex_def option.case)
  moreover have "hexToUtf8 (text_hex (object_text (output_envelope_json e))) = object_text (output_envelope_json e)"
    unfolding object_text_def by (rule hexToUtf8_text_hex)
  ultimately show ?thesis
    using parse by simp
qed

lemma output_round_trip:
  assumes "output_ok e" "pred_option (num_eq (oe_chainId e)) (oc_chainId checks)"
    "pred_option (\<lambda>p. to_lower (oe_verifyingContract e) = to_lower p) (oc_verifyingContract checks)"
    "pred_option (\<lambda>c. to_lower (oe_outputCommitment e) = to_lower c) (oc_outputCommitment checks)"
  shows "serializeEncryptedOutputNoteV2EnvelopeToHex e = Inr (json_hex (output_envelope_json e)) \<and>
    parseEncryptedOutputNoteV2EnvelopeFromHex (json_hex (output_envelope_json e)) checks = Inr e"
proof -
  have "isHexString (json_hex (output_envelope_json e))"
    using output_json_text [OF assms(1)] isHexString_text_hex by metis
  moreover have "validateEncryptedOutputNoteV2Envelope (JObj (output_envelope_json e)) no_checks = Inr e"
    using assms(1) by (intro output_json_validates) (simp_all add: no_checks_def)
  ultimately show ?thesis
    using output_json_validates [OF assms] output_json_text [OF assms(1), THEN conjunct2]
    by (simp add: serializeEncryptedOutputNoteV2EnvelopeToHex_def parseEncryptedOutputNoteV2EnvelopeFromHex_def)
qed

section \<open>What the relay accepts\<close>

lemma output_relay_accepts:
  assumes "output_ok e" "oe_proofContextHash e = ZERO_BYTES32" "num_eq (oe_chainId e) chainId"
    "to_lower (oe_verifyingContract e) = to_lower pool" "to_lower (oe_outputCommitment e) = to_lower commitment"
  shows "validateEncryptedOutputNoteV2EnvelopeForBinding (json_hex (output_envelope_json e)) chainId pool commitment = []"
proof -
  have fields: "field_text (JObj (output_envelope_json e)) ''domain'' = Some ''nullark.encrypted-output-note.v2''"
    "field_text (JObj (output_envelope_json e)) ''action'' = Some ''withdraw-output''"
    "field_text (JObj (output_envelope_json e)) ''verifyingContract'' = Some (oe_verifyingContract e)"
    "field_text (JObj (output_envelope_json e)) ''outputCommitment'' = Some (oe_outputCommitment e)"
    "field_text (JObj (output_envelope_json e)) ''proofContextHash'' = Some (oe_proofContextHash e)"
    "field_text (JObj (output_envelope_json e)) ''ephemeralPublicKey'' = Some (oe_ephemeralPublicKey e)"
    "field_text (JObj (output_envelope_json e)) ''nonce'' = Some (oe_nonce e)"
    "field_text (JObj (output_envelope_json e)) ''ciphertext'' = Some (oe_ciphertext e)"
    "field_text (JObj (output_envelope_json e)) ''paddingBytes'' = Some (oe_paddingBytes e)"
    by (simp_all add: field_text_def json_field_def output_envelope_json_def ENCRYPTED_OUTPUT_NOTE_V2_DOMAIN_def)
  have numbers: "field_number_is (JObj (output_envelope_json e)) ''version'' n = num_eq (Num 2) n"
    "field_number_is (JObj (output_envelope_json e)) ''chainId'' n = num_eq (oe_chainId e) n"
    "field_number_is (JObj (output_envelope_json e)) ''ciphertextByteLength'' n = num_eq (oe_ciphertextByteLength e) n"
    "field_number_is (JObj (output_envelope_json e)) ''paddingByteLength'' n = num_eq (oe_paddingByteLength e) n"
    "field_number_is (JObj (output_envelope_json e)) ''paddedCiphertextByteLength'' n = num_eq (oe_paddedCiphertextByteLength e) n"
    for n
    by (simp_all add: field_number_is_def json_field_def output_envelope_json_def)
  have known: "list_all (\<lambda>kv. fst kv \<in> set envelope_fields) (output_envelope_json e)"
    by (simp add: output_envelope_json_def envelope_fields_def)
  have lengths: "isHexString (oe_ciphertext e)" "isHexString (oe_paddingBytes e)" "hexByteLength (oe_ciphertext e) \<noteq> 0"
    "int (hexByteLength (oe_ciphertext e)) + int (hexByteLength (oe_paddingBytes e)) = 256"
  proof -
    show h: "isHexString (oe_ciphertext e)" "isHexString (oe_paddingBytes e)"
      using assms(1) zero_bytes_props(1) by (simp_all add: output_ok_def)
    obtain t where t: "oe_ciphertext e = ''0x'' @ t" "even (length t)"
      using h(1) by (rule isHexStringE) blast
    with assms(1) show "hexByteLength (oe_ciphertext e) \<noteq> 0"
      by (cases t; cases "tl t") (auto simp: output_ok_def hexByteLength_def)
    show "int (hexByteLength (oe_ciphertext e)) + int (hexByteLength (oe_paddingBytes e)) = 256"
      using assms(1) by (simp add: output_ok_def flip: of_nat_add)
  qed
  have "chainId \<noteq> NaN"
    using assms(1,3) by (auto simp: output_ok_def num_eq_def)
  then have "envelope_errors (JObj (output_envelope_json e)) (output_envelope_json e) chainId pool commitment = []"
    using assms
    by (simp add: envelope_errors_def Let_def fields numbers known lengths text_is_def byte_length_or_def output_ok_def num_eq_def)
  then show ?thesis
    using output_json_text [OF assms(1), THEN conjunct2]
    by (simp add: validateEncryptedOutputNoteV2EnvelopeForBinding_def js_unique_def)
qed

lemma output_text_length:
  assumes "output_ok e"
  shows "length (object_text (output_envelope_json e)) < 2048"
proof -
  have hexes: "length (json_string (oe_verifyingContract e)) = 44" "length (json_string (oe_outputCommitment e)) = 68"
    "length (json_string (oe_proofContextHash e)) = 68" "length (json_string (oe_ephemeralPublicKey e)) = 68"
    "length (json_string (oe_nonce e)) = 52"
    using assms json_string_hex unfolding output_ok_def isEvmAddress_def isHexBytes32_def hex_of_length_def by fastforce+
  have hl: "length (json_string t) = 2 * hexByteLength t + 4" if "isHexString t" for t
  proof -
    have t: "starts_with ''0x'' t" "list_all is_hex_char (drop 2 t)" using that by (simp_all add: isHexString_def)
    obtain u where "t = ''0x'' @ u" "even (length u)" using \<open>isHexString t\<close> by (rule isHexStringE) blast
    then show ?thesis using json_string_hex [OF t] by (simp add: hexByteLength_def)
  qed
  have "isHexString (oe_ciphertext e)" "isHexString (oe_paddingBytes e)"
    using assms zero_bytes_props(1) by (simp_all add: output_ok_def)
  then have texts: "length (json_string (oe_ciphertext e)) + length (json_string (oe_paddingBytes e)) = 520"
    using assms by (simp add: hl output_ok_def)
  have num: "length (dec_string i) \<le> 4" if "0 \<le> i" "i < 10000" for i
    using that radix_string_length [of 10 "nat i" 4] by (auto simp: dec_string_def)
  have member_num: "length (member_text (k, JNum n)) \<le> length (json_string k) + 5" if "n = jsint i" "0 \<le> i" "i < 10000" for k n i
    using num [OF that(2,3)] length_members(2) [OF that(2,3), of k] that(1) by simp
  obtain c where c: "oe_chainId e = jsint c" "0 \<le> c" "c < 10000"
    using assms by (auto simp: output_ok_def intro: that [of 4326] that [of 6343])
  have l: "int (hexByteLength (oe_ciphertext e)) < 10000" "int (hexByteLength (oe_paddingBytes e)) < 10000"
    using assms unfolding output_ok_def by linarith+
  have nums: "length (member_text (k, JNum (oe_chainId e))) \<le> length (json_string k) + 5"
    "length (member_text (k, JNum (oe_ciphertextByteLength e))) \<le> length (json_string k) + 5"
    "length (member_text (k, JNum (oe_paddingByteLength e))) \<le> length (json_string k) + 5"
    "length (member_text (k, JNum (oe_paddedCiphertextByteLength e))) \<le> length (json_string k) + 5"
    "length (member_text (k, JNum (jsint 2))) \<le> length (json_string k) + 5" for k
    using assms member_num [OF c] member_num [OF _ _ l(1)] member_num [OF _ _ l(2)] member_num [of _ 256] member_num [of _ 2]
    by (simp_all add: output_ok_def)
  have "length (join_comma (map member_text (output_envelope_json e))) \<le>
      sum_list (map (\<lambda>kv. length (member_text kv) + 1) (output_envelope_json e))"
    using length_join [of "map member_text (output_envelope_json e)"] by (simp add: comp_def)
  also have "\<dots> \<le> 1600"
    using texts nums [of "''chainId''"] nums [of "''ciphertextByteLength''"] nums [of "''paddingByteLength''"]
      nums [of "''paddedCiphertextByteLength''"] nums(5) [of "''version''"]
    unfolding output_envelope_json_def list.map sum_list.Cons sum_list.Nil length_members(1) plain_lengths hexes
      ENCRYPTED_OUTPUT_NOTE_V2_DOMAIN_def by linarith
  finally show ?thesis by (simp add: object_text_def)
qed

lemma given_Inr:
  "given v (\<lambda>w. require_text ok msg w) fallback = Inr t \<longleftrightarrow>
     (if truthy v then \<exists>s. v = Some s \<and> ok s \<and> t = to_lower s else t = fallback)"
  by (auto simp: given_def truthy_def res_simps split: option.splits)

lemma created_envelope_ok:
  assumes "createEncryptedOutputNoteV2Envelope chainId pool commitment ciphertext key nonce None = Inr e"
  shows "output_ok e \<and> oe_proofContextHash e = ZERO_BYTES32 \<and> oe_chainId e = chainId \<and>
    oe_verifyingContract e = to_lower pool \<and> oe_outputCommitment e = to_lower commitment"
proof -
  let ?c = "to_lower ciphertext"
  let ?p = "256 - int (hexByteLength ?c)"
  have zero24: "hex_of_length 48 ZERO_BYTES24" "to_lower ZERO_BYTES24 = ZERO_BYTES24"
    by (simp_all add: ZERO_BYTES24_def zero_text_hex(1)) (simp add: zero_text_def)
  have run: "isHexString ciphertext" "?c \<noteq> ''0x''" "int (hexByteLength ?c) \<le> 256"
    "chainId = jsint 4326 \<or> chainId = jsint 6343" "isEvmAddress pool" "isHexBytes32 commitment"
    and e: "\<exists>k n. isHexBytes32 k \<and> to_lower k = k \<and> hex_of_length 48 n \<and> to_lower n = n \<and>
      e = \<lparr>oe_chainId = chainId, oe_verifyingContract = to_lower pool, oe_outputCommitment = to_lower commitment,
        oe_proofContextHash = ZERO_BYTES32, oe_ephemeralPublicKey = k, oe_nonce = n, oe_ciphertext = ?c,
        oe_ciphertextByteLength = jsint (int (hexByteLength ?c)), oe_paddingBytes = zero_text (2 * nat ?p),
        oe_paddingByteLength = jsint ?p, oe_paddedCiphertextByteLength = jsint 256\<rparr>"
    using assms zero24
    unfolding createEncryptedOutputNoteV2Envelope_def require_defs Let_def default_padded_def option.case
      ENCRYPTED_OUTPUT_NOTE_V2_PADDED_CIPHERTEXT_BYTES_def
    by (auto simp: res_simps given_Inr not_less split: if_splits)
  then obtain k n where kn: "isHexBytes32 k" "to_lower k = k" "hex_of_length 48 n" "to_lower n = n"
    "e = \<lparr>oe_chainId = chainId, oe_verifyingContract = to_lower pool, oe_outputCommitment = to_lower commitment,
        oe_proofContextHash = ZERO_BYTES32, oe_ephemeralPublicKey = k, oe_nonce = n, oe_ciphertext = ?c,
        oe_ciphertextByteLength = jsint (int (hexByteLength ?c)), oe_paddingBytes = zero_text (2 * nat ?p),
        oe_paddingByteLength = jsint ?p, oe_paddedCiphertextByteLength = jsint 256\<rparr>"
    by blast
  have p: "int (hexByteLength (zero_text (2 * nat ?p))) = ?p" "hexByteLength ?c + hexByteLength (zero_text (2 * nat ?p)) = 256"
    using run(3) by simp_all
  have padding: "jsint ?p = jsint (int (hexByteLength (zero_text (2 * nat ?p))))"
    by (simp only: p(1))
  show ?thesis
    unfolding kn(5) output_ok_def output_envelope.simps
    using run kn(1-4) p(2) padding by (simp only: lower_preserves to_lower_idem isHexBytes32_ZERO to_lower_ZERO
        zero_bytes_zero_text simp_thms ball_simps)
qed

text \<open>
  C30: An output note the SDK makes is one everybody else accepts: whatever valid chain, pool,
  commitment and ciphertext it is made for, it is written as hex within the relay's size limit, the
  SDK's own recovery reads the same envelope back under the checks of that chain, pool and
  commitment, and the relay's check of the note against the withdrawal finds no error.
\<close>

theorem sdk_output_note_accepted:
  assumes "createEncryptedOutputNoteV2Envelope chainId pool commitment ciphertext key nonce None = Inr e"
  shows "\<exists>note. serializeEncryptedOutputNoteV2EnvelopeToHex e = Inr note \<and>
    parseEncryptedOutputNoteV2EnvelopeFromHex note
      \<lparr>oc_chainId = Some chainId, oc_verifyingContract = Some pool, oc_outputCommitment = Some commitment\<rparr> = Inr e \<and>
    isHexString note \<and> \<not> note_too_long note \<and>
    validateEncryptedOutputNoteV2EnvelopeForBinding note chainId pool commitment = []"
proof -
  have ok: "output_ok e" "oe_proofContextHash e = ZERO_BYTES32" "oe_chainId e = chainId"
    "oe_verifyingContract e = to_lower pool" "oe_outputCommitment e = to_lower commitment"
    using created_envelope_ok [OF assms] by simp_all
  have chain: "num_eq (oe_chainId e) chainId"
    using ok(1,3) by (auto simp: output_ok_def num_eq_def)
  let ?note = "json_hex (output_envelope_json e)"
  have hex: "?note = text_hex (object_text (output_envelope_json e))"
    using output_json_text [OF ok(1)] by blast
  have "\<not> note_too_long ?note" "isHexString ?note"
    using output_text_length [OF ok(1)] isHexString_text_hex
    unfolding hex note_too_long_def length_text_hex MAX_ENCRYPTED_NOTE_BYTES_def by simp_all
  then show ?thesis
    using output_round_trip [OF ok(1), of "\<lparr>oc_chainId = Some chainId, oc_verifyingContract = Some pool,
        oc_outputCommitment = Some commitment\<rparr>"] output_relay_accepts [OF ok(1,2) chain] ok(4,5) chain
    by (intro exI [of _ ?note]) simp
qed

lemma sdk_output_note_accepted_witness:
  "\<exists>e note. createEncryptedOutputNoteV2Envelope (jsint 4326) (''0x'' @ replicate 40 (CHR ''A'')) (toBytes32 5) ''0xABCD'' None (Some []) None
      = Inr e \<and> serializeEncryptedOutputNoteV2EnvelopeToHex e = Inr note \<and>
    validateEncryptedOutputNoteV2EnvelopeForBinding note (jsint 4326) (''0x'' @ replicate 40 (CHR ''A'')) (toBytes32 5) = []"
proof -
  have "isEvmAddress (''0x'' @ replicate 40 (CHR ''A''))" "isHexString ''0xABCD''" "to_lower ''0xABCD'' \<noteq> ''0x''"
    "hexByteLength (to_lower ''0xABCD'') = 2"
    by code_simp+
  then have "\<exists>e. createEncryptedOutputNoteV2Envelope (jsint 4326) (''0x'' @ replicate 40 (CHR ''A'')) (toBytes32 5) ''0xABCD'' None (Some []) None = Inr e"
    by (simp add: createEncryptedOutputNoteV2Envelope_def require_defs require_text_def Let_def default_padded_def given_def truthy_def
        requireMegaEthChainId_def num_eq_def ENCRYPTED_OUTPUT_NOTE_V2_PADDED_CIPHERTEXT_BYTES_def toBytes32_shape)
  then show ?thesis
    using sdk_output_note_accepted by blast
qed

section \<open>Round trip of version 1\<close>

text \<open>
  What AES-GCM promises of one ciphertext: its key, nonce and associated data open it, and nothing
  opens it to another text.
\<close>

definition opens_only_to :: "'k note_crypto \<Rightarrow> 'k \<Rightarrow> string \<Rightarrow> string \<Rightarrow> string \<Rightarrow> bool" where
  "opens_only_to C key nonce aad t \<longleftrightarrow>
     (let c = nc_encrypt C key nonce aad t in
      isHexString c \<and> c \<noteq> ''0x'' \<and> nc_decrypt C key nonce aad c = Some t \<and>
      (\<forall>key' aad' t'. nc_decrypt C key' nonce aad' c = Some t' \<longrightarrow> t' = t))"

lemma safe_flat: "is_safe_integer n \<Longrightarrow> flat_value (JNum n)"
  by (erule is_safe_integerE) (auto simp: flat_value_def MAX_SAFE_INTEGER_def intro!: exI)

lemma spend_json_parses:
  assumes "validateSpendMaterialPlaintext C m = Inr m"
  shows "json_parse (object_text (spend_json m)) = Some (JObj (spend_json m))"
    "spend_of_json (JObj (spend_json m)) = Inr m"
proof -
  have "is_safe_integer (sm_chainId m)"
    using assms by (auto simp: validateSpendMaterialPlaintext_def split: if_splits)
  then have "\<forall>kv \<in> set (spend_json m). flat_value (snd kv)"
    using safe_flat by (auto simp: spend_json_def) (auto simp: flat_value_def)
  moreover have "spend_json m \<noteq> []" "distinct (map fst (spend_json m))"
    by (simp_all add: spend_json_def)
  ultimately show "json_parse (object_text (spend_json m)) = Some (JObj (spend_json m))"
    using json_round_trip_text by blast
  show "spend_of_json (JObj (spend_json m)) = Inr m"
    by (simp add: spend_of_json_def text_field_def number_field_def field_text_def json_field_def spend_json_def)
qed

lemma envelope_v1_parses:
  assumes "validateEncryptedNoteEnvelope e = Inr e"
  shows "parseEncryptedNoteEnvelopeFromHex (json_hex (encrypted_envelope_json e)) = Inr e"
proof -
  let ?j = "encrypted_envelope_json e"
  have "flat_value (JStr t)" "flat_value (JNum (jsint 1))" for t
    by (auto simp: flat_value_def intro!: exI [of _ 1])
  then have "\<forall>kv \<in> set ?j. flat_value (snd kv)"
    by (simp add: encrypted_envelope_json_def)
  moreover have "?j \<noteq> []" "distinct (map fst ?j)"
    by (simp_all add: encrypted_envelope_json_def)
  ultimately have "stringify (JObj ?j) = Some (object_text ?j)" "json_parse (object_text ?j) = Some (JObj ?j)"
    using json_round_trip_text by blast+
  moreover have "hexToUtf8 (text_hex (object_text ?j)) = object_text ?j"
    unfolding object_text_def by (rule hexToUtf8_text_hex)
  ultimately have "json_parse (hexToUtf8 (json_hex ?j)) = Some (JObj ?j)" "isHexString (json_hex ?j)"
    by (simp_all only: json_hex_def option.case isHexString_text_hex)
  moreover have "field_number_is (JObj ?j) ''version'' (jsint 1)" "field_text (JObj ?j) ''algorithm'' = Some ''AES-GCM-256''"
    "field_text (JObj ?j) ''kdf'' = Some ''HKDF-SHA-256''" "field_text (JObj ?j) ''nonce'' = Some (ee_nonce e)"
    "field_text (JObj ?j) ''ciphertext'' = Some (ee_ciphertext e)"
    by (simp_all add: field_number_is_def field_text_def json_field_def encrypted_envelope_json_def num_eq_def)
  moreover have "validateEncryptedNoteEnvelope \<lparr>ee_nonce = ee_nonce e, ee_ciphertext = ee_ciphertext e\<rparr> = Inr e"
    using assms by (cases e) simp
  ultimately show ?thesis
    by (simp add: parseEncryptedNoteEnvelopeFromHex_def)
qed

lemma decrypt_only_to:
  assumes "opens_only_to C key nonce aad (object_text (spend_json m))" "validateSpendMaterialPlaintext C m = Inr m"
    "isHexString nonce" "hexByteLength nonce = 12"
    "e = \<lparr>ee_nonce = nonce, ee_ciphertext = nc_encrypt C key nonce aad (object_text (spend_json m))\<rparr>"
  shows "validateEncryptedNoteEnvelope e = Inr e" "decryptEncryptedNoteEnvelope C key e aad = Inr m"
    "decryptEncryptedNoteEnvelope C key' e aad' = Inr m' \<Longrightarrow> m' = m"
proof -
  show v: "validateEncryptedNoteEnvelope e = Inr e"
    using assms by (simp add: validateEncryptedNoteEnvelope_def opens_only_to_def Let_def)
  show "decryptEncryptedNoteEnvelope C key e aad = Inr m"
    using assms spend_json_parses [OF assms(2)] v
    by (simp add: decryptEncryptedNoteEnvelope_def opens_only_to_def Let_def)
  assume d: "decryptEncryptedNoteEnvelope C key' e aad' = Inr m'"
  then obtain t where "nc_decrypt C key' nonce aad' (ee_ciphertext e) = Some t"
    and t: "(case json_parse t of None \<Rightarrow> Inl ''Failed to decrypt encrypted note envelope.''
       | Some v \<Rightarrow> (case bind_res (spend_of_json v) (validateSpendMaterialPlaintext C) of
            Inl _ \<Rightarrow> Inl ''Failed to decrypt encrypted note envelope.'' | Inr m \<Rightarrow> Inr m)) = Inr m'"
    using v by (auto simp: decryptEncryptedNoteEnvelope_def assms(5) split: option.splits)
  then have "t = object_text (spend_json m)"
    using assms(1,5) by (simp add: opens_only_to_def Let_def)
  with t spend_json_parses [OF assms(2)] assms(2) show "m' = m" by simp
qed

end
