(* ===== verification/Note_Recovery.thy ===== *)
theory Note_Recovery
  imports Root_Logs Sdk_Envelope
begin

text \<open>
  Recovering a wallet's notes from the chain: the note events (\<^verbatim>\<open>packages/sdk/src/recovery/logs.ts\<close>),
  what can be decrypted of them (\<^verbatim>\<open>recovery/recover.ts\<close>), commitments and nullifiers
  (\<^verbatim>\<open>notes/poseidon.ts\<close>) and the list of notes with their spent flag (\<^verbatim>\<open>notes/recover.ts\<close>).

  viem's \<open>decodeEventLog\<close> is \<open>decode\<close>, Poseidon is \<open>poseidon\<close> on 1 to 16 inputs, the signer is the
  function \<open>sign\<close> of the data to sign. Keys, texts and node are those of \<open>Sdk_Envelope\<close> and \<open>Sdk_Rpc\<close>.
\<close>

section \<open>Note events\<close>

record raw_note_log =
  nl_address :: string
  nl_topics :: "string list"
  nl_data :: string
  nl_transactionHash :: string

type_synonym note_node = "(raw_note_log, unit) rpc_node"

datatype note_log_event =
    DepositNoteLog string int string int
  | PrivateTransferNoteLog string string int string int
  | WithdrawalChangeNoteLog string string int int string int
  | WithdrawalOutputNoteLog string string int int string int
  | OtherLog

datatype note_action = NDeposit | NPrivateTransfer | NWithdrawChange | NWithdrawOutput

record decoded_note =
  dn_action :: note_action
  dn_commitment :: string
  dn_leafIndex :: int
  dn_encryptedNote :: string
  dn_encryptionVersion :: int
  dn_nullifier :: "string option"
  dn_transactionHash :: string

definition NOTE_EVENT_TOPICS :: "(string \<Rightarrow> string) \<Rightarrow> string list" where
  "NOTE_EVENT_TOPICS event_hash = map event_hash
     [''DepositNoteCreated(bytes32,uint256,bytes,uint16)'',
      ''PrivateTransferNoteCreated(bytes32,bytes32,uint256,bytes,uint16)'',
      ''WithdrawalChangeNoteCreated(bytes32,bytes32,uint256,uint256,bytes,uint16)'',
      ''WithdrawalOutputNoteCreated(bytes32,bytes32,uint256,uint256,bytes,uint16)'']"

definition fetchNoteEventLogs ::
  "(string \<Rightarrow> string) \<Rightarrow> note_node \<Rightarrow> sdk_runtime \<Rightarrow> string option \<Rightarrow> int option \<Rightarrow> rpc_call list \<Rightarrow> raw_note_log list run option" where
  "fetchNoteEventLogs event_hash node runtime fromBlockInput logChunkSize calls =
     (let chunkSize = or_else logChunkSize 50000;
          fromBlock = or_else fromBlockInput (rt_poolDeploymentBlock runtime) in
      if chunkSize \<le> 0 then Some (Inl ''Expected note recovery log chunk size to be positive.'', calls)
      else if \<not> isBlockQuantity fromBlock
      then Some (Inl ''Expected note recovery fromBlock to be a hex block quantity.'', calls)
      else case eth_blockNumber node calls of
        (Inl e, calls1) \<Rightarrow> Some (Inl e, calls1)
      | (Inr latestBlockHex, calls1) \<Rightarrow>
          if \<not> isBlockQuantity latestBlockHex
          then Some (Inl ''Expected MegaETH RPC eth_blockNumber to return a hex block quantity.'', calls1)
          else fetch_chunks node (rt_pool runtime) (AnyTopic (NOTE_EVENT_TOPICS event_hash)) chunkSize
                 (hex_value latestBlockHex) (hex_value fromBlock) [] calls1)"

definition safeLeafIndex :: "int \<Rightarrow> string + int" where
  "safeLeafIndex v = (if v > MAX_SAFE_INTEGER then Inl ''Note event leaf index exceeds safe integer range.'' else Inr v)"

definition assertEncryptionVersion :: "int \<Rightarrow> string + int" where
  "assertEncryptionVersion v = (if v \<noteq> 1 \<and> v \<noteq> 2 then Inl ''Unsupported note encryption version.'' else Inr v)"

definition assertBytes32_note :: "string \<Rightarrow> string + string" where
  "assertBytes32_note v = (if \<not> isHexBytes32 v then Inl ''Expected note event bytes32 value.'' else Inr v)"

definition assertHexBytes_note :: "string \<Rightarrow> string + string" where
  "assertHexBytes_note v = (if \<not> isHexString v then Inl ''Expected note event encrypted note bytes.'' else Inr v)"

definition decoded_record ::
  "raw_note_log \<Rightarrow> note_action \<Rightarrow> string \<Rightarrow> int \<Rightarrow> string \<Rightarrow> int \<Rightarrow> string option \<Rightarrow> string + decoded_note option" where
  "decoded_record lg action commitment leafIndex encryptedNote version nullifier =
     bind_res (assertBytes32_note commitment) (\<lambda>c.
     bind_res (safeLeafIndex leafIndex) (\<lambda>l.
     bind_res (assertHexBytes_note encryptedNote) (\<lambda>e.
     bind_res (assertEncryptionVersion version) (\<lambda>v.
     bind_res (case nullifier of None \<Rightarrow> Inr None | Some n \<Rightarrow> bind_res (assertBytes32_note n) (\<lambda>b. Inr (Some b))) (\<lambda>n.
       Inr (Some \<lparr>dn_action = action, dn_commitment = c, dn_leafIndex = l, dn_encryptedNote = e, dn_encryptionVersion = v,
                  dn_nullifier = n, dn_transactionHash = nl_transactionHash lg\<rparr>))))))"

definition decodeNoteEventLog ::
  "(string list \<Rightarrow> string \<Rightarrow> string + note_log_event) \<Rightarrow> raw_note_log \<Rightarrow> string + decoded_note option" where
  "decodeNoteEventLog decode lg =
     (if \<not> isEvmAddress (nl_address lg) \<or> \<not> isHexString (nl_data lg) \<or> \<not> isHexString (nl_transactionHash lg)
      then Inl ''Invalid note event log shape.''
      else if \<exists>topic \<in> set (nl_topics lg). \<not> isHexString topic then Inl ''Invalid note event topics.''
      else bind_res (decode (nl_topics lg) (nl_data lg)) (\<lambda>ev.
        case ev of
          DepositNoteLog c l e v \<Rightarrow> decoded_record lg NDeposit c l e v None
        | PrivateTransferNoteLog c n l e v \<Rightarrow> decoded_record lg NPrivateTransfer c l e v (Some n)
        | WithdrawalChangeNoteLog c n l g e v \<Rightarrow> decoded_record lg NWithdrawChange c l e v (Some n)
        | WithdrawalOutputNoteLog c n l g e v \<Rightarrow> decoded_record lg NWithdrawOutput c l e v (Some n)
        | OtherLog \<Rightarrow> Inr None))"

section \<open>Decrypting note events\<close>

definition NULLARK_RECOVERY_APP_ID :: string where
  "NULLARK_RECOVERY_APP_ID = ''nullark''"
definition LEGACY_SHIELDED_TRANSFERS_RECOVERY_APP_ID :: string where
  "LEGACY_SHIELDED_TRANSFERS_RECOVERY_APP_ID = ''shielded-balance-transfers''"
definition NULLARK_LEGACY_RECOVERY_EPOCH_ID_V1 :: string where
  "NULLARK_LEGACY_RECOVERY_EPOCH_ID_V1 = ''megaeth-testnet-v1''"

definition getNullarkRecoveryEpochId :: "jsnum \<Rightarrow> string + string" where
  "getNullarkRecoveryEpochId chainId =
     (if \<not> is_safe_integer chainId \<or> num_le chainId (jsint 0) then Inl ''Expected recovery epoch chain ID.''
      else Inr (''megaeth-'' @ dec_string (num_int chainId) @ ''-nullark-v1''))"

definition assertMegaEthRecoveryChainId :: "jsnum \<Rightarrow> string + jsnum" where
  "assertMegaEthRecoveryChainId chainId =
     (if \<not> num_eq chainId (jsint 4326) \<and> \<not> num_eq chainId (jsint 6343) then Inl ''Expected MegaETH recovery chain ID.''
      else Inr chainId)"

definition event_checks :: "jsnum \<Rightarrow> string \<Rightarrow> decoded_note \<Rightarrow> output_checks" where
  "event_checks chainId pool event =
     \<lparr>oc_chainId = Some chainId, oc_verifyingContract = Some pool, oc_outputCommitment = Some (dn_commitment event)\<rparr>"

definition validated_event :: "jsnum \<Rightarrow> string \<Rightarrow> decoded_note \<Rightarrow> (decoded_note \<times> output_envelope) list" where
  "validated_event chainId pool event =
     (if dn_action event \<noteq> NWithdrawOutput \<or> dn_encryptionVersion event \<noteq> 2 \<or> dn_encryptedNote event = ''0x'' then []
      else case parseEncryptedOutputNoteV2EnvelopeFromHex (dn_encryptedNote event) (event_checks chainId pool event) of
        Inl _ \<Rightarrow> [] | Inr envelope \<Rightarrow> [(event, envelope)])"

definition validateEncryptedOutputNoteV2Events ::
  "jsnum \<Rightarrow> string \<Rightarrow> decoded_note list \<Rightarrow> string + (decoded_note \<times> output_envelope) list" where
  "validateEncryptedOutputNoteV2Events chainIdInput pool events =
     bind_res (assertMegaEthRecoveryChainId chainIdInput) (\<lambda>chainId.
       if \<not> isEvmAddress pool then Inl ''Expected note recovery pool address.''
       else Inr (concat (map (validated_event chainId pool) events)))"

definition tried_actions :: "note_action \<Rightarrow> v1_action list" where
  "tried_actions a =
     (case a of NWithdrawOutput \<Rightarrow> [AWithdrawOutput, AWithdrawChange, AWithdraw]
      | NWithdrawChange \<Rightarrow> [AWithdrawChange, AWithdraw]
      | NDeposit \<Rightarrow> [ADeposit] | NPrivateTransfer \<Rightarrow> [APrivateTransfer])"

definition attempt ::
  "'k note_crypto \<Rightarrow> jsnum \<Rightarrow> string \<Rightarrow> decoded_note \<Rightarrow> encrypted_envelope \<Rightarrow> 'k \<Rightarrow> string \<Rightarrow> v1_action \<Rightarrow> string + spend_material" where
  "attempt C chainId pool event encrypted recoveryKey epochId action =
     bind_res (deriveNoteKey C recoveryKey (dn_commitment event) epochId) (\<lambda>noteKey.
     bind_res (makeRecoveryAssociatedData chainId pool action (dn_commitment event)) (\<lambda>aad.
       decryptEncryptedNoteEnvelope C noteKey encrypted aad))"

fun first_success :: "('e + 'a) list \<Rightarrow> 'a option" where
  "first_success [] = None"
| "first_success (Inr a # rs) = Some a"
| "first_success (Inl e # rs) = first_success rs"

definition tryDecryptEvent ::
  "'k note_crypto \<Rightarrow> 'k list \<Rightarrow> string list \<Rightarrow> jsnum \<Rightarrow> string \<Rightarrow> decoded_note \<Rightarrow> spend_material option" where
  "tryDecryptEvent C recoveryKeys epochIds chainId pool event =
     (if dn_encryptedNote event = ''0x'' then None
      else if dn_action event = NWithdrawOutput \<and> dn_encryptionVersion event = 2 then None
      else case parseEncryptedNoteEnvelopeFromHex (dn_encryptedNote event) of
        Inl _ \<Rightarrow> None
      | Inr encrypted \<Rightarrow> first_success
          [attempt C chainId pool event encrypted k e a.
             k \<leftarrow> recoveryKeys, e \<leftarrow> epochIds, a \<leftarrow> tried_actions (dn_action event)])"

fun recover_events ::
  "'k note_crypto \<Rightarrow> (spend_material \<Rightarrow> string + string) \<Rightarrow> 'k list \<Rightarrow> string list \<Rightarrow> jsnum \<Rightarrow> string \<Rightarrow> decoded_note list
     \<Rightarrow> string + (decoded_note \<times> spend_material) list" where
  "recover_events C deriveCommitment keys epochs chainId pool [] = Inr []"
| "recover_events C deriveCommitment keys epochs chainId pool (event # events) =
     (case tryDecryptEvent C keys epochs chainId pool event of
        None \<Rightarrow> recover_events C deriveCommitment keys epochs chainId pool events
      | Some plaintext \<Rightarrow>
          if \<not> num_eq (sm_chainId plaintext) chainId \<or> to_lower (sm_pool plaintext) \<noteq> to_lower pool
          then recover_events C deriveCommitment keys epochs chainId pool events
          else bind_res (deriveCommitment plaintext) (\<lambda>derivedCommitment.
            if to_lower derivedCommitment \<noteq> to_lower (dn_commitment event)
            then recover_events C deriveCommitment keys epochs chainId pool events
            else bind_res (recover_events C deriveCommitment keys epochs chainId pool events) (\<lambda>recovered.
              Inr ((event, plaintext) # recovered))))"

definition recoverSpendMaterialFromDecodedNoteEvents ::
  "'k note_crypto \<Rightarrow> (spend_material \<Rightarrow> string + string) \<Rightarrow> string \<Rightarrow> jsnum \<Rightarrow> string \<Rightarrow> decoded_note list
     \<Rightarrow> string + (decoded_note \<times> spend_material) list" where
  "recoverSpendMaterialFromDecodedNoteEvents C deriveCommitment walletSignature chainId pool events =
     (if \<not> is_safe_integer chainId \<or> num_le chainId (jsint 0) then Inl ''Expected note recovery chain ID.''
      else if \<not> isEvmAddress pool then Inl ''Expected note recovery pool address.''
      else bind_res (map_res (deriveWalletRecoveryKey C walletSignature chainId pool)
                       (js_unique [NULLARK_RECOVERY_APP_ID, LEGACY_SHIELDED_TRANSFERS_RECOVERY_APP_ID])) (\<lambda>recoveryKeys.
           bind_res (getNullarkRecoveryEpochId chainId) (\<lambda>epochId.
             recover_events C deriveCommitment recoveryKeys (js_unique [epochId, NULLARK_LEGACY_RECOVERY_EPOCH_ID_V1])
               chainId pool events)))"

section \<open>Commitments and nullifiers\<close>

definition fieldElement :: "string \<Rightarrow> string \<Rightarrow> string + int" where
  "fieldElement v label =
     (if \<not> isHexBytes32 v then Inl (label @ '' must be a bytes32 hex string'')
      else if hex_value v \<ge> BN254_SCALAR_FIELD then Inl (label @ '' must be a BN254 field element'')
      else Inr (hex_value v))"

definition positiveFieldElement :: "string \<Rightarrow> string \<Rightarrow> string + int" where
  "positiveFieldElement v label =
     (if v = [] \<or> \<not> list_all is_digit v then Inl (label @ '' must be a decimal integer'')
      else if int (radix_val 10 v) \<le> 0 \<or> int (radix_val 10 v) \<ge> BN254_SCALAR_FIELD then Inl (label @ '' must be positive'')
      else Inr (int (radix_val 10 v)))"

definition normalizeHashOutput :: "int \<Rightarrow> string \<Rightarrow> string + int" where
  "normalizeHashOutput v label =
     (if v \<le> 0 \<or> v \<ge> BN254_SCALAR_FIELD then Inl (label @ '' hash output must be a nonzero BN254 field element'') else Inr v)"

definition deriveNoteCommitment :: "(int list \<Rightarrow> int) \<Rightarrow> string \<Rightarrow> string \<Rightarrow> string \<Rightarrow> string \<Rightarrow> string + string" where
  "deriveNoteCommitment poseidon assetId amountText ownerCommitment noteSecret =
     bind_res (fieldElement assetId ''assetId'') (\<lambda>a.
     bind_res (positiveFieldElement amountText ''amount'') (\<lambda>w.
     bind_res (fieldElement ownerCommitment ''ownerCommitment'') (\<lambda>oc.
     bind_res (fieldElement noteSecret ''noteSecret'') (\<lambda>s.
     bind_res (normalizeHashOutput (poseidon [10001, a, w, oc, s]) ''commitment'') (\<lambda>c. Inr (toBytes32 c))))))"

definition deriveNullifier :: "(int list \<Rightarrow> int) \<Rightarrow> string \<Rightarrow> jsnum \<Rightarrow> jsnum \<Rightarrow> string \<Rightarrow> string + string" where
  "deriveNullifier poseidon noteSecret leafIndex chainId verifyingContract =
     (if \<not> is_safe_integer leafIndex \<or> num_less leafIndex (jsint 0) then Inl ''leafIndex must be a safe nonnegative integer''
      else if \<not> is_safe_integer chainId \<or> num_le chainId (jsint 0) then Inl ''chainId must be a safe positive integer''
      else if \<not> isEvmAddress verifyingContract then Inl ''verifyingContract must be an EVM address''
      else bind_res (fieldElement noteSecret ''noteSecret'') (\<lambda>s.
           bind_res (normalizeHashOutput (poseidon [10002, s, num_int leafIndex, num_int chainId, hex_value verifyingContract])
                       ''nullifier'') (\<lambda>n. Inr (toBytes32 n))))"

definition deriveCommitmentFromSpendMaterial :: "(int list \<Rightarrow> int) \<Rightarrow> spend_material \<Rightarrow> string + string" where
  "deriveCommitmentFromSpendMaterial poseidon m =
     deriveNoteCommitment poseidon (sm_assetId m) (sm_noteAmountWei m) (sm_ownerCommitment m) (sm_noteSecret m)"

definition deriveNullifierFromSpendMaterial ::
  "(int list \<Rightarrow> int) \<Rightarrow> spend_material \<Rightarrow> int \<Rightarrow> jsnum \<Rightarrow> string \<Rightarrow> string + string" where
  "deriveNullifierFromSpendMaterial poseidon m leafIndex chainId pool =
     deriveNullifier poseidon (sm_noteSecret m) (jsint leafIndex) chainId pool"

section \<open>The list of a wallet's notes\<close>

text \<open>The data to sign, without its constant parts.\<close>

record unlock_data =
  ud_wallet :: string
  ud_chainId :: jsnum
  ud_pool :: string
  ud_issuedAt :: string

definition WALLET_RECOVERY_SCOPE_ISSUED_AT :: string where
  "WALLET_RECOVERY_SCOPE_ISSUED_AT = ''2026-05-02T00:00:00.000Z''"

definition buildUnlockPrivateBalanceTypedData ::
  "'k note_crypto \<Rightarrow> string \<Rightarrow> jsnum \<Rightarrow> string \<Rightarrow> string option \<Rightarrow> string + unlock_data" where
  "buildUnlockPrivateBalanceTypedData C wallet chainId pool issuedAtInput =
     (let issuedAt = or_else issuedAtInput WALLET_RECOVERY_SCOPE_ISSUED_AT in
      if \<not> num_eq chainId (jsint 6343) \<and> \<not> num_eq chainId (jsint 4326)
      then Inl ''Wallet unlock signatures are only supported for MegaETH testnet 6343 or mainnet 4326.''
      else if \<not> isEvmAddress wallet then Inl ''Invalid wallet address.''
      else if \<not> isEvmAddress pool then Inl ''Invalid shielded pool address.''
      else if issuedAt = [] \<or> \<not> nc_dateValid C issuedAt then Inl ''Invalid wallet unlock issuedAt timestamp.''
      else Inr \<lparr>ud_wallet = wallet, ud_chainId = chainId, ud_pool = pool, ud_issuedAt = issuedAt\<rparr>)"

record wallet_note =
  wn_id :: string
  wn_commitment :: string
  wn_amountWei :: string
  wn_spent :: bool
  wn_leafIndex :: int
  wn_transactionHash :: string
  wn_spendMaterial :: spend_material
  wn_nullifier :: string

definition encodeNullifierLookupCalldata :: "string \<Rightarrow> string + string" where
  "encodeNullifierLookupCalldata nullifier =
     (if \<not> isHexBytes32 nullifier then Inl ''Expected withdrawal nullifier to be bytes32.''
      else Inr (''0x2997e86b'' @ drop 2 nullifier))"

definition isNullifierSpent :: "note_node \<Rightarrow> sdk_runtime \<Rightarrow> string \<Rightarrow> rpc_call list \<Rightarrow> bool run" where
  "isNullifierSpent node runtime nullifier calls =
     (case encodeNullifierLookupCalldata nullifier of
        Inl e \<Rightarrow> (Inl e, calls)
      | Inr data \<Rightarrow>
          (let call = EthCall (rt_pool runtime) data in
           (bind_res (rpcRequest ''eth_call'' (node_call node calls call)) (\<lambda>result.
              if \<not> isHexString result then Inl ''Expected nullifier lookup eth_call result.''
              else bind_res (bigint_result result) (\<lambda>v. Inr (v \<noteq> 0))), calls @ [call])))"

definition wallet_note_of :: "decoded_note \<Rightarrow> spend_material \<Rightarrow> bool \<Rightarrow> string \<Rightarrow> wallet_note" where
  "wallet_note_of event m spent nullifier =
     \<lparr>wn_id = ''note_'' @ take 8 (drop 2 (dn_commitment event)) @ ''_'' @ dec_string (dn_leafIndex event),
      wn_commitment = dn_commitment event, wn_amountWei = sm_noteAmountWei m, wn_spent = spent,
      wn_leafIndex = dn_leafIndex event, wn_transactionHash = dn_transactionHash event,
      wn_spendMaterial = m, wn_nullifier = nullifier\<rparr>"

fun list_notes ::
  "note_node \<Rightarrow> sdk_runtime \<Rightarrow> (spend_material \<Rightarrow> int \<Rightarrow> string + string) \<Rightarrow> (decoded_note \<times> spend_material) list \<Rightarrow> rpc_call list
     \<Rightarrow> wallet_note list run" where
  "list_notes node runtime nullifier_of [] calls = (Inr [], calls)"
| "list_notes node runtime nullifier_of ((event, m) # entries) calls =
     (case nullifier_of m (dn_leafIndex event) of
        Inl e \<Rightarrow> (Inl e, calls)
      | Inr nullifier \<Rightarrow>
          if \<not> isHexBytes32 nullifier then (Inl ''Recovered note nullifier must be bytes32.'', calls)
          else (case isNullifierSpent node runtime nullifier calls of
              (Inl e, calls1) \<Rightarrow> (Inl e, calls1)
            | (Inr spent, calls1) \<Rightarrow>
                (case list_notes node runtime nullifier_of entries calls1 of
                   (Inl e, calls2) \<Rightarrow> (Inl e, calls2)
                 | (Inr notes, calls2) \<Rightarrow> (Inr (wallet_note_of event m spent nullifier # notes), calls2))))"

record recovery_env =
  re_decode :: "string list \<Rightarrow> string \<Rightarrow> string + note_log_event"
  re_eventHash :: "string \<Rightarrow> string"
  re_sign :: "unlock_data \<Rightarrow> string + string"
  re_commitment :: "spend_material \<Rightarrow> string + string"
  re_nullifier :: "spend_material \<Rightarrow> int \<Rightarrow> string + string"

definition event_list :: "decoded_note option list \<Rightarrow> decoded_note list" where
  "event_list ds = concat (map (\<lambda>d. case d of None \<Rightarrow> [] | Some e \<Rightarrow> [e]) ds)"

definition recoverWalletNotesFromChain ::
  "'k note_crypto \<Rightarrow> recovery_env \<Rightarrow> note_node \<Rightarrow> sdk_runtime \<Rightarrow> string \<Rightarrow> string option \<Rightarrow> int option \<Rightarrow> wallet_note list run option" where
  "recoverWalletNotesFromChain C E node runtime wallet issuedAt logChunkSize =
     (if \<not> isEvmAddress wallet then Some (Inl ''Expected wallet address for note recovery.'', [])
      else case bind_res (buildUnlockPrivateBalanceTypedData C wallet (jsint (rt_chainId runtime)) (rt_pool runtime)
                   (Some (or_else issuedAt WALLET_RECOVERY_SCOPE_ISSUED_AT))) (re_sign E) of
        Inl e \<Rightarrow> Some (Inl e, [])
      | Inr walletSignature \<Rightarrow>
          map_option (\<lambda>(fetched, calls).
              case bind_res fetched (\<lambda>logs. bind_res (map_res (decodeNoteEventLog (re_decode E)) logs) (\<lambda>decoded.
                     recoverSpendMaterialFromDecodedNoteEvents C (re_commitment E) walletSignature
                       (jsint (rt_chainId runtime)) (rt_pool runtime) (event_list decoded))) of
                Inl e \<Rightarrow> (Inl e, calls)
              | Inr recovered \<Rightarrow> list_notes node runtime (re_nullifier E) recovered calls)
            (fetchNoteEventLogs (re_eventHash E) node runtime None logChunkSize []))"

text \<open>The derivations the code uses when the caller gives none.\<close>

definition default_env ::
  "(int list \<Rightarrow> int) \<Rightarrow> sdk_runtime \<Rightarrow> (string list \<Rightarrow> string \<Rightarrow> string + note_log_event) \<Rightarrow> (string \<Rightarrow> string)
     \<Rightarrow> (unlock_data \<Rightarrow> string + string) \<Rightarrow> recovery_env" where
  "default_env poseidon runtime decode event_hash sign =
     \<lparr>re_decode = decode, re_eventHash = event_hash, re_sign = sign,
      re_commitment = deriveCommitmentFromSpendMaterial poseidon,
      re_nullifier = (\<lambda>m leafIndex. deriveNullifierFromSpendMaterial poseidon m leafIndex
                         (jsint (rt_chainId runtime)) (rt_pool runtime))\<rparr>"

section \<open>What is recovered\<close>

lemma first_success_Some:
  "first_success rs = Some a \<Longrightarrow> Inr a \<in> set rs"
  by (induction rs rule: first_success.induct) auto

lemma first_success_unique:
  assumes "Inr a \<in> set rs" "\<forall>b. Inr b \<in> set rs \<longrightarrow> b = a"
  shows "first_success rs = Some a"
  using assms
proof (induction rs rule: first_success.induct)
  case (2 b rs)
  have "Inr b \<in> set (Inr b # rs) \<longrightarrow> b = a"
    using 2(2) by (rule spec)
  then have "b = a" by simp
  show ?case unfolding \<open>b = a\<close> by (rule first_success.simps)
next
  case (3 e rs)
  have "Inr a \<in> set rs" using 3(2) by simp
  moreover have "\<forall>b. Inr b \<in> set rs \<longrightarrow> b = a"
    using 3(3) unfolding list.set insert_iff by blast
  ultimately have "first_success rs = Some a" by (rule 3(1))
  then show ?case by simp
qed simp

definition recovers ::
  "'k note_crypto \<Rightarrow> (spend_material \<Rightarrow> string + string) \<Rightarrow> 'k list \<Rightarrow> string list \<Rightarrow> jsnum \<Rightarrow> string \<Rightarrow> decoded_note
     \<Rightarrow> spend_material \<Rightarrow> bool" where
  "recovers C deriveCommitment keys epochs chainId pool event m \<longleftrightarrow>
     tryDecryptEvent C keys epochs chainId pool event = Some m \<and>
     num_eq (sm_chainId m) chainId \<and> to_lower (sm_pool m) = to_lower pool \<and>
     (\<exists>c. deriveCommitment m = Inr c \<and> to_lower c = to_lower (dn_commitment event))"

lemma recover_events_step:
  assumes "recover_events C deriveCommitment keys epochs chainId pool (ev # events) = Inr recovered"
  shows "\<exists>rest. recover_events C deriveCommitment keys epochs chainId pool events = Inr rest \<and>
    ((\<forall>m. \<not> recovers C deriveCommitment keys epochs chainId pool ev m) \<and> recovered = rest \<or>
     (\<exists>m. recovers C deriveCommitment keys epochs chainId pool ev m \<and>
        (\<forall>m'. recovers C deriveCommitment keys epochs chainId pool ev m' \<longrightarrow> m' = m) \<and> recovered = (ev, m) # rest))"
proof (cases "tryDecryptEvent C keys epochs chainId pool ev")
  case None
  with assms show ?thesis by (simp add: recovers_def)
next
  case (Some p)
  note run = assms [unfolded recover_events.simps Some option.case]
  show ?thesis
  proof (cases "num_eq (sm_chainId p) chainId \<and> to_lower (sm_pool p) = to_lower pool")
    case False
    with run have "recover_events C deriveCommitment keys epochs chainId pool events = Inr recovered" by simp
    moreover have "\<not> recovers C deriveCommitment keys epochs chainId pool ev m" for m
      using False Some by (auto simp: recovers_def)
    ultimately show ?thesis by blast
  next
    case True
    then obtain c where c: "deriveCommitment p = Inr c"
      using run by (auto elim: bind_resE)
    show ?thesis
    proof (cases "to_lower c = to_lower (dn_commitment ev)")
      case True
      with run c \<open>num_eq (sm_chainId p) chainId \<and> _\<close> obtain rest where
        "recover_events C deriveCommitment keys epochs chainId pool events = Inr rest" "recovered = (ev, p) # rest"
        by (auto elim!: bind_resE)
      with True c Some \<open>num_eq (sm_chainId p) chainId \<and> _\<close> show ?thesis by (simp add: recovers_def)
    next
      case False
      with run c Some \<open>num_eq (sm_chainId p) chainId \<and> _\<close> show ?thesis by (simp add: recovers_def)
    qed
  qed
qed

lemma recover_events_iff:
  "recover_events C deriveCommitment keys epochs chainId pool events = Inr recovered \<Longrightarrow>
    (event, m) \<in> set recovered \<longleftrightarrow> event \<in> set events \<and> recovers C deriveCommitment keys epochs chainId pool event m"
proof (induction events arbitrary: recovered)
  case (Cons ev events)
  from recover_events_step [OF Cons.prems] obtain rest where
    rest: "recover_events C deriveCommitment keys epochs chainId pool events = Inr rest"
    and cases: "(\<forall>m. \<not> recovers C deriveCommitment keys epochs chainId pool ev m) \<and> recovered = rest \<or>
     (\<exists>m. recovers C deriveCommitment keys epochs chainId pool ev m \<and>
        (\<forall>m'. recovers C deriveCommitment keys epochs chainId pool ev m' \<longrightarrow> m' = m) \<and> recovered = (ev, m) # rest)"
    by blast
  note ih = Cons.IH [OF rest]
  from cases show ?case
  proof (elim disjE exE conjE)
    assume "\<forall>m. \<not> recovers C deriveCommitment keys epochs chainId pool ev m" "recovered = rest"
    then show ?case using ih unfolding list.set insert_iff by blast
  next
    fix p
    assume p: "recovers C deriveCommitment keys epochs chainId pool ev p"
      "\<forall>m'. recovers C deriveCommitment keys epochs chainId pool ev m' \<longrightarrow> m' = p" "recovered = (ev, p) # rest"
    show ?case unfolding p(3) list.set insert_iff prod.inject using ih p(1,2) by blast
  qed
qed simp

lemma list_all2_member:
  "list_all2 P xs ys \<Longrightarrow> x \<in> set xs \<Longrightarrow> \<exists>y \<in> set ys. P x y"
  "list_all2 P xs ys \<Longrightarrow> y \<in> set ys \<Longrightarrow> \<exists>x \<in> set xs. P x y"
  by (induction rule: list_all2_induct) auto

lemma attempts_member:
  "r \<in> set [attempt C chainId pool event encrypted k e a. k \<leftarrow> keys, e \<leftarrow> epochs, a \<leftarrow> acts] \<longleftrightarrow>
    (\<exists>k \<in> set keys. \<exists>e \<in> set epochs. \<exists>a \<in> set acts. r = attempt C chainId pool event encrypted k e a)"
  by auto

lemma derived_keys:
  assumes "map_res (deriveWalletRecoveryKey C sig chainId pool)
      (js_unique [NULLARK_RECOVERY_APP_ID, LEGACY_SHIELDED_TRANSFERS_RECOVERY_APP_ID]) = Inr keys"
    "appId = NULLARK_RECOVERY_APP_ID \<or> appId = LEGACY_SHIELDED_TRANSFERS_RECOVERY_APP_ID"
    "deriveWalletRecoveryKey C sig chainId pool appId = Inr k"
  shows "k \<in> set keys"
proof -
  have all: "list_all2 (\<lambda>a k. deriveWalletRecoveryKey C sig chainId pool a = Inr k)
      (js_unique [NULLARK_RECOVERY_APP_ID, LEGACY_SHIELDED_TRANSFERS_RECOVERY_APP_ID]) keys"
    using assms(1) by (simp add: map_res_Inr_iff)
  have "appId \<in> set (js_unique [NULLARK_RECOVERY_APP_ID, LEGACY_SHIELDED_TRANSFERS_RECOVERY_APP_ID])"
    using assms(2) by auto
  from list_all2_member(1) [OF all this] obtain k' where
    "k' \<in> set keys" "deriveWalletRecoveryKey C sig chainId pool appId = Inr k'"
    by (elim bexE)
  with assms(3) show ?thesis by simp
qed

text \<open>One event: the envelope is opened by the right key, and by no other to anything else.\<close>

lemma tryDecrypt_encrypted:
  assumes "deriveNoteKey C k (dn_commitment event) epoch = Inr noteKey" "k \<in> set keys" "epoch \<in> set epochs"
    "makeRecoveryAssociatedData chainId pool action (dn_commitment event) = Inr aad" "action \<in> set (tried_actions (dn_action event))"
    "encryptSpendMaterialEnvelope C noteKey nonce m aad = Inr envelope"
    "serializeEncryptedNoteEnvelopeToHex envelope = Inr (dn_encryptedNote event)"
    "opens_only_to C noteKey nonce aad (object_text (spend_json m))"
    "\<not> (dn_action event = NWithdrawOutput \<and> dn_encryptionVersion event = 2)"
  shows "tryDecryptEvent C keys epochs chainId pool event = Some m"
proof -
  have m: "validateSpendMaterialPlaintext C m = Inr m"
    and envelope: "envelope = \<lparr>ee_nonce = nonce, ee_ciphertext = nc_encrypt C noteKey nonce aad (object_text (spend_json m))\<rparr>"
    using assms(6) by (auto simp: encryptSpendMaterialEnvelope_def validateSpendMaterialPlaintext_def res_simps split: if_splits)
  have valid: "validateEncryptedNoteEnvelope envelope = Inr envelope"
    and hex: "dn_encryptedNote event = json_hex (encrypted_envelope_json envelope)"
    using assms(7) by (auto simp: serializeEncryptedNoteEnvelopeToHex_def validateEncryptedNoteEnvelope_def split: if_splits)
  then have nonce: "isHexString nonce" "hexByteLength nonce = 12"
    by (auto simp: envelope validateEncryptedNoteEnvelope_def split: if_splits)
  note only = decrypt_only_to [OF assms(8) m nonce envelope]
  have parsed: "parseEncryptedNoteEnvelopeFromHex (dn_encryptedNote event) = Inr envelope"
    unfolding hex by (rule envelope_v1_parses) (rule valid)
  have "dn_encryptedNote event \<noteq> ''0x''"
  proof
    assume zero: "dn_encryptedNote event = ''0x''"
    have "parseEncryptedNoteEnvelopeFromHex ''0x'' \<noteq> Inr envelope"
      by (simp add: parseEncryptedNoteEnvelopeFromHex_def hexToUtf8_def json_parse_def skip_ws_def starts_with_def parse_number_def Let_def)
    with parsed zero show False by simp
  qed
  moreover have "first_success [attempt C chainId pool event envelope k e a. k \<leftarrow> keys, e \<leftarrow> epochs, a \<leftarrow> tried_actions (dn_action event)] = Some m"
  proof (rule first_success_unique)
    have "attempt C chainId pool event envelope k epoch action = Inr m"
      using assms(1,4) only(2) by (simp add: attempt_def)
    then show "Inr m \<in> set [attempt C chainId pool event envelope k e a. k \<leftarrow> keys, e \<leftarrow> epochs, a \<leftarrow> tried_actions (dn_action event)]"
      unfolding attempts_member using assms(2,3,5) by metis
    show "\<forall>b. Inr b \<in> set [attempt C chainId pool event envelope k e a. k \<leftarrow> keys, e \<leftarrow> epochs, a \<leftarrow> tried_actions (dn_action event)] \<longrightarrow> b = m"
      unfolding attempts_member attempt_def using only(3) by (auto elim!: bind_resE dest: sym)
  qed
  ultimately show ?thesis
    using assms(9) parsed unfolding tryDecryptEvent_def by simp
qed

lemma encrypted_event_recovered:
  assumes "recoverSpendMaterialFromDecodedNoteEvents C deriveCommitment sig chainId pool events = Inr recovered"
    "event \<in> set events" "\<not> (dn_action event = NWithdrawOutput \<and> dn_encryptionVersion event = 2)"
    "deriveWalletRecoveryKey C sig chainId pool appId = Inr k"
    "appId = NULLARK_RECOVERY_APP_ID \<or> appId = LEGACY_SHIELDED_TRANSFERS_RECOVERY_APP_ID"
    "deriveNoteKey C k (dn_commitment event) epoch = Inr noteKey"
    "getNullarkRecoveryEpochId chainId = Inr epoch \<or> epoch = NULLARK_LEGACY_RECOVERY_EPOCH_ID_V1"
    "makeRecoveryAssociatedData chainId pool action (dn_commitment event) = Inr aad" "action \<in> set (tried_actions (dn_action event))"
    "encryptSpendMaterialEnvelope C noteKey nonce m aad = Inr envelope"
    "serializeEncryptedNoteEnvelopeToHex envelope = Inr (dn_encryptedNote event)"
    "opens_only_to C noteKey nonce aad (object_text (spend_json m))"
    "sm_chainId m = chainId" "to_lower (sm_pool m) = to_lower pool"
    "deriveCommitment m = Inr c" "to_lower c = to_lower (dn_commitment event)"
  shows "(event, m') \<in> set recovered \<longleftrightarrow> m' = m"
proof -
  obtain keys epochId where keys: "map_res (deriveWalletRecoveryKey C sig chainId pool)
      (js_unique [NULLARK_RECOVERY_APP_ID, LEGACY_SHIELDED_TRANSFERS_RECOVERY_APP_ID]) = Inr keys"
    and epoch: "getNullarkRecoveryEpochId chainId = Inr epochId"
    and run: "recover_events C deriveCommitment keys (js_unique [epochId, NULLARK_LEGACY_RECOVERY_EPOCH_ID_V1]) chainId pool events
      = Inr recovered"
    using assms(1) unfolding recoverSpendMaterialFromDecodedNoteEvents_def
    by (auto elim!: bind_resE split: if_splits)
  have k: "k \<in> set keys"
    using derived_keys [OF keys assms(5,4)] .
  have e: "epoch \<in> set (js_unique [epochId, NULLARK_LEGACY_RECOVERY_EPOCH_ID_V1])"
    using assms(7) epoch by auto
  have dec: "tryDecryptEvent C keys (js_unique [epochId, NULLARK_LEGACY_RECOVERY_EPOCH_ID_V1]) chainId pool event = Some m"
    by (rule tryDecrypt_encrypted [OF assms(6) k e assms(8-12) assms(3)])
  have "num_eq (sm_chainId m) chainId"
    using assms(10,13) by (auto simp: encryptSpendMaterialEnvelope_def validateSpendMaterialPlaintext_def num_eq_def is_safe_integer_def
        res_simps split: if_splits)
  then show ?thesis
    unfolding recover_events_iff [OF run] recovers_def dec using assms(2,14-16) by auto
qed

text \<open>
  A note encrypted for a wallet is recovered by it. Take any event among those read whose note
  was encrypted under a key the wallet's signature derives (either application name, either epoch),
  for this chain and pool and for an action the event may carry, with spend material whose
  commitment is the event's. Then recovery, when it returns, lists the event with exactly that
  material and with no other, whatever other events are among them; AES-GCM is taken to open a
  ciphertext to nothing but its own text.
\<close>

theorem encrypted_note_recovered:
  assumes "recoverSpendMaterialFromDecodedNoteEvents C deriveCommitment sig chainId pool events = Inr recovered"
    "event \<in> set events" "\<not> (dn_action event = NWithdrawOutput \<and> dn_encryptionVersion event = 2)"
    "deriveWalletRecoveryKey C sig chainId pool appId = Inr k"
    "appId = NULLARK_RECOVERY_APP_ID \<or> appId = LEGACY_SHIELDED_TRANSFERS_RECOVERY_APP_ID"
    "deriveNoteKey C k (dn_commitment event) epoch = Inr noteKey"
    "getNullarkRecoveryEpochId chainId = Inr epoch \<or> epoch = NULLARK_LEGACY_RECOVERY_EPOCH_ID_V1"
    "makeRecoveryAssociatedData chainId pool action (dn_commitment event) = Inr aad" "action \<in> set (tried_actions (dn_action event))"
    "encryptSpendMaterialEnvelope C noteKey nonce m aad = Inr envelope"
    "serializeEncryptedNoteEnvelopeToHex envelope = Inr (dn_encryptedNote event)"
    "opens_only_to C noteKey nonce aad (object_text (spend_json m))"
    "sm_chainId m = chainId" "to_lower (sm_pool m) = to_lower pool"
    "deriveCommitment m = Inr c" "to_lower c = to_lower (dn_commitment event)"
  shows "(event, m') \<in> set recovered \<longleftrightarrow> m' = m"
  by (rule encrypted_event_recovered [OF assms])

text \<open>
  The note of an event opens under a key of the wallet: one derived from its signature, for an
  application, an epoch and an action that recovery tries.
\<close>

definition wallet_opens :: "'k note_crypto \<Rightarrow> string \<Rightarrow> jsnum \<Rightarrow> string \<Rightarrow> decoded_note \<Rightarrow> spend_material \<Rightarrow> bool" where
  "wallet_opens C sig chainId pool event m \<longleftrightarrow> (\<exists>appId k epoch noteKey action aad envelope.
     appId \<in> {NULLARK_RECOVERY_APP_ID, LEGACY_SHIELDED_TRANSFERS_RECOVERY_APP_ID} \<and>
     deriveWalletRecoveryKey C sig chainId pool appId = Inr k \<and>
     (getNullarkRecoveryEpochId chainId = Inr epoch \<or> epoch = NULLARK_LEGACY_RECOVERY_EPOCH_ID_V1) \<and>
     deriveNoteKey C k (dn_commitment event) epoch = Inr noteKey \<and> action \<in> set (tried_actions (dn_action event)) \<and>
     makeRecoveryAssociatedData chainId pool action (dn_commitment event) = Inr aad \<and>
     parseEncryptedNoteEnvelopeFromHex (dn_encryptedNote event) = Inr envelope \<and>
     decryptEncryptedNoteEnvelope C noteKey envelope aad = Inr m)"

lemma recovered_opens:
  assumes "recoverSpendMaterialFromDecodedNoteEvents C deriveCommitment sig chainId pool events = Inr recovered"
    "(event, m) \<in> set recovered"
  shows "wallet_opens C sig chainId pool event m"
proof -
  let ?apps = "js_unique [NULLARK_RECOVERY_APP_ID, LEGACY_SHIELDED_TRANSFERS_RECOVERY_APP_ID]"
  obtain keys epochId where keys: "map_res (deriveWalletRecoveryKey C sig chainId pool) ?apps = Inr keys"
    and epoch: "getNullarkRecoveryEpochId chainId = Inr epochId"
    and run: "recover_events C deriveCommitment keys (js_unique [epochId, NULLARK_LEGACY_RECOVERY_EPOCH_ID_V1]) chainId pool events
      = Inr recovered"
    using assms(1) unfolding recoverSpendMaterialFromDecodedNoteEvents_def
    by (auto elim!: bind_resE split: if_splits)
  have "tryDecryptEvent C keys (js_unique [epochId, NULLARK_LEGACY_RECOVERY_EPOCH_ID_V1]) chainId pool event = Some m"
    using recover_events_iff [OF run] assms(2) by (simp add: recovers_def)
  then obtain envelope where envelope: "parseEncryptedNoteEnvelopeFromHex (dn_encryptedNote event) = Inr envelope"
    and opened: "first_success [attempt C chainId pool event envelope k e a. k \<leftarrow> keys,
        e \<leftarrow> js_unique [epochId, NULLARK_LEGACY_RECOVERY_EPOCH_ID_V1], a \<leftarrow> tried_actions (dn_action event)] = Some m"
    unfolding tryDecryptEvent_def by (auto split: if_splits sum.splits)
  from first_success_Some [OF opened] obtain k e a where tried: "k \<in> set keys"
    "e \<in> set (js_unique [epochId, NULLARK_LEGACY_RECOVERY_EPOCH_ID_V1])" "a \<in> set (tried_actions (dn_action event))"
    "attempt C chainId pool event envelope k e a = Inr m"
    unfolding attempts_member by metis
  have "list_all2 (\<lambda>appId k. deriveWalletRecoveryKey C sig chainId pool appId = Inr k) ?apps keys"
    using keys by (simp add: map_res_Inr_iff)
  from list_all2_member(2) [OF this tried(1)] obtain appId where
    "appId \<in> set ?apps" "deriveWalletRecoveryKey C sig chainId pool appId = Inr k" by (elim bexE)
  moreover obtain noteKey aad where "deriveNoteKey C k (dn_commitment event) e = Inr noteKey"
    "makeRecoveryAssociatedData chainId pool a (dn_commitment event) = Inr aad" "decryptEncryptedNoteEnvelope C noteKey envelope aad = Inr m"
    using tried(4) by (auto simp: attempt_def elim!: bind_resE)
  moreover have "getNullarkRecoveryEpochId chainId = Inr e \<or> e = NULLARK_LEGACY_RECOVERY_EPOCH_ID_V1"
    using tried(2) epoch by auto
  ultimately show ?thesis
    unfolding wallet_opens_def using tried(3) envelope
    by (intro exI [of _ appId] exI [of _ k] exI [of _ e] exI [of _ noteKey] exI [of _ a] exI [of _ aad] exI [of _ envelope]) simp
qed

lemma list_notes_Inr:
  assumes "list_notes node runtime nullifier_of entries calls = (Inr found, calls')"
  shows "list_all2 (\<lambda>(event, m) n. \<exists>nullifier spent cs. nullifier_of m (dn_leafIndex event) = Inr nullifier \<and>
      isHexBytes32 nullifier \<and> fst (isNullifierSpent node runtime nullifier cs) = Inr spent \<and>
      n = wallet_note_of event m spent nullifier) entries found"
  using assms
proof (induction entries arbitrary: found calls calls')
  case Nil
  then show ?case by simp
next
  case (Cons entry entries)
  obtain event m where entry: "entry = (event, m)" by (cases entry)
  note run = Cons.prems [unfolded entry list_notes.simps]
  obtain nullifier where nullifier: "nullifier_of m (dn_leafIndex event) = Inr nullifier" "isHexBytes32 nullifier"
    using run by (auto split: sum.splits if_splits)
  obtain spent calls1 where spent: "isNullifierSpent node runtime nullifier calls = (Inr spent, calls1)"
    using run nullifier by (auto split: sum.splits prod.splits)
  obtain rest calls2 where rest: "list_notes node runtime nullifier_of entries calls1 = (Inr rest, calls2)"
    "found = wallet_note_of event m spent nullifier # rest"
    using run nullifier spent by (auto split: sum.splits prod.splits)
  have "fst (isNullifierSpent node runtime nullifier calls) = Inr spent"
    using spent by simp
  with Cons.IH [OF rest(1)] nullifier show ?case
    unfolding rest(2) entry list_all2_Cons prod.case by blast
qed

lemma fetchNoteEventLogs_Inr:
  assumes "fetchNoteEventLogs event_hash node runtime fromBlock chunk calls = Some (Inr logs, calls')"
  shows "\<exists>latest calls1. full_read node (rt_pool runtime) (AnyTopic (NOTE_EVENT_TOPICS event_hash)) (or_else chunk 50000)
      (hex_value (or_else fromBlock (rt_poolDeploymentBlock runtime))) latest calls1 logs calls'"
  using assms
  by (auto simp: fetchNoteEventLogs_def Let_def intro!: fetch_chunks_full exI split: if_splits prod.splits sum.splits)

lemma event_list_member: "e \<in> set (event_list ds) \<longleftrightarrow> Some e \<in> set ds"
  by (force simp: event_list_def split: option.splits)

text \<open>
  C20: What a wallet recovers is genuine. The note logs are all of the pool's from its deployment on,
  and every note in the list comes from one of them: the log's encrypted note opens to its spend
  material under a key derived from the wallet's signature, that material is for this chain and pool
  and hashes to the note's commitment, its nullifier is the one derived from the note secret and the
  leaf index of the event, its amount is the material's, and it is shown as spent exactly when the
  pool's answer for that nullifier is not zero.
\<close>

theorem recovered_notes_genuine:
  assumes "recoverWalletNotesFromChain C (default_env poseidon runtime decode event_hash sign) node runtime wallet issuedAt chunk
      = Some (Inr found, calls)" "n \<in> set found"
  shows "\<exists>logs latest calls1 calls2 lg event m sig.
    full_read node (rt_pool runtime) (AnyTopic (NOTE_EVENT_TOPICS event_hash)) (or_else chunk 50000)
      (hex_value (rt_poolDeploymentBlock runtime)) latest calls1 logs calls2 \<and>
    lg \<in> set logs \<and> decodeNoteEventLog decode lg = Inr (Some event) \<and> m = wn_spendMaterial n \<and>
    bind_res (buildUnlockPrivateBalanceTypedData C wallet (jsint (rt_chainId runtime)) (rt_pool runtime)
      (Some (or_else issuedAt WALLET_RECOVERY_SCOPE_ISSUED_AT))) sign = Inr sig \<and>
    wallet_opens C sig (jsint (rt_chainId runtime)) (rt_pool runtime) event m \<and>
    wn_commitment n = dn_commitment event \<and> wn_leafIndex n = dn_leafIndex event \<and> wn_amountWei n = sm_noteAmountWei m \<and>
    num_eq (sm_chainId m) (jsint (rt_chainId runtime)) \<and> to_lower (sm_pool m) = to_lower (rt_pool runtime) \<and>
    (\<exists>c. deriveCommitmentFromSpendMaterial poseidon m = Inr c \<and> to_lower c = to_lower (wn_commitment n)) \<and>
    deriveNullifier poseidon (sm_noteSecret m) (jsint (wn_leafIndex n)) (jsint (rt_chainId runtime)) (rt_pool runtime) =
      Inr (wn_nullifier n) \<and>
    (\<exists>cs. fst (isNullifierSpent node runtime (wn_nullifier n) cs) = Inr (wn_spent n))"
proof -
  let ?E = "default_env poseidon runtime decode event_hash sign"
  obtain sig fetched calls0 where sig: "bind_res (buildUnlockPrivateBalanceTypedData C wallet (jsint (rt_chainId runtime)) (rt_pool runtime)
      (Some (or_else issuedAt WALLET_RECOVERY_SCOPE_ISSUED_AT))) sign = Inr sig"
    and fetched: "fetchNoteEventLogs event_hash node runtime None chunk [] = Some (fetched, calls0)"
    and rest: "(case bind_res fetched (\<lambda>logs. bind_res (map_res (decodeNoteEventLog decode) logs) (\<lambda>decoded.
                     recoverSpendMaterialFromDecodedNoteEvents C (deriveCommitmentFromSpendMaterial poseidon) sig
                       (jsint (rt_chainId runtime)) (rt_pool runtime) (event_list decoded))) of
                Inl e \<Rightarrow> (Inl e, calls0)
              | Inr recovered \<Rightarrow> list_notes node runtime (re_nullifier ?E) recovered calls0) = (Inr found, calls)"
  proof -
    have w: "isEvmAddress wallet"
      using assms(1) by (simp add: recoverWalletNotesFromChain_def split: if_splits)
    note run = assms(1) [unfolded recoverWalletNotesFromChain_def if_not_P [OF not_not [THEN iffD2, OF w]]]
    from run obtain sig where s: "bind_res (buildUnlockPrivateBalanceTypedData C wallet (jsint (rt_chainId runtime)) (rt_pool runtime)
        (Some (or_else issuedAt WALLET_RECOVERY_SCOPE_ISSUED_AT))) (re_sign ?E) = Inr sig"
      by (auto split: sum.splits)
    obtain fetched calls0 where f: "fetchNoteEventLogs event_hash node runtime None chunk [] = Some (fetched, calls0)"
      using run unfolding s by (auto simp: default_env_def)
    show thesis
      using run unfolding s sum.case by (intro that [OF _ f]) (use s in \<open>simp_all add: f default_env_def\<close>)
  qed
  obtain logs decoded recovered where logs: "fetched = Inr logs" "map_res (decodeNoteEventLog decode) logs = Inr decoded"
    and recovered: "recoverSpendMaterialFromDecodedNoteEvents C (deriveCommitmentFromSpendMaterial poseidon) sig
         (jsint (rt_chainId runtime)) (rt_pool runtime) (event_list decoded) = Inr recovered"
    and listed: "list_notes node runtime (re_nullifier ?E) recovered calls0 = (Inr found, calls)"
    using rest by (auto split: sum.splits simp: res_simps)
  obtain event m nullifier spent cs where n: "(event, m) \<in> set recovered" "re_nullifier ?E m (dn_leafIndex event) = Inr nullifier"
    "fst (isNullifierSpent node runtime nullifier cs) = Inr spent" "n = wallet_note_of event m spent nullifier"
    using list_all2_member(2) [OF list_notes_Inr [OF listed] assms(2)] by (auto split: prod.splits)
  obtain keys epochs where "recover_events C (deriveCommitmentFromSpendMaterial poseidon) keys epochs (jsint (rt_chainId runtime))
      (rt_pool runtime) (event_list decoded) = Inr recovered"
    using recovered unfolding recoverSpendMaterialFromDecodedNoteEvents_def by (auto elim!: bind_resE split: if_splits)
  from iffD1 [OF recover_events_iff [OF this] n(1)]
  have event: "Some event \<in> set decoded" and ok: "num_eq (sm_chainId m) (jsint (rt_chainId runtime))"
    "to_lower (sm_pool m) = to_lower (rt_pool runtime)"
    "\<exists>c. deriveCommitmentFromSpendMaterial poseidon m = Inr c \<and> to_lower c = to_lower (dn_commitment event)"
    by (simp_all add: recovers_def event_list_member)
  from list_all2_member(2) [OF logs(2) [unfolded map_res_Inr_iff] event] obtain lg where
    lg: "lg \<in> set logs" "decodeNoteEventLog decode lg = Inr (Some event)"
    by (elim bexE)
  from fetchNoteEventLogs_Inr [OF fetched [unfolded logs(1)]] obtain latest calls1 where
    "full_read node (rt_pool runtime) (AnyTopic (NOTE_EVENT_TOPICS event_hash)) (or_else chunk 50000)
      (hex_value (rt_poolDeploymentBlock runtime)) latest calls1 logs calls0"
    by (auto simp: or_else_def)
  with lg ok n sig recovered_opens [OF recovered n(1)] show ?thesis
    by (intro exI [of _ logs] exI [of _ latest] exI [of _ calls1] exI [of _ calls0] exI [of _ lg] exI [of _ event] exI [of _ m] exI [of _ sig])
      (simp add: wallet_note_of_def default_env_def deriveNullifierFromSpendMaterial_def, blast)
qed

section \<open>A concrete wallet\<close>

definition toy_crypto :: "string note_crypto" where
  "toy_crypto = \<lparr>nc_import = (\<lambda>s. s), nc_hkdf = (\<lambda>k salt info. k @ salt @ info), nc_encrypt = (\<lambda>k n aad t. text_hex t),
     nc_decrypt = (\<lambda>k n aad c. Some (hexToUtf8 c)), nc_dateValid = (\<lambda>_. True)\<rparr>"

definition sample_sig :: string where "sample_sig = ''0x'' @ replicate 130 (CHR ''1'')"

definition sample_material :: spend_material where
  "sample_material = \<lparr>sm_version = ''spend-material-v1'', sm_chainId = jsint 4326, sm_pool = sample_pool, sm_assetId = toBytes32 1,
     sm_noteAmountWei = ''5'', sm_ownerCommitment = toBytes32 2, sm_noteSecret = toBytes32 3, sm_blinding = toBytes32 4,
     sm_commitment = toBytes32 7, sm_createdAt = ''2026''\<rparr>"

definition sample_encrypted :: encrypted_envelope where
  "sample_encrypted = \<lparr>ee_nonce = zero_text 24, ee_ciphertext = text_hex (object_text (spend_json sample_material))\<rparr>"

definition sample_event :: decoded_note where
  "sample_event = \<lparr>dn_action = NDeposit, dn_commitment = toBytes32 7, dn_leafIndex = 0,
     dn_encryptedNote = json_hex (encrypted_envelope_json sample_encrypted), dn_encryptionVersion = 1, dn_nullifier = None,
     dn_transactionHash = toBytes32 9\<rparr>"

definition sample_key :: string where
  "sample_key = sample_sig @ (''nullark:4326:'' @ to_lower sample_pool) @ ''wallet-recovery-v1''"

lemma dec_4326: "dec_string 4326 = ''4326''"
  by code_simp

lemma sample_chain_id: "is_safe_integer (jsint 4326)" "\<not> num_le (jsint 4326) (jsint 0)" "is_safe_integer (Num 4326)"
    "\<not> num_le (Num 4326) (Num 0)" "num_eq (Num 4326) (Num 4326)"
  by code_simp+

lemma sample_pool_address: "isEvmAddress sample_pool" "hex_of_length 130 sample_sig"
  by code_simp+

lemma sample_material_valid: "validateSpendMaterialPlaintext toy_crypto sample_material = Inr sample_material"
proof -
  have "list_all is_digit ''5''" "radix_val 10 ''5'' = 5" by code_simp+
  then show ?thesis
    by (simp add: validateSpendMaterialPlaintext_def sample_material_def toy_crypto_def sample_chain_id sample_pool_address)
qed

lemma sample_opens: "opens_only_to toy_crypto key nonce aad (object_text (spend_json m))"
proof -
  have "hexToUtf8 (text_hex (object_text (spend_json m))) = object_text (spend_json m)"
    unfolding object_text_def by (rule hexToUtf8_text_hex)
  moreover have "text_hex (object_text (spend_json m)) \<noteq> ''0x''"
  proof
    assume "text_hex (object_text (spend_json m)) = ''0x''"
    with length_text_hex [of "object_text (spend_json m)"] show False by (simp add: object_text_def)
  qed
  ultimately show ?thesis
    by (simp add: opens_only_to_def toy_crypto_def isHexString_text_hex)
qed

lemma sample_encrypts:
  "encryptSpendMaterialEnvelope toy_crypto key (zero_text 24) sample_material aad = Inr sample_encrypted"
  "serializeEncryptedNoteEnvelopeToHex sample_encrypted = Inr (dn_encryptedNote sample_event)"
proof -
  show "encryptSpendMaterialEnvelope toy_crypto key (zero_text 24) sample_material aad = Inr sample_encrypted"
    by (simp add: encryptSpendMaterialEnvelope_def sample_material_valid sample_encrypted_def)
      (simp add: toy_crypto_def)
  have "isHexString (zero_text 24)" "hexByteLength (zero_text 24) = 12"
    using zero_bytes_zero_text [of 12] zero_bytes_props by simp_all
  moreover have "text_hex (object_text (spend_json sample_material)) \<noteq> ''0x''"
    using sample_opens [of "[]" "[]" "[]" sample_material] by (simp add: opens_only_to_def toy_crypto_def Let_def)
  ultimately show "serializeEncryptedNoteEnvelopeToHex sample_encrypted = Inr (dn_encryptedNote sample_event)"
    by (simp add: serializeEncryptedNoteEnvelopeToHex_def validateEncryptedNoteEnvelope_def sample_encrypted_def
        isHexString_text_hex sample_event_def)
qed

lemma sample_derivations:
  "deriveWalletRecoveryKey toy_crypto sample_sig (jsint 4326) sample_pool NULLARK_RECOVERY_APP_ID = Inr sample_key"
  "deriveNoteKey toy_crypto k (dn_commitment sample_event) NULLARK_LEGACY_RECOVERY_EPOCH_ID_V1 =
     Inr (k @ NULLARK_LEGACY_RECOVERY_EPOCH_ID_V1 @ ''note:'' @ to_lower (toBytes32 7))"
  "\<exists>aad. makeRecoveryAssociatedData (jsint 4326) sample_pool ADeposit (dn_commitment sample_event) = Inr aad"
  "getNullarkRecoveryEpochId (jsint 4326) = Inr ''megaeth-4326-nullark-v1''"
  by (simp_all add: deriveWalletRecoveryKey_def deriveNoteKey_def makeRecoveryAssociatedData_def getNullarkRecoveryEpochId_def
      sample_chain_id sample_pool_address sample_event_def toy_crypto_def sample_key_def NULLARK_RECOVERY_APP_ID_def
      NULLARK_LEGACY_RECOVERY_EPOCH_ID_V1_def dec_4326)

lemma sample_recovery_keys:
  "\<exists>keys. map_res (deriveWalletRecoveryKey toy_crypto sample_sig (jsint 4326) sample_pool)
     (js_unique [NULLARK_RECOVERY_APP_ID, LEGACY_SHIELDED_TRANSFERS_RECOVERY_APP_ID]) = Inr keys \<and> sample_key \<in> set keys"
proof -
  have "\<exists>k. deriveWalletRecoveryKey toy_crypto sample_sig (jsint 4326) sample_pool a = Inr k" for a
    by (simp add: deriveWalletRecoveryKey_def sample_chain_id sample_pool_address)
  then have "\<exists>keys. map_res (deriveWalletRecoveryKey toy_crypto sample_sig (jsint 4326) sample_pool) as = Inr keys" for as
    by (induction as) (auto, metis bind_res_simps(2))
  then obtain keys where keys: "map_res (deriveWalletRecoveryKey toy_crypto sample_sig (jsint 4326) sample_pool)
      (js_unique [NULLARK_RECOVERY_APP_ID, LEGACY_SHIELDED_TRANSFERS_RECOVERY_APP_ID]) = Inr keys"
    by blast
  from derived_keys [OF this disjI1 [OF refl] sample_derivations(1)] keys show ?thesis by blast
qed

lemma sample_decrypts:
  assumes "sample_key \<in> set keys"
  shows "tryDecryptEvent toy_crypto keys (js_unique [epoch, NULLARK_LEGACY_RECOVERY_EPOCH_ID_V1]) (jsint 4326) sample_pool sample_event
    = Some sample_material"
proof -
  obtain aad where "makeRecoveryAssociatedData (jsint 4326) sample_pool ADeposit (dn_commitment sample_event) = Inr aad"
    using sample_derivations(3) by blast
  then show ?thesis
    using assms by (intro tryDecrypt_encrypted [OF sample_derivations(2) _ _ _ _ sample_encrypts sample_opens])
      (auto simp: tried_actions_def sample_event_def)
qed

lemma sample_recovers:
  assumes "deriveCommitment sample_material = Inr (toBytes32 7)"
  shows "recoverSpendMaterialFromDecodedNoteEvents toy_crypto deriveCommitment sample_sig (jsint 4326) sample_pool [sample_event]
    = Inr [(sample_event, sample_material)]"
proof -
  obtain keys where keys: "map_res (deriveWalletRecoveryKey toy_crypto sample_sig (jsint 4326) sample_pool)
     (js_unique [NULLARK_RECOVERY_APP_ID, LEGACY_SHIELDED_TRANSFERS_RECOVERY_APP_ID]) = Inr keys" "sample_key \<in> set keys"
    using sample_recovery_keys by blast
  have "sm_chainId sample_material = jsint 4326" "sm_pool sample_material = sample_pool" "dn_commitment sample_event = toBytes32 7"
    by (simp_all add: sample_material_def sample_event_def)
  then have "recover_events toy_crypto deriveCommitment keys (js_unique [''megaeth-4326-nullark-v1'', NULLARK_LEGACY_RECOVERY_EPOCH_ID_V1])
      (jsint 4326) sample_pool [sample_event] = Inr [(sample_event, sample_material)]"
    using assms sample_decrypts [OF keys(2), of "''megaeth-4326-nullark-v1''"] by (simp add: sample_chain_id)
  then show ?thesis
    unfolding recoverSpendMaterialFromDecodedNoteEvents_def keys(1) sample_derivations(4)
    using sample_chain_id(1,2) sample_pool_address(1) by simp
qed

lemma encrypted_note_recovered_witness:
  "\<exists>recovered. recoverSpendMaterialFromDecodedNoteEvents toy_crypto (\<lambda>_. Inr (toBytes32 7)) sample_sig (jsint 4326) sample_pool
      [sample_event] = Inr recovered \<and> (sample_event, sample_material) \<in> set recovered"
proof -
  obtain aad where aad: "makeRecoveryAssociatedData (jsint 4326) sample_pool ADeposit (dn_commitment sample_event) = Inr aad"
    using sample_derivations(3) by blast
  have run: "recoverSpendMaterialFromDecodedNoteEvents toy_crypto (\<lambda>_. Inr (toBytes32 7)) sample_sig (jsint 4326) sample_pool
      [sample_event] = Inr [(sample_event, sample_material)]"
    by (rule sample_recovers) simp
  have "(sample_event, sample_material) \<in> set [(sample_event, sample_material)] \<longleftrightarrow> sample_material = sample_material"
    by (rule encrypted_note_recovered [OF run _ _ sample_derivations(1) disjI1 [OF refl] sample_derivations(2)
          disjI2 [OF refl] aad _ sample_encrypts sample_opens, where c = "toBytes32 7"])
      (simp_all add: sample_event_def sample_material_def tried_actions_def)
  with run show ?thesis by blast
qed

definition sample_note_log :: raw_note_log where
  "sample_note_log = \<lparr>nl_address = sample_pool, nl_topics = [toBytes32 9], nl_data = ''0x'', nl_transactionHash = toBytes32 9\<rparr>"

definition sample_note_node :: note_node where
  "sample_note_node =
     \<lparr>node_blockNumber = (\<lambda>_. ResultBody ''0x20''), node_logs = (\<lambda>_ _. ResultBody [sample_note_log]),
      node_receipt = (\<lambda>_ _. FetchFailed ''down''), node_call = (\<lambda>_ _. ResultBody ''0x00'')\<rparr>"

definition sample_note_decode :: "string list \<Rightarrow> string \<Rightarrow> string + note_log_event" where
  "sample_note_decode topics data = Inr (DepositNoteLog (toBytes32 7) 0 (dn_encryptedNote sample_event) 1)"

abbreviation sample_runtime :: sdk_runtime where
  "sample_runtime \<equiv> ri_runtime sample_recovery"

lemma sample_runtime_fields [simp]: "rt_chainId sample_runtime = 4326" "rt_pool sample_runtime = sample_pool"
  by (simp_all add: sample_recovery_def)

lemma sample_note_decoded: "decodeNoteEventLog sample_note_decode sample_note_log = Inr (Some sample_event)"
proof -
  have "isHexString ''0x''" by code_simp
  moreover have "isHexString (json_hex (encrypted_envelope_json sample_encrypted))"
    by (simp add: json_hex_def isHexString_text_hex split: option.splits)
  ultimately show ?thesis
    by (simp add: decodeNoteEventLog_def sample_note_log_def sample_note_decode_def sample_pool_address decoded_record_def
        assertBytes32_note_def safeLeafIndex_def MAX_SAFE_INTEGER_def assertHexBytes_note_def assertEncryptionVersion_def
        sample_event_def)
qed

lemma sample_field_elements:
  "fieldElement (toBytes32 1) l = Inr 1" "fieldElement (toBytes32 2) l = Inr 2" "fieldElement (toBytes32 3) l = Inr 3"
  by (simp_all add: fieldElement_def BN254_SCALAR_FIELD_def)

lemma sample_commitment: "deriveCommitmentFromSpendMaterial (\<lambda>_. 7) sample_material = Inr (toBytes32 7)"
proof -
  have "list_all is_digit ''5''" "radix_val 10 ''5'' = 5" by code_simp+
  then have "positiveFieldElement ''5'' ''amount'' = Inr 5"
    by (simp add: positiveFieldElement_def BN254_SCALAR_FIELD_def)
  then show ?thesis
    by (simp add: deriveCommitmentFromSpendMaterial_def sample_material_def deriveNoteCommitment_def sample_field_elements
        normalizeHashOutput_def BN254_SCALAR_FIELD_def)
qed

lemma sample_nullifier:
  "deriveNullifierFromSpendMaterial (\<lambda>_. 7) sample_material 0 (jsint 4326) sample_pool = Inr (toBytes32 7)"
  using sample_chain_id is_safe_integer_jsint [of 0]
  by (simp add: deriveNullifierFromSpendMaterial_def deriveNullifier_def sample_material_def sample_field_elements
      normalizeHashOutput_def BN254_SCALAR_FIELD_def sample_pool_address MAX_SAFE_INTEGER_def)

lemma sample_unspent: "fst (isNullifierSpent sample_note_node sample_runtime (toBytes32 7) cs) = Inr False"
proof -
  have "isHexString ''0x00''" "js_bigint ''0x00'' = Some 0" by code_simp+
  then show ?thesis
    by (simp add: isNullifierSpent_def encodeNullifierLookupCalldata_def sample_note_node_def rpcRequest_def bigint_result_def Let_def)
qed

lemma sample_note_fetched:
  "\<exists>calls. fetchNoteEventLogs event_hash sample_note_node sample_runtime None None [] = Some (Inr [sample_note_log], calls)"
  by (simp add: fetchNoteEventLogs_def or_else_def eth_blockNumber_def sample_note_node_def rpcRequest_def fetch_chunks.simps)

lemma sample_wallet_run:
  "\<exists>calls. recoverWalletNotesFromChain toy_crypto (default_env (\<lambda>_. 7) sample_runtime sample_note_decode (\<lambda>_. toBytes32 9) (\<lambda>_. Inr sample_sig))
     sample_note_node sample_runtime sample_pool None None =
   Some (Inr [wallet_note_of sample_event sample_material False (toBytes32 7)], calls)"
proof -
  obtain calls where fetched: "fetchNoteEventLogs (\<lambda>_. toBytes32 9) sample_note_node sample_runtime None None [] = Some (Inr [sample_note_log], calls)"
    using sample_note_fetched by blast
  obtain cs where spent: "isNullifierSpent sample_note_node sample_runtime (toBytes32 7) calls = (Inr False, cs)"
    using sample_unspent [of calls] by (cases "isNullifierSpent sample_note_node sample_runtime (toBytes32 7) calls") simp
  have signed: "\<exists>u. buildUnlockPrivateBalanceTypedData toy_crypto sample_pool (jsint 4326) sample_pool
      (Some (or_else None WALLET_RECOVERY_SCOPE_ISSUED_AT)) = Inr u"
    using sample_chain_id by (simp add: buildUnlockPrivateBalanceTypedData_def or_else_def sample_pool_address toy_crypto_def
        WALLET_RECOVERY_SCOPE_ISSUED_AT_def)
  have recovered: "recoverSpendMaterialFromDecodedNoteEvents toy_crypto (deriveCommitmentFromSpendMaterial (\<lambda>_. 7)) sample_sig
      (jsint 4326) sample_pool (event_list [Some sample_event]) = Inr [(sample_event, sample_material)]"
    using sample_recovers [where deriveCommitment = "deriveCommitmentFromSpendMaterial (\<lambda>_. 7)", OF sample_commitment]
    by (simp add: event_list_def)
  have leaf: "dn_leafIndex sample_event = 0" by (simp add: sample_event_def)
  from signed obtain u where u: "buildUnlockPrivateBalanceTypedData toy_crypto sample_pool (jsint 4326) sample_pool
      (Some (or_else None WALLET_RECOVERY_SCOPE_ISSUED_AT)) = Inr u" by blast
  show ?thesis
    unfolding recoverWalletNotesFromChain_def sample_runtime_fields u bind_res_simps
    by (simp add: default_env_def fetched sample_note_decoded sample_pool_address leaf spent sample_nullifier [simplified]
        recovered [simplified])
qed

lemma recovered_notes_genuine_witness:
  "deriveCommitmentFromSpendMaterial (\<lambda>_. 7) sample_material = Inr (toBytes32 7) \<and>
   (\<exists>lg event. decodeNoteEventLog sample_note_decode lg = Inr (Some event) \<and> dn_commitment event = toBytes32 7 \<and>
      wallet_opens toy_crypto sample_sig (jsint 4326) sample_pool event sample_material)"
proof -
  let ?n = "wallet_note_of sample_event sample_material False (toBytes32 7)"
  obtain calls where run: "recoverWalletNotesFromChain toy_crypto
      (default_env (\<lambda>_. 7) sample_runtime sample_note_decode (\<lambda>_. toBytes32 9) (\<lambda>_. Inr sample_sig))
      sample_note_node sample_runtime sample_pool None None = Some (Inr [?n], calls)"
    using sample_wallet_run by blast
  have n: "wn_commitment ?n = toBytes32 7" "wn_spendMaterial ?n = sample_material"
    by (simp_all add: wallet_note_of_def sample_event_def)
  have sig: "sig = sample_sig" if "bind_res u (\<lambda>_. Inr sample_sig) = Inr sig" for u :: "string + unlock_data" and sig
    using that by (auto elim: bind_resE)
  have "\<exists>lg event sig. decodeNoteEventLog sample_note_decode lg = Inr (Some event) \<and> wn_commitment ?n = dn_commitment event \<and>
      sig = sample_sig \<and> wallet_opens toy_crypto sig (jsint 4326) sample_pool event (wn_spendMaterial ?n)"
    using recovered_notes_genuine [OF run list.set_intros(1)] sig unfolding sample_runtime_fields by blast
  then show ?thesis using sample_commitment unfolding n by metis
qed

end
