(* ===== verification/Rate_Limit.thy ===== *)
theory Rate_Limit
  imports Kv_Store
begin

text \<open>
  The relay's rate limiter, \<^verbatim>\<open>services/relay/src/rateLimit.ts\<close>: the limits of the hosted services
  and the four counters (per address, destination, nullifier, and global) of a time window. The
  current time is an integer, as its only caller passes \<open>Math.floor(Date.now() / 1000)\<close>. A denied
  request is recorded nowhere; an allowed one adds one to each of its four counters.
\<close>

datatype hosted_service = LocalIdentityCreate | HandlePublication | DirectoryLookup | Sync | BackupStorage | Relay

datatype service_category = Identity | Directory | SyncCategory | Backup | RelayCategory

record hosted_service_limit =
  category :: service_category
  maxRequestsPerWindow :: int
  localOnly :: bool

fun HOSTED_SERVICE_LIMITS :: "hosted_service \<Rightarrow> hosted_service_limit" where
  "HOSTED_SERVICE_LIMITS LocalIdentityCreate = \<lparr>category = Identity, maxRequestsPerWindow = 0, localOnly = True\<rparr>"
| "HOSTED_SERVICE_LIMITS HandlePublication = \<lparr>category = Identity, maxRequestsPerWindow = 20, localOnly = False\<rparr>"
| "HOSTED_SERVICE_LIMITS DirectoryLookup = \<lparr>category = Directory, maxRequestsPerWindow = 120, localOnly = False\<rparr>"
| "HOSTED_SERVICE_LIMITS Sync = \<lparr>category = SyncCategory, maxRequestsPerWindow = 60, localOnly = False\<rparr>"
| "HOSTED_SERVICE_LIMITS BackupStorage = \<lparr>category = Backup, maxRequestsPerWindow = 10, localOnly = False\<rparr>"
| "HOSTED_SERVICE_LIMITS Relay = \<lparr>category = RelayCategory, maxRequestsPerWindow = 30, localOnly = False\<rparr>"

definition canUseHostedIdentityService :: "hosted_service \<Rightarrow> jsnum \<Rightarrow> bool" where
  "canUseHostedIdentityService service requestsInWindow =
     (let limit = HOSTED_SERVICE_LIMITS service in
      if localOnly limit then True else num_le requestsInWindow (jsint (maxRequestsPerWindow limit)))"

datatype rate_error = RateLimitConfigNotPositive string

record relay_rate_limit_config =
  windowSeconds :: jsnum
  perIp :: jsnum
  perDestination :: jsnum
  perNullifier :: jsnum
  global_limit :: jsnum

record relay_rate_limit_input =
  rl_chainId :: int
  rl_pool :: string
  rl_ip :: string
  rl_destination :: string
  rl_nullifier :: string
  rl_nowEpochSeconds :: int

record relay_rate_limit_decision =
  rl_allowed :: bool
  rl_exceeded :: "string list"

definition positive_safe :: "string \<Rightarrow> jsnum \<Rightarrow> rate_error + unit" where
  "positive_safe label n =
     (if \<not> is_safe_integer n \<or> num_le n (jsint 0) then Inl (RateLimitConfigNotPositive label) else Inr ())"

definition validateRelayRateLimitConfig :: "relay_rate_limit_config \<Rightarrow> rate_error + unit" where
  "validateRelayRateLimitConfig config =
     bind_res (positive_safe ''windowSeconds'' (windowSeconds config)) (\<lambda>_.
     bind_res (positive_safe ''perIp'' (perIp config)) (\<lambda>_.
     bind_res (positive_safe ''perDestination'' (perDestination config)) (\<lambda>_.
     bind_res (positive_safe ''perNullifier'' (perNullifier config)) (\<lambda>_.
     positive_safe ''global'' (global_limit config)))))"

definition key_char_ok :: "char \<Rightarrow> bool" where
  "key_char_ok c \<longleftrightarrow> (97 \<le> code c \<and> code c \<le> 122) \<or> is_digit c \<or> c \<in> set '':._-''"

definition normalizeKeyPart :: "string \<Rightarrow> string" where
  "normalizeKeyPart v =
     (let t = take 128 (map (\<lambda>c. if key_char_ok c then c else CHR ''_'') (to_lower (js_trim v))) in
      if t = [] then ''unknown'' else t)"

definition rate_prefix :: "relay_rate_limit_config \<Rightarrow> relay_rate_limit_input \<Rightarrow> string" where
  "rate_prefix config input =
     ''relay-rate:'' @ dec_string (rl_chainId input) @ '':'' @ to_lower (rl_pool input) @ '':'' @
     dec_string (rl_nowEpochSeconds input div num_int (windowSeconds config))"

text \<open>The four checks: label, key and limit.\<close>

definition rate_checks ::
  "relay_rate_limit_config \<Rightarrow> relay_rate_limit_input \<Rightarrow> (string \<times> string \<times> jsnum) list" where
  "rate_checks config input =
     (let prefix = rate_prefix config input in
      [(''perIp'', prefix @ '':ip:'' @ normalizeKeyPart (rl_ip input), perIp config),
       (''perDestination'', prefix @ '':destination:'' @ to_lower (rl_destination input), perDestination config),
       (''perNullifier'', prefix @ '':nullifier:'' @ to_lower (rl_nullifier input), perNullifier config),
       (''global'', prefix @ '':global'', global_limit config)])"

definition parse_count :: "string option \<Rightarrow> int" where
  "parse_count raw =
     (case raw of None \<Rightarrow> 0
      | Some t \<Rightarrow> if t = [] then 0
          else (case js_parse_int t of None \<Rightarrow> 0
                | Some n \<Rightarrow> if \<bar>n\<bar> \<le> MAX_SAFE_INTEGER \<and> 0 < n then n else 0))"

definition readCount :: "'s kv_api \<Rightarrow> 's \<Rightarrow> string \<Rightarrow> int" where
  "readCount kv s key = parse_count (kv_get kv s key)"

text \<open>The decision on the counts read, and the entries an allowed request writes back.\<close>

definition exceeded_labels :: "(string \<times> string \<times> jsnum) list \<Rightarrow> int list \<Rightarrow> string list" where
  "exceeded_labels checks counts =
     map (\<lambda>p. fst (fst p)) (filter (\<lambda>p. num_less (snd (snd (fst p))) (jsint (snd p + 1))) (zip checks counts))"

definition count_entries :: "(string \<times> string \<times> jsnum) list \<Rightarrow> int list \<Rightarrow> (string \<times> string) list" where
  "count_entries checks counts = map (\<lambda>p. (fst (snd (fst p)), dec_string (snd p + 1))) (zip checks counts)"

definition checkAndRecordRelayRateLimit ::
  "'s kv_api \<Rightarrow> relay_rate_limit_config \<Rightarrow> relay_rate_limit_input \<Rightarrow> 's
     \<Rightarrow> rate_error + relay_rate_limit_decision \<times> 's" where
  "checkAndRecordRelayRateLimit kv config input s =
     bind_res (validateRelayRateLimitConfig config) (\<lambda>_.
       let checks = rate_checks config input;
           currentCounts = map (\<lambda>c. readCount kv s (fst (snd c))) checks;
           exceeded = exceeded_labels checks currentCounts in
       if exceeded \<noteq> [] then Inr (\<lparr>rl_allowed = False, rl_exceeded = exceeded\<rparr>, s)
       else Inr (\<lparr>rl_allowed = True, rl_exceeded = []\<rparr>,
                 kv_put_all kv s (count_entries checks currentCounts) (num_int (windowSeconds config) * 2)))"

section \<open>Counters\<close>

lemma parse_count_dec [simp]:
  "0 < n \<Longrightarrow> n \<le> MAX_SAFE_INTEGER \<Longrightarrow> parse_count (Some (dec_string n)) = n"
proof -
  assume n: "0 < n" "n \<le> MAX_SAFE_INTEGER"
  then have "dec_string n \<noteq> []"
    by (simp add: dec_string_def)
  with n show ?thesis
    by (simp add: parse_count_def)
qed

lemma parse_count_bounds: "0 \<le> parse_count r"
  by (auto simp: parse_count_def split: option.splits)

lemma readCount_nonneg [simp]: "0 \<le> readCount kv s k"
  by (simp add: readCount_def parse_count_bounds)

lemma positive_safe_Inr:
  "positive_safe l n = Inr u \<longleftrightarrow> n = jsint (num_int n) \<and> 0 < num_int n \<and> num_int n \<le> MAX_SAFE_INTEGER"
proof
  assume "positive_safe l n = Inr u"
  then have n: "is_safe_integer n" "\<not> num_le n (jsint 0)"
    by (auto simp: positive_safe_def split: if_splits)
  then obtain i where i: "n = jsint i" "\<bar>i\<bar> \<le> MAX_SAFE_INTEGER" "num_int n = i"
    by (elim is_safe_integerE)
  moreover have "0 < i"
    using n(2) num_cmp_jsint(2) [of i 0] unfolding i(1) by simp
  ultimately show "n = jsint (num_int n) \<and> 0 < num_int n \<and> num_int n \<le> MAX_SAFE_INTEGER"
    by simp
next
  assume n: "n = jsint (num_int n) \<and> 0 < num_int n \<and> num_int n \<le> MAX_SAFE_INTEGER"
  then have "is_safe_integer n"
    by (simp add: is_safe_integer_def is_integer_iff)
  moreover have "\<not> num_le n (jsint 0)"
    using n num_cmp_jsint(2) [of "num_int n" 0] by (metis not_less)
  ultimately show "positive_safe l n = Inr u"
    by (simp add: positive_safe_def)
qed

definition config_ok :: "relay_rate_limit_config \<Rightarrow> bool" where
  "config_ok config \<longleftrightarrow> validateRelayRateLimitConfig config = Inr ()"

lemma config_limits:
  assumes "config_ok config" "(l, k, lm) \<in> set (rate_checks config input)"
  shows "lm = jsint (num_int lm)" "0 < num_int lm" "num_int lm \<le> MAX_SAFE_INTEGER"
  using assms
  by (auto simp: config_ok_def validateRelayRateLimitConfig_def rate_checks_def Let_def
      res_simps positive_safe_Inr)

lemma window_positive: "config_ok config \<Longrightarrow> 0 < num_int (windowSeconds config)"
  by (auto simp: config_ok_def validateRelayRateLimitConfig_def res_simps positive_safe_Inr)

lemma rate_checks_shape:
  "rate_checks config input = [(''perIp'', k1, perIp config), (''perDestination'', k2, perDestination config),
     (''perNullifier'', k3, perNullifier config), (''global'', k4, global_limit config)] \<Longrightarrow>
   distinct [k1, k2, k3, k4]"
  by (auto simp: rate_checks_def Let_def)

lemma distinct_check_keys: "distinct (map (\<lambda>c. fst (snd c)) (rate_checks config input))"
  by (simp add: rate_checks_def Let_def)

definition has_key :: "relay_rate_limit_config \<Rightarrow> string \<Rightarrow> relay_rate_limit_input \<Rightarrow> bool" where
  "has_key config k input \<longleftrightarrow> k \<in> set (map (\<lambda>c. fst (snd c)) (rate_checks config input))"

lemma exceeded_Nil_iff:
  assumes "config_ok config"
  shows "exceeded_labels (rate_checks config input) (map (\<lambda>c. readCount kv s (fst (snd c))) (rate_checks config input)) = []
    \<longleftrightarrow> (\<forall>(l, k, lm) \<in> set (rate_checks config input). readCount kv s k + 1 \<le> num_int lm)"
proof -
  have num: "num_less lm (jsint j) \<longleftrightarrow> num_int lm < j" if "(l, k, lm) \<in> set (rate_checks config input)" for l k lm j
    using config_limits(1) [OF assms that] num_cmp_jsint(1) [of "num_int lm" j] by metis
  have "exceeded_labels (rate_checks config input) (map (\<lambda>c. readCount kv s (fst (snd c))) (rate_checks config input)) = []
    \<longleftrightarrow> (\<forall>c \<in> set (rate_checks config input). \<not> num_less (snd (snd c)) (jsint (readCount kv s (fst (snd c)) + 1)))"
    by (simp add: exceeded_labels_def zip_map2 zip_same_conv_map filter_empty_conv)
  also have "\<dots> \<longleftrightarrow> (\<forall>(l, k, lm) \<in> set (rate_checks config input). readCount kv s k + 1 \<le> num_int lm)"
  proof (rule ball_cong [OF refl])
    fix c assume "c \<in> set (rate_checks config input)"
    moreover obtain l k lm where "c = (l, k, lm)"
      by (cases c)
    ultimately show "(\<not> num_less (snd (snd c)) (jsint (readCount kv s (fst (snd c)) + 1))) =
        (case c of (l, k, lm) \<Rightarrow> readCount kv s k + 1 \<le> num_int lm)"
      using num [of l k lm "readCount kv s k + 1"] by auto
  qed
  finally show ?thesis .
qed

text \<open>One check on a valid configuration: the decision and what it does to every counter.\<close>

definition count_at :: "'s kv_time \<Rightarrow> 's \<Rightarrow> string \<Rightarrow> int" where
  "count_at T s k = parse_count (kv_read T s k)"

lemma settled_count: "kv_store kv T lag \<Longrightarrow> kv_settled T lag s \<Longrightarrow> readCount kv s k = count_at T s k"
  by (simp add: readCount_def count_at_def kv_store.get_settled)

lemma prompt_count: "prompt_kv_store kv T \<Longrightarrow> readCount kv s k = count_at T s k"
  by (simp add: readCount_def count_at_def prompt_kv_store.get_read)

lemma check_step:
  assumes "kv_store kv T lag" "config_ok config" "checkAndRecordRelayRateLimit kv config input s = Inr (d, s')"
    "kv_settled T lag s"
  shows "(rl_allowed d \<longleftrightarrow> (\<forall>(l, k, lm) \<in> set (rate_checks config input). readCount kv s k + 1 \<le> num_int lm)) \<and>
    (\<not> rl_allowed d \<longrightarrow> s' = s \<and> rl_exceeded d \<noteq> []) \<and>
    count_at T s' k = readCount kv s k + (if rl_allowed d \<and> has_key config k input then 1 else 0)"
proof -
  let ?checks = "rate_checks config input"
  let ?counts = "map (\<lambda>c. readCount kv s (fst (snd c))) ?checks"
  have run: "(if exceeded_labels ?checks ?counts \<noteq> []
      then Inr (\<lparr>rl_allowed = False, rl_exceeded = exceeded_labels ?checks ?counts\<rparr>, s)
      else Inr (\<lparr>rl_allowed = True, rl_exceeded = []\<rparr>,
        kv_put_all kv s (count_entries ?checks ?counts) (num_int (windowSeconds config) * 2))) = (Inr (d, s') :: rate_error + _)"
    using assms(2,3) by (simp add: checkAndRecordRelayRateLimit_def config_ok_def Let_def)
  show ?thesis
  proof (cases "exceeded_labels ?checks ?counts = []")
    case False
    with run have "d = \<lparr>rl_allowed = False, rl_exceeded = exceeded_labels ?checks ?counts\<rparr> \<and> s' = s"
      by auto
    with False exceeded_Nil_iff [OF assms(2), of input kv s] settled_count [OF assms(1,4)] show ?thesis by simp
  next
    case True
    let ?entries = "map (\<lambda>c. (fst (snd c), dec_string (readCount kv s (fst (snd c)) + 1))) ?checks"
    have entries: "count_entries ?checks ?counts = ?entries"
      by (simp add: count_entries_def zip_map2 zip_same_conv_map)
    have d: "d = \<lparr>rl_allowed = True, rl_exceeded = []\<rparr>"
      "s' = kv_put_all kv s ?entries (num_int (windowSeconds config) * 2)"
      using run True by (simp_all add: entries)
    note bound = True [unfolded exceeded_Nil_iff [OF assms(2)]]
    have keys: "distinct (map fst ?entries)"
      using distinct_check_keys by (simp add: comp_def)
    have ttl: "0 < num_int (windowSeconds config) * 2"
      using window_positive [OF assms(2)] by simp
    have "count_at T s' k = readCount kv s k + (if has_key config k input then 1 else 0)"
    proof (cases "has_key config k input")
      case has: True
      then obtain l lm where c: "(l, k, lm) \<in> set ?checks"
        by (auto simp: has_key_def)
      then have "(k, dec_string (readCount kv s k + 1)) \<in> set ?entries"
        by force
      with keys have "map_of ?entries k = Some (dec_string (readCount kv s k + 1))"
        by simp
      then have "kv_read T s' k = Some (dec_string (readCount kv s k + 1))"
        using kv_store.read_put_all [OF assms(1) keys ttl] by (simp add: d(2))
      moreover have "readCount kv s k + 1 \<le> MAX_SAFE_INTEGER"
        using bound c config_limits(3) [OF assms(2) c] by fastforce
      moreover have "0 < readCount kv s k + 1"
        using readCount_nonneg [of kv s k] by linarith
      ultimately show ?thesis
        using has by (simp add: count_at_def)
    next
      case False
      then have "k \<notin> fst ` set ?entries"
        by (force simp: has_key_def)
      then have "kv_read T s' k = kv_read T s k"
        unfolding d(2) by (rule kv_store.read_put_all_other [OF assms(1) _ ttl])
      with False settled_count [OF assms(1,4)] show ?thesis by (simp add: count_at_def)
    qed
    with d bound show ?thesis by simp
  qed
qed

text \<open>
  Requests handled one after the other, each some time after the one before, and how many of them
  were allowed with a given key.
\<close>

fun run_limiter :: "'s kv_api \<Rightarrow> 's kv_time \<Rightarrow> relay_rate_limit_config \<Rightarrow> (int \<times> relay_rate_limit_input) list \<Rightarrow> 's
    \<Rightarrow> rate_error + relay_rate_limit_decision list \<times> 's" where
  "run_limiter kv T config [] s = Inr ([], s)"
| "run_limiter kv T config ((delay, input) # inputs) s =
     bind_res (checkAndRecordRelayRateLimit kv config input (kv_wait T s delay)) (\<lambda>(d, s1).
       bind_res (run_limiter kv T config inputs s1) (\<lambda>(ds, s2). Inr (d # ds, s2)))"

fun allowed_with :: "relay_rate_limit_config \<Rightarrow> string \<Rightarrow> (int \<times> relay_rate_limit_input) list
    \<Rightarrow> relay_rate_limit_decision list \<Rightarrow> int" where
  "allowed_with config k ((delay, input) # inputs) (d # ds) =
     (if rl_allowed d \<and> has_key config k input then 1 else 0) + allowed_with config k inputs ds"
| "allowed_with config k _ _ = 0"

text \<open>
  What a check leaves behind outlives any time shorter than the lifetime it gives its entries, and is
  settled after the lag.
\<close>

definition kv_settles :: "'s kv_time \<Rightarrow> int \<Rightarrow> 's \<Rightarrow> bool" where
  "kv_settles T lag s \<longleftrightarrow> (\<forall>d. lag \<le> d \<and> 0 \<le> d \<longrightarrow> kv_settled T lag (kv_wait T s d))"

lemma check_lasting:
  assumes "kv_store kv T lag" "checkAndRecordRelayRateLimit kv config input s = Inr (d, s')"
  shows "kv_lasting T D s \<Longrightarrow> D < num_int (windowSeconds config) * 2 \<Longrightarrow> kv_lasting T D s'"
    "kv_settled T lag s \<Longrightarrow> kv_settles T lag s'"
proof -
  obtain es where "s' = s \<or> s' = kv_put_all kv s es (num_int (windowSeconds config) * 2)"
    using assms(2) by (auto simp: checkAndRecordRelayRateLimit_def Let_def res_simps split: if_splits)
  then show "kv_lasting T D s \<Longrightarrow> D < num_int (windowSeconds config) * 2 \<Longrightarrow> kv_lasting T D s'"
    "kv_settled T lag s \<Longrightarrow> kv_settles T lag s'"
    using kv_store.lasting_put_all [OF assms(1)] kv_store.settled_put_all_wait [OF assms(1)] kv_store.settled_wait [OF assms(1)]
    by (auto simp: kv_settles_def)
qed

lemma wait_count:
  assumes "kv_store kv T lag" "kv_lasting T d s" "0 \<le> d"
  shows "count_at T (kv_wait T s d) k = count_at T s k"
  using kv_store.read_wait [OF assms] by (simp add: count_at_def)

lemma run_limiter_counts:
  assumes "kv_store kv T lag" "config_ok config" "0 \<le> lag"
  shows "run_limiter kv T config inputs s = Inr (ds, s') \<Longrightarrow> \<forall>(delay, i) \<in> set inputs. lag \<le> delay \<Longrightarrow> 0 \<le> D \<Longrightarrow>
    kv_lasting T (sum_list (map fst inputs) + D) s \<Longrightarrow> sum_list (map fst inputs) + D < num_int (windowSeconds config) * 2 \<Longrightarrow>
    kv_settles T lag s \<Longrightarrow>
    count_at T s' k = count_at T s k + allowed_with config k inputs ds \<and> kv_lasting T D s' \<and> kv_settles T lag s'"
proof (induction inputs arbitrary: s ds)
  case Nil
  then show ?case by simp
next
  case (Cons i inputs)
  obtain delay input where i: "i = (delay, input)" by fastforce
  let ?s = "kv_wait T s delay" and ?D = "sum_list (map fst inputs) + D"
  obtain d s1 ds' where step: "checkAndRecordRelayRateLimit kv config input ?s = Inr (d, s1)"
    "run_limiter kv T config inputs s1 = Inr (ds', s')" "ds = d # ds'"
    using Cons.prems(1) by (auto simp: i res_simps)
  have "\<forall>(delay, i) \<in> set inputs. 0 \<le> delay" using Cons.prems(2) assms(3) by fastforce
  then have "0 \<le> sum_list (map fst inputs)" by (intro sum_list_nonneg) auto
  then have later: "0 \<le> ?D" "0 \<le> delay" using Cons.prems(2,3) assms(3) by (simp_all add: i)
  have settled: "kv_settled T lag ?s" using Cons.prems(2,6) later by (simp add: kv_settles_def i)
  have "kv_lasting T (delay + ?D) s" using Cons.prems(4) by (simp add: i add.assoc)
  then have lasting: "kv_lasting T delay s" "kv_lasting T ?D ?s"
    using kv_store.lasting_wait [OF assms(1), of delay ?D s] later by simp_all
  then have "kv_lasting T ?D s1" "kv_settles T lag s1"
    using check_lasting [OF assms(1) step(1)] settled Cons.prems(5) later by (simp_all add: i)
  moreover have "?D < num_int (windowSeconds config) * 2" using Cons.prems(5) later by (simp add: i)
  ultimately have "count_at T s' k = count_at T s1 k + allowed_with config k inputs ds' \<and> kv_lasting T D s' \<and> kv_settles T lag s'"
    using Cons.IH [OF step(2) _ Cons.prems(3)] Cons.prems(2) by (simp add: i)
  with check_step [OF assms(1,2) step(1) settled, of k] settled_count [OF assms(1) settled, of k]
    wait_count [OF assms(1) lasting(1) later(2), of k] step(3)
  show ?case by (simp add: i)
qed

section \<open>Properties\<close>

text \<open>
  C34: The rate limit holds over any sequence of requests that each come at least \<open>lag\<close> seconds, the
  delay after which the store shows a write, after the one before, for as long as the entries live:
  after requests handled in order within twice the window, the lifetime the limiter gives its
  entries (those it finds have been written \<open>lag\<close> seconds ago and outlive that time or have expired),
  the next one is allowed exactly when for each of its four counters the count at the start, plus
  the requests allowed since then that share the counter, plus one, is within that counter's limit;
  a denied request names a limit and leaves the store as it was.
\<close>

theorem rate_limit_enforced:
  assumes "kv_store kv T lag" "0 \<le> lag" "validateRelayRateLimitConfig config = Inr ()"
    "run_limiter kv T config inputs s = Inr (ds, s1)"
    "checkAndRecordRelayRateLimit kv config input (kv_wait T s1 delay) = Inr (d, s2)"
    "\<forall>(w, i) \<in> set inputs. lag \<le> w" "lag \<le> delay" "kv_settled T lag s"
    "kv_lasting T (sum_list (map fst inputs) + delay) s"
    "sum_list (map fst inputs) + delay < num_int (windowSeconds config) * 2"
  shows "(rl_allowed d \<longleftrightarrow> (\<forall>(l, k, lm) \<in> set (rate_checks config input).
      readCount kv s k + allowed_with config k inputs ds + 1 \<le> num_int lm)) \<and>
    (\<not> rl_allowed d \<longrightarrow> s2 = kv_wait T s1 delay \<and> rl_exceeded d \<noteq> [])"
proof -
  have ok: "config_ok config"
    using assms(3) by (simp add: config_ok_def)
  have later: "0 \<le> delay" using assms(2,7) by simp
  have "kv_settles T lag s"
    using kv_store.settled_wait [OF assms(1,8)] by (simp add: kv_settles_def)
  note counts = run_limiter_counts [OF assms(1) ok assms(2,4,6) later assms(9,10) this]
  then have settled: "kv_settled T lag (kv_wait T s1 delay)"
    using assms(7) later by (simp add: kv_settles_def)
  have "readCount kv (kv_wait T s1 delay) k = readCount kv s k + allowed_with config k inputs ds" for k
    using wait_count [OF assms(1) _ later] counts settled_count [OF assms(1)] settled assms(8) by simp
  with check_step [OF assms(1) ok assms(5) settled] show ?thesis by simp
qed

definition sample_config :: relay_rate_limit_config where
  "sample_config = \<lparr>windowSeconds = jsint 60, perIp = jsint 30, perDestination = jsint 10,
     perNullifier = jsint 1, global_limit = jsint 300\<rparr>"

definition sample_input :: relay_rate_limit_input where
  "sample_input = \<lparr>rl_chainId = 6343, rl_pool = ''0xP'', rl_ip = ''1.2.3.4'', rl_destination = ''0xD'',
     rl_nullifier = ''0xN'', rl_nowEpochSeconds = 600\<rparr>"

lemma rate_limit_enforced_witness:
  "\<exists>ds s1 d s2. run_limiter timed_kv kv_clock sample_config [(5, sample_input)] empty_store = Inr (ds, s1) \<and>
     checkAndRecordRelayRateLimit timed_kv sample_config sample_input (kv_wait kv_clock s1 50) = Inr (d, s2) \<and>
     map rl_allowed ds = [True] \<and> \<not> rl_allowed d \<and> s2 = kv_wait kv_clock s1 50"
proof -
  have valid: "validateRelayRateLimitConfig sample_config = Inr ()"
    by code_simp
  have total: "\<exists>d s'. checkAndRecordRelayRateLimit timed_kv sample_config sample_input s = Inr (d, s')" for s
    by (simp add: checkAndRecordRelayRateLimit_def valid Let_def)
  obtain d1 s1 where first: "checkAndRecordRelayRateLimit timed_kv sample_config sample_input (kv_wait kv_clock empty_store 5) = Inr (d1, s1)"
    using total by blast
  obtain d2 s2 where second: "checkAndRecordRelayRateLimit timed_kv sample_config sample_input (kv_wait kv_clock s1 50) = Inr (d2, s2)"
    using total by blast
  obtain k1 k2 k3 k4 where checks: "rate_checks sample_config sample_input =
    [(''perIp'', k1, jsint 30), (''perDestination'', k2, jsint 10), (''perNullifier'', k3, jsint 1),
     (''global'', k4, jsint 300)]"
    by (simp add: rate_checks_def Let_def sample_config_def)
  have fresh: "kv_settled kv_clock 5 (kv_wait kv_clock empty_store n)" "kv_settled kv_clock 5 empty_store"
    "readCount timed_kv (kv_wait kv_clock empty_store n) k = 0" "readCount timed_kv empty_store k = 0" for n k
    by (simp_all add: kv_settled_def readCount_def parse_count_def kv_clock_def timed_kv_def empty_store_def)
  have a1: "rl_allowed d1"
    using check_step [OF timed_store.kv_store_axioms _ first fresh(1)] valid by (simp add: checks fresh config_ok_def)
  have run1: "run_limiter timed_kv kv_clock sample_config [(5, sample_input)] empty_store = Inr ([d1], s1)"
    by (simp add: first)
  have one: "(''perNullifier'', k3, jsint 1) \<in> set (rate_checks sample_config sample_input)"
    "has_key sample_config k3 sample_input"
    by (simp_all add: checks has_key_def)
  have "kv_lasting kv_clock D empty_store" for D by (simp add: kv_lasting_def kv_clock_def empty_store_def)
  then have limit: "(rl_allowed d2 \<longleftrightarrow> (\<forall>(l, k, lm) \<in> set (rate_checks sample_config sample_input).
      readCount timed_kv empty_store k + allowed_with sample_config k [(5, sample_input)] [d1] + 1 \<le> num_int lm)) \<and>
    (\<not> rl_allowed d2 \<longrightarrow> s2 = kv_wait kv_clock s1 50 \<and> rl_exceeded d2 \<noteq> [])"
    by (intro rate_limit_enforced [OF timed_store.kv_store_axioms _ valid run1 second _ _ fresh(2)]) (simp_all add: sample_config_def)
  have "allowed_with sample_config k3 [(5, sample_input)] [d1] = 1"
    using a1 one(2) by simp
  moreover have "rl_allowed d2 \<Longrightarrow> readCount timed_kv empty_store k3 +
      allowed_with sample_config k3 [(5, sample_input)] [d1] + 1 \<le> num_int (jsint 1)"
    using conjunct1 [OF limit] one(1) by blast
  ultimately have "\<not> rl_allowed d2"
    unfolding fresh by auto
  moreover from this have "s2 = kv_wait kv_clock s1 50"
    using limit by blast
  ultimately show ?thesis using first second run1 a1 by auto
qed

end
