(* ===== verification/Recovery_Api.thy ===== *)
theory Recovery_Api
  imports Indexer_State Json
begin

text \<open>
  The indexer's recovery service, \<^verbatim>\<open>services/indexer/src/recoveryApi.ts\<close>: the answer to a request
  for a Merkle path, from the state of the index. A query is an association list of its fields, a
  body the association list of the object's fields; a field that is \<open>undefined\<close> is left out. The
  handler changes the caches of the index, which it returns.
\<close>

record recovery_response =
  rs_status :: nat
  rs_body :: "(string \<times> json) list"

record recovery_evidence =
  rv_runtimeId :: string
  rv_chainId :: jsnum
  rv_pool :: string
  rv_status :: string
  rv_mainnet4326Blocked :: bool
  rv_finalReadiness :: "bool option"
  rv_evidenceSha256 :: string
  rv_canonicalRuntimeSource :: "string option"

record recovery_input =
  ra_chainId :: int
  ra_pool :: string
  ra_originalPool :: "string option"
  ra_runtimeId :: "string option"
  ra_v12ReadinessEvidence :: "recovery_evidence option"
  ra_merklePaths :: merkle_path_index
  ra_latestCheckedBlock :: int
  ra_scanStartBlock :: "int option"
  ra_checkedRanges :: "range_tracker option"
  ra_acceptedRoots :: "(string \<times> root_record) list option"

definition RECOVERY_INDEXER_REORG_LIMITATION :: string where
  "RECOVERY_INDEXER_REORG_LIMITATION = ''Recovery responses are derived from indexed chain logs and accepted roots; callers must rescan after reorg or finality-window changes.''"
definition V12_RECOVERY_INDEXER_READINESS_BLOCKER :: string where
  "V12_RECOVERY_INDEXER_READINESS_BLOCKER = ''v1.2 recovery indexer remains blocked until matching readiness evidence is present.''"
definition MAX_RECOVERY_API_MISSING_RANGES :: nat where "MAX_RECOVERY_API_MISSING_RANGES = 25"

definition V12_RUNTIME_BINDINGS :: "runtime_binding list" where
  "V12_RUNTIME_BINDINGS =
     [\<lparr>rb_runtimeId = ''nullark-v1.2-mainnet'', rb_chainId = jsint 4326, rb_pool = V12_MAINNET_POOL,
       rb_approvedEvidenceHashes = [V12_APPROVED_PUBLIC_RUNTIME_HASH, V12_APPROVED_TRUSTED_SETUP_RECORD_HASH]\<rparr>,
      \<lparr>rb_runtimeId = ''nullark-v1.2-fee-governance'', rb_chainId = jsint 4326, rb_pool = V12_MAINNET_POOL,
       rb_approvedEvidenceHashes = [V12_APPROVED_PUBLIC_RUNTIME_HASH, V12_APPROVED_TRUSTED_SETUP_RECORD_HASH]\<rparr>]"

text \<open>The binding found, and whether the runtime is blocked.\<close>

definition getV12RuntimeBinding :: "recovery_input \<Rightarrow> runtime_binding option \<times> bool" where
  "getV12RuntimeBinding input =
     (case ra_runtimeId input of
        None \<Rightarrow> (None, False)
      | Some runtimeId \<Rightarrow>
        if runtimeId = ''nullark-v1.1-mainnet'' then (None, False)
        else case find (\<lambda>b. rb_runtimeId b = runtimeId \<and> rb_chainId b = jsint (ra_chainId input) \<and>
            to_lower (rb_pool b) = to_lower (ra_pool input)) V12_RUNTIME_BINDINGS of
          Some b \<Rightarrow> (Some b, False)
        | None \<Rightarrow> (None, js_includes ''v1.2'' runtimeId))"

definition hasMatchingV12ReadinessEvidence :: "recovery_input \<Rightarrow> runtime_binding \<Rightarrow> bool" where
  "hasMatchingV12ReadinessEvidence input b =
     (case ra_v12ReadinessEvidence input of
        None \<Rightarrow> False
      | Some e \<Rightarrow>
        rv_runtimeId e = rb_runtimeId b \<and> rv_status e = ''ready'' \<and> \<not> rv_mainnet4326Blocked e \<and>
        rv_finalReadiness e = Some True \<and> num_eq (rv_chainId e) (rb_chainId b) \<and>
        to_lower (rv_pool e) = to_lower (rb_pool b) \<and>
        (\<exists>h \<in> set (rb_approvedEvidenceHashes b). to_lower h = to_lower (rv_evidenceSha256 e)) \<and>
        (rv_canonicalRuntimeSource e = None \<or>
         rv_canonicalRuntimeSource e = Some ''public-artifacts/current.json'' \<or>
         rv_canonicalRuntimeSource e = Some ''apps/web/public/proving/trusted-setup-record.json''))"

definition forbiddenFields :: "string list" where
  "forbiddenFields = [''discoveryTag'', ''futureNullifier'', ''ownerAddress'', ''ownerTag'', ''publicDiscoveryTag'',
     ''stableDiscoveryTag'', ''walletAddress'', ''walletDiscoveryTag'', ''walletTag'']"

definition wallet_linked :: "string \<Rightarrow> bool" where
  "wallet_linked key \<longleftrightarrow> key \<in> set forbiddenFields \<or> js_includes ''wallet'' (to_lower key) \<or>
     js_includes ''discovery'' (to_lower key) \<or> js_includes ''tag'' (to_lower key) \<or>
     js_includes ''nullifier'' (to_lower key)"

definition hasWalletLinkedDiscoveryField :: "(string \<times> string) list \<Rightarrow> bool" where
  "hasWalletLinkedDiscoveryField query = list_ex (\<lambda>kv. wallet_linked (fst kv)) query"

definition range_json :: "block_range \<Rightarrow> json" where
  "range_json r = JObj [(''fromBlock'', JStr (dec_string (fromBlock r))), (''toBlock'', JStr (dec_string (toBlock r)))]"

definition missingRangeStatus :: "recovery_input \<Rightarrow> (string \<times> json) list" where
  "missingRangeStatus input =
     (case ra_checkedRanges input of
        None \<Rightarrow> []
      | Some tracker \<Rightarrow>
        let scanStartBlock = (case ra_scanStartBlock input of None \<Rightarrow> 0 | Some b \<Rightarrow> b) in
        if ra_latestCheckedBlock input < scanStartBlock
        then [(''partialSync'', JBool True), (''missingRangeCount'', JNum (jsint 0)), (''missingRanges'', JArr [])]
        else
          let missing = findMissingRanges tracker \<lparr>fromBlock = scanStartBlock, toBlock = ra_latestCheckedBlock input\<rparr>;
              visible = take MAX_RECOVERY_API_MISSING_RANGES missing in
          [(''partialSync'', JBool (length missing > 0)), (''missingRangeCount'', JNum (jsint (int (length missing)))),
           (''missingRanges'', JArr (map range_json visible))] @
          (if length missing > length visible then [(''missingRangesTruncated'', JBool True)] else []))"

definition text_field :: "string \<Rightarrow> string option \<Rightarrow> (string \<times> json) list" where
  "text_field k v = (case v of None \<Rightarrow> [] | Some s \<Rightarrow> [(k, JStr s)])"

text \<open>\<open>...(value ? { key: value } : {})\<close>: the empty string is left out as well.\<close>

definition truthy_field :: "string \<Rightarrow> string option \<Rightarrow> (string \<times> json) list" where
  "truthy_field k v = (case v of None \<Rightarrow> [] | Some s \<Rightarrow> if s = [] then [] else [(k, JStr s)])"

definition limitations_field :: "string \<times> json" where
  "limitations_field = (''limitations'', JArr [JStr RECOVERY_INDEXER_REORG_LIMITATION])"

definition failure :: "nat \<Rightarrow> string \<Rightarrow> recovery_response" where
  "failure stat message = \<lparr>rs_status = stat, rs_body = [(''error'', JStr message)]\<rparr>"

definition chain_failure :: "nat \<Rightarrow> string \<Rightarrow> (string \<times> json) list \<Rightarrow> recovery_response" where
  "chain_failure stat message rest = \<lparr>rs_status = stat, rs_body = [(''error'', JStr message),
     (''sourceOfTruth'', JStr ''chain-logs''), limitations_field] @ rest\<rparr>"

definition path_fields :: "merkle_path_result \<Rightarrow> (string \<times> json) list" where
  "path_fields p = [(''commitment'', JStr (path_commitment p)), (''leafIndex'', JNum (jsint (path_leafIndex p))),
     (''root'', JStr (path_root p)), (''pathElements'', JArr (map JStr (pathElements p))),
     (''pathIndices'', JArr (map (\<lambda>i. JNum (jsint i)) (pathIndices p))),
     (''source'', JStr ''reconstructed-from-indexed-logs'')]"

definition path_body :: "recovery_input \<Rightarrow> merkle_path_result \<Rightarrow> (string \<times> json) list" where
  "path_body input p = path_fields p @ [(''pool'', JStr (ra_pool input))] @
     truthy_field ''originalPool'' (ra_originalPool input) @ [(''chainId'', JNum (jsint (ra_chainId input)))] @
     truthy_field ''runtimeId'' (ra_runtimeId input) @
     [(''latestCheckedBlock'', JStr (dec_string (ra_latestCheckedBlock input))), limitations_field]"

text \<open>The one error \<open>getMerklePathForCommitment\<close> throws.\<close>

fun merkle_error_message :: "merkle_error \<Rightarrow> string" where
  "merkle_error_message CommitmentNotIndexed = ''Commitment is not indexed.''"
| "merkle_error_message _ = ''path unavailable''"

definition root_accepted :: "recovery_input \<Rightarrow> merkle_path_result \<Rightarrow> bool" where
  "root_accepted input p =
     (case ra_acceptedRoots input of None \<Rightarrow> True | Some roots \<Rightarrow> map_of roots (to_lower (path_root p)) \<noteq> None)"

definition serve_path :: "recovery_input \<Rightarrow> string \<Rightarrow> recovery_response \<times> merkle_path_index" where
  "serve_path input commitment =
     (case getMerklePathForCommitment (ra_merklePaths input) commitment of
        Inl e \<Rightarrow> (chain_failure 404 (merkle_error_message e) (missingRangeStatus input), ra_merklePaths input)
      | Inr (index', p) \<Rightarrow>
        (if \<not> root_accepted input p
         then chain_failure 409 ''Merkle path root is not confirmed by indexed chain logs'' []
         else \<lparr>rs_status = 200, rs_body = path_body input p\<rparr>, index'))"

text \<open>The requirements of a version 1.2 runtime; \<open>None\<close> when they hold.\<close>

definition v12_requirements :: "recovery_input \<Rightarrow> recovery_response option" where
  "v12_requirements input =
     (if map_of (missingRangeStatus input) ''partialSync'' \<noteq> Some (JBool False)
      then Some (chain_failure 503 ''v1.2 recovery indexer requires complete checked ranges before serving paths''
        (missingRangeStatus input))
      else if (case ra_acceptedRoots input of None \<Rightarrow> True | Some roots \<Rightarrow> roots = [])
      then Some (chain_failure 503 ''v1.2 recovery indexer requires accepted-root evidence before serving paths'' [])
      else None)"

definition merklePath :: "recovery_input \<Rightarrow> (string \<times> string) list \<Rightarrow> recovery_response \<times> merkle_path_index" where
  "merklePath input query =
     (let keep = (\<lambda>r. (r, ra_merklePaths input)) in
      if hasWalletLinkedDiscoveryField query
      then keep (failure 400 ''wallet-linked discovery fields are not accepted'')
      else if map_of query ''chainId'' \<noteq> Some (dec_string (ra_chainId input))
      then keep (failure 400 ''unsupported chain'')
      else case (map_of query ''pool'', map_of query ''commitment'') of
        (Some pool, Some commitment) \<Rightarrow>
          if to_lower pool \<noteq> to_lower (ra_pool input) then keep (failure 404 ''pool not indexed'')
          else (case getV12RuntimeBinding input of (binding, blocked) \<Rightarrow>
            if blocked \<or> (case binding of None \<Rightarrow> False | Some b \<Rightarrow> \<not> hasMatchingV12ReadinessEvidence input b)
            then keep \<lparr>rs_status = 503, rs_body = [(''error'', JStr V12_RECOVERY_INDEXER_READINESS_BLOCKER)] @
              text_field ''runtimeId'' (ra_runtimeId input) @ [(''productionReady'', JBool False),
              (''sourceOfTruth'', JStr ''chain-logs''), limitations_field]\<rparr>
            else if \<not> isHexBytes32 commitment then keep (failure 400 ''invalid commitment'')
            else (case (if binding = None then None else v12_requirements input) of
                Some r \<Rightarrow> keep r
              | None \<Rightarrow> serve_path input commitment))
      | _ \<Rightarrow> keep (failure 400 ''invalid recovery query''))"

section \<open>What a served path has passed\<close>

lemma failure_status [simp]: "rs_status (failure n m) = n" "rs_status (chain_failure n m r) = n"
  by (simp_all add: failure_def chain_failure_def)

lemma partial_sync_complete:
  assumes "map_of (missingRangeStatus input) ''partialSync'' = Some (JBool False)"
  shows "\<exists>t. ra_checkedRanges input = Some t \<and>
    findMissingRanges t \<lparr>fromBlock = or_default (ra_scanStartBlock input) 0, toBlock = ra_latestCheckedBlock input\<rparr> = []"
  using assms
  by (auto simp: missingRangeStatus_def Let_def or_default_def split: option.splits if_splits)

definition runtime_ready :: "recovery_input \<Rightarrow> bool" where
  "runtime_ready input \<longleftrightarrow>
     (case getV12RuntimeBinding input of (binding, blocked) \<Rightarrow> \<not> blocked \<and>
       (\<forall>b. binding = Some b \<longrightarrow> hasMatchingV12ReadinessEvidence input b \<and>
          (\<exists>t. ra_checkedRanges input = Some t \<and> findMissingRanges t
             \<lparr>fromBlock = or_default (ra_scanStartBlock input) 0, toBlock = ra_latestCheckedBlock input\<rparr> = []) \<and>
          (\<exists>roots. ra_acceptedRoots input = Some roots \<and> roots \<noteq> [])))"

definition query_admitted :: "recovery_input \<Rightarrow> (string \<times> string) list \<Rightarrow> string \<Rightarrow> bool" where
  "query_admitted input query commitment \<longleftrightarrow>
     (\<forall>kv \<in> set query. \<not> wallet_linked (fst kv)) \<and> map_of query ''chainId'' = Some (dec_string (ra_chainId input)) \<and>
     (\<exists>pool. map_of query ''pool'' = Some pool \<and> to_lower pool = to_lower (ra_pool input)) \<and>
     map_of query ''commitment'' = Some commitment \<and> isHexBytes32 commitment"

lemma v12_requirements_None:
  "v12_requirements input = None \<longleftrightarrow> map_of (missingRangeStatus input) ''partialSync'' = Some (JBool False) \<and>
    (\<exists>roots. ra_acceptedRoots input = Some roots \<and> roots \<noteq> [])"
  by (auto simp: v12_requirements_def split: option.splits)

lemma v12_requirements_status: "v12_requirements input = Some r \<Longrightarrow> rs_status r = 503"
  by (auto simp: v12_requirements_def split: if_splits)

lemma served_query:
  assumes "merklePath input query = (resp, index')" "rs_status resp = 200"
  obtains commitment where "query_admitted input query commitment" "runtime_ready input"
    "serve_path input commitment = (resp, index')"
proof -
  have wallet: "\<forall>kv \<in> set query. \<not> wallet_linked (fst kv)"
    using assms by (auto simp: merklePath_def Let_def hasWalletLinkedDiscoveryField_def list_ex_iff split: if_splits)
  then have no_wallet: "\<not> hasWalletLinkedDiscoveryField query"
    by (simp add: hasWalletLinkedDiscoveryField_def list_ex_iff)
  have chain: "map_of query ''chainId'' = Some (dec_string (ra_chainId input))"
    using assms no_wallet by (auto simp: merklePath_def Let_def split: if_splits)
  obtain pool commitment where q: "map_of query ''pool'' = Some pool" "map_of query ''commitment'' = Some commitment"
    using assms no_wallet chain by (auto simp: merklePath_def Let_def split: option.splits)
  obtain binding blocked where b: "getV12RuntimeBinding input = (binding, blocked)" by fastforce
  have rest: "to_lower pool = to_lower (ra_pool input)" "\<not> blocked" "isHexBytes32 commitment"
    "\<forall>x. binding = Some x \<longrightarrow> hasMatchingV12ReadinessEvidence input x"
    "binding \<noteq> None \<longrightarrow> v12_requirements input = None" "serve_path input commitment = (resp, index')"
    using assms no_wallet chain q b
    by (auto simp: merklePath_def Let_def dest: v12_requirements_status split: if_splits option.splits)
  then have "runtime_ready input"
    using b partial_sync_complete by (auto simp: runtime_ready_def v12_requirements_None)
  with that [of commitment] wallet chain q rest show ?thesis
    by (simp add: query_admitted_def)
qed

lemma served_path:
  assumes "serve_path input commitment = (resp, index')" "rs_status resp = 200" "index_ok (ra_merklePaths input)"
  shows "\<exists>p. getMerklePathForCommitment (ra_merklePaths input) commitment = Inr (index', p) \<and> index_ok index' \<and>
    rs_body resp = path_body input p \<and> root_accepted input p"
proof -
  obtain p where p: "getMerklePathForCommitment (ra_merklePaths input) commitment = Inr (index', p)"
    "rs_body resp = path_body input p" "root_accepted input p"
    using assms(1,2) by (auto simp: serve_path_def split: sum.splits if_splits)
  with query_ok [OF assms(3) p(1)] show ?thesis by blast
qed

lemma computePath_commitment [simp]: "path_commitment (computePath index xs c i) = c"
  by (simp add: computePath_def Let_def split: prod.splits)

lemma v12_runtime_complete:
  assumes "runtime_ready input" "ra_runtimeId input = Some runtimeId" "js_includes ''v1.2'' runtimeId"
    "ra_checkedRanges input = Some tracker" "merged_ranges (checkedRanges tracker)"
  shows "(\<exists>b. getV12RuntimeBinding input = (Some b, False) \<and> hasMatchingV12ReadinessEvidence input b) \<and>
    {or_default (ra_scanStartBlock input) 0..ra_latestCheckedBlock input} \<subseteq> covered_by (checkedRanges tracker)"
proof -
  have "runtimeId \<noteq> ''nullark-v1.1-mainnet''"
    using assms(3) by (auto simp: starts_with_def)
  then obtain b where b: "getV12RuntimeBinding input = (Some b, False)"
    using assms(1-3) by (auto simp: runtime_ready_def getV12RuntimeBinding_def split: option.splits)
  then have "hasMatchingV12ReadinessEvidence input b" and none: "findMissingRanges tracker
      \<lparr>fromBlock = or_default (ra_scanStartBlock input) 0, toBlock = ra_latestCheckedBlock input\<rparr> = []"
    using assms(1,4) by (auto simp: runtime_ready_def)
  with b findMissingRanges_correct(1) [OF assms(5)] show ?thesis
    by (metis (no_types, lifting) Diff_eq_empty_iff blocks_def covered_by_simps(1) block_range.simps(1,2))
qed

text \<open>
  C39: A path is served (status 200) only if it is a proof the chain has confirmed. For a service on a
  consistent indexer state, the query names no wallet-linked field and the service's own chain and
  pool; the body is the path of a stored leaf with the commitment asked for, which hashes up to the
  path's root (leaves below 2^31), and the last event about that root accepted it. A version 1.2
  runtime serves only with matching readiness evidence and when every block from the scan start to
  the latest checked one has been scanned; an unknown version 1.2 runtime serves nothing.
\<close>

theorem served_path_confirmed:
  assumes "merklePath input query = (resp, index')" "rs_status resp = 200" "indexer_ok st"
    "merklePaths st = Some (ra_merklePaths input)" "ra_acceptedRoots input = Some (st_roots st)"
    "ra_checkedRanges input = Some (st_ranges st)"
  shows "\<exists>commitment p. query_admitted input query commitment \<and> rs_body resp = path_body input p \<and>
    to_lower (path_commitment p) = to_lower commitment \<and> index_ok index' \<and>
    (path_leafIndex p < 2 ^ 31 \<longrightarrow> (\<exists>stored.
       map_of (leavesByIndex (ra_merklePaths input)) (path_leafIndex p) = Some stored \<and>
       to_lower stored = to_lower commitment \<and>
       climb (hashPair (ra_merklePaths input)) stored (pathElements p) (pathIndices p) = path_root p)) \<and>
    status_of st (to_lower (path_root p)) = AcceptedRoot \<and>
    (\<forall>runtimeId. ra_runtimeId input = Some runtimeId \<and> js_includes ''v1.2'' runtimeId \<longrightarrow>
       (\<exists>b. getV12RuntimeBinding input = (Some b, False) \<and> hasMatchingV12ReadinessEvidence input b) \<and>
       {or_default (ra_scanStartBlock input) 0..ra_latestCheckedBlock input} \<subseteq> covered_by (checkedRanges (st_ranges st)))"
proof -
  obtain commitment where q: "query_admitted input query commitment" "runtime_ready input"
    "serve_path input commitment = (resp, index')"
    by (rule served_query [OF assms(1,2)])
  have ok: "index_ok (ra_merklePaths input)" "merged_ranges (checkedRanges (st_ranges st))"
    using assms(3,4) unfolding indexer_ok_def by blast+
  obtain p where p: "getMerklePathForCommitment (ra_merklePaths input) commitment = Inr (index', p)" "index_ok index'"
    "rs_body resp = path_body input p" "root_accepted input p"
    using served_path [OF q(3) assms(2) ok(1)] by blast
  have own: "to_lower (path_commitment p) = to_lower commitment"
    using query_ok [OF ok(1) p(1)] by auto
  have root: "status_of st (to_lower (path_root p)) = AcceptedRoot"
    using p(4) assms(5) by (simp add: root_accepted_def status_of_def)
  show ?thesis
    using q(1) p own root v12_runtime_complete [OF q(2) _ _ assms(6) ok(2)] query_verifies [OF ok(1) p(1)]
    by (intro exI [of _ commitment] exI [of _ p]) blast
qed

section \<open>A concrete service\<close>

definition sample_commitment :: string where
  "sample_commitment = ''0x'' @ replicate 64 (CHR ''a'')"

definition sample_paths :: merkle_path_index where
  "sample_paths = (sample_index 2)\<lparr>leavesByIndex := [(0, sample_commitment)],
     indexByCommitment := [(sample_commitment, 0)]\<rparr>"

definition sample_path :: merkle_path_result where
  "sample_path = computePath sample_paths (sorted_leaves sample_paths) sample_commitment 0"

definition sample_root :: root_record where
  "sample_root = \<lparr>rr_root = path_root sample_path, rr_previousRoot = [], rr_insertedCommitment = sample_commitment,
     rr_blockNumber = 7, rr_transactionHash = [], rr_logIndex = jsint 0\<rparr>"

definition sample_indexer :: indexer_state where
  "sample_indexer = (createIndexerState (Some sample_paths))\<lparr>
     st_roots := [(to_lower (path_root sample_path), sample_root)],
     st_ranges := \<lparr>checkedRanges = [\<lparr>fromBlock = 0, toBlock = 9\<rparr>]\<rparr>\<rparr>"

definition sample_service :: recovery_input where
  "sample_service = \<lparr>ra_chainId = 4326, ra_pool = V12_MAINNET_POOL, ra_originalPool = None,
     ra_runtimeId = Some ''nullark-v1.2-mainnet'',
     ra_v12ReadinessEvidence = Some \<lparr>rv_runtimeId = ''nullark-v1.2-mainnet'', rv_chainId = jsint 4326,
       rv_pool = V12_MAINNET_POOL, rv_status = ''ready'', rv_mainnet4326Blocked = False,
       rv_finalReadiness = Some True, rv_evidenceSha256 = V12_APPROVED_PUBLIC_RUNTIME_HASH,
       rv_canonicalRuntimeSource = None\<rparr>,
     ra_merklePaths = sample_paths, ra_latestCheckedBlock = 9, ra_scanStartBlock = Some 2,
     ra_checkedRanges = Some \<lparr>checkedRanges = [\<lparr>fromBlock = 0, toBlock = 9\<rparr>]\<rparr>,
     ra_acceptedRoots = Some [(to_lower (path_root sample_path), sample_root)]\<rparr>"

definition sample_query :: "(string \<times> string) list" where
  "sample_query = [(''chainId'', dec_string 4326), (''pool'', V12_MAINNET_POOL), (''commitment'', sample_commitment)]"

lemma sample_commitment_hex: "isHexBytes32 sample_commitment" "to_lower sample_commitment = sample_commitment"
proof -
  have "is_hex_char (CHR ''a'')" "lower_char (CHR ''a'') = CHR ''a''" by code_simp+
  then show "isHexBytes32 sample_commitment" "to_lower sample_commitment = sample_commitment"
    by (simp_all add: sample_commitment_def isHexBytes32_def hex_of_length_def)
qed

lemma sample_paths_ok: "index_ok sample_paths"
proof -
  have "insertIndexedCommitment (sample_index 2) sample_commitment (jsint 0) = Inr sample_paths"
    by (simp add: insertIndexedCommitment_def Let_def sample_index_def sample_paths_def sample_commitment_hex)
  with created_ok [OF sample_index_created] show ?thesis by (rule insert_ok)
qed

lemma sample_indexer_ok: "indexer_ok sample_indexer"
  using sample_paths_ok
  by (simp add: indexer_ok_def sample_indexer_def createIndexerState_def createEncryptedNoteCache_def
      keyed_by_def sample_root_def)

lemma sample_keys: "\<not> list_ex (\<lambda>kv. wallet_linked (fst kv)) sample_query"
proof -
  have "\<not> wallet_linked ''chainId''" "\<not> wallet_linked ''pool''" "\<not> wallet_linked ''commitment''" by code_simp+
  then show ?thesis by (simp add: sample_query_def)
qed

lemma sample_served:
  "\<exists>index'. merklePath sample_service sample_query = (\<lparr>rs_status = 200, rs_body = path_body sample_service sample_path\<rparr>, index')"
proof -
  have fields: "map_of sample_query ''chainId'' = Some (dec_string 4326)" "map_of sample_query ''pool'' = Some V12_MAINNET_POOL"
    "map_of sample_query ''commitment'' = Some sample_commitment" "ra_chainId sample_service = 4326"
    "ra_pool sample_service = V12_MAINNET_POOL" "ra_merklePaths sample_service = sample_paths"
    by (simp_all add: sample_query_def sample_service_def)
  obtain index' where path: "getMerklePathForCommitment sample_paths sample_commitment = Inr (index', sample_path)"
    using query_computes [of sample_paths sample_commitment 0, folded sample_path_def]
    by (auto simp: sample_paths_def sample_index_def sample_commitment_hex)
  have binding: "getV12RuntimeBinding sample_service = (Some (V12_RUNTIME_BINDINGS ! 0), False)"
    by (simp add: getV12RuntimeBinding_def sample_service_def V12_RUNTIME_BINDINGS_def)
  have ready: "hasMatchingV12ReadinessEvidence sample_service (V12_RUNTIME_BINDINGS ! 0)"
    by (simp add: hasMatchingV12ReadinessEvidence_def sample_service_def V12_RUNTIME_BINDINGS_def num_eq_def)
  have complete: "v12_requirements sample_service = None"
    by (simp add: v12_requirements_None missingRangeStatus_def sample_service_def findMissingRanges_def Let_def)
  have "root_accepted sample_service sample_path"
    by (simp add: root_accepted_def sample_service_def)
  then have "serve_path sample_service sample_commitment =
      (\<lparr>rs_status = 200, rs_body = path_body sample_service sample_path\<rparr>, index')"
    by (simp add: serve_path_def fields path)
  with sample_keys binding ready complete show ?thesis
    by (simp add: merklePath_def hasWalletLinkedDiscoveryField_def fields sample_commitment_hex Let_def)
qed

lemma path_body_inj: "path_body input p = path_body input q \<Longrightarrow> p = q"
proof -
  assume "path_body input p = path_body input q"
  then have eq: "path_fields p = path_fields q"
    by (simp add: path_body_def path_fields_def)
  have "inj JStr" "inj (\<lambda>i. JNum (jsint i))"
    by (simp_all add: inj_def)
  with eq have "pathElements p = pathElements q" "pathIndices p = pathIndices q"
    by (simp_all add: path_fields_def inj_map_eq_map)
  with eq show "p = q"
    by (simp add: path_fields_def)
qed

lemma served_path_confirmed_witness:
  "\<exists>resp index'. merklePath sample_service sample_query = (resp, index') \<and> rs_status resp = 200 \<and>
     rs_body resp = path_body sample_service sample_path \<and>
     status_of sample_indexer (to_lower (path_root sample_path)) = AcceptedRoot \<and>
     {2..9} \<subseteq> covered_by (checkedRanges (st_ranges sample_indexer))"
proof -
  obtain index' where run: "merklePath sample_service sample_query =
      (\<lparr>rs_status = 200, rs_body = path_body sample_service sample_path\<rparr>, index')"
    using sample_served by blast
  have st: "merklePaths sample_indexer = Some (ra_merklePaths sample_service)"
    "ra_acceptedRoots sample_service = Some (st_roots sample_indexer)"
    "ra_checkedRanges sample_service = Some (st_ranges sample_indexer)"
    by (simp_all add: sample_indexer_def sample_service_def createIndexerState_def)
  have v12: "ra_runtimeId sample_service = Some ''nullark-v1.2-mainnet''" "js_includes ''v1.2'' ''nullark-v1.2-mainnet''"
    "or_default (ra_scanStartBlock sample_service) 0 = 2" "ra_latestCheckedBlock sample_service = 9"
    by (simp_all add: sample_service_def starts_with_def or_default_def)
  from served_path_confirmed [OF run _ sample_indexer_ok st, unfolded recovery_response.simps v12(3,4), OF refl]
  show ?thesis
  proof (elim exE conjE)
    fix p
    assume "path_body sample_service sample_path = path_body sample_service p"
      and root: "status_of sample_indexer (to_lower (path_root p)) = AcceptedRoot"
      and ready: "\<forall>runtimeId. ra_runtimeId sample_service = Some runtimeId \<and> js_includes ''v1.2'' runtimeId \<longrightarrow>
        (\<exists>b. getV12RuntimeBinding sample_service = (Some b, False) \<and> hasMatchingV12ReadinessEvidence sample_service b) \<and>
        {2..9} \<subseteq> covered_by (checkedRanges (st_ranges sample_indexer))"
    then have "p = sample_path"
      by (metis path_body_inj)
    moreover have "{2..9} \<subseteq> covered_by (checkedRanges (st_ranges sample_indexer))"
      using spec [OF ready, of "''nullark-v1.2-mainnet''"] v12(1,2) by (simp only: simp_thms)
    ultimately show ?thesis
      using root by - (intro exI conjI, rule run, simp_all only: recovery_response.simps)
  qed
qed

end
