(* ===== verification/Relayer_Runtime.thy ===== *)
theory Relayer_Runtime
  imports Relay_Calldata Rate_Limit Idempotency
begin

text \<open>
  The runtime of the deployed relayer, first part of \<^verbatim>\<open>services/relayer-worker/src/index.ts\<close>: the
  environment bindings, the policies of the two networks, and the checks that pin a mainnet runtime
  to the approved pool, selector, RPC, artifact hashes and signer. Environment variables are
  strings that may be absent, whatever type the source declares for them. A failure carries what is
  needed to build its message; what a library throws is \<open>LibraryThrown\<close>, with the message when it is
  an \<open>Error\<close>, and what the language itself throws is an \<open>engine_error\<close>.
\<close>

datatype engine_error = PropertyOfNull | NotABigInt json | JsonSyntax string

datatype worker_failure =
    WorkerError string
  | BroadcastRefused int "broadcast_error list"
  | CalldataRefused "string list"
  | Thrown relay_throw
  | RateLimitThrown rate_error
  | LibraryThrown "string option"
  | EngineThrown engine_error

definition of_throw :: "relay_throw + 'a \<Rightarrow> worker_failure + 'a" where
  "of_throw r = (case r of Inl e \<Rightarrow> Inl (Thrown e) | Inr a \<Rightarrow> Inr a)"

definition throw_if :: "bool \<Rightarrow> string \<Rightarrow> worker_failure + unit" where
  "throw_if c message = (if c then Inl (WorkerError message) else Inr ())"

record worker_env =
  WITHDRAWAL_RELAYER_PRIVATE_KEY :: string
  WITHDRAWAL_RELAYER_ADDRESS :: "string option"
  RELAYER_ENVIRONMENT :: "string option"
  ENV_TESTNET_RPC_URL :: "string option"
  ENV_MAINNET_RPC_URL :: "string option"
  ENV_SHIELDED_POOL_ADDRESS :: "string option"
  MAINNET_RELAYER_APPROVED :: "string option"
  MAINNET_RELAYER_PUBLIC_RUNTIME_SHA256 :: "string option"
  MAINNET_RELAYER_TRUSTED_SETUP_SHA256 :: "string option"
  RELAYER_V1_2_WITHDRAW_SELECTOR :: "string option"
  RELAYER_V1_2_FEE_SOURCE :: "string option"
  has_idempotency_kv :: bool
  has_rate_limit_kv :: bool
  has_nonce_queue :: bool

definition MEGAETH_TESTNET_RPC_URL :: string where
  "MEGAETH_TESTNET_RPC_URL = ''https://carrot.megaeth.com/rpc''"
definition REQUIRED_MAINNET_RPC_URL :: string where
  "REQUIRED_MAINNET_RPC_URL = ''https://mainnet.megaeth.com/rpc''"
definition SHIELDED_POOL_ADDRESS :: string where
  "SHIELDED_POOL_ADDRESS = ''0xce4D91A6D10AAfAB3e420e3764C139244057C8E1''"
definition REQUIRED_MAINNET_SHIELDED_POOL_ADDRESS :: string where
  "REQUIRED_MAINNET_SHIELDED_POOL_ADDRESS = MEGAETH_MAINNET_APPROVED_WITHDRAWAL_RELAYER_POOL"
definition REQUIRED_MAINNET_WITHDRAW_SELECTOR :: string where
  "REQUIRED_MAINNET_WITHDRAW_SELECTOR = STAGE_C_WITHDRAW_BOUNDED_SELECTOR"
definition REQUIRED_MAINNET_WITHDRAWAL_RELAYER_ADDRESS :: string where
  "REQUIRED_MAINNET_WITHDRAWAL_RELAYER_ADDRESS = ''0x8684bCb6D1deCb9b89733E7120625947615Cc14F''"
definition REQUIRED_MAINNET_PUBLIC_RUNTIME_SHA256 :: string where
  "REQUIRED_MAINNET_PUBLIC_RUNTIME_SHA256 =
     ''66def458e16ea6ed9d1df9c15a79ec83c23d4d4ccdec631d868f614cc0e94ff4''"
definition REQUIRED_MAINNET_TRUSTED_SETUP_SHA256 :: string where
  "REQUIRED_MAINNET_TRUSTED_SETUP_SHA256 =
     ''b87aa47a407f0347a920fcebe76f84d402be8bd5e82f5fe5980ffea557bfa996''"
definition FORBIDDEN_V1_2_MAINNET_SHIELDED_POOL_ADDRESSES :: "string list" where
  "FORBIDDEN_V1_2_MAINNET_SHIELDED_POOL_ADDRESSES =
     [''0xFa49572C8bdd03C3DB4caA6bafD73a4BA92F5F15'', ''0x54af9d54b4edD062daD5581670E9E5f73048c87b'']"
definition MAX_GAS_LIMIT :: int where "MAX_GAS_LIMIT = 20000000"
definition RELAY_RATE_LIMIT_CONFIG :: relay_rate_limit_config where
  "RELAY_RATE_LIMIT_CONFIG = \<lparr>windowSeconds = jsint 60, perIp = jsint 30, perDestination = jsint 10,
     perNullifier = jsint 3, global_limit = jsint 300\<rparr>"

record relay_runtime =
  rt_environment :: string
  rt_chainId :: int
  rt_rpcUrl :: string
  rt_pool :: string
  rt_policy :: broadcast_policy
  rt_relayValidationMode :: "relay_mode option"
  rt_feePolicy :: "fee_policy option"
  rt_feeSource :: "string option"

definition MAINNET :: string where "MAINNET = ''megaeth-mainnet''"
definition TESTNET :: string where "TESTNET = ''megaeth-testnet''"

definition isRelayEndpointPath :: "string \<Rightarrow> string \<Rightarrow> bool" where
  "isRelayEndpointPath pathname environment =
     (if pathname = ''/transaction'' then True
      else if pathname \<noteq> ''/relay-transaction'' then False
      else environment \<noteq> MAINNET)"

section \<open>Checks of a mainnet runtime\<close>

definition isObviousPlaceholderAddress :: "string \<Rightarrow> bool" where
  "isObviousPlaceholderAddress v =
     (let n = to_lower v in
      n = ZERO_ADDRESS \<or> n = ''0xdead'' @ replicate 36 (CHR ''0'') \<or>
      (starts_with ''0x'' n \<and> length n = 42 \<and> is_hex_char (n ! 2) \<and> \<not> is_upper (n ! 2) \<and>
       drop 2 n = replicate 40 (n ! 2)))"

definition assertV12MainnetPoolHasFinalReadinessEvidence :: "string \<Rightarrow> worker_failure + unit" where
  "assertV12MainnetPoolHasFinalReadinessEvidence pool =
     bind_res (throw_if (isObviousPlaceholderAddress pool)
       ''v1.2 mainnet relayer requires a non-placeholder final pool address'') (\<lambda>_.
     throw_if (to_lower pool \<in> set (map to_lower FORBIDDEN_V1_2_MAINNET_SHIELDED_POOL_ADDRESSES))
       ''v1.2 mainnet relayer refuses historical/pre-v1.2 mainnet pool address'')"

definition assertCurrentMainnetPool :: "string \<Rightarrow> worker_failure + unit" where
  "assertCurrentMainnetPool pool =
     throw_if (to_lower pool \<noteq> to_lower REQUIRED_MAINNET_SHIELDED_POOL_ADDRESS)
       (''mainnet relayer pool must match approved current public artifact pool '' @
        REQUIRED_MAINNET_SHIELDED_POOL_ADDRESS)"

definition lower_hex_char :: "char \<Rightarrow> bool" where
  "lower_hex_char c \<longleftrightarrow> is_hex_char c \<and> \<not> is_upper c"

definition normalizeSha256Binding :: "string option \<Rightarrow> string option" where
  "normalizeSha256Binding v =
     (case v of None \<Rightarrow> None
      | Some t \<Rightarrow>
          let n = (if starts_with ''sha256:'' t then drop 7 t else t) in
          if length n = 64 \<and> list_all lower_hex_char n then Some n else None)"

definition assertMainnetRelayerHashBinding ::
  "string option \<Rightarrow> string \<Rightarrow> string \<Rightarrow> string \<Rightarrow> worker_failure + unit" where
  "assertMainnetRelayerHashBinding v expected envName artifactPath =
     (case normalizeSha256Binding v of
        None \<Rightarrow> Inl (WorkerError (''mainnet relayer requires hash-bound '' @ envName @ '' for '' @ artifactPath))
      | Some n \<Rightarrow> throw_if (n \<noteq> expected)
          (''mainnet relayer '' @ envName @ '' must match approved '' @ artifactPath @ '' SHA-256''))"

definition assertCurrentMainnetPublicArtifactBinding ::
  "string \<Rightarrow> string option \<Rightarrow> string \<Rightarrow> string option \<Rightarrow> string option \<Rightarrow> string option \<Rightarrow> worker_failure + unit" where
  "assertCurrentMainnetPublicArtifactBinding pool selector rpcUrl feeSource publicRuntimeSha256 trustedSetupSha256 =
     bind_res (assertV12MainnetPoolHasFinalReadinessEvidence pool) (\<lambda>_.
     bind_res (assertCurrentMainnetPool pool) (\<lambda>_.
     bind_res (throw_if (map_option to_lower selector \<noteq> Some REQUIRED_MAINNET_WITHDRAW_SELECTOR)
       (''mainnet relayer selector must match approved current public artifact selector '' @
        REQUIRED_MAINNET_WITHDRAW_SELECTOR)) (\<lambda>_.
     bind_res (throw_if (rpcUrl \<noteq> REQUIRED_MAINNET_RPC_URL)
       (''mainnet relayer RPC must match approved MegaETH mainnet RPC '' @ REQUIRED_MAINNET_RPC_URL)) (\<lambda>_.
     bind_res (throw_if (feeSource \<noteq> Some ''on-chain-feeBps'')
       ''mainnet relayer requires RELAYER_V1_2_FEE_SOURCE=on-chain-feeBps'') (\<lambda>_.
     bind_res (assertMainnetRelayerHashBinding publicRuntimeSha256 REQUIRED_MAINNET_PUBLIC_RUNTIME_SHA256
       ''MAINNET_RELAYER_PUBLIC_RUNTIME_SHA256'' ''public-artifacts/current.json'') (\<lambda>_.
     assertMainnetRelayerHashBinding trustedSetupSha256 REQUIRED_MAINNET_TRUSTED_SETUP_SHA256
       ''MAINNET_RELAYER_TRUSTED_SETUP_SHA256'' ''apps/web/public/proving/trusted-setup-record.json''))))))"

section \<open>Policies and runtimes\<close>

definition buildTestnetRelayPolicy :: "relay_lib \<Rightarrow> string \<Rightarrow> worker_failure + broadcast_policy" where
  "buildTestnetRelayPolicy L allowedPool =
     bind_res (of_throw (getAddress L allowedPool)) (\<lambda>pool. Inr
       \<lparr>bp_allowedChainIds = [jsint MEGAETH_TESTNET_CHAIN_ID], bp_blockedChainIds = [],
        bp_allowMegaEthMainnet = None, bp_allowedContracts = [pool],
        bp_allowedFunctionSelectors =
          TESTNET_WITHDRAWAL_RELAYER_SELECTORS @ [PROOF_CONTEXT_V1_WITHDRAW_RELAYER_POLICY_SELECTOR],
        bp_maxValueWei = 0, bp_maxGasLimit = MAX_GAS_LIMIT, bp_maxDeadlineSecondsFromNow = jsint 120\<rparr>)"

definition buildMainnetRelayPolicy :: "relay_lib \<Rightarrow> string \<Rightarrow> worker_failure + broadcast_policy" where
  "buildMainnetRelayPolicy L allowedPool =
     bind_res (assertCurrentMainnetPool allowedPool) (\<lambda>_.
     bind_res (of_throw (getAddress L allowedPool)) (\<lambda>pool. Inr
       \<lparr>bp_allowedChainIds = [jsint MEGAETH_MAINNET_CHAIN_ID], bp_blockedChainIds = [],
        bp_allowMegaEthMainnet = Some True, bp_allowedContracts = [pool],
        bp_allowedFunctionSelectors = MAINNET_WITHDRAWAL_RELAYER_SELECTORS,
        bp_maxValueWei = 0, bp_maxGasLimit = MAX_GAS_LIMIT, bp_maxDeadlineSecondsFromNow = jsint 120\<rparr>))"

text \<open>\<open>env.X ?? default\<close> is \<open>or_default\<close>; \<open>!env.X\<close> also holds of an empty string.\<close>

definition buildV12RelayRuntimeForTest :: "relay_lib \<Rightarrow> worker_env \<Rightarrow> worker_failure + relay_runtime" where
  "buildV12RelayRuntimeForTest L env =
     bind_res (throw_if (\<not> truthy (RELAYER_ENVIRONMENT env))
       ''v1.2 relay runtime requires explicit RELAYER_ENVIRONMENT'') (\<lambda>_.
     bind_res (throw_if (\<not> truthy (ENV_SHIELDED_POOL_ADDRESS env))
       ''v1.2 relay runtime requires explicit SHIELDED_POOL_ADDRESS'') (\<lambda>_.
     bind_res (throw_if (\<not> truthy (RELAYER_V1_2_WITHDRAW_SELECTOR env) \<or>
         \<not> hex_of_length 8 (the (RELAYER_V1_2_WITHDRAW_SELECTOR env)))
       ''v1.2 relay runtime requires RELAYER_V1_2_WITHDRAW_SELECTOR'') (\<lambda>_.
     bind_res (throw_if (RELAYER_V1_2_FEE_SOURCE env \<noteq> Some ''on-chain-feeBps'')
       ''v1.2 relay runtime requires RELAYER_V1_2_FEE_SOURCE=on-chain-feeBps'') (\<lambda>_.
     bind_res (of_throw (getAddress L (the (ENV_SHIELDED_POOL_ADDRESS env)))) (\<lambda>pool.
     let mainnet = (RELAYER_ENVIRONMENT env = Some MAINNET);
         chainId = (if mainnet then MEGAETH_MAINNET_CHAIN_ID else MEGAETH_TESTNET_CHAIN_ID) in
     bind_res (if mainnet then assertCurrentMainnetPublicArtifactBinding pool (RELAYER_V1_2_WITHDRAW_SELECTOR env)
         (or_default (ENV_MAINNET_RPC_URL env) REQUIRED_MAINNET_RPC_URL) (RELAYER_V1_2_FEE_SOURCE env)
         (MAINNET_RELAYER_PUBLIC_RUNTIME_SHA256 env) (MAINNET_RELAYER_TRUSTED_SETUP_SHA256 env)
       else Inr ()) (\<lambda>_. Inr
       \<lparr>rt_environment = the (RELAYER_ENVIRONMENT env), rt_chainId = chainId,
        rt_rpcUrl = (if mainnet then or_default (ENV_MAINNET_RPC_URL env) REQUIRED_MAINNET_RPC_URL
                     else or_default (ENV_TESTNET_RPC_URL env) MEGAETH_TESTNET_RPC_URL),
        rt_pool = pool,
        rt_policy = \<lparr>bp_allowedChainIds = [jsint chainId], bp_blockedChainIds = [],
          bp_allowMegaEthMainnet = Some mainnet, bp_allowedContracts = [pool],
          bp_allowedFunctionSelectors = [to_lower (the (RELAYER_V1_2_WITHDRAW_SELECTOR env))],
          bp_maxValueWei = 0, bp_maxGasLimit = MAX_GAS_LIMIT, bp_maxDeadlineSecondsFromNow = jsint 120\<rparr>,
        rt_relayValidationMode = Some V1_2_Unlinkable, rt_feePolicy = None,
        rt_feeSource = Some ''on-chain-feeBps''\<rparr>))))))"

definition buildRelayRuntime :: "relay_lib \<Rightarrow> worker_env \<Rightarrow> worker_failure + relay_runtime" where
  "buildRelayRuntime L env =
     (let environment = or_default (RELAYER_ENVIRONMENT env) TESTNET in
     bind_res (of_throw (getAddress L (or_default (ENV_SHIELDED_POOL_ADDRESS env) SHIELDED_POOL_ADDRESS))) (\<lambda>pool.
     if RELAYER_V1_2_FEE_SOURCE env \<noteq> None \<or> RELAYER_V1_2_WITHDRAW_SELECTOR env \<noteq> None
     then
       bind_res (if environment = MAINNET then
           bind_res (throw_if (MAINNET_RELAYER_APPROVED env \<noteq> Some ''true'')
             ''mainnet relayer requires MAINNET_RELAYER_APPROVED=true'') (\<lambda>_.
           assertCurrentMainnetPublicArtifactBinding pool (RELAYER_V1_2_WITHDRAW_SELECTOR env)
             (or_default (ENV_MAINNET_RPC_URL env) REQUIRED_MAINNET_RPC_URL) (RELAYER_V1_2_FEE_SOURCE env)
             (MAINNET_RELAYER_PUBLIC_RUNTIME_SHA256 env) (MAINNET_RELAYER_TRUSTED_SETUP_SHA256 env))
         else Inr ()) (\<lambda>_.
       buildV12RelayRuntimeForTest L (env\<lparr>RELAYER_ENVIRONMENT := Some environment\<rparr>))
     else if environment = MAINNET then
       bind_res (throw_if (MAINNET_RELAYER_APPROVED env \<noteq> Some ''true'')
         ''mainnet relayer requires MAINNET_RELAYER_APPROVED=true'') (\<lambda>_.
       bind_res (throw_if (\<not> truthy (ENV_SHIELDED_POOL_ADDRESS env))
         ''mainnet relayer requires explicit SHIELDED_POOL_ADDRESS'') (\<lambda>_.
       Inl (WorkerError (''mainnet relayer requires current public artifact selector binding RELAYER_V1_2_WITHDRAW_SELECTOR='' @
         REQUIRED_MAINNET_WITHDRAW_SELECTOR))))
     else
       bind_res (buildTestnetRelayPolicy L pool) (\<lambda>policy. Inr
         \<lparr>rt_environment = TESTNET, rt_chainId = MEGAETH_TESTNET_CHAIN_ID,
          rt_rpcUrl = or_default (ENV_TESTNET_RPC_URL env) MEGAETH_TESTNET_RPC_URL, rt_pool = pool,
          rt_policy = policy, rt_relayValidationMode = None, rt_feePolicy = None, rt_feeSource = None\<rparr>)))"

definition normalizeAddressForBinding :: "string \<Rightarrow> string \<Rightarrow> worker_failure + string" where
  "normalizeAddressForBinding v fieldName =
     (if length v = 42 \<and> to_lower (take 2 v) = ''0x'' \<and> list_all is_hex_char (drop 2 v)
      then Inr (''0x'' @ to_lower (drop 2 v))
      else Inl (WorkerError (fieldName @ '' must be an EVM address'')))"

definition assertRelayerSignerBinding :: "string \<Rightarrow> worker_env \<Rightarrow> string \<Rightarrow> worker_failure + unit" where
  "assertRelayerSignerBinding environment env signerAddress =
     (if environment \<noteq> MAINNET then Inr ()
      else
        bind_res (throw_if (\<not> truthy (WITHDRAWAL_RELAYER_ADDRESS env))
          ''mainnet relayer requires WITHDRAWAL_RELAYER_ADDRESS'') (\<lambda>_.
        bind_res (normalizeAddressForBinding (the (WITHDRAWAL_RELAYER_ADDRESS env)) ''WITHDRAWAL_RELAYER_ADDRESS'') (\<lambda>expected.
        bind_res (normalizeAddressForBinding REQUIRED_MAINNET_WITHDRAWAL_RELAYER_ADDRESS
          ''required mainnet withdrawal relayer address'') (\<lambda>required.
        bind_res (throw_if (expected \<noteq> required)
          ''mainnet relayer address must match approved withdrawal relayer'') (\<lambda>_.
        bind_res (normalizeAddressForBinding signerAddress ''signing relayer address'') (\<lambda>actual.
        throw_if (actual \<noteq> expected) ''mainnet relayer signer does not match WITHDRAWAL_RELAYER_ADDRESS''))))))"

text \<open>The bindings a runtime may use: absent ones are only allowed off mainnet.\<close>

definition resolve_binding :: "bool \<Rightarrow> string \<Rightarrow> string \<Rightarrow> worker_failure + bool" where
  "resolve_binding present environment message =
     (if present then Inr True
      else bind_res (throw_if (environment = MAINNET) message) (\<lambda>_. Inr False))"

definition resolveRelayIdempotencyStore :: "worker_env \<Rightarrow> string \<Rightarrow> worker_failure + bool" where
  "resolveRelayIdempotencyStore env environment =
     resolve_binding (has_idempotency_kv env) environment ''mainnet relayer requires RELAYER_IDEMPOTENCY_KV binding''"

definition resolveRelayRateLimitStore :: "worker_env \<Rightarrow> string \<Rightarrow> worker_failure + bool" where
  "resolveRelayRateLimitStore env environment =
     resolve_binding (has_rate_limit_kv env) environment ''mainnet relayer requires RELAYER_RATE_LIMIT_KV binding''"

definition resolveRelayNonceQueue :: "worker_env \<Rightarrow> string \<Rightarrow> worker_failure + bool" where
  "resolveRelayNonceQueue env environment =
     resolve_binding (has_nonce_queue env) environment
       ''mainnet relayer requires RELAYER_NONCE_QUEUE Durable Object binding''"

end
