(* ===== verification/Relayer_Worker.thy ===== *)
theory Relayer_Worker
  imports Relayer_Runtime
begin

text \<open>
  The request handler of the deployed relayer, second part of
  \<^verbatim>\<open>services/relayer-worker/src/index.ts\<close>. A request is its method, path, headers and body text.
  What the handler learns from outside while it runs (the signer's address, the chain, the clock,
  the answer to the transaction it sends) is a record \<open>outside\<close>, one field per use in the order of
  the code. The state is the two key-value namespaces and the list of transactions sent so far.

  The handler is cut where its effects are: \<open>admit\<close> runs up to the policy check of the estimated
  gas, \<open>record_pending\<close> writes the pending record, \<open>submit\<close> sends the transaction and records it. A
  request in progress is a \<open>stage\<close>; \<open>handleRelayRequest\<close> runs it through all of them. A transaction
  counts as sent once it is handed to \<open>sendTransaction\<close>, whatever that answers. The texts of the
  errors that the language and the calldata check throw are parameters.
\<close>

record worker_lib =
  wl_relay :: relay_lib
  throw_text :: "relay_throw \<Rightarrow> string"
  engine_text :: "engine_error \<Rightarrow> string"

record worker_request =
  rq_method :: string
  rq_pathname :: string
  rq_header :: "string \<Rightarrow> string option"
  rq_body :: string

text \<open>A call that may reject is \<open>Inl\<close> of the message, if the rejection is an \<open>Error\<close>.\<close>

record outside =
  o_account :: "string option + string"
  o_chainId :: "string option + int"
  o_readContract :: "string \<Rightarrow> string option + int"
  o_clock_fee :: int
  o_clock_policy :: int
  o_clock_rate :: int
  o_clock_idempotency :: int
  o_spent :: "string \<Rightarrow> string \<Rightarrow> string option + bool"
  o_gas :: "string option + int"
  o_clock_gas :: int
  o_send :: "string option + string"
  o_clock_submitted :: int

record transaction =
  tx_to :: string
  tx_value :: int
  tx_data :: string
  tx_gas :: int

record 's worker_world =
  w_rate :: 's
  w_idempotency :: 's
  w_sent :: "transaction list"

record response =
  rs_status :: int
  rs_body :: "json option"

definition of_library :: "string option + 'a \<Rightarrow> worker_failure + 'a" where
  "of_library r = (case r of Inl e \<Rightarrow> Inl (LibraryThrown e) | Inr a \<Rightarrow> Inr a)"

section \<open>Error messages\<close>

definition join_semicolon :: "string list \<Rightarrow> string" where
  "join_semicolon xs = (case xs of [] \<Rightarrow> [] | y # ys \<Rightarrow> y @ concat (map (\<lambda>z. ''; '' @ z) ys))"

fun broadcast_message :: "int \<Rightarrow> broadcast_error \<Rightarrow> string" where
  "broadcast_message chainId DeadlineWindowAboveCap = ''relay policy deadline window exceeds short-deadline cap''"
| "broadcast_message chainId ChainBlocked =
     ''chain '' @ dec_string chainId @ '' is blocked for relay broadcasting''"
| "broadcast_message chainId ValueNegative = ''transaction value must be nonnegative''"
| "broadcast_message chainId GasLimitNotPositive = ''gas limit must be positive''"
| "broadcast_message chainId DeadlineNotSafeInteger = ''relay request deadline must be a safe integer''"
| "broadcast_message chainId CurrentTimeInvalid = ''current time must be a nonnegative safe integer''"
| "broadcast_message chainId ChainNotAllowlisted = ''chain '' @ dec_string chainId @ '' is not allowlisted''"
| "broadcast_message chainId ContractNotAllowlisted = ''target contract is not allowlisted''"
| "broadcast_message chainId SelectorNotAllowlisted = ''function selector is not allowlisted''"
| "broadcast_message chainId (MainnetPolicyContract c) =
     ''mainnet relay policy includes non-production contract '' @ c"
| "broadcast_message chainId MainnetContractNotApproved =
     ''target contract is not approved for MegaETH mainnet production relayer''"
| "broadcast_message chainId (MainnetPolicySelector c) =
     ''mainnet relay policy includes non-production selector '' @ c"
| "broadcast_message chainId MainnetSelectorNotApproved =
     ''function selector is not approved for MegaETH mainnet production relayer''"
| "broadcast_message chainId ValueAboveMaximum = ''transaction value exceeds relay policy maximum''"
| "broadcast_message chainId GasAboveMaximum = ''gas limit exceeds relay policy maximum''"
| "broadcast_message chainId DeadlineExpired = ''relay request deadline is expired''"
| "broadcast_message chainId DeadlineTooFar = ''relay request deadline is too far in the future''"

text \<open>The message of what was thrown; \<open>None\<close> when it is no \<open>Error\<close>.\<close>

definition failure_message :: "worker_lib \<Rightarrow> worker_failure \<Rightarrow> string option" where
  "failure_message W f =
     (case f of
        WorkerError m \<Rightarrow> Some m
      | BroadcastRefused c es \<Rightarrow> Some (join_semicolon (map (broadcast_message c) es))
      | CalldataRefused es \<Rightarrow> Some (join_semicolon es)
      | Thrown t \<Rightarrow> Some (throw_text W t)
      | RateLimitThrown (RateLimitConfigNotPositive label) \<Rightarrow>
          Some (''relay rate limit '' @ label @ '' must be positive'')
      | LibraryThrown m \<Rightarrow> m
      | EngineThrown e \<Rightarrow> Some (engine_text W e))"

text \<open>\<open>message.replace(/0x[0-9a-fA-F]{64,}/g, "0x[redacted]")\<close>\<close>

function redact :: "string \<Rightarrow> string" where
  "redact [] = []"
| "redact (c # s) =
     (if starts_with ''0x'' (c # s) \<and> 64 \<le> length (takeWhile is_hex_char (drop 1 s))
      then ''0x[redacted]'' @ redact (dropWhile is_hex_char (drop 1 s))
      else c # redact s)"
  by pat_completeness auto
termination
  by (relation "measure length")
    (auto simp: le_imp_less_Suc length_dropWhile_le [THEN order.trans])

definition publicRelayErrorMessage :: "string option \<Rightarrow> string" where
  "publicRelayErrorMessage m = (case m of None \<Rightarrow> ''relay failed'' | Some t \<Rightarrow> redact t)"

definition json_response :: "json \<Rightarrow> int \<Rightarrow> response" where
  "json_response body status = \<lparr>rs_status = status, rs_body = Some body\<rparr>"

definition error_body :: "string \<Rightarrow> json" where
  "error_body m = JObj [(''ok'', JBool False), (''error'', JStr m)]"

definition failure_response :: "worker_lib \<Rightarrow> worker_failure \<Rightarrow> response" where
  "failure_response W f = json_response (error_body (publicRelayErrorMessage (failure_message W f))) 400"

definition not_found :: response where
  "not_found = json_response (error_body ''not found'') 404"

definition submitted_response :: "string \<Rightarrow> string \<Rightarrow> bool \<Rightarrow> response" where
  "submitted_response txHash relayer replay = json_response (JObj
     ([(''ok'', JBool True), (''scope'', JStr ''deployed-withdrawal-relayer''), (''txHash'', JStr txHash),
       (''relayer'', JStr relayer)] @ (if replay then [(''idempotentReplay'', JBool True)] else []))) 200"

section \<open>The request body\<close>

text \<open>\<open>body.to\<close> and the like: reading a property of \<open>null\<close> throws, of any other value it may be \<open>undefined\<close>.\<close>

definition member :: "json \<Rightarrow> string \<Rightarrow> worker_failure + json option" where
  "member body k = (if body = JNull then Inl (EngineThrown PropertyOfNull) else Inr (json_field body k))"

definition parseAddress :: "relay_lib \<Rightarrow> json option \<Rightarrow> string \<Rightarrow> worker_failure + string" where
  "parseAddress L v fieldName =
     (case v of Some (JStr s) \<Rightarrow> of_throw (getAddress L s)
      | _ \<Rightarrow> Inl (WorkerError (fieldName @ '' must be an EVM address'')))"

definition parseHex :: "json option \<Rightarrow> string \<Rightarrow> worker_failure + string" where
  "parseHex v fieldName =
     (case v of
        Some (JStr s) \<Rightarrow>
          if starts_with ''0x'' s \<and> list_all is_hex_char (drop 2 s) then Inr s
          else Inl (WorkerError (fieldName @ '' must be hex calldata''))
      | _ \<Rightarrow> Inl (WorkerError (fieldName @ '' must be hex calldata'')))"

text \<open>
  \<open>BigInt(v)\<close> of a JSON value: a number must be an integer, an array is converted to a string
  first, an object never is a number. A number inside an array whose text has a point or an
  exponent makes the whole text no integer, so it needs no printer.
\<close>

fun element_text :: "json \<Rightarrow> string option" where
  "element_text JNull = Some []"
| "element_text (JBool b) = Some (if b then ''true'' else ''false'')"
| "element_text (JNum n) = number_text n"
| "element_text (JStr s) = Some s"
| "element_text (JArr vs) = map_option join_comma (all_some (map element_text vs))"
| "element_text (JObj kvs) = Some ''[object Object]''"

fun json_bigint :: "json \<Rightarrow> int option" where
  "json_bigint JNull = None"
| "json_bigint (JBool b) = Some (if b then 1 else 0)"
| "json_bigint (JNum n) = (if is_integer n then Some (num_int n) else None)"
| "json_bigint (JStr s) = js_bigint s"
| "json_bigint (JArr vs) = (case element_text (JArr vs) of None \<Rightarrow> None | Some t \<Rightarrow> js_bigint t)"
| "json_bigint (JObj kvs) = None"

definition request_value :: "json option \<Rightarrow> worker_failure + int" where
  "request_value v =
     (case v of None \<Rightarrow> Inr 0
      | Some j \<Rightarrow> (case json_bigint j of None \<Rightarrow> Inl (EngineThrown (NotABigInt j))
          | Some i \<Rightarrow> Inr i))"

record normalized_request =
  nr_chainId :: int
  nr_to :: string
  nr_data :: string
  nr_valueWei :: int
  nr_deadlineEpochSeconds :: jsnum
  nr_withdrawal :: relay_call

definition validatePolicy ::
  "int \<Rightarrow> string \<Rightarrow> string \<Rightarrow> int \<Rightarrow> int \<Rightarrow> jsnum \<Rightarrow> broadcast_policy \<Rightarrow> int \<Rightarrow> worker_failure + unit" where
  "validatePolicy chainId to data valueWei gasLimit deadline policy now =
     (let decision = validateRelayBroadcastRequest
            \<lparr>bq_chainId = jsint chainId, bq_to = to, bq_data = data, bq_valueWei = valueWei,
             bq_gasLimit = gasLimit, bq_deadlineEpochSeconds = deadline\<rparr> policy (jsint now) in
      if \<not> rp_allowed decision then Inl (BroadcastRefused chainId (rp_errors decision)) else Inr ())"

definition validateWithdrawalCall :: "relay_lib \<Rightarrow> calldata_input \<Rightarrow> worker_failure + relay_call" where
  "validateWithdrawalCall L input =
     bind_res (of_throw (validateWithdrawalRelayCalldata L input)) (\<lambda>decision.
       case cv_decoded decision of
         None \<Rightarrow> Inl (CalldataRefused (cv_errors decision))
       | Some c \<Rightarrow> if \<not> cv_allowed decision then Inl (CalldataRefused (cv_errors decision)) else Inr c)"

definition withdrawal_input :: "relay_runtime \<Rightarrow> string \<Rightarrow> jsnum \<Rightarrow> string option \<Rightarrow> calldata_input" where
  "withdrawal_input runtime data deadline relayerAddress =
     \<lparr>ci_data = data, ci_chainId = jsint (rt_chainId runtime), ci_pool = rt_pool runtime,
      ci_relayValidationMode = rt_relayValidationMode runtime, ci_deadlineEpochSeconds = Some deadline,
      ci_expectedRelayer = relayerAddress, ci_expectedRelayerPolicyHash = None,
      ci_feePolicy = rt_feePolicy runtime\<rparr>"

definition safe_deadline :: "json option \<Rightarrow> worker_failure + jsnum" where
  "safe_deadline v =
     (case v of
        Some (JNum n) \<Rightarrow>
          if is_safe_integer n then Inr n
          else Inl (WorkerError ''relay request deadline must be a safe integer'')
      | _ \<Rightarrow> Inl (WorkerError ''relay request deadline must be a safe integer''))"

definition normalizeRelayRequest ::
  "relay_lib \<Rightarrow> json \<Rightarrow> relay_runtime \<Rightarrow> string option \<Rightarrow> int \<Rightarrow> worker_failure + normalized_request" where
  "normalizeRelayRequest L body runtime relayerAddress now =
     bind_res (member body ''to'') (\<lambda>to_field.
     bind_res (parseAddress L to_field ''to'') (\<lambda>to.
     bind_res (parseHex (json_field body ''data'') ''data'') (\<lambda>data.
     bind_res (request_value (json_field body ''value'')) (\<lambda>valueWei.
     bind_res (safe_deadline (json_field body ''deadlineEpochSeconds'')) (\<lambda>deadline.
     bind_res (throw_if (json_field body ''chainId'' \<noteq> Some (JNum (jsint (rt_chainId runtime))))
       (''relayer only supports '' @ rt_environment runtime)) (\<lambda>_.
     bind_res (throw_if (to_lower to \<noteq> to_lower (rt_pool runtime))
       ''relayer only submits transactions to the configured shielded pool'') (\<lambda>_.
     bind_res (throw_if (valueWei \<noteq> 0) ''relayer refuses value-bearing transactions'') (\<lambda>_.
     bind_res (validatePolicy (rt_chainId runtime) to data valueWei 1 deadline (rt_policy runtime) now) (\<lambda>_.
     bind_res (validateWithdrawalCall L (withdrawal_input runtime data deadline relayerAddress)) (\<lambda>withdrawal.
     Inr \<lparr>nr_chainId = rt_chainId runtime, nr_to = to, nr_data = data, nr_valueWei = valueWei,
          nr_deadlineEpochSeconds = deadline, nr_withdrawal = withdrawal\<rparr>))))))))))"

section \<open>Checks against the chain\<close>

definition resolveRelayRuntimeFeePolicy :: "relay_runtime \<Rightarrow> outside \<Rightarrow> worker_failure + relay_runtime" where
  "resolveRelayRuntimeFeePolicy runtime out =
     (if rt_feeSource runtime \<noteq> Some ''on-chain-feeBps'' then Inr runtime
      else
        bind_res (of_library (o_readContract out ''feeBps'')) (\<lambda>active.
        bind_res (of_library (o_readContract out ''MAX_FEE_BPS'')) (\<lambda>maxFee.
        bind_res (of_library (o_readContract out ''pendingFeeBps'')) (\<lambda>pending.
        bind_res (of_library (o_readContract out ''pendingFeeActivationTime'')) (\<lambda>activation.
        bind_res (throw_if (maxFee \<noteq> 100) ''v1.2 relayer requires MAX_FEE_BPS=100'') (\<lambda>_.
        bind_res (throw_if (active > maxFee \<or> pending > maxFee)
          ''v1.2 relayer fee policy exceeds MAX_FEE_BPS'') (\<lambda>_.
        bind_res (throw_if ((pending = 0) \<noteq> (activation = 0))
          ''v1.2 relayer pending fee state is inconsistent'') (\<lambda>_.
        bind_res (throw_if (activation \<noteq> 0 \<and> activation \<le> o_clock_fee out)
          ''v1.2 relayer pending fee is active and must be executed before relaying'') (\<lambda>_.
        Inr (runtime\<lparr>rt_feePolicy := Some
          \<lparr>activeFeeBps = active, pendingFeeBps = (if pending = 0 then None else Some pending),
           pendingFeeActivationEpochSeconds = (if activation = 0 then None else Some activation),
           fp_nowEpochSeconds = Some (o_clock_fee out)\<rparr>\<rparr>))))))))))"

definition getClientIp :: "worker_request \<Rightarrow> string" where
  "getClientIp r =
     (if truthy (rq_header r ''cf-connecting-ip'') then the (rq_header r ''cf-connecting-ip'')
      else case rq_header r ''x-forwarded-for'' of None \<Rightarrow> ''unknown''
        | Some s \<Rightarrow> (let ip = js_trim (takeWhile (\<lambda>c. c \<noteq> CHR '','') s) in
            if ip = [] then ''unknown'' else ip))"

definition comma_space :: "string list \<Rightarrow> string" where
  "comma_space xs = (case xs of [] \<Rightarrow> [] | y # ys \<Rightarrow> y @ concat (map (\<lambda>z. '', '' @ z) ys))"

definition assertRelayRateLimit ::
  "'s kv_api \<Rightarrow> 's \<Rightarrow> worker_request \<Rightarrow> relay_runtime \<Rightarrow> normalized_request \<Rightarrow> int \<Rightarrow> 's \<times> (worker_failure + unit)" where
  "assertRelayRateLimit kv s request runtime n now =
     (case checkAndRecordRelayRateLimit kv RELAY_RATE_LIMIT_CONFIG
        \<lparr>rl_chainId = rt_chainId runtime, rl_pool = rt_pool runtime, rl_ip = getClientIp request,
         rl_destination = call_destination (nr_withdrawal n), rl_nullifier = call_nullifier (nr_withdrawal n),
         rl_nowEpochSeconds = now\<rparr> s of
        Inl e \<Rightarrow> (s, Inl (RateLimitThrown e))
      | Inr (d, s') \<Rightarrow> (s', throw_if (\<not> rl_allowed d)
          (''relay rate limit exceeded: '' @ comma_space (rl_exceeded d))))"

definition assertWithdrawalNullifierUnspent :: "outside \<Rightarrow> string \<Rightarrow> string \<Rightarrow> worker_failure + unit" where
  "assertWithdrawalNullifierUnspent out pool nullifier =
     bind_res (of_library (o_spent out pool nullifier)) (\<lambda>spent. throw_if spent ''withdrawal nullifier already spent on-chain'')"

definition relayIdempotencyResponse :: "idempotency_decision option \<Rightarrow> string \<Rightarrow> response option" where
  "relayIdempotencyResponse decision relayerAddress =
     (case decision of
        None \<Rightarrow> None
      | Some (Ready p) \<Rightarrow> None
      | Some (SubmittedRecord r) \<Rightarrow> Some (submitted_response (the (rr_txHash r)) relayerAddress True)
      | Some (PendingRecord r) \<Rightarrow>
          Some (json_response (error_body ''relay request already pending for this nullifier'') 409)
      | Some Conflict \<Rightarrow>
          Some (json_response (error_body ''withdrawal nullifier already has a different relay request recorded'') 409))"

section \<open>The handler\<close>

record ready_request =
  rd_account :: string
  rd_request :: normalized_request
  rd_gas :: int
  rd_prepared :: "idempotency_prepared option"

datatype stage = Received | Admitted ready_request | Recorded ready_request | Finished response

definition environment_message :: "relay_runtime \<Rightarrow> int \<Rightarrow> string" where
  "environment_message runtime chainId =
     ''Relayer expected '' @ rt_environment runtime @ '' chain '' @ dec_string (rt_chainId runtime) @
     ''; got '' @ dec_string chainId @ ''.''"

text \<open>Up to the normalized request; \<open>None\<close> answers 404.\<close>

definition accept_request ::
  "relay_lib \<Rightarrow> worker_env \<Rightarrow> worker_request \<Rightarrow> outside
     \<Rightarrow> worker_failure + (string \<times> relay_runtime \<times> normalized_request) option" where
  "accept_request L env request out =
     bind_res (buildRelayRuntime L env) (\<lambda>runtime.
     if \<not> isRelayEndpointPath (rq_pathname request) (rt_environment runtime) then Inr None
     else
       bind_res (case json_parse (rq_body request) of
           None \<Rightarrow> Inl (EngineThrown (JsonSyntax (rq_body request))) | Some body \<Rightarrow> Inr body) (\<lambda>body.
       bind_res (of_library (o_account out)) (\<lambda>account.
       bind_res (assertRelayerSignerBinding (rt_environment runtime) env account) (\<lambda>_.
       bind_res (of_library (o_chainId out)) (\<lambda>chainId.
       bind_res (throw_if (chainId \<noteq> rt_chainId runtime) (environment_message runtime chainId)) (\<lambda>_.
       bind_res (resolveRelayRuntimeFeePolicy runtime out) (\<lambda>feeAwareRuntime.
       bind_res (normalizeRelayRequest L body feeAwareRuntime (Some account) (o_clock_policy out)) (\<lambda>normalized.
       Inr (Some (account, feeAwareRuntime, normalized))))))))))"

definition check_rate_limit ::
  "'s kv_api \<Rightarrow> worker_env \<Rightarrow> worker_request \<Rightarrow> relay_runtime \<Rightarrow> normalized_request \<Rightarrow> int \<Rightarrow> 's
     \<Rightarrow> 's \<times> (worker_failure + unit)" where
  "check_rate_limit kv env request runtime n now s =
     (case resolveRelayRateLimitStore env (rt_environment runtime) of
        Inl f \<Rightarrow> (s, Inl f)
      | Inr present \<Rightarrow> if present then assertRelayRateLimit kv s request runtime n now else (s, Inr ()))"

definition decide_idempotency ::
  "'s kv_api \<Rightarrow> relay_lib \<Rightarrow> bool \<Rightarrow> 's \<Rightarrow> relay_runtime \<Rightarrow> normalized_request \<Rightarrow> int \<Rightarrow> idempotency_decision option" where
  "decide_idempotency kv L present s runtime n now =
     (if \<not> present then None
      else Some (prepareRelayIdempotency kv (keccak (rl_viem L)) s
        \<lparr>ii_chainId = nr_chainId n, ii_pool = rt_pool runtime, ii_nullifier = call_nullifier (nr_withdrawal n),
         ii_calldata = nr_data n, ii_nowEpochSeconds = now\<rparr>))"

definition prepared_of :: "idempotency_decision option \<Rightarrow> idempotency_prepared option" where
  "prepared_of decision = (case decision of Some (Ready p) \<Rightarrow> Some p | _ \<Rightarrow> None)"

definition padded_gas :: "int \<Rightarrow> int" where
  "padded_gas estimated = estimated + bigint_div estimated 5 + 100000"

definition check_transaction ::
  "outside \<Rightarrow> string \<Rightarrow> relay_runtime \<Rightarrow> normalized_request \<Rightarrow> idempotency_prepared option \<Rightarrow> worker_failure + ready_request" where
  "check_transaction out account runtime n prepared =
     bind_res (assertWithdrawalNullifierUnspent out (rt_pool runtime) (call_nullifier (nr_withdrawal n))) (\<lambda>_.
     bind_res (of_library (o_gas out)) (\<lambda>estimatedGas.
     bind_res (validatePolicy (nr_chainId n) (nr_to n) (nr_data n) (nr_valueWei n) (padded_gas estimatedGas)
       (nr_deadlineEpochSeconds n) (rt_policy runtime) (o_clock_gas out)) (\<lambda>_.
     Inr \<lparr>rd_account = account, rd_request = n, rd_gas = padded_gas estimatedGas, rd_prepared = prepared\<rparr>)))"

definition check_idempotency ::
  "'s kv_api \<Rightarrow> relay_lib \<Rightarrow> worker_env \<Rightarrow> outside \<Rightarrow> 's \<Rightarrow> string \<Rightarrow> relay_runtime \<Rightarrow> normalized_request
     \<Rightarrow> worker_failure + stage" where
  "check_idempotency kv L env out s account runtime n =
     bind_res (resolveRelayIdempotencyStore env (rt_environment runtime)) (\<lambda>present.
     let decision = decide_idempotency kv L present s runtime n (o_clock_idempotency out) in
     case relayIdempotencyResponse decision account of
       Some r \<Rightarrow> Inr (Finished r)
     | None \<Rightarrow> bind_res (check_transaction out account runtime n (prepared_of decision)) (\<lambda>rd. Inr (Admitted rd)))"

definition or_failed :: "worker_lib \<Rightarrow> worker_failure + stage \<Rightarrow> stage" where
  "or_failed W r = (case r of Inl f \<Rightarrow> Finished (failure_response W f) | Inr st \<Rightarrow> st)"

definition admit ::
  "worker_lib \<Rightarrow> 's kv_api \<Rightarrow> worker_env \<Rightarrow> worker_request \<Rightarrow> outside \<Rightarrow> 's worker_world
     \<Rightarrow> 's worker_world \<times> stage" where
  "admit W kv env request out w =
     (if rq_method request = ''OPTIONS'' then (w, Finished \<lparr>rs_status = 204, rs_body = None\<rparr>)
      else if rq_method request \<noteq> ''POST'' then (w, Finished not_found)
      else case accept_request (wl_relay W) env request out of
          Inl f \<Rightarrow> (w, Finished (failure_response W f))
        | Inr None \<Rightarrow> (w, Finished not_found)
        | Inr (Some (account, runtime, n)) \<Rightarrow>
            (case check_rate_limit kv env request runtime n (o_clock_rate out) (w_rate w) of
               (s, Inl f) \<Rightarrow> (w\<lparr>w_rate := s\<rparr>, Finished (failure_response W f))
             | (s, Inr _) \<Rightarrow> (w\<lparr>w_rate := s\<rparr>,
                 or_failed W (check_idempotency kv (wl_relay W) env out (w_idempotency w) account runtime n))))"

definition record_pending :: "'s kv_api \<Rightarrow> ready_request \<Rightarrow> 's worker_world \<Rightarrow> 's worker_world" where
  "record_pending kv rd w =
     (case rd_prepared rd of None \<Rightarrow> w
      | Some p \<Rightarrow> w\<lparr>w_idempotency := snd (recordRelayPending kv (w_idempotency w) p)\<rparr>)"

definition ready_transaction :: "ready_request \<Rightarrow> transaction" where
  "ready_transaction rd = \<lparr>tx_to = nr_to (rd_request rd), tx_value = 0, tx_data = nr_data (rd_request rd),
     tx_gas = rd_gas rd\<rparr>"

definition submit ::
  "worker_lib \<Rightarrow> 's kv_api \<Rightarrow> outside \<Rightarrow> ready_request \<Rightarrow> 's worker_world \<Rightarrow> 's worker_world \<times> stage" where
  "submit W kv out rd w =
     (let sent = w\<lparr>w_sent := w_sent w @ [ready_transaction rd]\<rparr> in
      case o_send out of
        Inl e \<Rightarrow> (sent, Finished (failure_response W (LibraryThrown e)))
      | Inr txHash \<Rightarrow>
          ((case rd_prepared rd of None \<Rightarrow> sent
            | Some p \<Rightarrow> sent\<lparr>w_idempotency :=
                snd (recordRelaySubmitted kv (w_idempotency sent) p txHash (o_clock_submitted out))\<rparr>),
           Finished (submitted_response txHash (rd_account rd) False)))"

fun stage_step ::
  "worker_lib \<Rightarrow> 's kv_api \<Rightarrow> worker_env \<Rightarrow> worker_request \<times> outside \<Rightarrow> 's worker_world \<times> stage
     \<Rightarrow> 's worker_world \<times> stage" where
  "stage_step W kv env (request, out) (w, Received) = admit W kv env request out w"
| "stage_step W kv env (request, out) (w, Admitted rd) = (record_pending kv rd w, Recorded rd)"
| "stage_step W kv env (request, out) (w, Recorded rd) = submit W kv out rd w"
| "stage_step W kv env (request, out) (w, Finished r) = (w, Finished r)"

text \<open>\<open>handleRelayRequest\<close> without interleaving: at most three steps lead to an answer.\<close>

definition stage_answer :: "stage \<Rightarrow> response option" where
  "stage_answer st = (case st of Finished r \<Rightarrow> Some r | _ \<Rightarrow> None)"

definition handleRelayRequest ::
  "worker_lib \<Rightarrow> 's kv_api \<Rightarrow> worker_env \<Rightarrow> worker_request \<times> outside \<Rightarrow> 's worker_world
     \<Rightarrow> 's worker_world \<times> response option" where
  "handleRelayRequest W kv env r w =
     (case (stage_step W kv env r ^^ 3) (w, Received) of (w', st) \<Rightarrow> (w', stage_answer st))"

section \<open>The nonce queue\<close>

datatype routing = Direct | Queued string | Refused response

definition route_request :: "relay_lib \<Rightarrow> worker_env \<Rightarrow> worker_request \<Rightarrow> outside \<Rightarrow> worker_failure + string option" where
  "route_request L env request out =
     bind_res (buildRelayRuntime L env) (\<lambda>runtime.
     if \<not> isRelayEndpointPath (rq_pathname request) (rt_environment runtime) then Inr None
     else
       bind_res (of_library (o_account out)) (\<lambda>account.
       bind_res (assertRelayerSignerBinding (rt_environment runtime) env account) (\<lambda>_.
       bind_res (resolveRelayNonceQueue env (rt_environment runtime)) (\<lambda>present.
       Inr (if present
            then Some (''relayer:'' @ dec_string (rt_chainId runtime) @ '':'' @ to_lower (rt_pool runtime))
            else None)))))"

definition queueMainnetRelayRequestIfNeeded :: "worker_lib \<Rightarrow> worker_env \<Rightarrow> worker_request \<Rightarrow> outside \<Rightarrow> routing" where
  "queueMainnetRelayRequestIfNeeded W env request out =
     (if rq_method request = ''OPTIONS'' \<or> rq_header request ''x-relayer-nonce-queue'' = Some ''1'' then Direct
      else if rq_method request \<noteq> ''POST'' then Direct
      else case route_request (wl_relay W) env request out of
          Inl f \<Rightarrow> Refused (failure_response W f)
        | Inr None \<Rightarrow> Direct
        | Inr (Some queue) \<Rightarrow> Queued queue)"

end
