(* ===== verification/Relayer_Guarantees.thy ===== *)
theory Relayer_Guarantees
  imports Relayer_Worker Relay_Bindings
begin

text \<open>
  What the relayer worker guarantees of a single request: a mainnet runtime is pinned to the
  approved deployment, a transaction is only sent after every check has passed, and no error
  message carries a long hex string.
\<close>

section \<open>Taking a successful run apart\<close>

lemma of_throw_Inr [res_simps]: "of_throw r = Inr a \<longleftrightarrow> r = Inr a"
  by (cases r) (simp_all add: of_throw_def)

lemma of_library_Inr [res_simps]: "of_library r = Inr a \<longleftrightarrow> r = Inr a"
  by (cases r) (simp_all add: of_library_def)

lemma throw_if_Inr [res_simps]: "throw_if c m = Inr u \<longleftrightarrow> \<not> c"
  by (simp add: throw_if_def)

section \<open>The runtime\<close>

lemma hash_bindingD:
  "assertMainnetRelayerHashBinding v expected name path = Inr u \<Longrightarrow> normalizeSha256Binding v = Some expected"
  by (auto simp: assertMainnetRelayerHashBinding_def res_simps split: option.splits)

text \<open>What the artifact binding of a mainnet runtime has checked.\<close>

lemma artifact_bindingD:
  assumes "assertCurrentMainnetPublicArtifactBinding pool selector rpc feeSource h1 h2 = Inr u"
  shows "to_lower pool = to_lower REQUIRED_MAINNET_SHIELDED_POOL_ADDRESS"
    "\<exists>s. selector = Some s \<and> to_lower s = REQUIRED_MAINNET_WITHDRAW_SELECTOR"
    "rpc = REQUIRED_MAINNET_RPC_URL" "feeSource = Some ''on-chain-feeBps''"
    "normalizeSha256Binding h1 = Some REQUIRED_MAINNET_PUBLIC_RUNTIME_SHA256"
    "normalizeSha256Binding h2 = Some REQUIRED_MAINNET_TRUSTED_SETUP_SHA256"
    "\<not> isObviousPlaceholderAddress pool"
  using assms
  by (auto simp: assertCurrentMainnetPublicArtifactBinding_def assertCurrentMainnetPool_def
      assertV12MainnetPoolHasFinalReadinessEvidence_def res_simps dest: hash_bindingD)

lemma or_default_Some [simp]: "or_default (Some a) d = a"
  by (simp add: or_default_def)

lemma address_binding_Inr:
  "normalizeAddressForBinding v f = Inr a \<Longrightarrow> to_lower v = to_lower a"
proof -
  assume "normalizeAddressForBinding v f = Inr a"
  then have v: "to_lower (take 2 v) = ''0x''" "a = ''0x'' @ to_lower (drop 2 v)"
    by (auto simp: normalizeAddressForBinding_def split: if_splits)
  have "to_lower v = to_lower (take 2 v @ drop 2 v)" by simp
  also have "\<dots> = ''0x'' @ to_lower (drop 2 v)" unfolding to_lower_append v(1) ..
  finally show ?thesis using v(2) by simp
qed

lemma testnet_policy:
  "buildTestnetRelayPolicy L pool = Inr p \<Longrightarrow> bp_allowedChainIds p = [jsint MEGAETH_TESTNET_CHAIN_ID] \<and>
     bp_maxGasLimit p = MAX_GAS_LIMIT \<and> bp_maxDeadlineSecondsFromNow p = jsint 120 \<and> bp_maxValueWei p = 0 \<and>
     (\<exists>a. get_address L pool = Some a \<and> bp_allowedContracts p = [a])"
  by (auto simp: buildTestnetRelayPolicy_def res_simps getAddress_Inr)

text \<open>The shape every runtime has, on either network.\<close>

lemma runtime_shape:
  assumes "buildRelayRuntime L env = Inr rt"
  shows "(rt_chainId rt = MEGAETH_TESTNET_CHAIN_ID \<or> rt_chainId rt = MEGAETH_MAINNET_CHAIN_ID) \<and>
    bp_allowedChainIds (rt_policy rt) = [jsint (rt_chainId rt)] \<and> bp_maxGasLimit (rt_policy rt) = MAX_GAS_LIMIT \<and>
    bp_maxDeadlineSecondsFromNow (rt_policy rt) = jsint 120 \<and> bp_maxValueWei (rt_policy rt) = 0 \<and>
    rt_feePolicy rt = None \<and> (\<exists>a. get_address L a = Some (rt_pool rt))"
  using assms unfolding buildRelayRuntime_def Let_def
  apply (elim bind_resE)
  apply (split if_split_asm)
   apply (elim bind_resE)
   apply (unfold buildV12RelayRuntimeForTest_def Let_def)
   apply (elim bind_resE)
   apply (auto simp: res_simps getAddress_Inr) [1]
  apply (auto simp: res_simps getAddress_Inr split: if_splits dest: testnet_policy)
  done

text \<open>
  C8: A mainnet relayer runs against the approved deployment only: when a runtime is built for
  MegaETH mainnet, the operator has approved it, its pool, RPC endpoint and only selector are the
  approved ones, both artifact hashes of the environment are the pinned ones, calldata is checked
  in the unlinkable mode of version 1.2 with the fee read from the chain, the policy allows no
  value, 20 million gas and 120 seconds, and the only signer that passes is the approved relayer.
\<close>

theorem mainnet_runtime_pinned:
  assumes "buildRelayRuntime L env = Inr rt" "RELAYER_ENVIRONMENT env = Some MAINNET"
  shows "MAINNET_RELAYER_APPROVED env = Some ''true'' \<and>
    to_lower (rt_pool rt) = to_lower REQUIRED_MAINNET_SHIELDED_POOL_ADDRESS \<and>
    rt_environment rt = MAINNET \<and> rt_chainId rt = MEGAETH_MAINNET_CHAIN_ID \<and> rt_rpcUrl rt = REQUIRED_MAINNET_RPC_URL \<and>
    normalizeSha256Binding (MAINNET_RELAYER_PUBLIC_RUNTIME_SHA256 env) = Some REQUIRED_MAINNET_PUBLIC_RUNTIME_SHA256 \<and>
    normalizeSha256Binding (MAINNET_RELAYER_TRUSTED_SETUP_SHA256 env) = Some REQUIRED_MAINNET_TRUSTED_SETUP_SHA256 \<and>
    rt_relayValidationMode rt = Some V1_2_Unlinkable \<and> rt_feeSource rt = Some ''on-chain-feeBps'' \<and>
    rt_policy rt = \<lparr>bp_allowedChainIds = [jsint MEGAETH_MAINNET_CHAIN_ID], bp_blockedChainIds = [],
      bp_allowMegaEthMainnet = Some True, bp_allowedContracts = [rt_pool rt],
      bp_allowedFunctionSelectors = [REQUIRED_MAINNET_WITHDRAW_SELECTOR], bp_maxValueWei = 0,
      bp_maxGasLimit = 20000000, bp_maxDeadlineSecondsFromNow = jsint 120\<rparr> \<and>
    (\<forall>signer u. assertRelayerSignerBinding (rt_environment rt) env signer = Inr u \<longrightarrow>
       to_lower signer = to_lower REQUIRED_MAINNET_WITHDRAWAL_RELAYER_ADDRESS)"
proof -
  have signer: "to_lower signer = to_lower REQUIRED_MAINNET_WITHDRAWAL_RELAYER_ADDRESS"
    if "assertRelayerSignerBinding MAINNET env signer = Inr u" for signer u
    using that by (auto simp: assertRelayerSignerBinding_def res_simps dest!: address_binding_Inr)
  show ?thesis
    using assms(1) unfolding buildRelayRuntime_def Let_def assms(2) or_default_Some
    apply (elim bind_resE)
    apply (split if_split_asm)
     apply (unfold buildV12RelayRuntimeForTest_def Let_def if_P [OF refl])
     apply (elim bind_resE)
     using signer assms(2)
     apply (auto simp: res_simps MAX_GAS_LIMIT_def dest: artifact_bindingD(1,2,3,5,6)) [1]
    apply (simp add: res_simps)
    done
qed

section \<open>Answers\<close>

definition long_hex :: "string \<Rightarrow> bool" where
  "long_hex s \<longleftrightarrow> starts_with ''0x'' s \<and> 64 \<le> length (takeWhile is_hex_char (drop 2 s))"

fun contains_long_hex :: "string \<Rightarrow> bool" where
  "contains_long_hex [] = False"
| "contains_long_hex (c # s) = (long_hex (c # s) \<or> contains_long_hex s)"

lemma x_not_hex [simp]: "\<not> is_hex_char (CHR ''x'')"
  by (simp add: is_hex_char_def is_digit_def code_def)

lemma starts_0x_Cons: "starts_with ''0x'' (c # s) \<longleftrightarrow> c = CHR ''0'' \<and> (\<exists>t. s = CHR ''x'' # t)"
  by (cases s) (auto simp: starts_with_def)

lemma hex_prefix_redact: "takeWhile is_hex_char (redact s) = takeWhile is_hex_char s"
  by (induction s rule: redact.induct) (auto simp: starts_0x_Cons)

lemma redact_x: "redact s = CHR ''x'' # t \<Longrightarrow> \<exists>u. s = CHR ''x'' # u \<and> t = redact u"
  by (cases s) (auto split: if_splits)

lemma redact_clean: "\<not> contains_long_hex (redact s)"
proof (induction s rule: redact.induct)
  case 1
  then show ?case by simp
next
  case (2 c s)
  show ?case
  proof (cases "starts_with ''0x'' (c # s) \<and> 64 \<le> length (takeWhile is_hex_char (drop 1 s))")
    case True
    with "2.IH"(1) show ?thesis
      by (simp add: long_hex_def starts_0x_Cons is_hex_char_def is_digit_def code_def)
  next
    case False
    have "\<not> long_hex (c # redact s)"
    proof
      assume l: "long_hex (c # redact s)"
      then obtain t where t: "c = CHR ''0''" "redact s = CHR ''x'' # t"
        by (auto simp: long_hex_def starts_0x_Cons)
      then obtain u where u: "s = CHR ''x'' # u" "t = redact u"
        using redact_x by blast
      from l t u False show False
        by (simp add: long_hex_def starts_0x_Cons hex_prefix_redact)
    qed
    moreover have "redact (c # s) = c # redact s"
      by (simp only: redact.simps False if_False)
    ultimately show ?thesis
      using "2.IH"(2) [OF False] by simp
  qed
qed

text \<open>The answers the worker gives: 204 without a body, a submission, or an error text without long hex.\<close>

definition answer_ok :: "response \<Rightarrow> bool" where
  "answer_ok r \<longleftrightarrow> r = \<lparr>rs_status = 204, rs_body = None\<rparr> \<or>
     (rs_status r = 200 \<and> (\<exists>b h a. rs_body r = Some b \<and> json_field b ''ok'' = Some (JBool True) \<and>
        json_field b ''txHash'' = Some (JStr h) \<and> json_field b ''relayer'' = Some (JStr a))) \<or>
     (rs_status r \<in> {400, 404, 409} \<and> (\<exists>m. rs_body r = Some (error_body m) \<and> \<not> contains_long_hex m))"

lemma fixed_texts: "\<not> contains_long_hex ''relay failed''" "\<not> contains_long_hex ''not found''"
  "\<not> contains_long_hex ''relay request already pending for this nullifier''"
  "\<not> contains_long_hex ''withdrawal nullifier already has a different relay request recorded''"
  by code_simp+

lemma answer_ok_error: "status \<in> {400, 404, 409} \<Longrightarrow> \<not> contains_long_hex m \<Longrightarrow>
    answer_ok (json_response (error_body m) status)"
  unfolding answer_ok_def json_response_def by force

lemma public_message_clean: "\<not> contains_long_hex (publicRelayErrorMessage m)"
  using redact_clean fixed_texts(1) by (cases m) (simp_all only: publicRelayErrorMessage_def option.case not_False_eq_True)

lemma answer_ok_intros [simp]: "answer_ok (failure_response W f)" "answer_ok not_found"
  "answer_ok (submitted_response h a replay)" "answer_ok \<lparr>rs_status = 204, rs_body = None\<rparr>"
  unfolding failure_response_def not_found_def
  using public_message_clean fixed_texts(2)
  by (auto intro!: answer_ok_error)
    (auto simp: answer_ok_def submitted_response_def json_response_def json_field_def)

lemma answer_ok_idempotency: "relayIdempotencyResponse d a = Some r \<Longrightarrow> answer_ok r"
  unfolding relayIdempotencyResponse_def
  using answer_ok_error [of 409] fixed_texts(3,4)
  by (auto simp del: contains_long_hex.simps split: option.splits idempotency_decision.splits)

definition stage_ok :: "stage \<Rightarrow> bool" where
  "stage_ok st \<longleftrightarrow> (case st of Finished r \<Rightarrow> answer_ok r | _ \<Rightarrow> True)"

lemma stage_ok_simps [simp]: "stage_ok Received" "stage_ok (Admitted rd)" "stage_ok (Recorded rd)"
  "stage_ok (Finished r) = answer_ok r"
  by (simp_all add: stage_ok_def)

lemma check_idempotency_ok: "check_idempotency kv L env out s account runtime n = Inr st \<Longrightarrow>
    stage_ok st \<and> ((\<exists>r. st = Finished r) \<or> (\<exists>rd. st = Admitted rd))"
proof -
  assume "check_idempotency kv L env out s account runtime n = Inr st"
  then obtain d where run: "(case relayIdempotencyResponse d account of Some r \<Rightarrow> Inr (Finished r)
    | None \<Rightarrow> bind_res (check_transaction out account runtime n (prepared_of d)) (\<lambda>rd. Inr (Admitted rd))) = Inr st"
    unfolding check_idempotency_def Let_def by (elim bind_resE) blast
  show ?thesis
  proof (cases "relayIdempotencyResponse d account")
    case None
    with run show ?thesis by (auto simp: res_simps)
  next
    case (Some r)
    with run answer_ok_idempotency [OF Some] show ?thesis by auto
  qed
qed

lemma or_failed_ok: "stage_ok (or_failed W (check_idempotency kv L env out s account runtime n)) \<and>
    ((\<exists>r. or_failed W (check_idempotency kv L env out s account runtime n) = Finished r) \<or>
     (\<exists>rd. or_failed W (check_idempotency kv L env out s account runtime n) = Admitted rd))"
  using check_idempotency_ok [of kv L env out s account runtime n]
  by (cases "check_idempotency kv L env out s account runtime n") (auto simp: or_failed_def)

lemma admit_ok: "stage_ok (snd (admit W kv env request out w)) \<and>
    ((\<exists>r. snd (admit W kv env request out w) = Finished r) \<or> (\<exists>rd. snd (admit W kv env request out w) = Admitted rd))"
  by (simp add: admit_def or_failed_ok split: sum.split option.split prod.split)

lemma submit_finished: "\<exists>r. snd (submit W kv out rd w) = Finished r \<and> answer_ok r"
  by (auto simp: submit_def Let_def split: sum.splits)

text \<open>From any stage three steps reach an answer, and answers keep their form.\<close>

lemma three_steps:
  assumes "stage_ok st"
  shows "\<exists>w' r. (stage_step W kv env (q, out) ^^ 3) (w, st) = (w', Finished r) \<and> answer_ok r"
proof -
  have stop: "(stage_step W kv env (q, out) ^^ k) (v, Finished r) = (v, Finished r)" for k v r
    by (induction k) simp_all
  have sub: "\<exists>v' r. (stage_step W kv env (q, out) ^^ Suc k) (v, Recorded rd) = (v', Finished r) \<and> answer_ok r" for k v rd
    using submit_finished [of W kv out rd v]
    by (cases "submit W kv out rd v") (auto simp: funpow_Suc_right stop simp del: funpow.simps)
  have rec: "\<exists>v' r. (stage_step W kv env (q, out) ^^ Suc (Suc k)) (v, Admitted rd) = (v', Finished r) \<and> answer_ok r" for k v rd
    using sub [of k "record_pending kv rd v" rd]
    by (simp only: funpow_Suc_right [of "Suc k"] o_apply stage_step.simps)
  show ?thesis
  proof (cases st)
    case Received
    obtain w1 st1 where a: "admit W kv env q out w = (w1, st1)" by fastforce
    then have "stage_ok st1" "st1 \<noteq> Received" "\<And>rd. st1 \<noteq> Recorded rd"
      using admit_ok [of W kv env q out w] by auto
    then show ?thesis
      using rec [of 0] stop [of 2] a Received
      by (cases st1) (auto simp: numeral_3_eq_3 numeral_2_eq_2 funpow_Suc_right simp del: funpow.simps)
  next
    case (Admitted rd)
    then show ?thesis using rec [of 1 w rd] by (simp add: numeral_3_eq_3)
  next
    case (Recorded rd)
    then show ?thesis using sub [of 2 w rd] by (simp add: numeral_3_eq_3 numeral_2_eq_2)
  next
    case (Finished r)
    with assms show ?thesis using stop [of 3] by simp
  qed
qed

text \<open>
  C15: Every request is answered, and no error answer carries a long hex string: whatever the
  environment, the body, the chain and the stores do, the handler ends with 204 and no body, with a
  submission that names its hash and the relayer, or with 400, 404 or 409 and an error text in
  which no \<open>0x\<close> is followed by 64 hex digits, so neither a key nor calldata is echoed.
\<close>

theorem relayer_answers:
  "\<exists>w' r. handleRelayRequest W kv env q w = (w', Some r) \<and> answer_ok r"
proof -
  obtain request out where q: "q = (request, out)" by fastforce
  obtain w' r where "(stage_step W kv env (request, out) ^^ 3) (w, Received) = (w', Finished r)" "answer_ok r"
    using three_steps [of Received] by (metis stage_ok_simps(1))
  then show ?thesis
    by (simp add: handleRelayRequest_def q stage_answer_def)
qed

section \<open>What an admitted request has passed\<close>

lemma admittedE:
  assumes "admit W kv env request out w = (w', Admitted rd)"
  obtains account runtime n present decision s where
    "rq_method request = ''POST''" "accept_request (wl_relay W) env request out = Inr (Some (account, runtime, n))"
    "check_rate_limit kv env request runtime n (o_clock_rate out) (w_rate w) = (s, Inr ())" "w' = w\<lparr>w_rate := s\<rparr>"
    "resolveRelayIdempotencyStore env (rt_environment runtime) = Inr present"
    "decision = decide_idempotency kv (wl_relay W) present (w_idempotency w) runtime n (o_clock_idempotency out)"
    "relayIdempotencyResponse decision account = None"
    "check_transaction out account runtime n (prepared_of decision) = Inr rd"
proof -
  obtain account runtime n s where a: "rq_method request = ''POST''"
    "accept_request (wl_relay W) env request out = Inr (Some (account, runtime, n))"
    "check_rate_limit kv env request runtime n (o_clock_rate out) (w_rate w) = (s, Inr ())" "w' = w\<lparr>w_rate := s\<rparr>"
    "or_failed W (check_idempotency kv (wl_relay W) env out (w_idempotency w) account runtime n) = Admitted rd"
    using assms by (auto simp: admit_def split: if_splits sum.splits option.splits prod.splits)
  then have "check_idempotency kv (wl_relay W) env out (w_idempotency w) account runtime n = Inr (Admitted rd)"
    by (auto simp: or_failed_def split: sum.splits)
  then show ?thesis
    unfolding check_idempotency_def Let_def
    by (elim bind_resE) (auto simp: res_simps split: option.splits intro: that [OF a(1-4)])
qed

lemma acceptedE:
  assumes "accept_request L env request out = Inr (Some (account, runtime, n))"
  obtains rt body where "buildRelayRuntime L env = Inr rt" "isRelayEndpointPath (rq_pathname request) (rt_environment rt)"
    "json_parse (rq_body request) = Some body" "o_account out = Inr account"
    "assertRelayerSignerBinding (rt_environment rt) env account = Inr ()" "o_chainId out = Inr (rt_chainId rt)"
    "resolveRelayRuntimeFeePolicy rt out = Inr runtime"
    "normalizeRelayRequest L body runtime (Some account) (o_clock_policy out) = Inr n"
  using assms unfolding accept_request_def
  by (elim bind_resE) (auto simp: res_simps split: if_splits option.splits)

text \<open>The fee policy read from the chain only adds the policy to the runtime.\<close>

lemma fee_runtime:
  assumes "resolveRelayRuntimeFeePolicy rt out = Inr runtime"
  shows "\<exists>fee. runtime = rt\<lparr>rt_feePolicy := fee\<rparr> \<and>
    (rt_feeSource rt = Some ''on-chain-feeBps'' \<longrightarrow> (\<exists>p. fee = Some p \<and>
       o_readContract out ''feeBps'' = Inr (activeFeeBps p) \<and> activeFeeBps p \<le> 100 \<and>
       (\<forall>t. pendingFeeActivationEpochSeconds p = Some t \<longrightarrow> o_clock_fee out < t)))"
proof (cases "rt_feeSource rt = Some ''on-chain-feeBps''")
  case True
  with assms show ?thesis
    unfolding resolveRelayRuntimeFeePolicy_def by (auto simp: res_simps)
next
  case False
  with assms have "runtime = rt\<lparr>rt_feePolicy := rt_feePolicy rt\<rparr>"
    by (simp add: resolveRelayRuntimeFeePolicy_def)
  with False show ?thesis by blast
qed

lemma normalizedD:
  assumes "normalizeRelayRequest L body runtime account now = Inr n"
  shows "nr_chainId n = rt_chainId runtime" "to_lower (nr_to n) = to_lower (rt_pool runtime)" "nr_valueWei n = 0"
    "is_safe_integer (nr_deadlineEpochSeconds n)"
    "\<exists>v. validateWithdrawalRelayCalldata L
       (withdrawal_input runtime (nr_data n) (nr_deadlineEpochSeconds n) account) = Inr v \<and> cv_allowed v \<and>
       cv_decoded v = Some (nr_withdrawal n)"
proof -
  have "safe_deadline v = Inr d \<Longrightarrow> is_safe_integer d" for v d
    by (auto simp: safe_deadline_def split: option.splits json.splits if_splits)
  moreover have "validateWithdrawalCall L i = Inr c \<Longrightarrow>
      \<exists>v. validateWithdrawalRelayCalldata L i = Inr v \<and> cv_allowed v \<and> cv_decoded v = Some c" for i c
    by (auto simp: validateWithdrawalCall_def res_simps split: option.splits if_splits)
  ultimately show "nr_chainId n = rt_chainId runtime" "to_lower (nr_to n) = to_lower (rt_pool runtime)" "nr_valueWei n = 0"
    "is_safe_integer (nr_deadlineEpochSeconds n)"
    "\<exists>v. validateWithdrawalRelayCalldata L
       (withdrawal_input runtime (nr_data n) (nr_deadlineEpochSeconds n) account) = Inr v \<and> cv_allowed v \<and>
       cv_decoded v = Some (nr_withdrawal n)"
    using assms unfolding normalizeRelayRequest_def by (auto simp: res_simps)
qed

text \<open>What the policy check of a transaction leaves, for a window of whole seconds.\<close>

lemma policyD:
  assumes "validatePolicy chain to data v gas deadline policy now = Inr u" "is_safe_integer deadline"
    "bp_maxDeadlineSecondsFromNow policy = jsint window"
  shows "0 < gas" "gas \<le> bp_maxGasLimit policy" "selector_in (getFunctionSelector data) (bp_allowedFunctionSelectors policy)"
    "\<exists>d. deadline = jsint d \<and> now < d \<and> d \<le> now + window"
proof -
  obtain d where d: "deadline = jsint d" "\<bar>d\<bar> \<le> MAX_SAFE_INTEGER"
    using assms(2) by (rule is_safe_integerE)
  let ?q = "\<lparr>bq_chainId = jsint chain, bq_to = to, bq_data = data, bq_valueWei = v, bq_gasLimit = gas,
    bq_deadlineEpochSeconds = deadline\<rparr>"
  have e: "rp_errors (validateRelayBroadcastRequest ?q policy (jsint now)) = []"
    using assms(1) by (auto simp: validatePolicy_def Let_def allowed_iff split: if_splits)
  then show "0 < gas" "gas \<le> bp_maxGasLimit policy" "selector_in (getFunctionSelector data) (bp_allowedFunctionSelectors policy)"
    by (simp_all add: validateRelayBroadcastRequest_def Let_def)
  have "is_safe_integer (jsint now)" "\<not> num_le (jsint d) (jsint now)"
    "\<not> num_less (num_add (jsint now) (jsint window)) (jsint d)"
    using e assms(2) unfolding validateRelayBroadcastRequest_def Let_def d(1) assms(3)
    by (auto simp del: num_cmp_jsint)
  then have "\<exists>e. d = e \<and> now < e \<and> e \<le> now + window"
    unfolding num_cmp_jsint by auto
  then show "\<exists>d. deadline = jsint d \<and> now < d \<and> d \<le> now + window"
    using d(1) by blast
qed

text \<open>
  C3: Every transaction is checked before it can be sent: when a request is admitted, it was a POST
  to a relay path on the chain the runtime names, the pool reports its nullifier unspent, and the
  transaction goes to the pool without value, with a selector of the policy, gas of at most 20
  million and a deadline at most 120 seconds ahead; its calldata passed the relay's check under the
  fee policy read from the chain, a fee of at most 1% whose pending change is not active yet. Up
  to here nothing has been sent and no idempotency record written.
\<close>

theorem relayed_transaction_checked:
  assumes "admit W kv env request out w = (w', Admitted rd)"
  shows "\<exists>rt fee v d. buildRelayRuntime (wl_relay W) env = Inr rt \<and> rq_method request = ''POST'' \<and>
    isRelayEndpointPath (rq_pathname request) (rt_environment rt) \<and>
    assertRelayerSignerBinding (rt_environment rt) env (rd_account rd) = Inr () \<and>
    o_chainId out = Inr (rt_chainId rt) \<and>
    o_spent out (rt_pool rt) (call_nullifier (nr_withdrawal (rd_request rd))) = Inr False \<and>
    to_lower (tx_to (ready_transaction rd)) = to_lower (rt_pool rt) \<and> tx_value (ready_transaction rd) = 0 \<and>
    0 < tx_gas (ready_transaction rd) \<and> tx_gas (ready_transaction rd) \<le> 20000000 \<and>
    selector_in (getFunctionSelector (tx_data (ready_transaction rd))) (bp_allowedFunctionSelectors (rt_policy rt)) \<and>
    nr_deadlineEpochSeconds (rd_request rd) = jsint d \<and> o_clock_gas out < d \<and> d \<le> o_clock_gas out + 120 \<and>
    validateWithdrawalRelayCalldata (wl_relay W) (withdrawal_input (rt\<lparr>rt_feePolicy := fee\<rparr>)
      (tx_data (ready_transaction rd)) (jsint d) (Some (rd_account rd))) = Inr v \<and> cv_allowed v \<and>
    cv_decoded v = Some (nr_withdrawal (rd_request rd)) \<and>
    (rt_feeSource rt = Some ''on-chain-feeBps'' \<longrightarrow> (\<exists>p. fee = Some p \<and>
       o_readContract out ''feeBps'' = Inr (activeFeeBps p) \<and> activeFeeBps p \<le> 100 \<and>
       (\<forall>t. pendingFeeActivationEpochSeconds p = Some t \<longrightarrow> o_clock_fee out < t))) \<and>
    w_sent w' = w_sent w \<and> w_idempotency w' = w_idempotency w"
proof -
  obtain account runtime n present decision s where a: "rq_method request = ''POST''"
    "accept_request (wl_relay W) env request out = Inr (Some (account, runtime, n))" "w' = w\<lparr>w_rate := s\<rparr>"
    and c: "check_transaction out account runtime n (prepared_of decision) = Inr rd"
    using admittedE [OF assms] by metis
  obtain rt body where rt: "buildRelayRuntime (wl_relay W) env = Inr rt"
    "isRelayEndpointPath (rq_pathname request) (rt_environment rt)"
    "assertRelayerSignerBinding (rt_environment rt) env account = Inr ()" "o_chainId out = Inr (rt_chainId rt)"
    and fee: "resolveRelayRuntimeFeePolicy rt out = Inr runtime"
    and norm: "normalizeRelayRequest (wl_relay W) body runtime (Some account) (o_clock_policy out) = Inr n"
    using acceptedE [OF a(2)] by metis
  obtain f where f: "runtime = rt\<lparr>rt_feePolicy := f\<rparr>" "rt_feeSource rt = Some ''on-chain-feeBps'' \<longrightarrow> (\<exists>p. f = Some p \<and>
       o_readContract out ''feeBps'' = Inr (activeFeeBps p) \<and> activeFeeBps p \<le> 100 \<and>
       (\<forall>t. pendingFeeActivationEpochSeconds p = Some t \<longrightarrow> o_clock_fee out < t))"
    using fee_runtime [OF fee] by blast
  have rd: "rd_account rd = account" "rd_request rd = n" "o_spent out (rt_pool runtime) (call_nullifier (nr_withdrawal n)) = Inr False"
    and pol: "validatePolicy (nr_chainId n) (nr_to n) (nr_data n) (nr_valueWei n) (rd_gas rd) (nr_deadlineEpochSeconds n)
      (rt_policy runtime) (o_clock_gas out) = Inr ()"
    using c by (auto simp: check_transaction_def assertWithdrawalNullifierUnspent_def res_simps)
  have shape: "bp_maxGasLimit (rt_policy runtime) = 20000000" "bp_maxDeadlineSecondsFromNow (rt_policy runtime) = jsint 120"
    using runtime_shape [OF rt(1)] by (simp_all add: f(1) MAX_GAS_LIMIT_def)
  obtain v where v: "validateWithdrawalRelayCalldata (wl_relay W) (withdrawal_input runtime (nr_data n)
      (nr_deadlineEpochSeconds n) (Some account)) = Inr v" "cv_allowed v" "cv_decoded v = Some (nr_withdrawal n)"
    using normalizedD(5) [OF norm] by blast
  obtain d where d: "nr_deadlineEpochSeconds n = jsint d" "o_clock_gas out < d" "d \<le> o_clock_gas out + 120"
    using policyD(4) [OF pol normalizedD(4) [OF norm] shape(2)] by blast
  show ?thesis
    using a rt f(2) rd v d normalizedD(2) [OF norm] policyD(1-3) [OF pol normalizedD(4) [OF norm] shape(2)] shape(1)
    unfolding f(1)
    by (intro exI [of _ rt] exI [of _ f] exI [of _ v] exI [of _ d]) (simp add: ready_transaction_def)
qed

end
