(* ===== verification/Relayer_Queue.thy ===== *)
theory Relayer_Queue
  imports Relayer_Guarantees
begin

text \<open>
  Requests that overlap. The runtime runs handlers concurrently: one may stop at an effect and
  another go on. A system is the shared state, the handlers started directly by \<open>fetch\<close>, and the
  durable object \<open>RelayerNonceQueue\<close> with the requests waiting for its turn (its \<open>tail\<close> promise
  starts a handler only when the one before has ended, in success or failure); the environment fixes
  one queue id. The properties: behind the queue no note is sent twice; a client that sets the
  queue's own header bypasses it, and then it is; and the queue answers everything it holds.
\<close>

type_synonym arrival = "worker_request \<times> outside"

record 's relay_system =
  sy_world :: "'s worker_world"
  sy_direct :: "(arrival \<times> stage) list"
  sy_waiting :: "arrival list"
  sy_active :: "(arrival \<times> stage) option"
  sy_answered :: "response list"

definition idle_system :: "'s worker_world \<Rightarrow> 's relay_system" where
  "idle_system w = \<lparr>sy_world = w, sy_direct = [], sy_waiting = [], sy_active = None, sy_answered = []\<rparr>"

text \<open>One turn of the durable object: take the next request, run its handler one stage, or answer.\<close>

definition queue_turn :: "worker_lib \<Rightarrow> 's kv_api \<Rightarrow> worker_env \<Rightarrow> 's relay_system \<Rightarrow> 's relay_system" where
  "queue_turn W kv env sys =
     (case sy_active sys of
        None \<Rightarrow> (case sy_waiting sys of [] \<Rightarrow> sys
          | a # as \<Rightarrow> sys\<lparr>sy_active := Some (a, Received), sy_waiting := as\<rparr>)
      | Some (a, Finished r) \<Rightarrow> sys\<lparr>sy_active := None, sy_answered := sy_answered sys @ [r]\<rparr>
      | Some (a, st) \<Rightarrow> (case stage_step W kv env a (sy_world sys, st) of
          (w, st') \<Rightarrow> sys\<lparr>sy_world := w, sy_active := Some (a, st')\<rparr>))"

text \<open>Time passes for both namespaces.\<close>

definition pass_time :: "'s kv_time \<Rightarrow> int \<Rightarrow> 's worker_world \<Rightarrow> 's worker_world" where
  "pass_time T d w = w\<lparr>w_rate := kv_wait T (w_rate w) d, w_idempotency := kv_wait T (w_idempotency w) d\<rparr>"

inductive system_step ::
  "worker_lib \<Rightarrow> 's kv_api \<Rightarrow> 's kv_time \<Rightarrow> worker_env \<Rightarrow> arrival set \<Rightarrow> 's relay_system \<Rightarrow> 's relay_system \<Rightarrow> bool"
  for W :: worker_lib and kv :: "'s kv_api" and T :: "'s kv_time" and env :: worker_env and clients :: "arrival set" where
  ArriveDirect: "(request, out) \<in> clients \<Longrightarrow> queueMainnetRelayRequestIfNeeded W env request out = Direct \<Longrightarrow>
    system_step W kv T env clients sys (sys\<lparr>sy_direct := sy_direct sys @ [((request, out), Received)]\<rparr>)"
| ArriveQueued: "(request, out) \<in> clients \<Longrightarrow> queueMainnetRelayRequestIfNeeded W env request out = Queued q \<Longrightarrow>
    system_step W kv T env clients sys (sys\<lparr>sy_waiting := sy_waiting sys @ [(request, out)]\<rparr>)"
| DirectStep: "i < length (sy_direct sys) \<Longrightarrow> sy_direct sys ! i = (a, st) \<Longrightarrow>
    stage_step W kv env a (sy_world sys, st) = (w, st') \<Longrightarrow>
    system_step W kv T env clients sys (sys\<lparr>sy_world := w, sy_direct := (sy_direct sys)[i := (a, st')]\<rparr>)"
| QueueTurn: "system_step W kv T env clients sys (queue_turn W kv env sys)"
| Elapse: "0 \<le> d \<Longrightarrow> system_step W kv T env clients sys (sys\<lparr>sy_world := pass_time T d (sy_world sys)\<rparr>)"

inductive_cases system_stepE: "system_step W kv T env clients sys sys'"

section \<open>The note of a transaction\<close>

definition sent_nullifier :: "relay_lib \<Rightarrow> transaction \<Rightarrow> string option" where
  "sent_nullifier L tx = map_option call_nullifier (or_none (decodeWithdrawalRelayCall L (tx_data tx)))"

definition nullifier_key :: "relay_runtime \<Rightarrow> string \<Rightarrow> string" where
  "nullifier_key rt n =
     ''relay:'' @ dec_string (rt_chainId rt) @ '':'' @ to_lower (rt_pool rt) @ '':nullifier:'' @ to_lower n"

text \<open>The key of a note's record, in the runtime the environment builds.\<close>

definition note_key :: "relay_lib \<Rightarrow> worker_env \<Rightarrow> string \<Rightarrow> string" where
  "note_key L env n = (case buildRelayRuntime L env of Inl e \<Rightarrow> [] | Inr rt \<Rightarrow> nullifier_key rt n)"

text \<open>What is relied on of viem and of the wallet client: addresses and hashes are hex strings.\<close>

definition relay_lib_ok :: "relay_lib \<Rightarrow> bool" where
  "relay_lib_ok L \<longleftrightarrow> (\<forall>a c. get_address L a = Some c \<longrightarrow> isEvmAddress c) \<and> (\<forall>d. isHex (keccak (rl_viem L) d))"

definition outside_ok :: "outside \<Rightarrow> bool" where
  "outside_ok out \<longleftrightarrow> \<bar>o_clock_idempotency out\<bar> \<le> MAX_SAFE_INTEGER \<and> \<bar>o_clock_submitted out\<bar> \<le> MAX_SAFE_INTEGER \<and>
     (\<forall>h. o_send out = Inr h \<longrightarrow> isHex h)"

lemma validated_nullifier:
  assumes "validateWithdrawalRelayCalldata L input = Inr v" "cv_allowed v" "cv_decoded v = Some c"
  shows "\<exists>d. decodeWithdrawalRelayCall L (ci_data input) = Inr d \<and> call_nullifier d = call_nullifier c \<and>
    isHexBytes32 (call_nullifier c)"
proof (cases "decodeWithdrawalRelayCall L (ci_data input)")
  case (Inl e)
  with assms show ?thesis by (auto simp: validateWithdrawalRelayCalldata_def)
next
  case (Inr d)
  note shape = conjunct1 [OF decode_shape [OF Inr]]
  show ?thesis
  proof (cases "or_default (ci_relayValidationMode input) V1_1 = V1_2_Unlinkable")
    case True
    let ?c = "d\<lparr>call_relayValidationMode := Some V1_2_Unlinkable\<rparr>"
    have run: "validateV12UnlinkableWithdrawalRelayCall L input ?c = Inr v"
      using assms(1) Inr True by (simp add: validateWithdrawalRelayCalldata_def Let_def)
    obtain dest gross where f: "cv_decoded v = Some (v12_call ?c)" "v12_input_errors ?c dest gross = []"
      using validateV12_allowed [OF run assms(2)] by metis
    have len: "length (publicInputs d) = 10" "list_all isHexBytes32 (publicInputs d)"
      using f(2) by (auto simp: v12_input_errors_def split: if_splits)
    then have word: "isHexBytes32 (publicInputs d ! 1)"
      by (simp add: list_all_length)
    have "call_nullifier d = publicInputs d ! 1"
      using f(2) shape lower_nth [of "publicInputs d" 1] len
      by (simp add: v12_input_errors_def input_or_nth call_shape_def)
    with word Inr f(1) assms(3) show ?thesis by (auto simp: v12_call_def)
  next
    case False
    let ?c = "d\<lparr>call_relayValidationMode := Some (or_default (ci_relayValidationMode input) V1_1)\<rparr>"
    have run: "validateV11 L input ?c = Inr v"
      using assms(1) Inr False by (simp add: validateWithdrawalRelayCalldata_def Let_def)
    have "call_shape ?c" using shape by simp
    note facts = v11_facts [OF run assms(2) this]
    from facts(1,5) facts(4) [of 1] Inr assms(3) show ?thesis by auto
  qed
qed

text \<open>An admitted request carries the prepared record of its note, which is not recorded yet.\<close>

definition ready_ok :: "relay_lib \<Rightarrow> worker_env \<Rightarrow> ready_request \<Rightarrow> string \<Rightarrow> bool" where
  "ready_ok L env rd n \<longleftrightarrow> sent_nullifier L (ready_transaction rd) = Some n \<and>
     (\<exists>i p. input_ok (keccak (rl_viem L)) i \<and> rd_prepared rd = Some p \<and>
        p = buildRelayIdempotencyPrepared i (keccak (rl_viem L) (ii_calldata i)) \<and> ip_nullifierKey p = note_key L env n)"

lemma isHexBytes32_isHex: "isHexBytes32 s \<Longrightarrow> isHex s"
  by (auto simp: isHexBytes32_def hex_of_length_def isHex_def)

lemma isEvmAddress_isHex: "isEvmAddress s \<Longrightarrow> isHex s"
  by (auto simp: isEvmAddress_def hex_of_length_def isHex_def)

lemma idempotency_present:
  "has_idempotency_kv env \<Longrightarrow> resolveRelayIdempotencyStore env e = Inr present \<Longrightarrow> present"
  by (simp add: resolveRelayIdempotencyStore_def resolve_binding_def)

lemma no_answer_ready:
  "relayIdempotencyResponse (Some d) a = None \<Longrightarrow> \<exists>p. d = Ready p"
  by (cases d) (simp_all add: relayIdempotencyResponse_def)

lemma admitted_ready:
  assumes "admit W kv env request out w = (w', Admitted rd)" "relay_lib_ok (wl_relay W)" "outside_ok out"
    "has_idempotency_kv env"
  obtains n where "ready_ok (wl_relay W) env rd n"
    "readRelayIdempotencyRecord kv (w_idempotency w) (note_key (wl_relay W) env n) = None"
proof -
  let ?L = "wl_relay W" and ?k = "keccak (rl_viem (wl_relay W))"
  obtain account runtime n present decision s where a: "accept_request ?L env request out = Inr (Some (account, runtime, n))"
    "w' = w\<lparr>w_rate := s\<rparr>" "resolveRelayIdempotencyStore env (rt_environment runtime) = Inr present"
    and d: "decision = decide_idempotency kv ?L present (w_idempotency w) runtime n (o_clock_idempotency out)"
    "relayIdempotencyResponse decision account = None"
    and c: "check_transaction out account runtime n (prepared_of decision) = Inr rd"
    using admittedE [OF assms(1)] by metis
  obtain rt body where rt: "buildRelayRuntime ?L env = Inr rt"
    and fee: "resolveRelayRuntimeFeePolicy rt out = Inr runtime"
    and norm: "normalizeRelayRequest ?L body runtime (Some account) (o_clock_policy out) = Inr n"
    using acceptedE [OF a(1)] by metis
  obtain f where f: "runtime = rt\<lparr>rt_feePolicy := f\<rparr>"
    using fee_runtime [OF fee] by blast
  obtain v where v: "validateWithdrawalRelayCalldata ?L (withdrawal_input runtime (nr_data n)
      (nr_deadlineEpochSeconds n) (Some account)) = Inr v" "cv_allowed v" "cv_decoded v = Some (nr_withdrawal n)"
    using normalizedD(5) [OF norm] by blast
  let ?nul = "call_nullifier (nr_withdrawal n)"
  obtain dc where dc: "decodeWithdrawalRelayCall ?L (nr_data n) = Inr dc" "call_nullifier dc = ?nul" "isHexBytes32 ?nul"
    using validated_nullifier [OF v] by (auto simp: withdrawal_input_def)
  let ?i = "\<lparr>ii_chainId = nr_chainId n, ii_pool = rt_pool runtime, ii_nullifier = ?nul, ii_calldata = nr_data n,
    ii_nowEpochSeconds = o_clock_idempotency out\<rparr>"
  have present: present
    using idempotency_present [OF assms(4) a(3)] .
  then obtain p where p: "prepareRelayIdempotency kv ?k (w_idempotency w) ?i = Ready p" "decision = Some (Ready p)"
    using d no_answer_ready by (fastforce simp: decide_idempotency_def)
  note ready = prepare_Ready [OF p(1)]
  have rd: "rd_prepared rd = Some p" "rd_request rd = n"
    using c by (auto simp: check_transaction_def res_simps p(2) prepared_of_def)
  have chain: "nr_chainId n = rt_chainId rt" "\<bar>rt_chainId rt\<bar> \<le> MAX_SAFE_INTEGER"
    using normalizedD(1) [OF norm] runtime_shape [OF rt]
    by (auto simp: f MEGAETH_TESTNET_CHAIN_ID_def MEGAETH_MAINNET_CHAIN_ID_def MAX_SAFE_INTEGER_def)
  have pool: "isHex (rt_pool rt)"
    using runtime_shape [OF rt] assms(2) isEvmAddress_isHex unfolding relay_lib_ok_def by blast
  have "input_ok ?k ?i"
    using chain pool assms(2,3) dc(3)
    by (simp add: input_ok_def f isHexBytes32_isHex relay_lib_ok_def outside_ok_def)
  moreover have key: "ip_nullifierKey p = note_key ?L env ?nul"
    unfolding ready(1) by (simp add: buildRelayIdempotencyPrepared_def Let_def note_key_def rt nullifier_key_def chain f)
  moreover have "sent_nullifier ?L (ready_transaction rd) = Some ?nul"
    by (simp add: sent_nullifier_def ready_transaction_def rd dc or_none_def)
  ultimately have "ready_ok ?L env rd ?nul"
    unfolding ready_ok_def using rd(1) ready(1) by blast
  with that ready(2) key show ?thesis by simp
qed

text \<open>Both records of a handler note its note, and keep the notes of others.\<close>

lemma record_pending_noted:
  assumes "kv_store kv T lag" "ready_ok L env rd n"
  shows "noted T (w_idempotency (record_pending kv rd w)) (note_key L env n) (kv_now T (w_idempotency w))"
    "noted T (w_idempotency w) key t \<Longrightarrow> noted T (w_idempotency (record_pending kv rd w)) key t"
    "w_sent (record_pending kv rd w) = w_sent w"
proof -
  obtain i p where r: "input_ok (keccak (rl_viem L)) i" "rd_prepared rd = Some p"
    "p = buildRelayIdempotencyPrepared i (keccak (rl_viem L) (ii_calldata i))" "ip_nullifierKey p = note_key L env n"
    using assms(2) unfolding ready_ok_def by blast
  have ok: "record_ok (fst (recordRelayPending kv (w_idempotency w) p))"
    by (rule prepared_record_ok(1) [OF r(1,3)])
  have w: "w_idempotency (record_pending kv rd w) =
      writeRelayIdempotencyRecord kv (w_idempotency w) p (fst (recordRelayPending kv (w_idempotency w) p))"
    by (simp add: record_pending_def r(2) recordRelayPending_def Let_def)
  show "noted T (w_idempotency (record_pending kv rd w)) (note_key L env n) (kv_now T (w_idempotency w))"
    unfolding w r(4) [symmetric] by (rule noted_write(2) [OF assms(1) ok])
  show "noted T (w_idempotency w) key t \<Longrightarrow> noted T (w_idempotency (record_pending kv rd w)) key t"
    unfolding w by (rule noted_write(1) [OF assms(1) ok])
  show "w_sent (record_pending kv rd w) = w_sent w"
    by (simp add: record_pending_def r(2))
qed

lemma submit_noted:
  assumes "kv_store kv T lag" "ready_ok L env rd n" "outside_ok out" "submit W kv out rd w = (w', st)"
  shows "noted T (w_idempotency w) key t \<Longrightarrow> noted T (w_idempotency w') key t" "w_sent w' = w_sent w @ [ready_transaction rd]"
proof -
  obtain i p where r: "input_ok (keccak (rl_viem L)) i" "rd_prepared rd = Some p"
    "p = buildRelayIdempotencyPrepared i (keccak (rl_viem L) (ii_calldata i))" "ip_nullifierKey p = note_key L env n"
    using assms(2) unfolding ready_ok_def by blast
  show "noted T (w_idempotency w') key t" if "noted T (w_idempotency w) key t"
  proof (cases "o_send out")
    case (Inl e)
    with that assms(4) show ?thesis by (auto simp: submit_def)
  next
    case (Inr h)
    let ?r = "fst (recordRelaySubmitted kv (w_idempotency w) p h (o_clock_submitted out))"
    have "record_ok ?r"
      using prepared_record_ok(2) [OF r(1,3)] assms(3) Inr by (auto simp: outside_ok_def)
    moreover have "w_idempotency w' = writeRelayIdempotencyRecord kv (w_idempotency w) p ?r"
      using assms(4) Inr by (auto simp: submit_def r(2) recordRelaySubmitted_def Let_def)
    ultimately show ?thesis using noted_write(1) [OF assms(1)] that by simp
  qed
  show "w_sent w' = w_sent w @ [ready_transaction rd]"
    using assms(4) by (auto simp: submit_def r(2) Let_def split: sum.splits)
qed

text \<open>A request without the queue's header that is not queued is answered without being admitted.\<close>

lemma direct_rejected:
  assumes "queueMainnetRelayRequestIfNeeded W env request out = Direct" "has_nonce_queue env"
    "rq_header request ''x-relayer-nonce-queue'' \<noteq> Some ''1''"
  shows "\<exists>r. admit W kv env request out w = (w, Finished r)"
proof (cases "rq_method request = ''POST''")
  case False
  then show ?thesis by (simp add: admit_def)
next
  case True
  then have "route_request (wl_relay W) env request out = Inr None"
    using assms(1,3) by (auto simp: queueMainnetRelayRequestIfNeeded_def split: sum.splits option.splits)
  then have "accept_request (wl_relay W) env request out = Inr None"
    using assms(2) by (auto simp: route_request_def accept_request_def resolveRelayNonceQueue_def resolve_binding_def
        res_simps split: if_splits)
  with True show ?thesis by (simp add: admit_def)
qed

definition direct_ok :: "worker_lib \<Rightarrow> 's kv_api \<Rightarrow> worker_env \<Rightarrow> arrival \<times> stage \<Rightarrow> bool" where
  "direct_ok W kv env d \<longleftrightarrow> (\<exists>r. snd d = Finished r) \<or>
     (snd d = Received \<and> (\<forall>w. \<exists>r. admit W kv env (fst (fst d)) (snd (fst d)) w = (w, Finished r)))"

lemma direct_step:
  assumes "direct_ok W kv env (a, st)" "stage_step W kv env a (w, st) = (w', st')"
  shows "w' = w" "direct_ok W kv env (a, st')"
proof -
  obtain request out where a: "a = (request, out)" by fastforce
  have "w' = w \<and> direct_ok W kv env (a, st')"
  proof (cases st)
    case Received
    then obtain r where "admit W kv env request out w = (w, Finished r)"
      using assms(1) by (auto simp: direct_ok_def a)
    with assms(2) Received show ?thesis by (auto simp: a direct_ok_def)
  next
    case (Finished r)
    with assms(2) show ?thesis by (auto simp: a direct_ok_def)
  qed (use assms(1) in \<open>auto simp: direct_ok_def\<close>)
  then show "w' = w" "direct_ok W kv env (a, st')" by blast+
qed

section \<open>The queue sends no note twice while its record is read back\<close>

text \<open>
  A run of the system is a sequence of states; the clock is that of the record store. A transaction is
  handed to the wallet at a step; a request is admitted at a step.
\<close>

definition store_of :: "'s relay_system \<Rightarrow> 's" where
  "store_of sys = w_idempotency (sy_world sys)"

definition sent_of :: "'s relay_system \<Rightarrow> transaction list" where
  "sent_of sys = w_sent (sy_world sys)"

definition sends_at :: "(nat \<Rightarrow> 's relay_system) \<Rightarrow> nat \<Rightarrow> transaction \<Rightarrow> bool" where
  "sends_at run i tx \<longleftrightarrow> sent_of (run (Suc i)) = sent_of (run i) @ [tx]"

definition admits_at :: "(nat \<Rightarrow> 's relay_system) \<Rightarrow> nat \<Rightarrow> transaction \<Rightarrow> bool" where
  "admits_at run i tx \<longleftrightarrow> (\<exists>a rd. sy_active (run i) = Some (a, Received) \<and>
     sy_active (run (Suc i)) = Some (a, Admitted rd) \<and> ready_transaction rd = tx)"

definition admitted_late ::
  "'s kv_time \<Rightarrow> int \<Rightarrow> relay_lib \<Rightarrow> worker_env \<Rightarrow> (nat \<Rightarrow> 's relay_system) \<Rightarrow> nat \<Rightarrow> nat \<Rightarrow> string \<Rightarrow> transaction \<Rightarrow> bool" where
  "admitted_late T lag L env run i j n tx \<longleftrightarrow> (\<exists>r \<le> i. \<exists>a. i < a \<and> a < j \<and> admits_at run a tx \<and>
     noted T (store_of (run i)) (note_key L env n) (kv_now T (store_of (run r))) \<and>
     (kv_now T (store_of (run a)) < kv_now T (store_of (run r)) + lag \<or>
      kv_now T (store_of (run r)) + 3600 \<le> kv_now T (store_of (run a))))"

text \<open>The invariant at step i: what was sent is noted, and whoever is to send a note again was admitted late.\<close>

definition noted_since :: "'s kv_time \<Rightarrow> (nat \<Rightarrow> 's relay_system) \<Rightarrow> nat \<Rightarrow> nat \<Rightarrow> string \<Rightarrow> bool" where
  "noted_since T run m i key \<longleftrightarrow> (\<exists>r \<le> m. noted T (store_of (run m)) key (kv_now T (store_of (run r))) \<and>
     noted T (store_of (run i)) key (kv_now T (store_of (run r))))"

definition all_late :: "'s kv_time \<Rightarrow> int \<Rightarrow> relay_lib \<Rightarrow> worker_env \<Rightarrow> (nat \<Rightarrow> 's relay_system) \<Rightarrow> nat \<Rightarrow> string \<Rightarrow> transaction \<Rightarrow> bool" where
  "all_late T lag L env run i n tx \<longleftrightarrow>
     (\<forall>m < i. \<forall>tx'. sends_at run m tx' \<longrightarrow> sent_nullifier L tx' = Some n \<longrightarrow> admitted_late T lag L env run m i n tx)"

fun turn_ok :: "'s kv_time \<Rightarrow> int \<Rightarrow> relay_lib \<Rightarrow> worker_env \<Rightarrow> (nat \<Rightarrow> 's relay_system) \<Rightarrow> nat \<Rightarrow> stage \<Rightarrow> bool" where
  "turn_ok T lag L env run i (Admitted rd) = (\<exists>n. ready_ok L env rd n \<and> all_late T lag L env run i n (ready_transaction rd))"
| "turn_ok T lag L env run i (Recorded rd) = (\<exists>n. ready_ok L env rd n \<and> all_late T lag L env run i n (ready_transaction rd) \<and>
     (\<exists>r \<le> i. noted T (store_of (run i)) (note_key L env n) (kv_now T (store_of (run r)))))"
| "turn_ok T lag L env run i _ = True"

definition run_ok :: "worker_lib \<Rightarrow> 's kv_api \<Rightarrow> 's kv_time \<Rightarrow> int \<Rightarrow> worker_env \<Rightarrow> (nat \<Rightarrow> 's relay_system) \<Rightarrow> nat \<Rightarrow> bool" where
  "run_ok W kv T lag env run i \<longleftrightarrow>
     (\<forall>m < i. \<forall>tx. sends_at run m tx \<longrightarrow> (\<exists>n. sent_nullifier (wl_relay W) tx = Some n \<and> noted_since T run m i (note_key (wl_relay W) env n))) \<and>
     (\<forall>d \<in> set (sy_direct (run i)). direct_ok W kv env d) \<and> (\<forall>a \<in> set (sy_waiting (run i)). outside_ok (snd a)) \<and>
     (case sy_active (run i) of None \<Rightarrow> True
      | Some (a, st) \<Rightarrow> outside_ok (snd a) \<and> turn_ok T lag (wl_relay W) env run i st)"

lemma all_late_Suc: "all_late T lag L env run i n tx \<Longrightarrow> sent_of (run (Suc i)) = sent_of (run i) \<Longrightarrow> all_late T lag L env run (Suc i) n tx"
  unfolding all_late_def admitted_late_def sends_at_def less_Suc_eq by fastforce

lemma turn_ok_Suc:
  assumes "turn_ok T lag L env run i st" "sent_of (run (Suc i)) = sent_of (run i)"
    "\<And>key t. noted T (store_of (run i)) key t \<Longrightarrow> noted T (store_of (run (Suc i))) key t"
  shows "turn_ok T lag L env run (Suc i) st"
  using assms(1) all_late_Suc [OF _ assms(2)] assms(3)
  by (cases st) (auto, meson le_SucI)

text \<open>A step that sends nothing keeps the first conjunct of the invariant if it keeps the notes.\<close>

lemma sent_noted_Suc:
  assumes "run_ok W kv T lag env run i"
    "\<And>key t. noted T (store_of (run i)) key t \<Longrightarrow> noted T (store_of (run (Suc i))) key t"
    "\<And>tx. sends_at run i tx \<Longrightarrow> \<exists>n. sent_nullifier (wl_relay W) tx = Some n \<and> noted_since T run i (Suc i) (note_key (wl_relay W) env n)"
  shows "\<forall>m < Suc i. \<forall>tx. sends_at run m tx \<longrightarrow>
    (\<exists>n. sent_nullifier (wl_relay W) tx = Some n \<and> noted_since T run m (Suc i) (note_key (wl_relay W) env n))"
proof (intro allI impI)
  fix m tx
  assume m: "m < Suc i" "sends_at run m tx"
  show "\<exists>n. sent_nullifier (wl_relay W) tx = Some n \<and> noted_since T run m (Suc i) (note_key (wl_relay W) env n)"
  proof (cases "m = i")
    case True
    with assms(3) m(2) show ?thesis by blast
  next
    case False
    then obtain n where "sent_nullifier (wl_relay W) tx = Some n" "noted_since T run m i (note_key (wl_relay W) env n)"
      using assms(1) m unfolding run_ok_def by (meson less_SucE)
    with assms(2) show ?thesis unfolding noted_since_def by blast
  qed
qed

text \<open>A step that sends nothing.\<close>

lemma step_kept:
  assumes "run_ok W kv T lag env run i" "run (Suc i) = sys'" "sent_of sys' = sent_of (run i)"
    "\<And>key t. noted T (store_of (run i)) key t \<Longrightarrow> noted T (store_of sys') key t"
    "\<forall>d \<in> set (sy_direct sys'). direct_ok W kv env d" "\<forall>a \<in> set (sy_waiting sys'). outside_ok (snd a)"
    "case sy_active sys' of None \<Rightarrow> True | Some (a, st) \<Rightarrow> outside_ok (snd a) \<and> turn_ok T lag (wl_relay W) env run (Suc i) st"
  shows "run_ok W kv T lag env run (Suc i)"
proof -
  have "\<not> sends_at run i tx" for tx using assms(2,3) by (simp add: sends_at_def)
  then have "\<forall>m < Suc i. \<forall>tx. sends_at run m tx \<longrightarrow>
      (\<exists>n. sent_nullifier (wl_relay W) tx = Some n \<and> noted_since T run m (Suc i) (note_key (wl_relay W) env n))"
    using sent_noted_Suc [OF assms(1)] assms(2,4) by blast
  then show ?thesis using assms(2,5-7) unfolding run_ok_def by blast
qed


text \<open>A request that is admitted read no record of its note, so what was sent for it is too new or too old.\<close>

lemma admitted_turn:
  assumes "kv_store kv T lag" "relay_lib_ok (wl_relay W)" "has_idempotency_kv env" "outside_ok out" "run_ok W kv T lag env run i"
    "admit W kv env request out (sy_world (run i)) = (w', Admitted rd)" "sy_active (run i) = Some (b, Received)"
    "sy_active (run (Suc i)) = Some (b, Admitted rd)" "sent_of (run (Suc i)) = sent_of (run i)"
  shows "turn_ok T lag (wl_relay W) env run (Suc i) (Admitted rd)"
proof -
  let ?L = "wl_relay W" and ?now = "kv_now T (store_of (run i))"
  obtain n where n: "ready_ok ?L env rd n" "readRelayIdempotencyRecord kv (store_of (run i)) (note_key ?L env n) = None"
    using admitted_ready [OF assms(6,2,4,3)] unfolding store_of_def by blast
  have "admitted_late T lag ?L env run m (Suc i) n (ready_transaction rd)"
    if m: "m < Suc i" "sends_at run m tx'" "sent_nullifier ?L tx' = Some n" for m tx'
  proof -
    have "m < i" using m(1,2) assms(9) by (cases "m = i") (auto simp: sends_at_def)
    with m(2,3) assms(5) have "noted_since T run m i (note_key ?L env n)" unfolding run_ok_def by fastforce
    then obtain r where r: "r \<le> m" "noted T (store_of (run m)) (note_key ?L env n) (kv_now T (store_of (run r)))"
      "noted T (store_of (run i)) (note_key ?L env n) (kv_now T (store_of (run r)))" unfolding noted_since_def by blast
    have "?now < kv_now T (store_of (run r)) + lag \<or> kv_now T (store_of (run r)) + 3600 \<le> ?now"
      using noted_read [OF assms(1) r(3)] n(2) by linarith
    with r(1,2) \<open>m < i\<close> assms(7,8) show ?thesis unfolding admitted_late_def admits_at_def by blast
  qed
  with n(1) show ?thesis by (auto simp: all_late_def)
qed

lemma queue_turn_run_ok:
  assumes "kv_store kv T lag" "relay_lib_ok (wl_relay W)" "has_idempotency_kv env" "run_ok W kv T lag env run i"
    "run (Suc i) = queue_turn W kv env (run i)"
  shows "run_ok W kv T lag env run (Suc i)"
proof (cases "sy_active (run i)")
  case None
  have inv: "\<forall>d \<in> set (sy_direct (run i)). direct_ok W kv env d" "\<forall>a \<in> set (sy_waiting (run i)). outside_ok (snd a)"
    using assms(4) by (simp_all add: run_ok_def)
  show ?thesis
    by (rule step_kept [OF assms(4,5)])
      (use None inv in \<open>auto simp: queue_turn_def sent_of_def store_of_def split: list.splits\<close>)
next
  case (Some ast)
  obtain request out st where ast: "ast = ((request, out), st)" by (metis surj_pair)
  have inv: "\<forall>d \<in> set (sy_direct (run i)). direct_ok W kv env d" "\<forall>a \<in> set (sy_waiting (run i)). outside_ok (snd a)"
    "outside_ok out" "turn_ok T lag (wl_relay W) env run i st"
    using assms(4) by (simp_all add: run_ok_def Some ast)
  obtain w' st' where run: "stage_step W kv env (request, out) (sy_world (run i), st) = (w', st')" by fastforce
  have turn: "queue_turn W kv env (run i) = run i\<lparr>sy_world := w', sy_active := Some ((request, out), st')\<rparr>"
    if "\<nexists>r. st = Finished r"
    using that run by (cases st) (auto simp: queue_turn_def Some ast)
  show ?thesis
  proof (cases st)
    case Received
    then have adm: "admit W kv env request out (sy_world (run i)) = (w', st')" using run by simp
    have frame: "w_sent w' = w_sent (sy_world (run i)) \<and> w_idempotency w' = w_idempotency (sy_world (run i))"
      using adm by (auto simp: admit_def split: if_splits sum.splits option.splits prod.splits)
    have next_state: "run (Suc i) = run i\<lparr>sy_world := w', sy_active := Some ((request, out), st')\<rparr>"
      using assms(5) turn Received by simp
    have "turn_ok T lag (wl_relay W) env run (Suc i) st'"
    proof (cases "\<exists>rd. st' = Admitted rd")
      case True
      then obtain rd where "st' = Admitted rd" by blast
      with adm next_state frame Some ast Received show ?thesis
        using admitted_turn [OF assms(1-3) inv(3) assms(4), of request w' rd "(request, out)"] by (simp add: sent_of_def)
    next
      case False
      then show ?thesis using admit_ok [of W kv env request out "sy_world (run i)"] adm by (cases st') auto
    qed
    with frame inv(1-3) show ?thesis
      by (intro step_kept [OF assms(4) next_state]) (simp_all add: sent_of_def store_of_def)
  next
    case (Admitted rd)
    then obtain n where n: "ready_ok (wl_relay W) env rd n" "all_late T lag (wl_relay W) env run i n (ready_transaction rd)"
      using inv(4) by auto
    have w': "w' = record_pending kv rd (sy_world (run i))" "st' = Recorded rd" using run Admitted by auto
    note rec = record_pending_noted [OF assms(1) n(1)]
    have next_state: "run (Suc i) = run i\<lparr>sy_world := w', sy_active := Some ((request, out), st')\<rparr>"
      using assms(5) turn Admitted by simp
    then have same: "sent_of (run (Suc i)) = sent_of (run i)" by (simp add: sent_of_def w' rec(3))
    have "noted T (store_of (run (Suc i))) (note_key (wl_relay W) env n) (kv_now T (store_of (run i)))"
      unfolding next_state by (simp add: store_of_def w' rec(1))
    then have "turn_ok T lag (wl_relay W) env run (Suc i) (Recorded rd)"
      using n(1) all_late_Suc [OF n(2) same] le_SucI [OF order_refl] unfolding turn_ok.simps by blast
    then show ?thesis
      using inv(1-3) rec(2,3) by (intro step_kept [OF assms(4) next_state]) (simp_all add: sent_of_def store_of_def w')
  next
    case (Recorded rd)
    then obtain n where n: "ready_ok (wl_relay W) env rd n"
      "\<exists>r \<le> i. noted T (store_of (run i)) (note_key (wl_relay W) env n) (kv_now T (store_of (run r)))"
      using inv(4) by auto
    have sub: "submit W kv out rd (sy_world (run i)) = (w', st')" using run Recorded by simp
    note rec = submit_noted [OF assms(1) n(1) inv(3) sub]
    have next_state: "run (Suc i) = run i\<lparr>sy_world := w', sy_active := Some ((request, out), st')\<rparr>"
      using assms(5) turn Recorded by simp
    have kept: "noted T (store_of (run i)) key t \<Longrightarrow> noted T (store_of (run (Suc i))) key t" for key t
      unfolding next_state using rec(1) by (simp add: store_of_def)
    have "noted_since T run i (Suc i) (note_key (wl_relay W) env n)"
      unfolding noted_since_def using n(2) kept by blast
    moreover have "sent_nullifier (wl_relay W) (ready_transaction rd) = Some n" using n(1) by (simp add: ready_ok_def)
    moreover have "sends_at run i tx \<Longrightarrow> tx = ready_transaction rd" for tx
      unfolding sends_at_def sent_of_def next_state using rec(2) by simp
    ultimately have sent: "\<forall>m < Suc i. \<forall>tx. sends_at run m tx \<longrightarrow>
        (\<exists>n. sent_nullifier (wl_relay W) tx = Some n \<and> noted_since T run m (Suc i) (note_key (wl_relay W) env n))"
      using sent_noted_Suc [OF assms(4) kept] by blast
    obtain r where "st' = Finished r" using submit_finished [of W kv out rd "sy_world (run i)"] sub by auto
    then have "sy_active (run (Suc i)) = Some ((request, out), Finished r)" "sy_direct (run (Suc i)) = sy_direct (run i)"
      "sy_waiting (run (Suc i)) = sy_waiting (run i)" by (simp_all add: next_state)
    with sent inv(1-3) show ?thesis unfolding run_ok_def by simp
  next
    case (Finished r)
    then have next_state: "run (Suc i) = run i\<lparr>sy_active := None, sy_answered := sy_answered (run i) @ [r]\<rparr>"
      by (simp add: assms(5) queue_turn_def Some ast)
    show ?thesis using inv(1,2) by (intro step_kept [OF assms(4) next_state]) (simp_all add: sent_of_def store_of_def)
  qed
qed

lemma turn_kept:
  assumes "run_ok W kv T lag env run i" "sent_of (run (Suc i)) = sent_of (run i)" "sy_active (run (Suc i)) = sy_active (run i)"
    "\<And>key t. noted T (store_of (run i)) key t \<Longrightarrow> noted T (store_of (run (Suc i))) key t"
  shows "case sy_active (run (Suc i)) of None \<Rightarrow> True
    | Some (a, st) \<Rightarrow> outside_ok (snd a) \<and> turn_ok T lag (wl_relay W) env run (Suc i) st"
  using assms(1,3) turn_ok_Suc [OF _ assms(2,4)] by (auto simp: run_ok_def split: option.splits prod.splits)

lemma step_run_ok:
  assumes "kv_store kv T lag" "relay_lib_ok (wl_relay W)" "has_idempotency_kv env" "has_nonce_queue env"
    "\<forall>(request, out) \<in> clients. rq_header request ''x-relayer-nonce-queue'' \<noteq> Some ''1'' \<and> outside_ok out"
    "system_step W kv T env clients (run i) (run (Suc i))" "run_ok W kv T lag env run i"
  shows "run_ok W kv T lag env run (Suc i)"
proof -
  have inv: "\<forall>d \<in> set (sy_direct (run i)). direct_ok W kv env d" "\<forall>a \<in> set (sy_waiting (run i)). outside_ok (snd a)"
    using assms(7) by (simp_all add: run_ok_def)
  have kept: "run_ok W kv T lag env run (Suc i)"
    if "sent_of (run (Suc i)) = sent_of (run i)" "sy_active (run (Suc i)) = sy_active (run i)"
      "\<And>key t. noted T (store_of (run i)) key t \<Longrightarrow> noted T (store_of (run (Suc i))) key t"
      "\<forall>d \<in> set (sy_direct (run (Suc i))). direct_ok W kv env d" "\<forall>a \<in> set (sy_waiting (run (Suc i))). outside_ok (snd a)"
    using that by (intro step_kept [OF assms(7) refl] turn_kept [OF assms(7)]) simp_all
  from assms(6) show ?thesis
  proof cases
    case (ArriveDirect request out)
    then have "direct_ok W kv env ((request, out), Received)"
      using direct_rejected [OF _ assms(4)] assms(5) by (fastforce simp: direct_ok_def)
    with ArriveDirect(1) inv show ?thesis by (intro kept) (auto simp: sent_of_def store_of_def)
  next
    case (ArriveQueued request out q)
    with assms(5) inv show ?thesis by (intro kept) (auto simp: sent_of_def store_of_def)
  next
    case (DirectStep j a st w st')
    then have "direct_ok W kv env (a, st)" using inv(1) by (metis nth_mem)
    from direct_step [OF this DirectStep(4)] have "w = sy_world (run i)" "direct_ok W kv env (a, st')" .
    with DirectStep(1) inv show ?thesis
      using set_update_subset_insert [of "sy_direct (run i)" j "(a, st')"]
      by (intro kept) (auto simp: sent_of_def store_of_def)
  next
    case QueueTurn
    then show ?thesis by (rule queue_turn_run_ok [OF assms(1-3,7)])
  next
    case (Elapse d)
    with noted_wait [OF assms(1) _ Elapse(2)] inv show ?thesis
      by (intro kept) (simp_all add: sent_of_def store_of_def pass_time_def)
  qed
qed

lemma run_ok_all:
  assumes "kv_store kv T lag" "relay_lib_ok (wl_relay W)" "has_idempotency_kv env" "has_nonce_queue env"
    "\<forall>(request, out) \<in> clients. rq_header request ''x-relayer-nonce-queue'' \<noteq> Some ''1'' \<and> outside_ok out"
    "run 0 = idle_system w" "\<forall>k < j. system_step W kv T env clients (run k) (run (Suc k))"
  shows "i \<le> j \<Longrightarrow> run_ok W kv T lag env run i"
proof (induction i)
  case 0
  then show ?case by (simp add: run_ok_def assms(6) idle_system_def)
next
  case (Suc i)
  then show ?case using step_run_ok [OF assms(1-5)] assms(7) by simp
qed

lemma queued_send_admitted:
  assumes "kv_store kv T lag" "run_ok W kv T lag env run j" "system_step W kv T env clients (run j) (run (Suc j))"
    "sends_at run j tx"
  obtains n where "sent_nullifier (wl_relay W) tx = Some n" "all_late T lag (wl_relay W) env run j n tx"
proof -
  have inv: "\<forall>d \<in> set (sy_direct (run j)). direct_ok W kv env d"
    using assms(2) by (simp add: run_ok_def)
  have changed: "sent_of (run (Suc j)) = sent_of (run j) @ [tx]" using assms(4) by (simp add: sends_at_def)
  from assms(3) show thesis
  proof cases
    case (DirectStep i a st w st')
    then have "direct_ok W kv env (a, st)" using inv by (metis nth_mem)
    from direct_step(1) [OF this DirectStep(4)] changed DirectStep(1) show thesis by (simp add: sent_of_def)
  next
    case QueueTurn
    then obtain request out st where active: "sy_active (run j) = Some ((request, out), st)" "\<nexists>r. st = Finished r"
      using changed by (auto simp: queue_turn_def sent_of_def split: option.splits list.splits stage.splits prod.splits)
    then have turn: "outside_ok out" "turn_ok T lag (wl_relay W) env run j st" using assms(2) by (simp_all add: run_ok_def)
    obtain w' st' where run: "stage_step W kv env (request, out) (sy_world (run j), st) = (w', st')" by fastforce
    have w': "w_sent w' = sent_of (run j) @ [tx]"
      using changed QueueTurn active run by (cases st) (auto simp: queue_turn_def sent_of_def)
    show thesis
    proof (cases st)
      case Received
      with run have "w_sent w' = sent_of (run j)"
        by (auto simp: admit_def sent_of_def split: if_splits sum.splits option.splits prod.splits)
      with w' show thesis by simp
    next
      case (Admitted rd)
      with run have "w_sent w' = sent_of (run j)" by (auto simp: record_pending_def sent_of_def split: option.splits)
      with w' show thesis by simp
    next
      case (Recorded rd)
      then obtain n where n: "ready_ok (wl_relay W) env rd n" "all_late T lag (wl_relay W) env run j n (ready_transaction rd)"
        using turn(2) by auto
      have "submit W kv out rd (sy_world (run j)) = (w', st')" using run Recorded by simp
      from submit_noted(2) [OF assms(1) n(1) turn(1) this] w' have "tx = ready_transaction rd" by (simp add: sent_of_def)
      with n that show thesis by (simp add: ready_ok_def)
    qed (use active in blast)
  qed (use changed in \<open>auto simp: sent_of_def pass_time_def\<close>)
qed

text \<open>
  C1: Behind its queue the relayer sends no note twice while its record is read back, however requests
  overlap and whatever else fails. Let the queue and the record store be bound, no client send the
  queue's own header, and the store show a write after a delay of at most \<open>lag\<close> and drop it after its
  lifetime. If in a run of the system two transactions with one nullifier are handed to the wallet,
  the first at step i and the second at step j, then a record of the note had been written at step i
  or before, and the request of the second was admitted between the two, when that record was younger
  than \<open>lag\<close> seconds or at least an hour old.
\<close>

theorem queued_notes_sent_once:
  assumes "kv_store kv T lag" "relay_lib_ok (wl_relay W)" "has_idempotency_kv env" "has_nonce_queue env"
    "\<forall>(request, out) \<in> clients. rq_header request ''x-relayer-nonce-queue'' \<noteq> Some ''1'' \<and> outside_ok out"
    "run 0 = idle_system w" "\<forall>k \<le> j. system_step W kv T env clients (run k) (run (Suc k))"
    "i < j" "sends_at run i tx" "sends_at run j tx'" "sent_nullifier (wl_relay W) tx = sent_nullifier (wl_relay W) tx'"
  shows "\<exists>n r a. sent_nullifier (wl_relay W) tx = Some n \<and> r \<le> i \<and> i < a \<and> a < j \<and> admits_at run a tx' \<and>
    noted T (store_of (run i)) (note_key (wl_relay W) env n) (kv_now T (store_of (run r))) \<and>
    (kv_now T (store_of (run a)) < kv_now T (store_of (run r)) + lag \<or>
     kv_now T (store_of (run r)) + 3600 \<le> kv_now T (store_of (run a)))"
proof -
  have "run_ok W kv T lag env run j" using run_ok_all [where run = run, OF assms(1-6), of j j] assms(7) by simp
  from queued_send_admitted [OF assms(1) this _ assms(10)] assms(7)
  obtain n where n: "sent_nullifier (wl_relay W) tx' = Some n" "all_late T lag (wl_relay W) env run j n tx'" by blast
  then have "admitted_late T lag (wl_relay W) env run i j n tx'"
    using assms(8,9,11) unfolding all_late_def by metis
  with n(1) assms(11) show ?thesis unfolding admitted_late_def by metis
qed

section \<open>A client that names itself the queue\<close>

lemma direct_steps:
  assumes "i < length (sy_direct sys)" "sy_direct sys ! i = (a, st)" "stage_step W kv env a (sy_world sys, st) = (w, st')"
    "(system_step W kv T env clients)\<^sup>*\<^sup>* (sys\<lparr>sy_world := w, sy_direct := (sy_direct sys)[i := (a, st')]\<rparr>) sys'"
  shows "(system_step W kv T env clients)\<^sup>*\<^sup>* sys sys'"
  using system_step.DirectStep [OF assms(1-3)] assms(4) by (rule converse_rtranclp_into_rtranclp)

text \<open>
  C9: The header that marks requests forwarded by the queue is trusted from any client: a request
  that carries it skips the queue, which it would otherwise go through, and when two copies of it
  overlap, both find no record and the same transaction is handed to the wallet twice.
\<close>

theorem header_bypass_sends_twice:
  assumes "(request, out) \<in> clients" "rq_header request ''x-relayer-nonce-queue'' = Some ''1''" "has_nonce_queue env"
    "admit W kv env request out w = (w1, Admitted rd)" "admit W kv env request out w1 = (w2, Admitted rd)"
  shows "(\<exists>q. queueMainnetRelayRequestIfNeeded W env (request\<lparr>rq_header := \<lambda>_. None\<rparr>) out = Queued q) \<and>
    (\<exists>sys. (system_step W kv T env clients)\<^sup>*\<^sup>* (idle_system w) sys \<and>
       w_sent (sy_world sys) = w_sent w @ [ready_transaction rd, ready_transaction rd])"
proof
  obtain account runtime n where acc: "rq_method request = ''POST''"
    "accept_request (wl_relay W) env request out = Inr (Some (account, runtime, n))"
    using admittedE [OF assms(4)] by metis
  obtain rt where rt: "buildRelayRuntime (wl_relay W) env = Inr rt"
    "isRelayEndpointPath (rq_pathname request) (rt_environment rt)" "o_account out = Inr account"
    "assertRelayerSignerBinding (rt_environment rt) env account = Inr ()"
    using acceptedE [OF acc(2)] by metis
  then show "\<exists>q. queueMainnetRelayRequestIfNeeded W env (request\<lparr>rq_header := \<lambda>_. None\<rparr>) out = Queued q"
    using acc(1) assms(3)
    by (simp add: queueMainnetRelayRequestIfNeeded_def route_request_def of_library_def resolveRelayNonceQueue_def
        resolve_binding_def)
next
  let ?a = "(request, out)"
  let ?sys = "\<lambda>d v. \<lparr>sy_world = v, sy_direct = d, sy_waiting = [], sy_active = None, sy_answered = []\<rparr>"
  have direct: "queueMainnetRelayRequestIfNeeded W env request out = Direct"
    using assms(2) by (simp add: queueMainnetRelayRequestIfNeeded_def)
  obtain w3 where w3: "w3 = record_pending kv rd (record_pending kv rd w2)" by simp
  obtain w4 st where w4: "submit W kv out rd w3 = (w4, st)" by fastforce
  obtain w5 st' where w5: "submit W kv out rd w4 = (w5, st')" by fastforce
  have arrive: "system_step W kv T env clients (?sys d v) (?sys (d @ [(?a, Received)]) v)" for d v
    using system_step.ArriveDirect [OF assms(1) direct, of kv T "?sys d v"] by simp
  have "(system_step W kv T env clients)\<^sup>*\<^sup>* (?sys [(?a, Received), (?a, Received)] w) (?sys [(?a, st), (?a, st')] w5)"
    apply (rule direct_steps [of 0], simp, simp, simp, rule assms(4))
    apply (rule direct_steps [of 1], simp, simp, simp, rule assms(5))
    apply (rule direct_steps [of 0], simp, simp, simp)
    apply (rule direct_steps [of 1], simp, simp, simp)
    apply (rule direct_steps [of 0], simp, simp, simp, rule w4 [unfolded w3])
    apply (rule direct_steps [of 1], simp, simp, simp, rule w5)
    apply simp
    done
  moreover have "system_step W kv T env clients (idle_system w) (?sys [(?a, Received)] w)"
    "system_step W kv T env clients (?sys [(?a, Received)] w) (?sys [(?a, Received), (?a, Received)] w)"
    using arrive [of w "[]"] arrive [of w "[(?a, Received)]"] by (simp_all add: idle_system_def)
  ultimately have "(system_step W kv T env clients)\<^sup>*\<^sup>* (idle_system w) (?sys [(?a, st), (?a, st')] w5)"
    by (meson converse_rtranclp_into_rtranclp)
  moreover have "w_sent w1 = w_sent w" "w_sent w2 = w_sent w1"
    using assms(4,5) by (auto simp: admit_def split: if_splits sum.splits option.splits prod.splits)
  then have "w_sent w5 = w_sent w @ [ready_transaction rd, ready_transaction rd]"
    using w4 w5 by (auto simp: w3 submit_def Let_def record_pending_def split: sum.splits option.splits)
  ultimately show "\<exists>sys. (system_step W kv T env clients)\<^sup>*\<^sup>* (idle_system w) sys \<and>
       w_sent (sy_world sys) = w_sent w @ [ready_transaction rd, ready_transaction rd]"
    by (intro exI [of _ "?sys [(?a, st), (?a, st')] w5"]) simp
qed

section \<open>The queue answers everything it holds\<close>

text \<open>The specification: the handlers run one after the other, in the order of arrival.\<close>

fun serve_all :: "worker_lib \<Rightarrow> 's kv_api \<Rightarrow> worker_env \<Rightarrow> arrival list \<Rightarrow> 's worker_world
    \<Rightarrow> 's worker_world \<times> response option list" where
  "serve_all W kv env [] w = (w, [])"
| "serve_all W kv env (a # as) w =
     (case handleRelayRequest W kv env a w of (w1, r) \<Rightarrow>
      case serve_all W kv env as w1 of (w2, rs) \<Rightarrow> (w2, r # rs))"

lemma turn_runs_stages:
  assumes "(stage_step W kv env a ^^ j) (w, st) = (w', Finished r)"
  shows "\<exists>k \<le> j. (queue_turn W kv env ^^ k) (sys\<lparr>sy_world := w, sy_active := Some (a, st)\<rparr>) =
    sys\<lparr>sy_world := w', sy_active := Some (a, Finished r)\<rparr>"
  using assms
proof (induction j arbitrary: w st)
  case 0
  then show ?case by simp
next
  case (Suc j)
  obtain request out where a: "a = (request, out)" by fastforce
  show ?case
  proof (cases "\<exists>r0. st = Finished r0")
    case True
    then obtain r0 where r0: "st = Finished r0" by blast
    have "(stage_step W kv env a ^^ i) (w, Finished r0) = (w, Finished r0)" for i
      by (induction i) (simp_all add: a)
    with Suc.prems have "w' = w" "r = r0" by (simp_all add: r0 del: funpow.simps)
    then show ?thesis by (intro exI [of _ 0]) (simp add: r0)
  next
    case False
    obtain w1 st1 where s: "stage_step W kv env a (w, st) = (w1, st1)" by fastforce
    then have "(stage_step W kv env a ^^ j) (w1, st1) = (w', Finished r)"
      using Suc.prems by (simp add: funpow_Suc_right del: funpow.simps)
    from Suc.IH [OF this] obtain k where k: "k \<le> j"
      "(queue_turn W kv env ^^ k) (sys\<lparr>sy_world := w1, sy_active := Some (a, st1)\<rparr>) =
        sys\<lparr>sy_world := w', sy_active := Some (a, Finished r)\<rparr>" by blast
    have "queue_turn W kv env (sys\<lparr>sy_world := w, sy_active := Some (a, st)\<rparr>) =
        sys\<lparr>sy_world := w1, sy_active := Some (a, st1)\<rparr>"
      using False s by (cases st) (simp_all add: queue_turn_def)
    with k show ?thesis
      by (intro exI [of _ "Suc k"]) (simp add: funpow_Suc_right del: funpow.simps)
  qed
qed

lemma queue_answers_next:
  assumes "sy_active sys = None" "sy_waiting sys = a # as"
  shows "\<exists>k w' r. k \<le> 5 \<and> handleRelayRequest W kv env a (sy_world sys) = (w', Some r) \<and>
    (queue_turn W kv env ^^ k) sys = sys\<lparr>sy_world := w', sy_waiting := as, sy_answered := sy_answered sys @ [r]\<rparr>"
proof -
  obtain request out where a: "a = (request, out)" by fastforce
  obtain w' r where r: "(stage_step W kv env a ^^ 3) (sy_world sys, Received) = (w', Finished r)"
    using three_steps [of Received W kv env request out "sy_world sys"] by (auto simp: a)
  let ?s = "sys\<lparr>sy_waiting := as\<rparr>"
  obtain k where k: "k \<le> 3" "(queue_turn W kv env ^^ k) (?s\<lparr>sy_world := sy_world sys, sy_active := Some (a, Received)\<rparr>) =
      ?s\<lparr>sy_world := w', sy_active := Some (a, Finished r)\<rparr>"
    using turn_runs_stages [OF r] by blast
  have first: "queue_turn W kv env sys = ?s\<lparr>sy_world := sy_world sys, sy_active := Some (a, Received)\<rparr>"
    using assms by (simp add: queue_turn_def)
  have last: "queue_turn W kv env (?s\<lparr>sy_world := w', sy_active := Some (a, Finished r)\<rparr>) =
      sys\<lparr>sy_world := w', sy_waiting := as, sy_answered := sy_answered sys @ [r]\<rparr>"
    using assms(1) by (simp add: queue_turn_def)
  have "(queue_turn W kv env ^^ Suc (Suc k)) sys = queue_turn W kv env ((queue_turn W kv env ^^ k) (queue_turn W kv env sys))"
    by (simp add: funpow_swap1)
  also have "\<dots> = sys\<lparr>sy_world := w', sy_waiting := as, sy_answered := sy_answered sys @ [r]\<rparr>"
    unfolding first k(2) last ..
  finally show ?thesis
    using k(1) r by (intro exI [of _ "Suc (Suc k)"] exI [of _ w'] exI [of _ r])
      (simp add: handleRelayRequest_def stage_answer_def)
qed

text \<open>
  C14: The queue answers every request it holds, in order and as if each ran alone: with
  \<open>n\<close> requests waiting, at most \<open>5 n\<close> turns later it is empty, it has given \<open>n\<close> answers, and answers
  and state are those of running the handler on the requests one after the other; a request that
  fails does not stop the ones behind it.
\<close>

theorem queue_drains:
  "\<exists>k w' rs. k \<le> 5 * length (sy_waiting sys) \<and>
     serve_all W kv env (sy_waiting sys) (sy_world sys) = (w', map Some rs) \<and> length rs = length (sy_waiting sys) \<and>
     (queue_turn W kv env ^^ k) (sys\<lparr>sy_active := None\<rparr>) =
       sys\<lparr>sy_active := None, sy_world := w', sy_waiting := [], sy_answered := sy_answered sys @ rs\<rparr>"
proof (induction "sy_waiting sys" arbitrary: sys)
  case Nil
  then show ?case by (intro exI [of _ 0] exI [of _ "sy_world sys"] exI [of _ "[]"]) simp
next
  case (Cons a as)
  let ?s = "sys\<lparr>sy_active := None\<rparr>"
  obtain k w' r where r: "k \<le> 5" "handleRelayRequest W kv env a (sy_world sys) = (w', Some r)"
    "(queue_turn W kv env ^^ k) ?s = ?s\<lparr>sy_world := w', sy_waiting := as, sy_answered := sy_answered sys @ [r]\<rparr>"
    using queue_answers_next [of ?s a as W kv env] Cons(2) by auto
  let ?s1 = "?s\<lparr>sy_world := w', sy_waiting := as, sy_answered := sy_answered sys @ [r]\<rparr>"
  have same: "?s1\<lparr>sy_active := None\<rparr> = ?s1" by simp
  obtain j w2 rs where j: "j \<le> 5 * length as" "serve_all W kv env as w' = (w2, map Some rs)" "length rs = length as"
    "(queue_turn W kv env ^^ j) ?s1 = ?s1\<lparr>sy_world := w2, sy_waiting := [], sy_answered := sy_answered ?s1 @ rs\<rparr>"
    using Cons(1) [of ?s1] unfolding same by auto
  have "(queue_turn W kv env ^^ (j + k)) ?s = ?s1\<lparr>sy_world := w2, sy_waiting := [], sy_answered := sy_answered ?s1 @ rs\<rparr>"
    by (simp only: funpow_add o_apply r(3) j(4))
  with r j Cons(2) [symmetric] show ?case
    by (intro exI [of _ "j + k"] exI [of _ w2] exI [of _ "r # rs"]) simp
qed

end
