(* ===== verification/Relayer_Sample.thy ===== *)
theory Relayer_Sample
  imports Relayer_Queue
begin

text \<open>
  Concrete runs of the relayer worker: a testnet relayer with every binding, one withdrawal request
  it admits, and a mainnet environment that builds a runtime.
\<close>

section \<open>A testnet request\<close>

definition testnet_env :: worker_env where
  "testnet_env = \<lparr>WITHDRAWAL_RELAYER_PRIVATE_KEY = ''0x01'', WITHDRAWAL_RELAYER_ADDRESS = None,
     RELAYER_ENVIRONMENT = None, ENV_TESTNET_RPC_URL = None, ENV_MAINNET_RPC_URL = None,
     ENV_SHIELDED_POOL_ADDRESS = Some sample_addr, MAINNET_RELAYER_APPROVED = None,
     MAINNET_RELAYER_PUBLIC_RUNTIME_SHA256 = None, MAINNET_RELAYER_TRUSTED_SETUP_SHA256 = None,
     RELAYER_V1_2_WITHDRAW_SELECTOR = None, RELAYER_V1_2_FEE_SOURCE = None,
     has_idempotency_kv = True, has_rate_limit_kv = True, has_nonce_queue = True\<rparr>"

definition testnet_runtime :: relay_runtime where
  "testnet_runtime = \<lparr>rt_environment = TESTNET, rt_chainId = MEGAETH_TESTNET_CHAIN_ID,
     rt_rpcUrl = MEGAETH_TESTNET_RPC_URL, rt_pool = sample_addr,
     rt_policy = \<lparr>bp_allowedChainIds = [jsint MEGAETH_TESTNET_CHAIN_ID], bp_blockedChainIds = [],
       bp_allowMegaEthMainnet = None, bp_allowedContracts = [sample_addr],
       bp_allowedFunctionSelectors =
         TESTNET_WITHDRAWAL_RELAYER_SELECTORS @ [PROOF_CONTEXT_V1_WITHDRAW_RELAYER_POLICY_SELECTOR],
       bp_maxValueWei = 0, bp_maxGasLimit = MAX_GAS_LIMIT, bp_maxDeadlineSecondsFromNow = jsint 120\<rparr>,
     rt_relayValidationMode = None, rt_feePolicy = None, rt_feeSource = None\<rparr>"

definition request_fields :: "(string \<times> json) list" where
  "request_fields = [(''chainId'', JNum (jsint 6343)), (''to'', JStr sample_addr), (''data'', JStr ''0xc7787d0f''),
     (''deadlineEpochSeconds'', JNum (jsint 1100))]"

definition sample_post :: "(string \<Rightarrow> string option) \<Rightarrow> worker_request" where
  "sample_post headers = \<lparr>rq_method = ''POST'', rq_pathname = ''/transaction'', rq_header = headers,
     rq_body = object_text request_fields\<rparr>"

definition sample_outside :: outside where
  "sample_outside = \<lparr>o_account = Inr sample_addr, o_chainId = Inr 6343, o_readContract = (\<lambda>_. Inr 0),
     o_clock_fee = 1000, o_clock_policy = 1000, o_clock_rate = 1000, o_clock_idempotency = 1000,
     o_spent = (\<lambda>_ _. Inr False), o_gas = Inr 100000, o_clock_gas = 1001, o_send = Inr ''0x99'', o_clock_submitted = 1002\<rparr>"

definition sample_worker :: worker_lib where
  "sample_worker = \<lparr>wl_relay = sample_lib, throw_text = \<lambda>_. ''thrown'', engine_text = \<lambda>_. ''engine''\<rparr>"

definition sample_normalized :: normalized_request where
  "sample_normalized = \<lparr>nr_chainId = 6343, nr_to = sample_addr, nr_data = ''0xc7787d0f'', nr_valueWei = 0,
     nr_deadlineEpochSeconds = jsint 1100, nr_withdrawal = sample_call\<rparr>"

lemma chain_6343: "MEGAETH_TESTNET_CHAIN_ID = 6343"
  by (simp add: MEGAETH_TESTNET_CHAIN_ID_def)

lemma not_mainnet: "TESTNET \<noteq> MAINNET"
  by (simp add: TESTNET_def MAINNET_def)

lemma sample_runtime: "buildRelayRuntime sample_lib testnet_env = Inr testnet_runtime"
  using not_mainnet
  by (simp add: buildRelayRuntime_def testnet_env_def or_default_def of_throw_def buildTestnetRelayPolicy_def
      testnet_runtime_def Let_def)

lemma sample_body: "json_parse (object_text request_fields) = Some (JObj request_fields)"
proof -
  have "\<forall>kv \<in> set request_fields. flat_value (snd kv)"
    using flat_int [of 6343] flat_int [of 1100] by (auto simp: request_fields_def flat_JStr MAX_SAFE_INTEGER_def)
  then show ?thesis
    using json_round_trip_text [of request_fields] by (simp add: request_fields_def)
qed

lemma sample_fields: "json_field (JObj request_fields) ''to'' = Some (JStr sample_addr)"
  "json_field (JObj request_fields) ''data'' = Some (JStr ''0xc7787d0f'')"
  "json_field (JObj request_fields) ''value'' = None"
  "json_field (JObj request_fields) ''deadlineEpochSeconds'' = Some (JNum (jsint 1100))"
  "json_field (JObj request_fields) ''chainId'' = Some (JNum (jsint 6343))"
  by (simp_all add: json_field_def request_fields_def)

lemma sample_selector_allowed: "selector_in (getFunctionSelector ''0xc7787d0f'')
    (TESTNET_WITHDRAWAL_RELAYER_SELECTORS @ [PROOF_CONTEXT_V1_WITHDRAW_RELAYER_POLICY_SELECTOR])"
  by code_simp

lemma sample_policy_passes:
  assumes "0 < gas" "gas \<le> 20000000" "1000 \<le> now" "now < 1100"
  shows "validatePolicy 6343 sample_addr ''0xc7787d0f'' 0 gas (Num 1100) (rt_policy testnet_runtime) now = Inr ()"
proof -
  have t: "is_safe_integer (jsint now)" "\<not> num_less (jsint now) (jsint 0)" "\<not> num_le (jsint 1100) (jsint now)"
    "\<not> num_less (num_add (jsint now) (jsint 120)) (jsint 1100)" "is_safe_integer (jsint 1100)"
    "\<not> num_less (jsint 300) (jsint 120)"
    using assms by (simp_all add: MAX_SAFE_INTEGER_def del: of_int_numeral)
  have "rp_errors (validateRelayBroadcastRequest \<lparr>bq_chainId = jsint 6343, bq_to = sample_addr, bq_data = ''0xc7787d0f'',
      bq_valueWei = 0, bq_gasLimit = gas, bq_deadlineEpochSeconds = jsint 1100\<rparr> (rt_policy testnet_runtime) (jsint now)) = []"
    using t assms sample_selector_allowed
    by (simp add: validateRelayBroadcastRequest_def Let_def testnet_runtime_def chain_6343 MAX_GAS_LIMIT_def
        MEGAETH_MAINNET_CHAIN_ID_def validateMainnetProductionSelectorPolicy_def MAX_RELAY_DEADLINE_SECONDS_FROM_NOW_def)
  then show ?thesis
    by (simp add: validatePolicy_def allowed_iff)
qed

lemma sample_normalizes:
  "normalizeRelayRequest sample_lib (JObj request_fields) testnet_runtime (Some sample_addr) 1000 = Inr sample_normalized"
proof -
  have rt: "rt_chainId testnet_runtime = 6343" "rt_pool testnet_runtime = sample_addr"
    "rt_feePolicy testnet_runtime = None" "rt_relayValidationMode testnet_runtime = None"
    by (simp_all add: testnet_runtime_def chain_6343)
  have "validateWithdrawalRelayCalldata sample_lib (withdrawal_input testnet_runtime ''0xc7787d0f'' (Num 1100) (Some sample_addr)) =
      Inr \<lparr>cv_allowed = True, cv_errors = [], cv_decoded = Some sample_call\<rparr>"
    by (rule sample_accept) (simp_all add: withdrawal_input_def rt)
  moreover have "parseHex (Some (JStr ''0xc7787d0f'')) ''data'' = Inr ''0xc7787d0f''"
    by (simp add: parseHex_def js_defs)
  ultimately show ?thesis
    using sample_policy_passes [of 1 1000] rt
    by (simp add: normalizeRelayRequest_def member_def sample_fields parseAddress_def of_throw_def request_value_def
        safe_deadline_def throw_if_def validateWithdrawalCall_def sample_normalized_def MAX_SAFE_INTEGER_def
        is_safe_integer_def)
qed

lemma sample_accepts: "accept_request sample_lib testnet_env (sample_post headers) sample_outside =
    Inr (Some (sample_addr, testnet_runtime, sample_normalized))"
proof -
  have rt: "rt_environment testnet_runtime = TESTNET" "rt_chainId testnet_runtime = 6343" "rt_feeSource testnet_runtime = None"
    by (simp_all add: testnet_runtime_def chain_6343)
  show ?thesis
    using sample_normalizes not_mainnet
    by (simp add: accept_request_def sample_runtime sample_post_def sample_outside_def sample_body rt
        isRelayEndpointPath_def of_library_def assertRelayerSignerBinding_def throw_if_def
        resolveRelayRuntimeFeePolicy_def)
qed

section \<open>Its admission\<close>

lemma sample_config_ok: "config_ok RELAY_RATE_LIMIT_CONFIG"
  unfolding config_ok_def by code_simp

text \<open>While no counter exceeds 1, one more request is within every limit.\<close>

lemma sample_rate:
  assumes "\<forall>k. readCount timed_kv s k \<le> c" "c \<le> 1"
  shows "\<exists>s'. check_rate_limit timed_kv testnet_env request testnet_runtime n now s = (s', Inr ()) \<and>
    (\<forall>k. readCount timed_kv s' k \<le> c + 1)"
proof -
  define i where "i = \<lparr>rl_chainId = rt_chainId testnet_runtime, rl_pool = rt_pool testnet_runtime,
    rl_ip = getClientIp request, rl_destination = call_destination (nr_withdrawal n),
    rl_nullifier = call_nullifier (nr_withdrawal n), rl_nowEpochSeconds = now\<rparr>"
  have "validateRelayRateLimitConfig RELAY_RATE_LIMIT_CONFIG = Inr ()"
    using sample_config_ok by (simp add: config_ok_def)
  then obtain d s' where run: "checkAndRecordRelayRateLimit timed_kv RELAY_RATE_LIMIT_CONFIG i s = Inr (d, s')"
    by (simp add: checkAndRecordRelayRateLimit_def Let_def) (metis (full_types))
  have "kv_settled kv_clock 0 s" by (simp add: kv_settled_def settled_def)
  note step = check_step [OF timed_store.kv_store_axioms sample_config_ok run this,
      folded prompt_count [OF prompt_store.prompt_kv_store_axioms]]
  have limits: "\<forall>(l, k, lm) \<in> set (rate_checks RELAY_RATE_LIMIT_CONFIG i). 3 \<le> num_int lm"
    by (simp add: rate_checks_def Let_def RELAY_RATE_LIMIT_CONFIG_def)
  have "rl_allowed d \<longleftrightarrow> (\<forall>(l, k, lm) \<in> set (rate_checks RELAY_RATE_LIMIT_CONFIG i). readCount timed_kv s k + 1 \<le> num_int lm)"
    using step by blast
  moreover have count: "readCount timed_kv s k + 1 \<le> 3" for k
    using assms(1) [rule_format, of k] assms(2) by linarith
  have "readCount timed_kv s k + 1 \<le> num_int lm" if "(l, k, lm) \<in> set (rate_checks RELAY_RATE_LIMIT_CONFIG i)" for l k lm
    using limits that count [of k] by fastforce
  ultimately have allowed: "rl_allowed d"
    by blast
  have "readCount timed_kv s' k \<le> c + 1" for k
    using step [of k] assms(1) [rule_format, of k] by (simp split: if_splits)
  moreover have "check_rate_limit timed_kv testnet_env request testnet_runtime n now s = (s', Inr ())"
    using run allowed unfolding i_def
    by (simp add: check_rate_limit_def resolveRelayRateLimitStore_def resolve_binding_def testnet_env_def
        assertRelayRateLimit_def throw_if_def)
  ultimately show ?thesis by blast
qed

definition sample_idempotency :: idempotency_input where
  "sample_idempotency = \<lparr>ii_chainId = 6343, ii_pool = sample_addr, ii_nullifier = call_nullifier sample_call,
     ii_calldata = ''0xc7787d0f'', ii_nowEpochSeconds = 1000\<rparr>"

definition sample_rd :: ready_request where
  "sample_rd = \<lparr>rd_account = sample_addr, rd_request = sample_normalized, rd_gas = 220000,
     rd_prepared = Some (buildRelayIdempotencyPrepared sample_idempotency (keccak sample_viem ''0xc7787d0f''))\<rparr>"

lemma sample_admit:
  assumes "\<forall>k. readCount timed_kv (w_rate w) k \<le> c" "c \<le> 1"
    "\<And>key. readRelayIdempotencyRecord timed_kv (w_idempotency w) key = None"
  shows "\<exists>s. admit sample_worker timed_kv testnet_env (sample_post headers) sample_outside w = (w\<lparr>w_rate := s\<rparr>, Admitted sample_rd) \<and>
    (\<forall>k. readCount timed_kv s k \<le> c + 1)"
proof -
  obtain s where s: "check_rate_limit timed_kv testnet_env (sample_post headers) testnet_runtime sample_normalized 1000 (w_rate w) = (s, Inr ())"
    "\<forall>k. readCount timed_kv s k \<le> c + 1"
    using sample_rate [OF assms(1,2)] by blast
  have ready: "prepareRelayIdempotency timed_kv (keccak sample_viem) (w_idempotency w) sample_idempotency =
      Ready (buildRelayIdempotencyPrepared sample_idempotency (keccak sample_viem ''0xc7787d0f''))"
    by (simp add: prepareRelayIdempotency_def assms(3) asSubmitted_def sample_idempotency_def Let_def)
  have gas: "padded_gas 100000 = 220000"
    by (simp add: padded_gas_def bigint_div_def)
  have "check_idempotency timed_kv sample_lib testnet_env sample_outside (w_idempotency w) sample_addr testnet_runtime sample_normalized =
      Inr (Admitted sample_rd)"
    using ready sample_policy_passes [of 220000 1001] gas
    by (simp add: check_idempotency_def resolveRelayIdempotencyStore_def resolve_binding_def testnet_env_def
        decide_idempotency_def sample_outside_def sample_normalized_def sample_idempotency_def testnet_runtime_def
        relayIdempotencyResponse_def check_transaction_def assertWithdrawalNullifierUnspent_def of_library_def
        throw_if_def prepared_of_def sample_rd_def Let_def)
  then have "admit sample_worker timed_kv testnet_env (sample_post headers) sample_outside w = (w\<lparr>w_rate := s\<rparr>, Admitted sample_rd)"
    using s(1) sample_accepts [of headers]
    by (simp add: admit_def sample_worker_def or_failed_def) (simp add: sample_post_def sample_outside_def)
  with s(2) show ?thesis by blast
qed

definition fresh_world :: "kv_state worker_world" where
  "fresh_world = \<lparr>w_rate = empty_store, w_idempotency = empty_store, w_sent = []\<rparr>"

lemma fresh_store: "readCount timed_kv empty_store k = 0" "readRelayIdempotencyRecord timed_kv empty_store k = None"
  by (simp_all add: readCount_def parse_count_def readRelayIdempotencyRecord_def)

lemma fresh_admit: "\<exists>s. admit sample_worker timed_kv testnet_env (sample_post headers) sample_outside fresh_world =
    (fresh_world\<lparr>w_rate := s\<rparr>, Admitted sample_rd) \<and> (\<forall>k. readCount timed_kv s k \<le> 1)"
  using sample_admit [of fresh_world 0 headers] by (simp add: fresh_world_def fresh_store)

section \<open>Witnesses\<close>

lemma relayed_transaction_checked_witness:
  "\<exists>w' rd. admit sample_worker timed_kv testnet_env (sample_post (\<lambda>_. None)) sample_outside fresh_world = (w', Admitted rd) \<and>
     tx_gas (ready_transaction rd) \<le> 20000000 \<and> w_sent w' = []"
proof -
  obtain s where s: "admit sample_worker timed_kv testnet_env (sample_post (\<lambda>_. None)) sample_outside fresh_world =
      (fresh_world\<lparr>w_rate := s\<rparr>, Admitted sample_rd)"
    using fresh_admit by blast
  from relayed_transaction_checked [OF s] s show ?thesis
    by (intro exI conjI) (assumption, auto simp: fresh_world_def)
qed

lemma header_bypass_sends_twice_witness:
  "\<exists>sys. (system_step sample_worker timed_kv kv_clock testnet_env
       {(sample_post (\<lambda>_. Some ''1''), sample_outside)})\<^sup>*\<^sup>* (idle_system fresh_world) sys \<and>
     map tx_data (w_sent (sy_world sys)) = [''0xc7787d0f'', ''0xc7787d0f'']"
proof -
  let ?q = "sample_post (\<lambda>_. Some ''1'')"
  obtain s where s: "admit sample_worker timed_kv testnet_env ?q sample_outside fresh_world =
      (fresh_world\<lparr>w_rate := s\<rparr>, Admitted sample_rd)" "\<forall>k. readCount timed_kv s k \<le> 1"
    using fresh_admit by blast
  have "readRelayIdempotencyRecord timed_kv (w_idempotency (fresh_world\<lparr>w_rate := s\<rparr>)) k = None" for k
    by (simp add: fresh_world_def fresh_store)
  then obtain s2 where s2: "admit sample_worker timed_kv testnet_env ?q sample_outside (fresh_world\<lparr>w_rate := s\<rparr>) =
      (fresh_world\<lparr>w_rate := s2\<rparr>, Admitted sample_rd)"
    using sample_admit [of "fresh_world\<lparr>w_rate := s\<rparr>" 1 "\<lambda>_. Some ''1''"] s(2) by auto
  have hyp: "(?q, sample_outside) \<in> {(?q, sample_outside)}" "rq_header ?q ''x-relayer-nonce-queue'' = Some ''1''"
    "has_nonce_queue testnet_env"
    by (simp_all add: sample_post_def testnet_env_def)
  have "tx_data (ready_transaction sample_rd) = ''0xc7787d0f''" "w_sent fresh_world = []"
    by (simp_all add: ready_transaction_def sample_rd_def sample_normalized_def fresh_world_def)
  with conjunct2 [OF header_bypass_sends_twice [OF hyp s(1) s2]] show ?thesis by force
qed

text \<open>The records of one request, an hour later, and its counters at any later time.\<close>

definition expire_at :: "int \<Rightarrow> kv_state \<Rightarrow> bool" where
  "expire_at e s \<longleftrightarrow> (\<forall>entry \<in> set (ks_writes s). snd (snd (snd entry)) = e)"

lemma write_expires:
  "ks_now (writeRelayIdempotencyRecord timed_kv s p r) = ks_now s"
  "expire_at (ks_now s + 3600) s \<Longrightarrow> expire_at (ks_now s + 3600) (writeRelayIdempotencyRecord timed_kv s p r)"
  by (cases "stringify (record_json r)";
      simp add: writeRelayIdempotencyRecord_def timed_kv_def RELAY_IDEMPOTENCY_TTL_SECONDS_def expire_at_def)+

lemma expired: "expire_at e s \<Longrightarrow> e \<le> ks_now s \<Longrightarrow> readRelayIdempotencyRecord timed_kv s key = None"
proof -
  have "kv_latest now ws key = None" if "\<forall>entry \<in> set ws. snd (snd (snd entry)) = e" "e \<le> now" for now ws
    using that by (induction now ws key rule: kv_latest.induct) auto
  then show "expire_at e s \<Longrightarrow> e \<le> ks_now s \<Longrightarrow> ?thesis"
    by (simp add: readRelayIdempotencyRecord_def timed_kv_def expire_at_def)
qed

lemma sample_submit:
  "\<exists>w' r p q q'. submit sample_worker timed_kv sample_outside sample_rd (record_pending timed_kv sample_rd w) = (w', Finished r) \<and>
     w_rate w' = w_rate w \<and> w_sent w' = w_sent w @ [ready_transaction sample_rd] \<and>
     w_idempotency (record_pending timed_kv sample_rd w) = writeRelayIdempotencyRecord timed_kv (w_idempotency w) p q \<and>
     w_idempotency w' = writeRelayIdempotencyRecord timed_kv (w_idempotency (record_pending timed_kv sample_rd w)) p q' \<and>
     w_sent (record_pending timed_kv sample_rd w) = w_sent w"
proof -
  show ?thesis
    unfolding submit_def record_pending_def
    by (simp add: sample_rd_def sample_outside_def recordRelaySubmitted_def recordRelayPending_def Let_def) blast
qed

lemma sample_send:
  assumes "ks_now (w_idempotency w) = t"
  obtains w' r where "submit sample_worker timed_kv sample_outside sample_rd (record_pending timed_kv sample_rd w) = (w', Finished r)"
    "w_rate w' = w_rate w" "w_sent w' = w_sent w @ [ready_transaction sample_rd]" "ks_now (w_idempotency w') = t"
    "expire_at (t + 3600) (w_idempotency w) \<longrightarrow> expire_at (t + 3600) (w_idempotency w')"
    "ks_now (w_idempotency (record_pending timed_kv sample_rd w)) = t"
    "w_sent (record_pending timed_kv sample_rd w) = w_sent w"
proof -
  from sample_submit [of w] obtain w' r p q q' where
    w: "submit sample_worker timed_kv sample_outside sample_rd (record_pending timed_kv sample_rd w) = (w', Finished r)"
    "w_rate w' = w_rate w" "w_sent w' = w_sent w @ [ready_transaction sample_rd]"
    "w_idempotency (record_pending timed_kv sample_rd w) = writeRelayIdempotencyRecord timed_kv (w_idempotency w) p q"
    "w_idempotency w' = writeRelayIdempotencyRecord timed_kv (w_idempotency (record_pending timed_kv sample_rd w)) p q'"
    "w_sent (record_pending timed_kv sample_rd w) = w_sent w" by blast
  have rec: "ks_now (w_idempotency (record_pending timed_kv sample_rd w)) = t"
    "expire_at (t + 3600) (w_idempotency w) \<Longrightarrow> expire_at (t + 3600) (w_idempotency (record_pending timed_kv sample_rd w))"
    unfolding w(4) using write_expires [of "w_idempotency w"] assms by simp_all
  then have "ks_now (w_idempotency w') = t" "expire_at (t + 3600) (w_idempotency w) \<Longrightarrow> expire_at (t + 3600) (w_idempotency w')"
    unfolding w(5) using write_expires [of "w_idempotency (record_pending timed_kv sample_rd w)"] by simp_all
  with that w rec show ?thesis by blast
qed

lemma later_latest: "0 \<le> d \<Longrightarrow> kv_latest (now + d) ws k = kv_latest now ws k \<or> kv_latest (now + d) ws k = None"
  by (induction now ws k rule: kv_latest.induct) auto

lemma later_counts:
  assumes "\<forall>k. readCount timed_kv s k \<le> 1" "0 \<le> d"
  shows "readCount timed_kv (kv_wait kv_clock s d) k \<le> 1"
proof -
  have "readCount timed_kv (kv_wait kv_clock s d) k = readCount timed_kv s k \<or> readCount timed_kv (kv_wait kv_clock s d) k = 0"
    using later_latest [OF assms(2), of "ks_now s" "ks_writes s" k]
    by (auto simp: readCount_def timed_kv_def kv_clock_def parse_count_def)
  with assms(1) [rule_format, of k] show ?thesis by auto
qed

text \<open>One request in the queue, from its arrival to its answer.\<close>

definition turn_state :: "kv_state worker_world \<Rightarrow> arrival list \<Rightarrow> (arrival \<times> stage) option \<Rightarrow> response list \<Rightarrow> kv_state relay_system" where
  "turn_state w waiting active answered =
     \<lparr>sy_world = w, sy_direct = [], sy_waiting = waiting, sy_active = active, sy_answered = answered\<rparr>"

definition turn_states :: "arrival \<Rightarrow> kv_state worker_world \<Rightarrow> kv_state \<Rightarrow> kv_state worker_world \<Rightarrow> response \<Rightarrow> response list \<Rightarrow> kv_state relay_system list" where
  "turn_states a w s w' r ans =
     [turn_state w [] None ans, turn_state w [a] None ans, turn_state w [] (Some (a, Received)) ans,
      turn_state (w\<lparr>w_rate := s\<rparr>) [] (Some (a, Admitted sample_rd)) ans,
      turn_state (record_pending timed_kv sample_rd (w\<lparr>w_rate := s\<rparr>)) [] (Some (a, Recorded sample_rd)) ans,
      turn_state w' [] (Some (a, Finished r)) ans, turn_state w' [] None (ans @ [r])]"

lemma sample_queued: "\<exists>q. queueMainnetRelayRequestIfNeeded sample_worker testnet_env (sample_post (\<lambda>_. None)) sample_outside = Queued q"
  using sample_runtime not_mainnet
  by (simp add: queueMainnetRelayRequestIfNeeded_def sample_post_def route_request_def sample_worker_def
      testnet_runtime_def isRelayEndpointPath_def of_library_def sample_outside_def assertRelayerSignerBinding_def
      resolveRelayNonceQueue_def resolve_binding_def testnet_env_def)

abbreviation queued_step :: "kv_state relay_system \<Rightarrow> kv_state relay_system \<Rightarrow> bool" where
  "queued_step \<equiv> system_step sample_worker timed_kv kv_clock testnet_env {(sample_post (\<lambda>_. None), sample_outside)}"

lemma turn_steps:
  assumes "a = (sample_post (\<lambda>_. None), sample_outside)"
    "admit sample_worker timed_kv testnet_env (fst a) (snd a) w = (w\<lparr>w_rate := s\<rparr>, Admitted sample_rd)"
    "submit sample_worker timed_kv (snd a) sample_rd (record_pending timed_kv sample_rd (w\<lparr>w_rate := s\<rparr>)) = (w', Finished r)"
  shows "successively queued_step (turn_states a w s w' r ans)"
proof -
  obtain q where q: "queueMainnetRelayRequestIfNeeded sample_worker testnet_env (fst a) (snd a) = Queued q"
    using sample_queued assms(1) by auto
  have 1: "queued_step (turn_state w [] None ans) (turn_state w [a] None ans)"
    using system_step.ArriveQueued [of "fst a" "snd a" "{a}" sample_worker testnet_env q timed_kv kv_clock "turn_state w [] None ans"]
      q assms(1) by (simp add: turn_state_def)
  have turn: "queued_step x (queue_turn sample_worker timed_kv testnet_env x)" for x by (rule system_step.QueueTurn)
  have 2: "queued_step (turn_state w [a] None ans) (turn_state w [] (Some (a, Received)) ans)"
    using turn [of "turn_state w [a] None ans"] by (simp add: turn_state_def queue_turn_def)
  have 3: "queued_step (turn_state w [] (Some (a, Received)) ans) (turn_state (w\<lparr>w_rate := s\<rparr>) [] (Some (a, Admitted sample_rd)) ans)"
    using turn [of "turn_state w [] (Some (a, Received)) ans"] assms(2) by (cases a) (simp add: turn_state_def queue_turn_def)
  have 4: "queued_step (turn_state (w\<lparr>w_rate := s\<rparr>) [] (Some (a, Admitted sample_rd)) ans)
      (turn_state (record_pending timed_kv sample_rd (w\<lparr>w_rate := s\<rparr>)) [] (Some (a, Recorded sample_rd)) ans)"
    using turn [of "turn_state (w\<lparr>w_rate := s\<rparr>) [] (Some (a, Admitted sample_rd)) ans"]
    by (cases a) (simp add: turn_state_def queue_turn_def)
  have 5: "queued_step (turn_state (record_pending timed_kv sample_rd (w\<lparr>w_rate := s\<rparr>)) [] (Some (a, Recorded sample_rd)) ans)
      (turn_state w' [] (Some (a, Finished r)) ans)"
    using turn [of "turn_state (record_pending timed_kv sample_rd (w\<lparr>w_rate := s\<rparr>)) [] (Some (a, Recorded sample_rd)) ans"] assms(3)
    by (cases a) (simp add: turn_state_def queue_turn_def)
  have 6: "queued_step (turn_state w' [] (Some (a, Finished r)) ans) (turn_state w' [] None (ans @ [r]))"
    using turn [of "turn_state w' [] (Some (a, Finished r)) ans"] by (simp add: turn_state_def queue_turn_def)
  show ?thesis
    using 1 2 3 4 5 6 by (simp add: turn_states_def)
qed

text \<open>The same request again after an hour: the records of the first have expired and it is sent again.\<close>

lemma queued_notes_sent_once_witness:
  "\<exists>(run :: nat \<Rightarrow> kv_state relay_system) n r a.
     run 0 = idle_system fresh_world \<and> map tx_data (sent_of (run 13)) = [''0xc7787d0f'', ''0xc7787d0f''] \<and>
     r \<le> 4 \<and> 4 < a \<and> a < 11 \<and> noted kv_clock (store_of (run 4)) (note_key sample_lib testnet_env n) (kv_now kv_clock (store_of (run r))) \<and>
     kv_now kv_clock (store_of (run r)) + 3600 \<le> kv_now kv_clock (store_of (run a))"
proof -
  let ?q = "sample_post (\<lambda>_. None)"
  let ?a = "(?q, sample_outside)"
  obtain s where s: "admit sample_worker timed_kv testnet_env ?q sample_outside fresh_world = (fresh_world\<lparr>w_rate := s\<rparr>, Admitted sample_rd)"
    "\<forall>k. readCount timed_kv s k \<le> 1"
    using fresh_admit by blast
  have first: "ks_now (w_idempotency (fresh_world\<lparr>w_rate := s\<rparr>)) = 0" "expire_at (0 + 3600) (w_idempotency (fresh_world\<lparr>w_rate := s\<rparr>))"
    by (simp_all add: fresh_world_def empty_store_def expire_at_def)
  obtain w3 r1 where
    one: "submit sample_worker timed_kv sample_outside sample_rd (record_pending timed_kv sample_rd (fresh_world\<lparr>w_rate := s\<rparr>)) = (w3, Finished r1)"
    "w_rate w3 = w_rate (fresh_world\<lparr>w_rate := s\<rparr>)" "w_sent w3 = w_sent (fresh_world\<lparr>w_rate := s\<rparr>) @ [ready_transaction sample_rd]"
    "ks_now (w_idempotency w3) = 0"
    "expire_at (0 + 3600) (w_idempotency (fresh_world\<lparr>w_rate := s\<rparr>)) \<longrightarrow> expire_at (0 + 3600) (w_idempotency w3)"
    "ks_now (w_idempotency (record_pending timed_kv sample_rd (fresh_world\<lparr>w_rate := s\<rparr>))) = 0"
    "w_sent (record_pending timed_kv sample_rd (fresh_world\<lparr>w_rate := s\<rparr>)) = w_sent (fresh_world\<lparr>w_rate := s\<rparr>)"
    by (rule sample_send [OF first(1)])
  have "w_sent fresh_world = []" by (simp add: fresh_world_def)
  then have sub: "w_rate w3 = s" "w_sent w3 = [ready_transaction sample_rd]" "expire_at 3600 (w_idempotency w3)"
    "w_sent (record_pending timed_kv sample_rd (fresh_world\<lparr>w_rate := s\<rparr>)) = []"
    using one(2,3,5,7) first(2) by simp_all
  let ?w4 = "pass_time kv_clock 3600 w3"
  have now4: "ks_now (w_idempotency ?w4) = 3600" "w_sent ?w4 = [ready_transaction sample_rd]" "expire_at 3600 (w_idempotency ?w4)"
    using sub(2,3) one(4) by (simp_all add: pass_time_def kv_clock_def expire_at_def)
  have "\<forall>k. readCount timed_kv (w_rate ?w4) k \<le> 1"
    using later_counts [OF s(2)] by (simp add: pass_time_def sub(1))
  then obtain s2 where s2: "admit sample_worker timed_kv testnet_env ?q sample_outside ?w4 = (?w4\<lparr>w_rate := s2\<rparr>, Admitted sample_rd)"
    using sample_admit [of ?w4 1 "\<lambda>_. None"] expired [OF now4(3)] now4(1) by auto
  have second: "ks_now (w_idempotency (?w4\<lparr>w_rate := s2\<rparr>)) = 3600" "w_sent (?w4\<lparr>w_rate := s2\<rparr>) = [ready_transaction sample_rd]"
    using now4 by simp_all
  obtain w6 r2 where
    two: "submit sample_worker timed_kv sample_outside sample_rd (record_pending timed_kv sample_rd (?w4\<lparr>w_rate := s2\<rparr>)) = (w6, Finished r2)"
    "w_rate w6 = w_rate (?w4\<lparr>w_rate := s2\<rparr>)" "w_sent w6 = w_sent (?w4\<lparr>w_rate := s2\<rparr>) @ [ready_transaction sample_rd]"
    "ks_now (w_idempotency w6) = 3600"
    "expire_at (3600 + 3600) (w_idempotency (?w4\<lparr>w_rate := s2\<rparr>)) \<longrightarrow> expire_at (3600 + 3600) (w_idempotency w6)"
    "ks_now (w_idempotency (record_pending timed_kv sample_rd (?w4\<lparr>w_rate := s2\<rparr>))) = 3600"
    "w_sent (record_pending timed_kv sample_rd (?w4\<lparr>w_rate := s2\<rparr>)) = w_sent (?w4\<lparr>w_rate := s2\<rparr>)"
    by (rule sample_send [OF second(1)])
  have sub2: "w_sent w6 = [ready_transaction sample_rd, ready_transaction sample_rd]"
    "w_sent (record_pending timed_kv sample_rd (?w4\<lparr>w_rate := s2\<rparr>)) = [ready_transaction sample_rd]"
    unfolding two(3,7) second(2) by simp_all
  define states where "states = turn_states ?a fresh_world s w3 r1 [] @ turn_states ?a ?w4 s2 w6 r2 [r1]"
  let ?run = "\<lambda>k. states ! k"
  have "queued_step (turn_state w3 [] None [r1]) (turn_state ?w4 [] None [r1])"
    using system_step.Elapse [of 3600 sample_worker timed_kv kv_clock testnet_env "{?a}" "turn_state w3 [] None [r1]"]
    by (simp add: turn_state_def)
  moreover note turn_steps [OF refl, of fresh_world s w3 r1 "[]"] turn_steps [OF refl, of ?w4 s2 w6 r2 "[r1]"]
  ultimately have "successively queued_step states"
    using s(1) s2 one(1) two(1) unfolding states_def successively_append_iff fst_conv snd_conv
    by (auto simp: turn_states_def)
  moreover have len: "length states = 14" by (simp add: states_def turn_states_def)
  ultimately have steps: "\<forall>k \<le> 11. queued_step (?run k) (?run (Suc k))"
    by (auto simp: successively_conv_nth)
  have begin0: "?run 0 = idle_system fresh_world" by (simp add: states_def turn_states_def turn_state_def idle_system_def)
  have now: "ks_now (w_idempotency fresh_world) = 0" "w_sent fresh_world = []"
    by (simp_all add: fresh_world_def empty_store_def)
  have clocks: "map (\<lambda>x. ks_now (store_of x)) states = replicate 7 0 @ replicate 7 3600"
    by (simp add: states_def turn_states_def turn_state_def store_of_def numeral_eq_Suc one(4,6) two(4,6) now4(1) now)
  have sent: "map sent_of states = replicate 5 [] @ replicate 7 [ready_transaction sample_rd] @
      replicate 2 [ready_transaction sample_rd, ready_transaction sample_rd]"
    by (simp add: states_def turn_states_def turn_state_def sent_of_def numeral_eq_Suc sub(2,4) sub2 now4(2) now)
  have clock: "0 \<le> kv_now kv_clock (store_of (?run k))" "k < 7 \<Longrightarrow> kv_now kv_clock (store_of (?run k)) = 0" if "k < 14" for k
    using arg_cong [where f = "\<lambda>xs. xs ! k", OF clocks] that by (auto simp: len kv_clock_def nth_append)
  have sent_at: "sent_of (?run k) = (replicate 5 [] @ replicate 7 [ready_transaction sample_rd] @
      replicate 2 [ready_transaction sample_rd, ready_transaction sample_rd]) ! k" if "k < 14" for k
    using arg_cong [where f = "\<lambda>xs. xs ! k", OF sent] that by (simp add: len)
  have sends: "sends_at ?run 4 (ready_transaction sample_rd)" "sends_at ?run 11 (ready_transaction sample_rd)"
    by (simp_all add: sends_at_def sent_at nth_append)
  have data: "map tx_data (sent_of (?run 13)) = [''0xc7787d0f'', ''0xc7787d0f'']"
    by (simp add: sent_at nth_append ready_transaction_def sample_rd_def sample_normalized_def)
  have lib: "relay_lib_ok (wl_relay sample_worker)" "has_idempotency_kv testnet_env" "has_nonce_queue testnet_env"
    "\<forall>(request, out) \<in> {?a}. rq_header request ''x-relayer-nonce-queue'' \<noteq> Some ''1'' \<and> outside_ok out"
    by (auto simp: relay_lib_ok_def sample_worker_def sample_lib_def sample_viem_def toBytes32_shape isHexBytes32_isHex
        testnet_env_def sample_post_def outside_ok_def sample_outside_def MAX_SAFE_INTEGER_def
        isHex_def js_defs split: if_splits)
  have "4 < (11::nat)" by simp
  from queued_notes_sent_once [where run = "?run" and lag = 0, OF timed_store.kv_store_axioms lib begin0 steps this sends refl]
  obtain n r a where concl: "r \<le> 4" "4 < a" "a < 11"
    "noted kv_clock (store_of (?run 4)) (note_key (wl_relay sample_worker) testnet_env n) (kv_now kv_clock (store_of (?run r)))"
    "kv_now kv_clock (store_of (?run a)) < kv_now kv_clock (store_of (?run r)) + 0 \<or>
     kv_now kv_clock (store_of (?run r)) + 3600 \<le> kv_now kv_clock (store_of (?run a))" by blast
  have "kv_now kv_clock (store_of (?run r)) \<le> kv_now kv_clock (store_of (?run a))"
    using clock(2) [of r] clock(1) [of a] concl(1,3) by simp
  then have late: "kv_now kv_clock (store_of (?run r)) + 3600 \<le> kv_now kv_clock (store_of (?run a))" using concl(5) by simp
  have "wl_relay sample_worker = sample_lib" by (simp add: sample_worker_def)
  with begin0 data concl(1-4) late show ?thesis by (metis (no_types, lifting))
qed

definition mainnet_env :: worker_env where
  "mainnet_env = testnet_env\<lparr>RELAYER_ENVIRONMENT := Some MAINNET,
     ENV_SHIELDED_POOL_ADDRESS := Some REQUIRED_MAINNET_SHIELDED_POOL_ADDRESS, MAINNET_RELAYER_APPROVED := Some ''true'',
     MAINNET_RELAYER_PUBLIC_RUNTIME_SHA256 := Some (''sha256:'' @ REQUIRED_MAINNET_PUBLIC_RUNTIME_SHA256),
     MAINNET_RELAYER_TRUSTED_SETUP_SHA256 := Some REQUIRED_MAINNET_TRUSTED_SETUP_SHA256,
     RELAYER_V1_2_WITHDRAW_SELECTOR := Some REQUIRED_MAINNET_WITHDRAW_SELECTOR,
     RELAYER_V1_2_FEE_SOURCE := Some ''on-chain-feeBps''\<rparr>"

lemma mainnet_constants: "isEvmAddress REQUIRED_MAINNET_SHIELDED_POOL_ADDRESS"
  "\<not> isObviousPlaceholderAddress REQUIRED_MAINNET_SHIELDED_POOL_ADDRESS"
  "to_lower REQUIRED_MAINNET_SHIELDED_POOL_ADDRESS \<notin> set (map to_lower FORBIDDEN_V1_2_MAINNET_SHIELDED_POOL_ADDRESSES)"
  "to_lower REQUIRED_MAINNET_WITHDRAW_SELECTOR = REQUIRED_MAINNET_WITHDRAW_SELECTOR"
  "hex_of_length 8 REQUIRED_MAINNET_WITHDRAW_SELECTOR" "REQUIRED_MAINNET_WITHDRAW_SELECTOR \<noteq> []"
  "REQUIRED_MAINNET_SHIELDED_POOL_ADDRESS \<noteq> []" "MAINNET \<noteq> []"
  "normalizeSha256Binding (Some (''sha256:'' @ REQUIRED_MAINNET_PUBLIC_RUNTIME_SHA256)) =
     Some REQUIRED_MAINNET_PUBLIC_RUNTIME_SHA256"
  "normalizeSha256Binding (Some REQUIRED_MAINNET_TRUSTED_SETUP_SHA256) = Some REQUIRED_MAINNET_TRUSTED_SETUP_SHA256"
  by code_simp+

lemma mainnet_builds: "\<exists>rt. buildRelayRuntime sample_lib mainnet_env = Inr rt"
proof -
  have pool: "getAddress sample_lib REQUIRED_MAINNET_SHIELDED_POOL_ADDRESS = Inr REQUIRED_MAINNET_SHIELDED_POOL_ADDRESS"
    using mainnet_constants(1) by (simp add: getAddress_def sample_lib_def)
  have binding: "assertCurrentMainnetPublicArtifactBinding REQUIRED_MAINNET_SHIELDED_POOL_ADDRESS
      (Some REQUIRED_MAINNET_WITHDRAW_SELECTOR) REQUIRED_MAINNET_RPC_URL (Some ''on-chain-feeBps'')
      (Some (''sha256:'' @ REQUIRED_MAINNET_PUBLIC_RUNTIME_SHA256)) (Some REQUIRED_MAINNET_TRUSTED_SETUP_SHA256) = Inr ()"
    using mainnet_constants
    by (simp add: assertCurrentMainnetPublicArtifactBinding_def assertV12MainnetPoolHasFinalReadinessEvidence_def
        assertCurrentMainnetPool_def assertMainnetRelayerHashBinding_def throw_if_def del: set_map append.simps)
  show ?thesis
    using mainnet_constants pool binding
    by (simp add: buildRelayRuntime_def buildV12RelayRuntimeForTest_def mainnet_env_def testnet_env_def or_default_def
        of_throw_def throw_if_def truthy_def Let_def del: append.simps)
qed

lemma mainnet_runtime_pinned_witness:
  "\<exists>rt. buildRelayRuntime sample_lib mainnet_env = Inr rt \<and> rt_chainId rt = 4326"
proof -
  obtain rt where rt: "buildRelayRuntime sample_lib mainnet_env = Inr rt"
    using mainnet_builds ..
  have "RELAYER_ENVIRONMENT mainnet_env = Some MAINNET"
    by (simp add: mainnet_env_def)
  from mainnet_runtime_pinned [OF rt this] rt show ?thesis
    by (simp add: MEGAETH_MAINNET_CHAIN_ID_def)
qed

end
