(* ===== verification/Sdk_Withdraw.thy ===== *)
theory Sdk_Withdraw
  imports Note_Recovery
begin

text \<open>
  The SDK's side of a withdrawal: calldata and its checks (\<^verbatim>\<open>packages/sdk/src/withdraw/calldata.ts\<close>), the
  plan (\<^verbatim>\<open>withdraw/plan.ts\<close>) with the relayer's request (\<^verbatim>\<open>relayer/request.ts\<close>), and the preflight
  against a node (\<^verbatim>\<open>withdraw/preflight.ts\<close>).

  viem's \<open>encodeFunctionData\<close> and \<open>decodeFunctionData\<close> for the pool's \<open>withdraw\<close> are the record
  \<open>withdraw_abi\<close>: the code always passes the eight arguments of the overload with a note. The error
  of a throw is its message.
\<close>

section \<open>Inputs and calls\<close>

record bounded_input =
  wi_proof :: string
  wi_publicInputs :: "string list"
  wi_nullifier :: string
  wi_destination :: string
  wi_grossAmountWei :: string
  wi_minNetAmountWei :: string
  wi_maxFeeWei :: string

text \<open>What a verified encoding also needs; the commitment is the change or the output commitment.\<close>

record binding_input = bounded_input +
  wb_currentRoot :: string
  wb_commitment :: "string option"
  wb_expectedPool :: string
  wb_expectedChainId :: jsnum

record withdraw_args =
  wa_proof :: string
  wa_publicInputs :: "string list"
  wa_nullifier :: string
  wa_destination :: string
  wa_grossAmount :: int
  wa_note :: string
  wa_minNetAmount :: int
  wa_maxFeeAmount :: int

datatype decoded_function = WithdrawWithNote withdraw_args | WithdrawWithoutNote | OtherFunction

record withdraw_abi =
  wa_encode :: "withdraw_args \<Rightarrow> string + string"
  wa_decode :: "string \<Rightarrow> string + decoded_function"

record decoded_calldata =
  dc_proof :: string
  dc_publicInputs :: "string list"
  dc_nullifier :: string
  dc_destination :: string
  dc_grossAmountWei :: string
  dc_note :: string
  dc_minNetAmountWei :: string
  dc_maxFeeWei :: string

section \<open>Normalisation\<close>

definition sdk_assertBytes32 :: "string \<Rightarrow> string \<Rightarrow> string + string" where
  "sdk_assertBytes32 v msg = (if \<not> isHexBytes32 v then Inl msg else Inr v)"

definition sdk_assertAddress :: "string \<Rightarrow> string + string" where
  "sdk_assertAddress v = (if \<not> isEvmAddress v then Inl ''Expected a valid EVM destination address.'' else Inr v)"

definition normalizeHexBytes :: "string \<Rightarrow> string \<Rightarrow> string + string" where
  "normalizeHexBytes v msg =
     (let normalized = js_trim v in if \<not> isHexString normalized then Inl msg else Inr normalized)"

definition normalizeDecimalUint256 :: "string \<Rightarrow> string \<Rightarrow> string + int" where
  "normalizeDecimalUint256 v msg =
     (let normalized = js_trim v in
      if normalized = [] \<or> \<not> list_all is_digit normalized then Inl msg else Inr (int (radix_val 10 normalized)))"

definition inputs_of_length :: "nat list \<Rightarrow> string \<Rightarrow> string \<Rightarrow> string list \<Rightarrow> string + string list" where
  "inputs_of_length lengths length_msg msg values =
     (if length values \<notin> set lengths then Inl length_msg else map_res (\<lambda>v. sdk_assertBytes32 v msg) values)"

definition assertPublicInputs :: "string list \<Rightarrow> string + string list" where
  "assertPublicInputs =
     inputs_of_length [12] ''Expected exactly 12 public input bytes32 values.'' ''Expected every public input to be bytes32.''"

definition assertDecodedStageCWithdrawPublicInputs :: "string list \<Rightarrow> string + string list" where
  "assertDecodedStageCWithdrawPublicInputs =
     inputs_of_length [12, 10] ''Expected exactly 10 or 12 public input bytes32 values.''
       ''Expected every public input to be bytes32.''"

definition assertV12UnlinkableWithdrawPublicInputs :: "string list \<Rightarrow> string + string list" where
  "assertV12UnlinkableWithdrawPublicInputs =
     inputs_of_length [10] ''Expected exactly 10 public input bytes32 values for v1.2 unlinkable withdrawal.''
       ''Expected every v1.2 unlinkable public input to be bytes32.''"

definition check_amounts :: "int \<Rightarrow> int \<Rightarrow> int \<Rightarrow> string + unit" where
  "check_amounts grossAmount minNetAmount maxFeeAmount =
     (if grossAmount < 1 then Inl ''Expected gross amount wei to be positive.''
      else if minNetAmount > grossAmount
      then Inl ''Expected minimum net amount to be less than or equal to gross amount.''
      else if maxFeeAmount > grossAmount then Inl ''Expected maximum fee to be less than or equal to gross amount.''
      else Inr ())"

text \<open>The arguments without the note, which the callers add.\<close>

definition normalizeWithdrawInputWithPublicInputShape ::
  "'a bounded_input_scheme \<Rightarrow> (string list \<Rightarrow> string + string list) \<Rightarrow> string + withdraw_args" where
  "normalizeWithdrawInputWithPublicInputShape input assertShape =
     (let amountError = ''Expected gross amount, minimum net amount, and maximum fee as decimal integers.'' in
     bind_res (normalizeHexBytes (wi_proof input) ''Expected proof to be even-length hex bytes.'') (\<lambda>pr.
     bind_res (assertShape (wi_publicInputs input)) (\<lambda>inputs.
     bind_res (sdk_assertBytes32 (wi_nullifier input) ''Expected a 32-byte nullifier.'') (\<lambda>nullifier.
     bind_res (sdk_assertAddress (js_trim (wi_destination input))) (\<lambda>destination.
     bind_res (normalizeDecimalUint256 (wi_grossAmountWei input) amountError) (\<lambda>grossAmount.
     bind_res (normalizeDecimalUint256 (wi_minNetAmountWei input) amountError) (\<lambda>minNetAmount.
     bind_res (normalizeDecimalUint256 (wi_maxFeeWei input) amountError) (\<lambda>maxFeeAmount.
     bind_res (check_amounts grossAmount minNetAmount maxFeeAmount) (\<lambda>_.
       Inr \<lparr>wa_proof = pr, wa_publicInputs = inputs, wa_nullifier = nullifier, wa_destination = destination,
            wa_grossAmount = grossAmount, wa_note = ''0x'', wa_minNetAmount = minNetAmount,
            wa_maxFeeAmount = maxFeeAmount\<rparr>)))))))))"

section \<open>Encoding\<close>

definition encodeWithdrawBoundedCalldata :: "withdraw_abi \<Rightarrow> 'a bounded_input_scheme \<Rightarrow> string + string" where
  "encodeWithdrawBoundedCalldata A input =
     bind_res (normalizeWithdrawInputWithPublicInputShape input assertPublicInputs) (wa_encode A)"

definition encodeStageCWithdrawChangeNoteCalldata ::
  "withdraw_abi \<Rightarrow> 'a bounded_input_scheme \<Rightarrow> string \<Rightarrow> string + string" where
  "encodeStageCWithdrawChangeNoteCalldata A input note =
     bind_res (normalizeWithdrawInputWithPublicInputShape input assertPublicInputs) (\<lambda>normalized.
     bind_res (normalizeHexBytes note ''Expected proof and encrypted change note to be even-length hex bytes.'') (\<lambda>n.
       wa_encode A (normalized\<lparr>wa_note := n\<rparr>)))"

definition encodeV12UnlinkableWithdrawBoundedCalldata :: "'a bounded_input_scheme \<Rightarrow> string + string" where
  "encodeV12UnlinkableWithdrawBoundedCalldata input =
     bind_res (normalizeWithdrawInputWithPublicInputShape input assertV12UnlinkableWithdrawPublicInputs) (\<lambda>_.
       Inl ''v1.2 unlinkable withdrawals require encrypted output note calldata.'')"

definition encodeV12UnlinkableWithdrawOutputNoteCalldata ::
  "withdraw_abi \<Rightarrow> 'a bounded_input_scheme \<Rightarrow> string \<Rightarrow> string + string" where
  "encodeV12UnlinkableWithdrawOutputNoteCalldata A input note =
     bind_res (normalizeWithdrawInputWithPublicInputShape input assertV12UnlinkableWithdrawPublicInputs) (\<lambda>normalized.
     bind_res (normalizeHexBytes note ''Expected proof and encrypted output note to be even-length hex bytes.'') (\<lambda>n.
       if n = ''0x'' then Inl ''Expected v1.2 encrypted output note to be always-present nonempty hex bytes.''
       else wa_encode A (normalized\<lparr>wa_note := n\<rparr>)))"

section \<open>Decoding\<close>

definition STAGE_C_SELECTOR :: string where
  "STAGE_C_SELECTOR = ''0x678d8506''"

definition decode_fields :: "decoded_function \<Rightarrow> string + decoded_calldata" where
  "decode_fields f =
     (case f of
        WithdrawWithNote a \<Rightarrow>
          bind_res (normalizeHexBytes (wa_proof a) ''Expected proof to be even-length hex bytes.'') (\<lambda>pr.
          bind_res (assertDecodedStageCWithdrawPublicInputs (wa_publicInputs a)) (\<lambda>inputs.
          bind_res (sdk_assertBytes32 (wa_nullifier a) ''Expected a 32-byte nullifier.'') (\<lambda>nullifier.
          bind_res (sdk_assertAddress (wa_destination a)) (\<lambda>destination.
          bind_res (normalizeHexBytes (wa_note a)
                      ''Expected proof and encrypted change note to be even-length hex bytes.'') (\<lambda>n.
          bind_res (check_amounts (wa_grossAmount a) (wa_minNetAmount a) (wa_maxFeeAmount a)) (\<lambda>_.
            Inr \<lparr>dc_proof = pr, dc_publicInputs = inputs, dc_nullifier = nullifier, dc_destination = destination,
                 dc_grossAmountWei = dec_string (wa_grossAmount a), dc_note = n,
                 dc_minNetAmountWei = dec_string (wa_minNetAmount a), dc_maxFeeWei = dec_string (wa_maxFeeAmount a)\<rparr>))))))
      | _ \<Rightarrow> Inl ''wrong-shape'')"

definition decodeStageCWithdrawCalldata :: "withdraw_abi \<Rightarrow> string \<Rightarrow> string + decoded_calldata" where
  "decodeStageCWithdrawCalldata A v =
     (if \<not> isHexString v then Inl ''Expected withdrawal calldata to be even-length hex bytes.''
      else if \<not> starts_with STAGE_C_SELECTOR (to_lower v)
      then Inl ''Expected proof-bound stage-C withdrawal calldata selector.''
      else case bind_res (wa_decode A v) decode_fields of
        Inl e \<Rightarrow> if starts_with ''Expected'' e then Inl e
                 else Inl ''Expected complete proof-bound stage-C withdrawal calldata.''
      | Inr d \<Rightarrow> Inr d)"

definition assertStageCWithdrawBoundedCalldata :: "withdraw_abi \<Rightarrow> string \<Rightarrow> string + string" where
  "assertStageCWithdrawBoundedCalldata A v = bind_res (decodeStageCWithdrawCalldata A v) (\<lambda>_. Inr v)"

definition decodeV12UnlinkableWithdrawOutputNoteCalldata :: "withdraw_abi \<Rightarrow> string \<Rightarrow> string + decoded_calldata" where
  "decodeV12UnlinkableWithdrawOutputNoteCalldata A v =
     bind_res (decodeStageCWithdrawCalldata A v) (\<lambda>decoded.
     bind_res (assertV12UnlinkableWithdrawPublicInputs (dc_publicInputs decoded)) (\<lambda>inputs.
     bind_res (normalizeHexBytes (dc_note decoded)
                 ''Expected proof and encrypted output note to be even-length hex bytes.'') (\<lambda>n.
       if n = ''0x'' then Inl ''Expected v1.2 encrypted output note to be always-present nonempty hex bytes.''
       else Inr (decoded\<lparr>dc_publicInputs := inputs, dc_note := n\<rparr>))))"

text \<open>\<open>decoded.publicInputs.some((input, i) => input !== expected[i]?.toLowerCase())\<close>: only as far as the decoded list goes.\<close>

fun some_input_differs :: "string list \<Rightarrow> string list \<Rightarrow> bool" where
  "some_input_differs [] expected = False"
| "some_input_differs (x # xs) [] = True"
| "some_input_differs (x # xs) (y # ys) = (to_lower x \<noteq> to_lower y \<or> some_input_differs xs ys)"

definition assertStageCWithdrawCalldataBinding ::
  "withdraw_abi \<Rightarrow> string \<Rightarrow> 'a bounded_input_scheme \<Rightarrow> string + string" where
  "assertStageCWithdrawCalldataBinding A v expected =
     bind_res (decodeStageCWithdrawCalldata A v) (\<lambda>decoded.
     bind_res (assertPublicInputs (wi_publicInputs expected)) (\<lambda>expectedPublicInputs.
     bind_res (sdk_assertBytes32 (wi_nullifier expected) ''Expected a 32-byte nullifier.'') (\<lambda>expectedNullifier.
     bind_res (sdk_assertAddress (js_trim (wi_destination expected))) (\<lambda>expectedDestination.
     bind_res (normalizeDecimalUint256 (wi_grossAmountWei expected) ''Expected gross amount wei as a decimal integer.'') (\<lambda>expectedGrossAmount.
     bind_res (normalizeDecimalUint256 (wi_minNetAmountWei expected) ''Expected minimum net amount wei as a decimal integer.'') (\<lambda>expectedMinNetAmount.
     bind_res (normalizeDecimalUint256 (wi_maxFeeWei expected) ''Expected maximum fee wei as a decimal integer.'') (\<lambda>expectedMaxFee.
       if some_input_differs (dc_publicInputs decoded) expectedPublicInputs
       then Inl ''Withdrawal calldata public inputs do not match the proof bundle.''
       else if to_lower (dc_nullifier decoded) \<noteq> to_lower expectedNullifier
       then Inl ''Withdrawal calldata nullifier does not match the proof bundle.''
       else if to_lower (dc_destination decoded) \<noteq> to_lower expectedDestination
       then Inl ''Withdrawal calldata destination does not match the withdrawal plan.''
       else if js_bigint (dc_grossAmountWei decoded) \<noteq> Some expectedGrossAmount
       then Inl ''Withdrawal calldata amount does not match the withdrawal plan.''
       else if js_bigint (dc_minNetAmountWei decoded) \<noteq> Some expectedMinNetAmount \<or>
               js_bigint (dc_maxFeeWei decoded) \<noteq> Some expectedMaxFee
       then Inl ''Withdrawal calldata fee bounds do not match the withdrawal plan.''
       else Inr v)))))))"

section \<open>The public inputs a verified encoding requires\<close>

text \<open>A sequence of checks of which the first that applies throws its message.\<close>

fun first_throw :: "(bool \<times> string) list \<Rightarrow> string + unit" where
  "first_throw [] = Inr ()"
| "first_throw ((c, msg) # cs) = (if c then Inl msg else first_throw cs)"

definition isBn254FieldElement :: "string \<Rightarrow> bool" where
  "isBn254FieldElement v \<longleftrightarrow> isHexBytes32 v \<and> 0 < hex_value v \<and> hex_value v < BN254_SCALAR_FIELD"

definition input_address :: "string \<Rightarrow> string" where
  "input_address v = ''0x'' @ to_lower (drop (length v - 40) v)"

text \<open>\<open>commitment !== undefined && input.toLowerCase() !== commitment.trim().toLowerCase()\<close>\<close>

definition other_commitment :: "string option \<Rightarrow> string \<Rightarrow> bool" where
  "other_commitment commitment input =
     (case commitment of None \<Rightarrow> False | Some c \<Rightarrow> to_lower input \<noteq> to_lower (js_trim c))"

definition assertWithdrawPublicInputBinding :: "'a binding_input_scheme \<Rightarrow> string + unit" where
  "assertWithdrawPublicInputBinding i =
     bind_res (assertPublicInputs (wi_publicInputs i)) (\<lambda>xs.
     bind_res (sdk_assertBytes32 (wb_currentRoot i) ''Expected current root to be bytes32 hex.'') (\<lambda>expectedRoot.
     bind_res (sdk_assertBytes32 (wi_nullifier i) ''Expected a 32-byte nullifier.'') (\<lambda>expectedNullifier.
     bind_res (sdk_assertAddress (js_trim (wi_destination i))) (\<lambda>expectedDestination.
     bind_res (normalizeDecimalUint256 (wi_grossAmountWei i) ''Expected gross amount wei as a decimal integer.'') (\<lambda>expectedGrossAmount.
     bind_res (sdk_assertAddress (wb_expectedPool i)) (\<lambda>pool.
       first_throw
        [(\<not> num_eq (wb_expectedChainId i) (jsint 4326) \<and> \<not> num_eq (wb_expectedChainId i) (jsint 6343),
          ''Expected withdrawal proof chain ID to be MegaETH mainnet or testnet.''),
         (to_lower (xs ! 0) \<noteq> to_lower expectedRoot, ''Withdrawal proof root does not match the current pool root.''),
         (to_lower (xs ! 1) \<noteq> to_lower expectedNullifier, ''Withdrawal nullifier does not match public inputs.''),
         (xs ! 2 \<noteq> ZERO_BYTES32 \<and> \<not> isBn254FieldElement (xs ! 2),
          ''Withdrawal change commitment is not a nonzero BN254 field element.''),
         (other_commitment (wb_commitment i) (xs ! 2), ''Withdrawal change commitment does not match public inputs.''),
         (to_lower (input_address (xs ! 3)) \<noteq> to_lower expectedDestination,
          ''Withdrawal destination does not match public inputs.''),
         (js_bigint (xs ! 4) \<noteq> Some expectedGrossAmount, ''Withdrawal amount does not match public inputs.''),
         (js_bigint (xs ! 6) \<noteq> Some (num_int (wb_expectedChainId i)),
          ''Withdrawal proof is not bound to the active MegaETH chain.''),
         (to_lower (input_address (xs ! 7)) \<noteq> to_lower pool, ''Withdrawal proof is not bound to this shielded pool.''),
         (\<not> isBn254FieldElement (xs ! 8), ''Withdrawal spent commitment is not a nonzero BN254 field element.''),
         (js_bigint (xs ! 9) = Some 0, ''Withdrawal note amount must be positive.''),
         (xs ! 10 = ZERO_BYTES32 \<or> xs ! 11 = ZERO_BYTES32,
          ''Withdrawal proof must bind nonzero proof context and encrypted note hashes.'')]))))))"

definition assertV12UnlinkableWithdrawPublicInputBinding :: "'a binding_input_scheme \<Rightarrow> string + unit" where
  "assertV12UnlinkableWithdrawPublicInputBinding i =
     bind_res (assertV12UnlinkableWithdrawPublicInputs (wi_publicInputs i)) (\<lambda>xs.
     bind_res (sdk_assertBytes32 (wb_currentRoot i) ''Expected current root to be bytes32 hex.'') (\<lambda>expectedRoot.
     bind_res (sdk_assertBytes32 (wi_nullifier i) ''Expected a 32-byte nullifier.'') (\<lambda>expectedNullifier.
     bind_res (sdk_assertAddress (js_trim (wi_destination i))) (\<lambda>expectedDestination.
     bind_res (normalizeDecimalUint256 (wi_grossAmountWei i) ''Expected gross amount wei as a decimal integer.'') (\<lambda>expectedGrossAmount.
     bind_res (sdk_assertAddress (wb_expectedPool i)) (\<lambda>pool.
       first_throw
        [(\<not> num_eq (wb_expectedChainId i) (jsint 4326) \<and> \<not> num_eq (wb_expectedChainId i) (jsint 6343),
          ''Expected withdrawal proof chain ID to be MegaETH mainnet or testnet.''),
         (to_lower (xs ! 0) \<noteq> to_lower expectedRoot, ''Withdrawal proof root does not match the current pool root.''),
         (to_lower (xs ! 1) \<noteq> to_lower expectedNullifier, ''Withdrawal nullifier does not match public inputs.''),
         (xs ! 2 = ZERO_BYTES32 \<or> \<not> isBn254FieldElement (xs ! 2),
          ''Withdrawal output commitment is not a nonzero BN254 field element.''),
         (other_commitment (wb_commitment i) (xs ! 2), ''Withdrawal output commitment does not match public inputs.''),
         (to_lower (input_address (xs ! 3)) \<noteq> to_lower expectedDestination,
          ''Withdrawal destination does not match public inputs.''),
         (js_bigint (xs ! 4) \<noteq> Some expectedGrossAmount, ''Withdrawal amount does not match public inputs.''),
         (js_bigint (xs ! 6) \<noteq> Some (num_int (wb_expectedChainId i)),
          ''Withdrawal proof is not bound to the active MegaETH chain.''),
         (to_lower (input_address (xs ! 7)) \<noteq> to_lower pool, ''Withdrawal proof is not bound to this shielded pool.''),
         (xs ! 8 = ZERO_BYTES32 \<or> xs ! 9 = ZERO_BYTES32,
          ''Withdrawal proof must bind nonzero proof context and encrypted output note hashes.'')]))))))"

definition encodeVerifiedWithdrawBoundedCalldata :: "withdraw_abi \<Rightarrow> 'a binding_input_scheme \<Rightarrow> string + string" where
  "encodeVerifiedWithdrawBoundedCalldata A i =
     bind_res (assertWithdrawPublicInputBinding i) (\<lambda>_. encodeWithdrawBoundedCalldata A i)"

definition encodeVerifiedStageCWithdrawChangeNoteCalldata ::
  "withdraw_abi \<Rightarrow> 'a binding_input_scheme \<Rightarrow> string \<Rightarrow> string + string" where
  "encodeVerifiedStageCWithdrawChangeNoteCalldata A i note =
     bind_res (assertWithdrawPublicInputBinding i) (\<lambda>_. encodeStageCWithdrawChangeNoteCalldata A i note)"

definition encodeVerifiedV12UnlinkableWithdrawBoundedCalldata :: "'a binding_input_scheme \<Rightarrow> string + string" where
  "encodeVerifiedV12UnlinkableWithdrawBoundedCalldata i =
     bind_res (assertV12UnlinkableWithdrawPublicInputBinding i) (\<lambda>_. encodeV12UnlinkableWithdrawBoundedCalldata i)"

definition encodeVerifiedV12UnlinkableWithdrawOutputNoteCalldata ::
  "withdraw_abi \<Rightarrow> 'a binding_input_scheme \<Rightarrow> string \<Rightarrow> string + string" where
  "encodeVerifiedV12UnlinkableWithdrawOutputNoteCalldata A i note =
     bind_res (assertV12UnlinkableWithdrawPublicInputBinding i) (\<lambda>_. encodeV12UnlinkableWithdrawOutputNoteCalldata A i note)"

section \<open>Lemmas\<close>

lemma first_throw_Inr [res_simps]: "first_throw cs = Inr u \<longleftrightarrow> list_all (\<lambda>c. \<not> fst c) cs"
  by (induction cs rule: first_throw.induct) simp_all

lemma sdk_asserts_Inr [res_simps]:
  "sdk_assertBytes32 v msg = Inr w \<longleftrightarrow> isHexBytes32 v \<and> w = v"
  "sdk_assertAddress v = Inr w \<longleftrightarrow> isEvmAddress v \<and> w = v"
  "normalizeHexBytes v msg = Inr w \<longleftrightarrow> isHexString (js_trim v) \<and> w = js_trim v"
  "normalizeDecimalUint256 v msg = Inr n \<longleftrightarrow>
     js_trim v \<noteq> [] \<and> list_all is_digit (js_trim v) \<and> n = int (radix_val 10 (js_trim v))"
  "check_amounts g mi ma = Inr u \<longleftrightarrow> 1 \<le> g \<and> mi \<le> g \<and> ma \<le> g"
  by (auto simp: sdk_assertBytes32_def sdk_assertAddress_def normalizeHexBytes_def normalizeDecimalUint256_def
      check_amounts_def Let_def)

lemma map_res_bytes32: "map_res (\<lambda>v. sdk_assertBytes32 v msg) xs = Inr ys \<longleftrightarrow> list_all isHexBytes32 xs \<and> ys = xs"
  by (induction xs arbitrary: ys) (auto simp: res_simps)

lemma inputs_of_length_Inr [res_simps]:
  "inputs_of_length ls m1 m2 xs = Inr ys \<longleftrightarrow> length xs \<in> set ls \<and> list_all isHexBytes32 xs \<and> ys = xs"
  by (auto simp: inputs_of_length_def map_res_bytes32)

lemmas input_shape_defs = assertPublicInputs_def assertDecodedStageCWithdrawPublicInputs_def
  assertV12UnlinkableWithdrawPublicInputs_def

lemma some_input_differs_iff:
  "some_input_differs xs ys \<longleftrightarrow> \<not> (length xs \<le> length ys \<and> map to_lower xs = map to_lower (take (length xs) ys))"
  by (induction xs ys rule: some_input_differs.induct) auto

text \<open>An \<open>isHexString\<close> is its own trim, and a bigint is read back from its decimal text.\<close>

lemma js_trim_hex:
  assumes "isHexString s"
  shows "js_trim s = s"
proof -
  from assms obtain t where t: "s = ''0x'' @ t" "list_all is_hex_char t"
    by (auto elim: isHexStringE)
  have "\<not> is_space (last s)"
  proof (cases "t = []")
    case False
    with t have "is_hex_char (last t)" by (simp add: list_all_iff)
    with t False is_hex_char_not_space show ?thesis by simp
  qed (simp add: t is_space_def code_def)
  with t show ?thesis
    by (intro js_trim_id) (simp_all add: is_space_def code_def)
qed

lemma js_bigint_digits:
  assumes "s \<noteq> []" "list_all is_digit s"
  shows "js_bigint s = Some (int (radix_val 10 s))"
proof -
  have dig: "is_digit c" if "c \<in> set s" for c using assms that by (simp add: list_all_iff)
  have trim: "js_trim s = s"
    using assms(1) dig is_digit_not_space by (intro js_trim_id) auto
  have rad: "is_radix_digit 10 c" if "is_digit c" for c
    using that by (auto simp: is_radix_digit_def is_hex_char_def digit_val_def is_digit_def)
  have start: "\<not> starts_with p s" if "\<exists>c \<in> set p. \<not> is_digit c" for p
    using that dig unfolding starts_with_def by (metis in_set_takeD)
  have "radix_literal 10 s = Some (int (radix_val 10 s))"
    using assms rad by (auto simp: radix_literal_def list_all_iff)
  then show ?thesis
    using assms(1) by (simp add: js_bigint_def Let_def trim bigint_literal_def start is_digit_def code_def)
qed

lemma js_bigint_dec_string [simp]: "0 \<le> n \<Longrightarrow> js_bigint (dec_string n) = Some n"
  using js_bigint_digits [of "radix_string 10 (nat n)"] by (simp add: dec_string_def)

section \<open>What is encoded is decoded\<close>

text \<open>
  The documented behaviour of the coder: bytes come back in lower case, the address with the same
  digits (in its checksum case), and the calldata starts with the selector of the overload.
\<close>

definition read_back :: "withdraw_args \<Rightarrow> withdraw_args \<Rightarrow> bool" where
  "read_back a b \<longleftrightarrow> wa_proof b = to_lower (wa_proof a) \<and> wa_publicInputs b = map to_lower (wa_publicInputs a) \<and>
     wa_nullifier b = to_lower (wa_nullifier a) \<and> isEvmAddress (wa_destination b) \<and>
     to_lower (wa_destination b) = to_lower (wa_destination a) \<and> wa_grossAmount b = wa_grossAmount a \<and>
     wa_note b = to_lower (wa_note a) \<and> wa_minNetAmount b = wa_minNetAmount a \<and> wa_maxFeeAmount b = wa_maxFeeAmount a"

definition abi_faithful :: "withdraw_abi \<Rightarrow> bool" where
  "abi_faithful A \<longleftrightarrow> (\<forall>a calldata. wa_encode A a = Inr calldata \<longrightarrow>
     isHexString calldata \<and> starts_with STAGE_C_SELECTOR (to_lower calldata) \<and>
     (\<exists>b. wa_decode A calldata = Inr (WithdrawWithNote b) \<and> read_back a b))"

definition args_ok :: "withdraw_args \<Rightarrow> bool" where
  "args_ok a \<longleftrightarrow> isHexString (wa_proof a) \<and> length (wa_publicInputs a) \<in> {10, 12} \<and>
     list_all isHexBytes32 (wa_publicInputs a) \<and> isHexBytes32 (wa_nullifier a) \<and> isEvmAddress (wa_destination a) \<and>
     isHexString (wa_note a) \<and> 1 \<le> wa_grossAmount a \<and> 0 \<le> wa_minNetAmount a \<and> 0 \<le> wa_maxFeeAmount a \<and>
     wa_minNetAmount a \<le> wa_grossAmount a \<and> wa_maxFeeAmount a \<le> wa_grossAmount a"

text \<open>The arguments are the input's fields, trimmed and with the amounts read as numbers.\<close>

definition args_of :: "'a bounded_input_scheme \<Rightarrow> string \<Rightarrow> withdraw_args \<Rightarrow> bool" where
  "args_of i note a \<longleftrightarrow> wa_proof a = js_trim (wi_proof i) \<and> wa_publicInputs a = wi_publicInputs i \<and>
     wa_nullifier a = wi_nullifier i \<and> wa_destination a = js_trim (wi_destination i) \<and> wa_note a = js_trim note \<and>
     normalizeDecimalUint256 (wi_grossAmountWei i) [] = Inr (wa_grossAmount a) \<and>
     normalizeDecimalUint256 (wi_minNetAmountWei i) [] = Inr (wa_minNetAmount a) \<and>
     normalizeDecimalUint256 (wi_maxFeeWei i) [] = Inr (wa_maxFeeAmount a)"

lemma normalized_args:
  assumes "normalizeWithdrawInputWithPublicInputShape i (inputs_of_length ls m1 m2) = Inr a"
    "set ls \<subseteq> {10, 12}" "isHexString (js_trim note)"
  shows "args_ok (a\<lparr>wa_note := js_trim note\<rparr>)" "args_of i note (a\<lparr>wa_note := js_trim note\<rparr>)"
    "length (wi_publicInputs i) \<in> set ls" "wa_note a = ''0x''"
  using assms unfolding normalizeWithdrawInputWithPublicInputShape_def Let_def
  by (auto simp: res_simps args_ok_def args_of_def)

lemma empty_note [simp]: "isHexString ''0x''" "js_trim ''0x'' = ''0x''"
  by (simp_all add: isHexString_def js_trim_def is_space_def code_def)

lemma encoded_args:
  assumes "encodeVerifiedWithdrawBoundedCalldata A i = Inr calldata"
  shows "\<exists>a. wa_encode A a = Inr calldata \<and> args_ok a \<and> args_of i ''0x'' a \<and>
    length (wi_publicInputs i) = 12 \<and> assertWithdrawPublicInputBinding i = Inr ()"
proof -
  from assms obtain a where a: "normalizeWithdrawInputWithPublicInputShape i assertPublicInputs = Inr a"
    "wa_encode A a = Inr calldata" "assertWithdrawPublicInputBinding i = Inr ()"
    by (auto simp: encodeVerifiedWithdrawBoundedCalldata_def encodeWithdrawBoundedCalldata_def res_simps)
  note n = normalized_args [OF a(1) [unfolded assertPublicInputs_def], of "''0x''"]
  moreover have "a\<lparr>wa_note := ''0x''\<rparr> = a"
    using n(4) by (cases a) simp
  ultimately show ?thesis
    using a(2,3) by (intro exI [of _ a]) simp
qed

lemma encoded_note_args:
  assumes "encodeVerifiedStageCWithdrawChangeNoteCalldata A i note = Inr calldata"
  shows "\<exists>a. wa_encode A a = Inr calldata \<and> args_ok a \<and> args_of i note a \<and>
    length (wi_publicInputs i) = 12 \<and> assertWithdrawPublicInputBinding i = Inr ()"
proof -
  from assms obtain a where a: "normalizeWithdrawInputWithPublicInputShape i assertPublicInputs = Inr a"
    "wa_encode A (a\<lparr>wa_note := js_trim note\<rparr>) = Inr calldata" "isHexString (js_trim note)"
    "assertWithdrawPublicInputBinding i = Inr ()"
    by (auto simp: encodeVerifiedStageCWithdrawChangeNoteCalldata_def encodeStageCWithdrawChangeNoteCalldata_def res_simps)
  with normalized_args [OF a(1) [unfolded assertPublicInputs_def] _ a(3)] show ?thesis
    by (intro exI [of _ "a\<lparr>wa_note := js_trim note\<rparr>"]) simp
qed

lemma encoded_output_args:
  assumes "encodeVerifiedV12UnlinkableWithdrawOutputNoteCalldata A i note = Inr calldata"
  shows "\<exists>a. wa_encode A a = Inr calldata \<and> args_ok a \<and> args_of i note a \<and>
    length (wi_publicInputs i) = 10 \<and> assertV12UnlinkableWithdrawPublicInputBinding i = Inr ()"
proof -
  from assms obtain a where a: "normalizeWithdrawInputWithPublicInputShape i assertV12UnlinkableWithdrawPublicInputs = Inr a"
    "wa_encode A (a\<lparr>wa_note := js_trim note\<rparr>) = Inr calldata" "isHexString (js_trim note)"
    "assertV12UnlinkableWithdrawPublicInputBinding i = Inr ()"
    by (auto simp: encodeVerifiedV12UnlinkableWithdrawOutputNoteCalldata_def
        encodeV12UnlinkableWithdrawOutputNoteCalldata_def res_simps)
  with normalized_args [OF a(1) [unfolded assertV12UnlinkableWithdrawPublicInputs_def] _ a(3)] show ?thesis
    by (intro exI [of _ "a\<lparr>wa_note := js_trim note\<rparr>"]) simp
qed

text \<open>The decoded call has the fields of the arguments, up to case.\<close>

definition decoded_as :: "withdraw_args \<Rightarrow> decoded_calldata \<Rightarrow> bool" where
  "decoded_as a d \<longleftrightarrow> dc_proof d = to_lower (wa_proof a) \<and> dc_publicInputs d = map to_lower (wa_publicInputs a) \<and>
     dc_nullifier d = to_lower (wa_nullifier a) \<and> to_lower (dc_destination d) = to_lower (wa_destination a) \<and>
     dc_grossAmountWei d = dec_string (wa_grossAmount a) \<and> dc_note d = to_lower (wa_note a) \<and>
     dc_minNetAmountWei d = dec_string (wa_minNetAmount a) \<and> dc_maxFeeWei d = dec_string (wa_maxFeeAmount a)"

lemma encoded_decodes:
  assumes "abi_faithful A" "wa_encode A a = Inr calldata" "args_ok a"
  shows "isHexString calldata" "\<exists>d. decodeStageCWithdrawCalldata A calldata = Inr d \<and> decoded_as a d"
proof -
  from assms(1,2) obtain b where b: "wa_decode A calldata = Inr (WithdrawWithNote b)" "read_back a b"
    and c: "isHexString calldata" "starts_with STAGE_C_SELECTOR (to_lower calldata)"
    unfolding abi_faithful_def by blast
  have "list_all isHexBytes32 (map to_lower (wa_publicInputs a))"
    using assms(3) by (auto simp: args_ok_def list_all_iff)
  then obtain d where "decode_fields (WithdrawWithNote b) = Inr d" "decoded_as a d"
    using assms(3) b(2)
    by (auto simp: decode_fields_def input_shape_defs res_simps args_ok_def read_back_def decoded_as_def js_trim_hex)
  with b c show "\<exists>d. decodeStageCWithdrawCalldata A calldata = Inr d \<and> decoded_as a d"
    by (simp add: decodeStageCWithdrawCalldata_def)
  show "isHexString calldata" by (fact c)
qed

lemma decoded_shape:
  assumes "decodeStageCWithdrawCalldata A v = Inr d"
  shows "length (dc_publicInputs d) \<in> {10, 12}" "isHexString v" "list_all isHexBytes32 (dc_publicInputs d)"
proof -
  from assms obtain f where v: "isHexString v" and f: "decode_fields f = Inr d"
    by (auto simp: decodeStageCWithdrawCalldata_def res_simps split: if_splits sum.splits)
  from f obtain a where "f = WithdrawWithNote a"
    by (cases f) (simp_all add: decode_fields_def)
  with v f show "length (dc_publicInputs d) \<in> {10, 12}" "isHexString v" "list_all isHexBytes32 (dc_publicInputs d)"
    by (auto simp: decode_fields_def input_shape_defs res_simps)
qed

text \<open>
  What the calldata check binds, exactly. It accepts a call if and only if the call decodes and
  agrees with the expected withdrawal in nullifier, destination, amount and both fee bounds, and its
  public inputs are the first of the twelve expected ones, up to case: all twelve when the call
  carries twelve, but only ten when it carries ten, so that then the last two expected inputs (the
  context hash and the encrypted note's hash) are compared with nothing. The encrypted note is not
  compared at all.
\<close>

theorem calldata_binding_exact:
  "assertStageCWithdrawCalldataBinding A v expected = Inr r \<longleftrightarrow>
     r = v \<and> (\<exists>d grossAmount minNet maxFee. decodeStageCWithdrawCalldata A v = Inr d \<and>
       length (dc_publicInputs d) \<in> {10, 12} \<and> length (wi_publicInputs expected) = 12 \<and>
       list_all isHexBytes32 (wi_publicInputs expected) \<and>
       map to_lower (dc_publicInputs d) = map to_lower (take (length (dc_publicInputs d)) (wi_publicInputs expected)) \<and>
       isHexBytes32 (wi_nullifier expected) \<and> to_lower (dc_nullifier d) = to_lower (wi_nullifier expected) \<and>
       isEvmAddress (js_trim (wi_destination expected)) \<and>
       to_lower (dc_destination d) = to_lower (js_trim (wi_destination expected)) \<and>
       normalizeDecimalUint256 (wi_grossAmountWei expected) [] = Inr grossAmount \<and>
       js_bigint (dc_grossAmountWei d) = Some grossAmount \<and>
       normalizeDecimalUint256 (wi_minNetAmountWei expected) [] = Inr minNet \<and>
       js_bigint (dc_minNetAmountWei d) = Some minNet \<and>
       normalizeDecimalUint256 (wi_maxFeeWei expected) [] = Inr maxFee \<and> js_bigint (dc_maxFeeWei d) = Some maxFee)"
proof (cases "decodeStageCWithdrawCalldata A v")
  case (Inl e)
  then show ?thesis by (simp add: assertStageCWithdrawCalldataBinding_def)
next
  case (Inr d)
  with decoded_shape [OF Inr] show ?thesis
    by (simp add: assertStageCWithdrawCalldataBinding_def input_shape_defs res_simps some_input_differs_iff)
      (cases "length (dc_publicInputs d) = 10"; auto)
qed

text \<open>A call made from an input passes the check against that input.\<close>

lemma encoded_bound:
  assumes "abi_faithful A" "wa_encode A a = Inr calldata" "args_ok a" "args_of i note a" "length (wi_publicInputs i) = 12"
  shows "assertStageCWithdrawCalldataBinding A calldata i = Inr calldata"
proof -
  from encoded_decodes [OF assms(1-3)] obtain d where d: "decodeStageCWithdrawCalldata A calldata = Inr d" "decoded_as a d"
    by blast
  with assms(3-5) show ?thesis
    by (auto simp: assertStageCWithdrawCalldataBinding_def input_shape_defs res_simps some_input_differs_iff
        args_ok_def args_of_def decoded_as_def comp_def)
qed

end
