(* ===== verification/Sdk_Plan.thy ===== *)
theory Sdk_Plan
  imports Sdk_Withdraw Relay_Bindings
begin

text \<open>
  How the SDK plans a withdrawal and hands it over: \<^verbatim>\<open>withdraw/plan.ts\<close>, the relayer's request and the
  wallet's transaction (\<^verbatim>\<open>relayer/request.ts\<close>), the checks before submission
  (\<^verbatim>\<open>relayer/submit.ts\<close>) and the preflight against a node (\<^verbatim>\<open>withdraw/preflight.ts\<close>).

  The clock is a parameter in seconds. The reply of a node to a preflight request is a function of
  the request's JSON-RPC id, which counts up, and of the request; a reply without result is
  \<open>ResultBody None\<close>.
\<close>

section \<open>Requests and transactions\<close>

record plan_runtime = sdk_runtime +
  rt_groth16PublicInputOrder :: "string list"

record relayer_request =
  rr_chainId :: int
  rr_to :: string
  rr_value :: string
  rr_data :: string
  rr_deadlineEpochSeconds :: jsnum

record wallet_transaction =
  wt_chainId :: int
  wt_to :: string
  wt_value :: int
  wt_data :: string

definition NULLARK_WITHDRAW_PUBLIC_INPUT_ORDER_V1_2 :: "string list" where
  "NULLARK_WITHDRAW_PUBLIC_INPUT_ORDER_V1_2 =
     [''root'', ''nullifier'', ''outputCommitment'', ''destination'', ''grossAmount'', ''fee'', ''chainId'',
      ''verifyingContract'', ''proofContextHash'', ''encryptedOutputNoteHash'']"

definition assertPool :: "string \<Rightarrow> string + string" where
  "assertPool v = (if \<not> isEvmAddress v then Inl ''Runtime pool must be an EVM address.'' else Inr v)"

definition usesV12UnlinkableWithdrawals :: "'a plan_runtime_scheme \<Rightarrow> bool" where
  "usesV12UnlinkableWithdrawals runtime \<longleftrightarrow>
     rt_groth16PublicInputOrder runtime = NULLARK_WITHDRAW_PUBLIC_INPUT_ORDER_V1_2"

definition assertRuntimeWithdrawalCalldata :: "withdraw_abi \<Rightarrow> 'a plan_runtime_scheme \<Rightarrow> string \<Rightarrow> string + string" where
  "assertRuntimeWithdrawalCalldata A runtime calldata =
     (if usesV12UnlinkableWithdrawals runtime
      then (case decodeV12UnlinkableWithdrawOutputNoteCalldata A calldata of
          Inl e \<Rightarrow> Inl (''Expected v1.2 unlinkable withdrawal calldata with 10 public inputs and an encrypted output note. '' @ e)
        | Inr _ \<Rightarrow> Inr calldata)
      else assertStageCWithdrawBoundedCalldata A calldata)"

definition buildWithdrawalRelayerRequest ::
  "withdraw_abi \<Rightarrow> int \<Rightarrow> 'a plan_runtime_scheme \<Rightarrow> string \<Rightarrow> jsnum option \<Rightarrow> jsnum option \<Rightarrow> string + relayer_request" where
  "buildWithdrawalRelayerRequest A clock runtime calldata nowInput deadlineInput =
     (let deadlineSeconds = or_else deadlineInput (jsint 120);
          now = or_else nowInput (jsint clock) in
      if \<not> is_safe_integer deadlineSeconds \<or> num_le deadlineSeconds (jsint 0) \<or> num_less (jsint 120) deadlineSeconds
      then Inl ''Relayer deadline must be between 1 and 120 seconds.''
      else if \<not> is_safe_integer now \<or> num_le now (jsint 0)
      then Inl ''Current epoch seconds must be a positive safe integer.''
      else bind_res (assertPool (rt_pool runtime)) (\<lambda>pool.
           bind_res (assertRuntimeWithdrawalCalldata A runtime calldata) (\<lambda>data.
             Inr \<lparr>rr_chainId = rt_chainId runtime, rr_to = pool, rr_value = ''0x0'', rr_data = data,
                  rr_deadlineEpochSeconds = num_add now deadlineSeconds\<rparr>)))"

definition buildDirectWalletWithdrawalTransaction ::
  "withdraw_abi \<Rightarrow> 'a plan_runtime_scheme \<Rightarrow> string \<Rightarrow> string + wallet_transaction" where
  "buildDirectWalletWithdrawalTransaction A runtime calldata =
     bind_res (assertPool (rt_pool runtime)) (\<lambda>pool.
     bind_res (assertRuntimeWithdrawalCalldata A runtime calldata) (\<lambda>data.
       Inr \<lparr>wt_chainId = rt_chainId runtime, wt_to = pool, wt_value = 0, wt_data = data\<rparr>))"

section \<open>Plans\<close>

text \<open>The note is the encrypted change note or the encrypted output note.\<close>

record plan_input = bounded_input +
  pl_currentRoot :: string
  pl_note :: "string option"
  pl_commitment :: "string option"
  pl_nowEpochSeconds :: "jsnum option"

record withdrawal_plan =
  wp_chainId :: int
  wp_pool :: string
  wp_calldata :: string
  wp_relayerRequest :: relayer_request
  wp_directWalletTransaction :: wallet_transaction

definition plan_common :: "'a plan_runtime_scheme \<Rightarrow> plan_input \<Rightarrow> binding_input" where
  "plan_common runtime i =
     \<lparr>wi_proof = wi_proof i, wi_publicInputs = wi_publicInputs i, wi_nullifier = wi_nullifier i,
      wi_destination = wi_destination i, wi_grossAmountWei = wi_grossAmountWei i,
      wi_minNetAmountWei = wi_minNetAmountWei i, wi_maxFeeWei = wi_maxFeeWei i,
      wb_currentRoot = pl_currentRoot i, wb_commitment = pl_commitment i,
      wb_expectedPool = rt_pool runtime, wb_expectedChainId = jsint (rt_chainId runtime)\<rparr>"

definition plan_of_calldata ::
  "withdraw_abi \<Rightarrow> int \<Rightarrow> 'a plan_runtime_scheme \<Rightarrow> plan_input \<Rightarrow> string \<Rightarrow> string + withdrawal_plan" where
  "plan_of_calldata A clock runtime i calldata =
     bind_res (buildWithdrawalRelayerRequest A clock runtime calldata (pl_nowEpochSeconds i) None) (\<lambda>request.
     bind_res (buildDirectWalletWithdrawalTransaction A runtime calldata) (\<lambda>tx.
       Inr \<lparr>wp_chainId = rt_chainId runtime, wp_pool = rt_pool runtime, wp_calldata = calldata,
            wp_relayerRequest = request, wp_directWalletTransaction = tx\<rparr>))"

definition createWithdrawalPlan ::
  "withdraw_abi \<Rightarrow> int \<Rightarrow> 'a plan_runtime_scheme \<Rightarrow> plan_input \<Rightarrow> string + withdrawal_plan" where
  "createWithdrawalPlan A clock runtime i =
     bind_res (case pl_note i of
         None \<Rightarrow> encodeVerifiedWithdrawBoundedCalldata A (plan_common runtime i)
       | Some note \<Rightarrow> encodeVerifiedStageCWithdrawChangeNoteCalldata A (plan_common runtime i) note)
       (plan_of_calldata A clock runtime i)"

text \<open>The unlinkable plan's note is not optional.\<close>

definition createV12UnlinkableWithdrawalPlan ::
  "withdraw_abi \<Rightarrow> int \<Rightarrow> 'a plan_runtime_scheme \<Rightarrow> plan_input \<Rightarrow> string \<Rightarrow> string + withdrawal_plan" where
  "createV12UnlinkableWithdrawalPlan A clock runtime i note =
     bind_res (encodeVerifiedV12UnlinkableWithdrawOutputNoteCalldata A (plan_common runtime i) note)
       (plan_of_calldata A clock runtime i)"

section \<open>Submission\<close>

definition assertRelayerTransactionRequest :: "withdraw_abi \<Rightarrow> relayer_request \<Rightarrow> string + relayer_request" where
  "assertRelayerTransactionRequest A r =
     (if \<not> is_safe_integer (jsint (rr_chainId r)) \<or> num_le (jsint (rr_chainId r)) (jsint 0)
      then Inl ''Relayer request chain ID must be a positive safe integer.''
      else if \<not> isEvmAddress (rr_to r) then Inl ''Relayer request target must be an EVM address.''
      else if rr_value r \<noteq> ''0x0'' then Inl ''Relayer request value must be 0x0.''
      else bind_res (assertStageCWithdrawBoundedCalldata A (rr_data r)) (\<lambda>_.
        if \<not> isHexString (rr_data r) then Inl ''Relayer request data must be hex.''
        else if \<not> is_safe_integer (rr_deadlineEpochSeconds r) \<or> num_le (rr_deadlineEpochSeconds r) (jsint 0)
        then Inl ''Relayer request deadline must be a positive safe integer.''
        else Inr r))"

text \<open>
  The answer of the relayer: a failed fetch, a status that is not ok with the \<open>error\<close> of its body, or
  the body. \<open>parse_url\<close> is the platform's \<open>URL\<close>, which gives the protocol and the normalised text.
\<close>

datatype relayer_reply = RelayFetchFailed string | RelayNotOk int "string option" | RelayAnswer json

datatype relayer_scope = DeployedWithdrawalRelayer | LocalUntrustedDevOnly

record submit_result =
  sr_scope :: relayer_scope
  sr_txHash :: string

definition assertHttpsEndpoint :: "(string \<Rightarrow> (string \<times> string) option) \<Rightarrow> string \<Rightarrow> string + string" where
  "assertHttpsEndpoint parse_url v =
     (case parse_url v of
        None \<Rightarrow> Inl ''Relayer endpoint must be a valid HTTPS URL.''
      | Some (protocol, href) \<Rightarrow> if protocol \<noteq> ''https:'' then Inl ''Relayer endpoint must use HTTPS.'' else Inr href)"

definition relayer_scope_of :: "string option \<Rightarrow> relayer_scope option" where
  "relayer_scope_of s =
     (if s = Some ''deployed-withdrawal-relayer'' then Some DeployedWithdrawalRelayer
      else if s = Some ''local-untrusted-dev-only'' then Some LocalUntrustedDevOnly else None)"

definition read_relayer_answer :: "json \<Rightarrow> string + submit_result" where
  "read_relayer_answer body =
     (if body = JNull then Inl ''Cannot read properties of null (reading ok)''
      else if json_field body ''ok'' \<noteq> Some (JBool True) then Inl ''invalid relayer response''
      else case (relayer_scope_of (field_text body ''scope''), field_text body ''txHash'') of
        (Some s, Some h) \<Rightarrow> if isHexBytes32 h then Inr \<lparr>sr_scope = s, sr_txHash = h\<rparr> else Inl ''invalid relayer response''
      | _ \<Rightarrow> Inl ''invalid relayer response'')"

definition submitWithdrawalRelayerTransaction ::
  "withdraw_abi \<Rightarrow> (string \<Rightarrow> (string \<times> string) option) \<Rightarrow> (string \<Rightarrow> relayer_request \<Rightarrow> relayer_reply) \<Rightarrow> string
     \<Rightarrow> relayer_request \<Rightarrow> string + submit_result" where
  "submitWithdrawalRelayerTransaction A parse_url post endpointInput requestInput =
     bind_res (assertHttpsEndpoint parse_url endpointInput) (\<lambda>endpoint.
     bind_res (assertRelayerTransactionRequest A requestInput) (\<lambda>request.
       case post endpoint request of
         RelayFetchFailed msg \<Rightarrow> Inl msg
       | RelayNotOk status failure \<Rightarrow> Inl (or_else failure (''relayer returned HTTP '' @ dec_string status))
       | RelayAnswer body \<Rightarrow> read_relayer_answer body))"

section \<open>Preflight\<close>

datatype preflight_call = PreChainId | PreNullifier string string | PreCall string string | PreEstimateGas string string

type_synonym preflight_node = "nat \<Rightarrow> preflight_call \<Rightarrow> string option rpc_reply"

record preflight_result =
  pr_chainId :: int
  pr_estimatedGas :: string

definition preflight_rpc :: "preflight_node \<Rightarrow> nat \<Rightarrow> preflight_call \<Rightarrow> string + string" where
  "preflight_rpc node k call =
     (case node k call of
        FetchFailed msg \<Rightarrow> Inl msg
      | HttpError status \<Rightarrow> Inl (''Withdrawal preflight RPC returned HTTP '' @ dec_string status @ ''.'')
      | ErrorBody msg \<Rightarrow> Inl (or_else msg ''Withdrawal preflight RPC error.'')
      | ResultBody None \<Rightarrow> Inl ''Withdrawal preflight RPC returned no result.''
      | ResultBody (Some r) \<Rightarrow> Inr r)"

definition assertNullifier :: "string \<Rightarrow> string + string" where
  "assertNullifier v = (if \<not> isHexBytes32 v then Inl ''Expected withdrawal nullifier to be bytes32.'' else Inr v)"

definition assertHexRpcResult :: "string \<Rightarrow> string \<Rightarrow> string + string" where
  "assertHexRpcResult v label = (if \<not> isHexString v then Inl (''Expected '' @ label @ '' hex result.'') else Inr v)"

definition boolFromEthCallResult :: "string \<Rightarrow> string + bool" where
  "boolFromEthCallResult v =
     bind_res (assertHexRpcResult v ''eth_call'') (\<lambda>normalized. bind_res (bigint_result normalized) (\<lambda>n. Inr (n \<noteq> 0)))"

definition preflightWithdrawal ::
  "withdraw_abi \<Rightarrow> preflight_node \<Rightarrow> 'a sdk_runtime_scheme \<Rightarrow> string \<Rightarrow> string \<Rightarrow> string + preflight_result" where
  "preflightWithdrawal A node runtime calldataInput nullifierInput =
     bind_res (assertStageCWithdrawBoundedCalldata A calldataInput) (\<lambda>calldata.
     bind_res (assertNullifier nullifierInput) (\<lambda>nullifier.
     bind_res (preflight_rpc node 1 PreChainId) (\<lambda>chainIdHex.
     bind_res (assertHexRpcResult chainIdHex ''RPC chain ID'') (\<lambda>chainIdText.
     bind_res (bigint_result chainIdText) (\<lambda>chainId.
     if chainId \<noteq> rt_chainId runtime
     then Inl ''Withdrawal preflight RPC is not connected to MegaETH mainnet 4326.''
     else
     bind_res (encodeNullifierLookupCalldata nullifier) (\<lambda>lookup.
     bind_res (preflight_rpc node 2 (PreNullifier (rt_pool runtime) lookup)) (\<lambda>nullifierResult.
     bind_res (boolFromEthCallResult nullifierResult) (\<lambda>spent.
     if spent then Inl ''Withdrawal nullifier is already spent.''
     else
     bind_res (preflight_rpc node 3 (PreCall (rt_pool runtime) calldata)) (\<lambda>_.
     bind_res (preflight_rpc node 4 (PreEstimateGas (rt_pool runtime) calldata)) (\<lambda>gas.
     bind_res (assertHexRpcResult gas ''estimated gas'') (\<lambda>estimatedGas.
       Inr \<lparr>pr_chainId = rt_chainId runtime, pr_estimatedGas = estimatedGas\<rparr>)))))))))))"

section \<open>A plan carries the withdrawal it was made for\<close>

lemma assertRuntime_Inr: "assertRuntimeWithdrawalCalldata A runtime c = Inr c' \<Longrightarrow> c' = c"
  by (auto simp: assertRuntimeWithdrawalCalldata_def assertStageCWithdrawBoundedCalldata_def res_simps
      split: if_splits sum.splits)

lemma plan_of_calldata_Inr:
  assumes "plan_of_calldata A clock runtime i calldata = Inr plan"
  shows "\<exists>now. now = or_else (pl_nowEpochSeconds i) (jsint clock) \<and> is_safe_integer now \<and> \<not> num_le now (jsint 0) \<and>
    isEvmAddress (rt_pool runtime) \<and>
    plan = \<lparr>wp_chainId = rt_chainId runtime, wp_pool = rt_pool runtime, wp_calldata = calldata,
      wp_relayerRequest = \<lparr>rr_chainId = rt_chainId runtime, rr_to = rt_pool runtime, rr_value = ''0x0'',
        rr_data = calldata, rr_deadlineEpochSeconds = num_add now (jsint 120)\<rparr>,
      wp_directWalletTransaction = \<lparr>wt_chainId = rt_chainId runtime, wt_to = rt_pool runtime, wt_value = 0,
        wt_data = calldata\<rparr>\<rparr>"
  using assms
  by (auto simp: plan_of_calldata_def buildWithdrawalRelayerRequest_def buildDirectWalletWithdrawalTransaction_def
      assertPool_def or_else_def Let_def res_simps split: if_splits dest: assertRuntime_Inr)

lemma planned_args:
  assumes "createWithdrawalPlan A clock runtime i = Inr plan"
  shows "\<exists>a calldata. wa_encode A a = Inr calldata \<and> args_ok a \<and>
    args_of (plan_common runtime i) (or_else (pl_note i) ''0x'') a \<and> length (wi_publicInputs i) = 12 \<and>
    assertWithdrawPublicInputBinding (plan_common runtime i) = Inr () \<and>
    plan_of_calldata A clock runtime i calldata = Inr plan"
proof -
  from assms obtain calldata where c: "(case pl_note i of
         None \<Rightarrow> encodeVerifiedWithdrawBoundedCalldata A (plan_common runtime i)
       | Some note \<Rightarrow> encodeVerifiedStageCWithdrawChangeNoteCalldata A (plan_common runtime i) note) = Inr calldata"
    and plan: "plan_of_calldata A clock runtime i calldata = Inr plan"
    by (auto simp: createWithdrawalPlan_def res_simps)
  have len: "wi_publicInputs (plan_common runtime i) = wi_publicInputs i"
    by (simp add: plan_common_def)
  show ?thesis
  proof (cases "pl_note i")
    case None
    with c encoded_args [of A "plan_common runtime i"] plan len show ?thesis
      by (auto simp: or_else_def)
  next
    case (Some n)
    with c encoded_note_args [of A "plan_common runtime i" n] plan len show ?thesis
      by (auto simp: or_else_def)
  qed
qed

lemma decode_expected:
  assumes "decodeStageCWithdrawCalldata A v = Inr d"
  shows "assertStageCWithdrawBoundedCalldata A v = Inr v"
  using assms by (simp add: assertStageCWithdrawBoundedCalldata_def)

text \<open>
  C26: A withdrawal plan carries the withdrawal it was made for. With a coder that reads back what it
  wrote, the plan's calldata decodes to the proof, the public inputs, the nullifier, the
  destination, the amounts and the note of the input, passes the SDK's own calldata check against
  the input, and is what both the relayer's request and the wallet's transaction carry, for the
  runtime's chain and pool and with no value; the request expires 120 seconds from now and passes
  the check made before it is submitted.
\<close>

theorem planned_withdrawal_carried:
  assumes "abi_faithful A" "createWithdrawalPlan A clock runtime i = Inr plan"
    "or_else (pl_nowEpochSeconds i) (jsint clock) = jsint now" "now + 120 \<le> MAX_SAFE_INTEGER"
    "rt_chainId runtime \<in> {4326, 6343}"
  shows "\<exists>a d. args_of i (or_else (pl_note i) ''0x'') a \<and>
    decodeStageCWithdrawCalldata A (wp_calldata plan) = Inr d \<and> decoded_as a d \<and>
    assertStageCWithdrawCalldataBinding A (wp_calldata plan) i = Inr (wp_calldata plan) \<and>
    wp_relayerRequest plan = \<lparr>rr_chainId = rt_chainId runtime, rr_to = rt_pool runtime, rr_value = ''0x0'',
      rr_data = wp_calldata plan, rr_deadlineEpochSeconds = jsint (now + 120)\<rparr> \<and>
    wp_directWalletTransaction plan = \<lparr>wt_chainId = rt_chainId runtime, wt_to = rt_pool runtime, wt_value = 0,
      wt_data = wp_calldata plan\<rparr> \<and>
    assertRelayerTransactionRequest A (wp_relayerRequest plan) = Inr (wp_relayerRequest plan)"
proof -
  from planned_args [OF assms(2)] obtain a calldata where a: "wa_encode A a = Inr calldata" "args_ok a"
    "args_of (plan_common runtime i) (or_else (pl_note i) ''0x'') a" "length (wi_publicInputs i) = 12"
    and plan: "plan_of_calldata A clock runtime i calldata = Inr plan"
    by blast
  have args: "args_of i (or_else (pl_note i) ''0x'') a"
    using a(3) by (simp add: args_of_def plan_common_def)
  from encoded_decodes [OF assms(1) a(1,2)] obtain d where d: "isHexString calldata"
    "decodeStageCWithdrawCalldata A calldata = Inr d" "decoded_as a d"
    by blast
  note p = plan_of_calldata_Inr [OF plan, unfolded assms(3)]
  then have now: "0 < now" and pool: "isEvmAddress (rt_pool runtime)"
    and shape: "plan = \<lparr>wp_chainId = rt_chainId runtime, wp_pool = rt_pool runtime, wp_calldata = calldata,
      wp_relayerRequest = \<lparr>rr_chainId = rt_chainId runtime, rr_to = rt_pool runtime, rr_value = ''0x0'',
        rr_data = calldata, rr_deadlineEpochSeconds = jsint (now + 120)\<rparr>,
      wp_directWalletTransaction = \<lparr>wt_chainId = rt_chainId runtime, wt_to = rt_pool runtime, wt_value = 0,
        wt_data = calldata\<rparr>\<rparr>"
    by (auto simp only: num_cmp_jsint is_safe_integer_jsint)
  have "is_safe_integer (jsint (now + 120))" "\<not> num_le (jsint (now + 120)) (jsint 0)"
    using now assms(4) by (simp_all only: num_cmp_jsint is_safe_integer_jsint)
  moreover have "is_safe_integer (jsint (rt_chainId runtime))" "\<not> num_le (jsint (rt_chainId runtime)) (jsint 0)"
  proof -
    have "0 < rt_chainId runtime" "rt_chainId runtime \<le> 6343" using assms(5) by auto
    then show "is_safe_integer (jsint (rt_chainId runtime))" "\<not> num_le (jsint (rt_chainId runtime)) (jsint 0)"
      by (simp_all only: num_cmp_jsint is_safe_integer_jsint) (simp_all add: MAX_SAFE_INTEGER_def)
  qed
  ultimately have "assertRelayerTransactionRequest A (wp_relayerRequest plan) = Inr (wp_relayerRequest plan)"
    using pool d(1) decode_expected [OF d(2)] unfolding shape
    by (simp add: assertRelayerTransactionRequest_def del: of_int_add)
  with args d encoded_bound [OF assms(1) a(1,2) args a(4)] show ?thesis
    unfolding shape by auto
qed

text \<open>A submission that succeeds went to an HTTPS endpoint with a checked request.\<close>

lemma submitted_result:
  assumes "submitWithdrawalRelayerTransaction A parse_url post endpointInput request = Inr r"
  shows "isHexBytes32 (sr_txHash r)" "assertRelayerTransactionRequest A request = Inr request"
    "\<exists>href. parse_url endpointInput = Some (''https:'', href)"
proof -
  from assms obtain href sent where e: "assertHttpsEndpoint parse_url endpointInput = Inr href"
    and q: "assertRelayerTransactionRequest A request = Inr sent"
    and post: "(case post href sent of RelayFetchFailed msg \<Rightarrow> Inl msg
       | RelayNotOk status failure \<Rightarrow> Inl (or_else failure (''relayer returned HTTP '' @ dec_string status))
       | RelayAnswer body \<Rightarrow> read_relayer_answer body) = Inr r"
    unfolding submitWithdrawalRelayerTransaction_def by (elim bind_resE)
  from q show "assertRelayerTransactionRequest A request = Inr request"
    by (auto simp: assertRelayerTransactionRequest_def res_simps split: if_splits)
  from e show "\<exists>href. parse_url endpointInput = Some (''https:'', href)"
    by (auto simp: assertHttpsEndpoint_def split: option.splits if_splits)
  from post obtain body where "read_relayer_answer body = Inr r"
    by (cases "post href sent") simp_all
  then show "isHexBytes32 (sr_txHash r)"
    unfolding read_relayer_answer_def by (elim guardE) (auto split: option.splits if_splits)
qed

section \<open>The relay reads what the SDK checked\<close>

text \<open>
  The relay's decoder on calldata of the SDK's encoder, and viem's \<open>getAddress\<close>, which accepts every
  address and only changes the case of its digits.
\<close>

definition relay_reads :: "withdraw_abi \<Rightarrow> relay_lib \<Rightarrow> bool" where
  "relay_reads A L \<longleftrightarrow> (\<forall>a calldata. wa_encode A a = Inr calldata \<longrightarrow>
     is_hex L calldata \<and>
     (\<exists>b. read_back a b \<and> decode_abi L STAGE_C_WITHDRAW_BOUNDED_PARAMETERS (''0x'' @ drop 10 calldata) =
        Some [DBytes (wa_proof b), DBytes32Array (wa_publicInputs b), DBytes32 (wa_nullifier b),
          DAddress (wa_destination b), DUint (wa_grossAmount b), DBytes (wa_note b), DUint (wa_minNetAmount b),
          DUint (wa_maxFeeAmount b)])) \<and>
   (\<forall>s. isEvmAddress s \<longrightarrow> (\<exists>c. get_address L s = Some c \<and> isEvmAddress c \<and> to_lower c = to_lower s))"

text \<open>A word that holds an address: twelve zero bytes before it.\<close>

definition address_input :: "string \<Rightarrow> bool" where
  "address_input v \<longleftrightarrow> take 24 (drop 2 v) = replicate 24 (CHR ''0'')"

lemma address_input_word:
  assumes "isHexBytes32 v" "address_input v" "to_lower (input_address v) = to_lower p" "isEvmAddress p"
  shows "to_lower v = address_word p"
proof -
  from assms(1) obtain t where t: "v = ''0x'' @ t" "length t = 64"
    by (auto simp: isHexBytes32_def elim: hex_of_lengthE)
  from assms(4) obtain q where q: "p = ''0x'' @ q"
    by (auto simp: isEvmAddress_def elim: hex_of_lengthE)
  have "t = replicate 24 (CHR ''0'') @ drop 24 t"
    using assms(2) t append_take_drop_id [of 24 t] by (simp add: address_input_def)
  then have "to_lower t = to_lower (replicate 24 (CHR ''0'') @ drop 24 t)"
    by (rule arg_cong)
  then have "to_lower v = ''0x'' @ replicate 24 (CHR ''0'') @ to_lower (drop 24 t)"
    by (simp add: t(1))
  moreover have "to_lower (drop 24 t) = to_lower q"
    using assms(3) t q by (simp add: input_address_def)
  ultimately show ?thesis
    using q by (simp add: address_word_def)
qed

lemmas selector_texts = STAGE_C_WITHDRAW_BOUNDED_SELECTOR_def WITHDRAW_SELECTOR_def WITHDRAW_BOUNDED_SELECTOR_def
  PROOF_CONTEXT_V1_WITHDRAW_RELAYER_POLICY_SELECTOR_def STAGE_C_WITHDRAW_UNBOUNDED_SELECTOR_def

text \<open>What the relay's decoder makes of such calldata.\<close>

lemma relay_decodes:
  assumes "abi_faithful A" "relay_reads A L" "wa_encode A a = Inr calldata" "args_ok a"
  shows "\<exists>c. isEvmAddress c \<and> to_lower c = to_lower (wa_destination a) \<and> decodeWithdrawalRelayCall L calldata =
    Inr \<lparr>call_selector = STAGE_C_WITHDRAW_BOUNDED_SELECTOR, call_relayValidationMode = None, hasChangeNote = True,
      hasOutputNote = None, hasUserBounds = True, publicInputs = map to_lower (wa_publicInputs a),
      call_nullifier = to_lower (wa_nullifier a), call_destination = c, call_grossAmount = wa_grossAmount a,
      encryptedChangeNote = Some (to_lower (wa_note a)), encryptedOutputNote = None,
      call_minNetAmount = Some (wa_minNetAmount a), call_maxFeeAmount = Some (wa_maxFeeAmount a),
      call_relayerPolicy = None\<rparr>"
proof -
  obtain b where b: "is_hex L calldata" "read_back a b"
    "decode_abi L STAGE_C_WITHDRAW_BOUNDED_PARAMETERS (''0x'' @ drop 10 calldata) =
        Some [DBytes (wa_proof b), DBytes32Array (wa_publicInputs b), DBytes32 (wa_nullifier b),
          DAddress (wa_destination b), DUint (wa_grossAmount b), DBytes (wa_note b), DUint (wa_minNetAmount b),
          DUint (wa_maxFeeAmount b)]"
    using assms(2,3) unfolding relay_reads_def by blast
  have "isEvmAddress (wa_destination b)" using b(2) by (simp add: read_back_def)
  then obtain c where c: "get_address L (wa_destination b) = Some c" "isEvmAddress c" "to_lower c = to_lower (wa_destination b)"
    using assms(2) unfolding relay_reads_def by blast
  have len: "length STAGE_C_SELECTOR = 10" by (simp add: STAGE_C_SELECTOR_def)
  have "starts_with STAGE_C_SELECTOR (to_lower calldata)"
    using assms(1,3) unfolding abi_faithful_def by blast
  then have t: "take 10 (to_lower calldata) = STAGE_C_SELECTOR"
    unfolding starts_with_def len .
  then have sel: "to_lower (take 10 calldata) = STAGE_C_WITHDRAW_BOUNDED_SELECTOR"
    by (simp add: to_lower_def take_map STAGE_C_SELECTOR_def STAGE_C_WITHDRAW_BOUNDED_SELECTOR_def)
  have "10 \<le> length calldata"
    using arg_cong [OF t, of length] len by simp
  with b c sel show ?thesis
    by (intro exI [of _ c]) (simp add: decodeWithdrawalRelayCall_def Let_def decodeStageC_def
        normalizeDecodedWithdrawalCall_def getAddress_def or_none_def comp_def read_back_def decoded_or_error_def
        FUNCTION_SELECTOR_LENGTH_def selector_texts)
qed

lemma binding_facts:
  assumes "assertWithdrawPublicInputBinding i = Inr ()" "xs = wi_publicInputs i"
  shows "length xs = 12" "list_all isHexBytes32 xs" "isEvmAddress (wb_expectedPool i)"
    "to_lower (xs ! 1) = to_lower (wi_nullifier i)"
    "to_lower (input_address (xs ! 3)) = to_lower (js_trim (wi_destination i))"
    "\<exists>g. normalizeDecimalUint256 (wi_grossAmountWei i) [] = Inr g \<and> js_bigint (xs ! 4) = Some g"
    "js_bigint (xs ! 6) = Some (num_int (wb_expectedChainId i))"
    "to_lower (input_address (xs ! 7)) = to_lower (wb_expectedPool i)" "isBn254FieldElement (xs ! 8)"
  using assms by (auto simp: assertWithdrawPublicInputBinding_def input_shape_defs res_simps)

text \<open>
  C25: The relay accepts what the SDK checked, as far as the public inputs go. Take a plan of the SDK
  whose destination and pool inputs are addresses padded with zeros and whose nullifier is not zero.
  The relay decodes its calldata to a call with user bounds for the plan's nullifier, destination
  and amounts, and its checks of the inputs against the call, the chain and the pool report nothing.
  (The SDK itself compares only the last twenty bytes of the two address inputs and accepts a zero
  nullifier.)
\<close>

theorem planned_withdrawal_read_by_relay:
  assumes "abi_faithful A" "relay_reads A L" "createWithdrawalPlan A clock runtime i = Inr plan"
    "address_input (wi_publicInputs i ! 3)" "address_input (wi_publicInputs i ! 7)"
    "hex_value (wi_publicInputs i ! 1) \<noteq> 0"
  shows "\<exists>call destination pool a. decodeWithdrawalRelayCall L (wp_calldata plan) = Inr call \<and>
    args_of i (or_else (pl_note i) ''0x'') a \<and> call_selector call = STAGE_C_WITHDRAW_BOUNDED_SELECTOR \<and>
    call_nullifier call = to_lower (wi_nullifier i) \<and> to_lower (call_destination call) = to_lower (js_trim (wi_destination i)) \<and>
    call_grossAmount call = wa_grossAmount a \<and> call_minNetAmount call = Some (wa_minNetAmount a) \<and>
    call_maxFeeAmount call = Some (wa_maxFeeAmount a) \<and> hasUserBounds call \<and>
    encryptedChangeNote call = Some (to_lower (wa_note a)) \<and>
    addressToBytes32 L (call_destination call) = Inr destination \<and> addressToBytes32 L (rt_pool runtime) = Inr pool \<and>
    call_input_errors call destination (hex_value (publicInputs call ! 4)) = [] \<and>
    pool_input_errors call pool (hex_value (publicInputs call ! 6)) (rt_chainId runtime) = []"
proof -
  from planned_args [OF assms(3)] obtain a calldata where a: "wa_encode A a = Inr calldata" "args_ok a"
    "args_of (plan_common runtime i) (or_else (pl_note i) ''0x'') a" "length (wi_publicInputs i) = 12"
    "assertWithdrawPublicInputBinding (plan_common runtime i) = Inr ()"
    and plan: "plan_of_calldata A clock runtime i calldata = Inr plan"
    by blast
  have args: "args_of i (or_else (pl_note i) ''0x'') a"
    using a(3) by (simp add: args_of_def plan_common_def)
  from relay_decodes [OF assms(1,2) a(1,2)] obtain c where c: "to_lower c = to_lower (wa_destination a)" "isEvmAddress c"
    and call: "decodeWithdrawalRelayCall L calldata =
    Inr \<lparr>call_selector = STAGE_C_WITHDRAW_BOUNDED_SELECTOR, call_relayValidationMode = None, hasChangeNote = True,
      hasOutputNote = None, hasUserBounds = True, publicInputs = map to_lower (wa_publicInputs a),
      call_nullifier = to_lower (wa_nullifier a), call_destination = c, call_grossAmount = wa_grossAmount a,
      encryptedChangeNote = Some (to_lower (wa_note a)), encryptedOutputNote = None,
      call_minNetAmount = Some (wa_minNetAmount a), call_maxFeeAmount = Some (wa_maxFeeAmount a),
      call_relayerPolicy = None\<rparr>" (is "_ = Inr ?call")
    by blast
  define xs where "xs = wi_publicInputs i"
  have common: "wi_publicInputs (plan_common runtime i) = xs" "wi_nullifier (plan_common runtime i) = wi_nullifier i"
    "wi_destination (plan_common runtime i) = wi_destination i" "wb_expectedPool (plan_common runtime i) = rt_pool runtime"
    "wi_grossAmountWei (plan_common runtime i) = wi_grossAmountWei i"
    "wb_expectedChainId (plan_common runtime i) = jsint (rt_chainId runtime)"
    by (simp_all add: plan_common_def xs_def)
  note bound = binding_facts [OF a(5) refl, unfolded common]
  have word: "isHexBytes32 (xs ! k)" if "k < 12" for k
    using bound(1,2) that by (simp add: list_all_length)
  have a': "isEvmAddress (js_trim (wi_destination i))" "wa_publicInputs a = xs" "wa_nullifier a = wi_nullifier i"
    "wa_destination a = js_trim (wi_destination i)"
    "normalizeDecimalUint256 (wi_grossAmountWei i) [] = Inr (wa_grossAmount a)"
    using args a(2) by (auto simp: args_of_def args_ok_def xs_def)
  obtain pool where pool: "get_address L (rt_pool runtime) = Some pool" "to_lower pool = to_lower (rt_pool runtime)"
    using assms(2) bound(3) unfolding relay_reads_def by blast
  obtain c' where c': "get_address L c = Some c'" "to_lower c' = to_lower c"
    using c(2) assms(2) unfolding relay_reads_def by blast
  have dest: "to_lower (xs ! 3) = address_word c'"
    using address_input_word [OF word assms(4) [folded xs_def] bound(5) a'(1)] c c' a'(4)
    by (simp add: address_word_def)
  have pool_word: "to_lower (xs ! 7) = address_word pool"
    using address_input_word [OF word assms(5) [folded xs_def] bound(8) bound(3)] pool by (simp add: address_word_def)
  have amounts: "hex_value (xs ! 4) = wa_grossAmount a" "hex_value (xs ! 6) = rt_chainId runtime"
    using bound(6,7) a'(5) word by (auto simp: js_bigint_bytes32)
  have nonzero: "to_lower (xs ! 1) \<noteq> ZERO_BYTES32" "to_lower (xs ! 8) \<noteq> ZERO_BYTES32"
    using assms(6) bound(9) word by (auto simp: bytes32_zero_iff xs_def isBn254FieldElement_def)
  have lower: "hex_value (map to_lower xs ! k) = hex_value (xs ! k)" "isHexBytes32 (map to_lower xs ! k)" if "k < 12" for k
    using word [OF that] that bound(1) by simp_all
  have "call_input_errors ?call (address_word c') (hex_value (publicInputs ?call ! 4)) = []"
    using dest nonzero(1) bound(1,2,4) amounts(1) lower a'
    by (simp add: call_input_errors_def err_if_def input_or_def isStageC_def expectedPublicInputsLength_def list_all_length)
  moreover have "pool_input_errors ?call (address_word pool) (hex_value (publicInputs ?call ! 6)) (rt_chainId runtime) = []"
    using pool_word nonzero(2) bound(1) amounts(2) lower a'
    by (simp add: pool_input_errors_def err_if_def input_or_def)
  moreover have "wp_calldata plan = calldata"
    using plan_of_calldata_Inr [OF plan] by auto
  ultimately show ?thesis
    using call args c c' pool a'
    by (intro exI [of _ ?call] exI [of _ "address_word c'"] exI [of _ "address_word pool"] exI [of _ a])
      (simp add: res_simps)
qed

section \<open>What a passed preflight has seen\<close>

text \<open>A quantity of a five-digit number is not an even-length hex string.\<close>

lemma five_digit_quantity:
  assumes "65536 \<le> g" "g < 1048576"
  shows "\<not> isHexString (toBlockQuantity g)"
proof -
  have "nat g = radix_val 16 (radix_string 16 (nat g))" by simp
  also have "\<dots> < 16 ^ length (radix_string 16 (nat g))" by (rule radix_val_bound) simp
  finally have n: "nat g < 16 ^ length (radix_string 16 (nat g))" .
  have "\<not> length (radix_string 16 (nat g)) \<le> 4"
  proof
    assume "length (radix_string 16 (nat g)) \<le> 4"
    then have "16 ^ length (radix_string 16 (nat g)) \<le> (16::nat) ^ 4" by (rule power_increasing) simp
    with n have "nat g < 16 ^ 4" by (rule less_le_trans)
    with assms(1) show False by simp
  qed
  moreover have "length (radix_string 16 (nat g)) \<le> 5"
    using assms by (intro radix_string_length) auto
  ultimately have "length (radix_string 16 (nat g)) = 5" by simp
  moreover have "toBlockQuantity g = ''0x'' @ radix_string 16 (nat g)"
    using assms by (simp add: toBlockQuantity_def hex_string_def)
  ultimately show ?thesis
    by (simp add: isHexString_def)
qed

text \<open>
  C27: A preflight that passes has seen the right chain, an unspent nullifier and a simulation of the
  call that did not revert, and returns the gas the node estimated. It passes only if that estimate
  has an even number of hex digits: a node that answers with any quantity from 65536 to 1048575,
  which is written with five digits, is refused.
\<close>

theorem preflight_checked:
  assumes "preflightWithdrawal A node runtime calldata nullifier = Inr r"
  shows "(\<exists>d. decodeStageCWithdrawCalldata A calldata = Inr d) \<and> isHexBytes32 nullifier \<and>
    (\<exists>chain. node 1 PreChainId = ResultBody (Some chain) \<and> js_bigint chain = Some (rt_chainId runtime)) \<and>
    (\<exists>lookup answer. encodeNullifierLookupCalldata nullifier = Inr lookup \<and>
       node 2 (PreNullifier (rt_pool runtime) lookup) = ResultBody (Some answer) \<and> js_bigint answer = Some 0) \<and>
    (\<exists>answer. node 3 (PreCall (rt_pool runtime) calldata) = ResultBody (Some answer)) \<and>
    node 4 (PreEstimateGas (rt_pool runtime) calldata) = ResultBody (Some (pr_estimatedGas r)) \<and>
    even (length (pr_estimatedGas r)) \<and>
    (\<forall>g. 65536 \<le> g \<longrightarrow> g < 1048576 \<longrightarrow>
       node 4 (PreEstimateGas (rt_pool runtime) calldata) \<noteq> ResultBody (Some (toBlockQuantity g)))"
proof -
  have rpc: "preflight_rpc node k c = Inr a \<longleftrightarrow> node k c = ResultBody (Some a)" for k c a
    by (auto simp: preflight_rpc_def split: rpc_reply.splits option.splits)
  have "boolFromEthCallResult v = Inr b \<longleftrightarrow> isHexString v \<and> (\<exists>n. js_bigint v = Some n \<and> b = (n \<noteq> 0))" for v b
    by (auto simp: boolFromEthCallResult_def assertHexRpcResult_def bigint_result_def res_simps split: option.splits)
  then show ?thesis
    using assms five_digit_quantity
    by (auto simp: preflightWithdrawal_def assertNullifier_def assertHexRpcResult_def bigint_result_def rpc res_simps
        assertStageCWithdrawBoundedCalldata_def isHexString_def split: if_splits option.splits)
qed

section \<open>Concrete runs\<close>

definition plan_inputs :: "string list" where
  "plan_inputs = [toBytes32 1, toBytes32 2, toBytes32 3, address_word sample_pool, toBytes32 1000, toBytes32 0,
     toBytes32 6343, address_word sample_pool, toBytes32 5, toBytes32 2000, toBytes32 7, toBytes32 8]"

definition plan_sample :: plan_input where
  "plan_sample = \<lparr>wi_proof = ''0x01'', wi_publicInputs = plan_inputs, wi_nullifier = toBytes32 2,
     wi_destination = sample_pool, wi_grossAmountWei = ''1000'', wi_minNetAmountWei = ''900'', wi_maxFeeWei = ''100'',
     pl_currentRoot = toBytes32 1, pl_note = Some ''0x02'', pl_commitment = None, pl_nowEpochSeconds = None\<rparr>"

definition plan_args :: withdraw_args where
  "plan_args = \<lparr>wa_proof = ''0x01'', wa_publicInputs = plan_inputs, wa_nullifier = toBytes32 2,
     wa_destination = sample_pool, wa_grossAmount = 1000, wa_note = ''0x02'', wa_minNetAmount = 900, wa_maxFeeAmount = 100\<rparr>"

definition plan_abi :: withdraw_abi where
  "plan_abi = \<lparr>wa_encode = (\<lambda>a. if a = plan_args then Inr ''0x678d8506'' else Inl ''not encoded''),
     wa_decode = (\<lambda>_. Inr (WithdrawWithNote plan_args))\<rparr>"

definition plan_lib :: relay_lib where
  "plan_lib = sample_lib\<lparr>get_address := Some, is_hex := (\<lambda>_. True),
     decode_abi := (\<lambda>_ _. Some [DBytes ''0x01'', DBytes32Array plan_inputs, DBytes32 (toBytes32 2),
       DAddress sample_pool, DUint 1000, DBytes ''0x02'', DUint 900, DUint 100])\<rparr>"

definition plan_runtime_sample :: plan_runtime where
  "plan_runtime_sample = \<lparr>rt_environment = ''megaeth-testnet-nullark'', rt_chainId = 6343, rt_pool = sample_pool,
     rt_poolDeploymentBlock = ''0x1'', rt_groth16PublicInputOrder = []\<rparr>"

lemma plan_texts: "isHexString ''0x01''" "js_trim ''0x01'' = ''0x01''" "isHexString ''0x02''" "js_trim ''0x02'' = ''0x02''"
  "js_trim ''1000'' = ''1000''" "js_trim ''900'' = ''900''" "js_trim ''100'' = ''100''" "js_trim sample_pool = sample_pool"
  "to_lower sample_pool = sample_pool" "radix_val 10 ''1000'' = 1000" "radix_val 10 ''900'' = 900" "radix_val 10 ''100'' = 100"
  "list_all is_digit ''1000''" "list_all is_digit ''900''" "list_all is_digit ''100''" "isHexString ''0x678d8506''"
  "to_lower ''0x678d8506'' = ''0x678d8506''" "to_lower ''0x01'' = ''0x01''" "to_lower ''0x02'' = ''0x02''"
  "isHexBytes32 (address_word sample_pool)" "input_address (address_word sample_pool) = sample_pool"
  "address_input (address_word sample_pool)"
  by code_simp+

lemma plan_words:
  assumes "v \<in> {1, 2, 3, 1000, 0, 6343, 5, 2000, 7, 8}"
  shows "isHexBytes32 (toBytes32 v)" "to_lower (toBytes32 v) = toBytes32 v" "js_bigint (toBytes32 v) = Some v"
  using assms by (auto simp: toBytes32_shape js_bigint_toBytes32)

lemma plan_nonzero: "0 < v \<Longrightarrow> toBytes32 v \<noteq> ZERO_BYTES32"
  by (metis hex_value_toBytes32 hex_value_ZERO less_irrefl less_le)

lemma plan_decimals [simp]: "normalizeDecimalUint256 ''1000'' m = Inr 1000" "normalizeDecimalUint256 ''900'' m = Inr 900"
  "normalizeDecimalUint256 ''100'' m = Inr 100"
  by (simp_all add: sdk_asserts_Inr plan_texts) (simp_all add: is_digit_def code_def)

lemma plan_chain [simp]: "num_eq (Num 6343) (Num 6343)"
  by (simp add: num_eq_def)

lemma plan_laws: "abi_faithful plan_abi" "relay_reads plan_abi plan_lib"
proof -
  have "read_back plan_args plan_args"
    by (simp add: read_back_def plan_args_def plan_inputs_def plan_words plan_texts sample_pool_address
        lower_char_def is_upper_def code_def)
  then show "abi_faithful plan_abi" "relay_reads plan_abi plan_lib"
    by (auto simp: abi_faithful_def relay_reads_def plan_abi_def plan_lib_def plan_texts STAGE_C_SELECTOR_def plan_args_def
        starts_with_def lower_char_def is_upper_def code_def)
qed

lemma plan_checked: "assertWithdrawPublicInputBinding (plan_common plan_runtime_sample plan_sample) = Inr ()"
  by (simp add: assertWithdrawPublicInputBinding_def plan_common_def plan_sample_def plan_runtime_sample_def
      plan_inputs_def input_shape_defs res_simps other_commitment_def isBn254FieldElement_def BN254_SCALAR_FIELD_def
      plan_words plan_nonzero plan_texts sample_pool_address)

lemma plan_encoded: "encodeStageCWithdrawChangeNoteCalldata plan_abi (plan_common plan_runtime_sample plan_sample) ''0x02'' =
    Inr ''0x678d8506''"
  by (simp add: encodeStageCWithdrawChangeNoteCalldata_def normalizeWithdrawInputWithPublicInputShape_def plan_common_def
      plan_sample_def plan_inputs_def input_shape_defs res_simps plan_abi_def plan_args_def
      plan_words plan_texts sample_pool_address)

lemma plan_verified:
  "encodeVerifiedStageCWithdrawChangeNoteCalldata plan_abi (plan_common plan_runtime_sample plan_sample) ''0x02'' =
     Inr ''0x678d8506''"
  by (simp add: encodeVerifiedStageCWithdrawChangeNoteCalldata_def plan_checked plan_encoded)

lemma plan_decodes: "assertStageCWithdrawBoundedCalldata plan_abi ''0x678d8506'' = Inr ''0x678d8506''"
proof -
  obtain a where "wa_encode plan_abi a = Inr ''0x678d8506''" "args_ok a"
    using encoded_note_args [OF plan_verified] by blast
  then show ?thesis
    using encoded_decodes(2) [OF plan_laws(1)] decode_expected by blast
qed

lemma plan_made: "\<exists>plan. createWithdrawalPlan plan_abi 1000000 plan_runtime_sample plan_sample = Inr plan"
proof -
  have "assertRuntimeWithdrawalCalldata plan_abi plan_runtime_sample ''0x678d8506'' = Inr ''0x678d8506''"
    by (simp add: assertRuntimeWithdrawalCalldata_def usesV12UnlinkableWithdrawals_def plan_runtime_sample_def
        NULLARK_WITHDRAW_PUBLIC_INPUT_ORDER_V1_2_def plan_decodes)
  moreover have "is_safe_integer (jsint 120)" "\<not> num_le (jsint 120) (jsint 0)" "\<not> num_less (jsint 120) (jsint 120)"
    "is_safe_integer (jsint 1000000)" "\<not> num_le (jsint 1000000) (jsint 0)"
    by (simp_all only: num_cmp_jsint is_safe_integer_jsint) (simp_all add: MAX_SAFE_INTEGER_def)
  ultimately have "\<exists>plan. plan_of_calldata plan_abi 1000000 plan_runtime_sample plan_sample ''0x678d8506'' = Inr plan"
    by (simp add: plan_of_calldata_def buildWithdrawalRelayerRequest_def buildDirectWalletWithdrawalTransaction_def
        assertPool_def or_else_def plan_sample_def plan_runtime_sample_def sample_pool_address)
  with plan_verified show ?thesis
    by (simp add: createWithdrawalPlan_def) (simp add: plan_sample_def)
qed

lemma planned_withdrawal_carried_witness:
  "\<exists>plan d. createWithdrawalPlan plan_abi 1000000 plan_runtime_sample plan_sample = Inr plan \<and>
     decodeStageCWithdrawCalldata plan_abi (wp_calldata plan) = Inr d \<and>
     assertStageCWithdrawCalldataBinding plan_abi (wp_calldata plan) plan_sample = Inr (wp_calldata plan)"
proof -
  obtain plan where p: "createWithdrawalPlan plan_abi 1000000 plan_runtime_sample plan_sample = Inr plan"
    using plan_made by blast
  have "or_else (pl_nowEpochSeconds plan_sample) (jsint 1000000) = jsint 1000000" "1000000 + 120 \<le> MAX_SAFE_INTEGER"
    "rt_chainId plan_runtime_sample \<in> {4326, 6343}"
    by (simp_all add: plan_sample_def or_else_def MAX_SAFE_INTEGER_def plan_runtime_sample_def)
  from planned_withdrawal_carried [OF plan_laws(1) p this] p show ?thesis by blast
qed

lemma planned_withdrawal_read_by_relay_witness:
  "\<exists>plan call. createWithdrawalPlan plan_abi 1000000 plan_runtime_sample plan_sample = Inr plan \<and>
     decodeWithdrawalRelayCall plan_lib (wp_calldata plan) = Inr call \<and> call_nullifier call = toBytes32 2"
proof -
  obtain plan where p: "createWithdrawalPlan plan_abi 1000000 plan_runtime_sample plan_sample = Inr plan"
    using plan_made by blast
  have "address_input (wi_publicInputs plan_sample ! 3)" "address_input (wi_publicInputs plan_sample ! 7)"
    "hex_value (wi_publicInputs plan_sample ! 1) \<noteq> 0" "to_lower (wi_nullifier plan_sample) = toBytes32 2"
    by (simp_all add: plan_sample_def plan_inputs_def plan_texts)
  with planned_withdrawal_read_by_relay [OF plan_laws p] p show ?thesis by metis
qed

text \<open>A node that is on the right chain, has not seen the nullifier and estimates 0x5208.\<close>

definition preflight_sample :: preflight_node where
  "preflight_sample = (\<lambda>k call. ResultBody (Some (
     case call of PreChainId \<Rightarrow> ''0x18c7'' | PreNullifier pool data \<Rightarrow> ''0x00'' | PreCall pool data \<Rightarrow> ''0x''
     | PreEstimateGas pool data \<Rightarrow> ''0x5208'')))"

lemma preflight_checked_witness:
  "\<exists>r. preflightWithdrawal plan_abi preflight_sample plan_runtime_sample ''0x678d8506'' (toBytes32 2) = Inr r \<and>
     pr_estimatedGas r = ''0x5208'' \<and> even (length (pr_estimatedGas r))"
proof -
  have texts: "isHexString ''0x18c7''" "js_bigint ''0x18c7'' = Some 6343" "isHexString ''0x00''" "js_bigint ''0x00'' = Some 0"
    "isHexString ''0x5208''"
    by code_simp+
  with plan_decodes obtain r where "preflightWithdrawal plan_abi preflight_sample plan_runtime_sample ''0x678d8506'' (toBytes32 2) = Inr r"
    "pr_estimatedGas r = ''0x5208''"
    by (auto simp: preflightWithdrawal_def assertNullifier_def plan_words preflight_rpc_def preflight_sample_def
        assertHexRpcResult_def bigint_result_def boolFromEthCallResult_def plan_runtime_sample_def encodeNullifierLookupCalldata_def)
  with preflight_checked show ?thesis by blast
qed

end
