(* ===== verification/Sdk_Witness.thy ===== *)
theory Sdk_Witness
  imports Sdk_Plan
begin

text \<open>
  The inputs of the withdrawal circuit: \<^verbatim>\<open>packages/sdk/src/withdraw/witness.ts\<close>. A note and a Merkle path
  become a witness, the statement the proof is for and the hashes it is bound to, for both versions
  of the pool; the path is given or reconstructed from the pool's root logs.

  viem's keccak and ABI encoder are the record \<open>viem\<close>, Poseidon on five inputs is \<open>poseidon\<close>. The bytes of
  the random source are given call by call, the clock as the text of its date. The error of a throw
  is its message.
\<close>

section \<open>Checks of values\<close>

definition UINT128_MAX :: int where "UINT128_MAX = 2 ^ 128 - 1"

definition w_assertAddress :: "string \<Rightarrow> string \<Rightarrow> string + string" where
  "w_assertAddress v label = (if \<not> isEvmAddress v then Inl (label @ '' must be an EVM address.'') else Inr v)"

definition w_assertBytes32 :: "string \<Rightarrow> string \<Rightarrow> string + string" where
  "w_assertBytes32 v label = (if \<not> isHexBytes32 v then Inl (label @ '' must be bytes32.'') else Inr v)"

definition w_assertNonZeroBytes32 :: "string \<Rightarrow> string \<Rightarrow> string + string" where
  "w_assertNonZeroBytes32 v label =
     bind_res (w_assertBytes32 v label) (\<lambda>b.
       if b = ZERO_BYTES32 then Inl (label @ '' must be nonzero bytes32.'') else Inr b)"

definition w_assertBytes4 :: "string \<Rightarrow> string \<Rightarrow> string + string" where
  "w_assertBytes4 v label = (if \<not> hex_of_length 8 v then Inl (label @ '' must be bytes4.'') else Inr v)"

definition w_assertHexBytes :: "string \<Rightarrow> string \<Rightarrow> string + string" where
  "w_assertHexBytes v label = (if \<not> isHexString v then Inl (label @ '' must be hex bytes.'') else Inr v)"

definition w_assertUint256 :: "int \<Rightarrow> string \<Rightarrow> string + int" where
  "w_assertUint256 v label = (if v < 0 \<or> v \<ge> 2 ^ 256 then Inl (label @ '' must be uint256.'') else Inr v)"

definition w_assertPositiveUint256 :: "int \<Rightarrow> string \<Rightarrow> string + int" where
  "w_assertPositiveUint256 v label = (if v \<le> 0 then Inl (label @ '' must be positive.'') else w_assertUint256 v label)"

definition assertSupportedChainId :: "jsnum \<Rightarrow> string + jsnum" where
  "assertSupportedChainId v =
     (if \<not> num_eq v (jsint 4326) \<and> \<not> num_eq v (jsint 6343) then Inl ''Expected MegaETH mainnet or testnet chain ID.''
      else Inr v)"

definition assertZeroAllowedField :: "string \<Rightarrow> string \<Rightarrow> string + unit" where
  "assertZeroAllowedField v name =
     (if \<not> isHexBytes32 v \<or> hex_value v \<ge> BN254_SCALAR_FIELD then Inl (name @ '' must be a BN254 field element.'')
      else Inr ())"

definition assertNonZeroField :: "string \<Rightarrow> string \<Rightarrow> string + unit" where
  "assertNonZeroField v name =
     bind_res (assertZeroAllowedField v name) (\<lambda>_.
       if hex_value v = 0 then Inl (name @ '' must be a nonzero BN254 field element.'') else Inr ())"

definition parse_amount :: "string \<Rightarrow> string \<Rightarrow> bool \<Rightarrow> string + int" where
  "parse_amount v name zero_allowed =
     (if v = [] \<or> \<not> list_all is_digit v then Inl (name @ '' must be a decimal integer.'')
      else let parsed = int (radix_val 10 v) in
        if (\<not> zero_allowed \<and> parsed \<le> 0) \<or> parsed \<ge> BN254_SCALAR_FIELD
        then Inl (name @ (if zero_allowed then '' must be a BN254 field element.''
                          else '' must be a positive BN254 field element.''))
        else if parsed > UINT128_MAX then Inl (name @ '' must fit the withdrawal circuit 128-bit amount bound.'')
        else Inr parsed)"

definition parsePositiveDecimalField :: "string \<Rightarrow> string \<Rightarrow> string + int" where
  "parsePositiveDecimalField v name = parse_amount v name False"

definition parseZeroAllowedDecimalField :: "string \<Rightarrow> string \<Rightarrow> string + int" where
  "parseZeroAllowedDecimalField v name = parse_amount v name True"

definition w_normalizeFeeBps :: "jsnum \<Rightarrow> string + jsnum" where
  "w_normalizeFeeBps v =
     (if \<not> is_safe_integer v \<or> num_less v (jsint 0) \<or> num_less (jsint 100) v
      then Inl ''withdrawalFeeBps must be a nonnegative safe integer at or below 100 bps.'' else Inr v)"

definition normalizeOptionalFeeBps :: "jsnum option \<Rightarrow> string + unit" where
  "normalizeOptionalFeeBps v =
     (case v of None \<Rightarrow> Inr () | Some b \<Rightarrow> bind_res (w_normalizeFeeBps b) (\<lambda>_. Inr ()))"

section \<open>Hashes\<close>

definition sdk_encode_abi :: "viem \<Rightarrow> abi_value list \<Rightarrow> string + string" where
  "sdk_encode_abi V vs = (case abi_encode V vs of None \<Rightarrow> Inl ''ABI encoding failed'' | Some e \<Rightarrow> Inr e)"

definition w_hashAbiEncodedToField :: "viem \<Rightarrow> string \<Rightarrow> string + string" where
  "w_hashAbiEncodedToField V encoded =
     bind_res (w_assertHexBytes encoded ''encoded'') (\<lambda>e.
     bind_res (bigint_result (keccak V e)) (\<lambda>k. Inr (toBytes32 (k mod BN254_SCALAR_FIELD))))"

definition OUTPUT_NOTE_V2_DOMAIN_HASH :: "viem \<Rightarrow> string" where
  "OUTPUT_NOTE_V2_DOMAIN_HASH V = hashDomainSeparator V ''nullark.encrypted-output-note.v2''"

record hash_target =
  ht_chainId :: jsnum
  ht_pool :: string
  ht_shape :: string
  ht_selector :: string
  ht_nullifier :: string

definition sdk_hashProofContextV1 ::
  "viem \<Rightarrow> hash_target \<Rightarrow> string \<Rightarrow> string \<Rightarrow> int \<Rightarrow> int \<Rightarrow> string \<Rightarrow> string \<Rightarrow> int \<Rightarrow> string + string" where
  "sdk_hashProofContextV1 V t rt destination grossAmount feeAmount encryptedNoteHash relayerPolicyHash deadlineOrZero =
     bind_res (assertSupportedChainId (ht_chainId t)) (\<lambda>chainId.
     bind_res (w_assertAddress (ht_pool t) ''pool'') (\<lambda>pool.
     bind_res (w_assertBytes32 (ht_shape t) ''shape'') (\<lambda>shape.
     bind_res (w_assertBytes4 (ht_selector t) ''selector'') (\<lambda>selector.
     bind_res (w_assertNonZeroBytes32 rt ''root'') (\<lambda>r.
     bind_res (w_assertNonZeroBytes32 (ht_nullifier t) ''nullifier'') (\<lambda>nullifier.
     bind_res (w_assertAddress destination ''destination'') (\<lambda>dest.
     bind_res (w_assertPositiveUint256 grossAmount ''grossAmount'') (\<lambda>g.
     bind_res (w_assertUint256 feeAmount ''fee'') (\<lambda>f.
     bind_res (w_assertBytes32 encryptedNoteHash ''encryptedNoteHash'') (\<lambda>nh.
     bind_res (w_assertBytes32 relayerPolicyHash ''relayerPolicyHash'') (\<lambda>ph.
     bind_res (w_assertUint256 deadlineOrZero ''deadlineOrZero'') (\<lambda>d.
     bind_res (sdk_encode_abi V
       [AbiBytes32 (PROOF_CONTEXT_V1_DOMAIN_SEPARATOR V), AbiUint 1, AbiUint (num_int chainId), AbiAddress pool,
        AbiBytes32 shape, AbiBytes4 selector, AbiBytes32 r, AbiBytes32 nullifier, AbiAddress dest, AbiUint g, AbiUint f,
        AbiBytes32 nh, AbiBytes32 ph, AbiUint d])
       (w_hashAbiEncodedToField V)))))))))))))"

definition sdk_hashEncryptedNoteV1 :: "viem \<Rightarrow> hash_target \<Rightarrow> string \<Rightarrow> int \<Rightarrow> string \<Rightarrow> string + string" where
  "sdk_hashEncryptedNoteV1 V t commitment noteAmount encryptedNote =
     bind_res (assertSupportedChainId (ht_chainId t)) (\<lambda>chainId.
     bind_res (w_assertAddress (ht_pool t) ''pool'') (\<lambda>pool.
     bind_res (w_assertBytes32 (ht_shape t) ''shape'') (\<lambda>shape.
     bind_res (w_assertBytes4 (ht_selector t) ''selector'') (\<lambda>selector.
     bind_res (w_assertNonZeroBytes32 (ht_nullifier t) ''nullifier'') (\<lambda>nullifier.
     bind_res (w_assertBytes32 commitment ''commitment'') (\<lambda>c.
     bind_res (w_assertPositiveUint256 noteAmount ''noteAmount'') (\<lambda>a.
     bind_res (w_assertHexBytes encryptedNote ''encryptedNote'') (\<lambda>n.
     bind_res (sdk_encode_abi V
       [AbiBytes32 (ENCRYPTED_NOTE_V1_DOMAIN_SEPARATOR V), AbiUint 1, AbiUint (num_int chainId), AbiAddress pool,
        AbiBytes32 shape, AbiBytes4 selector, AbiBytes32 nullifier, AbiBytes32 c, AbiUint a, AbiBytes n])
       (w_hashAbiEncodedToField V)))))))))"

definition sdk_hashEncryptedOutputNoteV2 :: "viem \<Rightarrow> hash_target \<Rightarrow> string \<Rightarrow> string \<Rightarrow> string + string" where
  "sdk_hashEncryptedOutputNoteV2 V t outputCommitment outputNoteHex =
     bind_res (assertSupportedChainId (ht_chainId t)) (\<lambda>chainId.
     bind_res (w_assertAddress (ht_pool t) ''pool'') (\<lambda>pool.
     bind_res (w_assertBytes32 (ht_shape t) ''shape'') (\<lambda>shape.
     bind_res (w_assertBytes4 (ht_selector t) ''selector'') (\<lambda>selector.
     bind_res (w_assertNonZeroBytes32 (ht_nullifier t) ''nullifier'') (\<lambda>nullifier.
     bind_res (w_assertNonZeroBytes32 outputCommitment ''outputCommitment'') (\<lambda>c.
     bind_res (w_assertHexBytes outputNoteHex ''encryptedOutputNote'') (\<lambda>n.
     bind_res (sdk_encode_abi V
       [AbiBytes32 (OUTPUT_NOTE_V2_DOMAIN_HASH V), AbiUint 2, AbiUint (num_int chainId), AbiAddress pool,
        AbiBytes32 shape, AbiBytes4 selector, AbiBytes32 nullifier, AbiBytes32 c, AbiBytes32 (keccak V n)])
       (w_hashAbiEncodedToField V))))))))"

definition sdk_hashRelayerPolicyV1 :: "viem \<Rightarrow> stage_b_policy \<Rightarrow> string + string" where
  "sdk_hashRelayerPolicyV1 V p =
     bind_res (w_assertAddress (sb_relayer p) ''relayer'') (\<lambda>relayer.
     bind_res (w_assertUint256 (sb_minNetAmount p) ''minNetAmount'') (\<lambda>mi.
     bind_res (w_assertUint256 (sb_maxFeeAmount p) ''maxFeeAmount'') (\<lambda>ma.
     bind_res (w_assertUint256 (sb_deadlineOrZero p) ''deadlineOrZero'') (\<lambda>d.
     bind_res (sdk_encode_abi V
       [AbiBytes32 (RELAYER_POLICY_V1_DOMAIN_SEPARATOR V), AbiUint 1, AbiAddress relayer, AbiUint mi, AbiUint ma, AbiUint d])
       (w_hashAbiEncodedToField V)))))"

section \<open>The hashes a withdrawal is bound to\<close>

record exit_input =
  ei_chainId :: jsnum
  ei_pool :: string
  ei_proofContextShape :: "string option"
  ei_selector :: "string option"
  ei_root :: string
  ei_nullifier :: string
  ei_destination :: string
  ei_grossAmount :: int
  ei_fee :: int
  ei_relayerPolicy :: stage_b_policy

record context_hashes =
  wh_encryptedNoteHash :: string
  wh_relayerPolicyHash :: string
  wh_proofContextHash :: string

definition exit_target :: "exit_input \<Rightarrow> string \<Rightarrow> hash_target" where
  "exit_target i shape =
     \<lparr>ht_chainId = ei_chainId i, ht_pool = ei_pool i, ht_shape = or_else (ei_proofContextShape i) shape,
      ht_selector = or_else (ei_selector i) STAGE_C_SELECTOR, ht_nullifier = ei_nullifier i\<rparr>"

text \<open>The part the three functions share, after the hash of the note.\<close>

definition bind_context :: "viem \<Rightarrow> exit_input \<Rightarrow> hash_target \<Rightarrow> string \<Rightarrow> string + context_hashes" where
  "bind_context V i t encryptedNoteHash =
     bind_res (sdk_hashRelayerPolicyV1 V (ei_relayerPolicy i)) (\<lambda>relayerPolicyHash.
     bind_res (sdk_hashProofContextV1 V t (ei_root i) (ei_destination i) (ei_grossAmount i) (ei_fee i) encryptedNoteHash
         relayerPolicyHash (sb_deadlineOrZero (ei_relayerPolicy i))) (\<lambda>proofContextHash.
       Inr \<lparr>wh_encryptedNoteHash = encryptedNoteHash, wh_relayerPolicyHash = relayerPolicyHash,
            wh_proofContextHash = proofContextHash\<rparr>))"

definition computeStageBWithdrawPublicExitHashes :: "viem \<Rightarrow> exit_input \<Rightarrow> int \<Rightarrow> string + context_hashes" where
  "computeStageBWithdrawPublicExitHashes V i noteAmount =
     (let t = exit_target i (PROOF_CONTEXT_V1_SHAPE_WITHDRAW V) in
      bind_res (sdk_hashEncryptedNoteV1 V t ZERO_BYTES32 noteAmount ''0x'') (bind_context V i t))"

definition sdk_computeStageCWithdrawChangeNoteHashes ::
  "viem \<Rightarrow> exit_input \<Rightarrow> string \<Rightarrow> int \<Rightarrow> string \<Rightarrow> string + context_hashes" where
  "sdk_computeStageCWithdrawChangeNoteHashes V i changeCommitment changeAmount changeNoteHex =
     (let t = exit_target i (PROOF_CONTEXT_V1_SHAPE_WITHDRAW V) in
      bind_res (sdk_hashEncryptedNoteV1 V t changeCommitment changeAmount changeNoteHex) (bind_context V i t))"

definition computeV12UnlinkableWithdrawHashes :: "viem \<Rightarrow> exit_input \<Rightarrow> string \<Rightarrow> string \<Rightarrow> string + context_hashes" where
  "computeV12UnlinkableWithdrawHashes V i outputCommitment outputNoteHex =
     (let t = exit_target i (PROOF_CONTEXT_V1_SHAPE_WITHDRAW_V1_2_FEE_GOVERNANCE V) in
      bind_res (sdk_hashEncryptedOutputNoteV2 V t outputCommitment outputNoteHex) (bind_context V i t))"

section \<open>Notes, paths and inputs\<close>

record merkle_path_payload =
  mp_commitment :: string
  mp_leafIndex :: jsnum
  mp_root :: string
  mp_pathElements :: "string list"
  mp_pathIndices :: "jsnum list"
  mp_chainId :: jsnum
  mp_pool :: string
  mp_latestCheckedBlock :: string

text \<open>
  The input without the path. \<open>bw_encrypt\<close> is the callback that encrypts the change or output note,
  \<open>bw_random k\<close> what the random source returns at its k-th call.
\<close>

record witness_input =
  bw_note :: spend_material
  bw_destination :: string
  bw_grossAmountWei :: "string option"
  bw_chainId :: jsnum
  bw_pool :: string
  bw_merkleTreeDepth :: jsnum
  bw_withdrawalFeeBps :: "jsnum option"
  bw_proofContextShape :: "string option"
  bw_pendingWithdrawalFeeBps :: "jsnum option"
  bw_random :: "nat \<Rightarrow> nat list"
  bw_encrypt :: "(spend_material \<Rightarrow> string + string) option"
  bw_now :: string

definition NATIVE_ETH_ASSET_ID :: string where
  "NATIVE_ETH_ASSET_ID = ''0x'' @ replicate 63 (CHR ''0'') @ ''1''"

definition assertNoteForPool :: "spend_material \<Rightarrow> jsnum \<Rightarrow> string \<Rightarrow> string + unit" where
  "assertNoteForPool m chainId pool =
     first_throw
      [(sm_version m \<noteq> ''spend-material-v1'', ''Recovered note has an unsupported version.''),
       (\<not> num_eq (sm_chainId m) chainId, ''Recovered note is not for the configured MegaETH network.''),
       (to_lower (sm_pool m) \<noteq> to_lower pool, ''Recovered note is not for this shielded pool.''),
       (to_lower (sm_assetId m) \<noteq> NATIVE_ETH_ASSET_ID, ''Recovered note asset is not the native ETH pool asset.''),
       (\<not> isBn254FieldElement (sm_commitment m), ''Recovered note commitment must be a nonzero BN254 field element.''),
       (\<not> isBn254FieldElement (sm_ownerCommitment m),
        ''Recovered note ownerCommitment must be a nonzero BN254 field element.''),
       (\<not> isBn254FieldElement (sm_noteSecret m), ''Recovered note noteSecret must be a nonzero BN254 field element.'')]"

fun check_indices :: "int \<Rightarrow> nat \<Rightarrow> jsnum list \<Rightarrow> string + unit" where
  "check_indices leafIndex level [] = Inr ()"
| "check_indices leafIndex level (pathIndex # indices) =
     (if \<not> num_eq pathIndex (jsint 0) \<and> \<not> num_eq pathIndex (jsint 1) then Inl ''Merkle path indices must be bits.''
      else if leafIndex div 2 ^ level mod 2 \<noteq> num_int pathIndex then Inl ''Merkle path indices do not match the leaf index.''
      else check_indices leafIndex (Suc level) indices)"

definition assertMerklePath :: "merkle_path_payload \<Rightarrow> jsnum \<Rightarrow> string \<Rightarrow> string \<Rightarrow> jsnum \<Rightarrow> string + unit" where
  "assertMerklePath path chainId pool commitment treeDepth =
     bind_res (first_throw
      [(\<not> num_eq (mp_chainId path) chainId, ''Merkle path is not for the configured MegaETH network.''),
       (to_lower (mp_pool path) \<noteq> to_lower pool, ''Merkle path is not for this shielded pool.''),
       (to_lower (mp_commitment path) \<noteq> to_lower commitment, ''Merkle path commitment does not match the recovered note.'')]) (\<lambda>_.
     bind_res (assertNonZeroField (mp_root path) ''Merkle path root'') (\<lambda>_.
     bind_res (first_throw
      [(\<not> is_safe_integer treeDepth \<or> num_le treeDepth (jsint 0) \<or> num_less (jsint 32) treeDepth,
        ''Withdrawal circuit depth must be between 1 and 32.''),
       (\<not> is_safe_integer (mp_leafIndex path) \<or> num_less (mp_leafIndex path) (jsint 0) \<or>
          2 ^ nat (num_int treeDepth) \<le> num_int (mp_leafIndex path),
        ''Merkle path leaf index must fit the withdrawal circuit depth.''),
       (int (length (mp_pathElements path)) \<noteq> num_int treeDepth \<or> int (length (mp_pathIndices path)) \<noteq> num_int treeDepth,
        ''Merkle path must match the withdrawal circuit depth.'')]) (\<lambda>_.
     bind_res (map_res (\<lambda>element. assertZeroAllowedField element ''Merkle path element'') (mp_pathElements path)) (\<lambda>_.
       check_indices (num_int (mp_leafIndex path)) 0 (mp_pathIndices path)))))"

section \<open>New notes\<close>

definition byte_text :: "nat \<Rightarrow> string" where
  "byte_text b = pad_start 2 (CHR ''0'') (hex_string (int b))"

definition createRandomBytes32 :: "nat list \<Rightarrow> string + string" where
  "createRandomBytes32 bytes =
     (if length bytes \<noteq> 32 then Inl ''Random byte provider must return exactly 32 bytes.''
      else Inr (''0x'' @ concat (map byte_text bytes)))"

text \<open>The note of the given amount, whose commitment is derived by the third argument.\<close>

definition new_note ::
  "witness_input \<Rightarrow> int \<Rightarrow> (string \<Rightarrow> string \<Rightarrow> string + string) \<Rightarrow> string + spend_material" where
  "new_note input amount derive =
     bind_res (createRandomBytes32 (bw_random input 0)) (\<lambda>ownerCommitment.
     bind_res (createRandomBytes32 (bw_random input 1)) (\<lambda>noteSecret.
     bind_res (derive ownerCommitment noteSecret) (\<lambda>commitment.
     bind_res (createRandomBytes32 (bw_random input 2)) (\<lambda>blinding.
       Inr \<lparr>sm_version = ''spend-material-v1'', sm_chainId = sm_chainId (bw_note input), sm_pool = sm_pool (bw_note input),
            sm_assetId = sm_assetId (bw_note input), sm_noteAmountWei = dec_string amount,
            sm_ownerCommitment = ownerCommitment, sm_noteSecret = noteSecret, sm_blinding = blinding,
            sm_commitment = commitment, sm_createdAt = bw_now input\<rparr>))))"

definition createChangeNote :: "(int list \<Rightarrow> int) \<Rightarrow> witness_input \<Rightarrow> int \<Rightarrow> string + spend_material" where
  "createChangeNote poseidon input changeAmount =
     new_note input changeAmount
       (deriveNoteCommitment poseidon (sm_assetId (bw_note input)) (dec_string changeAmount))"

definition deriveOutputNoteCommitment :: "(int list \<Rightarrow> int) \<Rightarrow> string \<Rightarrow> string \<Rightarrow> string \<Rightarrow> string \<Rightarrow> string + string" where
  "deriveOutputNoteCommitment poseidon assetId amountText ownerCommitment noteSecret =
     bind_res (parseZeroAllowedDecimalField amountText ''outputAmountWei'') (\<lambda>amount.
     bind_res (w_assertBytes32 assetId ''assetId'') (\<lambda>a.
     bind_res (w_assertBytes32 ownerCommitment ''ownerCommitment'') (\<lambda>oc.
     bind_res (w_assertBytes32 noteSecret ''noteSecret'') (\<lambda>sec.
       Inr (toBytes32 (poseidon [10001, hex_value a, amount, hex_value oc, hex_value sec]))))))"

definition createOutputNote :: "(int list \<Rightarrow> int) \<Rightarrow> witness_input \<Rightarrow> int \<Rightarrow> string + spend_material" where
  "createOutputNote poseidon input outputAmount =
     new_note input outputAmount
       (deriveOutputNoteCommitment poseidon (sm_assetId (bw_note input)) (dec_string outputAmount))"

definition encrypt_required :: "witness_input \<Rightarrow> string \<Rightarrow> string \<Rightarrow> spend_material \<Rightarrow> string + string" where
  "encrypt_required input missing_msg bytes_msg m =
     (case bw_encrypt input of
        None \<Rightarrow> Inl missing_msg
      | Some encrypt \<Rightarrow> bind_res (encrypt m) (\<lambda>n. if \<not> isHexString n \<or> n = ''0x'' then Inl bytes_msg else Inr n))"

definition encryptRequiredChangeNote :: "witness_input \<Rightarrow> spend_material \<Rightarrow> string + string" where
  "encryptRequiredChangeNote input =
     encrypt_required input ''Encrypted change note bytes are required before generating a split withdrawal proof.''
       ''Encrypted change note must be nonempty even-length hex bytes.''"

definition encryptRequiredOutputNote :: "witness_input \<Rightarrow> spend_material \<Rightarrow> string + string" where
  "encryptRequiredOutputNote input =
     encrypt_required input ''Encrypted output note bytes are required before generating a split v1.2 withdrawal proof.''
       ''Encrypted output note must be nonempty even-length hex bytes.''"

definition resolveWithdrawContextShape :: "viem \<Rightarrow> string option \<Rightarrow> jsnum option \<Rightarrow> string + string" where
  "resolveWithdrawContextShape V requested pending =
     (if requested = Some ''v1.1'' \<or> requested = None
      then (if pending \<noteq> None
            then Inl ''v1.2 fee-governed withdrawals must use proofContextShape v1.2-fee-governance.''
            else Inr (PROOF_CONTEXT_V1_SHAPE_WITHDRAW V))
      else if requested = Some ''v1.2-fee-governance'' then Inr (PROOF_CONTEXT_V1_SHAPE_WITHDRAW_V1_2_FEE_GOVERNANCE V)
      else Inl ''Unsupported withdrawal proofContextShape.'')"

section \<open>Witnesses\<close>

datatype witness_value = WText string | WList "string list"

definition decimal :: "string \<Rightarrow> string" where
  "decimal h = dec_string (hex_value h)"

record proof_intent =
  in_root :: string
  in_nullifier :: string
  in_newCommitment :: string
  in_destination :: string
  in_grossAmountWei :: string
  in_feeWei :: string
  in_chainId :: jsnum
  in_pool :: string
  in_proofContextHash :: string
  in_noteHash :: string

text \<open>Version 1.1 also states the note that is spent.\<close>

record proof_intent_v11 = proof_intent +
  in_spentCommitment :: string
  in_noteAmountWei :: string

record 'i witness_bundle =
  ww_witness :: "(string \<times> witness_value) list"
  ww_intent :: 'i
  ww_nullifier :: string
  ww_newNote :: "spend_material option"
  ww_encryptedNote :: string
  ww_netAmountWei :: string

record v12_bundle = "proof_intent witness_bundle" +
  ww_publicInputs :: "string list"

text \<open>The amounts of the note and of the withdrawal, after the checks of note, path and destination.\<close>

definition withdrawal_amounts :: "witness_input \<Rightarrow> merkle_path_payload \<Rightarrow> string \<Rightarrow> string + int \<times> int" where
  "withdrawal_amounts input path label =
     bind_res (assertNoteForPool (bw_note input) (bw_chainId input) (bw_pool input)) (\<lambda>_.
     bind_res (assertMerklePath path (bw_chainId input) (bw_pool input) (sm_commitment (bw_note input))
                 (bw_merkleTreeDepth input)) (\<lambda>_.
     if \<not> isEvmAddress (bw_destination input) \<or> bw_destination input = ZERO_ADDRESS
     then Inl ''Withdrawal destination must be a nonzero EVM address.''
     else
     bind_res (parsePositiveDecimalField (sm_noteAmountWei (bw_note input)) label) (\<lambda>noteAmount.
     bind_res (case bw_grossAmountWei input of None \<Rightarrow> Inr noteAmount
               | Some g \<Rightarrow> parsePositiveDecimalField g ''grossAmountWei'') (\<lambda>grossAmount.
       if grossAmount > noteAmount then Inl ''Withdrawal amount cannot exceed the recovered note amount.''
       else Inr (noteAmount, grossAmount)))))"

definition withdrawal_fee :: "witness_input \<Rightarrow> int \<Rightarrow> string + int" where
  "withdrawal_fee input grossAmount =
     bind_res (w_normalizeFeeBps (or_else (bw_withdrawalFeeBps input) (jsint 33))) (\<lambda>bps.
       Inr (grossAmount * num_int bps div 10000))"

text \<open>The note's own commitment is checked and its nullifier derived.\<close>

definition spent_nullifier :: "(int list \<Rightarrow> int) \<Rightarrow> witness_input \<Rightarrow> merkle_path_payload \<Rightarrow> string + string" where
  "spent_nullifier poseidon input path =
     (let m = bw_note input in
      bind_res (deriveCommitmentFromSpendMaterial poseidon m) (\<lambda>expectedCommitment.
        if to_lower expectedCommitment \<noteq> to_lower (sm_commitment m)
        then Inl ''Recovered note commitment does not match its spend material.''
        else deriveNullifier poseidon (sm_noteSecret m) (mp_leafIndex path) (bw_chainId input) (bw_pool input)))"

definition zero_policy :: "int \<Rightarrow> int \<Rightarrow> stage_b_policy" where
  "zero_policy grossAmount feeAmount =
     \<lparr>sb_relayer = ZERO_ADDRESS, sb_minNetAmount = grossAmount - feeAmount, sb_maxFeeAmount = feeAmount,
      sb_deadlineOrZero = 0\<rparr>"

definition built_exit :: "witness_input \<Rightarrow> merkle_path_payload \<Rightarrow> string \<Rightarrow> string \<Rightarrow> int \<Rightarrow> int \<Rightarrow> exit_input" where
  "built_exit input path shape nullifier grossAmount feeAmount =
     \<lparr>ei_chainId = bw_chainId input, ei_pool = bw_pool input, ei_proofContextShape = Some shape,
      ei_selector = Some STAGE_C_SELECTOR, ei_root = mp_root path, ei_nullifier = nullifier,
      ei_destination = bw_destination input, ei_grossAmount = grossAmount, ei_fee = feeAmount,
      ei_relayerPolicy = zero_policy grossAmount feeAmount\<rparr>"

definition buildWithdrawalWitness ::
  "viem \<Rightarrow> (int list \<Rightarrow> int) \<Rightarrow> witness_input \<Rightarrow> merkle_path_payload \<Rightarrow> string + proof_intent_v11 witness_bundle" where
  "buildWithdrawalWitness V poseidon input path =
     (let m = bw_note input in
     bind_res (withdrawal_amounts input path ''noteAmountWei'') (\<lambda>(noteAmount, grossAmount).
     bind_res (withdrawal_fee input grossAmount) (\<lambda>feeAmount.
     bind_res (normalizeOptionalFeeBps (bw_pendingWithdrawalFeeBps input)) (\<lambda>_.
     bind_res (resolveWithdrawContextShape V (bw_proofContextShape input) (bw_pendingWithdrawalFeeBps input)) (\<lambda>shape.
     let changeAmount = noteAmount - grossAmount in
     bind_res (if changeAmount = 0 then Inr None
               else bind_res (createChangeNote poseidon input changeAmount) (\<lambda>n. Inr (Some n))) (\<lambda>changeNote.
     let changeCommitment = (case changeNote of None \<Rightarrow> ZERO_BYTES32 | Some n \<Rightarrow> sm_commitment n) in
     bind_res (case changeNote of None \<Rightarrow> Inr ''0x'' | Some n \<Rightarrow> encryptRequiredChangeNote input n) (\<lambda>changeNoteHex.
     bind_res (spent_nullifier poseidon input path) (\<lambda>nullifier.
     let exit = built_exit input path shape nullifier grossAmount feeAmount in
     bind_res (if changeCommitment = ZERO_BYTES32 then computeStageBWithdrawPublicExitHashes V exit noteAmount
               else sdk_computeStageCWithdrawChangeNoteHashes V exit changeCommitment changeAmount changeNoteHex)
       (\<lambda>hashes.
       Inr \<lparr>ww_witness =
           [(''root'', WText (decimal (mp_root path))), (''nullifier'', WText (decimal nullifier)),
            (''newCommitment'', WText (decimal changeCommitment)), (''destination'', WText (decimal (bw_destination input))),
            (''grossAmount'', WText (dec_string grossAmount)), (''fee'', WText (dec_string feeAmount)),
            (''chainId'', WText (dec_string (num_int (bw_chainId input)))), (''verifyingContract'', WText (decimal (bw_pool input))),
            (''spentCommitment'', WText (decimal (sm_commitment m))),
            (''proofContextHash'', WText (decimal (wh_proofContextHash hashes))),
            (''encryptedNoteHash'', WText (decimal (wh_encryptedNoteHash hashes))),
            (''pathElements'', WList (map decimal (mp_pathElements path))), (''assetId'', WText (decimal (sm_assetId m))),
            (''noteAmount'', WText (dec_string noteAmount)), (''ownerCommitment'', WText (decimal (sm_ownerCommitment m))),
            (''noteSecret'', WText (decimal (sm_noteSecret m))), (''leafIndex'', WText (dec_string (num_int (mp_leafIndex path)))),
            (''withdrawalDestination'', WText (decimal (bw_destination input))),
            (''changeAmount'', WText (dec_string changeAmount)),
            (''changeOwnerCommitment'', WText (case changeNote of None \<Rightarrow> ''0'' | Some n \<Rightarrow> decimal (sm_ownerCommitment n))),
            (''changeNoteSecret'', WText (case changeNote of None \<Rightarrow> ''0'' | Some n \<Rightarrow> decimal (sm_noteSecret n))),
            (''expectedProofContextHash'', WText (decimal (wh_proofContextHash hashes))),
            (''expectedEncryptedNoteHash'', WText (decimal (wh_encryptedNoteHash hashes)))],
         ww_intent =
           \<lparr>in_root = mp_root path, in_nullifier = nullifier, in_newCommitment = changeCommitment,
            in_destination = bw_destination input, in_grossAmountWei = dec_string grossAmount,
            in_feeWei = dec_string feeAmount, in_chainId = bw_chainId input, in_pool = bw_pool input,
            in_proofContextHash = wh_proofContextHash hashes, in_noteHash = wh_encryptedNoteHash hashes,
            in_spentCommitment = sm_commitment m, in_noteAmountWei = dec_string noteAmount\<rparr>,
         ww_nullifier = nullifier, ww_newNote = changeNote,
         ww_encryptedNote = changeNoteHex, ww_netAmountWei = dec_string (grossAmount - feeAmount)\<rparr>)))))))))"

definition sdk_addressToBytes32 :: "string \<Rightarrow> string + string" where
  "sdk_addressToBytes32 a =
     bind_res (w_assertAddress a ''address'') (\<lambda>_. Inr (''0x'' @ pad_start 64 (CHR ''0'') (to_lower (drop 2 a))))"

definition V12_DUMMY_OUTPUT_CIPHERTEXT :: string where
  "V12_DUMMY_OUTPUT_CIPHERTEXT = ''0x00''"

definition buildV12UnlinkableWithdrawalWitness ::
  "viem \<Rightarrow> (int list \<Rightarrow> int) \<Rightarrow> witness_input \<Rightarrow> merkle_path_payload \<Rightarrow> string + v12_bundle" where
  "buildV12UnlinkableWithdrawalWitness V poseidon input path =
     (let m = bw_note input in
     bind_res (withdrawal_amounts input path ''oldAmountWei'') (\<lambda>(oldAmount, grossAmount).
     bind_res (withdrawal_fee input grossAmount) (\<lambda>feeAmount.
     let outputAmount = oldAmount - grossAmount in
     bind_res (createOutputNote poseidon input outputAmount) (\<lambda>outputMaterial.
     let outputNote = (if outputAmount = 0 then None else Some outputMaterial);
         outputCommitment = sm_commitment outputMaterial in
     bind_res (case outputNote of None \<Rightarrow> Inr V12_DUMMY_OUTPUT_CIPHERTEXT | Some n \<Rightarrow> encryptRequiredOutputNote input n)
       (\<lambda>outputCiphertext.
     bind_res (createEncryptedOutputNoteV2Envelope (bw_chainId input) (bw_pool input) outputCommitment outputCiphertext
                 None None None) (\<lambda>envelope.
     bind_res (serializeEncryptedOutputNoteV2EnvelopeToHex envelope) (\<lambda>outputNoteHex.
     bind_res (spent_nullifier poseidon input path) (\<lambda>nullifier.
     bind_res (computeV12UnlinkableWithdrawHashes V (built_exit input path
                 (PROOF_CONTEXT_V1_SHAPE_WITHDRAW_V1_2_FEE_GOVERNANCE V) nullifier grossAmount feeAmount)
                 outputCommitment outputNoteHex) (\<lambda>hashes.
     bind_res (sdk_addressToBytes32 (bw_destination input)) (\<lambda>destinationWord.
     bind_res (sdk_addressToBytes32 (bw_pool input)) (\<lambda>poolWord.
       Inr \<lparr>ww_witness =
           [(''root'', WText (decimal (mp_root path))), (''nullifier'', WText (decimal nullifier)),
            (''outputCommitment'', WText (decimal outputCommitment)), (''destination'', WText (decimal (bw_destination input))),
            (''grossAmount'', WText (dec_string grossAmount)), (''fee'', WText (dec_string feeAmount)),
            (''chainId'', WText (dec_string (num_int (bw_chainId input)))), (''verifyingContract'', WText (decimal (bw_pool input))),
            (''proofContextHash'', WText (decimal (wh_proofContextHash hashes))),
            (''encryptedOutputNoteHash'', WText (decimal (wh_encryptedNoteHash hashes))),
            (''pathElements'', WList (map decimal (mp_pathElements path))), (''assetId'', WText (decimal (sm_assetId m))),
            (''oldAmount'', WText (dec_string oldAmount)), (''ownerCommitment'', WText (decimal (sm_ownerCommitment m))),
            (''noteSecret'', WText (decimal (sm_noteSecret m))), (''leafIndex'', WText (dec_string (num_int (mp_leafIndex path)))),
            (''withdrawalDestination'', WText (decimal (bw_destination input))),
            (''outputAmount'', WText (dec_string outputAmount)),
            (''outputOwnerCommitment'', WText (decimal (sm_ownerCommitment outputMaterial))),
            (''outputNoteSecret'', WText (decimal (sm_noteSecret outputMaterial))),
            (''expectedProofContextHash'', WText (decimal (wh_proofContextHash hashes))),
            (''expectedEncryptedOutputNoteHash'', WText (decimal (wh_encryptedNoteHash hashes)))],
         ww_intent =
           \<lparr>in_root = mp_root path, in_nullifier = nullifier, in_newCommitment = outputCommitment,
            in_destination = bw_destination input, in_grossAmountWei = dec_string grossAmount,
            in_feeWei = dec_string feeAmount, in_chainId = bw_chainId input, in_pool = bw_pool input,
            in_proofContextHash = wh_proofContextHash hashes, in_noteHash = wh_encryptedNoteHash hashes\<rparr>,
         ww_nullifier = nullifier, ww_newNote = outputNote, ww_encryptedNote = outputNoteHex,
         ww_netAmountWei = dec_string (grossAmount - feeAmount),
         ww_publicInputs =
           [mp_root path, nullifier, outputCommitment, destinationWord, toBytes32 grossAmount, toBytes32 feeAmount,
            toBytes32 (num_int (bw_chainId input)), poolWord, wh_proofContextHash hashes, wh_encryptedNoteHash hashes]\<rparr>)))))))))))"

section \<open>From the pool's root history\<close>

definition path_payload :: "witness_input \<Rightarrow> string option \<Rightarrow> reconstructed_path \<Rightarrow> merkle_path_payload" where
  "path_payload input latestCheckedBlock r =
     \<lparr>mp_commitment = rec_commitment r, mp_leafIndex = jsint (rec_leafIndex r), mp_root = rec_root r,
      mp_pathElements = rec_pathElements r, mp_pathIndices = map jsint (rec_pathIndices r),
      mp_chainId = bw_chainId input, mp_pool = bw_pool input, mp_latestCheckedBlock = or_else latestCheckedBlock ''latest''\<rparr>"

text \<open>What reconstruction throws is a value of its own; its text is not looked at here.\<close>

definition from_history ::
  "(int list \<Rightarrow> int) \<Rightarrow> (merkle_path_payload \<Rightarrow> string + 'b) \<Rightarrow> witness_input \<Rightarrow> string option \<Rightarrow> root_accepted_log list
     \<Rightarrow> (reconstruct_error + string) + 'b" where
  "from_history poseidon build input latestCheckedBlock logs =
     (case reconstructMerklePathFromRootAcceptedLogs logs (sm_commitment (bw_note input)) poseidon (bw_merkleTreeDepth input) of
        Inl e \<Rightarrow> Inl (Inl e)
      | Inr r \<Rightarrow> (case build (path_payload input latestCheckedBlock r) of Inl e \<Rightarrow> Inl (Inr e) | Inr b \<Rightarrow> Inr b))"

definition buildWithdrawalWitnessFromRootAcceptedLogs ::
  "viem \<Rightarrow> (int list \<Rightarrow> int) \<Rightarrow> witness_input \<Rightarrow> string option \<Rightarrow> root_accepted_log list
     \<Rightarrow> (reconstruct_error + string) + proof_intent_v11 witness_bundle" where
  "buildWithdrawalWitnessFromRootAcceptedLogs V poseidon input =
     from_history poseidon (buildWithdrawalWitness V poseidon input) input"

definition buildV12UnlinkableWithdrawalWitnessFromRootAcceptedLogs ::
  "viem \<Rightarrow> (int list \<Rightarrow> int) \<Rightarrow> witness_input \<Rightarrow> string option \<Rightarrow> root_accepted_log list
     \<Rightarrow> (reconstruct_error + string) + v12_bundle" where
  "buildV12UnlinkableWithdrawalWitnessFromRootAcceptedLogs V poseidon input =
     from_history poseidon (buildV12UnlinkableWithdrawalWitness V poseidon input) input"

section \<open>What a value has passed\<close>

lemma w_asserts_Inr [res_simps]:
  "w_assertAddress v l = Inr w \<longleftrightarrow> isEvmAddress v \<and> w = v"
  "w_assertBytes32 v l = Inr w \<longleftrightarrow> isHexBytes32 v \<and> w = v"
  "w_assertNonZeroBytes32 v l = Inr w \<longleftrightarrow> isHexBytes32 v \<and> v \<noteq> ZERO_BYTES32 \<and> w = v"
  "w_assertBytes4 v l = Inr w \<longleftrightarrow> hex_of_length 8 v \<and> w = v"
  "w_assertHexBytes v l = Inr w \<longleftrightarrow> isHexString v \<and> w = v"
  "w_assertUint256 n l = Inr m \<longleftrightarrow> 0 \<le> n \<and> n < 2 ^ 256 \<and> m = n"
  "w_assertPositiveUint256 n l = Inr m \<longleftrightarrow> 0 < n \<and> n < 2 ^ 256 \<and> m = n"
  "assertSupportedChainId c = Inr d \<longleftrightarrow> (num_eq c (jsint 4326) \<or> num_eq c (jsint 6343)) \<and> d = c"
  "sdk_encode_abi V vs = Inr e \<longleftrightarrow> abi_encode V vs = Some e"
  by (auto simp: w_assertAddress_def w_assertBytes32_def w_assertNonZeroBytes32_def w_assertBytes4_def
      w_assertHexBytes_def w_assertUint256_def w_assertPositiveUint256_def assertSupportedChainId_def
      sdk_encode_abi_def res_simps split: option.splits)

lemma w_fields_Inr [res_simps]:
  "assertZeroAllowedField v n = Inr u \<longleftrightarrow> isHexBytes32 v \<and> hex_value v < BN254_SCALAR_FIELD"
  "assertNonZeroField v n = Inr u \<longleftrightarrow> isHexBytes32 v \<and> hex_value v \<noteq> 0 \<and> hex_value v < BN254_SCALAR_FIELD"
  by (auto simp: assertZeroAllowedField_def assertNonZeroField_def res_simps)

lemma parse_amount_Inr [res_simps]:
  "parsePositiveDecimalField v n = Inr a \<longleftrightarrow>
     v \<noteq> [] \<and> list_all is_digit v \<and> a = int (radix_val 10 v) \<and> 0 < a \<and> a \<le> UINT128_MAX"
  "parseZeroAllowedDecimalField v n = Inr a \<longleftrightarrow>
     v \<noteq> [] \<and> list_all is_digit v \<and> a = int (radix_val 10 v) \<and> a \<le> UINT128_MAX"
  by (auto simp: parsePositiveDecimalField_def parseZeroAllowedDecimalField_def parse_amount_def Let_def
      UINT128_MAX_def BN254_SCALAR_FIELD_def)

lemma w_normalizeFeeBps_Inr [res_simps]:
  "w_normalizeFeeBps v = Inr w \<longleftrightarrow> w = v \<and> (\<exists>k. v = jsint k \<and> 0 \<le> k \<and> k \<le> 100)"
proof
  assume "w_normalizeFeeBps v = Inr w"
  then show "w = v \<and> (\<exists>k. v = jsint k \<and> 0 \<le> k \<and> k \<le> 100)"
    unfolding w_normalizeFeeBps_def by (elim guardE resultE) (auto simp: not_less elim!: is_safe_integerE)
next
  assume "w = v \<and> (\<exists>k. v = jsint k \<and> 0 \<le> k \<and> k \<le> 100)"
  then obtain k where k: "w = v" "v = jsint k" "0 \<le> k" "k \<le> 100" by blast
  then have "is_safe_integer (jsint k)" "\<not> num_less (jsint k) (jsint 0)" "\<not> num_less (jsint 100) (jsint k)"
    by (simp_all only: num_cmp_jsint is_safe_integer_jsint) (simp_all add: MAX_SAFE_INTEGER_def)
  then show "w_normalizeFeeBps v = Inr w"
    unfolding k(1,2) w_normalizeFeeBps_def by simp
qed

lemma hashed_field_Inr [res_simps]:
  "w_hashAbiEncodedToField V e = Inr h \<longleftrightarrow>
     isHexString e \<and> (\<exists>k. js_bigint (keccak V e) = Some k \<and> h = toBytes32 (k mod BN254_SCALAR_FIELD))"
  by (auto simp: w_hashAbiEncodedToField_def bigint_result_def res_simps split: option.splits)

lemma field_word [simp]: "isHexBytes32 (toBytes32 (k mod BN254_SCALAR_FIELD))"
  "to_lower (toBytes32 (k mod BN254_SCALAR_FIELD)) = toBytes32 (k mod BN254_SCALAR_FIELD)"
proof -
  have "0 \<le> k mod BN254_SCALAR_FIELD" "k mod BN254_SCALAR_FIELD < BN254_SCALAR_FIELD"
    by (simp_all add: BN254_SCALAR_FIELD_def)
  moreover from this have "k mod BN254_SCALAR_FIELD < 2 ^ 256"
    by (simp add: BN254_SCALAR_FIELD_def)
  ultimately show "isHexBytes32 (toBytes32 (k mod BN254_SCALAR_FIELD))"
    "to_lower (toBytes32 (k mod BN254_SCALAR_FIELD)) = toBytes32 (k mod BN254_SCALAR_FIELD)"
    by (simp_all add: toBytes32_shape)
qed

lemma sdk_addressToBytes32_Inr [res_simps]:
  "sdk_addressToBytes32 a = Inr w \<longleftrightarrow> isEvmAddress a \<and> w = address_word a"
proof -
  have "length (to_lower (drop 2 a)) = 40" if "isEvmAddress a"
    using that by (auto simp: isEvmAddress_def elim: hex_of_lengthE)
  then show ?thesis
    by (auto simp: sdk_addressToBytes32_def address_word_def pad_start_def to_lower_drop res_simps)
qed

section \<open>What a built witness has passed\<close>

lemma withdrawal_amounts_Inr:
  assumes "withdrawal_amounts input path label = Inr (noteAmount, grossAmount)"
  shows "assertNoteForPool (bw_note input) (bw_chainId input) (bw_pool input) = Inr ()"
    "assertMerklePath path (bw_chainId input) (bw_pool input) (sm_commitment (bw_note input)) (bw_merkleTreeDepth input) = Inr ()"
    "isEvmAddress (bw_destination input)" "bw_destination input \<noteq> ZERO_ADDRESS"
    "noteAmount = int (radix_val 10 (sm_noteAmountWei (bw_note input)))" "noteAmount \<le> UINT128_MAX"
    "0 < grossAmount" "grossAmount \<le> noteAmount"
    "\<And>g. bw_grossAmountWei input = Some g \<Longrightarrow> grossAmount = int (radix_val 10 g)"
    "bw_grossAmountWei input = None \<Longrightarrow> grossAmount = noteAmount"
  using assms unfolding withdrawal_amounts_def
  by (auto simp: res_simps split: option.splits)

lemma withdrawal_fee_Inr [res_simps]:
  "withdrawal_fee input g = Inr f \<longleftrightarrow>
     (\<exists>bps. or_else (bw_withdrawalFeeBps input) (jsint 33) = jsint bps \<and> 0 \<le> bps \<and> bps \<le> 100 \<and> f = g * bps div 10000)"
  by (auto simp: withdrawal_fee_def res_simps)

lemma built_v12E:
  assumes "buildV12UnlinkableWithdrawalWitness V poseidon input path = Inr b"
  obtains noteAmount grossAmount feeAmount bps out ct env hashes where
    "withdrawal_amounts input path ''oldAmountWei'' = Inr (noteAmount, grossAmount)"
    "or_else (bw_withdrawalFeeBps input) (jsint 33) = jsint bps" "0 \<le> bps" "bps \<le> 100" "feeAmount = grossAmount * bps div 10000"
    "createOutputNote poseidon input (noteAmount - grossAmount) = Inr out"
    "ww_newNote b = (if noteAmount - grossAmount = 0 then None else Some out)"
    "createEncryptedOutputNoteV2Envelope (bw_chainId input) (bw_pool input) (sm_commitment out) ct None None None = Inr env"
    "serializeEncryptedOutputNoteV2EnvelopeToHex env = Inr (ww_encryptedNote b)"
    "spent_nullifier poseidon input path = Inr (ww_nullifier b)"
    "computeV12UnlinkableWithdrawHashes V (built_exit input path
       (PROOF_CONTEXT_V1_SHAPE_WITHDRAW_V1_2_FEE_GOVERNANCE V) (ww_nullifier b) grossAmount feeAmount)
       (sm_commitment out) (ww_encryptedNote b) = Inr hashes"
    "isEvmAddress (bw_pool input)"
    "ww_netAmountWei b = dec_string (grossAmount - feeAmount)"
    "ww_intent b = \<lparr>in_root = mp_root path, in_nullifier = ww_nullifier b, in_newCommitment = sm_commitment out,
            in_destination = bw_destination input, in_grossAmountWei = dec_string grossAmount,
            in_feeWei = dec_string feeAmount, in_chainId = bw_chainId input, in_pool = bw_pool input,
            in_proofContextHash = wh_proofContextHash hashes, in_noteHash = wh_encryptedNoteHash hashes\<rparr>"
    "ww_publicInputs b =
       [mp_root path, ww_nullifier b, sm_commitment out, address_word (bw_destination input), toBytes32 grossAmount,
        toBytes32 feeAmount, toBytes32 (num_int (bw_chainId input)), address_word (bw_pool input),
        wh_proofContextHash hashes, wh_encryptedNoteHash hashes]"
    "map (map_of (ww_witness b)) NULLARK_WITHDRAW_PUBLIC_INPUT_ORDER_V1_2 = map (\<lambda>v. Some (WText v))
       [decimal (mp_root path), decimal (ww_nullifier b), decimal (sm_commitment out), decimal (bw_destination input),
        dec_string grossAmount, dec_string feeAmount, dec_string (num_int (bw_chainId input)), decimal (bw_pool input),
        decimal (wh_proofContextHash hashes), decimal (wh_encryptedNoteHash hashes)]"
    "map_of (ww_witness b) ''oldAmount'' = Some (WText (dec_string noteAmount))"
    "map_of (ww_witness b) ''outputAmount'' = Some (WText (dec_string (noteAmount - grossAmount)))"
    "map_of (ww_witness b) ''pathElements'' = Some (WList (map decimal (mp_pathElements path)))"
    "map_of (ww_witness b) ''leafIndex'' = Some (WText (dec_string (num_int (mp_leafIndex path))))"
  using assms unfolding buildV12UnlinkableWithdrawalWitness_def Let_def
  apply (elim bind_resE)
  apply (simp (no_asm_use) only: split_paired_all prod.case)
  apply (elim bind_resE resultE)
  subgoal premises prems for noteAmount grossAmount feeAmount out ct env encoded nullifier hashes dw pw
  proof -
    from prems(3) obtain bps where bps: "or_else (bw_withdrawalFeeBps input) (jsint 33) = jsint bps" "0 \<le> bps" "bps \<le> 100"
      "feeAmount = grossAmount * bps div 10000"
      by (auto simp: res_simps)
    have words: "isEvmAddress (bw_pool input)" "dw = address_word (bw_destination input)" "pw = address_word (bw_pool input)"
      using prems(10,11) by (simp_all only: sdk_addressToBytes32_Inr simp_thms)
    show ?thesis
      by (rule prems(1) [where ct = ct and env = env, OF prems(2) bps prems(4)])
        (simp_all add: prems(2-9,12) words NULLARK_WITHDRAW_PUBLIC_INPUT_ORDER_V1_2_def del: of_int_numeral)
  qed
  done

text \<open>The three hashes of an unlinkable withdrawal, and what each is the hash of.\<close>

lemma v12_hashesE:
  assumes "computeV12UnlinkableWithdrawHashes V (built_exit input path shape nullifier g f) oc encoded = Inr h"
  obtains e1 k1 e2 k2 e3 k3 where
    "abi_encode V [AbiBytes32 (OUTPUT_NOTE_V2_DOMAIN_HASH V), AbiUint 2, AbiUint (num_int (bw_chainId input)),
       AbiAddress (bw_pool input), AbiBytes32 shape, AbiBytes4 STAGE_C_SELECTOR, AbiBytes32 nullifier, AbiBytes32 oc,
       AbiBytes32 (keccak V encoded)] = Some e1"
    "isHexString e1" "js_bigint (keccak V e1) = Some k1" "wh_encryptedNoteHash h = toBytes32 (k1 mod BN254_SCALAR_FIELD)"
    "abi_encode V [AbiBytes32 (RELAYER_POLICY_V1_DOMAIN_SEPARATOR V), AbiUint 1, AbiAddress ZERO_ADDRESS,
       AbiUint (g - f), AbiUint f, AbiUint 0] = Some e2"
    "isHexString e2" "js_bigint (keccak V e2) = Some k2" "wh_relayerPolicyHash h = toBytes32 (k2 mod BN254_SCALAR_FIELD)"
    "abi_encode V [AbiBytes32 (PROOF_CONTEXT_V1_DOMAIN_SEPARATOR V), AbiUint 1, AbiUint (num_int (bw_chainId input)),
       AbiAddress (bw_pool input), AbiBytes32 shape, AbiBytes4 STAGE_C_SELECTOR, AbiBytes32 (mp_root path),
       AbiBytes32 nullifier, AbiAddress (bw_destination input), AbiUint g, AbiUint f,
       AbiBytes32 (wh_encryptedNoteHash h), AbiBytes32 (wh_relayerPolicyHash h), AbiUint 0] = Some e3"
    "isHexString e3" "js_bigint (keccak V e3) = Some k3" "wh_proofContextHash h = toBytes32 (k3 mod BN254_SCALAR_FIELD)"
    "num_eq (bw_chainId input) (jsint 4326) \<or> num_eq (bw_chainId input) (jsint 6343)" "isHexBytes32 shape"
    "isHexBytes32 (mp_root path)" "mp_root path \<noteq> ZERO_BYTES32" "isHexBytes32 nullifier" "nullifier \<noteq> ZERO_BYTES32"
    "isHexBytes32 oc" "oc \<noteq> ZERO_BYTES32" "isHexString encoded" "isEvmAddress (bw_pool input)"
    "isEvmAddress (bw_destination input)" "0 < g" "g < 2 ^ 256" "0 \<le> f" "f < 2 ^ 256" "0 \<le> g - f"
  using assms
  unfolding computeV12UnlinkableWithdrawHashes_def built_exit_def exit_target_def bind_context_def or_else_def
    sdk_hashEncryptedOutputNoteV2_def sdk_hashProofContextV1_def sdk_hashRelayerPolicyV1_def zero_policy_def Let_def
  by (simp add: res_simps) (elim conjE exE, auto intro: that)

lemma v12_words:
  assumes "computeV12UnlinkableWithdrawHashes V (built_exit input path shape nullifier g f) oc encoded = Inr h"
  shows "isHexBytes32 (wh_encryptedNoteHash h)" "to_lower (wh_encryptedNoteHash h) = wh_encryptedNoteHash h"
    "isHexBytes32 (wh_proofContextHash h)" "to_lower (wh_proofContextHash h) = wh_proofContextHash h"
  by (rule v12_hashesE [OF assms], simp)+

lemma check_indices_bits:
  assumes "check_indices leafIndex level bits = Inr u" "k < length bits"
  shows "num_int (bits ! k) = leafIndex div 2 ^ (level + k) mod 2"
  using assms
proof (induction bits arbitrary: level k)
  case (Cons i bits)
  then have "num_int i = leafIndex div 2 ^ level mod 2" "check_indices leafIndex (Suc level) bits = Inr u"
    by (auto split: if_splits)
  with Cons.IH [of "Suc level" "k - 1"] Cons.prems(2) show ?case
    by (cases k) simp_all
qed simp

lemma assertMerklePath_Inr:
  assumes "assertMerklePath path chainId pool commitment depth = Inr u"
  shows "isHexBytes32 (mp_root path)" "to_lower (mp_commitment path) = to_lower commitment"
    "int (length (mp_pathElements path)) = num_int depth" "length (mp_pathIndices path) = length (mp_pathElements path)"
    "\<exists>leaf. mp_leafIndex path = jsint leaf \<and> 0 \<le> leaf \<and> leaf < 2 ^ length (mp_pathElements path) \<and>
       (\<forall>k < length (mp_pathElements path). num_int (mp_pathIndices path ! k) = leaf div 2 ^ k mod 2)"
    "\<forall>e \<in> set (mp_pathElements path). isHexBytes32 e \<and> hex_value e < BN254_SCALAR_FIELD"
proof -
  have c: "to_lower (mp_commitment path) = to_lower commitment" "isHexBytes32 (mp_root path)"
    "is_safe_integer (mp_leafIndex path)" "\<not> num_less (mp_leafIndex path) (jsint 0)"
    "\<not> 2 ^ nat (num_int depth) \<le> num_int (mp_leafIndex path)"
    "int (length (mp_pathElements path)) = num_int depth" "int (length (mp_pathIndices path)) = num_int depth"
    "\<exists>us. map_res (\<lambda>e. assertZeroAllowedField e ''Merkle path element'') (mp_pathElements path) = Inr us"
    "check_indices (num_int (mp_leafIndex path)) 0 (mp_pathIndices path) = Inr u"
    using assms unfolding assertMerklePath_def by (auto simp: res_simps)
  from c(1,2,6) show "isHexBytes32 (mp_root path)" "to_lower (mp_commitment path) = to_lower commitment"
    "int (length (mp_pathElements path)) = num_int depth"
    by simp_all
  show len: "length (mp_pathIndices path) = length (mp_pathElements path)" using c(6,7) by simp
  have depth: "nat (num_int depth) = length (mp_pathElements path)" using c(6) by simp
  from c(3) obtain leaf where leaf: "mp_leafIndex path = jsint leaf" "num_int (mp_leafIndex path) = leaf"
    by (rule is_safe_integerE)
  have "0 \<le> leaf" using c(4) by (simp only: leaf(1) num_cmp_jsint not_less)
  show "\<exists>leaf. mp_leafIndex path = jsint leaf \<and> 0 \<le> leaf \<and> leaf < 2 ^ length (mp_pathElements path) \<and>
       (\<forall>k < length (mp_pathElements path). num_int (mp_pathIndices path ! k) = leaf div 2 ^ k mod 2)"
    using leaf \<open>0 \<le> leaf\<close> c(5) check_indices_bits [OF c(9)] unfolding depth len by (intro exI [of _ leaf]) auto
  show "\<forall>e \<in> set (mp_pathElements path). isHexBytes32 e \<and> hex_value e < BN254_SCALAR_FIELD"
    using c(8) by (auto simp: map_res_Inr_iff list_all2_conv_all_nth in_set_conv_nth res_simps)
qed

lemma spent_nullifier_Inr [res_simps]:
  "spent_nullifier poseidon input path = Inr n \<longleftrightarrow>
     (\<exists>c. deriveCommitmentFromSpendMaterial poseidon (bw_note input) = Inr c \<and>
       to_lower c = to_lower (sm_commitment (bw_note input))) \<and>
     deriveNullifier poseidon (sm_noteSecret (bw_note input)) (mp_leafIndex path) (bw_chainId input) (bw_pool input) = Inr n"
  by (auto simp: spent_nullifier_def Let_def res_simps)

lemma new_note_Inr:
  assumes "new_note input amount derive = Inr m"
  shows "sm_noteAmountWei m = dec_string amount" "derive (sm_ownerCommitment m) (sm_noteSecret m) = Inr (sm_commitment m)"
    "sm_pool m = sm_pool (bw_note input)" "sm_chainId m = sm_chainId (bw_note input)" "sm_assetId m = sm_assetId (bw_note input)"
  using assms by (auto simp: new_note_def res_simps)

text \<open>
  C11: A withdrawal witness conserves value and spends the note it was given. The note's amount is the
  withdrawn gross amount plus the amount of the new note, both in the witness; the fee is the
  gross amount times the basis points over 10000, rounded down, at most one percent; the new note is
  absent exactly when nothing is left; the note's commitment is the hash of its spend material, the
  nullifier the one of its secret at the path's leaf; and the path's direction bits are the bits of
  that leaf's index.
\<close>

theorem unlinkable_witness_sound:
  assumes "buildV12UnlinkableWithdrawalWitness V poseidon input path = Inr b"
  shows "\<exists>noteAmount grossAmount outputAmount bps leaf c.
    noteAmount = int (radix_val 10 (sm_noteAmountWei (bw_note input))) \<and> noteAmount = grossAmount + outputAmount \<and>
    0 < grossAmount \<and> 0 \<le> outputAmount \<and> noteAmount < 2 ^ 128 \<and>
    map_of (ww_witness b) ''oldAmount'' = Some (WText (dec_string noteAmount)) \<and>
    map_of (ww_witness b) ''grossAmount'' = Some (WText (dec_string grossAmount)) \<and>
    map_of (ww_witness b) ''outputAmount'' = Some (WText (dec_string outputAmount)) \<and>
    map_of (ww_witness b) ''fee'' = Some (WText (dec_string (grossAmount * bps div 10000))) \<and>
    or_else (bw_withdrawalFeeBps input) (jsint 33) = jsint bps \<and> 100 * (grossAmount * bps div 10000) \<le> grossAmount \<and>
    ww_netAmountWei b = dec_string (grossAmount - grossAmount * bps div 10000) \<and>
    (ww_newNote b = None \<longleftrightarrow> outputAmount = 0) \<and>
    (\<forall>n. ww_newNote b = Some n \<longrightarrow>
       sm_noteAmountWei n = dec_string outputAmount \<and> sm_commitment n = in_newCommitment (ww_intent b)) \<and>
    deriveCommitmentFromSpendMaterial poseidon (bw_note input) = Inr c \<and> to_lower c = to_lower (sm_commitment (bw_note input)) \<and>
    deriveNullifier poseidon (sm_noteSecret (bw_note input)) (jsint leaf) (bw_chainId input) (bw_pool input) =
      Inr (in_nullifier (ww_intent b)) \<and>
    mp_leafIndex path = jsint leaf \<and> map_of (ww_witness b) ''leafIndex'' = Some (WText (dec_string leaf)) \<and>
    (\<forall>k < length (mp_pathElements path). num_int (mp_pathIndices path ! k) = leaf div 2 ^ k mod 2)"
proof (rule built_v12E [OF assms], goal_cases)
  case (1 noteAmount grossAmount feeAmount bps out ct env hashes)
  note amounts = withdrawal_amounts_Inr [OF 1(1)]
  note out = new_note_Inr [OF 1(6) [unfolded createOutputNote_def]]
  from assertMerklePath_Inr(5) [OF amounts(2)] obtain leaf where leaf: "mp_leafIndex path = jsint leaf"
    "\<forall>k < length (mp_pathElements path). num_int (mp_pathIndices path ! k) = leaf div 2 ^ k mod 2"
    by blast
  from 1(10) obtain c where c: "deriveCommitmentFromSpendMaterial poseidon (bw_note input) = Inr c"
    "to_lower c = to_lower (sm_commitment (bw_note input))"
    "deriveNullifier poseidon (sm_noteSecret (bw_note input)) (jsint leaf) (bw_chainId input) (bw_pool input) = Inr (ww_nullifier b)"
    unfolding spent_nullifier_Inr leaf(1) by blast
  have entries: "map_of (ww_witness b) ''grossAmount'' = Some (WText (dec_string grossAmount))"
    "map_of (ww_witness b) ''fee'' = Some (WText (dec_string feeAmount))"
    using 1(16) by (simp_all add: NULLARK_WITHDRAW_PUBLIC_INPUT_ORDER_V1_2_def)
  have "100 * (grossAmount * bps div 10000) \<le> grossAmount"
  proof -
    have "grossAmount * bps \<le> grossAmount * 100" using amounts(7) 1(4) by (intro mult_left_mono) simp_all
    then show ?thesis by linarith
  qed
  moreover have "noteAmount < 2 ^ 128" "noteAmount = grossAmount + (noteAmount - grossAmount)" "0 \<le> noteAmount - grossAmount"
    using amounts(6,8) by (simp_all add: UINT128_MAX_def)
  moreover have "deriveNullifier poseidon (sm_noteSecret (bw_note input)) (jsint leaf) (bw_chainId input) (bw_pool input) =
      Inr (in_nullifier (ww_intent b))"
    "map_of (ww_witness b) ''leafIndex'' = Some (WText (dec_string leaf))"
    using 1(14,20) leaf(1) c(3) by simp_all
  moreover have "(ww_newNote b = None) = (noteAmount - grossAmount = 0)"
    "\<forall>n. ww_newNote b = Some n \<longrightarrow>
       sm_noteAmountWei n = dec_string (noteAmount - grossAmount) \<and> sm_commitment n = in_newCommitment (ww_intent b)"
    using out(1) 1(14) unfolding 1(7) by auto
  moreover note amounts(5,7) 1(2,17,18) 1(13) [unfolded 1(5)] leaf c(1,2) entries(1) entries(2) [unfolded 1(5)]
  ultimately show ?case
    apply -
    apply (rule exI [of _ noteAmount], rule exI [of _ grossAmount], rule exI [of _ "noteAmount - grossAmount"],
        rule exI [of _ bps], rule exI [of _ leaf], rule exI [of _ c])
    apply (intro conjI; assumption)
    done
qed

section \<open>Unreduced randomness\<close>

text \<open>The 32 random bytes as a word; deposits reduce it into the field, \<open>createRandomBytes32\<close> does not.\<close>

definition outside_field :: "nat list \<Rightarrow> bool" where
  "outside_field bytes \<longleftrightarrow> length bytes = 32 \<and> BN254_SCALAR_FIELD \<le> hex_value (''0x'' @ concat (map byte_text bytes))"

lemma unreduced_owner:
  assumes "createOutputNote poseidon input amount = Inr m" "outside_field (bw_random input 0)"
  shows "BN254_SCALAR_FIELD \<le> hex_value (sm_ownerCommitment m)"
  using assms by (auto simp: createOutputNote_def new_note_def createRandomBytes32_def outside_field_def res_simps)

lemma commitment_outside_field:
  assumes "BN254_SCALAR_FIELD \<le> hex_value (sm_ownerCommitment m)"
  shows "\<exists>e. deriveCommitmentFromSpendMaterial poseidon m = Inl e"
proof (cases "deriveCommitmentFromSpendMaterial poseidon m")
  case (Inr c)
  with assms show ?thesis
    by (auto simp: deriveCommitmentFromSpendMaterial_def deriveNoteCommitment_def fieldElement_def res_simps)
qed blast

lemma note_outside_field_refused:
  assumes "BN254_SCALAR_FIELD \<le> hex_value (sm_ownerCommitment (bw_note input))"
  shows "\<exists>e. buildWithdrawalWitness V poseidon input path = Inl e" "\<exists>e. buildV12UnlinkableWithdrawalWitness V poseidon input path = Inl e"
proof -
  have "\<exists>e. assertNoteForPool (bw_note input) c p = Inl e" for c p
  proof (cases "assertNoteForPool (bw_note input) c p")
    case (Inr u)
    with assms show ?thesis unfolding assertNoteForPool_def first_throw_Inr by (simp add: isBn254FieldElement_def)
  qed blast
  then obtain e where e: "assertNoteForPool (bw_note input) (bw_chainId input) (bw_pool input) = Inl e" by blast
  have "withdrawal_amounts input path l = Inl e" for l
    by (simp add: withdrawal_amounts_def e)
  then show "\<exists>e. buildWithdrawalWitness V poseidon input path = Inl e"
    "\<exists>e. buildV12UnlinkableWithdrawalWitness V poseidon input path = Inl e"
    by (simp_all add: buildWithdrawalWitness_def buildV12UnlinkableWithdrawalWitness_def)
qed

text \<open>
  C28: A withdrawal can strand the rest of its note. When the 32 random bytes drawn for the new note's
  owner commitment are not below the field modulus (four of five draws), version 1.1 refuses to build
  a withdrawal with change, while version 1.2 builds one whose new note nobody can use: no later
  withdrawal of either version can be built from that note, its commitment cannot be derived again,
  and a recovery whose next event decrypts to it fails as a whole.
\<close>

theorem unreduced_output_note_stranded:
  assumes "outside_field (bw_random input 0)"
  shows "(\<exists>e. createChangeNote poseidon input amount = Inl e) \<and>
    (\<forall>b n. buildV12UnlinkableWithdrawalWitness V poseidon input path = Inr b \<longrightarrow> ww_newNote b = Some n \<longrightarrow>
      (\<exists>e. deriveCommitmentFromSpendMaterial poseidon' n = Inl e) \<and>
      (\<forall>input' V' path'. bw_note input' = n \<longrightarrow>
        (\<exists>e. buildWithdrawalWitness V' poseidon' input' path' = Inl e) \<and>
        (\<exists>e. buildV12UnlinkableWithdrawalWitness V' poseidon' input' path' = Inl e)) \<and>
      (\<forall>C keys epochs chainId pool event events.
        tryDecryptEvent C keys epochs chainId pool event = Some n \<longrightarrow>
        num_eq (sm_chainId n) chainId \<and> to_lower (sm_pool n) = to_lower pool \<longrightarrow>
        (\<exists>e. recover_events C (deriveCommitmentFromSpendMaterial poseidon') keys epochs chainId pool (event # events) = Inl e)))"
proof (intro conjI allI impI)
  show "\<exists>e. createChangeNote poseidon input amount = Inl e"
  proof (cases "createChangeNote poseidon input amount")
    case (Inr m)
    with assms show ?thesis
      by (auto simp: createChangeNote_def new_note_def createRandomBytes32_def outside_field_def deriveNoteCommitment_def
          fieldElement_def res_simps)
  qed blast
next
  fix b n
  assume built: "buildV12UnlinkableWithdrawalWitness V poseidon input path = Inr b" "ww_newNote b = Some n"
  have owner: "BN254_SCALAR_FIELD \<le> hex_value (sm_ownerCommitment n)"
    by (rule built_v12E [OF built(1)]) (use built(2) unreduced_owner [OF _ assms] in \<open>auto split: if_splits\<close>)
  then show stranded: "\<exists>e. deriveCommitmentFromSpendMaterial poseidon' n = Inl e"
    by (rule commitment_outside_field)
  show "\<exists>e. buildWithdrawalWitness V' poseidon' input' path' = Inl e"
    "\<exists>e. buildV12UnlinkableWithdrawalWitness V' poseidon' input' path' = Inl e" if "bw_note input' = n" for input' V' path'
    using note_outside_field_refused [of input'] owner that by blast+
  show "\<exists>e. recover_events C (deriveCommitmentFromSpendMaterial poseidon') keys epochs chainId pool (event # events) = Inl e"
    if "tryDecryptEvent C keys epochs chainId pool event = Some n"
      "num_eq (sm_chainId n) chainId \<and> to_lower (sm_pool n) = to_lower pool" for C keys epochs chainId pool event events
    using stranded that by auto
qed

end
