(* ===== verification/Sdk_Prove.thy ===== *)
theory Sdk_Prove
  imports Sdk_Witness
begin

text \<open>
  Proving a withdrawal: \<^verbatim>\<open>packages/sdk/src/proving/withdrawProof.ts\<close>. The prover is run on a witness
  behind two gates (trusted artifacts, the fee), its public signals are checked against the intended
  withdrawal, and its proof is laid out as bytes in every order of the coordinates a verifier may want.

  The prover (snarkjs) is the function \<open>prove\<close> of the witness and the two artifact paths. Values of type
  \<open>unknown\<close> are of type \<open>snark\<close>; the error of a throw is its message.
\<close>

section \<open>Scalars\<close>

datatype snark = SnBigint int | SnNumber jsnum | SnText string | SnArray "snark list" | SnOther

definition snark_text :: "string \<Rightarrow> bool" where
  "snark_text t \<longleftrightarrow>
     (starts_with ''0x'' t \<and> 1 \<le> length (drop 2 t) \<and> length (drop 2 t) \<le> 64 \<and> list_all is_hex_char (drop 2 t)) \<or>
     (t \<noteq> [] \<and> list_all is_digit t)"

definition snark_text_value :: "string \<Rightarrow> int" where
  "snark_text_value t = (if starts_with ''0x'' t then hex_value t else int (radix_val 10 t))"

definition toSnarkBigInt :: "snark \<Rightarrow> string + int" where
  "toSnarkBigInt v =
     bind_res (case v of
         SnBigint i \<Rightarrow> Inr i
       | SnNumber n \<Rightarrow> if is_safe_integer n then Inr (num_int n) else Inl ''Malformed Groth16 scalar.''
       | SnText t \<Rightarrow> if snark_text t then Inr (snark_text_value t) else Inl ''Malformed Groth16 scalar.''
       | _ \<Rightarrow> Inl ''Malformed Groth16 scalar.'') (\<lambda>parsed.
       if parsed < 0 \<or> parsed \<ge> 2 ^ 256 then Inl ''Malformed Groth16 scalar.'' else Inr parsed)"

definition snark_toBytes32 :: "snark \<Rightarrow> string + string" where
  "snark_toBytes32 v = bind_res (toSnarkBigInt v) (\<lambda>i. Inr (toBytes32 i))"

definition snark_addressToBytes32 :: "string \<Rightarrow> string + string" where
  "snark_addressToBytes32 a =
     (if \<not> isEvmAddress a then Inl ''Malformed Ethereum address.''
      else Inr (''0x'' @ pad_start 64 (CHR ''0'') (to_lower (drop 2 a))))"

definition assertBytes32Equal :: "string \<Rightarrow> string \<Rightarrow> string \<Rightarrow> string + unit" where
  "assertBytes32Equal actual expected msg =
     (if \<not> isHexBytes32 expected \<or> to_lower actual \<noteq> to_lower expected then Inl msg else Inr ())"

section \<open>The fee of a witness\<close>

definition snark_of_witness :: "witness_value \<Rightarrow> snark" where
  "snark_of_witness v = (case v of WText t \<Rightarrow> SnText t | WList ts \<Rightarrow> SnArray (map SnText ts))"

definition fee_formula_message :: "int \<Rightarrow> string" where
  "fee_formula_message bps =
     ''Withdrawal witness fee must equal floor(grossAmount * '' @ dec_string bps @ '' / 10000).''"

definition assertWithdrawWitnessFee :: "(string \<times> witness_value) list \<Rightarrow> jsnum option \<Rightarrow> string + unit" where
  "assertWithdrawWitnessFee witness expectedFeeBps =
     (case (map_of witness ''grossAmount'', map_of witness ''fee'') of
        (Some g, Some f) \<Rightarrow>
          bind_res (toSnarkBigInt (snark_of_witness g)) (\<lambda>grossAmount.
          bind_res (toSnarkBigInt (snark_of_witness f)) (\<lambda>feeAmount.
            case expectedFeeBps of
              None \<Rightarrow> Inl ''Withdrawal witness expected fee bps must be provided by the active runtime.''
            | Some bps \<Rightarrow>
                if \<not> is_safe_integer bps \<or> num_less bps (jsint 0)
                then Inl ''Withdrawal witness expected fee bps must be a nonnegative safe integer.''
                else if feeAmount \<noteq> grossAmount * num_int bps div 10000 then Inl (fee_formula_message (num_int bps))
                else Inr ()))
      | _ \<Rightarrow> Inr ())"

section \<open>Public inputs\<close>

fun join_names :: "string list \<Rightarrow> string" where
  "join_names [] = []"
| "join_names [n] = n"
| "join_names (n # ns) = n @ '', '' @ join_names ns"

definition proved_bytes32 :: "string \<Rightarrow> string list \<Rightarrow> string + string list" where
  "proved_bytes32 msg = map_res (\<lambda>v. if \<not> isHexBytes32 v then Inl msg else Inr v)"

definition proved_assertV12UnlinkableWithdrawPublicInputs :: "string list \<Rightarrow> string + string list" where
  "proved_assertV12UnlinkableWithdrawPublicInputs inputs =
     (if length inputs \<noteq> length NULLARK_WITHDRAW_PUBLIC_INPUT_ORDER_V1_2
      then Inl (''v1.2 unlinkable withdraw proof must contain exactly '' @
        dec_string (int (length NULLARK_WITHDRAW_PUBLIC_INPUT_ORDER_V1_2)) @ '' public inputs in order: '' @
        join_names NULLARK_WITHDRAW_PUBLIC_INPUT_ORDER_V1_2 @
        ''. Legacy 12-input prover output is forbidden because it exposes spentCommitment and noteAmount.'')
      else proved_bytes32 ''v1.2 unlinkable withdraw proof public inputs must be bytes32.'' inputs)"

definition assertWithdrawPublicInputs :: "string list \<Rightarrow> string + string list" where
  "assertWithdrawPublicInputs inputs =
     (if length inputs \<noteq> 12 then Inl ''Withdraw proof must contain 12 public inputs.''
      else proved_bytes32 ''Withdraw proof public inputs must be bytes32.'' inputs)"

definition resolveWithdrawProofPublicInputSchema :: "string option \<Rightarrow> bool \<Rightarrow> string + string" where
  "resolveWithdrawProofPublicInputSchema requestedSchema hasV12UnlinkableIntent =
     (let schema = or_else requestedSchema (if hasV12UnlinkableIntent then ''v1.2-unlinkable'' else ''v1.1'') in
      if schema \<noteq> ''v1.1'' \<and> schema \<noteq> ''v1.2-unlinkable''
      then Inl ''Withdrawal proof public input schema must be v1.1 or v1.2-unlinkable.''
      else Inr schema)"

section \<open>The intended withdrawal\<close>

definition intent_chain :: "jsnum \<Rightarrow> string \<Rightarrow> string + unit" where
  "intent_chain chainId msg =
     (if \<not> num_eq chainId (jsint 4326) \<and> \<not> num_eq chainId (jsint 6343) then Inl msg else Inr ())"

definition validateWithdrawProofIntent :: "string list \<Rightarrow> proof_intent_v11 \<Rightarrow> string + unit" where
  "validateWithdrawProofIntent inputs intent =
     bind_res (assertWithdrawPublicInputs inputs) (\<lambda>s.
     bind_res (intent_chain (in_chainId intent) ''Withdrawal proof intent must target MegaETH mainnet or testnet.'') (\<lambda>_.
     bind_res (assertBytes32Equal (s ! 0) (in_root intent) ''Withdrawal proof root does not match the intended root.'') (\<lambda>_.
     bind_res (assertBytes32Equal (s ! 1) (in_nullifier intent)
       ''Withdrawal proof nullifier does not match the intended note.'') (\<lambda>_.
     bind_res (assertBytes32Equal (s ! 2) (in_newCommitment intent)
       ''Withdrawal proof change commitment does not match the intended change note.'') (\<lambda>_.
     bind_res (snark_addressToBytes32 (in_destination intent)) (\<lambda>dest.
     bind_res (assertBytes32Equal (s ! 3) dest ''Withdrawal proof destination does not match the intended recipient.'') (\<lambda>_.
     bind_res (snark_toBytes32 (SnText (in_grossAmountWei intent))) (\<lambda>g.
     bind_res (assertBytes32Equal (s ! 4) g ''Withdrawal proof gross amount does not match the intended withdrawal.'') (\<lambda>_.
     bind_res (snark_toBytes32 (SnText (in_feeWei intent))) (\<lambda>f.
     bind_res (assertBytes32Equal (s ! 5) f ''Withdrawal proof fee does not match the intended withdrawal.'') (\<lambda>_.
     bind_res (snark_toBytes32 (SnNumber (in_chainId intent))) (\<lambda>c.
     bind_res (assertBytes32Equal (s ! 6) c ''Withdrawal proof is not bound to the active MegaETH chain.'') (\<lambda>_.
     bind_res (snark_addressToBytes32 (in_pool intent)) (\<lambda>p.
     bind_res (assertBytes32Equal (s ! 7) p ''Withdrawal proof is not bound to the intended pool.'') (\<lambda>_.
     bind_res (assertBytes32Equal (s ! 8) (in_spentCommitment intent)
       ''Withdrawal proof spent commitment does not match the intended note.'') (\<lambda>_.
     bind_res (snark_toBytes32 (SnText (in_noteAmountWei intent))) (\<lambda>n.
     bind_res (assertBytes32Equal (s ! 9) n ''Withdrawal proof note amount does not match the intended note.'') (\<lambda>_.
     bind_res (assertBytes32Equal (s ! 10) (in_proofContextHash intent)
       ''Withdrawal proof context hash does not match the intended withdrawal.'') (\<lambda>_.
       assertBytes32Equal (s ! 11) (in_noteHash intent)
         ''Withdrawal proof encrypted note hash does not match the intended withdrawal.'')))))))))))))))))))"

definition validateV12UnlinkableWithdrawProofIntent :: "string list \<Rightarrow> proof_intent \<Rightarrow> string + unit" where
  "validateV12UnlinkableWithdrawProofIntent inputs intent =
     bind_res (proved_assertV12UnlinkableWithdrawPublicInputs inputs) (\<lambda>s.
     bind_res (intent_chain (in_chainId intent)
       ''v1.2 unlinkable withdrawal proof intent must target MegaETH mainnet or testnet.'') (\<lambda>_.
     bind_res (assertBytes32Equal (s ! 0) (in_root intent)
       ''v1.2 unlinkable withdrawal proof root does not match the intended root.'') (\<lambda>_.
     bind_res (assertBytes32Equal (s ! 1) (in_nullifier intent)
       ''v1.2 unlinkable withdrawal proof nullifier does not match the intended note.'') (\<lambda>_.
     bind_res (assertBytes32Equal (s ! 2) (in_newCommitment intent)
       ''v1.2 unlinkable withdrawal proof output commitment does not match the intended output note.'') (\<lambda>_.
     bind_res (snark_addressToBytes32 (in_destination intent)) (\<lambda>dest.
     bind_res (assertBytes32Equal (s ! 3) dest
       ''v1.2 unlinkable withdrawal proof destination does not match the intended recipient.'') (\<lambda>_.
     bind_res (snark_toBytes32 (SnText (in_grossAmountWei intent))) (\<lambda>g.
     bind_res (assertBytes32Equal (s ! 4) g
       ''v1.2 unlinkable withdrawal proof gross amount does not match the intended withdrawal.'') (\<lambda>_.
     bind_res (snark_toBytes32 (SnText (in_feeWei intent))) (\<lambda>f.
     bind_res (assertBytes32Equal (s ! 5) f
       ''v1.2 unlinkable withdrawal proof fee does not match the intended withdrawal.'') (\<lambda>_.
     bind_res (snark_toBytes32 (SnNumber (in_chainId intent))) (\<lambda>c.
     bind_res (assertBytes32Equal (s ! 6) c
       ''v1.2 unlinkable withdrawal proof is not bound to the active MegaETH chain.'') (\<lambda>_.
     bind_res (snark_addressToBytes32 (in_pool intent)) (\<lambda>p.
     bind_res (assertBytes32Equal (s ! 7) p
       ''v1.2 unlinkable withdrawal proof is not bound to the intended verifier contract.'') (\<lambda>_.
     bind_res (assertBytes32Equal (s ! 8) (in_proofContextHash intent)
       ''v1.2 unlinkable withdrawal proof context hash does not match the intended withdrawal.'') (\<lambda>_.
       assertBytes32Equal (s ! 9) (in_noteHash intent)
         ''v1.2 unlinkable withdrawal proof encrypted output note hash does not match the intended withdrawal.''))))))))))))))))"

section \<open>Proof bytes\<close>

record groth16_proof =
  pi_a :: snark
  pi_b :: snark
  pi_c :: snark

definition MALFORMED_PROOF :: string where
  "MALFORMED_PROOF = ''Malformed Groth16 proof calldata.''"

definition parseUint256Tuple :: "snark \<Rightarrow> nat \<Rightarrow> string + int list" where
  "parseUint256Tuple v n =
     (case v of SnArray vs \<Rightarrow> if length vs \<noteq> n then Inl MALFORMED_PROOF else map_res toSnarkBigInt vs
      | _ \<Rightarrow> Inl MALFORMED_PROOF)"

definition parseUint256Matrix3x2 :: "snark \<Rightarrow> string + int list list" where
  "parseUint256Matrix3x2 v =
     (case v of SnArray vs \<Rightarrow> if length vs \<noteq> 3 then Inl MALFORMED_PROOF else map_res (\<lambda>row. parseUint256Tuple row 2) vs
      | _ \<Rightarrow> Inl MALFORMED_PROOF)"

definition encodeGroth16ProofChunks :: "int list \<Rightarrow> string" where
  "encodeGroth16ProofChunks chunks = ''0x'' @ concat (map (\<lambda>v. pad_start 64 (CHR ''0'') (hex_string v)) chunks)"

definition b_variants :: "int list list \<Rightarrow> int list list" where
  "b_variants m =
     [[m ! 0 ! 1, m ! 0 ! 0, m ! 1 ! 1, m ! 1 ! 0], [m ! 0 ! 0, m ! 0 ! 1, m ! 1 ! 0, m ! 1 ! 1],
      [m ! 0 ! 0, m ! 1 ! 0, m ! 0 ! 1, m ! 1 ! 1], [m ! 1 ! 0, m ! 0 ! 0, m ! 1 ! 1, m ! 0 ! 1],
      [m ! 0 ! 1, m ! 1 ! 1, m ! 0 ! 0, m ! 1 ! 0], [m ! 1 ! 1, m ! 0 ! 1, m ! 1 ! 0, m ! 0 ! 0]]"

definition proofObjectToCandidateBytes :: "groth16_proof \<Rightarrow> string + string list" where
  "proofObjectToCandidateBytes p =
     bind_res (parseUint256Tuple (pi_a p) 3) (\<lambda>a.
     bind_res (parseUint256Matrix3x2 (pi_b p)) (\<lambda>matrixB.
     bind_res (parseUint256Tuple (pi_c p) 3) (\<lambda>c.
       Inr (js_unique (map (\<lambda>b. encodeGroth16ProofChunks (take 2 a @ b @ take 2 c)) (b_variants matrixB))))))"

definition proofObjectToBytes :: "groth16_proof \<Rightarrow> string + string" where
  "proofObjectToBytes p =
     bind_res (proofObjectToCandidateBytes p) (\<lambda>candidates.
       case candidates of c # cs \<Rightarrow> if c = [] then Inl MALFORMED_PROOF else Inr c | [] \<Rightarrow> Inl MALFORMED_PROOF)"

section \<open>Generating a proof\<close>

datatype artifact_binding = TrustedArtifacts | UntrustedArtifacts string

record prover_artifacts =
  pa_withdrawWasm :: string
  pa_withdrawFinalZkey :: string

type_synonym prover = "(string \<times> witness_value) list \<Rightarrow> string \<Rightarrow> string \<Rightarrow> string + groth16_proof \<times> string list"

record withdrawal_proof =
  wr_proof :: string
  wr_proofCandidates :: "string list"
  wr_publicInputs :: "string list"

definition check_v11_intent :: "string \<Rightarrow> string list \<Rightarrow> proof_intent_v11 option \<Rightarrow> string + unit" where
  "check_v11_intent schema inputs intent =
     (case intent of
        None \<Rightarrow> Inr ()
      | Some i \<Rightarrow> if schema \<noteq> ''v1.1'' then Inl ''v1.1 withdrawal proof intent cannot validate v1.2 unlinkable public inputs.''
                  else validateWithdrawProofIntent inputs i)"

definition check_v12_intent :: "string \<Rightarrow> string list \<Rightarrow> proof_intent option \<Rightarrow> string + unit" where
  "check_v12_intent schema inputs intent =
     (case intent of
        None \<Rightarrow> Inr ()
      | Some i \<Rightarrow> if schema \<noteq> ''v1.2-unlinkable''
                  then Inl ''v1.2 unlinkable withdrawal proof intent requires v1.2 unlinkable public inputs.''
                  else validateV12UnlinkableWithdrawProofIntent inputs i)"

definition generateWithdrawalGroth16Proof ::
  "prover \<Rightarrow> prover_artifacts \<Rightarrow> artifact_binding \<Rightarrow> (string \<times> witness_value) list \<Rightarrow> proof_intent_v11 option
     \<Rightarrow> proof_intent option \<Rightarrow> string option \<Rightarrow> jsnum option \<Rightarrow> string + withdrawal_proof" where
  "generateWithdrawalGroth16Proof prove artifacts binding witness intent v12Intent requestedSchema expectedFeeBps =
     (case binding of
        UntrustedArtifacts reason \<Rightarrow>
          Inl (''Trusted prover gate blocked withdrawal proof generation: '' @ reason @ ''.'')
      | TrustedArtifacts \<Rightarrow>
          bind_res (assertWithdrawWitnessFee witness expectedFeeBps) (\<lambda>_.
          bind_res (prove witness (pa_withdrawWasm artifacts) (pa_withdrawFinalZkey artifacts)) (\<lambda>(generated, publicSignals).
          bind_res (resolveWithdrawProofPublicInputSchema requestedSchema (v12Intent \<noteq> None)) (\<lambda>schema.
          bind_res (map_res (\<lambda>s. snark_toBytes32 (SnText s)) publicSignals) (\<lambda>words.
          bind_res (if schema = ''v1.2-unlinkable'' then proved_assertV12UnlinkableWithdrawPublicInputs words
                    else assertWithdrawPublicInputs words) (\<lambda>inputs.
          bind_res (check_v11_intent schema inputs intent) (\<lambda>_.
          bind_res (check_v12_intent schema inputs v12Intent) (\<lambda>_.
          bind_res (proofObjectToCandidateBytes generated) (\<lambda>proofCandidates.
          bind_res (case proofCandidates of c # cs \<Rightarrow> Inr c | [] \<Rightarrow> proofObjectToBytes generated) (\<lambda>proof_bytes.
            Inr \<lparr>wr_proof = proof_bytes, wr_proofCandidates = proofCandidates, wr_publicInputs = inputs\<rparr>))))))))))"

section \<open>What a check has passed\<close>

lemma snark_text_dec:
  assumes "0 \<le> n"
  shows "snark_text (dec_string n)" "snark_text_value (dec_string n) = n"
proof -
  have d: "dec_string n = radix_string 10 (nat n)" using assms by (simp add: dec_string_def)
  have digits: "list_all is_digit (dec_string n)" "dec_string n \<noteq> []" by (simp_all add: d)
  then show "snark_text (dec_string n)" by (simp add: snark_text_def)
  have "\<not> starts_with ''0x'' (dec_string n)"
  proof
    assume "starts_with ''0x'' (dec_string n)"
    then have "take 2 (dec_string n) = ''0x''" by (simp add: starts_with_def numeral_2_eq_2)
    then have "CHR ''x'' \<in> set (take 2 (dec_string n))" by simp
    then have "is_digit (CHR ''x'')" using digits(1) by (auto simp: list_all_iff dest: in_set_takeD)
    then show False by (simp add: is_digit_def code_def)
  qed
  then show "snark_text_value (dec_string n) = n" using assms by (simp add: snark_text_value_def d)
qed

lemma dec_string_eq_iff: "0 \<le> m \<Longrightarrow> 0 \<le> n \<Longrightarrow> dec_string m = dec_string n \<longleftrightarrow> m = n"
  using snark_text_dec(2) by metis

lemma snark_toBytes32_dec [simp]:
  "0 \<le> n \<Longrightarrow> n < 2 ^ 256 \<Longrightarrow> snark_toBytes32 (SnText (dec_string n)) = Inr (toBytes32 n)"
  by (simp add: snark_toBytes32_def toSnarkBigInt_def snark_text_dec)

lemma snark_toBytes32_chain [simp]:
  assumes "c \<in> {4326, 6343}"
  shows "snark_toBytes32 (SnNumber (jsint c)) = Inr (toBytes32 c)"
proof -
  have "0 \<le> c" "c \<le> 6343" using assms by auto
  then show ?thesis
    by (simp add: snark_toBytes32_def toSnarkBigInt_def is_safe_integer_jsint MAX_SAFE_INTEGER_def)
qed

lemma snark_addressToBytes32_Inr [res_simps]:
  "snark_addressToBytes32 a = Inr w \<longleftrightarrow> isEvmAddress a \<and> w = address_word a"
  using sdk_addressToBytes32_Inr [of a w] by (auto simp: snark_addressToBytes32_def sdk_addressToBytes32_def w_asserts_Inr res_simps)

lemma assertBytes32Equal_Inr [res_simps]:
  "assertBytes32Equal a e msg = Inr u \<longleftrightarrow> isHexBytes32 e \<and> to_lower a = to_lower e"
  by (auto simp: assertBytes32Equal_def)

lemma intent_chain_Inr [res_simps]:
  "intent_chain c msg = Inr u \<longleftrightarrow> num_eq c (jsint 4326) \<or> num_eq c (jsint 6343)"
  by (auto simp: intent_chain_def)

lemma proved_bytes32_Inr [res_simps]: "proved_bytes32 msg xs = Inr ys \<longleftrightarrow> list_all isHexBytes32 xs \<and> ys = xs"
  unfolding proved_bytes32_def by (induction xs arbitrary: ys) (auto simp: res_simps)

lemma proved_inputs_Inr [res_simps]:
  "proved_assertV12UnlinkableWithdrawPublicInputs xs = Inr ys \<longleftrightarrow> length xs = 10 \<and> list_all isHexBytes32 xs \<and> ys = xs"
  "assertWithdrawPublicInputs xs = Inr ys \<longleftrightarrow> length xs = 12 \<and> list_all isHexBytes32 xs \<and> ys = xs"
  by (auto simp: proved_assertV12UnlinkableWithdrawPublicInputs_def assertWithdrawPublicInputs_def res_simps
      NULLARK_WITHDRAW_PUBLIC_INPUT_ORDER_V1_2_def)

lemma chain_cases: "num_eq c (jsint 4326) \<or> num_eq c (jsint 6343) \<longleftrightarrow> (\<exists>k \<in> {4326, 6343}. c = jsint k)"
  by (auto simp: num_eq_def)

lemma own_proof_check:
  assumes "buildV12UnlinkableWithdrawalWitness V poseidon input path = Inr b"
  shows "validateV12UnlinkableWithdrawProofIntent inputs (ww_intent b) = Inr () \<longleftrightarrow>
    list_all isHexBytes32 inputs \<and> map to_lower inputs = map to_lower (ww_publicInputs b)"
proof (rule built_v12E [OF assms], goal_cases)
  case (1 noteAmount grossAmount feeAmount bps out ct env hashes)
  from v12_hashesE [OF 1(11)] have h:
    "\<exists>k \<in> {4326, 6343}. bw_chainId input = jsint k" "isHexBytes32 (mp_root path)" "isHexBytes32 (ww_nullifier b)"
    "isHexBytes32 (sm_commitment out)" "isEvmAddress (bw_destination input)" "isEvmAddress (bw_pool input)"
    "0 < grossAmount" "grossAmount < 2 ^ 256" "0 \<le> feeAmount" "feeAmount < 2 ^ 256"
    unfolding chain_cases by metis+
  note words = v12_words [OF 1(11)]
  from h(1) obtain k where k: "k \<in> {4326, 6343}" "bw_chainId input = jsint k" by blast
  have kw: "isHexBytes32 (toBytes32 k)" "0 \<le> k" "num_eq (jsint k) (jsint 4326) \<or> num_eq (jsint k) (jsint 6343)"
    using k(1) unfolding num_cmp_jsint by (auto intro: toBytes32_shape)
  have amounts: "isHexBytes32 (toBytes32 grossAmount)" "isHexBytes32 (toBytes32 feeAmount)"
    using h by (simp_all add: toBytes32_shape)
  have lengths: "length inputs = 10" if "map to_lower inputs = map to_lower (ww_publicInputs b)"
    using arg_cong [OF that, of length] by (simp add: 1(15))
  have "validateV12UnlinkableWithdrawProofIntent inputs (ww_intent b) = Inr () \<longleftrightarrow>
      length inputs = 10 \<and> list_all isHexBytes32 inputs \<and>
      (\<forall>j < 10. to_lower (inputs ! j) = to_lower (ww_publicInputs b ! j))"
    using h(2-10) words kw amounts k(1)
    by (simp add: validateV12UnlinkableWithdrawProofIntent_def res_simps 1(14,15) k(2) address_word_shape All_less_Suc numeral_eq_Suc
        del: of_int_numeral) blast
  also have "\<dots> \<longleftrightarrow> list_all isHexBytes32 inputs \<and> map to_lower inputs = map to_lower (ww_publicInputs b)"
  proof -
    have "length (ww_publicInputs b) = 10" by (simp add: 1(15))
    then show ?thesis
      using lengths list_eq_iff_nth_eq [of "map to_lower inputs" "map to_lower (ww_publicInputs b)"] by auto
  qed
  finally show ?case .
qed

text \<open>
  C12: The prover's output is accepted exactly when it is the proof of this withdrawal. For the witness
  and intent the SDK builds, the check of a proof's public signals passes if and only if, up to the
  case of hex digits, they are the ten public inputs the witness was built with: root, nullifier,
  output commitment, destination, gross amount, fee, chain, pool and the two hashes.
\<close>

theorem own_proof_recognised:
  assumes "buildV12UnlinkableWithdrawalWitness V poseidon input path = Inr b"
  shows "validateV12UnlinkableWithdrawProofIntent inputs (ww_intent b) = Inr () \<longleftrightarrow>
    list_all isHexBytes32 inputs \<and> map to_lower inputs = map to_lower (ww_publicInputs b)"
  using own_proof_check [OF assms] .

text \<open>An honest prover's public signals are the witness's public values, in the circuit's order.\<close>

definition honest_signals :: "(string \<times> witness_value) list \<Rightarrow> string list \<Rightarrow> bool" where
  "honest_signals witness signals \<longleftrightarrow>
     map (map_of witness) NULLARK_WITHDRAW_PUBLIC_INPUT_ORDER_V1_2 = map (\<lambda>s. Some (WText s)) signals"

lemma snark_toBytes32_decimal:
  assumes "isHexBytes32 v"
  shows "snark_toBytes32 (SnText (decimal v)) = Inr (to_lower v)"
proof -
  have "0 \<le> hex_value v" "hex_value v < 2 ^ 256" "toBytes32 (hex_value v) = to_lower v"
    using assms hex_value_bytes32_bound [OF assms] toBytes32_hex_value [OF assms] by simp_all
  then show ?thesis by (simp add: decimal_def)
qed

lemma snark_toBytes32_address:
  assumes "isEvmAddress a"
  shows "snark_toBytes32 (SnText (decimal a)) = Inr (address_word a)"
proof -
  have "list_all is_hex_char (drop 2 a)"
    using assms by (auto simp: isEvmAddress_def elim: hex_of_lengthE)
  then have "decimal a = decimal (address_word a)"
    by (simp add: decimal_def hex_value_def address_word_def flip: to_lower_drop)
  then show ?thesis
    using snark_toBytes32_decimal [OF address_word_shape(1) [OF assms]] address_word_shape(2) [OF assms] by simp
qed

lemma candidates_nonempty: "proofObjectToCandidateBytes p = Inr cs \<Longrightarrow> cs \<noteq> []"
  by (auto simp: proofObjectToCandidateBytes_def res_simps b_variants_def simp flip: set_empty)

lemma fee_checked:
  assumes "map_of witness ''grossAmount'' = Some (WText (dec_string g))" "map_of witness ''fee'' = Some (WText (dec_string f))"
    "0 \<le> g" "g < 2 ^ 256" "0 \<le> f" "f < 2 ^ 256" "is_safe_integer (jsint e)"
  shows "assertWithdrawWitnessFee witness (Some (jsint e)) = Inr u \<longleftrightarrow> 0 \<le> e \<and> f = g * e div 10000"
  using assms
  by (auto simp: assertWithdrawWitnessFee_def snark_of_witness_def toSnarkBigInt_def snark_text_dec not_less
      simp del: of_int_numeral)

text \<open>
  C13: Proving is exact. Behind the gates, on the SDK's witness and intent and with an honest prover, a proof
  is generated if and only if the artifacts are trusted, the witness pays exactly the fee of the
  expected basis points and the prover's proof object is well formed; the result carries the
  witness's own public inputs in lower case, every layout of the proof and the first of them as
  the proof.
\<close>

theorem proof_generation_exact:
  assumes "buildV12UnlinkableWithdrawalWitness V poseidon input path = Inr b"
    "prove (ww_witness b) (pa_withdrawWasm artifacts) (pa_withdrawFinalZkey artifacts) = Inr (pf, signals)"
    "honest_signals (ww_witness b) signals" "is_safe_integer (jsint e)"
  shows "generateWithdrawalGroth16Proof prove artifacts binding (ww_witness b) None (Some (ww_intent b)) None (Some (jsint e))
      = Inr r \<longleftrightarrow>
    binding = TrustedArtifacts \<and> 0 \<le> e \<and>
    (\<exists>g. map_of (ww_witness b) ''grossAmount'' = Some (WText (dec_string g)) \<and> 0 < g \<and>
      map_of (ww_witness b) ''fee'' = Some (WText (dec_string (g * e div 10000)))) \<and>
    (\<exists>cs. proofObjectToCandidateBytes pf = Inr cs \<and>
      r = \<lparr>wr_proof = hd cs, wr_proofCandidates = cs, wr_publicInputs = map to_lower (ww_publicInputs b)\<rparr>)"
proof (rule built_v12E [OF assms(1)], goal_cases)
  case (1 noteAmount grossAmount feeAmount bps out ct env hashes)
  from v12_hashesE [OF 1(11)] have h:
    "\<exists>k \<in> {4326, 6343}. bw_chainId input = jsint k" "isHexBytes32 (mp_root path)" "isHexBytes32 (ww_nullifier b)"
    "isHexBytes32 (sm_commitment out)" "isEvmAddress (bw_destination input)" "isEvmAddress (bw_pool input)"
    "0 < grossAmount" "grossAmount < 2 ^ 256" "0 \<le> feeAmount" "feeAmount < 2 ^ 256"
    unfolding chain_cases by metis+
  note words = v12_words [OF 1(11)]
  from h(1) obtain k where k: "bw_chainId input = jsint k" "0 \<le> k" "k < 2 ^ 256" by auto
  have signals: "signals = [decimal (mp_root path), decimal (ww_nullifier b), decimal (sm_commitment out),
        decimal (bw_destination input), dec_string grossAmount, dec_string feeAmount,
        dec_string (num_int (bw_chainId input)), decimal (bw_pool input),
        decimal (wh_proofContextHash hashes), decimal (wh_encryptedNoteHash hashes)]" (is "_ = ?ds")
  proof -
    have "map (\<lambda>s. Some (WText s)) signals = map (\<lambda>s. Some (WText s)) ?ds"
      using assms(3) unfolding honest_signals_def 1(16) by (rule sym)
    then show ?thesis by (rule inj_map_eq_map [THEN iffD1, rotated]) (auto intro: injI)
  qed
  have inputs: "map_res (\<lambda>s. snark_toBytes32 (SnText s)) signals = Inr (map to_lower (ww_publicInputs b))"
    using h(2-10) k words
    by (simp add: signals 1(15) snark_toBytes32_decimal snark_toBytes32_address address_word_shape)
  have "list_all isHexBytes32 (ww_publicInputs b)"
    using h(2-10) k words by (simp add: 1(15) address_word_shape toBytes32_shape)
  then have recognised: "validateV12UnlinkableWithdrawProofIntent (map to_lower (ww_publicInputs b)) (ww_intent b) = Inr ()"
    "length (ww_publicInputs b) = 10" "list_all isHexBytes32 (map to_lower (ww_publicInputs b))"
    using own_proof_check [OF assms(1), of "map to_lower (ww_publicInputs b)"]
    by (simp_all add: list_all_iff comp_def) (simp add: 1(15))
  have entries: "map_of (ww_witness b) ''grossAmount'' = Some (WText (dec_string grossAmount))"
    "map_of (ww_witness b) ''fee'' = Some (WText (dec_string feeAmount))"
    using 1(16) by (simp_all add: NULLARK_WITHDRAW_PUBLIC_INPUT_ORDER_V1_2_def)
  have fees: "assertWithdrawWitnessFee (ww_witness b) (Some (jsint e)) = Inr u \<longleftrightarrow> 0 \<le> e \<and> feeAmount = grossAmount * e div 10000" for u
    using fee_checked [OF entries] h(7-10) assms(4) by simp
  have accepted: "proved_assertV12UnlinkableWithdrawPublicInputs (map to_lower (ww_publicInputs b)) = Inr (map to_lower (ww_publicInputs b))"
    unfolding proved_inputs_Inr using recognised by simp
  have gen: "generateWithdrawalGroth16Proof prove artifacts TrustedArtifacts (ww_witness b) None (Some (ww_intent b)) None (Some (jsint e))
      = bind_res (assertWithdrawWitnessFee (ww_witness b) (Some (jsint e))) (\<lambda>_.
        bind_res (proofObjectToCandidateBytes pf) (\<lambda>cs.
        bind_res (case cs of c # ds \<Rightarrow> Inr c | [] \<Rightarrow> proofObjectToBytes pf) (\<lambda>proof_bytes.
          Inr \<lparr>wr_proof = proof_bytes, wr_proofCandidates = cs, wr_publicInputs = map to_lower (ww_publicInputs b)\<rparr>)))"
    using recognised(1) accepted
    by (simp add: generateWithdrawalGroth16Proof_def assms(2) resolveWithdrawProofPublicInputSchema_def or_else_def inputs
        check_v11_intent_def check_v12_intent_def)
  have paid: "0 \<le> e \<and> feeAmount = grossAmount * e div 10000 \<longleftrightarrow> 0 \<le> e \<and>
    (\<exists>g. map_of (ww_witness b) ''grossAmount'' = Some (WText (dec_string g)) \<and> 0 < g \<and>
      map_of (ww_witness b) ''fee'' = Some (WText (dec_string (g * e div 10000))))"
  proof -
    have "dec_string grossAmount = dec_string g \<longleftrightarrow> grossAmount = g" if "0 < g" for g
      using h(7) that by (simp add: dec_string_eq_iff)
    moreover have "dec_string feeAmount = dec_string (grossAmount * e div 10000) \<longleftrightarrow> feeAmount = grossAmount * e div 10000" if "0 \<le> e"
      using h(7,9) that by (intro dec_string_eq_iff) (simp_all add: pos_imp_zdiv_nonneg_iff)
    ultimately show ?thesis
      using h(7) unfolding entries by auto
  qed
  have made: "bind_res (proofObjectToCandidateBytes pf) (\<lambda>cs.
        bind_res (case cs of c # ds \<Rightarrow> Inr c | [] \<Rightarrow> proofObjectToBytes pf) (\<lambda>proof_bytes.
          Inr \<lparr>wr_proof = proof_bytes, wr_proofCandidates = cs, wr_publicInputs = map to_lower (ww_publicInputs b)\<rparr>)) = Inr r \<longleftrightarrow>
    (\<exists>cs. proofObjectToCandidateBytes pf = Inr cs \<and>
      r = \<lparr>wr_proof = hd cs, wr_proofCandidates = cs, wr_publicInputs = map to_lower (ww_publicInputs b)\<rparr>)"
  proof (cases "proofObjectToCandidateBytes pf")
    case (Inr cs)
    with candidates_nonempty [OF Inr] show ?thesis by (cases cs) auto
  qed simp
  show ?case
  proof (cases binding)
    case TrustedArtifacts
    show ?thesis unfolding TrustedArtifacts gen bind_res_Inr_iff [of "assertWithdrawWitnessFee _ _"] fees made
      using paid by simp
  qed (simp add: generateWithdrawalGroth16Proof_def)
qed

end
