(* ===== verification/Sdk_Accept.thy ===== *)
theory Sdk_Accept
  imports Sdk_Prove
begin

text \<open>
  From the wallet to the relay: a version 1.2 withdrawal whose witness the SDK built, whose proof it
  checked and which it planned is one the relay's calldata check allows. The SDK and the relay share
  no code for this; each computes the hashes and the envelope with functions of its own.
\<close>

section \<open>Laws of viem\<close>

text \<open>
  Keccak hashes bytes, whatever the case of their hex digits, and gives 32 bytes. The ABI encoding is
  a hex string; it keeps the digits of \<open>bytes\<close>, \<open>bytes32\<close> and \<open>bytes4\<close> in the case they were given and
  puts addresses in lower case, so the encodings of values that differ in case only differ in case
  only. An address is accepted as it was given, in lower case, or as \<open>getAddress\<close> returns it.
\<close>

fun same_abi :: "relay_lib \<Rightarrow> abi_value \<Rightarrow> abi_value \<Rightarrow> bool" where
  "same_abi L (AbiBytes32 a) (AbiBytes32 b) = (to_lower a = to_lower b)"
| "same_abi L (AbiBytes4 a) (AbiBytes4 b) = (to_lower a = to_lower b)"
| "same_abi L (AbiBytes a) (AbiBytes b) = (to_lower a = to_lower b)"
| "same_abi L (AbiUint m) (AbiUint n) = (m = n)"
| "same_abi L (AbiAddress a) (AbiAddress b) = (to_lower a = to_lower b \<and> (b = to_lower b \<or> (\<exists>s. get_address L s = Some b)))"
| "same_abi L _ _ = False"

definition viem_laws :: "relay_lib \<Rightarrow> bool" where
  "viem_laws L \<longleftrightarrow>
     (\<forall>h. isHexString h \<longrightarrow> isHexBytes32 (keccak (rl_viem L) h) \<and> keccak (rl_viem L) (to_lower h) = keccak (rl_viem L) h) \<and>
     (\<forall>vs e. abi_encode (rl_viem L) vs = Some e \<longrightarrow> isHexString e) \<and>
     (\<forall>vs ws e. abi_encode (rl_viem L) vs = Some e \<longrightarrow> list_all2 (same_abi L) vs ws \<longrightarrow>
        (\<exists>e'. abi_encode (rl_viem L) ws = Some e' \<and> to_lower e' = to_lower e))"

lemma viem_keccak: "viem_laws L \<Longrightarrow> isHexString h \<Longrightarrow> isHexBytes32 (keccak (rl_viem L) h)"
  "viem_laws L \<Longrightarrow> isHexString h \<Longrightarrow> keccak (rl_viem L) (to_lower h) = keccak (rl_viem L) h"
  by (simp_all add: viem_laws_def)

text \<open>So both encodings have one hash.\<close>

lemma viem_encode:
  assumes "viem_laws L" "abi_encode (rl_viem L) vs = Some e" "list_all2 (same_abi L) vs ws"
  obtains e' where "abi_encode (rl_viem L) ws = Some e'" "isHexString e'" "keccak (rl_viem L) e' = keccak (rl_viem L) e"
proof -
  obtain e' where e: "abi_encode (rl_viem L) ws = Some e'" "to_lower e' = to_lower e"
    using assms unfolding viem_laws_def by blast
  have "isHexString e" "isHexString e'" using assms(1,2) e(1) unfolding viem_laws_def by blast+
  with that e viem_keccak(2) [OF assms(1)] show ?thesis by metis
qed

lemma domain_word: "viem_laws L \<Longrightarrow> isHexBytes32 (hashDomainSeparator (rl_viem L) s)"
  by (simp add: hashDomainSeparator_def viem_keccak isHexString_text_hex)

section \<open>The two sides hash alike\<close>

lemma relay_hashes:
  assumes "viem_laws L" "isHexString e" "js_bigint (keccak (rl_viem L) e) = Some k"
  shows "hashAbiEncodedToField (rl_viem L) e = Inr (toBytes32 (k mod BN254_SCALAR_FIELD))"
proof -
  let ?h = "keccak (rl_viem L) e"
  have h: "isHexBytes32 ?h" using viem_keccak(1) [OF assms(1,2)] .
  then have "hex_value (to_lower ?h) = k" using assms(3) by (simp add: js_bigint_bytes32)
  moreover have "k mod BN254_SCALAR_FIELD < 2 ^ 256"
    by (rule less_trans [OF pos_mod_bound]) (simp_all add: BN254_SCALAR_FIELD_def)
  ultimately show ?thesis
    using assms(2) h viem_keccak(2) [OF assms(1,2)]
    by (simp add: hashAbiEncodedToField_def reduceKeccakToField_def res_simps BN254_SCALAR_FIELD_MODULUS_def BN254_SCALAR_FIELD_def)
qed

lemma relay_policy_hash:
  assumes "viem_laws L"
    "abi_encode (rl_viem L) [AbiBytes32 (RELAYER_POLICY_V1_DOMAIN_SEPARATOR (rl_viem L)), AbiUint 1, AbiAddress ZERO_ADDRESS,
       AbiUint mi, AbiUint ma, AbiUint 0] = Some e"
    "isHexString e" "js_bigint (keccak (rl_viem L) e) = Some k" "0 \<le> mi" "mi < 2 ^ 256" "0 \<le> ma" "ma < 2 ^ 256"
  shows "computeStageBRelayerPolicyHash L \<lparr>sb_relayer = ZERO_ADDRESS, sb_minNetAmount = mi, sb_maxFeeAmount = ma,
      sb_deadlineOrZero = 0\<rparr> = Inr (toBytes32 (k mod BN254_SCALAR_FIELD))"
proof -
  let ?d = "RELAYER_POLICY_V1_DOMAIN_SEPARATOR (rl_viem L)"
  have d: "isHexBytes32 ?d" using domain_word [OF assms(1)] by (simp add: RELAYER_POLICY_V1_DOMAIN_SEPARATOR_def)
  let ?ws = "[AbiBytes32 (to_lower ?d), AbiUint 1, AbiAddress (to_lower ZERO_ADDRESS), AbiUint mi, AbiUint ma, AbiUint 0]"
  obtain e' where e': "abi_encode (rl_viem L) ?ws = Some e'" "isHexString e'" "keccak (rl_viem L) e' = keccak (rl_viem L) e"
    by (rule viem_encode [OF assms(1,2), of ?ws]) simp
  show ?thesis
    using e'(1) relay_hashes [OF assms(1) e'(2)] assms(4) e'(3) d assms(5-8) sample_zero_address
    by (simp add: computeStageBRelayerPolicyHash_def createRelayerPolicyV1_def normalizeRelayerPolicyV1_def or_default_def
        hashRelayerPolicyV1_def encodeRelayerPolicyV1_def encode_abi_def core_result_def res_simps Proof_Context.requireBytes32_def
        requireUint256_def requireAddressAllowZero_def UINT256_MAX_def)
qed

lemma relay_note_hash:
  assumes "viem_laws L" "get_address L pool = Some p" "to_lower p = to_lower sdkPool"
    "abi_encode (rl_viem L) [AbiBytes32 (OUTPUT_NOTE_V2_DOMAIN_HASH (rl_viem L)), AbiUint 2, AbiUint c,
       AbiAddress sdkPool, AbiBytes32 (PROOF_CONTEXT_V1_SHAPE_WITHDRAW_V1_2_FEE_GOVERNANCE (rl_viem L)),
       AbiBytes4 STAGE_C_SELECTOR, AbiBytes32 nullifier, AbiBytes32 oc, AbiBytes32 (keccak (rl_viem L) note_hex)] = Some e"
    "isHexString e" "js_bigint (keccak (rl_viem L) e) = Some k" "to_lower nullifier' = to_lower nullifier"
    "to_lower oc' = to_lower oc"
  shows "computeV12ContractBoundEncryptedOutputNoteHash L (jsint c) pool STAGE_C_WITHDRAW_BOUNDED_SELECTOR nullifier' oc' note_hex =
    Inr (toBytes32 (k mod BN254_SCALAR_FIELD))"
proof -
  let ?ws = "[AbiBytes32 (ENCRYPTED_OUTPUT_NOTE_V2_DOMAIN_SEPARATOR L), AbiUint 2, AbiUint c, AbiAddress p,
       AbiBytes32 (PROOF_CONTEXT_V1_SHAPE_WITHDRAW_V1_2_FEE_GOVERNANCE (rl_viem L)),
       AbiBytes4 STAGE_C_WITHDRAW_BOUNDED_SELECTOR, AbiBytes32 nullifier', AbiBytes32 oc',
       AbiBytes32 (keccak (rl_viem L) note_hex)]"
  obtain e' where e': "abi_encode (rl_viem L) ?ws = Some e'" "isHexString e'" "keccak (rl_viem L) e' = keccak (rl_viem L) e"
    by (rule viem_encode [OF assms(1,4), of ?ws])
      (use assms(2,3,7,8) in \<open>auto simp: ENCRYPTED_OUTPUT_NOTE_V2_DOMAIN_SEPARATOR_def OUTPUT_NOTE_V2_DOMAIN_HASH_def
        hashDomainSeparator_def STAGE_C_WITHDRAW_BOUNDED_SELECTOR_def STAGE_C_SELECTOR_def\<close>)
  then show ?thesis
    using relay_hashes [OF assms(1) e'(2)] assms(2,6)
    by (simp add: computeV12ContractBoundEncryptedOutputNoteHash_def number_to_bigint_def getAddress_def encode_abi_def core_result_def)
qed

lemma relay_context_hash:
  assumes "viem_laws L" "get_address L pool = Some p" "to_lower p = to_lower sdkPool" "isEvmAddress p" "to_lower p \<noteq> ZERO_ADDRESS"
    "get_address L dest = Some d" "to_lower d = to_lower sdkDest" "isEvmAddress d"
    "abi_encode (rl_viem L) [AbiBytes32 (PROOF_CONTEXT_V1_DOMAIN_SEPARATOR (rl_viem L)), AbiUint 1, AbiUint c,
       AbiAddress sdkPool, AbiBytes32 (PROOF_CONTEXT_V1_SHAPE_WITHDRAW_V1_2_FEE_GOVERNANCE (rl_viem L)),
       AbiBytes4 STAGE_C_SELECTOR, AbiBytes32 rt, AbiBytes32 nullifier, AbiAddress sdkDest, AbiUint g, AbiUint f,
       AbiBytes32 nh, AbiBytes32 ph, AbiUint 0] = Some e"
    "isHexString e" "js_bigint (keccak (rl_viem L) e) = Some k" "c \<in> {4326, 6343}"
    "isHexBytes32 rt" "hex_value rt \<noteq> 0" "isHexBytes32 nullifier" "hex_value nullifier \<noteq> 0"
    "0 \<le> g" "g < 2 ^ 256" "0 \<le> f" "f < 2 ^ 256" "isHexBytes32 nh" "isHexBytes32 ph"
  shows "computeStageBProofContextHash L
     \<lparr>cx_chainId = jsint c, cx_pool = pool, cx_selector = STAGE_C_WITHDRAW_BOUNDED_SELECTOR, cx_root = to_lower rt,
      cx_nullifier = to_lower nullifier, cx_destination = dest, cx_grossAmount = g, cx_fee = f,
      cx_encryptedNoteHash = nh, cx_relayerPolicyHash = ph, cx_deadlineOrZero = 0,
      cx_proofContextShape = Some (PROOF_CONTEXT_V1_SHAPE_WITHDRAW_V1_2_FEE_GOVERNANCE (rl_viem L))\<rparr> =
    Inr (toBytes32 (k mod BN254_SCALAR_FIELD))"
proof -
  let ?d = "PROOF_CONTEXT_V1_DOMAIN_SEPARATOR (rl_viem L)"
  let ?s = "PROOF_CONTEXT_V1_SHAPE_WITHDRAW_V1_2_FEE_GOVERNANCE (rl_viem L)"
  let ?sel = STAGE_C_WITHDRAW_BOUNDED_SELECTOR
  have words: "isHexBytes32 ?d" "isHexBytes32 ?s"
    using domain_word [OF assms(1)]
    by (simp_all add: PROOF_CONTEXT_V1_DOMAIN_SEPARATOR_def PROOF_CONTEXT_V1_SHAPE_WITHDRAW_V1_2_FEE_GOVERNANCE_def)
  have sel: "to_lower ?sel = ?sel" "hex_of_length 8 ?sel" "STAGE_C_SELECTOR = ?sel" by code_simp+
  have chain: "jsint c = jsint 6343 \<or> jsint c = jsint 4326" using assms(12) by auto
  let ?ws = "[AbiBytes32 (to_lower ?d), AbiUint 1, AbiUint c,
       AbiAddress (to_lower p), AbiBytes32 (to_lower ?s), AbiBytes4 ?sel, AbiBytes32 (to_lower rt),
       AbiBytes32 (to_lower nullifier), AbiAddress (to_lower d), AbiUint g, AbiUint f,
       AbiBytes32 (to_lower nh), AbiBytes32 (to_lower ph), AbiUint 0]"
  obtain e' where enc: "abi_encode (rl_viem L) ?ws = Some e'" "isHexString e'" "keccak (rl_viem L) e' = keccak (rl_viem L) e"
    by (rule viem_encode [OF assms(1,9), of ?ws]) (use assms(3,7) in \<open>simp add: sel\<close>)
  let ?c = "\<lparr>pcx_domainSeparator = to_lower ?d, pcx_version = 1, pcx_chainId = jsint c, pcx_pool = to_lower p,
            pcx_shape = to_lower ?s, pcx_selector = ?sel, pcx_root = to_lower rt, pcx_nullifier = to_lower nullifier,
            pcx_destination = to_lower d, pcx_grossAmount = g, pcx_fee = f,
            pcx_encryptedNoteHash = to_lower nh, pcx_relayerPolicyHash = to_lower ph, pcx_deadlineOrZero = 0\<rparr>"
  have made: "createProofContextV1 (rl_viem L) None None
       \<lparr>pcx_domainSeparator = [], pcx_version = 0, pcx_chainId = jsint c, pcx_pool = p, pcx_shape = ?s,
        pcx_selector = ?sel, pcx_root = to_lower rt, pcx_nullifier = to_lower nullifier,
        pcx_destination = d, pcx_grossAmount = g, pcx_fee = f, pcx_encryptedNoteHash = nh,
        pcx_relayerPolicyHash = ph, pcx_deadlineOrZero = 0\<rparr> = Inr ?c"
    using words sel(1,2) chain assms(4,5,8,13-22)
    by (simp add: createProofContextV1_def normalizeProofContextV1_def or_default_def res_simps)
  have again: "normalizeProofContextV1 ?c = Inr ?c"
    using words sel(1,2) chain assms(4,5,8,13-22) lower_preserves
    by (simp add: normalizeProofContextV1_def res_simps)
  have "hashProofContextV1 (rl_viem L) ?c = Inr (toBytes32 (k mod BN254_SCALAR_FIELD))"
    using relay_hashes [OF assms(1) enc(2)] enc(1,3) assms(11)
    by (simp add: hashProofContextV1_def encodeProofContextV1_def again encode_abi_def)
  then show ?thesis
    using made by (simp add: computeStageBProofContextHash_def getAddress_def assms(2,6) or_default_def core_result_def)
qed

section \<open>The planned call\<close>

lemma input_address_word [simp]:
  assumes "isEvmAddress a"
  shows "input_address (address_word a) = to_lower a"
proof -
  from assms obtain t where "a = ''0x'' @ t" "length t = 40"
    by (auto simp: isEvmAddress_def elim: hex_of_lengthE)
  then show ?thesis by (simp add: input_address_def address_word_def lower_char_def is_upper_def code_def)
qed

lemma to_lower_input_address: "to_lower (input_address v) = input_address (to_lower v)"
  by (simp add: input_address_def to_lower_drop lower_char_def is_upper_def code_def)

lemma output_binding_facts:
  assumes "assertV12UnlinkableWithdrawPublicInputBinding i = Inr ()" "xs = wi_publicInputs i"
  shows "length xs = 10" "list_all isHexBytes32 xs" "isEvmAddress (wb_expectedPool i)"
    "to_lower (xs ! 1) = to_lower (wi_nullifier i)" "isBn254FieldElement (xs ! 2)"
    "to_lower (input_address (xs ! 3)) = to_lower (js_trim (wi_destination i))"
    "\<exists>g. normalizeDecimalUint256 (wi_grossAmountWei i) [] = Inr g \<and> js_bigint (xs ! 4) = Some g"
    "js_bigint (xs ! 6) = Some (num_int (wb_expectedChainId i))"
    "to_lower (input_address (xs ! 7)) = to_lower (wb_expectedPool i)"
  using assms by (auto simp: assertV12UnlinkableWithdrawPublicInputBinding_def assertV12UnlinkableWithdrawPublicInputs_def res_simps)

lemma normalize_dec_string: "0 \<le> n \<Longrightarrow> normalizeDecimalUint256 (dec_string n) msg = Inr n"
proof -
  assume n: "0 \<le> n"
  then have "dec_string n = radix_string 10 (nat n)" by (simp add: dec_string_def)
  moreover have "js_trim (radix_string 10 (nat n)) = radix_string 10 (nat n)"
  proof (rule js_trim_id)
    have digits: "\<forall>x \<in> set (radix_string 10 (nat n)). is_digit x" "radix_string 10 (nat n) \<noteq> []"
      using radix_string_10_digits by (simp_all add: list_all_iff)
    then show "\<not> is_space (hd (radix_string 10 (nat n)))" "\<not> is_space (last (radix_string 10 (nat n)))"
      "radix_string 10 (nat n) \<noteq> []"
      using is_digit_not_space hd_in_set last_in_set by blast+
  qed
  ultimately show ?thesis using n by (simp add: sdk_asserts_Inr)
qed

text \<open>What the relay decodes from the calldata of a planned unlinkable withdrawal.\<close>

lemma unlinkable_plan_call:
  assumes "abi_faithful A" "relay_reads A L" "createV12UnlinkableWithdrawalPlan A clock runtime i note_hex = Inr plan"
    "map to_lower (wi_publicInputs i) = map to_lower ws"
    "ws = [rt, nullifier, oc, address_word dest, toBytes32 g, toBytes32 f, toBytes32 c, address_word pool, ctx, nh]"
    "isEvmAddress dest" "isEvmAddress pool" "0 < g" "g < 2 ^ 256" "c \<in> {4326, 6343}" "isHexString note_hex"
    "to_lower note_hex = note_hex" "wi_minNetAmountWei i = dec_string mi" "wi_maxFeeWei i = dec_string ma" "0 \<le> mi" "0 \<le> ma"
    "isHexBytes32 oc"
  shows "\<exists>d. isEvmAddress d \<and> to_lower d = to_lower dest \<and> decodeWithdrawalRelayCall L (wp_calldata plan) =
      Inr \<lparr>call_selector = STAGE_C_WITHDRAW_BOUNDED_SELECTOR, call_relayValidationMode = None, hasChangeNote = True,
        hasOutputNote = None, hasUserBounds = True, publicInputs = map to_lower ws,
        call_nullifier = to_lower nullifier, call_destination = d, call_grossAmount = g,
        encryptedChangeNote = Some note_hex, encryptedOutputNote = None,
        call_minNetAmount = Some mi, call_maxFeeAmount = Some ma, call_relayerPolicy = None\<rparr>"
    "rt_chainId runtime = c" "to_lower (rt_pool runtime) = to_lower pool" "hex_value oc \<noteq> 0"
proof -
  from assms(3) obtain calldata where e: "encodeVerifiedV12UnlinkableWithdrawOutputNoteCalldata A (plan_common runtime i) note_hex = Inr calldata"
    and plan: "plan_of_calldata A clock runtime i calldata = Inr plan"
    by (auto simp: createV12UnlinkableWithdrawalPlan_def res_simps)
  from encoded_output_args [OF e] obtain a where a: "wa_encode A a = Inr calldata" "args_ok a"
    "args_of (plan_common runtime i) note_hex a" "assertV12UnlinkableWithdrawPublicInputBinding (plan_common runtime i) = Inr ()"
    by blast
  define xs where "xs = wi_publicInputs i"
  have common: "wi_publicInputs (plan_common runtime i) = xs" "wi_nullifier (plan_common runtime i) = wi_nullifier i"
    "wi_destination (plan_common runtime i) = wi_destination i" "wb_expectedPool (plan_common runtime i) = rt_pool runtime"
    "wi_grossAmountWei (plan_common runtime i) = wi_grossAmountWei i"
    "wb_expectedChainId (plan_common runtime i) = jsint (rt_chainId runtime)"
    by (simp_all add: plan_common_def xs_def)
  note bound = output_binding_facts [OF a(4) refl, unfolded common]
  have "length ws = 10" by (simp add: assms(5))
  then have lower: "to_lower (xs ! k) = to_lower (ws ! k)" "isHexBytes32 (xs ! k)" if "k < 10" for k
    using arg_cong [OF assms(4), of "\<lambda>ys. ys ! k"] bound(1,2) that by (simp_all add: xs_def list_all_length)
  have vals: "hex_value (xs ! k) = hex_value (to_lower (ws ! k))" if "k < 10" for k
    using lower [OF that] by (metis hex_value_lower isHexBytes32_isHexString)
  from bound(7) lower(2) [of 4] vals [of 4] assms(8,9) have g: "normalizeDecimalUint256 (wi_grossAmountWei i) [] = Inr g"
    by (auto simp: js_bigint_bytes32 assms(5) toBytes32_shape)
  have decimals: "normalizeDecimalUint256 (wi_minNetAmountWei (plan_common runtime i)) [] = Inr mi"
    "normalizeDecimalUint256 (wi_maxFeeWei (plan_common runtime i)) [] = Inr ma"
    using assms(13-16) by (simp_all add: plan_common_def normalize_dec_string)
  have args: "wa_publicInputs a = xs" "to_lower (wa_nullifier a) = to_lower nullifier" "to_lower (wa_destination a) = to_lower dest"
    "wa_note a = note_hex" "wa_grossAmount a = g" "wa_minNetAmount a = mi" "wa_maxFeeAmount a = ma"
    using a(2,3) g decimals lower(1) [of 1] lower(1) [of 3] bound(4,6) assms(6,11)
    by (simp_all add: args_of_def args_ok_def common assms(5) js_trim_hex to_lower_input_address address_word_shape)
  have "map to_lower xs = map to_lower ws" using assms(4) by (simp add: xs_def)
  with relay_decodes [OF assms(1,2) a(1,2)] args assms(12) plan_of_calldata_Inr [OF plan]
  show "\<exists>d. isEvmAddress d \<and> to_lower d = to_lower dest \<and> decodeWithdrawalRelayCall L (wp_calldata plan) =
      Inr \<lparr>call_selector = STAGE_C_WITHDRAW_BOUNDED_SELECTOR, call_relayValidationMode = None, hasChangeNote = True,
        hasOutputNote = None, hasUserBounds = True, publicInputs = map to_lower ws,
        call_nullifier = to_lower nullifier, call_destination = d, call_grossAmount = g,
        encryptedChangeNote = Some note_hex, encryptedOutputNote = None,
        call_minNetAmount = Some mi, call_maxFeeAmount = Some ma, call_relayerPolicy = None\<rparr>"
    by auto
  have "0 \<le> c" "c < 2 ^ 256" using assms(10) by auto
  then show "rt_chainId runtime = c"
    using bound(8) vals [of 6] lower(2) [of 6] by (simp add: js_bigint_bytes32 assms(5) toBytes32_shape)
  show "to_lower (rt_pool runtime) = to_lower pool"
    using bound(9) lower(1) [of 7] assms(7) by (simp add: assms(5) to_lower_input_address address_word_shape)
  show "hex_value oc \<noteq> 0"
    using bound(5) vals [of 2] assms(17) by (auto simp: assms(5) isBn254FieldElement_def)
qed

section \<open>The relay allows it\<close>

definition unlinkable_call :: "string list \<Rightarrow> string \<Rightarrow> string \<Rightarrow> int \<Rightarrow> int \<Rightarrow> string \<Rightarrow> relay_call" where
  "unlinkable_call ws nullifier dest g f note_hex =
     \<lparr>call_selector = STAGE_C_WITHDRAW_BOUNDED_SELECTOR, call_relayValidationMode = Some V1_2_Unlinkable,
      hasChangeNote = True, hasOutputNote = None, hasUserBounds = True, publicInputs = map to_lower ws,
      call_nullifier = to_lower nullifier, call_destination = dest, call_grossAmount = g,
      encryptedChangeNote = Some note_hex, encryptedOutputNote = None, call_minNetAmount = Some (g - f),
      call_maxFeeAmount = Some f, call_relayerPolicy = None\<rparr>"

lemma address_word_cong: "to_lower a = to_lower b \<Longrightarrow> address_word a = address_word b"
  by (simp add: address_word_def)

lemma relay_allows_unlinkable:
  assumes "ws = [rt, nullifier, oc, address_word dest, toBytes32 g, toBytes32 f, toBytes32 c, address_word pool, ctx, nh]"
    and words: "isHexBytes32 rt" "isHexBytes32 nullifier" "hex_value nullifier \<noteq> 0" "isHexBytes32 oc" "hex_value oc \<noteq> 0"
      "isHexBytes32 ctx" "isHexBytes32 nh" "isEvmAddress dest" "isEvmAddress pool"
    and amounts: "g \<in> set SUPPORTED_FIXED_DENOMINATIONS" "0 < g" "g < 2 ^ 256" "0 \<le> f" "f \<le> g" "c \<in> {4326, 6343}"
    and addresses: "get_address L (ci_pool ci) = Some p" "to_lower p = to_lower pool"
      "get_address L d = Some d'" "to_lower d = to_lower dest" "to_lower d' = to_lower dest" "to_lower dest \<noteq> ZERO_ADDRESS"
    and request: "ci_chainId ci = jsint c" "calculateWithdrawalFee g (map_option activeFeeBps (ci_feePolicy ci)) = f"
      "policy_errors ci (unlinkable_call ws nullifier d g f note_hex) f = Inr []"
    and note_ok: "isHexString note_hex" "note_hex \<noteq> ''0x''" "\<not> note_too_long note_hex"
      "validateEncryptedOutputNoteV2EnvelopeForBinding note_hex (jsint c) (ci_pool ci) (to_lower oc) = []"
    and hashes: "computeV12ContractBoundEncryptedOutputNoteHash L (jsint c) (ci_pool ci) STAGE_C_WITHDRAW_BOUNDED_SELECTOR
        (to_lower nullifier) (to_lower oc) note_hex = Inr nh"
      "computeStageBRelayerPolicyHash L \<lparr>sb_relayer = ZERO_ADDRESS, sb_minNetAmount = g - f, sb_maxFeeAmount = f,
        sb_deadlineOrZero = 0\<rparr> = Inr ph"
      "computeStageBProofContextHash L
       \<lparr>cx_chainId = jsint c, cx_pool = ci_pool ci, cx_selector = STAGE_C_WITHDRAW_BOUNDED_SELECTOR, cx_root = to_lower rt,
        cx_nullifier = to_lower nullifier, cx_destination = d, cx_grossAmount = g, cx_fee = f,
        cx_encryptedNoteHash = nh, cx_relayerPolicyHash = ph, cx_deadlineOrZero = 0,
        cx_proofContextShape = Some (PROOF_CONTEXT_V1_SHAPE_WITHDRAW_V1_2_FEE_GOVERNANCE (rl_viem L))\<rparr> = Inr ctx"
  shows "\<exists>v. validateV12UnlinkableWithdrawalRelayCall L ci (unlinkable_call ws nullifier d g f note_hex) = Inr v \<and> cv_allowed v"
proof -
  let ?call = "unlinkable_call ws nullifier d g f note_hex"
  have call: "call_selector ?call = STAGE_C_WITHDRAW_BOUNDED_SELECTOR" "hasChangeNote ?call" "hasUserBounds ?call"
    "publicInputs ?call = map to_lower ws" "call_nullifier ?call = to_lower nullifier" "call_destination ?call = d"
    "call_grossAmount ?call = g" "encryptedChangeNote ?call = Some note_hex" "call_minNetAmount ?call = Some (g - f)"
    "call_maxFeeAmount ?call = Some f" "call_relayerPolicy ?call = None"
    by (simp_all add: unlinkable_call_def)
  have c: "0 \<le> c" "c < 2 ^ 256" using amounts(6) by auto
  have inputs: "length ws = 10" "input_or (map to_lower ws) 0 x = to_lower rt"
    "input_or (map to_lower ws) (Suc 0) x = to_lower nullifier"
    "input_or (map to_lower ws) 2 x = to_lower oc" "input_or (map to_lower ws) 3 x = address_word dest"
    "input_or (map to_lower ws) 4 x = toBytes32 g" "input_or (map to_lower ws) 5 x = toBytes32 f"
    "input_or (map to_lower ws) 6 x = toBytes32 c" "input_or (map to_lower ws) 7 x = address_word pool"
    "input_or (map to_lower ws) 8 x = to_lower ctx" "input_or (map to_lower ws) 9 x = to_lower nh" for x
    using words amounts c by (simp_all add: assms(1) input_or_def address_word_shape)
  have hex: "list_all isHexBytes32 (map to_lower ws)"
    using words amounts c by (simp add: assms(1) address_word_shape toBytes32_shape)
  have big: "bytes32ToBigInt (toBytes32 g) = Inr g" "bytes32ToBigInt (toBytes32 f) = Inr f" "bytes32ToBigInt (toBytes32 c) = Inr c"
    using amounts c by (simp_all add: bytes32ToBigInt_hex toBytes32_shape)
  have addr: "addressToBytes32 L (ci_pool ci) = Inr (address_word pool)" "addressToBytes32 L d = Inr (address_word dest)"
    unfolding addressToBytes32_Inr
    using addresses(1,3) address_word_cong [OF addresses(2)] address_word_cong [OF addresses(5)] by simp_all
  have policy: "createStageCRelayerPolicy ?call =
      \<lparr>sb_relayer = ZERO_ADDRESS, sb_minNetAmount = g - f, sb_maxFeeAmount = f, sb_deadlineOrZero = 0\<rparr>"
    by (simp add: createStageCRelayerPolicy_def zero_relayer_policy_def call or_default_def)
  have ctx_of: "call_context ?call (jsint c) (ci_pool ci) f nh ph 0 shape =
      \<lparr>cx_chainId = jsint c, cx_pool = ci_pool ci, cx_selector = STAGE_C_WITHDRAW_BOUNDED_SELECTOR, cx_root = to_lower rt,
       cx_nullifier = to_lower nullifier, cx_destination = d, cx_grossAmount = g, cx_fee = f, cx_encryptedNoteHash = nh,
       cx_relayerPolicyHash = ph, cx_deadlineOrZero = 0, cx_proofContextShape = Some shape\<rparr>" for shape
    by (simp add: call_context_def call inputs)
  have nonzero: "to_lower nullifier \<noteq> ZERO_BYTES32" "to_lower oc \<noteq> ZERO_BYTES32"
    using words by (simp_all add: bytes32_zero_iff)
  have errors: "v12_input_errors ?call (address_word dest) g = []" "v12_amount_errors ?call (address_word pool) c c f = []"
    "v12_note_errors ?call (jsint c) (ci_pool ci) (to_lower oc) note_hex = []"
    using nonzero hex words amounts addresses note_ok
    by (simp_all add: v12_input_errors_def v12_amount_errors_def v12_note_errors_def call inputs or_default_def)
  show ?thesis
    using errors hashes request
    by (simp add: validateV12UnlinkableWithdrawalRelayCall_def Let_def addr call inputs big policy ctx_of or_default_def
        number_to_bigint_def)
qed

text \<open>Only zero digits are zero in every case.\<close>

lemma lower_char_zero: "lower_char c = CHR ''0'' \<longleftrightarrow> c = CHR ''0''"
proof -
  have inj: "code x = code y \<longleftrightarrow> x = y" for x y by (simp add: code_def)
  have zero: "code (CHR ''0'') = 48" by (simp add: code_def)
  have "code (lower_char c) = code (CHR ''0'') \<longleftrightarrow> code c = code (CHR ''0'')"
    unfolding zero by (auto simp: code_lower_char is_upper_def split: if_splits)
  then show ?thesis by (simp only: inj)
qed

lemma to_lower_zeros: "to_lower t = replicate n (CHR ''0'') \<Longrightarrow> t = replicate n (CHR ''0'')"
proof (induction t arbitrary: n)
  case (Cons c t)
  then show ?case by (cases n) (simp_all add: to_lower_def lower_char_zero)
qed simp

lemma zero_word_only: "isHexBytes32 v \<Longrightarrow> v \<noteq> ZERO_BYTES32 \<Longrightarrow> hex_value v \<noteq> 0"
proof
  assume v: "isHexBytes32 v" "v \<noteq> ZERO_BYTES32" "hex_value v = 0"
  then obtain t where t: "v = ''0x'' @ t" by (auto simp: isHexBytes32_def elim: hex_of_lengthE)
  have "to_lower v = ZERO_BYTES32" using v by (simp add: bytes32_zero_iff)
  then have "to_lower t = replicate 64 (CHR ''0'')" by (simp add: t ZERO_BYTES32_def)
  with v(2) show False using to_lower_zeros by (simp add: t ZERO_BYTES32_def)
qed

lemma zero_address_only: "isEvmAddress a \<Longrightarrow> a \<noteq> ZERO_ADDRESS \<Longrightarrow> to_lower a \<noteq> ZERO_ADDRESS"
proof
  assume a: "isEvmAddress a" "a \<noteq> ZERO_ADDRESS" "to_lower a = ZERO_ADDRESS"
  then obtain t where t: "a = ''0x'' @ t" by (auto simp: isEvmAddress_def elim: hex_of_lengthE)
  then have "to_lower t = replicate 40 (CHR ''0'')" using a(3) by (simp add: ZERO_ADDRESS_def)
  with a(2) show False using to_lower_zeros by (simp add: t ZERO_ADDRESS_def)
qed

lemma to_lower_text_hex: "to_lower (text_hex s) = text_hex s"
proof -
  have "code c div 16 < 16" for c by (simp add: code_def of_char_def)
  then show ?thesis by (induction s) (simp_all add: text_hex_def)
qed

lemma relay_fee:
  assumes "0 \<le> g" "0 \<le> bps" "bps \<le> 100" "bps = or_default (map_option activeFeeBps policy) 33"
  shows "calculateWithdrawalFee g (map_option activeFeeBps policy) = g * bps div 10000"
  using assms by (simp add: calculateWithdrawalFee_def bigint_div_def BPS_DENOMINATOR_def WITHDRAWAL_FEE_BPS_def not_less)

lemma relay_policy_ok:
  assumes "\<forall>p. ci_feePolicy request = Some p \<longrightarrow> pendingFeeBps p = None"
    "0 \<le> bps" "bps \<le> 100" "bps = or_default (map_option activeFeeBps (ci_feePolicy request)) 33"
  shows "policy_errors request call f = Inr []"
  using assms
  by (auto simp: policy_errors_def validateWithdrawalFeePolicy_def activates_before_deadline_def bps_out_of_bounds_def
      MAX_WITHDRAWAL_FEE_BPS_def matches_pending_early_def or_default_def split: option.splits)

text \<open>The note of a built witness is one the relay accepts.\<close>

lemma created_note:
  assumes "createEncryptedOutputNoteV2Envelope chainId pool oc ct key nonce None = Inr env"
    "serializeEncryptedOutputNoteV2EnvelopeToHex env = Inr note_hex" "to_lower pool' = to_lower pool" "to_lower oc' = to_lower oc"
  shows "isHexString note_hex" "to_lower note_hex = note_hex" "note_hex \<noteq> ''0x''" "\<not> note_too_long note_hex"
    "validateEncryptedOutputNoteV2EnvelopeForBinding note_hex chainId pool' oc' = []"
proof -
  have ok: "output_ok env" "oe_proofContextHash env = ZERO_BYTES32" "oe_chainId env = chainId"
    "oe_verifyingContract env = to_lower pool" "oe_outputCommitment env = to_lower oc"
    using created_envelope_ok [OF assms(1)] by simp_all
  have chain: "num_eq (oe_chainId env) chainId"
    using ok(1,3) by (auto simp: output_ok_def num_eq_def)
  have n: "note_hex = json_hex (output_envelope_json env)"
    using output_round_trip [OF ok(1), of no_checks] assms(2) by (simp add: no_checks_def)
  then have hex: "note_hex = text_hex (object_text (output_envelope_json env))"
    using output_json_text [OF ok(1)] by simp
  show "isHexString note_hex" by (simp add: hex isHexString_text_hex)
  show "to_lower note_hex = note_hex" by (simp add: hex to_lower_text_hex)
  show "note_hex \<noteq> ''0x''"
  proof
    assume "note_hex = ''0x''"
    with length_text_hex [of "object_text (output_envelope_json env)"] show False by (simp add: hex object_text_def)
  qed
  show "\<not> note_too_long note_hex"
    using output_text_length [OF ok(1)] by (simp add: hex note_too_long_def length_text_hex MAX_ENCRYPTED_NOTE_BYTES_def)
  show "validateEncryptedOutputNoteV2EnvelopeForBinding note_hex chainId pool' oc' = []"
    unfolding n using output_relay_accepts [OF ok(1,2) chain] ok(4,5) assms(3,4) by simp
qed

text \<open>
  C10: A withdrawal the SDK prepared goes through. Take a version 1.2 withdrawal built by the SDK, whose
  proof's public inputs passed the SDK's check of the intended withdrawal, planned with the
  witness's net amount and fee as the user's bounds, of a supported denomination and for a nonzero
  pool. A relay for that chain and pool with the same fee and no pending change allows the plan's
  calldata: it finds the same hashes, the note envelope acceptable and every public input bound.
\<close>

theorem sdk_withdrawal_accepted_by_relay:
  assumes "abi_faithful A" "relay_reads A L" "viem_laws L"
    "buildV12UnlinkableWithdrawalWitness (rl_viem L) poseidon input path = Inr b"
    "validateV12UnlinkableWithdrawProofIntent (wi_publicInputs i) (ww_intent b) = Inr ()"
    "createV12UnlinkableWithdrawalPlan A clock runtime i (ww_encryptedNote b) = Inr plan"
    "wi_minNetAmountWei i = ww_netAmountWei b" "wi_maxFeeWei i = in_feeWei (ww_intent b)"
    "ci_data request = wp_calldata plan" "ci_chainId request = jsint (rt_chainId runtime)"
    "ci_relayValidationMode request = Some V1_2_Unlinkable"
    "isEvmAddress (ci_pool request)" "to_lower (ci_pool request) = to_lower (rt_pool runtime)"
    "to_lower (rt_pool runtime) \<noteq> ZERO_ADDRESS"
    "int (radix_val 10 (in_grossAmountWei (ww_intent b))) \<in> set SUPPORTED_FIXED_DENOMINATIONS"
    "or_else (bw_withdrawalFeeBps input) (jsint 33) = jsint (or_default (map_option activeFeeBps (ci_feePolicy request)) 33)"
    "\<forall>p. ci_feePolicy request = Some p \<longrightarrow> pendingFeeBps p = None"
  shows "\<exists>v. validateWithdrawalRelayCalldata L request = Inr v \<and> cv_allowed v"
proof (rule built_v12E [OF assms(4)], goal_cases)
  case (1 noteAmount g f bps out ct env hashes)
  let ?ws = "ww_publicInputs b"
  have bps: "bps = or_default (map_option activeFeeBps (ci_feePolicy request)) 33"
    using assms(16) 1(2) by simp
  show ?case
  proof (rule v12_hashesE [OF 1(11)], goal_cases)
    case h: (1 e1 k1 e2 k2 e3 k3)
    from h(13) obtain c where c: "bw_chainId input = jsint c" "num_int (bw_chainId input) = c" "c \<in> {4326, 6343}"
      unfolding chain_cases by auto
    have gross: "g \<in> set SUPPORTED_FIXED_DENOMINATIONS"
      using assms(15) 1(14) h(24) by (simp add: dec_string_def)
    have f: "f \<le> g" "g - f < 2 ^ 256"
      using h(24,25,26,28) by simp_all
    have checked: "map to_lower (wi_publicInputs i) = map to_lower ?ws"
      using own_proof_check [OF assms(4)] assms(5) by blast
    have maxFee: "wi_maxFeeWei i = dec_string f" using assms(8) 1(14) by simp
    note call = unlinkable_plan_call [OF assms(1,2,6) checked 1(15) [unfolded c(2)] h(23,22,24,25) c(3)
        created_note(1,2) [OF 1(8,9) refl refl] assms(7) [unfolded 1(13)] maxFee h(28) h(26) h(19)]
    from call(1) obtain d where d: "isEvmAddress d" "to_lower d = to_lower (bw_destination input)"
      and decoded: "decodeWithdrawalRelayCall L (wp_calldata plan) =
        Inr ((unlinkable_call ?ws (ww_nullifier b) d g f (ww_encryptedNote b))\<lparr>call_relayValidationMode := None\<rparr>)"
      unfolding unlinkable_call_def by auto
    have pool: "to_lower (ci_pool request) = to_lower (bw_pool input)" using assms(13) call(3) by simp
    obtain p where p: "get_address L (ci_pool request) = Some p" "isEvmAddress p" "to_lower p = to_lower (bw_pool input)"
      using assms(2,12) pool unfolding relay_reads_def by metis
    obtain d' where d': "get_address L d = Some d'" "isEvmAddress d'" "to_lower d' = to_lower (bw_destination input)"
      using assms(2) d unfolding relay_reads_def by metis
    note note_ok = created_note [OF 1(8,9) pool to_lower_idem [of "sm_commitment out"]]
    have nonzero: "hex_value (ww_nullifier b) \<noteq> 0" "hex_value (mp_root path) \<noteq> 0"
      using h(15-18) zero_word_only by blast+
    have dest: "to_lower (bw_destination input) \<noteq> ZERO_ADDRESS"
      using h(23) withdrawal_amounts_Inr(4) [OF 1(1)] zero_address_only by blast
    have nh: "computeV12ContractBoundEncryptedOutputNoteHash L (jsint c) (ci_pool request) STAGE_C_WITHDRAW_BOUNDED_SELECTOR
        (to_lower (ww_nullifier b)) (to_lower (sm_commitment out)) (ww_encryptedNote b) = Inr (wh_encryptedNoteHash hashes)"
      using relay_note_hash [OF assms(3) p(1,3) h(1) [unfolded c(2)] h(2,3)] by (simp add: h(4))
    have ph: "computeStageBRelayerPolicyHash L \<lparr>sb_relayer = ZERO_ADDRESS, sb_minNetAmount = g - f, sb_maxFeeAmount = f,
        sb_deadlineOrZero = 0\<rparr> = Inr (wh_relayerPolicyHash hashes)"
      using relay_policy_hash [OF assms(3) h(5,6,7)] h(26,27,28) f by (simp add: h(8))
    have ctx: "computeStageBProofContextHash L
       \<lparr>cx_chainId = jsint c, cx_pool = ci_pool request, cx_selector = STAGE_C_WITHDRAW_BOUNDED_SELECTOR,
        cx_root = to_lower (mp_root path), cx_nullifier = to_lower (ww_nullifier b), cx_destination = d, cx_grossAmount = g,
        cx_fee = f, cx_encryptedNoteHash = wh_encryptedNoteHash hashes, cx_relayerPolicyHash = wh_relayerPolicyHash hashes,
        cx_deadlineOrZero = 0,
        cx_proofContextShape = Some (PROOF_CONTEXT_V1_SHAPE_WITHDRAW_V1_2_FEE_GOVERNANCE (rl_viem L))\<rparr> =
      Inr (wh_proofContextHash hashes)"
      using relay_context_hash [OF assms(3) p(1,3,2) _ d'(1,3,2) h(9) [unfolded c(2)] h(10,11) c(3) h(15) nonzero(2) h(17) nonzero(1)]
        h(24-27) v12_words(1) [OF 1(11)] assms(14) p(3) call(3) by (simp add: h(8,12))
    have fee: "calculateWithdrawalFee g (map_option activeFeeBps (ci_feePolicy request)) = f"
      using relay_fee [OF _ 1(3,4) bps, of g] h(24) 1(5) by simp
    have "\<exists>v. validateV12UnlinkableWithdrawalRelayCall L request (unlinkable_call ?ws (ww_nullifier b) d g f (ww_encryptedNote b)) = Inr v \<and> cv_allowed v"
      by (rule relay_allows_unlinkable [OF 1(15) [unfolded c(2)] h(15,17) nonzero(1) h(19) call(4) v12_words(3,1) [OF 1(11)] h(23,22) gross
          h(24,25,26) f(1) c(3) p(1,3) d'(1) d(2) d'(3) dest _ _ _ note_ok(1,3,4) _ nh ph ctx])
        (use assms(10) call(2) fee relay_policy_ok [OF assms(17) 1(3,4) bps] note_ok(5) c(1) in simp_all)
    moreover have "(unlinkable_call ?ws n d g f m)\<lparr>call_relayValidationMode := None\<rparr>\<lparr>call_relayValidationMode := Some V1_2_Unlinkable\<rparr>
        = unlinkable_call ?ws n d g f m" for n m
      by (simp add: unlinkable_call_def)
    ultimately show ?thesis
      by (simp add: validateWithdrawalRelayCalldata_def assms(9,11) decoded or_default_def Let_def)
  qed
qed

end
