(* ===== verification/Sdk_Runtime.thy ===== *)
theory Sdk_Runtime
  imports Sdk_Plan
begin

text \<open>
  The SDK's runtime records, \<^verbatim>\<open>packages/sdk/src/runtime/current.ts\<close>: which pool, chain, contracts, fee
  and artifacts a client works with. A runtime comes from a JSON file and is checked field by field,
  so values here are parsed JSON and \<open>None\<close> is \<open>undefined\<close>; the release state with its two versions
  and the fee read from the pool are built on the check.

  \<open>Date.parse\<close> is a predicate on texts; the pool's answers and \<open>toISOString\<close> are functions. Errors are
  the messages of the throws, with one text for every \<open>TypeError\<close>.
\<close>

section \<open>Reading JavaScript values\<close>

type_synonym js_value = "json option"

definition TYPE_ERROR :: string where "TYPE_ERROR = ''TypeError''"

text \<open>\<open>v.k\<close> and \<open>v?.k\<close>: the first throws on null and undefined, neither finds a member of a text or number.\<close>

definition js_get :: "js_value \<Rightarrow> string \<Rightarrow> string + js_value" where
  "js_get v k = (case v of None \<Rightarrow> Inl TYPE_ERROR | Some JNull \<Rightarrow> Inl TYPE_ERROR
     | Some w \<Rightarrow> Inr (json_field w k))"

definition js_opt :: "js_value \<Rightarrow> string \<Rightarrow> js_value" where
  "js_opt v k = (case v of None \<Rightarrow> None | Some w \<Rightarrow> json_field w k)"

definition js_truthy :: "js_value \<Rightarrow> bool" where
  "js_truthy v \<longleftrightarrow> v \<notin> {None, Some JNull, Some (JBool False), Some (JStr []), Some (JNum (jsint 0)), Some (JNum NaN)}"

definition is_text :: "(string \<Rightarrow> bool) \<Rightarrow> js_value \<Rightarrow> bool" where
  "is_text P v \<longleftrightarrow> (case v of Some (JStr s) \<Rightarrow> P s | _ \<Rightarrow> False)"

definition is_the_text :: "string \<Rightarrow> js_value \<Rightarrow> bool" where
  "is_the_text t v \<longleftrightarrow> v = Some (JStr t)"

definition is_the_number :: "int \<Rightarrow> js_value \<Rightarrow> bool" where
  "is_the_number i v \<longleftrightarrow> v = Some (JNum (jsint i))"

definition is_true :: "js_value \<Rightarrow> bool" where
  "is_true v \<longleftrightarrow> v = Some (JBool True)"

text \<open>
  \<open>String(v)\<close>, what a regular expression and \<open>Date.parse\<close> see of a value that is no text. The texts of
  fractions and of numbers from 10^21 on are left open; they are neither hex nor looked at otherwise.
\<close>

fun js_text :: "json \<Rightarrow> string" where
  "js_text JNull = ''null''"
| "js_text (JBool b) = (if b then ''true'' else ''false'')"
| "js_text (JNum n) = (case number_text n of Some t \<Rightarrow> t | None \<Rightarrow> ''number'')"
| "js_text (JStr s) = s"
| "js_text (JArr vs) = join_comma (map (\<lambda>v. if v = JNull then [] else js_text v) vs)"
| "js_text (JObj kvs) = ''[object Object]''"

text \<open>
  \<open>JSON.stringify\<close> as a text to search: the printer of \<open>Json\<close> has no text for fractions and huge numbers,
  which are replaced by null; no text searched for can lie in a number.
\<close>

fun printable :: "json \<Rightarrow> json" where
  "printable (JNum n) = (if number_text n = None then JNull else JNum n)"
| "printable (JArr vs) = JArr (map printable vs)"
| "printable (JObj kvs) = JObj (map (\<lambda>kv. (fst kv, printable (snd kv))) kvs)"
| "printable v = v"

definition searched_text :: "json \<Rightarrow> string" where
  "searched_text v = (case stringify (printable v) of Some t \<Rightarrow> t | None \<Rightarrow> [])"

section \<open>Constants and small checks\<close>

definition ZERO_VERIFIER :: string where
  "ZERO_VERIFIER = ''0x0000000000000000000000000000000000000000''"

definition NULLARK_WITHDRAW_PUBLIC_INPUT_ORDER_V1_1 :: "string list" where
  "NULLARK_WITHDRAW_PUBLIC_INPUT_ORDER_V1_1 =
     [''root'', ''nullifier'', ''newCommitment'', ''destination'', ''grossAmount'', ''fee'', ''chainId'', ''verifyingContract'',
      ''spentCommitment'', ''noteAmount'', ''proofContextHash'', ''encryptedNoteHash'']"

definition CANDIDATE_SCHEMA :: string where "CANDIDATE_SCHEMA = ''nullark-sdk-runtime-v1-2-candidate-v1''"
definition CURRENT_SCHEMA :: string where "CURRENT_SCHEMA = ''nullark-sdk-runtime-current-v1''"
definition V11_VERSION :: string where "V11_VERSION = ''nullark-v1.1-mainnet''"
definition V12_VERSION :: string where "V12_VERSION = ''nullark-v1.2-fee-governance''"
definition MAINNET_RPC :: string where "MAINNET_RPC = ''https://mainnet.megaeth.com/rpc''"

definition PACKAGE_PINNED_V12_PROMOTION_EVIDENCE :: "(string \<times> string) list" where
  "PACKAGE_PINNED_V12_PROMOTION_EVIDENCE =
     [(''apps/web/public/proving/trusted-setup-record.json'',
       ''b87aa47a407f0347a920fcebe76f84d402be8bd5e82f5fe5980ffea557bfa996''),
      (''public-artifacts/current.json'',
       ''66def458e16ea6ed9d1df9c15a79ec83c23d4d4ccdec631d868f614cc0e94ff4'')]"

definition is_sha256_text :: "string \<Rightarrow> bool" where
  "is_sha256_text s \<longleftrightarrow> length s = 64 \<and> list_all is_hex_char s \<and> to_lower s = s"

definition assertSafeSha256 :: "js_value \<Rightarrow> string \<Rightarrow> string + unit" where
  "assertSafeSha256 v label =
     (if \<not> is_text is_sha256_text v
      then Inl (''Nullark SDK current runtime '' @ label @ '' sha256 must be lowercase hex.'') else Inr ())"

definition normalizePromotionEvidenceSha256 :: "js_value \<Rightarrow> string option" where
  "normalizePromotionEvidenceSha256 v =
     (case v of
        Some (JStr s) \<Rightarrow>
          (let normalized = if starts_with ''sha256:'' s then drop 7 s else s in
           if is_sha256_text normalized then Some normalized else None)
      | _ \<Rightarrow> None)"

definition runtime_normalizeFeeBps :: "js_value \<Rightarrow> string \<Rightarrow> string + int" where
  "runtime_normalizeFeeBps v label =
     (case v of
        Some (JNum n) \<Rightarrow>
          if \<not> is_safe_integer n \<or> num_less n (jsint 0)
          then Inl (''Nullark SDK runtime '' @ label @ '' must be a nonnegative safe integer.'') else Inr (num_int n)
      | _ \<Rightarrow> Inl (''Nullark SDK runtime '' @ label @ '' must be a nonnegative safe integer.''))"

definition isObviousPlaceholderAddress :: "string \<Rightarrow> bool" where
  "isObviousPlaceholderAddress v =
     (let normalized = to_lower v in
      normalized = ''0x0000000000000000000000000000000000000000'' \<or>
      normalized = ''0xdead000000000000000000000000000000000000'' \<or>
      (hex_of_length 40 normalized \<and> drop 2 normalized = replicate 40 (normalized ! 2)))"

definition assertV12CandidateAddress :: "js_value \<Rightarrow> string \<Rightarrow> string + string" where
  "assertV12CandidateAddress v label =
     (case v of
        Some (JStr s) \<Rightarrow>
          if \<not> isEvmAddress s \<or> isObviousPlaceholderAddress s
          then Inl (''Nullark SDK v1.2 candidate runtime requires a non-placeholder '' @ label @ '' address.'') else Inr s
      | _ \<Rightarrow> Inl (''Nullark SDK v1.2 candidate runtime requires a non-placeholder '' @ label @ '' address.''))"

section \<open>Promotion evidence\<close>

definition isPackagePinnedV12PromotionEvidence :: "json \<Rightarrow> string \<times> string \<Rightarrow> string + bool" where
  "isPackagePinnedV12PromotionEvidence evidence pinned =
     bind_res (js_get (Some evidence) ''status'') (\<lambda>status.
       if \<not> is_the_text ''approved-for-mainnet'' status \<or> \<not> is_text (\<lambda>_. True) (js_opt (Some evidence) ''path'')
       then Inr False
       else case normalizePromotionEvidenceSha256 (js_opt (Some evidence) ''sha256'') of
         None \<Rightarrow> Inr False
       | Some sha256 \<Rightarrow> Inr (is_the_text (fst pinned) (js_opt (Some evidence) ''path'') \<and> sha256 = snd pinned))"

text \<open>\<open>some\<close> and \<open>every\<close> stop at the first answer, so a later null is not reached.\<close>

fun some_evidence :: "json list \<Rightarrow> string \<times> string \<Rightarrow> string + bool" where
  "some_evidence [] pinned = Inr False"
| "some_evidence (evidence # rest) pinned =
     bind_res (isPackagePinnedV12PromotionEvidence evidence pinned) (\<lambda>found.
       if found then Inr True else some_evidence rest pinned)"

fun every_pinned :: "json list \<Rightarrow> (string \<times> string) list \<Rightarrow> string + bool" where
  "every_pinned evidence [] = Inr True"
| "every_pinned evidence (pinned # rest) =
     bind_res (some_evidence evidence pinned) (\<lambda>found. if found then every_pinned evidence rest else Inr False)"

definition hasVerifiedV12PromotionEvidence :: "json \<Rightarrow> string + bool" where
  "hasVerifiedV12PromotionEvidence runtime =
     (let readiness = js_opt (Some runtime) ''v1_2Readiness'' in
      if \<not> is_true (js_opt readiness ''approvedForMainnet'') \<or> \<not> is_true (js_opt readiness ''ownerApprovedPromotion'')
      then Inr False
      else case js_opt readiness ''promotionEvidence'' of
        Some (JArr evidence) \<Rightarrow> every_pinned evidence PACKAGE_PINNED_V12_PROMOTION_EVIDENCE
      | _ \<Rightarrow> Inr False)"

definition assertV12ReadinessEvidenceIsPackagePinned :: "json \<Rightarrow> string + unit" where
  "assertV12ReadinessEvidenceIsPackagePinned runtime =
     (let readiness = js_opt (Some runtime) ''v1_2Readiness'' in
      if \<not> is_the_text CANDIDATE_SCHEMA (js_opt (Some runtime) ''schema'') \<or> readiness = None then Inr ()
      else bind_res (js_get readiness ''approvedForMainnet'') (\<lambda>approved.
        if is_true approved \<or> is_true (js_opt readiness ''ownerApprovedPromotion'')
        then bind_res (hasVerifiedV12PromotionEvidence runtime) (\<lambda>verified.
               if verified then Inr ()
               else Inl ''Nullark SDK v1.2 readiness approval requires package-pinned final readiness evidence.'')
        else Inr ()))"

section \<open>Fees\<close>

record fee_state =
  fs_activeFeeBps :: int
  fs_maxFeeBps :: int
  fs_pendingFeeBps :: "int option"
  fs_pendingFeeActivationTime :: "json option"
  fs_source :: string

definition NULLARK_V1_2_MAX_WITHDRAWAL_FEE_BPS :: int where "NULLARK_V1_2_MAX_WITHDRAWAL_FEE_BPS = 100"

text \<open>\<open>undefined\<close> and \<open>null\<close> alike count as absent.\<close>

definition present :: "js_value \<Rightarrow> js_value" where
  "present v = (if v = Some JNull then None else v)"

definition resolveRuntimeWithdrawalFeeState :: "(string \<Rightarrow> bool) \<Rightarrow> json \<Rightarrow> string + fee_state" where
  "resolveRuntimeWithdrawalFeeState date_ok runtime =
     (let feePolicy = js_opt (Some runtime) ''feePolicy'' in
      if \<not> js_truthy feePolicy
      then bind_res (runtime_normalizeFeeBps (js_opt (Some runtime) ''withdrawalFeeBps'') ''withdrawal fee bps'') (\<lambda>activeFeeBps.
             Inr \<lparr>fs_activeFeeBps = activeFeeBps, fs_maxFeeBps = activeFeeBps, fs_pendingFeeBps = None,
                  fs_pendingFeeActivationTime = None, fs_source = ''runtime-static-v1.1''\<rparr>)
      else
      bind_res (runtime_normalizeFeeBps (js_opt feePolicy ''activeFeeBps'') ''active withdrawal fee bps'') (\<lambda>activeFeeBps.
      bind_res (runtime_normalizeFeeBps (js_opt feePolicy ''maxFeeBps'') ''max withdrawal fee bps'') (\<lambda>maxFeeBps.
      if maxFeeBps \<noteq> NULLARK_V1_2_MAX_WITHDRAWAL_FEE_BPS
      then Inl ''Nullark SDK runtime max withdrawal fee bps must equal the v1.2 immutable max fee bps.''
      else if activeFeeBps > maxFeeBps then Inl ''active withdrawal fee bps cannot exceed max fee bps''
      else
      bind_res (case js_opt (Some runtime) ''maxWithdrawalFeeBps'' of None \<Rightarrow> Inr ()
                | Some v \<Rightarrow> bind_res (runtime_normalizeFeeBps (Some v) ''max withdrawal fee bps'') (\<lambda>m.
                    if m \<noteq> maxFeeBps then Inl ''runtime fee policy max fee must match maxWithdrawalFeeBps.'' else Inr ())) (\<lambda>_.
      let pendingFeeState = js_opt feePolicy ''pendingFeeState'' in
      bind_res (case present (js_opt pendingFeeState ''pendingFeeBps'') of None \<Rightarrow> Inr None
                | Some v \<Rightarrow> bind_res (runtime_normalizeFeeBps (Some v) ''pending withdrawal fee bps'') (\<lambda>p. Inr (Some p)))
        (\<lambda>pendingFeeBps.
      if \<not> pred_option (\<lambda>p. p \<le> maxFeeBps) pendingFeeBps then Inl ''pending withdrawal fee bps cannot exceed max fee bps''
      else let activationTime = present (js_opt pendingFeeState ''pendingFeeActivationTime'') in
      if \<not> pred_option (\<lambda>t. date_ok (js_text t)) activationTime
      then Inl ''pending withdrawal fee activation time must be an ISO timestamp.''
      else Inr \<lparr>fs_activeFeeBps = activeFeeBps, fs_maxFeeBps = maxFeeBps, fs_pendingFeeBps = pendingFeeBps,
                fs_pendingFeeActivationTime = activationTime, fs_source = ''on-chain-feeBps''\<rparr>)))))"

text \<open>What the pool answers: a bigint, a number, or something else.\<close>

datatype chain_value = ChainBigint int | ChainNumber jsnum | ChainOther

definition normalizeChainUint :: "chain_value \<Rightarrow> string \<Rightarrow> string + int" where
  "normalizeChainUint v label =
     (case v of
        ChainBigint i \<Rightarrow> if i \<ge> 0 then Inr i else Inl (''Nullark SDK on-chain '' @ label @ '' must be a nonnegative integer.'')
      | ChainNumber n \<Rightarrow> if is_safe_integer n \<and> num_le (jsint 0) n then Inr (num_int n)
                         else Inl (''Nullark SDK on-chain '' @ label @ '' must be a nonnegative integer.'')
      | ChainOther \<Rightarrow> Inl (''Nullark SDK on-chain '' @ label @ '' must be a nonnegative integer.''))"

definition normalizeChainFeeBps :: "chain_value \<Rightarrow> string \<Rightarrow> string + int" where
  "normalizeChainFeeBps v label =
     bind_res (normalizeChainUint v label) (\<lambda>parsed.
       if parsed > MAX_SAFE_INTEGER then Inl (''Nullark SDK on-chain '' @ label @ '' must be a safe integer.'')
       else runtime_normalizeFeeBps (Some (JNum (jsint parsed))) label)"

text \<open>
  The four reads run at once; when several fail, which of their errors is reported is left to the
  order here. \<open>read\<close> is the contract call for a function name, \<open>date_text\<close> the date of an epoch second.
\<close>

definition readRuntimeWithdrawalFeeStateFromPool ::
  "(string \<Rightarrow> bool) \<Rightarrow> (int \<Rightarrow> string + string) \<Rightarrow> (string \<Rightarrow> string + chain_value) \<Rightarrow> json \<Rightarrow> string + fee_state" where
  "readRuntimeWithdrawalFeeStateFromPool date_ok date_text read runtime =
     (if \<not> js_truthy (js_opt (Some runtime) ''feePolicy'') then resolveRuntimeWithdrawalFeeState date_ok runtime
      else
      bind_res (read ''feeBps'') (\<lambda>active_value. bind_res (read ''MAX_FEE_BPS'') (\<lambda>max_value.
      bind_res (read ''pendingFeeBps'') (\<lambda>pending_value. bind_res (read ''pendingFeeActivationTime'') (\<lambda>time_value.
      bind_res (normalizeChainFeeBps active_value ''active withdrawal fee bps'') (\<lambda>active.
      bind_res (normalizeChainFeeBps max_value ''max withdrawal fee bps'') (\<lambda>max_bps.
      if max_bps \<noteq> NULLARK_V1_2_MAX_WITHDRAWAL_FEE_BPS
      then Inl ''Nullark SDK on-chain max withdrawal fee bps must equal the v1.2 immutable max fee bps.''
      else if active > max_bps then Inl ''on-chain active withdrawal fee bps cannot exceed max fee bps.''
      else
      bind_res (normalizeChainFeeBps pending_value ''pending withdrawal fee bps'') (\<lambda>pending.
      if pending > max_bps then Inl ''on-chain pending withdrawal fee bps cannot exceed max fee bps.''
      else
      bind_res (normalizeChainUint time_value ''pending withdrawal fee activation time'') (\<lambda>seconds.
      if (pending = 0) \<noteq> (seconds = 0)
      then Inl ''on-chain pending withdrawal fee state must pair fee bps with activation time.''
      else
      bind_res (if seconds = 0 then Inr None else bind_res (date_text seconds) (\<lambda>t. Inr (Some (JStr t)))) (\<lambda>time.
        Inr \<lparr>fs_activeFeeBps = active, fs_maxFeeBps = max_bps,
             fs_pendingFeeBps = (if pending = 0 then None else Some pending),
             fs_pendingFeeActivationTime = time, fs_source = ''on-chain-feeBps''\<rparr>))))))))))"

section \<open>Checking a runtime\<close>

definition runtimePublicInputOrderMatches :: "json \<Rightarrow> bool" where
  "runtimePublicInputOrderMatches runtime =
     (case js_opt (Some runtime) ''groth16PublicInputOrder'' of
        Some (JArr names) \<Rightarrow>
          names = map JStr (if is_the_text CANDIDATE_SCHEMA (js_opt (Some runtime) ''schema'')
                            then NULLARK_WITHDRAW_PUBLIC_INPUT_ORDER_V1_2 else NULLARK_WITHDRAW_PUBLIC_INPUT_ORDER_V1_1)
      | _ \<Rightarrow> False)"

definition network_checks :: "json \<Rightarrow> (bool \<times> string) list" where
  "network_checks runtime =
     (let f = js_opt (Some runtime) in
      if is_the_text ''megaeth-mainnet'' (f ''environment'')
      then [(\<not> is_the_number 4326 (f ''chainId'') \<or> \<not> is_the_text MAINNET_RPC (f ''rpcUrl''),
             ''Nullark SDK mainnet runtime must target MegaETH mainnet 4326.'')]
      else if is_the_text ''megaeth-testnet-nullark'' (f ''environment'')
      then [(\<not> is_the_number 6343 (f ''chainId'') \<or> \<not> is_the_text ''https://carrot.megaeth.com/rpc'' (f ''rpcUrl''),
             ''Nullark SDK testnet runtime must target MegaETH testnet 6343.'')]
      else [(True, ''Nullark SDK runtime must target an approved MegaETH network.'')])"

definition contract_checks :: "json \<Rightarrow> (bool \<times> string) list" where
  "contract_checks runtime =
     (let f = js_opt (Some runtime) in
      map (\<lambda>label. (\<not> is_text isEvmAddress (f label),
                    ''Nullark SDK current runtime '' @ label @ '' must be an EVM address.''))
        [''pool'', ''withdrawVerifier'', ''verifierAdapter''] @
      [(\<not> is_text (\<lambda>s. isEvmAddress s \<or> s = ZERO_VERIFIER) (f ''privateTransferVerifier''),
        ''Nullark SDK current runtime privateTransferVerifier must be an EVM address.''),
       (case f ''withdrawVerifierBytecodeHash'' of None \<Rightarrow> True | Some h \<Rightarrow> \<not> isHexBytes32 (js_text h),
        ''Nullark SDK current runtime withdraw verifier bytecode hash must be bytes32.''),
       (\<not> is_the_text STAGE_C_SELECTOR (f ''withdrawSelector''),
        ''Nullark SDK current runtime must use the proof-bound withdrawal selector.''),
       (\<not> (case f ''merkleTreeDepth'' of Some (JNum n) \<Rightarrow> is_safe_integer n \<and> \<not> num_le n (jsint 0) | _ \<Rightarrow> False),
        ''Nullark SDK current runtime Merkle depth must be a positive safe integer.''),
       (\<not> runtimePublicInputOrderMatches runtime,
        ''Nullark SDK current runtime must define the approved Groth16 public input order.'')])"

text \<open>The artifacts whose hash a runtime must carry, with their labels.\<close>

definition required_artifacts :: "json \<Rightarrow> (string \<times> string) list" where
  "required_artifacts runtime =
     (let f = js_opt (Some runtime); readiness = f ''v1_2Readiness'';
          full = is_the_text CANDIDATE_SCHEMA (f ''schema'') \<and>
            (is_the_text ''mainnet-trusted-setup'' (f ''artifactTrustMode'') \<or>
             is_true (js_opt readiness ''approvedForMainnet'') \<or> is_true (js_opt readiness ''ownerApprovedPromotion'')) in
      (if full \<and> f ''depositVerifier'' \<noteq> None
       then [(''depositWasm'', ''deposit wasm''), (''depositFinalZkey'', ''deposit final zkey'')] else []) @
      (if full \<and> \<not> is_the_text ZERO_VERIFIER (f ''privateTransferVerifier'')
       then [(''privateTransferWasm'', ''private transfer wasm''), (''privateTransferFinalZkey'', ''private transfer final zkey'')]
       else []) @
      [(''withdrawWasm'', ''withdraw wasm''), (''withdrawFinalZkey'', ''withdraw final zkey'')])"

fun hash_checks :: "js_value \<Rightarrow> (string \<times> string) list \<Rightarrow> string + unit" where
  "hash_checks artifacts [] = Inr ()"
| "hash_checks artifacts ((key, label) # rest) =
     bind_res (assertSafeSha256 (js_opt (js_opt artifacts key) ''sha256'') label) (\<lambda>_. hash_checks artifacts rest)"

definition without_readiness :: "json \<Rightarrow> json" where
  "without_readiness runtime =
     (case runtime of JObj kvs \<Rightarrow> JObj (AList.delete ''v1_2Readiness'' kvs) | v \<Rightarrow> v)"

definition set_fee :: "json \<Rightarrow> int \<Rightarrow> json" where
  "set_fee runtime bps =
     (case runtime of JObj kvs \<Rightarrow> JObj (AList.update ''withdrawalFeeBps'' (JNum (jsint bps)) kvs) | v \<Rightarrow> v)"

text \<open>The runtime is returned with its fee replaced by the active fee of its policy.\<close>

definition assertRuntime :: "(string \<Rightarrow> bool) \<Rightarrow> json \<Rightarrow> string + json" where
  "assertRuntime date_ok runtime =
     bind_res (js_get (Some runtime) ''schema'') (\<lambda>schema.
     if \<not> is_the_text CURRENT_SCHEMA schema \<and> \<not> is_the_text CANDIDATE_SCHEMA schema
     then Inl ''Unsupported Nullark SDK runtime schema.''
     else
     bind_res (assertV12ReadinessEvidenceIsPackagePinned runtime) (\<lambda>_.
     bind_res (first_throw (network_checks runtime)) (\<lambda>_.
     bind_res (first_throw (contract_checks runtime)) (\<lambda>_.
     bind_res (assertSafeSha256 (js_opt (js_opt (Some runtime) ''proverManifest'') ''sha256'') ''prover manifest'') (\<lambda>_.
     bind_res (assertSafeSha256 (js_opt (js_opt (Some runtime) ''trustedSetupRecord'') ''sha256'') ''trusted setup record'') (\<lambda>_.
     bind_res (hash_checks (js_opt (Some runtime) ''artifacts'') (required_artifacts runtime)) (\<lambda>_.
     if js_includes ''docs/evidence/'' (searched_text (without_readiness runtime))
     then Inl ''Nullark SDK current runtime must not expose private operation paths.''
     else
     bind_res (resolveRuntimeWithdrawalFeeState date_ok runtime) (\<lambda>feeState.
       Inr (set_fee runtime (fs_activeFeeBps feeState))))))))))"

definition assertCurrentRuntime :: "(string \<Rightarrow> bool) \<Rightarrow> json \<Rightarrow> string + json" where
  "assertCurrentRuntime date_ok v =
     bind_res (js_get (Some v) ''schema'') (\<lambda>schema.
     let f = js_opt (Some v) in
     if \<not> is_the_text CANDIDATE_SCHEMA schema \<and> f ''v1_2Readiness'' \<noteq> None
     then Inl ''Nullark SDK current runtime must not carry v1.2 promotion approval metadata.''
     else
     bind_res (if is_the_text CURRENT_SCHEMA schema \<and> is_the_text V11_VERSION (f ''productVersion'') then Inr True
               else if is_the_text CANDIDATE_SCHEMA schema \<and> is_the_text V12_VERSION (f ''productVersion'')
               then hasVerifiedV12PromotionEvidence v
               else Inr False) (\<lambda>approved.
     if \<not> approved
     then Inl ''Nullark SDK current runtime must be the approved v1.1 mainnet runtime or package-pinned v1.2 mainnet runtime.''
     else
     bind_res (assertRuntime date_ok v) (\<lambda>runtime.
     let g = js_opt (Some runtime) in
     if \<not> is_the_text ''megaeth-mainnet'' (g ''environment'') \<or> \<not> is_the_number 4326 (g ''chainId'')
     then Inl ''Nullark SDK current runtime must target MegaETH mainnet 4326.''
     else if \<not> is_the_text MAINNET_RPC (g ''rpcUrl'')
     then Inl ''Nullark SDK current runtime must use the approved MegaETH mainnet RPC.''
     else if is_the_text CANDIDATE_SCHEMA (g ''schema'')
     then bind_res (assertV12CandidateAddress (g ''depositVerifier'') ''deposit verifier'') (\<lambda>_.
          bind_res (assertV12CandidateAddress (g ''poseidon2'') ''Poseidon2'') (\<lambda>_. Inr runtime))
     else Inr runtime)))"

text \<open>
  The runtimes the package ships are parameters: the current one, the one of version 1.1 and the one of
  the testnet.
\<close>

definition recovery_runtimes :: "(string \<Rightarrow> bool) \<Rightarrow> json \<Rightarrow> json \<Rightarrow> json \<Rightarrow> string + json list" where
  "recovery_runtimes date_ok currentRuntime legacyRuntime testnetRuntime =
     bind_res (assertCurrentRuntime date_ok currentRuntime) (\<lambda>c.
     bind_res (assertCurrentRuntime date_ok legacyRuntime) (\<lambda>l.
     bind_res (assertRuntime date_ok testnetRuntime) (\<lambda>t. Inr [c, l, t])))"

definition runtime_matches :: "int \<Rightarrow> string \<Rightarrow> string \<Rightarrow> json \<Rightarrow> bool" where
  "runtime_matches chainId poolAddress runtimeId runtime \<longleftrightarrow>
     is_the_number chainId (js_opt (Some runtime) ''chainId'') \<and>
     is_text (\<lambda>p. to_lower p = to_lower poolAddress) (js_opt (Some runtime) ''pool'') \<and>
     is_the_text runtimeId (js_opt (Some runtime) ''productVersion'')"

definition getRuntimeForRecoveryKitV1 ::
  "(string \<Rightarrow> bool) \<Rightarrow> json \<Rightarrow> json \<Rightarrow> json \<Rightarrow> int \<Rightarrow> string \<Rightarrow> string \<Rightarrow> string + json" where
  "getRuntimeForRecoveryKitV1 date_ok currentRuntime legacyRuntime testnetRuntime chainId poolAddress runtimeId =
     bind_res (recovery_runtimes date_ok currentRuntime legacyRuntime testnetRuntime) (\<lambda>candidates.
       case filter (runtime_matches chainId poolAddress runtimeId) candidates of
         [runtime] \<Rightarrow> Inr runtime
       | _ \<Rightarrow> Inl ''No Nullark SDK runtime matches recovery kit chain, pool, and runtime ID.'')"

section \<open>The release state\<close>

record v12_status =
  vs_status :: string
  vs_advertised :: bool
  vs_ready :: bool
  vs_finalReadinessEvidencePinned :: bool
  vs_reason :: string

record runtime_state =
  rs_currentRuntime :: string
  rs_defaultDepositRuntime :: string
  rs_mainnet4326Blocked :: bool
  rs_v1_1 :: json
  rs_v1_2 :: json
  rs_v1_2Status :: v12_status

definition v12RuntimeStatus :: "bool \<Rightarrow> v12_status" where
  "v12RuntimeStatus verified =
     (if verified
      then \<lparr>vs_status = ''ready'', vs_advertised = True, vs_ready = True, vs_finalReadinessEvidencePinned = True,
            vs_reason = ''v1.2 has package-pinned final readiness and owner promotion evidence.''\<rparr>
      else \<lparr>vs_status = ''draft-blocked'', vs_advertised = False, vs_ready = False, vs_finalReadinessEvidencePinned = False,
            vs_reason = ''v1.2 remains blocked until package-pinned final readiness and owner promotion evidence is present.''\<rparr>)"

definition text_of :: "json \<Rightarrow> string \<Rightarrow> string" where
  "text_of runtime k = (case js_opt (Some runtime) k of Some (JStr s) \<Rightarrow> s | _ \<Rightarrow> [])"

definition artifact_hash :: "json \<Rightarrow> string \<Rightarrow> js_value" where
  "artifact_hash runtime k = js_opt (js_opt (js_opt (Some runtime) ''artifacts'') k) ''sha256''"

definition reusesV11ArtifactHashes :: "json \<Rightarrow> json \<Rightarrow> bool" where
  "reusesV11ArtifactHashes v1_1 v1_2 \<longleftrightarrow>
     (\<exists>k \<in> {''proverManifest'', ''trustedSetupRecord''}.
        js_opt (js_opt (Some v1_2) k) ''sha256'' = js_opt (js_opt (Some v1_1) k) ''sha256'') \<or>
     (\<exists>k \<in> {''withdrawWasm'', ''withdrawFinalZkey''}. artifact_hash v1_2 k = artifact_hash v1_1 k)"

definition candidate_addresses :: "json \<Rightarrow> string + string" where
  "candidate_addresses v1_2 =
     (let f = js_opt (Some v1_2) in
      bind_res (assertV12CandidateAddress (f ''pool'') ''pool'') (\<lambda>_.
      bind_res (assertV12CandidateAddress (f ''depositVerifier'') ''deposit verifier'') (\<lambda>_.
      bind_res (assertV12CandidateAddress (f ''withdrawVerifier'') ''withdraw verifier'') (\<lambda>_.
      bind_res (assertV12CandidateAddress (f ''verifierAdapter'') ''verifier adapter'') (\<lambda>_.
      bind_res (assertV12CandidateAddress (f ''poseidon2'') ''Poseidon2'') (\<lambda>_.
        assertV12CandidateAddress (f ''feeController'') ''feeController''))))))"

definition assertV12CandidatePublication :: "(string \<Rightarrow> bool) \<Rightarrow> json \<Rightarrow> json \<Rightarrow> json \<Rightarrow> string + unit" where
  "assertV12CandidatePublication date_ok state v1_1 v1_2 =
     (let f = js_opt (Some v1_2); blocked = js_opt (Some state) ''mainnet4326Blocked'' in
      bind_res (hasVerifiedV12PromotionEvidence v1_2) (\<lambda>approved.
      bind_res (first_throw
       [(\<not> is_the_text V12_VERSION (f ''productVersion''),
         ''Nullark SDK v1.2 candidate runtime must be labeled nullark-v1.2-fee-governance.''),
        (\<not> is_the_text ''megaeth-mainnet'' (f ''environment'') \<or> \<not> is_the_number 4326 (f ''chainId'') \<or>
           \<not> is_the_text MAINNET_RPC (f ''rpcUrl''),
         ''Nullark SDK v1.2 candidate runtime publication must target MegaETH mainnet 4326.''),
        (\<not> is_true blocked \<and> \<not> approved,
         ''Nullark SDK v1.2 candidate runtime publication must remain mainnet-blocked until approved promotion evidence exists.'')]) (\<lambda>_.
      bind_res (candidate_addresses v1_2) (\<lambda>feeController.
      if to_lower feeController \<in> (\<lambda>k. to_lower (text_of v1_1 k)) ` {''pool'', ''withdrawVerifier'', ''verifierAdapter''}
      then Inl ''Nullark SDK v1.2 candidate feeController cannot reuse a v1.1 runtime contract address.''
      else let pendingFeeState = js_opt (f ''feePolicy'') ''pendingFeeState'' in
      if \<not> js_truthy pendingFeeState
      then Inl ''Nullark SDK v1.2 candidate runtime must publish explicit pending fee state.''
      else if \<not> is_the_text ''on-chain-feeBps'' (js_opt pendingFeeState ''source'')
      then Inl ''Nullark SDK v1.2 candidate pending fee state must be sourced from on-chain feeBps.''
      else
      bind_res (resolveRuntimeWithdrawalFeeState date_ok v1_2) (\<lambda>feeState.
      if ((fs_pendingFeeBps feeState = None) \<noteq> (fs_pendingFeeActivationTime feeState = None)) \<or>
         \<not> pred_option (\<lambda>p. p > fs_activeFeeBps feeState) (fs_pendingFeeBps feeState)
      then Inl ''Nullark SDK v1.2 candidate pending fee state must be null or a scheduled fee increase with activation time.''
      else if \<not> approved \<and> reusesV11ArtifactHashes v1_1 v1_2
      then Inl ''Nullark SDK v1.2 candidate runtime cannot reuse v1.1 artifact hashes without approved promotion evidence.''
      else Inr ())))))"

definition version_chosen :: "js_value \<Rightarrow> bool \<Rightarrow> string" where
  "version_chosen v verified = (if is_the_text ''v1_2'' v \<and> verified then ''v1_2'' else ''v1_1'')"

definition assertRuntimeState :: "(string \<Rightarrow> bool) \<Rightarrow> json \<Rightarrow> string + runtime_state" where
  "assertRuntimeState date_ok state =
     (let f = js_opt (Some state) in
     bind_res (js_get (Some state) ''schema'') (\<lambda>schema.
     bind_res (first_throw
      [(\<not> is_the_text ''nullark-sdk-runtime-state-v1'' schema, ''Unsupported Nullark SDK runtime state schema.''),
       (\<not> is_the_text ''v1_1'' (f ''currentRuntime'') \<and> \<not> is_the_text ''v1_2'' (f ''currentRuntime''),
        ''Nullark SDK runtime state must choose v1_1 or v1_2 as current runtime.''),
       (\<not> is_the_text ''v1_1'' (f ''defaultDepositRuntime'') \<and> \<not> is_the_text ''v1_2'' (f ''defaultDepositRuntime''),
        ''Nullark SDK runtime state must choose v1_1 or v1_2 as default deposit runtime.'')]) (\<lambda>_.
     bind_res (case f ''v1_1'' of None \<Rightarrow> Inl TYPE_ERROR | Some v \<Rightarrow> assertRuntime date_ok v) (\<lambda>v1_1.
     bind_res (case f ''v1_2'' of None \<Rightarrow> Inl TYPE_ERROR | Some v \<Rightarrow> assertRuntime date_ok v) (\<lambda>v1_2.
     bind_res (first_throw
      [(\<not> is_the_text V11_VERSION (js_opt (Some v1_1) ''productVersion''),
        ''Nullark SDK runtime state must preserve the current v1.1 runtime.''),
       (\<not> is_the_text CANDIDATE_SCHEMA (js_opt (Some v1_2) ''schema''),
        ''Nullark SDK runtime state v1.2 must be an explicit candidate runtime.''),
       (to_lower (text_of v1_2 ''pool'') = to_lower (text_of v1_1 ''pool''),
        ''Nullark SDK v1.2 candidate runtime must be distinct from v1.1.'')]) (\<lambda>_.
     bind_res (assertV12CandidatePublication date_ok state v1_1 v1_2) (\<lambda>_.
     bind_res (hasVerifiedV12PromotionEvidence v1_2) (\<lambda>verified.
       Inr \<lparr>rs_currentRuntime = version_chosen (f ''currentRuntime'') verified,
            rs_defaultDepositRuntime = version_chosen (f ''defaultDepositRuntime'') verified,
            rs_mainnet4326Blocked = (f ''mainnet4326Blocked'' \<noteq> Some (JBool False)),
            rs_v1_1 = v1_1, rs_v1_2 = v1_2, rs_v1_2Status = v12RuntimeStatus verified\<rparr>))))))))"

section \<open>What a checked runtime looks like\<close>

lemma js_get_Inr [res_simps]: "js_get v k = Inr w \<longleftrightarrow> v \<noteq> None \<and> v \<noteq> Some JNull \<and> w = js_opt v k"
  by (auto simp: js_get_def js_opt_def split: option.splits json.splits)

lemma js_opt_simps [simp]: "js_opt None k = None" "js_opt (Some (JObj kvs)) k = map_of kvs k"
  by (simp_all add: js_opt_def json_field_def)

lemma js_opt_object: "js_opt (Some v) k = Some w \<Longrightarrow> \<exists>kvs. v = JObj kvs"
  by (cases v) (simp_all add: js_opt_def json_field_def)

lemma js_opt_set_fee: "js_opt (Some (set_fee (JObj kvs) bps)) k =
    (if k = ''withdrawalFeeBps'' then Some (JNum (jsint bps)) else js_opt (Some (JObj kvs)) k)"
  by (simp add: set_fee_def update_conv)

lemma assertSafeSha256_Inr [res_simps]: "assertSafeSha256 v label = Inr u \<longleftrightarrow> is_text is_sha256_text v"
  by (simp add: assertSafeSha256_def)

lemma hash_checks_Inr [res_simps]:
  "hash_checks artifacts rs = Inr u \<longleftrightarrow> (\<forall>(key, label) \<in> set rs. is_text is_sha256_text (js_opt (js_opt artifacts key) ''sha256''))"
  by (induction rs) (auto simp: res_simps)

lemma normalizeFee_Inr [res_simps]:
  "runtime_normalizeFeeBps v label = Inr b \<longleftrightarrow> v = Some (JNum (jsint b)) \<and> 0 \<le> b \<and> b \<le> MAX_SAFE_INTEGER"
  by (auto simp: runtime_normalizeFeeBps_def not_less elim!: is_safe_integerE split: option.splits json.splits if_splits)

lemma update_same: "map_of kvs k = Some v \<Longrightarrow> AList.update k v kvs = kvs"
  by (induction kvs) (auto split: if_splits)

subsection \<open>Texts that hide no path\<close>

lemma js_includes_iff: "js_includes p s \<longleftrightarrow> (\<exists>a b. s = a @ p @ b)"
proof (induction s)
  case (Cons c s)
  have "starts_with p (c # s) \<longleftrightarrow> (\<exists>b. c # s = p @ b)"
    unfolding starts_with_def by (metis append_eq_conv_conj append_take_drop_id)
  moreover have "(\<exists>a b. c # s = a @ p @ b) \<longleftrightarrow> (\<exists>b. c # s = p @ b) \<or> (\<exists>a b. s = a @ p @ b)"
    by (metis append_Cons append_Nil neq_Nil_conv list.inject)
  ultimately show ?case using Cons by simp
qed simp

lemma js_includes_set: "js_includes p s \<Longrightarrow> set p \<subseteq> set s"
  by (auto simp: js_includes_iff)

lemma js_includes_sep: "c \<notin> set p \<Longrightarrow> p \<noteq> [] \<Longrightarrow> js_includes p (a @ c # b) \<longleftrightarrow> js_includes p a \<or> js_includes p b"
proof (induction a)
  case Nil
  then show ?case by (cases p) (auto simp: starts_with_def)
next
  case (Cons d a)
  have "starts_with p (d # a @ c # b) \<longleftrightarrow> starts_with p (d # a)"
  proof (cases "length p \<le> length (d # a)")
    case False
    then have "c \<in> set (take (length p) ((d # a) @ c # b))"
      unfolding take_append by (cases "length p - length (d # a)") auto
    then show ?thesis
      using Cons.prems False unfolding starts_with_def append_Cons [symmetric] by (metis nat_le_linear take_all)
  qed (simp add: starts_with_def del: append_Cons flip: append_Cons)
  with Cons show ?case by simp
qed

lemma js_includes_join:
  "CHR '','' \<notin> set p \<Longrightarrow> p \<noteq> [] \<Longrightarrow> js_includes p (join_comma ts) \<longleftrightarrow> (\<exists>t \<in> set ts. js_includes p t)"
proof (cases ts)
  case (Cons t us)
  assume p: "CHR '','' \<notin> set p" "p \<noteq> []"
  have "js_includes p (t @ concat (map (\<lambda>u. '','' @ u) us)) \<longleftrightarrow> js_includes p t \<or> (\<exists>u \<in> set us. js_includes p u)" for t
  proof (induction us arbitrary: t)
    case (Cons u us)
    have "js_includes p (t @ CHR '','' # (u @ concat (map (\<lambda>u. '','' @ u) us))) \<longleftrightarrow>
        js_includes p t \<or> js_includes p (u @ concat (map (\<lambda>u. '','' @ u) us))"
      by (rule js_includes_sep [OF p])
    with Cons.IH [of u] show ?case by simp
  qed simp
  then show ?thesis unfolding Cons join_comma_def by (simp only: list.case list.set bex_simps)
qed (simp add: join_comma_def)

lemma stringify_printable: "\<exists>t. stringify (printable v) = Some t"
proof (induction v rule: printable.induct)
  case (2 vs)
  then show ?case by (auto simp: all_some_def) (metis option.distinct(1))
next
  case (3 kvs)
  then show ?case by (auto simp: all_some_def) (metis option.distinct(1))
qed auto

lemma searched_object:
  "searched_text (JObj kvs) = ''{'' @ join_comma (map (\<lambda>kv. json_string (fst kv) @ '':'' @ searched_text (snd kv)) kvs) @ ''}''"
proof -
  have "stringify (printable v) = Some (searched_text v)" for v
    using stringify_printable [of v] by (auto simp: searched_text_def)
  then have "all_some (map (\<lambda>kv. map_option (\<lambda>t. json_string (fst kv) @ '':'' @ t) (stringify (snd kv)))
      (map (\<lambda>kv. (fst kv, printable (snd kv))) kvs)) =
    Some (map (\<lambda>kv. json_string (fst kv) @ '':'' @ searched_text (snd kv)) kvs)"
    by (auto simp: all_some_def comp_def)
  then show ?thesis by (simp add: searched_text_def)
qed

lemma searched_includes:
  assumes "set p \<inter> set ''{},:'' = {}" "p \<noteq> []"
  shows "js_includes p (searched_text (JObj kvs)) \<longleftrightarrow>
    (\<exists>kv \<in> set kvs. js_includes p (json_string (fst kv)) \<or> js_includes p (searched_text (snd kv)))"
proof -
  have sep: "CHR '','' \<notin> set p" "CHR ''{'' \<notin> set p" "CHR ''}'' \<notin> set p" "CHR '':'' \<notin> set p"
    using assms(1) by auto
  have "js_includes p (''{'' @ t @ ''}'') \<longleftrightarrow> js_includes p t" for t
    using js_includes_sep [OF sep(2) assms(2), of "[]" "t @ ''}''"] js_includes_sep [OF sep(3) assms(2), of t "[]"] assms(2) by simp
  then show ?thesis
    unfolding searched_object using js_includes_sep [OF sep(4) assms(2)] by (simp add: js_includes_join [OF sep(1) assms(2)])
qed

lemma number_hides_path:
  assumes "0 \<le> b" "b \<le> MAX_SAFE_INTEGER"
  shows "\<not> js_includes ''docs/evidence/'' (searched_text (JNum (jsint b)))"
proof -
  have "searched_text (JNum (jsint b)) = dec_string b"
    using assms by (simp add: searched_text_def MAX_SAFE_INTEGER_def)
  moreover have "list_all is_digit (dec_string b)" using assms by (simp add: dec_string_def)
  moreover have "\<not> is_digit (CHR ''d'')" by (simp add: is_digit_def code_def)
  ultimately show ?thesis using js_includes_set [of "''docs/evidence/''" "dec_string b"] by (auto simp: list_all_iff)
qed

lemma update_hides_path:
  assumes "\<not> js_includes ''docs/evidence/'' (searched_text (without_readiness (JObj kvs)))" "0 \<le> b" "b \<le> MAX_SAFE_INTEGER"
  shows "\<not> js_includes ''docs/evidence/'' (searched_text (without_readiness (set_fee (JObj kvs) b)))"
proof -
  let ?p = "''docs/evidence/''"
  have p: "set ?p \<inter> set ''{},:'' = {}" "?p \<noteq> []" by simp_all
  have "\<not> js_includes ?p (json_string ''withdrawalFeeBps'')" by code_simp
  moreover have "\<not> js_includes ?p (searched_text (JNum (jsint b)))"
    by (rule number_hides_path [OF assms(2,3)])
  moreover have "set (AList.delete ''v1_2Readiness'' (AList.update ''withdrawalFeeBps'' (JNum (jsint b)) kvs)) \<subseteq>
      insert (''withdrawalFeeBps'', JNum (jsint b)) (set (AList.delete ''v1_2Readiness'' kvs))"
  proof -
    have "set (AList.update k v al) \<subseteq> insert (k, v) (set al)" for k v and al :: "(string \<times> json) list"
      by (induction al) auto
    then show ?thesis unfolding AList.delete_eq by (fastforce split: if_splits)
  qed
  ultimately show ?thesis
    using assms(1) unfolding without_readiness_def set_fee_def json.case searched_includes [OF p] by fastforce
qed

lemma asserted:
  assumes "assertRuntime date_ok v = Inr r"
  obtains kvs fs where "v = JObj kvs" "r = set_fee v (fs_activeFeeBps fs)"
    "is_the_text CURRENT_SCHEMA (js_opt (Some v) ''schema'') \<or> is_the_text CANDIDATE_SCHEMA (js_opt (Some v) ''schema'')"
    "assertV12ReadinessEvidenceIsPackagePinned v = Inr ()" "first_throw (network_checks v) = Inr ()"
    "first_throw (contract_checks v) = Inr ()"
    "is_text is_sha256_text (js_opt (js_opt (Some v) ''proverManifest'') ''sha256'')"
    "is_text is_sha256_text (js_opt (js_opt (Some v) ''trustedSetupRecord'') ''sha256'')"
    "hash_checks (js_opt (Some v) ''artifacts'') (required_artifacts v) = Inr ()"
    "\<not> js_includes ''docs/evidence/'' (searched_text (without_readiness v))"
    "resolveRuntimeWithdrawalFeeState date_ok v = Inr fs"
proof -
  have "\<exists>kvs. v = JObj kvs"
    using assms by (auto simp: assertRuntime_def res_simps is_the_text_def dest: js_opt_object)
  with assms show thesis
    by (auto simp: assertRuntime_def res_simps split: if_splits intro: that)
qed

definition same_but_fee :: "json \<Rightarrow> json \<Rightarrow> bool" where
  "same_but_fee r v \<longleftrightarrow> (\<forall>k. k \<noteq> ''withdrawalFeeBps'' \<longrightarrow> js_opt (Some r) k = js_opt (Some v) k)"

lemma same_but_fee_checks:
  assumes "same_but_fee r v"
  shows "assertV12ReadinessEvidenceIsPackagePinned r = assertV12ReadinessEvidenceIsPackagePinned v"
    "hasVerifiedV12PromotionEvidence r = hasVerifiedV12PromotionEvidence v"
    "network_checks r = network_checks v" "contract_checks r = contract_checks v" "required_artifacts r = required_artifacts v"
proof -
  have eq: "js_opt (Some r) k = js_opt (Some v) k" if "k \<noteq> ''withdrawalFeeBps''" for k
    using assms that unfolding same_but_fee_def by blast
  show verified: "hasVerifiedV12PromotionEvidence r = hasVerifiedV12PromotionEvidence v"
    by (simp add: hasVerifiedV12PromotionEvidence_def eq)
  show "assertV12ReadinessEvidenceIsPackagePinned r = assertV12ReadinessEvidenceIsPackagePinned v"
    unfolding assertV12ReadinessEvidenceIsPackagePinned_def verified by (simp add: eq)
  show "network_checks r = network_checks v" "contract_checks r = contract_checks v" "required_artifacts r = required_artifacts v"
    by (simp_all add: network_checks_def contract_checks_def required_artifacts_def runtimePublicInputOrderMatches_def Let_def eq
        cong: if_cong)
qed

lemma resolved_bounds:
  assumes "resolveRuntimeWithdrawalFeeState date_ok v = Inr fs"
  shows "0 \<le> fs_activeFeeBps fs" "fs_activeFeeBps fs \<le> MAX_SAFE_INTEGER" "fs_activeFeeBps fs \<le> fs_maxFeeBps fs"
    "js_truthy (js_opt (Some v) ''feePolicy'') \<Longrightarrow> fs_maxFeeBps fs = 100 \<and>
       js_opt (js_opt (Some v) ''feePolicy'') ''activeFeeBps'' = Some (JNum (jsint (fs_activeFeeBps fs))) \<and>
       pred_option (\<lambda>p. 0 \<le> p \<and> p \<le> 100) (fs_pendingFeeBps fs)"
  using assms
  by (auto simp: resolveRuntimeWithdrawalFeeState_def Let_def res_simps NULLARK_V1_2_MAX_WITHDRAWAL_FEE_BPS_def
      split: if_splits option.splits)

lemma resolved_again:
  assumes "resolveRuntimeWithdrawalFeeState date_ok v = Inr fs" "same_but_fee r v"
    "js_opt (Some r) ''withdrawalFeeBps'' = Some (JNum (jsint (fs_activeFeeBps fs)))"
  shows "resolveRuntimeWithdrawalFeeState date_ok r = Inr fs"
proof -
  have eq: "js_opt (Some r) k = js_opt (Some v) k" if "k \<noteq> ''withdrawalFeeBps''" for k
    using assms that unfolding same_but_fee_def by blast
  show ?thesis
  proof (cases "js_truthy (js_opt (Some v) ''feePolicy'')")
    case False
    with assms(1,3) show ?thesis
      by (auto simp: resolveRuntimeWithdrawalFeeState_def eq res_simps)
  next
    case True
    have fields: "js_opt (Some r) ''feePolicy'' = js_opt (Some v) ''feePolicy''"
      "js_opt (Some r) ''maxWithdrawalFeeBps'' = js_opt (Some v) ''maxWithdrawalFeeBps''"
      by (simp_all add: eq)
    have "resolveRuntimeWithdrawalFeeState date_ok r = resolveRuntimeWithdrawalFeeState date_ok v"
      unfolding resolveRuntimeWithdrawalFeeState_def fields Let_def using True by simp
    with assms(1) show ?thesis by simp
  qed
qed

text \<open>What the rest of the SDK may rely on in a runtime.\<close>

definition runtime_ok :: "json \<Rightarrow> bool" where
  "runtime_ok r \<longleftrightarrow>
     (let f = js_opt (Some r) in
      (is_the_text CURRENT_SCHEMA (f ''schema'') \<or> is_the_text CANDIDATE_SCHEMA (f ''schema'')) \<and>
      ((f ''environment'', f ''chainId'', f ''rpcUrl'') \<in>
         {(Some (JStr ''megaeth-mainnet''), Some (JNum (jsint 4326)), Some (JStr MAINNET_RPC)),
          (Some (JStr ''megaeth-testnet-nullark''), Some (JNum (jsint 6343)), Some (JStr ''https://carrot.megaeth.com/rpc''))}) \<and>
      (\<forall>k \<in> {''pool'', ''withdrawVerifier'', ''verifierAdapter''}. is_text isEvmAddress (f k)) \<and>
      is_text isEvmAddress (f ''privateTransferVerifier'') \<and>
      f ''withdrawSelector'' = Some (JStr STAGE_C_SELECTOR) \<and>
      (\<exists>d. f ''merkleTreeDepth'' = Some (JNum (jsint d)) \<and> 0 < d \<and> d \<le> MAX_SAFE_INTEGER) \<and>
      (\<exists>names. f ''groth16PublicInputOrder'' = Some (JArr (map JStr names)) \<and>
         length names = (if is_the_text CANDIDATE_SCHEMA (f ''schema'') then 10 else 12)) \<and>
      (\<forall>k \<in> {''proverManifest'', ''trustedSetupRecord''}. is_text is_sha256_text (js_opt (f k) ''sha256'')) \<and>
      (\<forall>k \<in> {''withdrawWasm'', ''withdrawFinalZkey''}. is_text is_sha256_text (artifact_hash r k)) \<and>
      (\<exists>b. f ''withdrawalFeeBps'' = Some (JNum (jsint b)) \<and> 0 \<le> b \<and> b \<le> MAX_SAFE_INTEGER \<and>
         (js_truthy (f ''feePolicy'') \<longrightarrow> b \<le> 100 \<and> js_opt (f ''feePolicy'') ''activeFeeBps'' = Some (JNum (jsint b)))))"

lemma checked_network:
  assumes "first_throw (network_checks v) = Inr ()"
  shows "(js_opt (Some v) ''environment'', js_opt (Some v) ''chainId'', js_opt (Some v) ''rpcUrl'') \<in>
    {(Some (JStr ''megaeth-mainnet''), Some (JNum (jsint 4326)), Some (JStr MAINNET_RPC)),
     (Some (JStr ''megaeth-testnet-nullark''), Some (JNum (jsint 6343)), Some (JStr ''https://carrot.megaeth.com/rpc''))}"
  using assms
  by (auto simp: network_checks_def Let_def is_the_text_def is_the_number_def split: if_splits)

lemma zero_verifier_address: "isEvmAddress ZERO_VERIFIER"
  by code_simp

lemma withdraw_order_lengths: "length NULLARK_WITHDRAW_PUBLIC_INPUT_ORDER_V1_1 = 12" "length NULLARK_WITHDRAW_PUBLIC_INPUT_ORDER_V1_2 = 10"
  by (simp_all add: NULLARK_WITHDRAW_PUBLIC_INPUT_ORDER_V1_1_def NULLARK_WITHDRAW_PUBLIC_INPUT_ORDER_V1_2_def)

lemma checked_contracts:
  assumes "first_throw (contract_checks v) = Inr ()"
  shows "is_text isEvmAddress (js_opt (Some v) ''pool'')" "is_text isEvmAddress (js_opt (Some v) ''withdrawVerifier'')"
    "is_text isEvmAddress (js_opt (Some v) ''verifierAdapter'')" "is_text isEvmAddress (js_opt (Some v) ''privateTransferVerifier'')"
    "js_opt (Some v) ''withdrawSelector'' = Some (JStr STAGE_C_SELECTOR)"
    "\<exists>d. js_opt (Some v) ''merkleTreeDepth'' = Some (JNum (jsint d)) \<and> 0 < d \<and> d \<le> MAX_SAFE_INTEGER"
    "\<exists>names. js_opt (Some v) ''groth16PublicInputOrder'' = Some (JArr (map JStr names)) \<and>
       length names = (if is_the_text CANDIDATE_SCHEMA (js_opt (Some v) ''schema'') then 10 else 12)"
proof -
  have checks: "is_text isEvmAddress (js_opt (Some v) ''pool'')" "is_text isEvmAddress (js_opt (Some v) ''withdrawVerifier'')"
    "is_text isEvmAddress (js_opt (Some v) ''verifierAdapter'')"
    "is_text (\<lambda>s. isEvmAddress s \<or> s = ZERO_VERIFIER) (js_opt (Some v) ''privateTransferVerifier'')"
    "js_opt (Some v) ''withdrawSelector'' = Some (JStr STAGE_C_SELECTOR)"
    and depth: "case js_opt (Some v) ''merkleTreeDepth'' of Some (JNum n) \<Rightarrow> is_safe_integer n \<and> \<not> num_le n (jsint 0) | _ \<Rightarrow> False"
    and order: "runtimePublicInputOrderMatches v"
    using assms unfolding first_throw_Inr contract_checks_def Let_def by (simp_all add: is_the_text_def)
  show "is_text isEvmAddress (js_opt (Some v) ''pool'')" "is_text isEvmAddress (js_opt (Some v) ''withdrawVerifier'')"
    "is_text isEvmAddress (js_opt (Some v) ''verifierAdapter'')" "js_opt (Some v) ''withdrawSelector'' = Some (JStr STAGE_C_SELECTOR)"
    using checks by blast+
  show "is_text isEvmAddress (js_opt (Some v) ''privateTransferVerifier'')"
    using checks(4) zero_verifier_address by (auto simp: is_text_def split: option.splits json.splits)
  show "\<exists>d. js_opt (Some v) ''merkleTreeDepth'' = Some (JNum (jsint d)) \<and> 0 < d \<and> d \<le> MAX_SAFE_INTEGER"
    using depth by (auto elim!: is_safe_integerE simp del: of_int_0 split: option.splits json.splits)
  show "\<exists>names. js_opt (Some v) ''groth16PublicInputOrder'' = Some (JArr (map JStr names)) \<and>
       length names = (if is_the_text CANDIDATE_SCHEMA (js_opt (Some v) ''schema'') then 10 else 12)"
    using order
    by (intro exI [of _ "if is_the_text CANDIDATE_SCHEMA (js_opt (Some v) ''schema'')
          then NULLARK_WITHDRAW_PUBLIC_INPUT_ORDER_V1_2 else NULLARK_WITHDRAW_PUBLIC_INPUT_ORDER_V1_1"])
      (auto simp: runtimePublicInputOrderMatches_def withdraw_order_lengths split: option.splits json.splits)
qed

lemma checked_artifacts:
  assumes "hash_checks (js_opt (Some v) ''artifacts'') (required_artifacts v) = Inr ()"
  shows "is_text is_sha256_text (artifact_hash v ''withdrawWasm'')" "is_text is_sha256_text (artifact_hash v ''withdrawFinalZkey'')"
  using assms unfolding hash_checks_Inr artifact_hash_def by (auto simp: required_artifacts_def Let_def)

lemma asserted_ok:
  assumes "assertRuntime date_ok v = Inr r"
  shows "runtime_ok r \<and> assertRuntime date_ok r = Inr r \<and> same_but_fee r v"
proof (rule asserted [OF assms], goal_cases)
  case (1 kvs fs)
  have field: "js_opt (Some r) k = (if k = ''withdrawalFeeBps'' then Some (JNum (jsint (fs_activeFeeBps fs))) else js_opt (Some v) k)" for k
    unfolding 1(2) 1(1) by (rule js_opt_set_fee)
  then have same: "same_but_fee r v" by (simp add: same_but_fee_def)
  note bounds = resolved_bounds [OF 1(11)]
  have policy: "js_truthy (js_opt (Some v) ''feePolicy'') \<longrightarrow> fs_activeFeeBps fs \<le> 100 \<and>
      js_opt (js_opt (Some v) ''feePolicy'') ''activeFeeBps'' = Some (JNum (jsint (fs_activeFeeBps fs)))"
    using bounds(3,4) by auto
  have "runtime_ok r"
    unfolding runtime_ok_def artifact_hash_def Let_def field
    using 1(3,7,8) checked_network [OF 1(5)] checked_contracts [OF 1(6)] checked_artifacts [OF 1(9), unfolded artifact_hash_def] bounds(1,2) policy
    by simp
  moreover have "assertRuntime date_ok r = Inr r"
  proof -
    have "set_fee r (fs_activeFeeBps fs) = r"
      unfolding 1(2) unfolding 1(1) set_fee_def json.case by (rule arg_cong [OF update_same]) (simp add: update_conv)
    moreover have "\<not> js_includes ''docs/evidence/'' (searched_text (without_readiness r))"
      unfolding 1(2) unfolding 1(1) by (rule update_hides_path) (use 1(1,10) bounds in simp_all)
    moreover have "resolveRuntimeWithdrawalFeeState date_ok r = Inr fs"
      by (rule resolved_again [OF 1(11) same]) (simp add: field)
    moreover have "Some r \<noteq> Some JNull" using 1(1,2) by (simp add: set_fee_def)
    ultimately show ?thesis
      using 1(3-9) same_but_fee_checks [OF same] by (simp add: assertRuntime_def res_simps field)
  qed
  ultimately show ?case using same by blast
qed

text \<open>
  C32: A checked runtime is well formed and checking is stable. Whatever JSON value passes the check,
  the returned runtime names one of the two networks with its own chain and RPC, has contract
  addresses, the withdrawal selector, a positive tree depth, the public input order of its version,
  artifact hashes, and as fee the active fee of its policy, then at most 100 basis points; every
  other field is the one given, and checking the result again returns it unchanged.
\<close>

theorem asserted_runtime_well_formed:
  assumes "assertRuntime date_ok v = Inr r"
  shows "runtime_ok r \<and> assertRuntime date_ok r = Inr r \<and>
    (\<forall>k. k \<noteq> ''withdrawalFeeBps'' \<longrightarrow> js_opt (Some r) k = js_opt (Some v) k)"
  using asserted_ok [OF assms] unfolding same_but_fee_def by blast

section \<open>The release state is guarded\<close>

definition evidence_pinned :: "json \<Rightarrow> bool" where
  "evidence_pinned runtime \<longleftrightarrow>
     (\<exists>evidence. js_opt (js_opt (Some runtime) ''v1_2Readiness'') ''promotionEvidence'' = Some (JArr evidence) \<and>
        (\<forall>(path, hash) \<in> set PACKAGE_PINNED_V12_PROMOTION_EVIDENCE. \<exists>e \<in> set evidence.
           js_opt (Some e) ''status'' = Some (JStr ''approved-for-mainnet'') \<and> js_opt (Some e) ''path'' = Some (JStr path) \<and>
           js_opt (Some e) ''sha256'' \<in> {Some (JStr hash), Some (JStr (''sha256:'' @ hash))}))"

lemma normalized_evidence_hash:
  "normalizePromotionEvidenceSha256 v = Some h \<Longrightarrow> v \<in> {Some (JStr h), Some (JStr (''sha256:'' @ h))}"
proof -
  assume h: "normalizePromotionEvidenceSha256 v = Some h"
  have "t = ''sha256:'' @ drop 7 t" if "starts_with ''sha256:'' t" for t
  proof -
    have "take 7 t = ''sha256:''" using that by (simp add: starts_with_def eval_nat_numeral)
    then show ?thesis using append_take_drop_id [of 7 t] by metis
  qed
  with h show ?thesis
    by (auto simp: normalizePromotionEvidenceSha256_def Let_def split: option.splits json.splits if_splits)
qed

lemma some_evidence_found:
  "some_evidence es (path, hash) = Inr True \<Longrightarrow> \<exists>e \<in> set es. js_opt (Some e) ''status'' = Some (JStr ''approved-for-mainnet'') \<and>
     js_opt (Some e) ''path'' = Some (JStr path) \<and> js_opt (Some e) ''sha256'' \<in> {Some (JStr hash), Some (JStr (''sha256:'' @ hash))}"
proof (induction es)
  case (Cons e es)
  then show ?case
    by (auto simp: isPackagePinnedV12PromotionEvidence_def res_simps is_the_text_def dest!: normalized_evidence_hash
        split: if_splits option.splits)
qed simp

lemma every_pinned_found:
  "every_pinned es pinned = Inr True \<Longrightarrow> p \<in> set pinned \<Longrightarrow> some_evidence es p = Inr True"
  by (induction pinned) (auto simp: res_simps split: if_splits)

lemma verified_pinned: "hasVerifiedV12PromotionEvidence v = Inr True \<Longrightarrow> evidence_pinned v"
proof -
  assume v: "hasVerifiedV12PromotionEvidence v = Inr True"
  then obtain es where es: "js_opt (js_opt (Some v) ''v1_2Readiness'') ''promotionEvidence'' = Some (JArr es)"
    "every_pinned es PACKAGE_PINNED_V12_PROMOTION_EVIDENCE = Inr True"
    by (auto simp: hasVerifiedV12PromotionEvidence_def Let_def split: if_splits option.splits json.splits)
  show ?thesis
    unfolding evidence_pinned_def using es(1) some_evidence_found [OF every_pinned_found [OF es(2)]] by blast
qed

lemma candidate_address_Inr [res_simps]:
  "assertV12CandidateAddress v label = Inr a \<longleftrightarrow> v = Some (JStr a) \<and> isEvmAddress a \<and> \<not> isObviousPlaceholderAddress a"
  by (auto simp: assertV12CandidateAddress_def split: option.splits json.splits)

lemma state_facts:
  assumes "assertRuntimeState date_ok state = Inr st"
  shows "\<exists>verified. (\<exists>v. assertRuntime date_ok v = Inr (rs_v1_1 st)) \<and> (\<exists>v. assertRuntime date_ok v = Inr (rs_v1_2 st)) \<and>
    to_lower (text_of (rs_v1_2 st) ''pool'') \<noteq> to_lower (text_of (rs_v1_1 st) ''pool'') \<and>
    assertV12CandidatePublication date_ok state (rs_v1_1 st) (rs_v1_2 st) = Inr () \<and>
    hasVerifiedV12PromotionEvidence (rs_v1_2 st) = Inr verified \<and>
    (rs_currentRuntime st = ''v1_2'' \<or> rs_defaultDepositRuntime st = ''v1_2'' \<longrightarrow> verified) \<and>
    vs_ready (rs_v1_2Status st) = verified \<and>
    (rs_mainnet4326Blocked st \<longleftrightarrow> js_opt (Some state) ''mainnet4326Blocked'' \<noteq> Some (JBool False))"
proof -
  have chosen: "version_chosen v verified = ''v1_2'' \<Longrightarrow> verified" for v verified
    by (simp add: version_chosen_def split: if_splits)
  have ready: "vs_ready (v12RuntimeStatus verified) = verified" for verified
    by (simp add: v12RuntimeStatus_def)
  show ?thesis
    using assms unfolding assertRuntimeState_def Let_def
    by (elim bind_resE resultE) (auto simp: ready res_simps dest: chosen split: option.splits)
qed

text \<open>
  C33: A release state never makes version 1.2 current, or the default for deposits, or calls it
  ready, without the two pieces of promotion evidence the package pins; until then mainnet stays
  blocked and no artifact of version 1.1 is reused. In every accepted state the two versions have
  different pools, version 1.2 is on mainnet with a fee controller that is no contract of version
  1.1, and its fee is at most one percent with a pending fee, if any, above it and dated.
\<close>

theorem runtime_state_guarded:
  assumes "assertRuntimeState date_ok state = Inr st"
  shows "runtime_ok (rs_v1_1 st) \<and> runtime_ok (rs_v1_2 st) \<and>
    (rs_currentRuntime st = ''v1_2'' \<or> rs_defaultDepositRuntime st = ''v1_2'' \<or> vs_ready (rs_v1_2Status st) \<longrightarrow>
       evidence_pinned (rs_v1_2 st)) \<and>
    (\<not> vs_ready (rs_v1_2Status st) \<longrightarrow> rs_mainnet4326Blocked st \<and> \<not> reusesV11ArtifactHashes (rs_v1_1 st) (rs_v1_2 st)) \<and>
    to_lower (text_of (rs_v1_2 st) ''pool'') \<noteq> to_lower (text_of (rs_v1_1 st) ''pool'') \<and>
    js_opt (Some (rs_v1_2 st)) ''environment'' = Some (JStr ''megaeth-mainnet'') \<and>
    (\<exists>c. js_opt (Some (rs_v1_2 st)) ''feeController'' = Some (JStr c) \<and> isEvmAddress c \<and>
       (\<forall>k \<in> {''pool'', ''withdrawVerifier'', ''verifierAdapter''}. to_lower c \<noteq> to_lower (text_of (rs_v1_1 st) k))) \<and>
    (\<exists>fs. resolveRuntimeWithdrawalFeeState date_ok (rs_v1_2 st) = Inr fs \<and> 0 \<le> fs_activeFeeBps fs \<and> fs_activeFeeBps fs \<le> 100 \<and>
       (\<forall>p. fs_pendingFeeBps fs = Some p \<longrightarrow> fs_activeFeeBps fs < p \<and> p \<le> 100 \<and> fs_pendingFeeActivationTime fs \<noteq> None))"
proof -
  from assms obtain verified where
      r1: "\<exists>v. assertRuntime date_ok v = Inr (rs_v1_1 st)" and r2: "\<exists>v. assertRuntime date_ok v = Inr (rs_v1_2 st)"
    and pools: "to_lower (text_of (rs_v1_2 st) ''pool'') \<noteq> to_lower (text_of (rs_v1_1 st) ''pool'')"
    and pub: "assertV12CandidatePublication date_ok state (rs_v1_1 st) (rs_v1_2 st) = Inr ()"
    and verified: "hasVerifiedV12PromotionEvidence (rs_v1_2 st) = Inr verified"
    and chosen: "rs_currentRuntime st = ''v1_2'' \<or> rs_defaultDepositRuntime st = ''v1_2'' \<longrightarrow> verified"
    and status: "vs_ready (rs_v1_2Status st) = verified"
    and blocked: "rs_mainnet4326Blocked st \<longleftrightarrow> js_opt (Some state) ''mainnet4326Blocked'' \<noteq> Some (JBool False)"
    using state_facts by blast
  from pub verified obtain c fs where c: "js_opt (Some (rs_v1_2 st)) ''feeController'' = Some (JStr c)" "isEvmAddress c"
      "\<forall>k \<in> {''pool'', ''withdrawVerifier'', ''verifierAdapter''}. to_lower c \<noteq> to_lower (text_of (rs_v1_1 st) k)"
    and mainnet: "js_opt (Some (rs_v1_2 st)) ''environment'' = Some (JStr ''megaeth-mainnet'')"
    and held: "\<not> verified \<longrightarrow> is_true (js_opt (Some state) ''mainnet4326Blocked'') \<and> \<not> reusesV11ArtifactHashes (rs_v1_1 st) (rs_v1_2 st)"
    and policy: "js_truthy (js_opt (js_opt (Some (rs_v1_2 st)) ''feePolicy'') ''pendingFeeState'')"
    and fs: "resolveRuntimeWithdrawalFeeState date_ok (rs_v1_2 st) = Inr fs"
      "(fs_pendingFeeBps fs = None) = (fs_pendingFeeActivationTime fs = None)"
      "pred_option (\<lambda>p. p > fs_activeFeeBps fs) (fs_pendingFeeBps fs)"
    by (auto simp: assertV12CandidatePublication_def candidate_addresses_def Let_def res_simps is_the_text_def split: if_splits)
  have "js_truthy (js_opt (Some (rs_v1_2 st)) ''feePolicy'')"
    using policy by (auto simp: js_truthy_def json_field_def js_opt_def split: option.splits json.splits)
  from resolved_bounds(4) [OF fs(1) this] resolved_bounds(1-3) [OF fs(1)]
  have "0 \<le> fs_activeFeeBps fs" "fs_activeFeeBps fs \<le> 100"
    "\<forall>p. fs_pendingFeeBps fs = Some p \<longrightarrow> fs_activeFeeBps fs < p \<and> p \<le> 100 \<and> fs_pendingFeeActivationTime fs \<noteq> None"
    using fs(2,3) by auto
  moreover have "runtime_ok (rs_v1_1 st)" "runtime_ok (rs_v1_2 st)"
    using r1 r2 asserted_ok by blast+
  moreover have "verified \<Longrightarrow> evidence_pinned (rs_v1_2 st)"
    using verified verified_pinned by simp
  moreover have "\<not> verified \<Longrightarrow> rs_mainnet4326Blocked st"
    using held by (simp add: blocked is_true_def)
  ultimately show ?thesis
    using chosen status held pools mainnet c fs(1) by blast
qed

end
