(* ===== verification/Sdk_Deposit.thy ===== *)
theory Sdk_Deposit
  imports Sdk_Witness Sdk_Runtime
begin

text \<open>
  Preparing a deposit, \<^verbatim>\<open>packages/sdk/src/deposit/prepare.ts\<close>: a note with random field elements, its
  commitment, its ciphertext for the depositor's own wallet, the statement the deposit proof is for
  and the transaction.

  viem's hashes are the record \<open>viem\<close>, the encoder of the call is \<open>encode\<close>; WebCrypto is \<open>note_crypto\<close>
  and the nonce of its cipher is given. The random source is a function of the number of calls made.
\<close>

section \<open>Values\<close>

definition NULLARK_NATIVE_ETH_ASSET_ID :: string where
  "NULLARK_NATIVE_ETH_ASSET_ID = ''0x'' @ replicate 63 (CHR ''0'') @ ''1''"

record deposit_packet =
  dp_proof :: string
  dp_publicInputs :: "string list"

record deposit_binding =
  db_commitment :: string
  db_amountWei :: string
  db_chainId :: jsnum
  db_pool :: string
  db_encryptedNote :: string
  db_depositContextHash :: string
  db_encryptedDepositNoteHash :: string
  db_publicInputs :: "string list"

datatype deposit_proof = GivenPacket deposit_packet | ProofCallback "deposit_binding \<Rightarrow> string + deposit_packet"

record deposit_transaction =
  dt_chainId :: jsnum
  dt_to :: string
  dt_value :: int
  dt_data :: string

record prepared_deposit =
  pd_commitment :: string
  pd_encryptedNote :: string
  pd_spendMaterial :: spend_material
  pd_transaction :: deposit_transaction
  pd_encryptedNotePresent :: bool

definition deposit_encodeUint256 :: "int \<Rightarrow> string + string" where
  "deposit_encodeUint256 v = (if v < 0 \<or> v \<ge> 2 ^ 256 then Inl ''Expected uint256 value.'' else Inr (toBytes32 v))"

definition deposit_encodeAddress :: "string \<Rightarrow> string + string" where
  "deposit_encodeAddress v =
     (if \<not> isEvmAddress v then Inl ''Expected deposit proof verifying contract address.''
      else Inr (''0x'' @ pad_start 64 (CHR ''0'') (to_lower (drop 2 v))))"

definition bytes32ToEvmAddress :: "string \<Rightarrow> string" where
  "bytes32ToEvmAddress v = ''0x'' @ to_lower (drop (length v - 40) v)"

definition deposit_bytesToHex :: "8 word list \<Rightarrow> string + string" where
  "deposit_bytesToHex bytes =
     (let v = ''0x'' @ concat (map (\<lambda>b. byte_text (unat b)) bytes) in
      if \<not> isHexString v then Inl ''Expected generated bytes to be hex.'' else Inr v)"

text \<open>At most 128 draws; the result comes with the number of calls made so far.\<close>

fun randomField :: "nat \<Rightarrow> (nat \<Rightarrow> 8 word list) \<Rightarrow> nat \<Rightarrow> string + string \<times> nat" where
  "randomField 0 random calls = Inl ''Unable to sample a BN254 field element.''"
| "randomField (Suc attempts) random calls =
     (if length (random calls) \<noteq> 32 then Inl ''Expected randomBytes(32) to return 32 bytes.''
      else bind_res (deposit_bytesToHex (random calls)) (\<lambda>hex.
        if 0 < hex_value hex \<and> hex_value hex < BN254_SCALAR_FIELD then Inr (hex, Suc calls)
        else randomField attempts random (Suc calls)))"

section \<open>The statement of the proof\<close>

definition deposit_hashAbiEncodedToField :: "viem \<Rightarrow> string \<Rightarrow> string + string" where
  "deposit_hashAbiEncodedToField V encoded =
     bind_res (bigint_result (keccak V encoded)) (\<lambda>k. deposit_encodeUint256 (k mod BN254_SCALAR_FIELD))"

definition hashEncryptedDepositNote :: "viem \<Rightarrow> jsnum \<Rightarrow> string \<Rightarrow> string \<Rightarrow> string \<Rightarrow> string + string" where
  "hashEncryptedDepositNote V chainId pool commitment encryptedNote =
     bind_res (sdk_encode_abi V
       [AbiBytes32 (hashDomainSeparator V ''nullark.v1.2.encrypted-deposit-note''), AbiUint 1, AbiUint (num_int chainId),
        AbiAddress pool, AbiBytes32 commitment, AbiBytes encryptedNote])
       (deposit_hashAbiEncodedToField V)"

definition hashDepositContext :: "viem \<Rightarrow> jsnum \<Rightarrow> string \<Rightarrow> string \<Rightarrow> int \<Rightarrow> string \<Rightarrow> string + string" where
  "hashDepositContext V chainId pool commitment amount encryptedDepositNoteHash =
     bind_res (sdk_encode_abi V
       [AbiBytes32 (hashDomainSeparator V ''nullark.v1.2.deposit-context''), AbiUint 1, AbiUint (num_int chainId),
        AbiAddress pool, AbiBytes32 commitment, AbiUint amount, AbiBytes32 encryptedDepositNoteHash])
       (deposit_hashAbiEncodedToField V)"

definition createDepositProofBinding :: "viem \<Rightarrow> jsnum \<Rightarrow> string \<Rightarrow> string \<Rightarrow> string \<Rightarrow> string \<Rightarrow> string + deposit_binding" where
  "createDepositProofBinding V chainId pool commitment amountWei encryptedNote =
     (let amount = int (radix_val 10 amountWei) in
      bind_res (hashEncryptedDepositNote V chainId pool commitment encryptedNote) (\<lambda>encryptedDepositNoteHash.
      bind_res (hashDepositContext V chainId pool commitment amount encryptedDepositNoteHash) (\<lambda>depositContextHash.
      bind_res (deposit_encodeUint256 amount) (\<lambda>amount_word.
      bind_res (deposit_encodeUint256 (num_int chainId)) (\<lambda>chain_word.
      bind_res (deposit_encodeAddress pool) (\<lambda>pool_word.
        Inr \<lparr>db_commitment = commitment, db_amountWei = amountWei, db_chainId = chainId, db_pool = pool,
             db_encryptedNote = encryptedNote, db_depositContextHash = depositContextHash,
             db_encryptedDepositNoteHash = encryptedDepositNoteHash,
             db_publicInputs = [commitment, amount_word, chain_word, pool_word, depositContextHash,
                                encryptedDepositNoteHash]\<rparr>))))))"

definition assertDepositProofPublicInputs :: "string list \<Rightarrow> string + string list" where
  "assertDepositProofPublicInputs inputs =
     (if length inputs \<noteq> 6 then Inl ''Expected deposit proof publicInputs to contain exactly 6 bytes32 values.''
      else map_res (\<lambda>v. if \<not> isHexBytes32 v then Inl ''Expected every deposit proof public input to be bytes32.''
                        else Inr v) inputs)"

definition assertDepositProofBinding :: "string list \<Rightarrow> deposit_binding \<Rightarrow> string + unit" where
  "assertDepositProofBinding inputs b =
     first_throw
      [(to_lower (inputs ! 0) \<noteq> to_lower (db_commitment b), ''Deposit proof commitment does not match the prepared note.''),
       (hex_value (inputs ! 1) \<noteq> int (radix_val 10 (db_amountWei b)), ''Deposit proof amount does not match the prepared note.''),
       (hex_value (inputs ! 2) \<noteq> num_int (db_chainId b), ''Deposit proof is not bound to the active MegaETH chain.''),
       (to_lower (bytes32ToEvmAddress (inputs ! 3)) \<noteq> to_lower (db_pool b), ''Deposit proof is not bound to this shielded pool.''),
       (to_lower (inputs ! 4) \<noteq> to_lower (db_depositContextHash b),
        ''Deposit proof context hash does not match the prepared note.''),
       (to_lower (inputs ! 5) \<noteq> to_lower (db_encryptedDepositNoteHash b),
        ''Deposit proof encrypted note hash does not match the prepared note.'')]"

definition resolveDepositProof :: "deposit_proof option \<Rightarrow> deposit_binding \<Rightarrow> string + deposit_packet" where
  "resolveDepositProof depositProof b =
     bind_res (case depositProof of
         None \<Rightarrow> Inr \<lparr>dp_proof = ''0x'', dp_publicInputs = db_publicInputs b\<rparr>
       | Some (GivenPacket p) \<Rightarrow> Inr p
       | Some (ProofCallback prove) \<Rightarrow> prove b) (\<lambda>packet.
     if \<not> isHexString (dp_proof packet) then Inl ''Expected deposit proof bytes as even-length hex.''
     else
     bind_res (assertDepositProofPublicInputs (dp_publicInputs packet)) (\<lambda>inputs.
     bind_res (assertDepositProofBinding inputs b) (\<lambda>_.
       Inr \<lparr>dp_proof = dp_proof packet, dp_publicInputs = inputs\<rparr>)))"

section \<open>The deposit\<close>

definition runtime_chainId :: "json \<Rightarrow> jsnum" where
  "runtime_chainId r = (case js_opt (Some r) ''chainId'' of Some (JNum n) \<Rightarrow> n | _ \<Rightarrow> NaN)"

record deposit_input =
  di_walletSignature :: string
  di_amountWei :: string
  di_now :: "string option"
  di_random :: "nat \<Rightarrow> 8 word list"
  di_depositProof :: "deposit_proof option"

definition new_deposit_note :: "(int list \<Rightarrow> int) \<Rightarrow> jsnum \<Rightarrow> string \<Rightarrow> deposit_input \<Rightarrow> string \<Rightarrow> string + spend_material" where
  "new_deposit_note poseidon chainId pool input created =
     bind_res (randomField 128 (di_random input) 0) (\<lambda>(ownerCommitment, calls1).
     bind_res (randomField 128 (di_random input) calls1) (\<lambda>(noteSecret, calls2).
     bind_res (randomField 128 (di_random input) calls2) (\<lambda>(blinding, calls3).
     bind_res (deriveNoteCommitment poseidon NULLARK_NATIVE_ETH_ASSET_ID (di_amountWei input) ownerCommitment noteSecret) (\<lambda>commitment.
       Inr \<lparr>sm_version = ''spend-material-v1'', sm_chainId = chainId, sm_pool = pool, sm_assetId = NULLARK_NATIVE_ETH_ASSET_ID,
            sm_noteAmountWei = di_amountWei input, sm_ownerCommitment = ownerCommitment, sm_noteSecret = noteSecret,
            sm_blinding = blinding, sm_commitment = commitment, sm_createdAt = created\<rparr>))))"

definition encrypt_for_wallet :: "'k note_crypto \<Rightarrow> string \<Rightarrow> string \<Rightarrow> spend_material \<Rightarrow> string + string" where
  "encrypt_for_wallet C nonce walletSignature m =
     bind_res (deriveWalletRecoveryKey C walletSignature (sm_chainId m) (sm_pool m) NULLARK_RECOVERY_APP_ID) (\<lambda>recoveryKey.
     bind_res (getNullarkRecoveryEpochId (sm_chainId m)) (\<lambda>epochId.
     bind_res (deriveNoteKey C recoveryKey (sm_commitment m) epochId) (\<lambda>noteKey.
     bind_res (makeRecoveryAssociatedData (sm_chainId m) (sm_pool m) ADeposit (sm_commitment m)) (\<lambda>aad.
     bind_res (encryptSpendMaterialEnvelope C noteKey nonce m aad) (\<lambda>envelope.
       serializeEncryptedNoteEnvelopeToHex envelope)))))"

definition prepareDepositNote ::
  "'k note_crypto \<Rightarrow> viem \<Rightarrow> (int list \<Rightarrow> int) \<Rightarrow> (string \<Rightarrow> string list \<Rightarrow> string \<Rightarrow> string + string) \<Rightarrow> string \<Rightarrow> string \<Rightarrow> json
     \<Rightarrow> deposit_input \<Rightarrow> string + prepared_deposit" where
  "prepareDepositNote C V poseidon encode nonce clock runtimeInput input =
     bind_res (assertRuntime (nc_dateValid C) runtimeInput) (\<lambda>runtime.
     let chainId = runtime_chainId runtime; pool = text_of runtime ''pool''; created = or_else (di_now input) clock in
     if \<not> hex_of_length 130 (di_walletSignature input) then Inl ''Expected wallet recovery signature bytes.''
     else if di_amountWei input = [] \<or> \<not> list_all is_digit (di_amountWei input) \<or> radix_val 10 (di_amountWei input) = 0
     then Inl ''Expected deposit amount as positive decimal wei.''
     else if created = [] \<or> \<not> nc_dateValid C created then Inl ''Expected deposit creation time.''
     else
     bind_res (new_deposit_note poseidon chainId pool input created) (\<lambda>m.
     bind_res (encrypt_for_wallet C nonce (di_walletSignature input) m) (\<lambda>encryptedNote.
     bind_res (createDepositProofBinding V chainId pool (sm_commitment m) (di_amountWei input) encryptedNote) (\<lambda>b.
     bind_res (resolveDepositProof (di_depositProof input) b) (\<lambda>packet.
     bind_res (encode (dp_proof packet) (dp_publicInputs packet) encryptedNote) (\<lambda>data.
       Inr \<lparr>pd_commitment = sm_commitment m, pd_encryptedNote = encryptedNote, pd_spendMaterial = m,
            pd_transaction = \<lparr>dt_chainId = chainId, dt_to = pool, dt_value = int (radix_val 10 (di_amountWei input)),
                              dt_data = data\<rparr>,
            pd_encryptedNotePresent = (encryptedNote \<noteq> ''0x'')\<rparr>))))))"

section \<open>What a prepared deposit is\<close>

lemma byte_text_shape: "length (byte_text (unat (b :: 8 word))) = 2" "list_all is_hex_char (byte_text (unat b))"
proof -
  have "unat b < 16 ^ 2" using unsigned_less [of b, where 'a = nat] by simp
  from radix_string_length [OF _ this] have "length (radix_string 16 (unat b)) \<le> 2" by simp
  moreover have "is_hex_char (CHR ''0'')" by code_simp
  then have "list_all is_hex_char (replicate n (CHR ''0''))" for n by (simp add: list_all_iff)
  ultimately show "length (byte_text (unat b)) = 2" "list_all is_hex_char (byte_text (unat b))"
    by (simp_all add: byte_text_def pad_start_def hex_string_def)
qed

lemma bytes_word:
  assumes "length bytes = 32"
  shows "isHexBytes32 (CHR ''0'' # CHR ''x'' # concat (map (\<lambda>b. byte_text (unat (b :: 8 word))) bytes))"
proof -
  have "length (concat (map (\<lambda>b. byte_text (unat b)) bytes)) = 2 * length bytes"
    by (induction bytes) (simp_all add: byte_text_shape)
  moreover have "list_all is_hex_char (concat (map (\<lambda>b. byte_text (unat b)) bytes))"
    by (induction bytes) (simp_all add: byte_text_shape)
  ultimately show ?thesis using assms by (simp add: isHexBytes32_def hex_of_length_def starts_with_def)
qed

lemma randomField_Inr:
  "randomField attempts random calls = Inr (h, calls') \<Longrightarrow> isHexBytes32 h \<and> 0 < hex_value h \<and> hex_value h < BN254_SCALAR_FIELD"
proof (induction attempts arbitrary: calls)
  case (Suc attempts)
  from Suc show ?case
    by (auto simp: res_simps deposit_bytesToHex_def Let_def split: if_splits intro: bytes_word)
qed simp

lemma asserted_network:
  assumes "assertRuntime date_ok v = Inr r"
  obtains c where "runtime_chainId r = jsint c" "c \<in> {4326, 6343}" "isEvmAddress (text_of r ''pool'')"
proof -
  have "runtime_ok r" using asserted_ok [OF assms] by blast
  then have "js_opt (Some r) ''chainId'' \<in> {Some (JNum (jsint 4326)), Some (JNum (jsint 6343))}"
    "is_text isEvmAddress (js_opt (Some r) ''pool'')"
    by (auto simp: runtime_ok_def Let_def)
  then show thesis
    using that [of 4326] that [of 6343]
    by (auto simp: runtime_chainId_def text_of_def is_text_def split: option.splits json.splits)
qed

lemma new_deposit_note_Inr:
  assumes "new_deposit_note poseidon chainId pool input created = Inr m"
  shows "sm_chainId m = chainId" "sm_pool m = pool" "sm_noteAmountWei m = di_amountWei input"
    "deriveCommitmentFromSpendMaterial poseidon m = Inr (sm_commitment m)"
    "isBn254FieldElement (sm_ownerCommitment m)" "isBn254FieldElement (sm_noteSecret m)" "isBn254FieldElement (sm_commitment m)"
    "sm_version m = ''spend-material-v1''" "sm_assetId m = NULLARK_NATIVE_ETH_ASSET_ID"
proof -
  obtain oc c1 sec c2 bl c3 cm where r: "randomField 128 (di_random input) 0 = Inr (oc, c1)"
      "randomField 128 (di_random input) c1 = Inr (sec, c2)"
    and cm: "deriveNoteCommitment poseidon NULLARK_NATIVE_ETH_ASSET_ID (di_amountWei input) oc sec = Inr cm"
    and m: "m = \<lparr>sm_version = ''spend-material-v1'', sm_chainId = chainId, sm_pool = pool, sm_assetId = NULLARK_NATIVE_ETH_ASSET_ID,
      sm_noteAmountWei = di_amountWei input, sm_ownerCommitment = oc, sm_noteSecret = sec, sm_blinding = bl,
      sm_commitment = cm, sm_createdAt = created\<rparr>"
    using assms by (auto simp: new_deposit_note_def res_simps)
  show "sm_version m = ''spend-material-v1''" "sm_assetId m = NULLARK_NATIVE_ETH_ASSET_ID"
    "sm_chainId m = chainId" "sm_pool m = pool" "sm_noteAmountWei m = di_amountWei input"
    "deriveCommitmentFromSpendMaterial poseidon m = Inr (sm_commitment m)"
    using cm by (simp_all add: m deriveCommitmentFromSpendMaterial_def)
  show "isBn254FieldElement (sm_ownerCommitment m)" "isBn254FieldElement (sm_noteSecret m)"
    using randomField_Inr [OF r(1)] randomField_Inr [OF r(2)] by (simp_all add: m isBn254FieldElement_def)
  from cm obtain v where "cm = toBytes32 v" "0 < v" "v < BN254_SCALAR_FIELD"
    by (auto simp: deriveNoteCommitment_def normalizeHashOutput_def res_simps not_le)
  moreover from this have "v < 2 ^ 256" by (simp add: BN254_SCALAR_FIELD_def)
  ultimately show "isBn254FieldElement (sm_commitment m)"
    by (simp add: m isBn254FieldElement_def toBytes32_shape)
qed

lemma prepared:
  assumes "prepareDepositNote C V poseidon encode nonce clock runtimeInput input = Inr p"
  obtains runtime c created b packet where "assertRuntime (nc_dateValid C) runtimeInput = Inr runtime"
    "runtime_chainId runtime = jsint c" "c \<in> {4326, 6343}" "isEvmAddress (text_of runtime ''pool'')"
    "new_deposit_note poseidon (jsint c) (text_of runtime ''pool'') input created = Inr (pd_spendMaterial p)"
    "encrypt_for_wallet C nonce (di_walletSignature input) (pd_spendMaterial p) = Inr (pd_encryptedNote p)"
    "createDepositProofBinding V (jsint c) (text_of runtime ''pool'') (pd_commitment p) (di_amountWei input) (pd_encryptedNote p) = Inr b"
    "resolveDepositProof (di_depositProof input) b = Inr packet"
    "encode (dp_proof packet) (dp_publicInputs packet) (pd_encryptedNote p) = Inr (dt_data (pd_transaction p))"
    "pd_commitment p = sm_commitment (pd_spendMaterial p)" "dt_to (pd_transaction p) = text_of runtime ''pool''"
    "dt_value (pd_transaction p) = int (radix_val 10 (di_amountWei input))" "dt_chainId (pd_transaction p) = jsint c"
proof -
  obtain runtime where r: "assertRuntime (nc_dateValid C) runtimeInput = Inr runtime"
    using assms by (auto simp: prepareDepositNote_def res_simps)
  obtain c where c: "runtime_chainId runtime = jsint c" "c \<in> {4326, 6343}" "isEvmAddress (text_of runtime ''pool'')"
    using asserted_network [OF r] .
  show thesis
    using assms that [OF r c] by (auto simp: prepareDepositNote_def r Let_def res_simps c(1))
qed

lemma deposit_asset: "to_lower NULLARK_NATIVE_ETH_ASSET_ID = Sdk_Witness.NATIVE_ETH_ASSET_ID"
  by (simp add: NULLARK_NATIVE_ETH_ASSET_ID_def Sdk_Witness.NATIVE_ETH_ASSET_ID_def lower_char_def is_upper_def code_def to_lower_def)

lemma wallet_keys:
  "deriveWalletRecoveryKey C sig chainId pool app = Inr k \<Longrightarrow> \<exists>keys. map_res (deriveWalletRecoveryKey C sig chainId pool) apps = Inr keys"
proof (induction apps)
  case (Cons a apps)
  then have "\<exists>k'. deriveWalletRecoveryKey C sig chainId pool a = Inr k'"
    by (auto simp: deriveWalletRecoveryKey_def split: if_splits)
  with Cons show ?case by auto
qed simp

lemma event_alone_recovered:
  assumes "deriveWalletRecoveryKey C sig chainId pool NULLARK_RECOVERY_APP_ID = Inr k" "getNullarkRecoveryEpochId chainId = Inr epoch"
    "deriveNoteKey C k (dn_commitment event) epoch = Inr noteKey"
    "makeRecoveryAssociatedData chainId pool action (dn_commitment event) = Inr aad" "action \<in> set (tried_actions (dn_action event))"
    "encryptSpendMaterialEnvelope C noteKey nonce m aad = Inr envelope"
    "serializeEncryptedNoteEnvelopeToHex envelope = Inr (dn_encryptedNote event)"
    "opens_only_to C noteKey nonce aad (object_text (spend_json m))" "dn_action event \<noteq> NWithdrawOutput"
    "num_eq (sm_chainId m) chainId" "to_lower (sm_pool m) = to_lower pool"
    "deriveCommitment m = Inr c" "to_lower c = to_lower (dn_commitment event)"
  shows "recoverSpendMaterialFromDecodedNoteEvents C deriveCommitment sig chainId pool [event] = Inr [(event, m)]"
proof -
  obtain keys where keys: "map_res (deriveWalletRecoveryKey C sig chainId pool)
      (js_unique [NULLARK_RECOVERY_APP_ID, LEGACY_SHIELDED_TRANSFERS_RECOVERY_APP_ID]) = Inr keys"
    using wallet_keys [OF assms(1)] by blast
  have "k \<in> set keys" using derived_keys [OF keys disjI1 [OF refl] assms(1)] .
  then have "tryDecryptEvent C keys (js_unique [epoch, NULLARK_LEGACY_RECOVERY_EPOCH_ID_V1]) chainId pool event = Some m"
    by (intro tryDecrypt_encrypted [OF assms(3) _ _ assms(4-8)]) (use assms(9) in simp_all)
  moreover have "is_safe_integer chainId" "\<not> num_le chainId (jsint 0)" "isEvmAddress pool"
    using assms(1) by (auto simp: deriveWalletRecoveryKey_def split: if_splits)
  ultimately show ?thesis
    using assms(10-13) by (simp add: recoverSpendMaterialFromDecodedNoteEvents_def keys assms(2))
qed

lemma encrypted_keys:
  assumes "encrypt_for_wallet C nonce sig m = Inr n"
  obtains k epoch key aad envelope where
    "deriveWalletRecoveryKey C sig (sm_chainId m) (sm_pool m) NULLARK_RECOVERY_APP_ID = Inr k"
    "getNullarkRecoveryEpochId (sm_chainId m) = Inr epoch" "deriveNoteKey C k (sm_commitment m) epoch = Inr key"
    "makeRecoveryAssociatedData (sm_chainId m) (sm_pool m) ADeposit (sm_commitment m) = Inr aad"
    "encryptSpendMaterialEnvelope C key nonce m aad = Inr envelope" "serializeEncryptedNoteEnvelopeToHex envelope = Inr n"
  using assms by (auto simp: encrypt_for_wallet_def res_simps)

lemma prepared_for:
  assumes "prepareDepositNote C V poseidon encode nonce clock runtimeInput input = Inr p"
    "assertRuntime (nc_dateValid C) runtimeInput = Inr runtime"
  shows "encrypt_for_wallet C nonce (di_walletSignature input) (pd_spendMaterial p) = Inr (pd_encryptedNote p)"
    "pd_commitment p = sm_commitment (pd_spendMaterial p)" "runtime_chainId runtime = sm_chainId (pd_spendMaterial p)"
    "text_of runtime ''pool'' = sm_pool (pd_spendMaterial p)"
    "deriveCommitmentFromSpendMaterial poseidon (pd_spendMaterial p) = Inr (pd_commitment p)"
    "assertNoteForPool (pd_spendMaterial p) (runtime_chainId runtime) (text_of runtime ''pool'') = Inr ()"
proof -
  have "encrypt_for_wallet C nonce (di_walletSignature input) (pd_spendMaterial p) = Inr (pd_encryptedNote p) \<and>
    pd_commitment p = sm_commitment (pd_spendMaterial p) \<and> runtime_chainId runtime = sm_chainId (pd_spendMaterial p) \<and>
    text_of runtime ''pool'' = sm_pool (pd_spendMaterial p) \<and>
    deriveCommitmentFromSpendMaterial poseidon (pd_spendMaterial p) = Inr (pd_commitment p) \<and>
    assertNoteForPool (pd_spendMaterial p) (runtime_chainId runtime) (text_of runtime ''pool'') = Inr ()"
  proof (rule prepared [OF assms(1)], goal_cases)
    case (1 r c created b packet)
    have r: "r = runtime" using 1(1) assms(2) by simp
    note note_facts = new_deposit_note_Inr [OF 1(5) [unfolded r]]
    have "assertNoteForPool (pd_spendMaterial p) (runtime_chainId runtime) (text_of runtime ''pool'') = Inr ()"
      unfolding assertNoteForPool_def first_throw_Inr 1(2) [unfolded r]
      using note_facts(1,2,5-9) deposit_asset by (simp add: num_eq_def)
    with 1(2,6,10) r note_facts show ?case by simp
  qed
  then show "encrypt_for_wallet C nonce (di_walletSignature input) (pd_spendMaterial p) = Inr (pd_encryptedNote p)"
    "pd_commitment p = sm_commitment (pd_spendMaterial p)" "runtime_chainId runtime = sm_chainId (pd_spendMaterial p)"
    "text_of runtime ''pool'' = sm_pool (pd_spendMaterial p)"
    "deriveCommitmentFromSpendMaterial poseidon (pd_spendMaterial p) = Inr (pd_commitment p)"
    "assertNoteForPool (pd_spendMaterial p) (runtime_chainId runtime) (text_of runtime ''pool'') = Inr ()"
    by blast+
qed

lemma deposit_recovered_alone:
  assumes "prepareDepositNote C V poseidon encode nonce clock runtimeInput input = Inr p"
    "assertRuntime (nc_dateValid C) runtimeInput = Inr runtime"
    "dn_action event = NDeposit" "dn_commitment event = pd_commitment p" "dn_encryptedNote event = pd_encryptedNote p"
    "\<forall>key aad. opens_only_to C key nonce aad (object_text (spend_json (pd_spendMaterial p)))"
  shows "recoverSpendMaterialFromDecodedNoteEvents C (deriveCommitmentFromSpendMaterial poseidon) (di_walletSignature input)
      (runtime_chainId runtime) (text_of runtime ''pool'') [event] = Inr [(event, pd_spendMaterial p)]"
proof -
  note p = prepared_for [OF assms(1,2)]
  have "num_eq (sm_chainId (pd_spendMaterial p)) (runtime_chainId runtime)"
    using p(6) unfolding assertNoteForPool_def first_throw_Inr by simp
  then have same: "num_eq (sm_chainId (pd_spendMaterial p)) (sm_chainId (pd_spendMaterial p))" by (simp only: p(3))
  from p(1) show ?thesis
    unfolding p(3,4)
  proof (rule encrypted_keys)
    fix k epoch key aad envelope
    assume keys: "deriveWalletRecoveryKey C (di_walletSignature input) (sm_chainId (pd_spendMaterial p)) (sm_pool (pd_spendMaterial p))
        NULLARK_RECOVERY_APP_ID = Inr k" "getNullarkRecoveryEpochId (sm_chainId (pd_spendMaterial p)) = Inr epoch"
      "deriveNoteKey C k (sm_commitment (pd_spendMaterial p)) epoch = Inr key"
      "makeRecoveryAssociatedData (sm_chainId (pd_spendMaterial p)) (sm_pool (pd_spendMaterial p)) ADeposit
        (sm_commitment (pd_spendMaterial p)) = Inr aad"
      "encryptSpendMaterialEnvelope C key nonce (pd_spendMaterial p) aad = Inr envelope"
      "serializeEncryptedNoteEnvelopeToHex envelope = Inr (pd_encryptedNote p)"
    have commitment: "dn_commitment event = sm_commitment (pd_spendMaterial p)" using assms(4) p(2) by simp
    show "recoverSpendMaterialFromDecodedNoteEvents C (deriveCommitmentFromSpendMaterial poseidon) (di_walletSignature input)
      (sm_chainId (pd_spendMaterial p)) (sm_pool (pd_spendMaterial p)) [event] = Inr [(event, pd_spendMaterial p)]"
      by (rule event_alone_recovered [where deriveCommitment = "deriveCommitmentFromSpendMaterial poseidon", OF keys(1,2) keys(3,4) [folded commitment] _ keys(5) keys(6) [folded assms(5)]
            spec [OF spec [OF assms(6)]] _ same _ p(5)])
        (simp_all add: assms(3,4) tried_actions_def)
  qed
qed

text \<open>
  C21: A deposit can be found and spent again. When a deposit has been prepared and its note announced by
  the pool, the depositor's wallet recovers exactly the prepared spend material from that event,
  whatever other events are read with it (AES-GCM opening a ciphertext to nothing but its text), and
  reading the event alone does not fail; the recovered note passes the checks a withdrawal from this pool makes of it, its commitment being
  the one announced.
\<close>

theorem deposited_note_recovered:
  assumes "prepareDepositNote C V poseidon encode nonce clock runtimeInput input = Inr p"
    "assertRuntime (nc_dateValid C) runtimeInput = Inr runtime"
    "recoverSpendMaterialFromDecodedNoteEvents C (deriveCommitmentFromSpendMaterial poseidon) (di_walletSignature input)
       (runtime_chainId runtime) (text_of runtime ''pool'') events = Inr recovered"
    "event \<in> set events" "dn_action event = NDeposit" "dn_commitment event = pd_commitment p"
    "dn_encryptedNote event = pd_encryptedNote p" "\<forall>key aad. opens_only_to C key nonce aad (object_text (spend_json (pd_spendMaterial p)))"
  shows "((event, m) \<in> set recovered \<longleftrightarrow> m = pd_spendMaterial p) \<and>
    recoverSpendMaterialFromDecodedNoteEvents C (deriveCommitmentFromSpendMaterial poseidon) (di_walletSignature input)
      (runtime_chainId runtime) (text_of runtime ''pool'') [event] = Inr [(event, pd_spendMaterial p)] \<and>
    assertNoteForPool (pd_spendMaterial p) (runtime_chainId runtime) (text_of runtime ''pool'') = Inr () \<and>
    deriveCommitmentFromSpendMaterial poseidon (pd_spendMaterial p) = Inr (pd_commitment p)"
proof -
  note p = prepared_for [OF assms(1,2)]
  from p(1) have "(event, m) \<in> set recovered \<longleftrightarrow> m = pd_spendMaterial p"
  proof (rule encrypted_keys)
    fix k epoch key aad envelope
    assume keys: "deriveWalletRecoveryKey C (di_walletSignature input) (sm_chainId (pd_spendMaterial p)) (sm_pool (pd_spendMaterial p))
        NULLARK_RECOVERY_APP_ID = Inr k" "getNullarkRecoveryEpochId (sm_chainId (pd_spendMaterial p)) = Inr epoch"
      "deriveNoteKey C k (sm_commitment (pd_spendMaterial p)) epoch = Inr key"
      "makeRecoveryAssociatedData (sm_chainId (pd_spendMaterial p)) (sm_pool (pd_spendMaterial p)) ADeposit
        (sm_commitment (pd_spendMaterial p)) = Inr aad"
      "encryptSpendMaterialEnvelope C key nonce (pd_spendMaterial p) aad = Inr envelope"
      "serializeEncryptedNoteEnvelopeToHex envelope = Inr (pd_encryptedNote p)"
    show ?thesis
      by (rule encrypted_event_recovered [OF assms(3,4) _ keys(1) [folded p(3,4)] disjI1 [OF refl] keys(3) [folded p(2) assms(6)]
            disjI1 [OF keys(2) [folded p(3)]] keys(4) [folded p(2-4) assms(6)] _ keys(5) keys(6) [folded assms(7)]
            spec [OF spec [OF assms(8)]] _ _ p(5)])
        (simp_all add: assms(5,6) tried_actions_def p(3,4))
  qed
  with deposit_recovered_alone [OF assms(1,2,5-8)] p(5,6) show ?thesis by blast
qed

lemma word_value_iff:
  assumes "isHexBytes32 v" "0 \<le> n" "n < 2 ^ 256"
  shows "hex_value v = n \<longleftrightarrow> to_lower v = to_lower (toBytes32 n)"
proof -
  have "to_lower (toBytes32 n) = toBytes32 n"
    using toBytes32_hex_value [OF toBytes32_shape [OF assms(2,3)]] assms(2) by simp
  moreover have "hex_value (to_lower v) = hex_value v"
    using isHexBytes32_isHexString [OF assms(1)] by simp
  ultimately show ?thesis
    using toBytes32_hex_value [OF assms(1)] assms(2) by (metis hex_value_toBytes32)
qed

lemma pool_word_tail:
  assumes "isHexBytes32 v" "isEvmAddress pool"
  shows "to_lower (bytes32ToEvmAddress v) = to_lower pool \<longleftrightarrow> drop 26 (to_lower v) = drop 26 (address_word pool)"
proof -
  have "length v = 66" using assms(1) by (simp add: isHexBytes32_def hex_of_length_def)
  moreover obtain t where "pool = ''0x'' @ t" using assms(2) by (auto simp: isEvmAddress_def elim: hex_of_lengthE)
  ultimately show ?thesis
    by (simp add: bytes32ToEvmAddress_def address_word_def to_lower_drop lower_char_def is_upper_def code_def)
qed

lemma deposit_inputs_Inr:
  "assertDepositProofPublicInputs xs = Inr ys \<longleftrightarrow> length xs = 6 \<and> list_all isHexBytes32 xs \<and> ys = xs"
proof -
  have "map_res (\<lambda>v. if \<not> isHexBytes32 v then Inl e else Inr v) xs = Inr ys \<longleftrightarrow> list_all isHexBytes32 xs \<and> ys = xs" for e :: string
    by (induction xs arbitrary: ys) (auto simp: res_simps)
  then show ?thesis by (simp add: assertDepositProofPublicInputs_def)
qed

lemma deposit_encode_Inr:
  "deposit_encodeUint256 v = Inr w \<longleftrightarrow> 0 \<le> v \<and> v < 2 ^ 256 \<and> w = toBytes32 v"
  "deposit_encodeAddress a = Inr w \<longleftrightarrow> isEvmAddress a \<and> w = address_word a"
  by (auto simp: deposit_encodeUint256_def deposit_encodeAddress_def pad_start_def address_word_def to_lower_drop isEvmAddress_def
      elim!: hex_of_lengthE)

lemma deposit_packet_accepted:
  assumes "createDepositProofBinding V chainId pool commitment amountWei encryptedNote = Inr b"
  shows "resolveDepositProof (Some (GivenPacket packet)) b = Inr r \<longleftrightarrow>
    r = packet \<and> isHexString (dp_proof packet) \<and> length (dp_publicInputs packet) = 6 \<and>
    list_all isHexBytes32 (dp_publicInputs packet) \<and>
    (\<forall>k \<in> {0, 1, 2, 4, 5}. to_lower (dp_publicInputs packet ! k) = to_lower (db_publicInputs b ! k)) \<and>
    drop 26 (to_lower (dp_publicInputs packet ! 3)) = drop 26 (db_publicInputs b ! 3)"
proof -
  from assms obtain ch eh where b: "0 \<le> int (radix_val 10 amountWei)" "int (radix_val 10 amountWei) < 2 ^ 256"
      "0 \<le> num_int chainId" "num_int chainId < 2 ^ 256" "isEvmAddress pool"
      "b = \<lparr>db_commitment = commitment, db_amountWei = amountWei, db_chainId = chainId, db_pool = pool,
        db_encryptedNote = encryptedNote, db_depositContextHash = ch, db_encryptedDepositNoteHash = eh,
        db_publicInputs = [commitment, toBytes32 (int (radix_val 10 amountWei)), toBytes32 (num_int chainId), address_word pool, ch, eh]\<rparr>"
    by (auto simp: createDepositProofBinding_def Let_def res_simps deposit_encode_Inr)
  show ?thesis
  proof (cases "length (dp_publicInputs packet) = 6 \<and> list_all isHexBytes32 (dp_publicInputs packet)")
    case True
    then have words: "isHexBytes32 (dp_publicInputs packet ! k)" if "k < 6" for k
      using that by (simp add: list_all_length)
    have "assertDepositProofPublicInputs (dp_publicInputs packet) = Inr (dp_publicInputs packet)"
      using True by (simp add: deposit_inputs_Inr)
    moreover have "assertDepositProofBinding (dp_publicInputs packet) b = Inr () \<longleftrightarrow>
        (\<forall>k \<in> {0, 1, 2, 4, 5}. to_lower (dp_publicInputs packet ! k) = to_lower (db_publicInputs b ! k)) \<and>
        drop 26 (to_lower (dp_publicInputs packet ! 3)) = drop 26 (db_publicInputs b ! 3)"
      using b(1-4) words [of 1] words [of 2] pool_word_tail [OF words [of 3] b(5)]
      unfolding assertDepositProofBinding_def first_throw_Inr b(6) by (auto simp: word_value_iff)
    ultimately show ?thesis
      using True by (auto simp: resolveDepositProof_def res_simps)
  next
    case False
    then show ?thesis
      by (auto simp: resolveDepositProof_def res_simps deposit_inputs_Inr)
  qed
qed

text \<open>
  C22: The proof of a deposit is checked against its note. A proof packet is accepted for a prepared note
  exactly when its bytes are hex and its six public inputs are, up to the case of hex digits, the
  commitment, amount, chain, pool, context hash and note hash of that note; of the pool's word only
  the last twenty bytes are compared.
\<close>

theorem deposit_proof_exact:
  assumes "createDepositProofBinding V chainId pool commitment amountWei encryptedNote = Inr b"
  shows "resolveDepositProof (Some (GivenPacket packet)) b = Inr r \<longleftrightarrow>
    r = packet \<and> isHexString (dp_proof packet) \<and> length (dp_publicInputs packet) = 6 \<and>
    list_all isHexBytes32 (dp_publicInputs packet) \<and>
    (\<forall>k \<in> {0, 1, 2, 4, 5}. to_lower (dp_publicInputs packet ! k) = to_lower (db_publicInputs b ! k)) \<and>
    drop 26 (to_lower (dp_publicInputs packet ! 3)) = drop 26 (db_publicInputs b ! 3)"
  by (rule deposit_packet_accepted [OF assms])

end
