(* ===== verification/Sdk_Runtime_Sample.thy ===== *)
theory Sdk_Runtime_Sample
  imports Sdk_Runtime
begin

text \<open>
  A runtime of each version and a release state made of them, evaluated by the checks of \<open>Sdk_Runtime\<close>.
\<close>

definition address_of :: "char \<Rightarrow> string" where
  "address_of c = ''0x'' @ replicate 39 c @ ''f''"

definition some_hash :: "char \<Rightarrow> json" where
  "some_hash c = JObj [(''sha256'', JStr (replicate 64 c))]"

definition runtime_v11 :: json where
  "runtime_v11 = JObj
    [(''schema'', JStr CURRENT_SCHEMA), (''productVersion'', JStr V11_VERSION), (''environment'', JStr ''megaeth-mainnet''),
     (''chainId'', JNum (jsint 4326)), (''rpcUrl'', JStr MAINNET_RPC), (''pool'', JStr (address_of (CHR ''1''))),
     (''merkleTreeDepth'', JNum (jsint 20)), (''withdrawalFeeBps'', JNum (jsint 33)),
     (''privateTransferVerifier'', JStr (address_of (CHR ''2''))), (''withdrawVerifier'', JStr (address_of (CHR ''3''))),
     (''verifierAdapter'', JStr (address_of (CHR ''4''))), (''withdrawVerifierBytecodeHash'', JStr ZERO_BYTES32),
     (''withdrawSelector'', JStr STAGE_C_SELECTOR), (''proverManifest'', some_hash (CHR ''a'')),
     (''trustedSetupRecord'', some_hash (CHR ''b'')),
     (''artifacts'', JObj [(''withdrawWasm'', some_hash (CHR ''c'')), (''withdrawFinalZkey'', some_hash (CHR ''e''))]),
     (''groth16PublicInputOrder'', JArr (map JStr NULLARK_WITHDRAW_PUBLIC_INPUT_ORDER_V1_1))]"

definition sample_evidence :: "string \<times> string \<Rightarrow> json" where
  "sample_evidence p = JObj [(''path'', JStr (fst p)), (''sha256'', JStr (snd p)), (''status'', JStr ''approved-for-mainnet'')]"

definition runtime_v12 :: json where
  "runtime_v12 = JObj
    [(''schema'', JStr CANDIDATE_SCHEMA), (''productVersion'', JStr V12_VERSION), (''environment'', JStr ''megaeth-mainnet''),
     (''chainId'', JNum (jsint 4326)), (''rpcUrl'', JStr MAINNET_RPC), (''pool'', JStr (address_of (CHR ''5''))),
     (''merkleTreeDepth'', JNum (jsint 20)), (''withdrawalFeeBps'', JNum (jsint 33)), (''feeController'', JStr (address_of (CHR ''6''))),
     (''feePolicy'', JObj [(''activeFeeBps'', JNum (jsint 33)), (''maxFeeBps'', JNum (jsint 100)),
        (''pendingFeeState'', JObj [(''pendingFeeBps'', JNull), (''pendingFeeActivationTime'', JNull), (''source'', JStr ''on-chain-feeBps'')])]),
     (''v1_2Readiness'', JObj [(''approvedForMainnet'', JBool True), (''ownerApprovedPromotion'', JBool True),
        (''promotionEvidence'', JArr (map sample_evidence PACKAGE_PINNED_V12_PROMOTION_EVIDENCE))]),
     (''depositVerifier'', JStr (address_of (CHR ''7''))), (''poseidon2'', JStr (address_of (CHR ''8''))),
     (''privateTransferVerifier'', JStr ZERO_VERIFIER), (''withdrawVerifier'', JStr (address_of (CHR ''3''))),
     (''verifierAdapter'', JStr (address_of (CHR ''9''))), (''withdrawVerifierBytecodeHash'', JStr ZERO_BYTES32),
     (''withdrawSelector'', JStr STAGE_C_SELECTOR), (''proverManifest'', some_hash (CHR ''a'')),
     (''trustedSetupRecord'', some_hash (CHR ''b'')),
     (''artifacts'', JObj [(''depositWasm'', some_hash (CHR ''c'')), (''depositFinalZkey'', some_hash (CHR ''c'')),
        (''withdrawWasm'', some_hash (CHR ''c'')), (''withdrawFinalZkey'', some_hash (CHR ''e''))]),
     (''groth16PublicInputOrder'', JArr (map JStr NULLARK_WITHDRAW_PUBLIC_INPUT_ORDER_V1_2))]"

lemma hex_chars: "c \<in> set ''0123456789abcdef'' \<Longrightarrow> is_hex_char c \<and> lower_char c = c"
proof -
  have "list_all (\<lambda>c. is_hex_char c \<and> lower_char c = c) ''0123456789abcdef''" by code_simp
  then show "c \<in> set ''0123456789abcdef'' \<Longrightarrow> is_hex_char c \<and> lower_char c = c" unfolding list_all_iff by blast
qed

lemma address_of_ok: "c \<in> set ''0123456789abcdef'' \<Longrightarrow> isEvmAddress (address_of c)"
  using hex_chars [of c] hex_chars [of "CHR ''f''"]
  by (simp add: isEvmAddress_def hex_of_length_def address_of_def starts_with_def list_all_iff)

lemma some_hash_ok: "c \<in> set ''0123456789abcdef'' \<Longrightarrow> is_text is_sha256_text (js_opt (Some (some_hash c)) ''sha256'')"
  using hex_chars [of c] by (simp add: is_text_def some_hash_def is_sha256_text_def list_all_iff to_lower_def)

lemma pinned_hash_ok: "p \<in> set PACKAGE_PINNED_V12_PROMOTION_EVIDENCE \<Longrightarrow> is_sha256_text (snd p) \<and> \<not> starts_with ''sha256:'' (snd p)"
proof -
  have ok: "is_sha256_text s" if "set s \<subseteq> set ''0123456789abcdef''" "length s = 64" for s
    using that hex_chars by (auto simp: is_sha256_text_def list_all_iff to_lower_def subset_iff intro!: map_idI)
  show "p \<in> set PACKAGE_PINNED_V12_PROMOTION_EVIDENCE \<Longrightarrow> is_sha256_text (snd p) \<and> \<not> starts_with ''sha256:'' (snd p)"
    by (auto simp: PACKAGE_PINNED_V12_PROMOTION_EVIDENCE_def starts_with_def intro!: ok)
qed

lemma sample_evidence_found:
  assumes "p \<in> set PACKAGE_PINNED_V12_PROMOTION_EVIDENCE"
  shows "isPackagePinnedV12PromotionEvidence (sample_evidence p) q = Inr (p = q)"
  using pinned_hash_ok [OF assms]
  by (auto simp: isPackagePinnedV12PromotionEvidence_def sample_evidence_def js_get_def json_field_def is_the_text_def is_text_def
      normalizePromotionEvidenceSha256_def prod_eq_iff)

lemma evidence_verified: "hasVerifiedV12PromotionEvidence runtime_v12 = Inr True"
proof -
  have "some_evidence (map sample_evidence ps) q = Inr (q \<in> set ps)" if "set ps \<subseteq> set PACKAGE_PINNED_V12_PROMOTION_EVIDENCE" for ps q
    using that by (induction ps) (auto simp: sample_evidence_found)
  then have "every_pinned (map sample_evidence PACKAGE_PINNED_V12_PROMOTION_EVIDENCE) ps = Inr True"
    if "set ps \<subseteq> set PACKAGE_PINNED_V12_PROMOTION_EVIDENCE" for ps
    using that by (induction ps) auto
  then show ?thesis
    by (simp add: hasVerifiedV12PromotionEvidence_def runtime_v12_def is_true_def)
qed

text \<open>Characters that are printed as they are.\<close>

fun visible :: "char \<Rightarrow> bool" where
  "visible (Char b0 b1 b2 b3 b4 b5 b6 b7) \<longleftrightarrow> b5 \<or> b6 \<or> b7"

lemma visible_code: "visible c \<Longrightarrow> 32 \<le> code c"
  by (cases c) (auto simp: code_def)

lemma plain_text:
  assumes "list_all (\<lambda>c. c \<noteq> CHR 0x22 \<and> c \<noteq> CHR 0x5C \<and> visible c) s"
  shows "json_string s = [quote_char] @ s @ [quote_char]"
proof -
  have "escape_char c = [c]" if "c \<in> set s" for c
    using assms that visible_code [of c] by (auto simp: list_all_iff escape_char_def quote_char_def backslash_char_def)
  then have "concat (map escape_char s) = s" by (induction s) simp_all
  then show ?thesis by (simp add: json_string_def)
qed

lemma no_path:
  assumes "list_all (\<lambda>c. c \<noteq> CHR 0x22 \<and> c \<noteq> CHR 0x5C \<and> visible c) s"
    "list_all (\<lambda>c. c \<noteq> CHR ''/'') s \<or> \<not> js_includes ''docs/evidence/'' s"
  shows "\<not> js_includes ''docs/evidence/'' (json_string s)"
proof -
  have "\<not> js_includes ''docs/evidence/'' s" using assms(2) js_includes_set [of "''docs/evidence/''" s] by (auto simp: list_all_iff)
  moreover have "quote_char \<notin> set ''docs/evidence/''" "''docs/evidence/'' \<noteq> []" by (simp_all add: quote_char_def)
  ultimately show ?thesis
    unfolding plain_text [OF assms(1)] using js_includes_sep [of quote_char "''docs/evidence/''" "[]" "s @ [quote_char]"]
      js_includes_sep [of quote_char "''docs/evidence/''" s "[]"] by simp
qed

definition pathless :: "json \<Rightarrow> bool" where
  "pathless v \<longleftrightarrow> \<not> js_includes ''docs/evidence/'' (searched_text v)"

lemma pathless_simps:
  "pathless (JObj kvs) \<longleftrightarrow> (\<forall>kv \<in> set kvs. \<not> js_includes ''docs/evidence/'' (json_string (fst kv)) \<and> pathless (snd kv))"
  "pathless (JStr s) \<longleftrightarrow> \<not> js_includes ''docs/evidence/'' (json_string s)"
  "pathless (JArr vs) \<longleftrightarrow> (\<forall>v \<in> set vs. pathless v)"
  "pathless JNull"
proof -
  show "pathless (JObj kvs) \<longleftrightarrow> (\<forall>kv \<in> set kvs. \<not> js_includes ''docs/evidence/'' (json_string (fst kv)) \<and> pathless (snd kv))"
    unfolding pathless_def by (subst searched_includes) auto
  show "pathless (JStr s) \<longleftrightarrow> \<not> js_includes ''docs/evidence/'' (json_string s)"
    by (simp add: pathless_def searched_text_def)
  have "js_includes ''docs/evidence/'' (''['' @ join_comma ts @ '']'') \<longleftrightarrow> (\<exists>t \<in> set ts. js_includes ''docs/evidence/'' t)" for ts
    using js_includes_sep [of "CHR ''[''" "''docs/evidence/''" "[]" "join_comma ts @ '']''"]
      js_includes_sep [of "CHR '']''" "''docs/evidence/''" "join_comma ts" "[]"] js_includes_join [of "''docs/evidence/''" ts] by simp
  moreover have "searched_text (JArr vs) = ''['' @ join_comma (map searched_text vs) @ '']''"
  proof -
    have "stringify (printable v) = Some (searched_text v)" for v
      using stringify_printable [of v] by (auto simp: searched_text_def)
    then have "all_some (map stringify (map printable vs)) = Some (map searched_text vs)" by (auto simp: all_some_def comp_def)
    then show ?thesis by (simp add: searched_text_def)
  qed
  ultimately show "pathless (JArr vs) \<longleftrightarrow> (\<forall>v \<in> set vs. pathless v)" by (simp add: pathless_def)
  show "pathless JNull" unfolding pathless_def by code_simp
qed

lemma pathless_number: "0 \<le> i \<Longrightarrow> i \<le> MAX_SAFE_INTEGER \<Longrightarrow> pathless (JNum (jsint i))"
  using number_hides_path by (simp add: pathless_def)

lemmas runtime_texts = CURRENT_SCHEMA_def CANDIDATE_SCHEMA_def V11_VERSION_def V12_VERSION_def MAINNET_RPC_def ZERO_VERIFIER_def
  STAGE_C_SELECTOR_def

lemma runtimes_pathless: "pathless (without_readiness runtime_v11)" "pathless (without_readiness runtime_v12)"
  by (simp_all add: without_readiness_def runtime_v11_def runtime_v12_def runtime_texts some_hash_def address_of_def ZERO_BYTES32_def
      NULLARK_WITHDRAW_PUBLIC_INPUT_ORDER_V1_1_def NULLARK_WITHDRAW_PUBLIC_INPUT_ORDER_V1_2_def pathless_simps no_path pathless_number
      MAX_SAFE_INTEGER_def starts_with_def del: of_int_numeral)

lemma zero_word_hex: "isHexBytes32 ZERO_BYTES32"
  by (simp add: isHexBytes32_def hex_of_length_def ZERO_BYTES32_def starts_with_def list_all_iff is_hex_char_def is_digit_def code_def)

lemma runtime_numbers: "is_safe_integer (jsint 20)" "\<not> num_le (jsint 20) (jsint 0)" "is_safe_integer (jsint 33)"
  "is_safe_integer (jsint 100)" "\<not> num_less (jsint 33) (jsint 0)" "\<not> num_less (jsint 100) (jsint 0)"
  by (simp_all only: num_cmp_jsint is_safe_integer_jsint) (simp_all add: MAX_SAFE_INTEGER_def)

lemma v11_fields: "js_opt (Some runtime_v11) ''schema'' = Some (JStr CURRENT_SCHEMA)"
  "js_opt (Some runtime_v11) ''proverManifest'' = Some (some_hash (CHR ''a''))"
  "js_opt (Some runtime_v11) ''trustedSetupRecord'' = Some (some_hash (CHR ''b''))" "runtime_v11 \<noteq> JNull"
  by (simp_all add: runtime_v11_def)

lemma v12_fields: "js_opt (Some runtime_v12) ''schema'' = Some (JStr CANDIDATE_SCHEMA)"
  "js_opt (Some runtime_v12) ''proverManifest'' = Some (some_hash (CHR ''a''))"
  "js_opt (Some runtime_v12) ''trustedSetupRecord'' = Some (some_hash (CHR ''b''))" "runtime_v12 \<noteq> JNull"
  by (simp_all add: runtime_v12_def)

lemma v11_asserts: "assertRuntime date_ok runtime_v11 = Inr runtime_v11"
proof -
  have "first_throw (network_checks runtime_v11) = Inr ()"
    by (simp add: network_checks_def runtime_v11_def is_the_text_def is_the_number_def)
  moreover have "first_throw (contract_checks runtime_v11) = Inr ()"
    by (simp add: contract_checks_def runtime_v11_def is_the_text_def is_text_def address_of_ok zero_word_hex
        runtimePublicInputOrderMatches_def CURRENT_SCHEMA_def CANDIDATE_SCHEMA_def runtime_numbers MAX_SAFE_INTEGER_def del: of_int_numeral of_int_0)
  moreover have "hash_checks (js_opt (Some runtime_v11) ''artifacts'') (required_artifacts runtime_v11) = Inr ()"
    by (simp add: runtime_v11_def required_artifacts_def is_the_text_def CURRENT_SCHEMA_def CANDIDATE_SCHEMA_def some_hash_ok
        assertSafeSha256_def)
  moreover have "assertV12ReadinessEvidenceIsPackagePinned runtime_v11 = Inr ()"
    by (simp add: assertV12ReadinessEvidenceIsPackagePinned_def runtime_v11_def)
  moreover have "\<exists>fs. resolveRuntimeWithdrawalFeeState date_ok runtime_v11 = Inr fs \<and> fs_activeFeeBps fs = 33"
    by (simp add: resolveRuntimeWithdrawalFeeState_def runtime_v11_def js_truthy_def runtime_normalizeFeeBps_def runtime_numbers MAX_SAFE_INTEGER_def
        del: of_int_numeral of_int_0)
  moreover have "set_fee runtime_v11 33 = runtime_v11"
    by (simp add: set_fee_def runtime_v11_def)
  ultimately show ?thesis
    using runtimes_pathless(1) [unfolded pathless_def] v11_fields
    by (auto simp: assertRuntime_def res_simps is_the_text_def some_hash_ok)
qed

lemma v12_asserts: "assertRuntime date_ok runtime_v12 = Inr runtime_v12"
proof -
  have "first_throw (network_checks runtime_v12) = Inr ()"
    by (simp add: network_checks_def runtime_v12_def is_the_text_def is_the_number_def)
  moreover have "first_throw (contract_checks runtime_v12) = Inr ()"
    by (simp add: contract_checks_def runtime_v12_def is_the_text_def is_text_def address_of_ok zero_word_hex
        runtimePublicInputOrderMatches_def runtime_numbers MAX_SAFE_INTEGER_def del: of_int_numeral of_int_0)
  moreover have "hash_checks (js_opt (Some runtime_v12) ''artifacts'') (required_artifacts runtime_v12) = Inr ()"
    by (simp add: runtime_v12_def required_artifacts_def is_the_text_def some_hash_ok assertSafeSha256_def)
  moreover have "assertV12ReadinessEvidenceIsPackagePinned runtime_v12 = Inr ()"
  proof -
    have "\<exists>r. js_opt (Some runtime_v12) ''v1_2Readiness'' = Some (JObj r)" by (simp add: runtime_v12_def)
    then show ?thesis
      unfolding assertV12ReadinessEvidenceIsPackagePinned_def Let_def evidence_verified by (auto simp: js_get_def)
  qed
  moreover have "\<exists>fs. resolveRuntimeWithdrawalFeeState date_ok runtime_v12 = Inr fs \<and> fs_activeFeeBps fs = 33"
    by (simp add: resolveRuntimeWithdrawalFeeState_def runtime_v12_def js_truthy_def runtime_normalizeFeeBps_def runtime_numbers MAX_SAFE_INTEGER_def
        NULLARK_V1_2_MAX_WITHDRAWAL_FEE_BPS_def present_def del: of_int_numeral of_int_0)
  moreover have "set_fee runtime_v12 33 = runtime_v12"
    by (simp add: set_fee_def runtime_v12_def)
  ultimately show ?thesis
    using runtimes_pathless(2) [unfolded pathless_def] v12_fields
    by (auto simp: assertRuntime_def res_simps is_the_text_def some_hash_ok)
qed

lemma asserted_runtime_well_formed_witness: "runtime_ok runtime_v12 \<and> assertRuntime (\<lambda>_. False) runtime_v12 = Inr runtime_v12"
  using asserted_runtime_well_formed [OF v12_asserts] by blast

definition sample_state :: json where
  "sample_state = JObj
    [(''schema'', JStr ''nullark-sdk-runtime-state-v1''), (''currentRuntime'', JStr ''v1_2''), (''defaultDepositRuntime'', JStr ''v1_2''),
     (''mainnet4326Blocked'', JBool False), (''v1_1'', runtime_v11), (''v1_2'', runtime_v12)]"

lemma not_placeholder: "c \<in> set ''0123456789abcde'' \<Longrightarrow> \<not> isObviousPlaceholderAddress (address_of c)"
proof -
  assume c: "c \<in> set ''0123456789abcde''"
  then have "c \<in> set ''0123456789abcdef''" "c \<noteq> CHR ''f''" by auto
  then have low: "to_lower (address_of c) = address_of c" using hex_chars [of c] hex_chars [of "CHR ''f''"]
    by (simp add: address_of_def to_lower_def lower_char_def is_upper_def code_def)
  have third: "address_of c ! 2 = c" by (simp add: address_of_def nth_append)
  have "drop 2 (address_of c) \<noteq> replicate 40 (address_of c ! 2)"
  proof
    assume "drop 2 (address_of c) = replicate 40 (address_of c ! 2)"
    then have "replicate 39 c @ ''f'' = replicate 40 c" unfolding third by (simp add: address_of_def)
    then have "last (replicate 39 c @ ''f'') = last (replicate 40 c)" by simp
    with \<open>c \<noteq> CHR ''f''\<close> show False by simp
  qed
  moreover have "address_of c \<noteq> ''0x0000000000000000000000000000000000000000''" "address_of c \<noteq> ''0xdead000000000000000000000000000000000000''"
    using arg_cong [of "address_of c" _ last] by (auto simp: address_of_def)
  ultimately show ?thesis
    unfolding isObviousPlaceholderAddress_def low Let_def by blast
qed

lemma sample_state_asserts: "\<exists>st. assertRuntimeState date_ok sample_state = Inr st \<and> rs_currentRuntime st = ''v1_2''"
proof -
  have "to_lower (text_of runtime_v12 ''pool'') \<noteq> to_lower (text_of runtime_v11 ''pool'')"
    "to_lower (address_of (CHR ''6'')) \<notin> (\<lambda>k. to_lower (text_of runtime_v11 k)) ` {''pool'', ''withdrawVerifier'', ''verifierAdapter''}"
    by (simp_all add: text_of_def runtime_v11_def runtime_v12_def address_of_def lower_char_def is_upper_def code_def)
  moreover have "\<exists>fs. resolveRuntimeWithdrawalFeeState date_ok runtime_v12 = Inr fs \<and> fs_pendingFeeBps fs = None \<and>
      fs_pendingFeeActivationTime fs = None"
    by (simp add: resolveRuntimeWithdrawalFeeState_def runtime_v12_def js_truthy_def runtime_normalizeFeeBps_def runtime_numbers
        MAX_SAFE_INTEGER_def NULLARK_V1_2_MAX_WITHDRAWAL_FEE_BPS_def present_def del: of_int_numeral of_int_0)
  moreover have "candidate_addresses runtime_v12 = Inr (address_of (CHR ''6''))"
    by (simp add: candidate_addresses_def runtime_v12_def assertV12CandidateAddress_def address_of_ok not_placeholder)
  moreover have fields: "js_opt (Some runtime_v12) ''productVersion'' = Some (JStr V12_VERSION)"
    "js_opt (Some runtime_v12) ''environment'' = Some (JStr ''megaeth-mainnet'')" "js_opt (Some runtime_v12) ''chainId'' = Some (JNum (jsint 4326))"
    "js_opt (Some runtime_v12) ''rpcUrl'' = Some (JStr MAINNET_RPC)" "js_opt (Some runtime_v12) ''schema'' = Some (JStr CANDIDATE_SCHEMA)"
    "js_truthy (js_opt (js_opt (Some runtime_v12) ''feePolicy'') ''pendingFeeState'')"
    "js_opt (js_opt (js_opt (Some runtime_v12) ''feePolicy'') ''pendingFeeState'') ''source'' = Some (JStr ''on-chain-feeBps'')"
    "js_opt (Some runtime_v11) ''productVersion'' = Some (JStr V11_VERSION)"
    by (simp_all add: runtime_v12_def runtime_v11_def js_truthy_def)
  ultimately have "assertV12CandidatePublication date_ok sample_state runtime_v11 runtime_v12 = Inr ()"
    by (auto simp: assertV12CandidatePublication_def evidence_verified is_the_text_def is_the_number_def)
  then show ?thesis
    using fields \<open>to_lower (text_of runtime_v12 ''pool'') \<noteq> _\<close>
    by (simp add: assertRuntimeState_def sample_state_def v11_asserts v12_asserts evidence_verified is_the_text_def version_chosen_def
        js_get_def json_field_def)
qed

lemma runtime_state_guarded_witness:
  "\<exists>st. assertRuntimeState (\<lambda>_. False) sample_state = Inr st \<and> rs_currentRuntime st = ''v1_2'' \<and> evidence_pinned (rs_v1_2 st)"
  using runtime_state_guarded sample_state_asserts by blast

end
