(* ===== verification/Sdk_Deposit_Sample.thy ===== *)
theory Sdk_Deposit_Sample
  imports Sdk_Deposit Sdk_Runtime_Sample
begin

text \<open>One deposit, prepared for the runtime of version 1.2 and recovered by its wallet.\<close>

definition deposit_pool :: string where
  "deposit_pool = address_of (CHR ''5'')"

definition deposit_word :: string where
  "deposit_word = ''0x'' @ concat (replicate 31 ''00'') @ ''07''"

definition deposit_sample :: deposit_input where
  "deposit_sample = \<lparr>di_walletSignature = sample_sig, di_amountWei = ''5'', di_now = Some ''2026'',
     di_random = (\<lambda>_. replicate 31 0 @ [7]), di_depositProof = None\<rparr>"

definition deposit_material :: spend_material where
  "deposit_material = \<lparr>sm_version = ''spend-material-v1'', sm_chainId = jsint 4326, sm_pool = deposit_pool,
     sm_assetId = NULLARK_NATIVE_ETH_ASSET_ID, sm_noteAmountWei = ''5'', sm_ownerCommitment = deposit_word,
     sm_noteSecret = deposit_word, sm_blinding = deposit_word, sm_commitment = toBytes32 7, sm_createdAt = ''2026''\<rparr>"

abbreviation prepare_sample :: "string + prepared_deposit" where
  "prepare_sample \<equiv> prepareDepositNote toy_crypto sample_viem (\<lambda>_. 7) (\<lambda>_ _ _. Inr ''0x'') (zero_text 24) ''2026'' runtime_v12 deposit_sample"

lemma deposit_words: "isHexBytes32 deposit_word" "hex_value deposit_word = 7" "isHexBytes32 NULLARK_NATIVE_ETH_ASSET_ID"
    "hex_value NULLARK_NATIVE_ETH_ASSET_ID = 1" "list_all is_digit ''5''" "radix_val 10 ''5'' = 5"
  by code_simp+

lemma deposit_draw: "randomField 128 (di_random deposit_sample) k = Inr (deposit_word, Suc k)"
proof -
  have "byte_text (unat (0 :: 8 word)) = ''00''" "byte_text (unat (7 :: 8 word)) = ''07''" by code_simp+
  then have "''0x'' @ concat (map (\<lambda>b. byte_text (unat (b :: 8 word))) (replicate 31 0 @ [7])) = deposit_word"
    by (simp add: deposit_word_def)
  moreover have "(128::nat) = Suc 127" by simp
  ultimately show ?thesis
    using deposit_words(1,2) isHexBytes32_isHexString [OF deposit_words(1)]
    by (simp only: randomField.simps) (simp add: deposit_sample_def deposit_bytesToHex_def BN254_SCALAR_FIELD_def Let_def)
qed

lemma deposit_runtime: "runtime_chainId runtime_v12 = jsint 4326" "text_of runtime_v12 ''pool'' = deposit_pool"
  "isEvmAddress deposit_pool"
  by (simp_all add: runtime_chainId_def text_of_def runtime_v12_def deposit_pool_def address_of_ok)

lemma deposit_note: "new_deposit_note (\<lambda>_. 7) (jsint 4326) deposit_pool deposit_sample ''2026'' = Inr deposit_material"
proof -
  have "deriveNoteCommitment (\<lambda>_. 7) NULLARK_NATIVE_ETH_ASSET_ID ''5'' deposit_word deposit_word = Inr (toBytes32 7)"
    using deposit_words by (simp add: deriveNoteCommitment_def fieldElement_def positiveFieldElement_def normalizeHashOutput_def BN254_SCALAR_FIELD_def)
  then show ?thesis
    unfolding new_deposit_note_def deposit_draw bind_res_simps prod.case by (simp add: deposit_material_def deposit_sample_def)
qed

lemma deposit_encrypts: "\<exists>n. encrypt_for_wallet toy_crypto (zero_text 24) sample_sig deposit_material = Inr n"
proof -
  have valid: "validateSpendMaterialPlaintext toy_crypto deposit_material = Inr deposit_material"
    using deposit_words deposit_runtime(3) sample_chain_id
    by (simp add: validateSpendMaterialPlaintext_def deposit_material_def toy_crypto_def toBytes32_shape)
  have "isHexString (zero_text 24)" "hexByteLength (zero_text 24) = 12"
    using zero_bytes_zero_text [of 12] zero_bytes_props by simp_all
  moreover have "isHexString (nc_encrypt toy_crypto k (zero_text 24) aad (object_text (spend_json deposit_material)))"
    "nc_encrypt toy_crypto k (zero_text 24) aad (object_text (spend_json deposit_material)) \<noteq> ''0x''" for k aad
    using sample_opens [of k "zero_text 24" aad deposit_material] by (simp_all add: opens_only_to_def Let_def)
  ultimately have "\<exists>n. bind_res (encryptSpendMaterialEnvelope toy_crypto k (zero_text 24) deposit_material aad)
      serializeEncryptedNoteEnvelopeToHex = Inr n" for k aad
    by (simp add: encryptSpendMaterialEnvelope_def valid serializeEncryptedNoteEnvelopeToHex_def validateEncryptedNoteEnvelope_def)
  moreover have "sm_chainId deposit_material = jsint 4326" "sm_pool deposit_material = deposit_pool" "sm_commitment deposit_material = toBytes32 7"
    by (simp_all add: deposit_material_def)
  ultimately show ?thesis
    using deposit_runtime(3) sample_chain_id sample_pool_address(2)
    by (simp add: encrypt_for_wallet_def deriveWalletRecoveryKey_def getNullarkRecoveryEpochId_def deriveNoteKey_def
        makeRecoveryAssociatedData_def toBytes32_shape)
qed

lemma deposit_binds: "\<exists>b. createDepositProofBinding sample_viem (jsint 4326) deposit_pool (toBytes32 7) ''5'' n = Inr b \<and>
    resolveDepositProof None b = Inr \<lparr>dp_proof = ''0x'', dp_publicInputs = db_publicInputs b\<rparr>"
proof -
  let ?w = "toBytes32 7"
  have hash: "bind_res (sdk_encode_abi sample_viem vs) (deposit_hashAbiEncodedToField sample_viem) = Inr ?w" for vs
    by (simp add: sdk_encode_abi_def sample_viem_def deposit_hashAbiEncodedToField_def bigint_result_def js_bigint_toBytes32
        deposit_encodeUint256_def BN254_SCALAR_FIELD_def)
  let ?b = "\<lparr>db_commitment = ?w, db_amountWei = ''5'', db_chainId = jsint 4326, db_pool = deposit_pool, db_encryptedNote = n,
    db_depositContextHash = ?w, db_encryptedDepositNoteHash = ?w,
    db_publicInputs = [?w, toBytes32 5, toBytes32 4326, address_word deposit_pool, ?w, ?w]\<rparr>"
  have b: "createDepositProofBinding sample_viem (jsint 4326) deposit_pool ?w ''5'' n = Inr ?b"
    using deposit_runtime(3) deposit_words(6)
    by (simp add: createDepositProofBinding_def hashEncryptedDepositNote_def hashDepositContext_def hash deposit_encode_Inr
        deposit_encodeUint256_def Let_def res_simps del: of_int_numeral)
  have "list_all isHexBytes32 (db_publicInputs ?b)"
    using deposit_runtime(3) by (simp add: toBytes32_shape address_word_shape)
  moreover have "drop 26 (to_lower (address_word deposit_pool)) = drop 26 (address_word deposit_pool)"
    using address_word_shape(2) [OF deposit_runtime(3)] by simp
  ultimately have "resolveDepositProof (Some (GivenPacket \<lparr>dp_proof = ''0x'', dp_publicInputs = db_publicInputs ?b\<rparr>)) ?b =
      Inr \<lparr>dp_proof = ''0x'', dp_publicInputs = db_publicInputs ?b\<rparr>"
    unfolding deposit_packet_accepted [OF b] by (simp add: isHexString_def starts_with_def)
  with b show ?thesis by (auto simp: resolveDepositProof_def)
qed

lemma deposit_prepared: "\<exists>p. prepare_sample = Inr p \<and> pd_spendMaterial p = deposit_material \<and> pd_commitment p = toBytes32 7"
proof -
  obtain n where n: "encrypt_for_wallet toy_crypto (zero_text 24) sample_sig deposit_material = Inr n"
    using deposit_encrypts by blast
  obtain b where b: "createDepositProofBinding sample_viem (jsint 4326) deposit_pool (toBytes32 7) ''5'' n = Inr b"
    "resolveDepositProof None b = Inr \<lparr>dp_proof = ''0x'', dp_publicInputs = db_publicInputs b\<rparr>"
    using deposit_binds by blast
  have fields: "di_walletSignature deposit_sample = sample_sig" "di_amountWei deposit_sample = ''5''" "di_now deposit_sample = Some ''2026''"
    "di_depositProof deposit_sample = None" "nc_dateValid toy_crypto = (\<lambda>_. True)" "sm_commitment deposit_material = toBytes32 7"
    by (simp_all add: deposit_sample_def toy_crypto_def deposit_material_def)
  show ?thesis
    using n b deposit_words(5,6) sample_pool_address(2)
    by (simp add: prepareDepositNote_def fields v12_asserts deposit_runtime deposit_note or_else_def del: of_int_numeral)
qed

definition deposit_event :: "string \<Rightarrow> decoded_note" where
  "deposit_event n = \<lparr>dn_action = NDeposit, dn_commitment = toBytes32 7, dn_leafIndex = 0, dn_encryptedNote = n,
     dn_encryptionVersion = 1, dn_nullifier = None, dn_transactionHash = toBytes32 9\<rparr>"

lemma deposited_note_recovered_witness:
  "\<exists>p. prepare_sample = Inr p \<and>
     recoverSpendMaterialFromDecodedNoteEvents toy_crypto (deriveCommitmentFromSpendMaterial (\<lambda>_. 7)) sample_sig
       (jsint 4326) deposit_pool [deposit_event (pd_encryptedNote p)] = Inr [(deposit_event (pd_encryptedNote p), pd_spendMaterial p)]"
proof -
  obtain p where p: "prepare_sample = Inr p" "pd_spendMaterial p = deposit_material" "pd_commitment p = toBytes32 7"
    using deposit_prepared by blast
  let ?e = "deposit_event (pd_encryptedNote p)"
  have opens: "\<forall>key aad. opens_only_to toy_crypto key (zero_text 24) aad (object_text (spend_json (pd_spendMaterial p)))"
    using sample_opens by blast
  have runtime: "assertRuntime (nc_dateValid toy_crypto) runtime_v12 = Inr runtime_v12" by (rule v12_asserts)
  have e: "dn_action ?e = NDeposit" "dn_commitment ?e = pd_commitment p" "dn_encryptedNote ?e = pd_encryptedNote p"
    by (simp_all add: deposit_event_def p(3))
  have sig: "di_walletSignature deposit_sample = sample_sig" by (simp add: deposit_sample_def)
  from deposited_note_recovered [OF p(1) runtime deposit_recovered_alone [OF p(1) runtime e opens] _ e opens]
  show ?thesis using p(1) unfolding sig deposit_runtime by auto
qed

lemma deposit_proof_exact_witness:
  "\<exists>b r. createDepositProofBinding sample_viem (jsint 4326) deposit_pool (toBytes32 7) ''5'' ''0x'' = Inr b \<and>
     resolveDepositProof (Some (GivenPacket \<lparr>dp_proof = ''0x'', dp_publicInputs = db_publicInputs b\<rparr>)) b = Inr r \<and>
     length (dp_publicInputs r) = 6"
proof -
  obtain b where b: "createDepositProofBinding sample_viem (jsint 4326) deposit_pool (toBytes32 7) ''5'' ''0x'' = Inr b"
    "resolveDepositProof None b = Inr \<lparr>dp_proof = ''0x'', dp_publicInputs = db_publicInputs b\<rparr>"
    using deposit_binds by blast
  then have "resolveDepositProof (Some (GivenPacket \<lparr>dp_proof = ''0x'', dp_publicInputs = db_publicInputs b\<rparr>)) b =
      Inr \<lparr>dp_proof = ''0x'', dp_publicInputs = db_publicInputs b\<rparr>"
    by (simp add: resolveDepositProof_def)
  with deposit_proof_exact [OF b(1)] b(1) show ?thesis by blast
qed

end
