(* ===== verification/Sdk_Sample.thy ===== *)
theory Sdk_Sample
  imports Sdk_Accept
begin

text \<open>Concrete withdrawals: witnesses that the hypotheses of the properties of \<open>Sdk_Witness\<close>, \<open>Sdk_Prove\<close> and
  \<open>Sdk_Accept\<close> can hold.\<close>

section \<open>A note, a path and a request\<close>

definition spent_note :: spend_material where
  "spent_note = \<lparr>sm_version = ''spend-material-v1'', sm_chainId = jsint 6343, sm_pool = sample_pool,
     sm_assetId = NATIVE_ETH_ASSET_ID, sm_noteAmountWei = dec_string 5000000000000000, sm_ownerCommitment = toBytes32 2,
     sm_noteSecret = toBytes32 3, sm_blinding = toBytes32 4, sm_commitment = toBytes32 7, sm_createdAt = ''2026''\<rparr>"

definition sample_path :: merkle_path_payload where
  "sample_path = \<lparr>mp_commitment = toBytes32 7, mp_leafIndex = jsint 0, mp_root = toBytes32 9, mp_pathElements = [toBytes32 0],
     mp_pathIndices = [jsint 0], mp_chainId = jsint 6343, mp_pool = sample_pool, mp_latestCheckedBlock = ''latest''\<rparr>"

text \<open>The arguments are the gross amount, the byte every random byte is, and the encryption of the new note.\<close>

definition spend_request :: "string option \<Rightarrow> nat \<Rightarrow> (spend_material \<Rightarrow> string + string) option \<Rightarrow> witness_input" where
  "spend_request g r encrypt = \<lparr>bw_note = spent_note, bw_destination = sample_pool, bw_grossAmountWei = g,
     bw_chainId = jsint 6343, bw_pool = sample_pool, bw_merkleTreeDepth = jsint 1, bw_withdrawalFeeBps = None,
     bw_proofContextShape = None, bw_pendingWithdrawalFeeBps = None, bw_random = (\<lambda>_. replicate 32 r),
     bw_encrypt = encrypt, bw_now = ''2026''\<rparr>"

lemma spend_chain: "num_eq (jsint 6343) (jsint 6343)" "is_safe_integer (jsint 6343)" "\<not> num_le (jsint 6343) (jsint 0)"
  "is_safe_integer (jsint 0)" "\<not> num_less (jsint 0) (jsint 0)" "is_safe_integer (jsint 1)" "\<not> num_le (jsint 1) (jsint 0)"
  "\<not> num_less (jsint 32) (jsint 1)" "num_int (jsint 1) = 1" "num_int (jsint 0) = 0" "num_eq (jsint 0) (jsint 0)"
  unfolding num_cmp_jsint is_safe_integer_jsint by (simp_all add: MAX_SAFE_INTEGER_def)

lemma native_asset: "NATIVE_ETH_ASSET_ID = toBytes32 1"
  by code_simp

lemma small_word [simp]:
  assumes "0 < v" "v < 10000"
  shows "isBn254FieldElement (toBytes32 v)"
  using assms by (simp add: isBn254FieldElement_def toBytes32_shape BN254_SCALAR_FIELD_def)

lemma spend_amounts:
  assumes "g = None \<or> g = Some (dec_string 2000000000000000)"
  shows "withdrawal_amounts (spend_request g r encrypt) sample_path label =
    Inr (5000000000000000, case g of None \<Rightarrow> 5000000000000000 | Some _ \<Rightarrow> 2000000000000000)"
proof -
  have note_ok: "assertNoteForPool spent_note (jsint 6343) sample_pool = Inr ()"
    unfolding assertNoteForPool_def first_throw_Inr by (simp add: spent_note_def native_asset spend_chain del: of_int_numeral)
  have path_ok: "assertMerklePath sample_path (jsint 6343) sample_pool (toBytes32 7) (jsint 1) = Inr ()"
  proof -
    have "assertZeroAllowedField (toBytes32 0) l = Inr ()" "assertNonZeroField (toBytes32 9) l = Inr ()" for l
      by (simp_all add: w_fields_Inr toBytes32_shape BN254_SCALAR_FIELD_def)
    then show ?thesis
      using spend_chain unfolding assertMerklePath_def sample_path_def
      by (simp add: first_throw_Inr del: of_int_numeral of_int_1 of_int_0)
  qed
  have amount: "parsePositiveDecimalField (dec_string n) l = Inr n" if "n \<in> {5000000000000000, 2000000000000000}" for n l
    using that by (auto simp: parse_amount_Inr dec_string_def UINT128_MAX_def)
  have "sample_pool \<noteq> ZERO_ADDRESS" by (simp add: sample_pool_def ZERO_ADDRESS_def)
  then show ?thesis
    using assms note_ok path_ok amount sample_pool_address(1)
    by (auto simp: withdrawal_amounts_def spend_request_def) (simp_all add: spent_note_def amount)
qed

section \<open>Built witnesses\<close>

definition sample_build :: "string option \<Rightarrow> nat \<Rightarrow> (spend_material \<Rightarrow> string + string) option \<Rightarrow> string + v12_bundle" where
  "sample_build g r encrypt = buildV12UnlinkableWithdrawalWitness sample_viem (\<lambda>_. 7) (spend_request g r encrypt) sample_path"

lemma all_f_value: "foldl (\<lambda>acc c. acc * 16 + digit_val c) a (replicate n (CHR ''f'')) + 1 = (a + 1) * 16 ^ n"
proof (induction n arbitrary: a)
  case (Suc n)
  have "digit_val (CHR ''f'') = 15" by code_simp
  with Suc.IH [of "a * 16 + 15"] show ?case by (simp add: algebra_simps)
qed simp

lemma random_words: "isHexBytes32 (''0x'' @ concat (map byte_text (replicate 32 1)))"
  "isHexBytes32 (''0x'' @ concat (map byte_text (replicate 32 255)))"
  "BN254_SCALAR_FIELD \<le> hex_value (''0x'' @ concat (map byte_text (replicate 32 255)))"
proof -
  have bytes: "byte_text 1 = ''01''" "byte_text 255 = ''ff''" by code_simp+
  have f: "is_hex_char (CHR ''f'')" "is_hex_char (CHR ''1'')" by code_simp+
  have ff: "concat (replicate n ''ff'') = replicate (2 * n) (CHR ''f'')" for n
    by (induction n) simp_all
  have length01: "length (concat (replicate n ''01'')) = 2 * n" for n
    by (induction n) simp_all
  have "list_all is_hex_char (concat (replicate 32 ''01''))"
    by (simp add: list_all_iff f)
  then show "isHexBytes32 (''0x'' @ concat (map byte_text (replicate 32 1)))"
    unfolding map_replicate bytes by (simp add: isHexBytes32_def hex_of_length_def length01)
  show "isHexBytes32 (''0x'' @ concat (map byte_text (replicate 32 255)))"
    unfolding map_replicate bytes ff by (simp add: isHexBytes32_def hex_of_length_def f)
  have "radix_val 16 (replicate 64 (CHR ''f'')) + 1 = 16 ^ 64"
    using all_f_value [of 0 64] by (simp add: radix_val_def)
  then show "BN254_SCALAR_FIELD \<le> hex_value (''0x'' @ concat (map byte_text (replicate 32 255)))"
    unfolding map_replicate bytes ff by (simp add: hex_value_def BN254_SCALAR_FIELD_def)
qed

lemma output_made:
  assumes "r \<in> {1, 255}" "a \<in> {0, 3000000000000000}"
  shows "\<exists>m. createOutputNote (\<lambda>_. 7) (spend_request g r encrypt) a = Inr m \<and> sm_commitment m = toBytes32 7"
proof -
  have amount: "parseZeroAllowedDecimalField (dec_string a) l = Inr a" for l
    using assms(2) by (auto simp: parse_amount_Inr dec_string_def UINT128_MAX_def)
  have word: "isHexBytes32 (''0x'' @ concat (map byte_text (replicate 32 r)))"
    using assms(1) random_words by blast
  have "createRandomBytes32 (replicate 32 r) = Inr (''0x'' @ concat (map byte_text (replicate 32 r)))"
    by (simp add: createRandomBytes32_def)
  moreover have "deriveOutputNoteCommitment (\<lambda>_. 7) NATIVE_ETH_ASSET_ID (dec_string a) v v = Inr (toBytes32 7)" if "isHexBytes32 v" for v
    using that by (simp add: deriveOutputNoteCommitment_def amount native_asset w_assertBytes32_def toBytes32_shape)
  ultimately show ?thesis
    using word by (simp add: createOutputNote_def new_note_def) (simp add: spend_request_def spent_note_def)
qed

lemma envelope_made:
  assumes "isHexString ct" "to_lower ct \<noteq> ''0x''" "hexByteLength (to_lower ct) = 1"
  shows "\<exists>e n. createEncryptedOutputNoteV2Envelope (jsint 6343) sample_pool (toBytes32 7) ct None None None = Inr e \<and>
    serializeEncryptedOutputNoteV2EnvelopeToHex e = Inr n"
proof -
  have "\<exists>e. createEncryptedOutputNoteV2Envelope (jsint 6343) sample_pool (toBytes32 7) ct None None None = Inr e"
    using assms spend_chain(1) sample_pool_address(1)
    by (simp add: createEncryptedOutputNoteV2Envelope_def require_defs require_text_def Let_def default_padded_def given_def
        truthy_def requireMegaEthChainId_def num_eq_def ENCRYPTED_OUTPUT_NOTE_V2_PADDED_CIPHERTEXT_BYTES_def toBytes32_shape)
  then obtain e where e: "createEncryptedOutputNoteV2Envelope (jsint 6343) sample_pool (toBytes32 7) ct None None None = Inr e" by blast
  have "output_ok e" using created_envelope_ok [OF e] by simp
  from output_round_trip [OF this, of no_checks] e show ?thesis by (auto simp: no_checks_def)
qed

lemma spend_nullifier: "spent_nullifier (\<lambda>_. 7) (spend_request g r encrypt) sample_path = Inr (toBytes32 7)"
proof -
  have "positiveFieldElement (dec_string 5000000000000000) ''amount'' = Inr 5000000000000000"
    by (simp add: positiveFieldElement_def BN254_SCALAR_FIELD_def dec_string_def)
  then have "deriveCommitmentFromSpendMaterial (\<lambda>_. 7) spent_note = Inr (toBytes32 7)"
    by (simp add: deriveCommitmentFromSpendMaterial_def spent_note_def deriveNoteCommitment_def native_asset sample_field_elements
        normalizeHashOutput_def BN254_SCALAR_FIELD_def)
  moreover have "deriveNullifier (\<lambda>_. 7) (toBytes32 3) (jsint 0) (jsint 6343) sample_pool = Inr (toBytes32 7)"
    using spend_chain sample_pool_address(1)
    by (simp add: deriveNullifier_def sample_field_elements normalizeHashOutput_def BN254_SCALAR_FIELD_def
        del: of_int_numeral of_int_0)
  ultimately show ?thesis
    by (simp add: spent_nullifier_def spend_request_def Let_def) (simp add: spent_note_def sample_path_def)
qed

lemma seven_mod: "7 mod BN254_SCALAR_FIELD = 7" by (simp add: BN254_SCALAR_FIELD_def)

lemma hashes_made:
  assumes "isHexString n" "0 < g" "g \<le> 5000000000000000" "0 \<le> f" "f \<le> g"
  shows "computeV12UnlinkableWithdrawHashes sample_viem (built_exit (spend_request gross r encrypt) sample_path
      (PROOF_CONTEXT_V1_SHAPE_WITHDRAW_V1_2_FEE_GOVERNANCE sample_viem) (toBytes32 7) g f) (toBytes32 7) n =
    Inr \<lparr>wh_encryptedNoteHash = toBytes32 7, wh_relayerPolicyHash = toBytes32 7, wh_proofContextHash = toBytes32 7\<rparr>"
proof -
  have hash: "w_hashAbiEncodedToField sample_viem ''0x'' = Inr (toBytes32 7)"
    by (simp add: hashed_field_Inr) (simp add: sample_viem_def js_bigint_toBytes32 seven_mod)
  have enc: "sdk_encode_abi sample_viem vs = Inr ''0x''" for vs
    by (simp add: sdk_encode_abi_def sample_viem_def)
  have words: "toBytes32 7 \<noteq> ZERO_BYTES32" "toBytes32 9 \<noteq> ZERO_BYTES32" "isHexBytes32 (toBytes32 7)" "isHexBytes32 (toBytes32 9)"
    "isHexBytes32 (PROOF_CONTEXT_V1_SHAPE_WITHDRAW_V1_2_FEE_GOVERNANCE sample_viem)" "hex_of_length 8 STAGE_C_SELECTOR"
    by (simp_all add: zero_word toBytes32_inj toBytes32_shape PROOF_CONTEXT_V1_SHAPE_WITHDRAW_V1_2_FEE_GOVERNANCE_def
        hashDomainSeparator_def sample_viem_def) code_simp
  have range: "g < 2 ^ 256" "f < 2 ^ 256" "g - f < 2 ^ 256" using assms by simp_all
  have chain: "assertSupportedChainId (jsint 6343) = Inr (jsint 6343)"
    using spend_chain(1) by (simp add: assertSupportedChainId_def del: of_int_numeral)
  show ?thesis
    using assms words range sample_pool_address(1) sample_zero_address(1) hash
    by (simp add: computeV12UnlinkableWithdrawHashes_def built_exit_def exit_target_def bind_context_def or_else_def
        sdk_hashEncryptedOutputNoteV2_def sdk_hashProofContextV1_def sdk_hashRelayerPolicyV1_def zero_policy_def Let_def
        spend_request_def sample_path_def chain w_assertAddress_def w_assertBytes32_def w_assertNonZeroBytes32_def
        w_assertBytes4_def w_assertHexBytes_def w_assertUint256_def w_assertPositiveUint256_def enc del: of_int_numeral)
qed

text \<open>What is left of the note, and what it is encrypted to.\<close>

definition sample_case :: "string option \<Rightarrow> (spend_material \<Rightarrow> string + string) option \<Rightarrow> int \<Rightarrow> int \<Rightarrow> bool" where
  "sample_case g encrypt grossAmount left \<longleftrightarrow>
     (g = None \<and> encrypt = None \<and> grossAmount = 5000000000000000 \<and> left = 0) \<or>
     (g = Some (dec_string 2000000000000000) \<and> encrypt = Some (\<lambda>_. Inr ''0xab'') \<and> grossAmount = 2000000000000000 \<and>
      left = 3000000000000000)"

lemma spend_amounts_case:
  assumes "sample_case g encrypt grossAmount left"
  shows "withdrawal_amounts (spend_request g r encrypt) sample_path label = Inr (5000000000000000, grossAmount)"
    "5000000000000000 - grossAmount = left"
  using assms spend_amounts [of g] by (auto simp: sample_case_def)

lemma spend_fee:
  assumes "sample_case g encrypt grossAmount left"
  shows "\<exists>f. withdrawal_fee (spend_request g r encrypt) grossAmount = Inr f \<and> 0 \<le> f \<and> f \<le> grossAmount"
proof -
  have "or_else (bw_withdrawalFeeBps (spend_request g r encrypt)) (jsint 33) = jsint 33"
    by (simp add: spend_request_def or_else_def)
  then have "withdrawal_fee (spend_request g r encrypt) grossAmount = Inr (grossAmount * 33 div 10000)"
    unfolding withdrawal_fee_Inr by (intro exI [of _ 33]) simp
  with assms show ?thesis by (auto simp: sample_case_def)
qed

lemma sample_built:
  assumes "sample_case g encrypt grossAmount left" "r \<in> {1, 255}"
  shows "\<exists>b. sample_build g r encrypt = Inr b"
proof -
  let ?i = "spend_request g r encrypt"
  have fields: "bw_chainId ?i = jsint 6343" "bw_pool ?i = sample_pool" "bw_destination ?i = sample_pool"
    by (simp_all add: spend_request_def)
  obtain f where f: "withdrawal_fee ?i grossAmount = Inr f" "0 \<le> f" "f \<le> grossAmount"
    using spend_fee [OF assms(1)] by blast
  have left: "left \<in> {0, 3000000000000000}" "0 < grossAmount" "grossAmount \<le> 5000000000000000"
    using assms(1) by (auto simp: sample_case_def)
  obtain m where m: "createOutputNote (\<lambda>_. 7) ?i left = Inr m" "sm_commitment m = toBytes32 7"
    using output_made [OF assms(2) left(1)] by blast
  obtain ct where ct: "(case (if left = 0 then None else Some m) of None \<Rightarrow> Inr V12_DUMMY_OUTPUT_CIPHERTEXT
      | Some n \<Rightarrow> encryptRequiredOutputNote ?i n) = Inr ct"
    "isHexString ct" "to_lower ct \<noteq> ''0x''" "hexByteLength (to_lower ct) = 1"
  proof -
    have texts: "isHexString ''0xab''" "to_lower ''0xab'' \<noteq> ''0x''" "hexByteLength (to_lower ''0xab'') = 1"
      "isHexString V12_DUMMY_OUTPUT_CIPHERTEXT" "to_lower V12_DUMMY_OUTPUT_CIPHERTEXT \<noteq> ''0x''"
      "hexByteLength (to_lower V12_DUMMY_OUTPUT_CIPHERTEXT) = 1"
      by code_simp+
    show ?thesis
    proof (cases "left = 0")
      case True
      with texts show ?thesis by (intro that [of V12_DUMMY_OUTPUT_CIPHERTEXT]) simp_all
    next
      case False
      with assms(1) texts show ?thesis
        by (intro that [of "''0xab''"])
          (auto simp: sample_case_def encryptRequiredOutputNote_def encrypt_required_def spend_request_def)
    qed
  qed
  obtain e n where e: "createEncryptedOutputNoteV2Envelope (jsint 6343) sample_pool (toBytes32 7) ct None None None = Inr e"
    "serializeEncryptedOutputNoteV2EnvelopeToHex e = Inr n"
    using envelope_made [OF ct(2-4)] by blast
  have "isHexString n"
    using created_note(1) [OF e refl refl] .
  note hashes = hashes_made [OF this left(2,3) f(2,3), of g r encrypt]
  have words: "sdk_addressToBytes32 sample_pool = Inr (address_word sample_pool)"
    unfolding sdk_addressToBytes32_Inr using sample_pool_address(1) by simp
  show ?thesis
    unfolding sample_build_def buildV12UnlinkableWithdrawalWitness_def Let_def spend_amounts_case(1) [OF assms(1)] bind_res_simps
      prod.case f(1) spend_amounts_case(2) [OF assms(1)] m ct(1) fields e spend_nullifier hashes words
    by blast
qed

definition sample_bundle_inputs :: "string list" where
  "sample_bundle_inputs = [toBytes32 9, toBytes32 7, toBytes32 7, address_word sample_pool, toBytes32 5000000000000000,
     toBytes32 16500000000000, toBytes32 6343, address_word sample_pool, toBytes32 7, toBytes32 7]"

lemma sample_bundle:
  assumes "sample_build None 1 None = Inr b"
  shows "ww_publicInputs b = sample_bundle_inputs \<and> in_grossAmountWei (ww_intent b) = dec_string 5000000000000000 \<and>
    in_feeWei (ww_intent b) = dec_string 16500000000000 \<and> ww_netAmountWei b = dec_string 4983500000000000 \<and>
    map_of (ww_witness b) ''fee'' = Some (WText (dec_string 16500000000000)) \<and>
    map_of (ww_witness b) ''grossAmount'' = Some (WText (dec_string 5000000000000000)) \<and>
    isHexString (ww_encryptedNote b) \<and> ww_encryptedNote b \<noteq> ''0x'' \<and> to_lower (ww_encryptedNote b) = ww_encryptedNote b \<and>
    (\<exists>signals. honest_signals (ww_witness b) signals)"
proof (rule built_v12E [OF assms [unfolded sample_build_def]], goal_cases)
  case (1 noteAmount g f bps out ct env hashes)
  have amounts: "noteAmount = 5000000000000000" "g = 5000000000000000"
    using 1(1) spend_amounts_case(1) [of None None 5000000000000000 0 1] by (simp_all add: sample_case_def)
  have bps: "bps = 33" using 1(2) by (simp add: spend_request_def or_else_def)
  then have f: "f = 16500000000000" using 1(5) amounts by simp
  have fields: "bw_chainId (spend_request None 1 None) = jsint 6343" "bw_pool (spend_request None 1 None) = sample_pool"
    "bw_destination (spend_request None 1 None) = sample_pool" "mp_root sample_path = toBytes32 9"
    by (simp_all add: spend_request_def sample_path_def)
  have out: "sm_commitment out = toBytes32 7"
    using 1(6) output_made [of 1 0 None None] amounts by auto
  have nullifier: "ww_nullifier b = toBytes32 7"
    using 1(10) spend_nullifier by simp
  have n: "isHexString (ww_encryptedNote b)" "ww_encryptedNote b \<noteq> ''0x''"
    "to_lower (ww_encryptedNote b) = ww_encryptedNote b"
    using created_note(1-3) [OF 1(8,9) refl refl] by simp_all
  have hashes: "wh_encryptedNoteHash hashes = toBytes32 7" "wh_proofContextHash hashes = toBytes32 7"
    using 1(11) hashes_made [OF n(1), of g f None 1 None] amounts f out nullifier by simp_all
  have entries: "map_of (ww_witness b) ''fee'' = Some (WText (dec_string f))"
    "map_of (ww_witness b) ''grossAmount'' = Some (WText (dec_string g))"
    using 1(16) by (simp_all add: NULLARK_WITHDRAW_PUBLIC_INPUT_ORDER_V1_2_def)
  have "\<exists>signals. honest_signals (ww_witness b) signals"
    unfolding honest_signals_def 1(16) by (rule exI, rule refl)
  then show ?case
    using n entries 1(13-15) fields out nullifier hashes
    by (simp add: amounts f sample_bundle_inputs_def del: of_int_numeral)
qed

lemma sample_bundle_made: "\<exists>b. sample_build None 1 None = Inr b"
  by (rule sample_built [of None None 5000000000000000 0]) (simp_all add: sample_case_def)

lemma unlinkable_witness_sound_witness:
  "\<exists>b grossAmount. sample_build None 1 None = Inr b \<and> 0 < grossAmount \<and>
     map_of (ww_witness b) ''grossAmount'' = Some (WText (dec_string grossAmount))"
proof -
  obtain b where b: "sample_build None 1 None = Inr b" using sample_bundle_made by blast
  from unlinkable_witness_sound [OF b [unfolded sample_build_def]] b show ?thesis by blast
qed

lemma own_proof_recognised_witness:
  "\<exists>b. sample_build None 1 None = Inr b \<and>
     validateV12UnlinkableWithdrawProofIntent sample_bundle_inputs (ww_intent b) = Inr ()"
proof -
  obtain b where b: "sample_build None 1 None = Inr b" using sample_bundle_made by blast
  have "list_all isHexBytes32 sample_bundle_inputs"
    using sample_pool_address(1) by (simp add: sample_bundle_inputs_def toBytes32_shape address_word_shape)
  with own_proof_recognised [OF b [unfolded sample_build_def], of sample_bundle_inputs] sample_bundle [OF b] b
  show ?thesis by auto
qed

definition sample_prover :: "string list \<Rightarrow> prover" where
  "sample_prover signals = (\<lambda>_ _ _. Inr (\<lparr>pi_a = SnArray [SnBigint 1, SnBigint 2, SnBigint 1],
     pi_b = SnArray [SnArray [SnBigint 3, SnBigint 4], SnArray [SnBigint 5, SnBigint 6], SnArray [SnBigint 1, SnBigint 0]],
     pi_c = SnArray [SnBigint 7, SnBigint 8, SnBigint 1]\<rparr>, signals))"

lemma proof_generation_exact_witness:
  "\<exists>b signals r. sample_build None 1 None = Inr b \<and>
     generateWithdrawalGroth16Proof (sample_prover signals) \<lparr>pa_withdrawWasm = [], pa_withdrawFinalZkey = []\<rparr> TrustedArtifacts
       (ww_witness b) None (Some (ww_intent b)) None (Some (jsint 33)) = Inr r \<and>
     wr_publicInputs r = map to_lower (ww_publicInputs b)"
proof -
  obtain b where b: "sample_build None 1 None = Inr b" using sample_bundle_made by blast
  obtain signals where signals: "honest_signals (ww_witness b) signals" using sample_bundle [OF b] by blast
  let ?pf = "\<lparr>pi_a = SnArray [SnBigint 1, SnBigint 2, SnBigint 1],
     pi_b = SnArray [SnArray [SnBigint 3, SnBigint 4], SnArray [SnBigint 5, SnBigint 6], SnArray [SnBigint 1, SnBigint 0]],
     pi_c = SnArray [SnBigint 7, SnBigint 8, SnBigint 1]\<rparr>"
  have "\<exists>cs. proofObjectToCandidateBytes ?pf = Inr cs"
    by (simp add: proofObjectToCandidateBytes_def parseUint256Tuple_def parseUint256Matrix3x2_def toSnarkBigInt_def)
  then obtain cs where cs: "proofObjectToCandidateBytes ?pf = Inr cs" by blast
  have safe: "is_safe_integer (jsint 33)"
    unfolding is_safe_integer_jsint by (simp add: MAX_SAFE_INTEGER_def)
  let ?r = "\<lparr>wr_proof = hd cs, wr_proofCandidates = cs, wr_publicInputs = map to_lower (ww_publicInputs b)\<rparr>"
  have "\<exists>g. map_of (ww_witness b) ''grossAmount'' = Some (WText (dec_string g)) \<and> 0 < g \<and>
      map_of (ww_witness b) ''fee'' = Some (WText (dec_string (g * 33 div 10000)))"
    using sample_bundle [OF b] by (intro exI [of _ 5000000000000000]) simp
  then have "generateWithdrawalGroth16Proof (sample_prover signals) \<lparr>pa_withdrawWasm = [], pa_withdrawFinalZkey = []\<rparr>
      TrustedArtifacts (ww_witness b) None (Some (ww_intent b)) None (Some (jsint 33)) = Inr ?r"
    using cs by (subst proof_generation_exact [OF b [unfolded sample_build_def] sample_prover_def [THEN fun_cong, THEN fun_cong, THEN fun_cong] signals safe])
      simp
  with b show ?thesis by (intro exI [of _ b] exI [of _ signals] exI [of _ ?r]) simp
qed

lemma unreduced_output_note_stranded_witness:
  "\<exists>b n. sample_build (Some (dec_string 2000000000000000)) 255 (Some (\<lambda>_. Inr ''0xab'')) = Inr b \<and> ww_newNote b = Some n \<and>
     (\<exists>e. deriveCommitmentFromSpendMaterial (\<lambda>_. 7) n = Inl e)"
proof -
  let ?g = "Some (dec_string 2000000000000000)" and ?enc = "Some (\<lambda>_. Inr ''0xab'') :: (spend_material \<Rightarrow> string + string) option"
  have c: "sample_case ?g ?enc 2000000000000000 3000000000000000" by (simp add: sample_case_def)
  then obtain b where b: "sample_build ?g 255 ?enc = Inr b" using sample_built by blast
  have out: "outside_field (bw_random (spend_request ?g 255 ?enc) 0)"
    using random_words(3) by (simp add: outside_field_def spend_request_def)
  have "ww_newNote b \<noteq> None"
    by (rule built_v12E [OF b [unfolded sample_build_def]])
      (use spend_amounts_case(1) [OF c, of 255] spend_amounts_case(2) [OF c] in \<open>auto split: if_splits\<close>)
  then obtain n where n: "ww_newNote b = Some n" by blast
  have "\<exists>e. deriveCommitmentFromSpendMaterial (\<lambda>_. 7) n = Inl e"
    using unreduced_output_note_stranded [OF out, THEN conjunct2, THEN spec, THEN spec, THEN mp, THEN mp, THEN conjunct1]
      b [unfolded sample_build_def] n .
  with b n show ?thesis by blast
qed

section \<open>Planned and relayed\<close>

definition accept_args :: "string \<Rightarrow> withdraw_args" where
  "accept_args n = \<lparr>wa_proof = ''0x01'', wa_publicInputs = sample_bundle_inputs, wa_nullifier = toBytes32 7,
     wa_destination = sample_pool, wa_grossAmount = 5000000000000000, wa_note = n, wa_minNetAmount = 4983500000000000,
     wa_maxFeeAmount = 16500000000000\<rparr>"

definition accept_abi :: "string \<Rightarrow> withdraw_abi" where
  "accept_abi n = \<lparr>wa_encode = (\<lambda>a. if a = accept_args n then Inr ''0x678d8506'' else Inl ''not encoded''),
     wa_decode = (\<lambda>_. Inr (WithdrawWithNote (accept_args n)))\<rparr>"

definition accept_lib :: "string \<Rightarrow> relay_lib" where
  "accept_lib n = \<lparr>rl_viem = sample_viem, get_address = Some, is_hex = (\<lambda>_. True),
     decode_abi = (\<lambda>_ _. Some [DBytes ''0x01'', DBytes32Array sample_bundle_inputs, DBytes32 (toBytes32 7),
       DAddress sample_pool, DUint 5000000000000000, DBytes n, DUint 4983500000000000, DUint 16500000000000])\<rparr>"

definition accept_plan :: plan_input where
  "accept_plan = \<lparr>wi_proof = ''0x01'', wi_publicInputs = sample_bundle_inputs, wi_nullifier = toBytes32 7,
     wi_destination = sample_pool, wi_grossAmountWei = dec_string 5000000000000000,
     wi_minNetAmountWei = dec_string 4983500000000000, wi_maxFeeWei = dec_string 16500000000000,
     pl_currentRoot = toBytes32 9, pl_note = None, pl_commitment = None, pl_nowEpochSeconds = None\<rparr>"

definition accept_runtime :: plan_runtime where
  "accept_runtime = \<lparr>rt_environment = ''megaeth-testnet-nullark'', rt_chainId = 6343, rt_pool = sample_pool,
     rt_poolDeploymentBlock = ''0x1'', rt_groth16PublicInputOrder = NULLARK_WITHDRAW_PUBLIC_INPUT_ORDER_V1_2\<rparr>"

lemma accept_words: "map to_lower sample_bundle_inputs = sample_bundle_inputs" "list_all isHexBytes32 sample_bundle_inputs"
  "length sample_bundle_inputs = 10"
  using sample_pool_address(1) by (simp_all add: sample_bundle_inputs_def toBytes32_shape address_word_shape)

lemma accept_laws:
  assumes "isHexString n" "to_lower n = n"
  shows "abi_faithful (accept_abi n)" "relay_reads (accept_abi n) (accept_lib n)" "viem_laws (accept_lib n)"
proof -
  have "read_back (accept_args n) (accept_args n)"
    using assms accept_words sample_pool_address(1)
    by (simp add: read_back_def accept_args_def plan_texts toBytes32_shape lower_char_def is_upper_def code_def)
  then show "abi_faithful (accept_abi n)" "relay_reads (accept_abi n) (accept_lib n)"
    by (auto simp: abi_faithful_def relay_reads_def accept_abi_def accept_lib_def plan_texts STAGE_C_SELECTOR_def accept_args_def
        starts_with_def lower_char_def is_upper_def code_def)
  show "viem_laws (accept_lib n)"
    by (simp add: viem_laws_def accept_lib_def sample_viem_def toBytes32_shape)
qed

lemma accept_checked: "assertV12UnlinkableWithdrawPublicInputBinding (plan_common accept_runtime accept_plan) = Inr ()"
proof -
  have inputs: "sample_bundle_inputs ! 0 = toBytes32 9" "sample_bundle_inputs ! Suc 0 = toBytes32 7"
    "sample_bundle_inputs ! 2 = toBytes32 7" "sample_bundle_inputs ! 3 = address_word sample_pool"
    "sample_bundle_inputs ! 4 = toBytes32 5000000000000000" "sample_bundle_inputs ! 6 = toBytes32 6343"
    "sample_bundle_inputs ! 7 = address_word sample_pool" "sample_bundle_inputs ! 8 = toBytes32 7"
    "sample_bundle_inputs ! 9 = toBytes32 7"
    by (simp_all add: sample_bundle_inputs_def)
  have words: "toBytes32 7 \<noteq> ZERO_BYTES32" "isHexBytes32 (toBytes32 9)" "isHexBytes32 (toBytes32 7)"
    "js_bigint (toBytes32 5000000000000000) = Some 5000000000000000" "js_bigint (toBytes32 6343) = Some 6343"
    by (simp_all add: zero_word toBytes32_inj toBytes32_shape js_bigint_toBytes32)
  show ?thesis
    using accept_words words spend_chain(1) sample_pool_address(1)
    by (simp add: assertV12UnlinkableWithdrawPublicInputBinding_def assertV12UnlinkableWithdrawPublicInputs_def plan_common_def
        accept_plan_def accept_runtime_def res_simps inputs plan_texts normalize_dec_string other_commitment_def del: of_int_numeral)
qed

lemma accept_encodes:
  assumes "isHexString n" "n \<noteq> ''0x''"
  shows "encodeV12UnlinkableWithdrawOutputNoteCalldata (accept_abi n) (plan_common accept_runtime accept_plan) n = Inr ''0x678d8506''"
proof -
  have words: "isHexBytes32 (toBytes32 7)" by (simp add: toBytes32_shape)
  show ?thesis
    using assms accept_words words sample_pool_address(1)
    by (simp add: encodeV12UnlinkableWithdrawOutputNoteCalldata_def
        normalizeWithdrawInputWithPublicInputShape_def assertV12UnlinkableWithdrawPublicInputs_def plan_common_def accept_plan_def
        res_simps plan_texts normalize_dec_string js_trim_hex accept_abi_def accept_args_def)
qed

lemma accept_encoded:
  assumes "isHexString n" "n \<noteq> ''0x''"
  shows "encodeVerifiedV12UnlinkableWithdrawOutputNoteCalldata (accept_abi n) (plan_common accept_runtime accept_plan) n
    = Inr ''0x678d8506''"
  by (simp add: encodeVerifiedV12UnlinkableWithdrawOutputNoteCalldata_def accept_checked accept_encodes [OF assms])

lemma accept_planned:
  assumes "isHexString n" "to_lower n = n" "n \<noteq> ''0x''"
  shows "\<exists>plan. createV12UnlinkableWithdrawalPlan (accept_abi n) 1000000 accept_runtime accept_plan n = Inr plan"
proof -
  note laws = accept_laws [OF assms(1,2)]
  obtain a where a: "wa_encode (accept_abi n) a = Inr ''0x678d8506''" "args_ok a"
    "args_of (plan_common accept_runtime accept_plan) n a"
    using encoded_output_args [OF accept_encoded [OF assms(1,3)]] by blast
  obtain d where d: "decodeStageCWithdrawCalldata (accept_abi n) ''0x678d8506'' = Inr d" "decoded_as a d"
    using encoded_decodes(2) [OF laws(1) a(1,2)] by blast
  have "a = accept_args n" using a(1) by (simp add: accept_abi_def split: if_splits)
  then have "dc_note d = n" "dc_publicInputs d = sample_bundle_inputs"
    using d(2) assms(2) accept_words by (simp_all add: decoded_as_def accept_args_def)
  then have "\<exists>x. decodeV12UnlinkableWithdrawOutputNoteCalldata (accept_abi n) ''0x678d8506'' = Inr x"
    using d(1) assms accept_words
    by (simp add: decodeV12UnlinkableWithdrawOutputNoteCalldata_def assertV12UnlinkableWithdrawPublicInputs_def res_simps js_trim_hex)
  then have "assertRuntimeWithdrawalCalldata (accept_abi n) accept_runtime ''0x678d8506'' = Inr ''0x678d8506''"
    by (auto simp: assertRuntimeWithdrawalCalldata_def usesV12UnlinkableWithdrawals_def accept_runtime_def)
  moreover have "is_safe_integer (jsint 120)" "\<not> num_le (jsint 120) (jsint 0)" "\<not> num_less (jsint 120) (jsint 120)"
    "is_safe_integer (jsint 1000000)" "\<not> num_le (jsint 1000000) (jsint 0)"
    by (simp_all only: num_cmp_jsint is_safe_integer_jsint) (simp_all add: MAX_SAFE_INTEGER_def)
  ultimately have "\<exists>plan. plan_of_calldata (accept_abi n) 1000000 accept_runtime accept_plan ''0x678d8506'' = Inr plan"
    using sample_pool_address(1)
    by (simp add: plan_of_calldata_def buildWithdrawalRelayerRequest_def buildDirectWalletWithdrawalTransaction_def
        assertPool_def or_else_def accept_plan_def) (simp add: accept_runtime_def)
  then show ?thesis
    using accept_encoded [OF assms(1,3)] by (simp add: createV12UnlinkableWithdrawalPlan_def)
qed

definition accept_request :: "string \<Rightarrow> calldata_input" where
  "accept_request calldata = \<lparr>ci_data = calldata, ci_chainId = jsint 6343, ci_pool = sample_pool,
     ci_relayValidationMode = Some V1_2_Unlinkable, ci_deadlineEpochSeconds = None, ci_expectedRelayer = None,
     ci_expectedRelayerPolicyHash = None, ci_feePolicy = None\<rparr>"

lemma sdk_withdrawal_accepted_by_relay_witness:
  "\<exists>b plan v. sample_build None 1 None = Inr b \<and>
     createV12UnlinkableWithdrawalPlan (accept_abi (ww_encryptedNote b)) 1000000 accept_runtime accept_plan (ww_encryptedNote b) = Inr plan \<and>
     validateWithdrawalRelayCalldata (accept_lib (ww_encryptedNote b)) (accept_request (wp_calldata plan)) = Inr v \<and> cv_allowed v"
proof -
  obtain b where b: "sample_build None 1 None = Inr b" using sample_bundle_made by blast
  let ?n = "ww_encryptedNote b"
  have n: "isHexString ?n" "?n \<noteq> ''0x''" "to_lower ?n = ?n" using sample_bundle [OF b] by blast+
  obtain plan where plan: "createV12UnlinkableWithdrawalPlan (accept_abi ?n) 1000000 accept_runtime accept_plan ?n = Inr plan"
    using accept_planned [OF n(1,3,2)] by blast
  have built: "buildV12UnlinkableWithdrawalWitness (rl_viem (accept_lib ?n)) (\<lambda>_. 7) (spend_request None 1 None) sample_path = Inr b"
    using b by (simp add: sample_build_def accept_lib_def)
  have proof_ok: "validateV12UnlinkableWithdrawProofIntent (wi_publicInputs accept_plan) (ww_intent b) = Inr ()"
    using own_proof_check [OF built] sample_bundle [OF b] accept_words by (simp add: accept_plan_def)
  have pool: "to_lower sample_pool \<noteq> ZERO_ADDRESS" by (simp add: sample_pool_def ZERO_ADDRESS_def lower_char_def is_upper_def code_def)
  have "\<exists>v. validateWithdrawalRelayCalldata (accept_lib ?n) (accept_request (wp_calldata plan)) = Inr v \<and> cv_allowed v"
    by (rule sdk_withdrawal_accepted_by_relay [OF accept_laws [OF n(1,3)] built proof_ok plan])
      (use sample_bundle [OF b] sample_pool_address(1) pool in \<open>simp_all add: accept_plan_def accept_request_def accept_runtime_def
        or_default_def or_else_def spend_request_def SUPPORTED_FIXED_DENOMINATIONS_def sample_denominations dec_string_def\<close>)
  with b plan show ?thesis by blast
qed

end
