(* ===== verification/Spec2Isabelle.thy ===== *)
theory Spec2Isabelle
  imports Broadcaster Denominations Fees Hex Hex_Text Idempotency Indexer_Bindings Indexer_Notes Indexer_Observations Indexer_State Js_Core Json Kv_Store Merkle Merkle_Index Merkle_Reconstruct Note_Recovery Proof_Context Ranges Rate_Limit Recovery_Api Relay_Bindings Relay_Calldata Relay_Unlinkable_Sample Relayer_Guarantees Relayer_Queue Relayer_Runtime Relayer_Sample Relayer_Worker Root_Logs Sdk_Accept Sdk_Deposit Sdk_Deposit_Sample Sdk_Envelope Sdk_Plan Sdk_Prove Sdk_Rpc Sdk_Runtime Sdk_Runtime_Sample Sdk_Sample Sdk_Withdraw Sdk_Witness 
begin

text \<open>
  Nullark is a shielded pool on MegaETH: deposits of fixed denominations become commitments in a
  Merkle tree, a zero-knowledge proof spends one of them, and a hosted relayer submits the
  withdrawal so that the user's own address never pays gas. This development models the TypeScript
  that carries those rules.
  \<^item> Prelude. \<open>Js_Core\<close>: results, strings, numbers. \<open>Hex\<close>: hex strings and bytes32 words. \<open>Json\<close>:
    \<^verbatim>\<open>JSON.parse\<close> and \<^verbatim>\<open>JSON.stringify\<close> with their round trip. \<open>Kv_Store\<close>: the interface of the
    relayer's key-value namespaces as they are documented, entries that expire and writes that are
    visible after a delay (locale \<open>kv_store\<close>, and \<open>prompt_kv_store\<close> for no delay), with an instance.
  \<^item> Amounts (\<^verbatim>\<open>packages/core\<close>). \<open>Denominations\<close>: denominations.ts, the greedy split and the exit
    menu. \<open>Fees\<close>: fees.ts, config.ts and notes.ts, fee calculation, sweeps, balances, solvency.
  \<^item> Proofs. \<open>Proof_Context\<close>: proofs.ts, the public inputs and hashed contexts a proof is bound to.
  \<^item> Tree. \<open>Merkle\<close>: paths and full trees. \<open>Merkle_Reconstruct\<close>: sdk/src/merkle/reconstruct.ts, a
    path from accepted log histories. \<open>Merkle_Index\<close>: services/indexer/src/merklePaths.ts, the
    cached index. \<open>Ranges\<close>: services/indexer/src/ranges.ts, which blocks have been scanned.
  \<^item> Relay (\<^verbatim>\<open>services/relay\<close>). \<open>Broadcaster\<close>: the broadcast policy. \<open>Rate_Limit\<close>: the counters.
    \<open>Idempotency\<close>: the records that keep a note from being sent twice, and the interface
    \<open>request_log\<close> they implement. \<open>Relay_Calldata\<close>: withdrawalCalldata.ts, the check of the
    calldata; \<open>Relay_Bindings\<close> proves what an accepted call is bound to and
    \<open>Relay_Unlinkable_Sample\<close> evaluates one of version 1.2.
  \<^item> Relayer worker (\<^verbatim>\<open>services/relayer-worker/src/index.ts\<close>). \<open>Relayer_Runtime\<close>: the runtime built
    from the environment and the pins of a mainnet runtime. \<open>Relayer_Worker\<close>: handleRelayRequest
    as the three stages between its awaits (admit, record the pending entry, submit), with every
    early answer. \<open>Relayer_Guarantees\<close>: what a request that is sent has passed, and which answers
    the handler gives. \<open>Relayer_Queue\<close>: the worker and its nonce queue as a step relation over
    concurrent requests, with reachability, the passing of time, how far apart two sends of one
    note must lie, and the drain of the queue;
    \<open>Relayer_Sample\<close> evaluates the handler on a concrete request for the witnesses.
  \<^item> Indexer (\<^verbatim>\<open>services/indexer\<close>). \<open>Indexer_Notes\<close>: encryptedNotes.ts, the note cache and the
    checks of envelopes and withdrawal bindings; \<open>Indexer_Bindings\<close> proves that they agree with the
    relay. \<open>Indexer_Observations\<close>: events.ts, anonymity.ts and freshness.ts. \<open>Indexer_State\<close>:
    logIngest.ts, the state and what a batch of logs leaves of it. \<open>Recovery_Api\<close>: recoveryApi.ts,
    the service that hands out Merkle paths.
  \<^item> SDK (\<^verbatim>\<open>packages/sdk\<close>). \<open>Sdk_Rpc\<close>: requests to a node, whose replies are a function of the
    requests made so far, and the chunked loop over blocks as a partial function with its
    termination. \<open>Root_Logs\<close>: merkle/rootLogs.ts, reading, normalising and the finality rules.
    \<open>Hex_Text\<close>: texts as hex. \<open>Sdk_Envelope\<close>: recovery/encryptedNoteEnvelope.ts, both envelope
    versions. \<open>Note_Recovery\<close>: recovery/logs.ts, recovery/recover.ts, notes/recover.ts,
    notes/poseidon.ts, how a wallet finds its notes. \<open>Sdk_Withdraw\<close>: withdraw/calldata.ts, the calldata of
    a withdrawal and its checks. \<open>Sdk_Plan\<close>: withdraw/plan.ts, relayer/request.ts, relayer/submit.ts and
    withdraw/preflight.ts, with the proof that the relay reads what the SDK planned. \<open>Sdk_Witness\<close>:
    withdraw/witness.ts, the circuit inputs of a withdrawal, its new note and the hashes it is bound to.
    \<open>Sdk_Prove\<close>: proving/withdrawProof.ts, running the prover and checking what it proved. \<open>Sdk_Accept\<close>
    joins the three with the relay: what the SDK built, checked and planned is allowed by the relay's
    calldata check, under laws of viem (\<open>viem_laws\<close>) since both sides hash for themselves. \<open>Sdk_Sample\<close>
    evaluates one withdrawal from note to calldata for the witnesses. \<open>Sdk_Runtime\<close>: runtime/current.ts,
    the checks of runtime files, fee states and the release state that chooses the version;
    \<open>Sdk_Runtime_Sample\<close> evaluates them on a runtime of each version. \<open>Sdk_Deposit\<close>: deposit/prepare.ts,
    with the proof that a deposited note is recovered from its event; \<open>Sdk_Deposit_Sample\<close> prepares one.

  Conventions. A function that throws returns \<open>'e + 'a\<close>; a validator that collects messages returns
  the list of them. Code outside the repository (viem's hashes, ABI coder, event decoder and address
  checksum, WebCrypto, the Poseidon hash, key-value namespaces, the node) is a parameter; what is relied on of it is a
  named hypothesis of a theorem or a locale. Loops are recursion on the data; the few with fuel
  (the JSON parser, with the length of the text) are given more than they can use.

  Not modelled: rounding of doubles beyond 2^53, characters above 255;
  the web application, documentation site, circuits, contracts, command line tools and the parts
  of the packages the manifest lists with a reason.
\<close>

end
